(* ===== verification/Prelude.thy ===== *)
theory Prelude
  imports Main "HOL-Library.Word"
begin

text \<open>
  The vocabulary every component shares.  Machine integers are words of the width the C source
  declares; the behaviours C leaves undefined or the kernel traps on (division by zero, an array
  index outside its array, a floating-point value that does not fit the integer it is converted to,
  a null pointer, a shift by the width or more) are values of \<open>c_fault\<close>, carried on
  the left of a sum.  A C loop over an index range is \<open>foldM\<close> over the list of
  indices; an array is a list of its declared length and every access goes through
  \<open>rd\<close> and \<open>wr\<close>, which fault outside the array.
\<close>

type_synonym u8 = "8 word"
type_synonym u16 = "16 word"
type_synonym u32 = "32 word"
type_synonym u64 = "64 word"

text \<open>A signed 32-bit C integer is a word read through \<open>sint\<close>.\<close>

type_synonym s32 = "32 word"

datatype c_fault =
    DivByZero
  | OutOfBounds
  | FloatRange
  | NullDeref
  | UseAfterFree
  | ShiftRange

type_synonym 'a res = "c_fault + 'a"

named_theorems res_simps \<open>unfolding of the fault monad\<close>

definition rbind :: "'a res \<Rightarrow> ('a \<Rightarrow> 'b res) \<Rightarrow> 'b res" where
  "rbind m f = (case m of Inl e \<Rightarrow> Inl e | Inr a \<Rightarrow> f a)"

definition rd :: "'a list \<Rightarrow> nat \<Rightarrow> 'a res" where
  "rd xs i = (if i < length xs then Inr (xs ! i) else Inl OutOfBounds)"

definition wr :: "'a list \<Rightarrow> nat \<Rightarrow> 'a \<Rightarrow> 'a list res" where
  "wr xs i v = (if i < length xs then Inr (xs[i := v]) else Inl OutOfBounds)"

fun foldM :: "('i \<Rightarrow> 's \<Rightarrow> 's res) \<Rightarrow> 'i list \<Rightarrow> 's \<Rightarrow> 's res" where
  "foldM f [] s = Inr s"
| "foldM f (i # is) s = rbind (f i s) (foldM f is)"

lemma rbind_Inr [simp, res_simps]: "rbind (Inr a) f = f a"
  by (simp add: rbind_def)

lemma rbind_Inl [simp, res_simps]: "rbind (Inl e) f = Inl e"
  by (simp add: rbind_def)

lemma rbind_eq_Inr [res_simps]: "rbind m f = Inr b \<longleftrightarrow> (\<exists>a. m = Inr a \<and> f a = Inr b)"
  by (cases m) simp_all

lemma rbind_assoc: "rbind (rbind m f) g = rbind m (\<lambda>x. rbind (f x) g)"
  by (cases m) simp_all

lemma rbind_cong [fundef_cong]:
  "m = m' \<Longrightarrow> (\<And>a. m' = Inr a \<Longrightarrow> f a = g a) \<Longrightarrow> rbind m f = rbind m' g"
  by (cases m') simp_all

lemma rd_in [simp]: "i < length xs \<Longrightarrow> rd xs i = Inr (xs ! i)"
  by (simp add: rd_def)

lemma rd_out [simp]: "length xs \<le> i \<Longrightarrow> rd xs i = Inl OutOfBounds"
  by (simp add: rd_def)

lemma wr_in [simp]: "i < length xs \<Longrightarrow> wr xs i v = Inr (xs[i := v])"
  by (simp add: wr_def)

lemma wr_out [simp]: "length xs \<le> i \<Longrightarrow> wr xs i v = Inl OutOfBounds"
  by (simp add: wr_def)

lemma foldM_append: "foldM f (xs @ ys) s = rbind (foldM f xs s) (foldM f ys)"
  by (induction xs arbitrary: s) (simp_all add: rbind_assoc cong: rbind_cong)

text \<open>The loop rule: an invariant indexed by the number of iterations done.\<close>

lemma foldM_upt_inv:
  assumes start: "I 0 s"
    and step: "\<And>k s. k < n \<Longrightarrow> I k s \<Longrightarrow> \<exists>s'. f k s = Inr s' \<and> I (Suc k) s'"
  shows "\<exists>s'. foldM f [0..<n] s = Inr s' \<and> I n s'"
  using step
proof (induction n)
  case 0
  show ?case using start by simp
next
  case (Suc n)
  then obtain s1 where s1: "foldM f [0..<n] s = Inr s1" "I n s1"
    by (metis less_Suc_eq)
  with Suc.prems[of n s1] show ?case
    by (auto simp: foldM_append)
qed

subsection \<open>Machines that never fault\<close>

text \<open>
  The contract of a component driven by commands: in a state that satisfies the invariant, a valid
  command runs without a fault and re-establishes the invariant.  Then so does every sequence.
\<close>

locale safe_machine =
  fixes step :: "'c \<Rightarrow> 's \<Rightarrow> 's res"
    and valid :: "'c \<Rightarrow> bool"
    and inv :: "'s \<Rightarrow> bool"
  assumes step_ok: "inv s \<Longrightarrow> valid c \<Longrightarrow> \<exists>s'. step c s = Inr s' \<and> inv s'"
begin

lemma run_ok: "inv s \<Longrightarrow> (\<And>c. c \<in> set cs \<Longrightarrow> valid c) \<Longrightarrow> \<exists>s'. foldM step cs s = Inr s' \<and> inv s'"
proof (induction cs arbitrary: s)
  case (Cons c cs)
  then obtain s1 where "step c s = Inr s1" "inv s1" using step_ok[of s c] by auto
  then show ?case using Cons by simp
qed simp

lemma run_append_ok:
  assumes "inv s" "foldM step cs s = Inr s'" "\<And>c. c \<in> set cs \<union> set ds \<Longrightarrow> valid c"
  shows "inv s' \<and> (\<exists>s''. foldM step (cs @ ds) s = Inr s'' \<and> inv s'')"
  using run_ok[OF assms(1), of cs] run_ok[OF assms(1), of "cs @ ds"] assms by auto

end

subsection \<open>Words\<close>

text \<open>A word converted to another number type stays a conversion of its integer value.\<close>

declare of_int_uint [simp del] of_int_sint [simp del]

lemma uint_ucast_u32_u64 [simp]: "uint (ucast (w :: u32) :: u64) = uint w"
  by (simp add: uint_up_ucast is_up)

lemma unat_ucast_u32_u64 [simp]: "unat (ucast (w :: u32) :: u64) = unat w"
  by (simp flip: nat_uint_eq)

lemma unat_ucast_u16_u64 [simp]: "unat (ucast (w :: u16) :: u64) = unat w"
  by (simp add: uint_up_ucast is_up flip: nat_uint_eq)

lemma unat_lt_u32: "unat (w :: u32) < 4294967296"
  using unsigned_less[of w, where ?'a = nat] by simp

lemma unat_lt_u64: "unat (w :: u64) < 18446744073709551616"
  using unsigned_less[of w, where ?'a = nat] by simp

lemma unat_plus_no_wrap:
  "unat (a :: 'a::len word) + unat b < 2 ^ LENGTH('a) \<Longrightarrow> unat (a + b) = unat a + unat b"
  by (simp add: unat_word_ariths)

lemma unat_minus_no_wrap: "unat b \<le> unat a \<Longrightarrow> unat (a - b) = unat a - unat (b :: 'a::len word)"
  by (simp add: unat_sub word_le_nat_alt)

end
