(* ===== verification/CDouble.thy ===== *)
theory CDouble
  imports Prelude Complex_Main
begin

text \<open>
  C's \<open>double\<close> as the driver uses it.  A finite double is the rational number it denotes;
  \<open>double_round\<close> is IEEE-754 round-to-nearest-even to a 53-bit significand, applied after every
  arithmetic operation and every conversion from a 64-bit integer.  The magnitudes the driver
  computes lie far inside the normal range, so neither overflow to infinity nor subnormals are
  modelled; a division by zero, which would produce an infinity that no later conversion can
  represent, is a fault, and so is a conversion to an integer type that cannot hold the value
  (undefined behaviour in C).
\<close>

type_synonym double = rat

fun blen :: "nat \<Rightarrow> nat" where
  "blen n = (if n = 0 then 0 else Suc (blen (n div 2)))"

declare blen.simps [simp del]

text \<open>Round a non-negative rational to the nearest integer, ties to even.\<close>

definition round_even :: "rat \<Rightarrow> int" where
  "round_even q =
     (let f = \<lfloor>q\<rfloor>; d = q - of_int f
      in if d < 1 / 2 then f
         else if 1 / 2 < d then f + 1
         else if even f then f else f + 1)"

text \<open>The exponent of the unit in the last place: \<open>2\<^sup>5\<^sup>2 \<le> \<bar>x\<bar> / 2\<^sup>e < 2\<^sup>5\<^sup>3\<close>.\<close>

definition ulp_exp :: "rat \<Rightarrow> int" where
  "ulp_exp x =
     (let (a, b) = quotient_of \<bar>x\<bar>;
          e = int (blen (nat a)) - int (blen (nat b)) - 53
      in if 2 ^ 53 \<le> \<bar>x\<bar> / 2 powi e then e + 1 else e)"

definition double_round :: "rat \<Rightarrow> double" where
  "double_round x =
     (if x = 0 then 0
      else let e = ulp_exp x
           in sgn x * of_int (round_even (\<bar>x\<bar> / 2 powi e)) * 2 powi e)"

definition d_of_int :: "int \<Rightarrow> double" where
  "d_of_int n = double_round (of_int n)"

definition d_add :: "double \<Rightarrow> double \<Rightarrow> double" where
  "d_add x y = double_round (x + y)"

definition d_mul :: "double \<Rightarrow> double \<Rightarrow> double" where
  "d_mul x y = double_round (x * y)"

definition d_div :: "double \<Rightarrow> double \<Rightarrow> double res" where
  "d_div x y = (if y = 0 then Inl FloatRange else Inr (double_round (x / y)))"

text \<open>Conversion to an integer type truncates towards zero.\<close>

definition trunc0 :: "rat \<Rightarrow> int" where
  "trunc0 x = (if 0 \<le> x then \<lfloor>x\<rfloor> else \<lceil>x\<rceil>)"

definition d_to_u64 :: "double \<Rightarrow> u64 res" where
  "d_to_u64 x =
     (if 0 \<le> trunc0 x \<and> trunc0 x < 2 ^ 64 then Inr (word_of_int (trunc0 x)) else Inl FloatRange)"

definition d_to_u32 :: "double \<Rightarrow> u32 res" where
  "d_to_u32 x =
     (if 0 \<le> trunc0 x \<and> trunc0 x < 2 ^ 32 then Inr (word_of_int (trunc0 x)) else Inl FloatRange)"

definition d_to_s32 :: "double \<Rightarrow> s32 res" where
  "d_to_s32 x =
     (if - (2 ^ 31) \<le> trunc0 x \<and> trunc0 x < 2 ^ 31 then Inr (word_of_int (trunc0 x))
      else Inl FloatRange)"

subsection \<open>Rounding is exact on representable numbers\<close>

lemma blen_bounds: "0 < n \<Longrightarrow> 2 ^ (blen n - 1) \<le> n \<and> n < 2 ^ blen n \<and> 0 < blen n"
proof (induction n rule: blen.induct)
  case (1 n)
  show ?case
  proof (cases "n div 2 = 0")
    case True
    then have "n = 1" using "1.prems" by presburger
    then show ?thesis by (simp add: blen.simps)
  next
    case False
    let ?k = "blen (n div 2)"
    from "1.IH" "1.prems" False have ih: "2 ^ (?k - 1) \<le> n div 2" "n div 2 < 2 ^ ?k" "0 < ?k"
      by auto
    have b: "blen n = Suc ?k" using "1.prems" by (subst blen.simps) simp
    from ih(3) obtain j where j: "?k = Suc j" by (cases ?k) auto
    have "2 ^ ?k \<le> n" using ih(1) by (simp add: j)
    moreover have "n < 2 * 2 ^ ?k" using ih(2) by linarith
    ultimately show ?thesis by (simp add: b)
  qed
qed

lemma two_powi_pos [simp]: "(0::rat) < 2 powi k"
  by (simp add: zero_less_power_int)

lemma blen_powi:
  assumes "0 < a"
  shows "(2::rat) powi (int (blen (nat a)) - 1) \<le> of_int a"
    and "(of_int a :: rat) < 2 powi int (blen (nat a))"
proof -
  let ?k = "blen (nat a)"
  have k: "2 ^ (?k - 1) \<le> nat a" "nat a < 2 ^ ?k" "0 < ?k"
    using blen_bounds[of "nat a"] assms by auto
  have "(of_nat (2 ^ (?k - 1)) :: rat) \<le> of_nat (nat a)" using k(1) by (rule of_nat_mono)
  moreover have "int ?k - 1 = int (?k - 1)" using k(3) by simp
  ultimately show "(2::rat) powi (int ?k - 1) \<le> of_int a" using assms
    by (simp only: power_int_of_nat of_nat_power of_nat_numeral of_nat_nat less_imp_le)
  have "(of_nat (nat a) :: rat) < of_nat (2 ^ ?k)" using k(2) by (simp only: of_nat_less_iff)
  then show "(of_int a :: rat) < 2 powi int ?k" using assms
    by (simp only: power_int_of_nat of_nat_power of_nat_numeral of_nat_nat less_imp_le)
qed

lemma ulp_exp_bounds:
  assumes "x \<noteq> 0"
  shows "2 ^ 52 \<le> \<bar>x\<bar> / 2 powi ulp_exp x" and "\<bar>x\<bar> / 2 powi ulp_exp x < 2 ^ 53"
proof -
  obtain a b where q: "quotient_of \<bar>x\<bar> = (a, b)" by (cases "quotient_of \<bar>x\<bar>")
  then have b: "0 < b" by (rule quotient_of_denom_pos)
  have x: "\<bar>x\<bar> = of_int a / of_int b" using q by (rule quotient_of_div)
  have "0 < \<bar>x\<bar>" using assms by simp
  with x b have a: "0 < a" by (simp add: zero_less_divide_iff)
  let ?A = "int (blen (nat a))" and ?B = "int (blen (nat b))"
  define e where "e = ?A - ?B - 53"
  note Ar = blen_powi[OF a] and Br = blen_powi[OF b]
  have "(2::rat) powi (?A - 1) / 2 powi ?B \<le> of_int a / of_int b"
    using Ar Br b a by (intro frac_le) (auto intro: less_imp_le)
  moreover have "(2::rat) powi (?A - 1) / 2 powi ?B = 2 ^ 52 * 2 powi e"
    by (simp add: e_def power_int_diff)
  ultimately have lo: "2 ^ 52 \<le> \<bar>x\<bar> / 2 powi e"
    by (simp only: x pos_le_divide_eq two_powi_pos)
  have "of_int a / of_int b < (2::rat) powi ?A / 2 powi (?B - 1)"
    using Ar Br b a by (intro frac_less) (auto intro: less_imp_le)
  moreover have "(2::rat) powi ?A / 2 powi (?B - 1) = 2 ^ 54 * 2 powi e"
    by (simp add: e_def power_int_diff)
  ultimately have hi: "\<bar>x\<bar> / 2 powi e < 2 ^ 54"
    by (simp only: x pos_divide_less_eq two_powi_pos)
  have scale: "\<bar>x\<bar> / 2 powi (e + 1) = \<bar>x\<bar> / 2 powi e / 2" by (simp add: power_int_add)
  have u: "ulp_exp x = (if 2 ^ 53 \<le> \<bar>x\<bar> / 2 powi e then e + 1 else e)"
    by (simp add: ulp_exp_def q e_def)
  show "2 ^ 52 \<le> \<bar>x\<bar> / 2 powi ulp_exp x"
    using lo by (simp add: u scale)
  show "\<bar>x\<bar> / 2 powi ulp_exp x < 2 ^ 53"
    using hi by (simp add: u scale)
qed

lemma round_even_of_int [simp]: "round_even (of_int n) = n"
  by (simp add: round_even_def)

lemma round_even_dist: "\<bar>of_int (round_even q) - q\<bar> \<le> 1 / 2"
  unfolding round_even_def Let_def
  using of_int_floor_le[of q] floor_correct[of q] by (auto simp: abs_le_iff)

lemma double_round_0 [simp]: "double_round 0 = 0"
  by (simp add: double_round_def)

text \<open>Every number with at most 53 significant bits is a double.\<close>

lemma double_round_representable:
  assumes x: "x = of_int m * 2 powi k" and m: "\<bar>m\<bar> < 2 ^ 53"
  shows "double_round x = x"
proof (cases "x = 0")
  case False
  let ?e = "ulp_exp x"
  have m0: "0 < \<bar>m\<bar>" using False x by auto
  have ax: "\<bar>x\<bar> = of_int \<bar>m\<bar> * 2 powi k" using x by (simp add: abs_mult power_int_abs)
  have scaled: "\<bar>x\<bar> / 2 powi ?e = of_int \<bar>m\<bar> * 2 powi (k - ?e)"
    by (simp add: ax power_int_diff)
  with ulp_exp_bounds(1)[OF False] have "2 ^ 52 \<le> of_int \<bar>m\<bar> * (2::rat) powi (k - ?e)" by simp
  moreover have "(of_int \<bar>m\<bar> :: rat) < 2 ^ 53"
    using m by (metis of_int_less_iff of_int_numeral of_int_power)
  ultimately have big: "2 ^ 52 \<le> of_int \<bar>m\<bar> * (2::rat) powi (k - ?e)"
    and small: "(of_int \<bar>m\<bar> :: rat) < 2 ^ 53" by blast+
  have "\<not> (2::rat) powi (k - ?e) \<le> 1 / 2"
  proof
    assume "(2::rat) powi (k - ?e) \<le> 1 / 2"
    then have "of_int \<bar>m\<bar> * (2::rat) powi (k - ?e) \<le> of_int \<bar>m\<bar> * (1 / 2)"
      by (intro mult_left_mono) auto
    with big small show False by simp
  qed
  then have "\<not> k - ?e \<le> - 1"
    using power_int_increasing[of "k - ?e" "-1" "2::rat"] by auto
  then have "\<bar>x\<bar> / 2 powi ?e = of_int (\<bar>m\<bar> * 2 ^ nat (k - ?e))"
    by (simp add: scaled power_int_nonneg_exp)
  then have "of_int (round_even (\<bar>x\<bar> / 2 powi ?e)) = \<bar>x\<bar> / 2 powi ?e"
    by (metis round_even_of_int)
  with False show ?thesis
    by (simp add: double_round_def Let_def sgn_mult_abs)
qed simp

lemma double_round_of_int:
  assumes "\<bar>n\<bar> < 2 ^ 53"
  shows "double_round (of_int n) = of_int n"
  using double_round_representable[of "of_int n" n 0] assms by simp

lemma double_round_error: "\<bar>double_round x - x\<bar> \<le> \<bar>x\<bar> / 2 ^ 53"
proof (cases "x = 0")
  case False
  let ?p = "(2::rat) powi ulp_exp x" and ?q = "\<bar>x\<bar> / 2 powi ulp_exp x"
  have x: "x = sgn x * ?q * ?p" by (simp add: sgn_mult_abs)
  have "double_round x - x = sgn x * (of_int (round_even ?q) - ?q) * ?p"
    using False by (subst (2) x) (simp add: double_round_def Let_def algebra_simps)
  then have "\<bar>double_round x - x\<bar> = \<bar>of_int (round_even ?q) - ?q\<bar> * ?p"
    using False by (simp add: abs_mult)
  also have "\<dots> \<le> 1 / 2 * ?p"
    using round_even_dist[of ?q] by (intro mult_right_mono) auto
  also have "\<dots> \<le> \<bar>x\<bar> / 2 ^ 53"
    using ulp_exp_bounds(1)[OF False] by (simp add: pos_le_divide_eq)
  finally show ?thesis .
qed simp

lemma double_round_ge_half: "\<bar>x\<bar> / 2 \<le> \<bar>double_round x\<bar>"
proof -
  have "\<bar>x\<bar> \<le> \<bar>double_round x\<bar> + \<bar>double_round x - x\<bar>" by linarith
  also have "\<dots> \<le> \<bar>double_round x\<bar> + \<bar>x\<bar> / 2 ^ 53" using double_round_error[of x] by simp
  finally show ?thesis using abs_ge_zero[of x] by simp
qed

lemma double_round_near:
  assumes "0 \<le> x"
  shows "x - x / 2 ^ 53 \<le> double_round x" and "double_round x \<le> x + x / 2 ^ 53"
  using double_round_error[of x] assms unfolding abs_le_iff abs_of_nonneg[OF assms] by linarith+

lemma double_round_nonneg: "0 \<le> x \<Longrightarrow> 0 \<le> double_round x"
  using double_round_near(1)[of x] by simp

lemma double_round_le_twice: "0 \<le> x \<Longrightarrow> double_round x \<le> 2 * x"
  using double_round_near(2)[of x] by simp

text \<open>An integer of at most 53 bits, divided by a power of two, is still a double.\<close>

lemma double_round_scaled: "\<bar>n\<bar> < 2 ^ 53 \<Longrightarrow> double_round (of_int n * 2 powi k) = of_int n * 2 powi k"
  by (rule double_round_representable [where m = n and k = k]) simp_all

lemma trunc0_of_int [simp]: "trunc0 (of_int n) = n"
  by (simp add: trunc0_def)

lemma trunc0_le: "\<bar>x\<bar> - 1 \<le> of_int \<bar>trunc0 x\<bar>"
proof (cases "0 \<le> x")
  case True
  then show ?thesis using floor_correct[of x] by (simp add: trunc0_def)
next
  case False
  then have "\<lceil>x\<rceil> \<le> 0" by (simp add: ceiling_le_iff)
  with False show ?thesis using ceiling_correct[of x] by (simp add: trunc0_def)
qed

lemma trunc0_nonneg: "0 \<le> x \<Longrightarrow> trunc0 x = \<lfloor>x\<rfloor>"
  by (simp add: trunc0_def)

lemma d_to_u64_total:
  assumes "0 \<le> x" "x < 2 ^ 64"
  shows "d_to_u64 x = Inr (word_of_int \<lfloor>x\<rfloor>)"
proof -
  have "\<lfloor>x\<rfloor> < 2 ^ 64" using assms by (simp add: floor_less_iff)
  with assms show ?thesis by (simp add: d_to_u64_def trunc0_nonneg)
qed

lemma d_to_u32_total:
  assumes "0 \<le> x" "x < 2 ^ 32"
  shows "d_to_u32 x = Inr (word_of_int \<lfloor>x\<rfloor>)"
proof -
  have "\<lfloor>x\<rfloor> < 2 ^ 32" using assms by (simp add: floor_less_iff)
  with assms show ?thesis by (simp add: d_to_u32_def trunc0_nonneg)
qed

subsection \<open>Integer arithmetic done in double precision\<close>

text \<open>
  Adding a product of integers to a 32-bit integer in double precision and converting back is
  exact whenever the mathematical result fits 32 bits, and a fault otherwise: rounding never turns
  an unrepresentable sum into a representable one.
\<close>

lemma d_mac_large:
  assumes c: "\<bar>c\<bar> \<le> 2 ^ 31" and big: "2 ^ 52 \<le> \<bar>e * s\<bar>"
  shows "2 ^ 40 < \<bar>trunc0 (d_add (of_int c) (d_mul (d_of_int e) (of_int s)))\<bar>"
proof -
  let ?m = "d_mul (d_of_int e) (of_int s)" and ?c = "rat_of_int c"
  have c': "\<bar>?c\<bar> \<le> 2 ^ 31"
    using c by (metis of_int_abs of_int_le_iff of_int_numeral of_int_power)
  have "(2::rat) ^ 52 \<le> \<bar>of_int e\<bar> * \<bar>of_int s\<bar>"
    using big by (metis abs_mult of_int_abs of_int_le_iff of_int_mult of_int_numeral of_int_power)
  moreover have "\<bar>rat_of_int e\<bar> / 2 * \<bar>of_int s\<bar> \<le> \<bar>d_of_int e\<bar> * \<bar>of_int s\<bar>"
    unfolding d_of_int_def by (intro mult_right_mono double_round_ge_half) auto
  ultimately have "2 ^ 51 \<le> \<bar>d_of_int e * of_int s\<bar>" by (simp add: abs_mult)
  then have "2 ^ 50 \<le> \<bar>?m\<bar>"
    using double_round_ge_half[of "d_of_int e * of_int s"] by (simp add: d_mul_def)
  then have "2 ^ 49 \<le> \<bar>?c + ?m\<bar>" using c' by simp
  then have "2 ^ 48 \<le> \<bar>d_add ?c ?m\<bar>"
    using double_round_ge_half[of "?c + ?m"] by (simp add: d_add_def)
  then have "rat_of_int (2 ^ 40) < of_int \<bar>trunc0 (d_add ?c ?m)\<bar>"
    using trunc0_le[of "d_add ?c ?m"] by simp
  then show ?thesis by (simp only: of_int_less_iff)
qed

lemma d_mac_small:
  assumes c: "\<bar>c\<bar> \<le> 2 ^ 31" and small: "\<bar>e * s\<bar> < 2 ^ 52"
  shows "d_add (of_int c) (d_mul (d_of_int e) (of_int s)) = of_int (c + e * s)"
proof -
  have "d_mul (d_of_int e) (of_int s) = of_int (e * s)"
  proof (cases "s = 0")
    case False
    then have "\<bar>e\<bar> \<le> \<bar>e * s\<bar>" by (auto simp: abs_mult mult_le_cancel_left1)
    with small have "d_of_int e = of_int e" by (simp add: d_of_int_def double_round_of_int)
    then show ?thesis
      using small double_round_of_int[of "e * s"] by (simp add: d_mul_def)
  qed (simp add: d_mul_def)
  moreover have "\<bar>c + e * s\<bar> < 2 ^ 53" using c small by (auto simp: abs_if split: if_splits)
  ultimately show ?thesis
    using double_round_of_int[of "c + e * s"] by (simp add: d_add_def)
qed

definition s32_range :: "int \<Rightarrow> bool" where
  "s32_range n \<longleftrightarrow> - (2 ^ 31) \<le> n \<and> n < 2 ^ 31"

theorem d_mac_to_s32:
  assumes c: "\<bar>c\<bar> \<le> 2 ^ 31"
  shows "d_to_s32 (d_add (of_int c) (d_mul (d_of_int e) (of_int s))) =
     (if s32_range (c + e * s) then Inr (word_of_int (c + e * s)) else Inl FloatRange)"
proof (cases "\<bar>e * s\<bar> < 2 ^ 52")
  case True
  show ?thesis
    unfolding d_mac_small[OF c True] d_to_s32_def s32_range_def trunc0_of_int by simp
next
  case False
  then have big: "2 ^ 52 \<le> \<bar>e * s\<bar>" by simp
  from d_mac_large[OF c this]
  have "d_to_s32 (d_add (of_int c) (d_mul (d_of_int e) (of_int s))) = Inl FloatRange"
    by (auto simp: d_to_s32_def abs_if split: if_splits)
  moreover have "\<not> s32_range (c + e * s)"
    using big c by (auto simp: s32_range_def abs_if split: if_splits)
  ultimately show ?thesis by simp
qed

end
