(* ===== verification/Xdma_State.thy ===== *)
theory Xdma_State
  imports Prelude CDouble
begin

text \<open>
  The data of the TSN network driver under \<open>src/driver/XDMA/linux-kernel/xdma\<close>: the structures of
  \<open>alinx_arch.h\<close>, \<open>xdma_netdev.h\<close> and \<open>tsn.h\<close> as records with the C field names (prefixed where a
  name would clash), arrays as lists of the declared length, and the device state a call of the
  driver reads and writes.  Accesses to device registers are recorded in \<open>io_trace\<close>; what a read
  returns is decided by a parameter of type \<open>device\<close>, which sees the trace so far, so that the
  hardware is an argument of the model and never a definition of it.
\<close>

type_synonym timestamp_t = u64
type_synonym sysclock_t = u64

subsection \<open>Constants\<close>

abbreviation HW_QUEUE_SIZE :: nat where "HW_QUEUE_SIZE \<equiv> 128"
abbreviation BE_QUEUE_SIZE :: nat where "BE_QUEUE_SIZE \<equiv> 108"
abbreviation TSN_QUEUE_SIZE :: nat where "TSN_QUEUE_SIZE \<equiv> 126"
abbreviation HW_QUEUE_SIZE_PAD :: nat where "HW_QUEUE_SIZE_PAD \<equiv> 20"
abbreviation TC_COUNT :: nat where "TC_COUNT \<equiv> 8"
abbreviation TSN_PRIO_COUNT :: nat where "TSN_PRIO_COUNT \<equiv> 8"
abbreviation MAX_QBV_SLOTS :: nat where "MAX_QBV_SLOTS \<equiv> 20"
abbreviation NS_IN_1S :: u64 where "NS_IN_1S \<equiv> 1000000000"
abbreviation PHY_DELAY_CLOCKS :: u64 where "PHY_DELAY_CLOCKS \<equiv> 13"
abbreviation TX_ADJUST_NS :: u64 where "TX_ADJUST_NS \<equiv> 300"
abbreviation RX_ADJUST_NS :: u64 where "RX_ADJUST_NS \<equiv> 512"
abbreviation H2C_LATENCY_NS :: u64 where "H2C_LATENCY_NS \<equiv> 30000"
abbreviation DEFAULT_TO_MARGIN :: u64 where "DEFAULT_TO_MARGIN \<equiv> 50000"
abbreviation TICKS_SCALE :: double where "TICKS_SCALE \<equiv> 8"
abbreviation RESERVED_CYCLE :: u32 where "RESERVED_CYCLE \<equiv> 125000000"
abbreviation TSN_TIMESTAMP_ID_MAX :: nat where "TSN_TIMESTAMP_ID_MAX \<equiv> 5"
abbreviation TX_TSTAMP_MAX_RETRY :: int where "TX_TSTAMP_MAX_RETRY \<equiv> 5"

subsection \<open>Device registers\<close>

text \<open>
  A register is named by its BAR and byte offset; the DMA engines' register blocks, whose base
  address is found at probe time, have constructors of their own.
\<close>

datatype io_addr =
    Bar nat nat
  | TxControl
  | RxControl
  | RxStatusRc
  | TxStatusRc
  | ChannelIntRequest
  | ChannelIntEnableW1S
  | ChannelIntEnableW1C
  | RxFirstDescLo
  | RxFirstDescHi

datatype io_event = RdReg io_addr u32 | WrReg io_addr u32

type_synonym device = "io_event list \<Rightarrow> io_addr \<Rightarrow> u32"

subsection \<open>Qbv, Qav and buffer-tracker configuration (alinx\_arch.h)\<close>

record qbv_slot =
  slot_duration_ns :: u32
  opened_prios :: "bool list"

record qbv_config =
  qbv_enabled :: bool
  qbv_start :: timestamp_t
  qbv_slots :: "qbv_slot list"
  qbv_slot_count :: u32

record qbv_baked_prio_slot =
  duration_ns :: u64
  opened :: bool

record qbv_baked_prio =
  slots :: "qbv_baked_prio_slot list"
  slot_count :: u64

record qbv_baked_config =
  cycle_ns :: u64
  prios :: "qbv_baked_prio list"

record qav_state =
  qav_enabled :: bool
  idle_slope :: s32
  send_slope :: s32
  hi_credit :: s32
  lo_credit :: s32
  credit :: s32
  last_update :: timestamp_t
  available_at :: timestamp_t

record buffer_tracker =
  pending_packets :: u64
  last_tx_count :: u64

record tsn_config =
  qbv :: qbv_config
  qbv_baked :: qbv_baked_config
  qav :: "qav_state list"
  buffer_tracker :: buffer_tracker
  queue_available_at :: "timestamp_t list"
  total_available_at :: timestamp_t

subsection \<open>PTP clock and network device (alinx\_arch.h, xdma\_netdev.h)\<close>

record ptp_device_data =
  ticks_scale :: double
  ptp_offset :: u64

text \<open>The kernel's \<open>hwtstamp_config\<close>, as the ioctl hands it over.\<close>

record hwtstamp_config =
  ts_flags :: int
  tx_type :: int
  rx_filter :: int

abbreviation HWTSTAMP_TX_ON :: int where "HWTSTAMP_TX_ON \<equiv> 1"

record xdma_private =
  tx_work_skb :: "nat option list"
  tx_work_start_after :: "sysclock_t list"
  tx_work_wait_until :: "sysclock_t list"
  tstamp_config :: hwtstamp_config
  last_tx_tstamp :: "sysclock_t list"
  tstamp_retry :: "int list"
  total_tx_count :: u64
  total_tx_drop_count :: u64
  last_normal_timeout :: u64
  last_to_overflow_popped :: u64
  last_to_overflow_timeout :: u64
  tx_state :: u64

abbreviation tx_type_on :: "xdma_private \<Rightarrow> bool" where
  "tx_type_on p \<equiv> tx_type (tstamp_config p) = HWTSTAMP_TX_ON"

text \<open>The driver's state: one XDMA device with its PTP clock, configuration and I/O history.\<close>

record xdma_dev =
  io_trace :: "io_event list"
  priv :: xdma_private
  ptp :: ptp_device_data
  tsn_config :: tsn_config

subsection \<open>Frame metadata (xdma\_netdev.h, tsn.h)\<close>

record tick_count =
  tick :: "29 word"
  priority :: "3 word"

record tx_metadata =
  md_from :: tick_count
  md_to :: tick_count
  md_delay_from :: tick_count
  md_delay_to :: tick_count
  frame_length :: u16
  timestamp_id :: u16
  fail_policy :: u8

datatype tsn_prio = TSN_PRIO_GPTP | TSN_PRIO_VLAN | TSN_PRIO_BE

fun prio_num :: "tsn_prio \<Rightarrow> nat" where
  "prio_num TSN_PRIO_GPTP = 3"
| "prio_num TSN_PRIO_VLAN = 5"
| "prio_num TSN_PRIO_BE = 7"

record timestamps =
  ts_from :: timestamp_t
  ts_to :: timestamp_t
  ts_delay_from :: timestamp_t
  ts_delay_to :: timestamp_t

subsection \<open>Well-formedness: every array has its declared length\<close>

definition wf_qbv :: "qbv_config \<Rightarrow> bool" where
  "wf_qbv q \<longleftrightarrow> length (qbv_slots q) = MAX_QBV_SLOTS \<and>
     (\<forall>s \<in> set (qbv_slots q). length (opened_prios s) = TC_COUNT) \<and>
     unat (qbv_slot_count q) \<le> MAX_QBV_SLOTS"

definition wf_baked :: "qbv_baked_config \<Rightarrow> bool" where
  "wf_baked b \<longleftrightarrow> length (prios b) = TC_COUNT \<and>
     (\<forall>p \<in> set (prios b). length (slots p) = MAX_QBV_SLOTS \<and> unat (slot_count p) \<le> MAX_QBV_SLOTS)"

definition wf_config :: "tsn_config \<Rightarrow> bool" where
  "wf_config c \<longleftrightarrow> wf_qbv (qbv c) \<and> wf_baked (qbv_baked c) \<and> length (qav c) = TC_COUNT \<and>
     length (queue_available_at c) = TSN_PRIO_COUNT"

end
