(* ===== verification/Tsn_Bake.thy ===== *)
theory Tsn_Bake
  imports Xdma_State
begin

text \<open>
  \<open>bake_qos_config\<close> of \<open>tsn.c\<close>: the gate control list a user configures (one list of time slots, each
  with a gate bit per traffic class) is compiled into one timeline per traffic class in which
  neighbouring slots alternate between open and closed.  The abstract specification is the gate
  function \<open>gate_at\<close> of a timeline; the main lemma shows that baking never leaves an array, that
  each baked timeline alternates, has an even number of slots and the configured cycle time, and
  that its gate is the configured gate at every instant of the cycle.
\<close>

subsection \<open>The code\<close>

definition zero_slot :: qbv_baked_prio_slot where
  "zero_slot = \<lparr>duration_ns = 0, opened = False\<rparr>"

definition zero_prio :: qbv_baked_prio where
  "zero_prio = \<lparr>slots = replicate MAX_QBV_SLOTS zero_slot, slot_count = 0\<rparr>"

definition zero_baked :: qbv_baked_config where
  "zero_baked = \<lparr>cycle_ns = 0, prios = replicate TC_COUNT zero_prio\<rparr>"

text \<open>The scan for an enabled Qav class stops at the first one it finds.\<close>

fun qav_all_disabled :: "qav_state list \<Rightarrow> nat list \<Rightarrow> bool res" where
  "qav_all_disabled qs [] = Inr True"
| "qav_all_disabled qs (tc_id # tcs) =
     rbind (rd qs tc_id) (\<lambda>q. if qav_enabled q then Inr False else qav_all_disabled qs tcs)"

text \<open>Without Qbv and without any Qav class the driver installs one slot open to every class.\<close>

definition bake_default :: "tsn_config \<Rightarrow> tsn_config res" where
  "bake_default config =
     (if \<not> qbv_enabled (qbv config) then
        rbind (qav_all_disabled (qav config) [0..<TC_COUNT]) (\<lambda>qav_disabled.
        if qav_disabled then
          rbind (rd (qbv_slots (qbv config)) 0) (\<lambda>s0.
          rbind (foldM (\<lambda>tc_id open_list. wr open_list tc_id True) [0..<TC_COUNT] (opened_prios s0))
            (\<lambda>open_list.
          rbind (wr (qbv_slots (qbv config)) 0
                   \<lparr>slot_duration_ns = 1000000000, opened_prios = open_list\<rparr>) (\<lambda>slots'.
          Inr (config\<lparr>qbv := (qbv config)\<lparr>qbv_enabled := True, qbv_start := 0,
                 qbv_slots := slots', qbv_slot_count := 1\<rparr>\<rparr>))))
        else Inr config)
      else Inr config)"

text \<open>The three loops over the traffic classes each update \<open>baked->prios[tc_id]\<close> in place.\<close>

definition upd_prio ::
  "(nat \<Rightarrow> qbv_baked_prio \<Rightarrow> qbv_baked_prio res) \<Rightarrow> nat \<Rightarrow> qbv_baked_config \<Rightarrow> qbv_baked_config res" where
  "upd_prio body tc_id baked =
     rbind (rd (prios baked) tc_id) (\<lambda>p.
     rbind (body tc_id p) (\<lambda>p'.
     rbind (wr (prios baked) tc_id p') (\<lambda>ps. Inr (baked\<lparr>prios := ps\<rparr>))))"

definition bake_first :: "bool list \<Rightarrow> nat \<Rightarrow> qbv_baked_prio \<Rightarrow> qbv_baked_prio res" where
  "bake_first open0 tc_id p =
     rbind (rd open0 tc_id) (\<lambda>b.
     rbind (rd (slots p) 0) (\<lambda>s.
     rbind (wr (slots p) 0 (s\<lparr>opened := b\<rparr>)) (\<lambda>ss.
     Inr (p\<lparr>slots := ss, slot_count := 1\<rparr>))))"

text \<open>One configured slot for one class: extend the last baked slot or open a new one.\<close>

definition bake_prio_slot :: "u64 \<Rightarrow> bool \<Rightarrow> qbv_baked_prio \<Rightarrow> qbv_baked_prio res" where
  "bake_prio_slot slot_duration b prio =
     rbind (rd (slots prio) (unat (slot_count prio - 1))) (\<lambda>lst.
     if opened lst = b then
       rbind (wr (slots prio) (unat (slot_count prio - 1))
                (lst\<lparr>duration_ns := duration_ns lst + slot_duration\<rparr>)) (\<lambda>ss.
       Inr (prio\<lparr>slots := ss\<rparr>))
     else
       rbind (wr (slots prio) (unat (slot_count prio)) \<lparr>duration_ns = slot_duration, opened = b\<rparr>)
         (\<lambda>ss. Inr (prio\<lparr>slots := ss, slot_count := slot_count prio + 1\<rparr>)))"

definition bake_slot :: "qbv_config \<Rightarrow> nat \<Rightarrow> qbv_baked_config \<Rightarrow> qbv_baked_config res" where
  "bake_slot q slot_id baked =
     rbind (rd (qbv_slots q) slot_id) (\<lambda>slot.
     let slot_duration = ucast (slot_duration_ns slot) in
     foldM (upd_prio (\<lambda>tc_id p.
         rbind (rd (opened_prios slot) tc_id) (\<lambda>b. bake_prio_slot slot_duration b p)))
       [0..<TC_COUNT] (baked\<lparr>cycle_ns := cycle_ns baked + slot_duration\<rparr>))"

definition bake_prio_even :: "qbv_baked_prio \<Rightarrow> qbv_baked_prio res" where
  "bake_prio_even prio =
     (if slot_count prio mod 2 = 1 then
        rbind (rd (slots prio) (unat (slot_count prio - 1))) (\<lambda>lst.
        rbind (wr (slots prio) (unat (slot_count prio))
                 \<lparr>duration_ns = 0, opened = (\<not> opened lst)\<rparr>) (\<lambda>ss.
        Inr (prio\<lparr>slots := ss, slot_count := slot_count prio + 1\<rparr>)))
      else Inr prio)"

definition bake_qos_config :: "tsn_config \<Rightarrow> tsn_config res" where
  "bake_qos_config config =
     rbind (bake_default config) (\<lambda>config.
     rbind (rd (qbv_slots (qbv config)) 0) (\<lambda>s0.
     rbind (foldM (upd_prio (bake_first (opened_prios s0))) [0..<TC_COUNT] zero_baked) (\<lambda>baked.
     rbind (foldM (bake_slot (qbv config)) [0..<unat (qbv_slot_count (qbv config))] baked) (\<lambda>baked.
     rbind (foldM (upd_prio (\<lambda>_. bake_prio_even)) [0..<TC_COUNT] baked) (\<lambda>baked.
     Inr (config\<lparr>qbv_baked := baked\<rparr>))))))"

subsection \<open>The specification: timelines and their gates\<close>

type_synonym timeline = "(nat \<times> bool) list"

fun gate_at :: "timeline \<Rightarrow> nat \<Rightarrow> bool" where
  "gate_at [] r = False"
| "gate_at ((d, b) # rest) r = (if r < d then b else gate_at rest (r - d))"

definition cycle_of :: "timeline \<Rightarrow> nat" where
  "cycle_of rest = sum_list (map fst rest)"

fun alternating :: "timeline \<Rightarrow> bool" where
  "alternating (x # y # rest) \<longleftrightarrow> snd x \<noteq> snd y \<and> alternating (y # rest)"
| "alternating _ \<longleftrightarrow> True"

text \<open>The configured timeline of a class and the baked one.\<close>

definition cfg_timeline :: "qbv_config \<Rightarrow> nat \<Rightarrow> timeline" where
  "cfg_timeline q tc =
     map (\<lambda>s. (unat (slot_duration_ns s), opened_prios s ! tc))
       (take (unat (qbv_slot_count q)) (qbv_slots q))"

definition prio_timeline :: "qbv_baked_prio \<Rightarrow> timeline" where
  "prio_timeline p =
     map (\<lambda>s. (unat (duration_ns s), opened s)) (take (unat (slot_count p)) (slots p))"

definition cfg_cycle :: "qbv_config \<Rightarrow> nat" where
  "cfg_cycle q =
     sum_list (map (\<lambda>s. unat (slot_duration_ns s)) (take (unat (qbv_slot_count q)) (qbv_slots q)))"

subsection \<open>Lemmas on timelines\<close>

lemma cycle_of_simps [simp]:
  "cycle_of [] = 0" "cycle_of (x # rest) = fst x + cycle_of rest" "cycle_of (xs @ ys) = cycle_of xs + cycle_of ys"
  by (simp_all add: cycle_of_def)

lemma gate_at_append:
  "gate_at (xs @ ys) r = (if r < cycle_of xs then gate_at xs r else gate_at ys (r - cycle_of xs))"
  by (induction xs r rule: gate_at.induct) (auto simp: less_diff_conv2)

lemma gate_at_beyond: "cycle_of rest \<le> r \<Longrightarrow> \<not> gate_at rest r"
  by (induction rest r rule: gate_at.induct) auto

lemma gate_at_merge: "gate_at (xs @ [(d, b), (e, b)]) r = gate_at (xs @ [(d + e, b)]) r"
  by (auto simp: gate_at_append)

lemma gate_at_snoc:
  assumes "\<And>r. gate_at xs r = gate_at ys r" "cycle_of xs = cycle_of ys"
  shows "gate_at (xs @ [z]) r = gate_at (ys @ [z]) r"
  using assms by (simp add: gate_at_append)

lemma gate_at_extend:
  assumes "\<And>r. gate_at (xs @ [(x, b)]) r = gate_at ys r" "cycle_of xs + x = cycle_of ys"
  shows "gate_at (xs @ [(x + d, b)]) r = gate_at (ys @ [(d, b)]) r"
  using gate_at_snoc[of "xs @ [(x, b)]" ys "(d, b)" r] assms by (simp flip: gate_at_merge)

lemma alternating_append:
  "alternating (xs @ [y]) \<longleftrightarrow> alternating xs \<and> (xs \<noteq> [] \<longrightarrow> snd (last xs) \<noteq> snd y)"
  by (induction xs rule: alternating.induct) auto

lemma alternating_last: "alternating (xs @ [(d, b)]) \<longleftrightarrow> alternating (xs @ [(e, b)])"
  by (simp add: alternating_append)

subsection \<open>One class\<close>

definition prio_inv :: "timeline \<Rightarrow> qbv_baked_prio \<Rightarrow> bool" where
  "prio_inv ts p \<longleftrightarrow> length (slots p) = MAX_QBV_SLOTS \<and> 1 \<le> unat (slot_count p) \<and>
     unat (slot_count p) \<le> max 1 (length ts) \<and> alternating (prio_timeline p) \<and>
     cycle_of (prio_timeline p) = cycle_of ts \<and> (\<forall>r. gate_at (prio_timeline p) r = gate_at ts r)"

lemma prio_timeline_split:
  assumes "unat (slot_count p) = Suc n" "n < length (slots p)"
  shows "prio_timeline p = map (\<lambda>s. (unat (duration_ns s), opened s)) (take n (slots p)) @
     [(unat (duration_ns (slots p ! n)), opened (slots p ! n))]"
  using assms by (simp add: prio_timeline_def take_Suc_conv_app_nth)

lemma unat_sub1: "unat (w :: u64) = Suc n \<Longrightarrow> unat (w - 1) = n"
  by (simp add: unat_minus_one unat_eq_0 flip: unat_eq_zero)

lemma unat_add1: "unat (w :: u64) < 100 \<Longrightarrow> unat (w + 1) = Suc (unat w)"
  by (subst unat_plus_no_wrap) simp_all

lemma bake_prio_slot_inv:
  assumes inv: "prio_inv ts p" and len: "length ts < MAX_QBV_SLOTS" and tot: "cycle_of ts + d < 2 ^ 64"
    and first: "ts = [] \<Longrightarrow> snd (last (prio_timeline p)) = b" and dur: "unat dur = d"
  shows "\<exists>p'. bake_prio_slot dur b p = Inr p' \<and> prio_inv (ts @ [(d, b)]) p'"
proof -
  obtain n where n: "unat (slot_count p) = Suc n" using inv by (cases "unat (slot_count p)") (auto simp: prio_inv_def)
  have nl: "n < 20" "length (slots p) = 20" "Suc n \<le> max 1 (length ts)"
    using inv n len by (auto simp: prio_inv_def)
  have n1: "unat (slot_count p - 1) = n" by (rule unat_sub1[OF n])
  let ?f = "\<lambda>s. (unat (duration_ns s), opened s)"
  let ?s = "slots p ! n" and ?xs = "map ?f (take n (slots p))"
  have tl: "prio_timeline p = ?xs @ [?f ?s]"
    using prio_timeline_split[OF n] nl by simp
  have alt: "alternating (?xs @ [?f ?s])" and t: "cycle_of ?xs + unat (duration_ns ?s) = cycle_of ts"
    and g: "\<And>r. gate_at (?xs @ [?f ?s]) r = gate_at ts r"
    using inv by (simp_all add: prio_inv_def tl)
  show ?thesis
  proof (cases "opened ?s = b")
    case True
    let ?s' = "?s\<lparr>duration_ns := duration_ns ?s + dur\<rparr>"
    let ?p = "p\<lparr>slots := (slots p)[n := ?s']\<rparr>"
    have u: "unat (duration_ns ?s + dur) = unat (duration_ns ?s) + d"
      using t tot dur by (subst unat_plus_no_wrap) auto
    have tl': "prio_timeline ?p = ?xs @ [(unat (duration_ns ?s) + d, b)]"
      using prio_timeline_split[of ?p n] n nl u True by simp
    have "alternating (?xs @ [(unat (duration_ns ?s) + d, b)])"
      using alt True by (simp add: alternating_append)
    moreover have "gate_at (?xs @ [(unat (duration_ns ?s) + d, b)]) r = gate_at (ts @ [(d, b)]) r" for r
      using g t True by (intro gate_at_extend) simp_all
    ultimately have "prio_inv (ts @ [(d, b)]) ?p"
      using nl n t unfolding prio_inv_def tl' by auto
    moreover have "bake_prio_slot dur b p = Inr ?p"
      using True nl by (simp add: bake_prio_slot_def n1)
    ultimately show ?thesis by blast
  next
    case False
    have ts: "ts \<noteq> []" using first False by (auto simp: tl)
    then have nt: "Suc n \<le> length ts" using nl by (cases ts) auto
    then have sl: "Suc n < 20" using len by simp
    let ?p = "p\<lparr>slots := (slots p)[Suc n := \<lparr>duration_ns = dur, opened = b\<rparr>],
        slot_count := slot_count p + 1\<rparr>"
    have c: "unat (slot_count p + 1) = Suc (Suc n)" using unat_add1[of "slot_count p"] n sl by simp
    have tl': "prio_timeline ?p = (?xs @ [?f ?s]) @ [(d, b)]"
      using prio_timeline_split[of ?p "Suc n"] c nl sl dur
      by (simp add: take_Suc_conv_app_nth)
    have "alternating ((?xs @ [?f ?s]) @ [(d, b)])"
      using alt False by (subst alternating_append) simp
    moreover have "gate_at ((?xs @ [?f ?s]) @ [(d, b)]) r = gate_at (ts @ [(d, b)]) r" for r
      using g t by (intro gate_at_snoc) simp_all
    ultimately have "prio_inv (ts @ [(d, b)]) ?p"
      using nl(2) n t c nt unfolding prio_inv_def tl' by auto
    moreover have "bake_prio_slot dur b p = Inr ?p"
      using False nl sl n by (simp add: bake_prio_slot_def n1)
    ultimately show ?thesis by blast
  qed
qed

lemma odd_word: "(w :: u64) mod 2 = 1 \<longleftrightarrow> odd (unat w)"
  unfolding word_unat_eq_iff unat_mod by (simp add: odd_iff_mod_2_eq_one)

text \<open>The shape every baked class ends in.\<close>

definition baked_ok :: "timeline \<Rightarrow> qbv_baked_prio \<Rightarrow> bool" where
  "baked_ok ts p \<longleftrightarrow> length (slots p) = MAX_QBV_SLOTS \<and> 2 \<le> unat (slot_count p) \<and>
     unat (slot_count p) \<le> MAX_QBV_SLOTS \<and> even (unat (slot_count p)) \<and>
     alternating (prio_timeline p) \<and> cycle_of (prio_timeline p) = cycle_of ts \<and>
     (\<forall>r. gate_at (prio_timeline p) r = gate_at ts r)"

lemma bake_prio_even_ok:
  assumes inv: "prio_inv ts p" and len: "length ts \<le> MAX_QBV_SLOTS"
  shows "\<exists>p'. bake_prio_even p = Inr p' \<and> baked_ok ts p'"
proof (cases "odd (unat (slot_count p))")
  case False
  then have "unat (slot_count p) \<noteq> 1" by auto
  then have "2 \<le> unat (slot_count p)" "unat (slot_count p) \<le> 20"
    using inv len by (auto simp: prio_inv_def)
  with False inv show ?thesis
    by (auto simp: bake_prio_even_def odd_word baked_ok_def prio_inv_def)
next
  case True
  obtain n where n: "unat (slot_count p) = Suc n" using True by (cases "unat (slot_count p)") auto
  have "Suc n \<le> 20" using inv len n by (auto simp: prio_inv_def)
  moreover have "Suc n \<noteq> 20" using True n by auto
  ultimately have n20: "Suc n < 20" by simp
  let ?s = "slots p ! n"
  let ?p = "p\<lparr>slots := (slots p)[Suc n := \<lparr>duration_ns = 0, opened = (\<not> opened ?s)\<rparr>],
      slot_count := slot_count p + 1\<rparr>"
  have l: "length (slots p) = 20" using inv by (simp add: prio_inv_def)
  have c: "unat (slot_count p + 1) = Suc (Suc n)" using unat_add1[of "slot_count p"] n n20 by simp
  have tl: "prio_timeline ?p = prio_timeline p @ [(0, \<not> opened ?s)]"
    using prio_timeline_split[of ?p "Suc n"] prio_timeline_split[of p n] c n l n20
    by (simp add: take_Suc_conv_app_nth)
  have lst: "snd (last (prio_timeline p)) = opened ?s"
    using prio_timeline_split[of p n] n l n20 by simp
  have "baked_ok ts ?p"
    using inv l c n n20 True lst gate_at_beyond
    unfolding baked_ok_def tl prio_inv_def by (auto simp: alternating_append gate_at_append)
  moreover have "bake_prio_even p = Inr ?p"
    using True l n n20 by (simp add: bake_prio_even_def odd_word unat_sub1[OF n])
  ultimately show ?thesis by blast
qed

subsection \<open>All classes\<close>

lemma upd_prio_all:
  assumes len: "length (prios b) = TC_COUNT"
    and body: "\<And>tc. tc < TC_COUNT \<Longrightarrow> \<exists>p'. f tc (prios b ! tc) = Inr p' \<and> Q tc p'"
  shows "\<exists>b'. foldM (upd_prio f) [0..<TC_COUNT] b = Inr b' \<and> cycle_ns b' = cycle_ns b \<and>
     length (prios b') = TC_COUNT \<and> (\<forall>tc < TC_COUNT. Q tc (prios b' ! tc))"
proof -
  let ?I = "\<lambda>k (b' :: qbv_baked_config). cycle_ns b' = cycle_ns b \<and> length (prios b') = TC_COUNT \<and>
    (\<forall>tc < TC_COUNT. if tc < k then Q tc (prios b' ! tc) else prios b' ! tc = prios b ! tc)"
  have "\<exists>b'. foldM (upd_prio f) [0..<TC_COUNT] b = Inr b' \<and> ?I TC_COUNT b'"
  proof (rule foldM_upt_inv [where I = ?I])
    show "?I 0 b" using len by simp
  next
    fix k s assume k: "k < TC_COUNT" and I: "?I k s"
    then have s: "prios s ! k = prios b ! k" "length (prios s) = 8" by auto
    obtain p' where p': "f k (prios b ! k) = Inr p'" "Q k p'" using body[OF k] by blast
    have "upd_prio f k s = Inr (s\<lparr>prios := (prios s)[k := p']\<rparr>)"
      using k s p' by (simp add: upd_prio_def)
    moreover have "?I (Suc k) (s\<lparr>prios := (prios s)[k := p']\<rparr>)"
      using I k p' s(2) by (auto simp: nth_list_update less_Suc_eq)
    ultimately show "\<exists>s'. upd_prio f k s = Inr s' \<and> ?I (Suc k) s'" by blast
  qed
  then show ?thesis by auto
qed

subsection \<open>The whole configuration\<close>

definition slot_of :: "qbv_config \<Rightarrow> nat \<Rightarrow> nat \<Rightarrow> nat \<times> bool" where
  "slot_of q tc k = (unat (slot_duration_ns (qbv_slots q ! k)), opened_prios (qbv_slots q ! k) ! tc)"

definition prefix_tl :: "qbv_config \<Rightarrow> nat \<Rightarrow> nat \<Rightarrow> timeline" where
  "prefix_tl q tc k = map (slot_of q tc) [0..<k]"

lemma prefix_tl_Suc [simp]: "prefix_tl q tc (Suc k) = prefix_tl q tc k @ [slot_of q tc k]"
  by (simp add: prefix_tl_def)

lemma prefix_tl_0 [simp]: "prefix_tl q tc 0 = []"
  by (simp add: prefix_tl_def)

lemma length_prefix_tl [simp]: "length (prefix_tl q tc k) = k"
  by (simp add: prefix_tl_def)

lemma cfg_timeline_prefix:
  assumes "unat (qbv_slot_count q) \<le> length (qbv_slots q)"
  shows "cfg_timeline q tc = prefix_tl q tc (unat (qbv_slot_count q))"
  using assms by (intro nth_equalityI) (simp_all add: cfg_timeline_def prefix_tl_def slot_of_def)

lemma cycle_prefix_indep: "cycle_of (prefix_tl q tc k) = cycle_of (prefix_tl q tc' k)"
  by (induction k) (simp_all add: slot_of_def)

lemma cycle_prefix_bound: "cycle_of (prefix_tl q tc k) \<le> k * 4294967295"
proof (induction k)
  case (Suc k)
  then show ?case using unat_lt_u32[of "slot_duration_ns (qbv_slots q ! k)"]
    by (simp add: slot_of_def)
qed simp

lemma cfg_cycle_prefix:
  "cfg_cycle q = cycle_of (cfg_timeline q tc)"
  by (simp add: cfg_cycle_def cfg_timeline_def cycle_of_def comp_def)

definition bake_inv :: "qbv_config \<Rightarrow> nat \<Rightarrow> qbv_baked_config \<Rightarrow> bool" where
  "bake_inv q k b \<longleftrightarrow> length (prios b) = TC_COUNT \<and>
     unat (cycle_ns b) = cycle_of (prefix_tl q 0 k) \<and>
     (\<forall>tc < TC_COUNT. prio_inv (prefix_tl q tc k) (prios b ! tc) \<and>
        (k = 0 \<longrightarrow> snd (last (prio_timeline (prios b ! tc))) = opened_prios (qbv_slots q ! 0) ! tc))"

lemma wf_qbv_slot:
  assumes "wf_qbv q" "k < MAX_QBV_SLOTS"
  shows "length (qbv_slots q) = MAX_QBV_SLOTS" "length (opened_prios (qbv_slots q ! k)) = TC_COUNT"
  using assms by (auto simp: wf_qbv_def)

lemma bake_first_inv:
  assumes "wf_qbv q"
  shows "\<exists>b. foldM (upd_prio (bake_first (opened_prios (qbv_slots q ! 0)))) [0..<TC_COUNT] zero_baked
     = Inr b \<and> bake_inv q 0 b"
proof -
  let ?o = "opened_prios (qbv_slots q ! 0)"
  let ?Q = "\<lambda>tc p. prio_inv [] p \<and> snd (last (prio_timeline p)) = ?o ! tc"
  have "\<exists>p'. bake_first ?o tc (prios zero_baked ! tc) = Inr p' \<and> ?Q tc p'" if "tc < TC_COUNT" for tc
  proof -
    let ?p = "\<lparr>slots = (replicate MAX_QBV_SLOTS zero_slot)[0 := zero_slot\<lparr>opened := ?o ! tc\<rparr>],
        slot_count = 1\<rparr>"
    have tl: "prio_timeline ?p = [(0, ?o ! tc)]"
      using prio_timeline_split[of ?p 0] by (simp add: zero_slot_def)
    have "bake_first ?o tc (prios zero_baked ! tc) = Inr ?p"
      using that wf_qbv_slot(2)[OF assms, of 0]
      by (simp add: bake_first_def zero_baked_def zero_prio_def)
    moreover have "?Q tc ?p" by (simp add: prio_inv_def tl)
    ultimately show ?thesis by blast
  qed
  from upd_prio_all[of zero_baked "bake_first ?o" ?Q, OF _ this] show ?thesis
    by (auto simp: bake_inv_def zero_baked_def)
qed

lemma bake_slot_inv:
  assumes wf: "wf_qbv q" and k: "k < MAX_QBV_SLOTS" and inv: "bake_inv q k b"
  shows "\<exists>b'. bake_slot q k b = Inr b' \<and> bake_inv q (Suc k) b'"
proof -
  let ?s = "qbv_slots q ! k" and ?d = "ucast (slot_duration_ns (qbv_slots q ! k)) :: u64"
  let ?b = "b\<lparr>cycle_ns := cycle_ns b + ?d\<rparr>"
  let ?f = "\<lambda>tc p. rbind (rd (opened_prios ?s) tc) (\<lambda>o'. bake_prio_slot ?d o' p)"
  note sl = wf_qbv_slot[OF wf k]
  have bound: "cycle_of (prefix_tl q tc k) + unat ?d < 2 ^ 64" for tc
    using cycle_prefix_bound[of q tc k] k unat_lt_u32[of "slot_duration_ns ?s"] by simp
  have "\<exists>p'. ?f tc (prios ?b ! tc) = Inr p' \<and> prio_inv (prefix_tl q tc (Suc k)) p'"
    if "tc < TC_COUNT" for tc
  proof -
    have "\<exists>p'. bake_prio_slot ?d (opened_prios ?s ! tc) (prios b ! tc) = Inr p' \<and>
        prio_inv (prefix_tl q tc k @ [(unat ?d, opened_prios ?s ! tc)]) p'"
    proof (rule bake_prio_slot_inv)
      show "prio_inv (prefix_tl q tc k) (prios b ! tc)" using inv that by (simp add: bake_inv_def)
      show "length (prefix_tl q tc k) < MAX_QBV_SLOTS" using k by simp
      show "cycle_of (prefix_tl q tc k) + unat ?d < 2 ^ 64" by (rule bound)
      show "snd (last (prio_timeline (prios b ! tc))) = opened_prios ?s ! tc"
        if "prefix_tl q tc k = []"
        using that inv \<open>tc < TC_COUNT\<close> by (auto simp: bake_inv_def prefix_tl_def)
    qed simp
    then show ?thesis using that sl by (simp add: slot_of_def)
  qed
  moreover have "length (prios ?b) = TC_COUNT" using inv by (simp add: bake_inv_def)
  ultimately obtain b' where b': "foldM (upd_prio ?f) [0..<TC_COUNT] ?b = Inr b'"
    "cycle_ns b' = cycle_ns ?b" "length (prios b') = TC_COUNT"
    "\<forall>tc < TC_COUNT. prio_inv (prefix_tl q tc (Suc k)) (prios b' ! tc)"
    using upd_prio_all[of ?b ?f "\<lambda>tc. prio_inv (prefix_tl q tc (Suc k))"] by blast
  have "unat (cycle_ns ?b) = cycle_of (prefix_tl q 0 (Suc k))"
    using inv bound[of 0] by (simp add: bake_inv_def slot_of_def unat_plus_no_wrap)
  with b' have "bake_inv q (Suc k) b'" by (simp add: bake_inv_def)
  moreover have "bake_slot q k b = Inr b'"
    using b' sl k by (simp add: bake_slot_def Let_def)
  ultimately show ?thesis by blast
qed

lemma bake_default_ok:
  assumes "wf_config c"
  shows "\<exists>c'. bake_default c = Inr c' \<and> wf_config c' \<and> qav c' = qav c \<and>
     (if qbv_enabled (qbv c) \<or> (\<exists>q \<in> set (qav c). qav_enabled q) then c' = c
      else qbv_enabled (qbv c') \<and> qbv_slot_count (qbv c') = 1 \<and>
        (\<forall>tc < TC_COUNT. cfg_timeline (qbv c') tc = [(1000000000, True)]))"
proof -
  have scan: "qav_all_disabled qs [i..<n] = Inr (\<forall>j \<in> {i..<n}. \<not> qav_enabled (qs ! j))"
    if "n \<le> length qs" for qs i n
    using that
  proof (induction "n - i" arbitrary: i)
    case (Suc m)
    then have "[i..<n] = i # [Suc i..<n]" by (simp add: upt_conv_Cons)
    moreover have "{i..<n} = insert i {Suc i..<n}" using Suc.hyps(2) by auto
    ultimately show ?case using Suc by simp
  qed simp
  have qs: "length (qav c) = 8" and wq: "wf_qbv (qbv c)" and wb: "wf_baked (qbv_baked c)"
    and qa: "length (queue_available_at c) = 8"
    using assms by (auto simp: wf_config_def)
  have all: "(\<forall>j \<in> {0..<8}. \<not> qav_enabled (qav c ! j)) \<longleftrightarrow> (\<forall>q \<in> set (qav c). \<not> qav_enabled q)"
    using qs by (auto simp: all_set_conv_all_nth)
  show ?thesis
  proof (cases "qbv_enabled (qbv c) \<or> (\<exists>q \<in> set (qav c). qav_enabled q)")
    case True
    then have "bake_default c = Inr c"
      using scan[of 8 "qav c" 0] qs all by (auto simp: bake_default_def)
    with True assms show ?thesis by auto
  next
    case False
    let ?o = "opened_prios (qbv_slots (qbv c) ! 0)"
    have ol: "length ?o = 8" and ql: "length (qbv_slots (qbv c)) = 20"
      using wf_qbv_slot[OF wq, of 0] by auto
    have "\<exists>o'. foldM (\<lambda>tc_id open_list. wr open_list tc_id True) [0..<8] ?o = Inr o' \<and>
        (length o' = 8 \<and> (\<forall>i < 8. o' ! i))"
      by (rule ex_forward[OF foldM_upt_inv[where n = 8
              and I = "\<lambda>k o'. length o' = 8 \<and> (\<forall>i < k. o' ! i)"]])
        (use ol in \<open>auto simp: nth_list_update less_Suc_eq\<close>)
    then obtain o' where o': "foldM (\<lambda>tc_id open_list. wr open_list tc_id True) [0..<8] ?o = Inr o'"
      "length o' = 8" "\<forall>i < 8. o' ! i" by blast
    let ?c = "c\<lparr>qbv := (qbv c)\<lparr>qbv_enabled := True, qbv_start := 0, qbv_slots :=
      (qbv_slots (qbv c))[0 := \<lparr>slot_duration_ns = 1000000000, opened_prios = o'\<rparr>], qbv_slot_count := 1\<rparr>\<rparr>"
    have "bake_default c = Inr ?c"
      using False scan[of 8 "qav c" 0] qs all ql o' by (auto simp: bake_default_def)
    moreover have "wf_qbv (qbv ?c)"
    proof -
      have "length (opened_prios s) = TC_COUNT" if "s \<in> set (qbv_slots (qbv ?c))" for s
        using that set_update_subset_insert[of "qbv_slots (qbv c)" 0] wq o'(2)
        by (fastforce simp: wf_qbv_def)
      with ql show ?thesis by (simp add: wf_qbv_def)
    qed
    then have "wf_config ?c" using assms by (simp add: wf_config_def)
    moreover have "cfg_timeline (qbv ?c) tc = [(1000000000, True)]" if "tc < 8" for tc
      using that ql o' by (cases "qbv_slots (qbv c)") (auto simp: cfg_timeline_def)
    ultimately show ?thesis using False by simp
  qed
qed

lemma bake_baked_ok:
  assumes wf: "wf_qbv q"
  shows "\<exists>b. rbind (foldM (upd_prio (bake_first (opened_prios (qbv_slots q ! 0)))) [0..<TC_COUNT]
        zero_baked) (\<lambda>b.
      rbind (foldM (bake_slot q) [0..<unat (qbv_slot_count q)] b)
        (foldM (upd_prio (\<lambda>_. bake_prio_even)) [0..<TC_COUNT])) = Inr b \<and>
     wf_baked b \<and> unat (cycle_ns b) = cfg_cycle q \<and>
     (\<forall>tc < TC_COUNT. baked_ok (cfg_timeline q tc) (prios b ! tc))"
proof -
  let ?n = "unat (qbv_slot_count q)"
  have n: "?n \<le> 20" "length (qbv_slots q) = 20" using wf by (auto simp: wf_qbv_def)
  obtain b0 where b0: "foldM (upd_prio (bake_first (opened_prios (qbv_slots q ! 0)))) [0..<TC_COUNT]
      zero_baked = Inr b0" "bake_inv q 0 b0" using bake_first_inv[OF wf] by blast
  have "\<exists>b1. foldM (bake_slot q) [0..<?n] b0 = Inr b1 \<and> bake_inv q ?n b1"
    by (rule foldM_upt_inv[where I = "bake_inv q"], rule b0) (use bake_slot_inv[OF wf] n in auto)
  then obtain b1 where b1: "foldM (bake_slot q) [0..<?n] b0 = Inr b1" "bake_inv q ?n b1" by blast
  have "\<exists>p'. bake_prio_even (prios b1 ! tc) = Inr p' \<and> baked_ok (cfg_timeline q tc) p'"
    if "tc < TC_COUNT" for tc
    using that b1(2) n bake_prio_even_ok[of "cfg_timeline q tc" "prios b1 ! tc"]
    by (simp add: bake_inv_def cfg_timeline_prefix)
  then obtain b2 where b2: "foldM (upd_prio (\<lambda>_. bake_prio_even)) [0..<TC_COUNT] b1 = Inr b2"
    "cycle_ns b2 = cycle_ns b1" "length (prios b2) = TC_COUNT"
    "\<forall>tc < TC_COUNT. baked_ok (cfg_timeline q tc) (prios b2 ! tc)"
    using upd_prio_all[of b1 "\<lambda>_. bake_prio_even" "\<lambda>tc. baked_ok (cfg_timeline q tc)"] b1(2)
    by (auto simp: bake_inv_def)
  have "wf_baked b2"
    using b2(3,4) by (auto simp: wf_baked_def baked_ok_def in_set_conv_nth)
  moreover have "unat (cycle_ns b2) = cfg_cycle q"
    using b2(2) b1(2) n by (simp add: bake_inv_def cfg_cycle_prefix[of q 0] cfg_timeline_prefix)
  ultimately show ?thesis using b0 b1 b2 by auto
qed

lemma bake_ok:
  assumes wf: "wf_config c"
  shows "\<exists>c'. bake_qos_config c = Inr c' \<and> wf_config c' \<and> qav c' = qav c \<and>
     (qbv_enabled (qbv c) \<or> (\<exists>q \<in> set (qav c). qav_enabled q) \<longrightarrow> qbv c' = qbv c) \<and>
     unat (cycle_ns (qbv_baked c')) = cfg_cycle (qbv c') \<and>
     (\<forall>tc < TC_COUNT. baked_ok (cfg_timeline (qbv c') tc) (prios (qbv_baked c') ! tc))"
proof -
  obtain c1 where c1: "bake_default c = Inr c1" "wf_config c1" "qav c1 = qav c"
    "qbv_enabled (qbv c) \<or> (\<exists>q \<in> set (qav c). qav_enabled q) \<longrightarrow> qbv c1 = qbv c"
    using bake_default_ok[OF wf] by metis
  then have wq: "wf_qbv (qbv c1)" by (simp add: wf_config_def)
  obtain b where b: "rbind (foldM (upd_prio (bake_first (opened_prios (qbv_slots (qbv c1) ! 0))))
        [0..<TC_COUNT] zero_baked) (\<lambda>b.
      rbind (foldM (bake_slot (qbv c1)) [0..<unat (qbv_slot_count (qbv c1))] b)
        (foldM (upd_prio (\<lambda>_. bake_prio_even)) [0..<TC_COUNT])) = Inr b"
    "wf_baked b" "unat (cycle_ns b) = cfg_cycle (qbv c1)"
    "\<forall>tc < TC_COUNT. baked_ok (cfg_timeline (qbv c1) tc) (prios b ! tc)"
    using bake_baked_ok[OF wq] by blast
  have "bake_qos_config c = Inr (c1\<lparr>qbv_baked := b\<rparr>)"
    using b(1) wf_qbv_slot(1)[OF wq, of 0] by (auto simp: bake_qos_config_def c1 rbind_eq_Inr)
  then show ?thesis using c1 b by (simp add: wf_config_def)
qed

text \<open>The baked schedule in force is that of the configured gate control list.\<close>

definition baked_current :: "tsn_config \<Rightarrow> bool" where
  "baked_current c \<longleftrightarrow> wf_config c \<and> unat (cycle_ns (qbv_baked c)) = cfg_cycle (qbv c) \<and>
     (\<forall>tc < TC_COUNT. baked_ok (cfg_timeline (qbv c) tc) (prios (qbv_baked c) ! tc))"

lemma bake_current: "wf_config c0 \<Longrightarrow> bake_qos_config c0 = Inr c \<Longrightarrow> baked_current c"
  using bake_ok[of c0] by (auto simp: baked_current_def)

lemma baked_current_upd:
  "baked_current c \<Longrightarrow> qbv c' = qbv c \<Longrightarrow> qbv_baked c' = qbv_baked c \<Longrightarrow> length (qav c') = length (qav c) \<Longrightarrow>
   length (queue_available_at c') = length (queue_available_at c) \<Longrightarrow> baked_current c'"
  by (simp add: baked_current_def wf_config_def)

subsection \<open>Properties\<close>

text \<open>
  C2: baking a well-formed configuration always succeeds, without any access outside an array; it
  keeps the configuration well formed, and for every traffic class the baked timeline alternates
  between open and closed, has an even, non-zero number of slots that fits its array, lasts
  exactly one configured cycle, and has the same gate state as the configured gate control list
  at every instant.
\<close>

theorem bake_qos_config_refines_gcl:
  assumes "wf_config c"
  shows "\<exists>c'. bake_qos_config c = Inr c' \<and> wf_config c' \<and>
     unat (cycle_ns (qbv_baked c')) = cfg_cycle (qbv c') \<and>
     (\<forall>tc < TC_COUNT. let tl = prio_timeline (prios (qbv_baked c') ! tc) in
        alternating tl \<and> even (length tl) \<and> 2 \<le> length tl \<and> length tl \<le> MAX_QBV_SLOTS \<and>
        cycle_of tl = cfg_cycle (qbv c') \<and>
        (\<forall>r. gate_at tl r = gate_at (cfg_timeline (qbv c') tc) r))"
  using bake_ok[OF assms]
  by (fastforce simp: baked_ok_def Let_def prio_timeline_def simp flip: cfg_cycle_prefix)

text \<open>A cleared configuration, as \<open>memset\<close> leaves it.\<close>

definition zero_qav :: qav_state where
  "zero_qav = \<lparr>qav_enabled = False, idle_slope = 0, send_slope = 0, hi_credit = 0, lo_credit = 0,
     credit = 0, last_update = 0, available_at = 0\<rparr>"

definition zero_config :: tsn_config where
  "zero_config = \<lparr>
     qbv = \<lparr>qbv_enabled = False, qbv_start = 0,
       qbv_slots = replicate MAX_QBV_SLOTS \<lparr>slot_duration_ns = 0, opened_prios = replicate TC_COUNT False\<rparr>,
       qbv_slot_count = 0\<rparr>,
     qbv_baked = zero_baked,
     qav = replicate TC_COUNT zero_qav,
     buffer_tracker = \<lparr>pending_packets = 0, last_tx_count = 0\<rparr>,
     queue_available_at = replicate TSN_PRIO_COUNT 0,
     total_available_at = 0\<rparr>"

lemma wf_zero_config: "wf_config zero_config"
  by (simp add: wf_config_def zero_config_def wf_qbv_def wf_baked_def zero_baked_def zero_prio_def)

theorem bake_qos_config_refines_gcl_witness:
  "wf_config zero_config \<and> (\<exists>c'. bake_qos_config zero_config = Inr c' \<and> wf_config c')"
  using wf_zero_config bake_qos_config_refines_gcl[OF wf_zero_config] by blast

end
