(* ===== verification/Tsn_Sched.thy ===== *)
theory Tsn_Sched
  imports Tsn_Bake
begin

text \<open>
  Choosing transmission windows: \<open>bytes_to_ns\<close> and \<open>get_timestamps\<close> of \<open>tsn.c\<close>.  Against the gate
  function of the configured gate control list, the lemmas show that the window handed to the
  hardware lies inside an open slot, does not start before the frame is ready, opens within one
  cycle, and is non-empty when every open slot of the class is long enough for the frame.
\<close>

subsection \<open>The code\<close>

definition bytes_to_ns :: "u64 \<Rightarrow> u64" where
  "bytes_to_ns bytes = max bytes 60 * 8 * NS_IN_1S div 1000000000"

definition TSN_ALWAYS_OPEN :: "timestamp_t \<Rightarrow> timestamp_t" where
  "TSN_ALWAYS_OPEN from = from - 1"

text \<open>\<open>while (remainder > slots[slot_id].duration_ns)\<close>; the loop leaves the array or stops.\<close>

function find_slot :: "qbv_baked_prio_slot list \<Rightarrow> u64 \<Rightarrow> nat \<Rightarrow> (u64 \<times> nat) res" where
  "find_slot ss remainder slot_id =
     rbind (rd ss slot_id) (\<lambda>s.
     if duration_ns s < remainder then find_slot ss (remainder - duration_ns s) (slot_id + 1)
     else Inr (remainder, slot_id))"
  by pat_completeness auto
termination
  by (relation "measure (\<lambda>(ss, _, i). length ss - i)") (auto simp: rd_def split: if_splits)

declare find_slot.simps [simp del]

definition next_slot :: "qbv_baked_prio \<Rightarrow> nat \<Rightarrow> nat res" where
  "next_slot p slot_id =
     (if slot_count p = 0 then Inl DivByZero else Inr ((slot_id + 1) mod unat (slot_count p)))"

text \<open>Step 1: the start of the window and the slot it is in.\<close>

definition window_from ::
  "qbv_baked_prio \<Rightarrow> timestamp_t \<Rightarrow> u64 \<Rightarrow> u64 \<Rightarrow> nat \<Rightarrow> (timestamp_t \<times> nat) res" where
  "window_from p from sending_duration remainder slot_id =
     rbind (rd (slots p) slot_id) (\<lambda>s.
     if opened s then
       (if duration_ns s - remainder < sending_duration then
          rbind (next_slot p slot_id) (\<lambda>slot_id.
          rbind (rd (slots p) slot_id) (\<lambda>s2.
          rbind (next_slot p slot_id) (\<lambda>slot_id.
          Inr (from - remainder + duration_ns s + duration_ns s2, slot_id))))
        else Inr (from - remainder, slot_id))
     else
       rbind (next_slot p slot_id) (\<lambda>slot_id. Inr (from - remainder + duration_ns s, slot_id)))"

text \<open>Steps 3 and 4: the window to retry in.\<close>

definition window_delay ::
  "qbv_baked_prio \<Rightarrow> timestamp_t \<Rightarrow> nat \<Rightarrow> (timestamp_t \<times> timestamp_t) res" where
  "window_delay p wfrom slot_id =
     rbind (rd (slots p) slot_id) (\<lambda>s.
     rbind (next_slot p slot_id) (\<lambda>slot_id.
     rbind (rd (slots p) slot_id) (\<lambda>s2.
     rbind (next_slot p slot_id) (\<lambda>slot_id.
     rbind (rd (slots p) slot_id) (\<lambda>s3.
     let dfrom = wfrom + duration_ns s + duration_ns s2
     in Inr (dfrom, dfrom + duration_ns s3))))))"

definition get_timestamps ::
  "tsn_config \<Rightarrow> timestamp_t \<Rightarrow> nat \<Rightarrow> u64 \<Rightarrow> bool \<Rightarrow> (bool \<times> timestamps) res" where
  "get_timestamps config from tc_id bytes consider_delay =
     (if \<not> qbv_enabled (qbv config) then
        Inr (True, \<lparr>ts_from = from, ts_to = TSN_ALWAYS_OPEN from,
                    ts_delay_from = from, ts_delay_to = TSN_ALWAYS_OPEN from\<rparr>)
      else
        rbind (rd (prios (qbv_baked config)) tc_id) (\<lambda>p.
        let sending_duration = bytes_to_ns bytes in
        if cycle_ns (qbv_baked config) = 0 then Inl DivByZero
        else
        let remainder = (from - qbv_start (qbv config)) mod cycle_ns (qbv_baked config) in
        rbind (if slot_count p = 2 then rbind (rd (slots p) 1) (\<lambda>s1. Inr (duration_ns s1 = 0))
               else Inr False) (\<lambda>single.
        if single then
          rbind (rd (slots p) 0) (\<lambda>s0.
          if \<not> opened s0 then
            Inr (False, \<lparr>ts_from = 0, ts_to = 0, ts_delay_from = 0, ts_delay_to = 0\<rparr>)
          else if consider_delay then
            Inr (True, \<lparr>ts_from = from, ts_to = TSN_ALWAYS_OPEN from,
                        ts_delay_from = from, ts_delay_to = TSN_ALWAYS_OPEN from\<rparr>)
          else
            Inr (True, \<lparr>ts_from = from, ts_to = TSN_ALWAYS_OPEN from,
                        ts_delay_from = 0, ts_delay_to = 0\<rparr>))
        else
          rbind (find_slot (slots p) remainder 0) (\<lambda>(remainder, slot_id).
          rbind (window_from p from sending_duration remainder slot_id) (\<lambda>(wfrom, slot_id).
          rbind (rd (slots p) slot_id) (\<lambda>s.
          let wto = wfrom + duration_ns s in
          rbind (if consider_delay then window_delay p wfrom slot_id else Inr (0, 0)) (\<lambda>(dfrom, dto).
          Inr (True, \<lparr>ts_from = max wfrom from, ts_to = wto - sending_duration,
                      ts_delay_from = dfrom,
                      ts_delay_to = (if consider_delay then dto - sending_duration else dto)\<rparr>))))))))"

subsection \<open>Cyclic timelines\<close>

text \<open>The gate of a class at an absolute time, from the configured gate control list.\<close>

definition gate_open :: "qbv_config \<Rightarrow> nat \<Rightarrow> nat \<Rightarrow> bool" where
  "gate_open q tc t = gate_at (cfg_timeline q tc) ((t - unat (qbv_start q)) mod cfg_cycle q)"

definition slot_start :: "timeline \<Rightarrow> nat \<Rightarrow> nat" where
  "slot_start ts i = cycle_of (take i ts)"

lemma slot_start_Suc: "i < length ts \<Longrightarrow> slot_start ts (Suc i) = slot_start ts i + fst (ts ! i)"
  by (simp add: slot_start_def take_Suc_conv_app_nth)

lemma slot_start_0 [simp]: "slot_start ts 0 = 0"
  by (simp add: slot_start_def)

lemma slot_end_le: "i < length ts \<Longrightarrow> slot_start ts i + fst (ts ! i) \<le> cycle_of ts"
  using slot_start_Suc[of i ts] cycle_of_simps(3)[of "take (Suc i) ts" "drop (Suc i) ts"]
  by (simp add: slot_start_def del: cycle_of_simps)

lemma gate_at_slot:
  "i < length ts \<Longrightarrow> k < fst (ts ! i) \<Longrightarrow> gate_at ts (slot_start ts i + k) = snd (ts ! i)"
proof (induction ts arbitrary: i)
  case (Cons x ts)
  then show ?case by (cases x; cases i) (auto simp: slot_start_def)
qed simp

text \<open>Time \<open>x\<close> is the beginning of an occurrence of slot \<open>i\<close>.\<close>

definition starts :: "timeline \<Rightarrow> nat \<Rightarrow> nat \<Rightarrow> bool" where
  "starts ts i x \<longleftrightarrow> i < length ts \<and> (\<exists>q. x = q * cycle_of ts + slot_start ts i)"

lemma starts_next:
  assumes "starts ts i x"
  shows "starts ts ((i + 1) mod length ts) (x + fst (ts ! i))"
proof -
  obtain q where q: "x = q * cycle_of ts + slot_start ts i" and i: "i < length ts"
    using assms by (auto simp: starts_def)
  show ?thesis
  proof (cases "Suc i = length ts")
    case True
    then have "slot_start ts i + fst (ts ! i) = cycle_of ts"
      using slot_start_Suc[OF i] by (simp add: slot_start_def)
    then have "x + fst (ts ! i) = Suc q * cycle_of ts + slot_start ts 0" by (simp add: q)
    then show ?thesis using True i by (auto simp: starts_def intro!: exI[of _ "Suc q"])
  next
    case False
    then have "(i + 1) mod length ts = Suc i" using i by simp
    moreover have "x + fst (ts ! i) = q * cycle_of ts + slot_start ts (Suc i)"
      using slot_start_Suc[OF i] by (simp add: q)
    ultimately show ?thesis using False i by (auto simp: starts_def)
  qed
qed

lemma starts_gate:
  assumes "starts ts i x" "k < fst (ts ! i)"
  shows "gate_at ts ((x + k) mod cycle_of ts) = snd (ts ! i)"
proof -
  obtain q where q: "x = q * cycle_of ts + slot_start ts i" and i: "i < length ts"
    using assms by (auto simp: starts_def)
  have "slot_start ts i + k < cycle_of ts" using slot_end_le[OF i] assms(2) by simp
  then have "(x + k) mod cycle_of ts = slot_start ts i + k" by (simp add: q add.assoc)
  with gate_at_slot[OF i assms(2)] show ?thesis by simp
qed

lemma alternating_nth:
  "alternating ts \<Longrightarrow> i < length ts \<Longrightarrow> snd (ts ! i) = (if even i then snd (ts ! 0) else \<not> snd (ts ! 0))"
proof (induction ts arbitrary: i rule: alternating.induct)
  case (1 x y ts)
  then show ?case by (cases i) (auto split: if_splits)
qed auto

text \<open>No closed slot has length zero.\<close>

definition closed_positive :: "timeline \<Rightarrow> bool" where
  "closed_positive ts \<longleftrightarrow> (\<forall>(d, opens) \<in> set ts. \<not> opens \<longrightarrow> 0 < d)"

text \<open>
  What the window computation relies on: the baked timeline of a class alternates, has an even
  number of slots and a positive cycle, so that the slot after a closed one and the slot two
  after an open one are open, also across the end of the cycle.
\<close>

locale gate_schedule =
  fixes ts :: timeline
  assumes alternates: "alternating ts"
    and even_slots: "even (length ts)"
    and cycle_pos: "0 < cycle_of ts"
begin

lemma two_slots: "2 \<le> length ts"
proof -
  have "ts \<noteq> []" using cycle_pos by auto
  then have "length ts \<noteq> 0" by simp
  with even_slots show ?thesis by presburger
qed

lemma next_opposite:
  assumes "i < length ts"
  shows "snd (ts ! ((i + 1) mod length ts)) = (\<not> snd (ts ! i))"
proof (cases "Suc i = length ts")
  case True
  then have "odd i" using even_slots by presburger
  then show ?thesis using True alternating_nth[OF alternates assms] assms by simp
next
  case False
  then have "(i + 1) mod length ts = Suc i" "Suc i < length ts" using assms by simp_all
  then show ?thesis
    using alternating_nth[OF alternates, of "Suc i"] alternating_nth[OF alternates assms] by auto
qed

lemma neighbours_le:
  assumes "i < length ts"
  shows "fst (ts ! i) + fst (ts ! ((i + 1) mod length ts)) \<le> cycle_of ts"
proof (cases "Suc i = length ts")
  case True
  then have "0 < i" using two_slots by simp
  then have "slot_start ts (Suc 0) \<le> slot_start ts i"
    using cycle_of_simps(3)[of "take (Suc 0) ts" "drop (Suc 0) (take i ts)"]
    by (simp add: slot_start_def min_def del: cycle_of_simps) (metis Suc_leI append_take_drop_id
        le_add1 min.absorb2 min.commute take_take)
  moreover have "0 < length ts" using two_slots by linarith
  then have "slot_start ts (Suc 0) = fst (ts ! 0)" using slot_start_Suc[of 0 ts] by simp
  ultimately have "fst (ts ! 0) \<le> slot_start ts i" by simp
  with slot_end_le[OF assms] True show ?thesis by simp
next
  case False
  then have "(i + 1) mod length ts = Suc i" "Suc i < length ts" using assms by simp_all
  then show ?thesis
    using slot_end_le[of "Suc i" ts] slot_start_Suc[OF assms] by simp
qed

end

text \<open>The schedule the driver installs by default meets the contract.\<close>

interpretation default_schedule: gate_schedule
  "prio_timeline \<lparr>slots = [\<lparr>duration_ns = 1000000000, opened = True\<rparr>, zero_slot], slot_count = 2\<rparr>"
  by unfold_locales (simp_all add: prio_timeline_def zero_slot_def)

subsection \<open>The loop finds the current slot\<close>

lemma length_prio_timeline:
  "unat (slot_count p) \<le> length (slots p) \<Longrightarrow> length (prio_timeline p) = unat (slot_count p)"
  by (simp add: prio_timeline_def)

lemma prio_timeline_nth:
  "i < unat (slot_count p) \<Longrightarrow> i < length (slots p) \<Longrightarrow>
     prio_timeline p ! i = (unat (duration_ns (slots p ! i)), opened (slots p ! i))"
  by (simp add: prio_timeline_def)

lemma find_slot_ok:
  assumes len: "unat (slot_count p) \<le> length (slots p)" and tl: "ts = prio_timeline p"
    and i: "i \<le> length ts" and bound: "slot_start ts i + unat r < cycle_of ts"
  shows "\<exists>r' j. find_slot (slots p) r i = Inr (r', j) \<and> j < length ts \<and>
     unat r' \<le> fst (ts ! j) \<and> slot_start ts j + unat r' = slot_start ts i + unat r"
  using i bound
proof (induction "length ts - i" arbitrary: i r)
  case 0
  then have "slot_start ts i = cycle_of ts" by (simp add: slot_start_def)
  with 0 show ?case by simp
next
  case (Suc m)
  then have i: "i < length ts" by simp
  then have il: "i < unat (slot_count p)" "i < length (slots p)"
    using length_prio_timeline[OF len] len tl by simp_all
  let ?s = "slots p ! i"
  have d: "fst (ts ! i) = unat (duration_ns ?s)" using prio_timeline_nth[OF il] tl by simp
  show ?case
  proof (cases "duration_ns ?s < r")
    case False
    then have "find_slot (slots p) r i = Inr (r, i)"
      using il by (subst find_slot.simps) simp
    moreover have "unat r \<le> fst (ts ! i)" using False d by (simp add: word_less_nat_alt)
    ultimately show ?thesis using i by blast
  next
    case True
    let ?r = "r - duration_ns ?s"
    have u: "unat ?r = unat r - unat (duration_ns ?s)"
      using True by (intro unat_minus_no_wrap) (simp add: word_less_nat_alt)
    have eq: "slot_start ts (i + 1) + unat ?r = slot_start ts i + unat r"
      using slot_start_Suc[OF i] d u True by (simp add: word_less_nat_alt)
    have "\<exists>r' j. find_slot (slots p) ?r (i + 1) = Inr (r', j) \<and> j < length ts \<and>
        unat r' \<le> fst (ts ! j) \<and> slot_start ts j + unat r' = slot_start ts (i + 1) + unat ?r"
      using Suc.hyps(2) i eq Suc.prems(2) by (intro Suc.hyps(1)) auto
    moreover have "find_slot (slots p) r i = find_slot (slots p) ?r (i + 1)"
      using True il by (subst find_slot.simps) simp
    ultimately show ?thesis using eq by simp
  qed
qed

subsection \<open>A baked class\<close>

lemma baked_schedule:
  assumes "baked_ok ts0 p" "0 < cycle_of ts0"
  shows "gate_schedule (prio_timeline p)" "length (prio_timeline p) = unat (slot_count p)"
    "unat (slot_count p) \<le> length (slots p)"
  using assms by (auto simp: baked_ok_def length_prio_timeline intro!: gate_schedule.intro)

lemma next_slot_ok:
  "0 < unat (slot_count p) \<Longrightarrow> next_slot p i = Inr ((i + 1) mod unat (slot_count p))"
  by (auto simp: next_slot_def unat_gt_0)

lemma window_from_ok:
  assumes ok: "baked_ok ts0 p" and ts: "ts = prio_timeline p" and pos: "0 < cycle_of ts"
    and st: "starts ts i (unat from - unat start - unat r)"
    and r: "unat r \<le> fst (ts ! i)" "unat r + unat start \<le> unat from"
    and nowrap: "unat from + cycle_of ts < 2 ^ 64"
  shows "\<exists>w j. window_from p from sending r i = Inr (w, j) \<and> snd (ts ! j) \<and>
     starts ts j (unat w - unat start) \<and> unat start \<le> unat w \<and>
     unat w \<le> unat from + cycle_of ts \<and>
     (unat from \<le> unat w \<or> w = from - r \<and> j = i \<and> unat r + unat sending \<le> fst (ts ! i)) \<and>
     (closed_positive ts \<longrightarrow> (\<forall>t. unat from \<le> t \<and> t < unat w \<longrightarrow>
        (\<exists>u \<ge> t. u < t + max 1 (unat sending) \<and> \<not> gate_at ts ((u - unat start) mod cycle_of ts))))"
proof -
  have sched: "gate_schedule ts" and n: "length ts = unat (slot_count p)"
    and len: "unat (slot_count p) \<le> length (slots p)"
    using baked_schedule[OF ok] pos ok ts by (auto simp: baked_ok_def)
  let ?j = "(i + 1) mod length ts"
  let ?k = "(?j + 1) mod length ts"
  let ?x = "unat from - unat start - unat r"
  have i: "i < length ts" using st by (simp add: starts_def)
  then have n0: "0 < length ts" by linarith
  have j: "?j < length ts" and k: "?k < length ts" using n0 by simp_all
  have nth: "ts ! m = (unat (duration_ns (slots p ! m)), opened (slots p ! m))" "m < length (slots p)"
    if "m < length ts" for m
    using prio_timeline_nth[of m p] that n len ts by simp_all
  have nxt: "next_slot p m = Inr ((m + 1) mod length ts)" for m
    using next_slot_ok[of p m] n n0 by simp
  have st1: "starts ts ?j (?x + fst (ts ! i))" by (rule starts_next[OF st])
  have st2: "starts ts ?k (?x + fst (ts ! i) + fst (ts ! ?j))" by (rule starts_next[OF st1])
  have opp: "snd (ts ! ?j) = (\<not> snd (ts ! i))" "snd (ts ! ?k) = (\<not> snd (ts ! ?j))"
    using gate_schedule.next_opposite[OF sched i] gate_schedule.next_opposite[OF sched j] by simp_all
  have nb: "fst (ts ! i) + fst (ts ! ?j) \<le> cycle_of ts"
    by (rule gate_schedule.neighbours_le[OF sched i])
  let ?d = "duration_ns (slots p ! i)" and ?e = "duration_ns (slots p ! ?j)"
  have d: "fst (ts ! i) = unat ?d" "fst (ts ! ?j) = unat ?e" using nth[OF i] nth[OF j] by simp_all
  have u0: "unat (from - r) = unat from - unat r" using r(2) by (intro unat_minus_no_wrap) simp
  have u1: "unat (from - r + ?d) = unat from - unat r + unat ?d"
    using u0 nb nowrap d by (subst unat_plus_no_wrap) simp_all
  have u2: "unat (from - r + ?d + ?e) = unat from - unat r + unat ?d + unat ?e"
    using u1 nb nowrap d by (subst unat_plus_no_wrap) simp_all
  have dr: "unat (?d - r) = unat ?d - unat r" using r(1) d by (intro unat_minus_no_wrap) simp
  consider (short) "opened (slots p ! i)" "?d - r < sending"
    | (fits) "opened (slots p ! i)" "\<not> ?d - r < sending"
    | (closed) "\<not> opened (slots p ! i)" by blast
  then show ?thesis
  proof cases
    case short
    then have "window_from p from sending r i = Inr (from - r + ?d + ?e, ?k)"
      using nth(2)[OF i] nth(2)[OF j] by (simp add: window_from_def nxt)
    moreover have "snd (ts ! ?k)" using opp short(1) nth(1)[OF i] by simp
    moreover have "unat (from - r + ?d + ?e) - unat start = ?x + fst (ts ! i) + fst (ts ! ?j)"
      using u2 d r by simp
    moreover have "\<exists>u \<ge> t. u < t + max 1 (unat sending) \<and> \<not> gate_at ts ((u - unat start) mod cycle_of ts)"
      if pos: "closed_positive ts" and t: "unat from \<le> t" "t < unat (from - r + ?d + ?e)" for t
    proof -
      let ?E = "unat from - unat r + fst (ts ! i)" and ?u = "max t (unat from - unat r + fst (ts ! i))"
      have o: "\<not> snd (ts ! ?j)" using opp short(1) nth(1)[OF i] by simp
      then have "0 < fst (ts ! ?j)" using pos nth_mem[OF j] by (auto simp: closed_positive_def)
      then have "\<not> gate_at ts ((?x + fst (ts ! i) + (?u - ?E)) mod cycle_of ts)"
        using starts_gate[OF st1, of "?u - ?E"] t(2) u2 d o by simp
      moreover have "?u - unat start = ?x + fst (ts ! i) + (?u - ?E)" using r by simp
      moreover have "?u < t + max 1 (unat sending)"
        using short(2) dr t(1) r d by (simp add: word_less_nat_alt)
      ultimately show ?thesis by (intro exI[of _ ?u]) simp
    qed
    ultimately show ?thesis using st2 u2 d r nb by auto
  next
    case fits
    have "unat r + unat sending \<le> fst (ts ! i)"
      using fits(2) r(1) d dr by (simp add: word_less_nat_alt)
    moreover have "window_from p from sending r i = Inr (from - r, i)"
      using fits nth(2)[OF i] by (simp add: window_from_def)
    moreover have "unat (from - r) - unat start = ?x" using u0 by simp
    ultimately show ?thesis using st u0 r fits(1) nth(1)[OF i] by auto
  next
    case closed
    then have "window_from p from sending r i = Inr (from - r + ?d, ?j)"
      using nth(2)[OF i] by (simp add: window_from_def nxt)
    moreover have "snd (ts ! ?j)" using opp closed nth(1)[OF i] by simp
    moreover have "unat (from - r + ?d) - unat start = ?x + fst (ts ! i)" using u1 d r by simp
    moreover have "\<exists>u \<ge> t. u < t + max 1 (unat sending) \<and> \<not> gate_at ts ((u - unat start) mod cycle_of ts)"
      if t: "unat from \<le> t" "t < unat (from - r + ?d)" for t
    proof -
      have "t - unat start = ?x + (t - (unat from - unat r))" "t - (unat from - unat r) < fst (ts ! i)"
        using t r u1 d by auto
      then have "\<not> gate_at ts ((t - unat start) mod cycle_of ts)"
        using starts_gate[OF st, of "t - (unat from - unat r)"] closed nth(1)[OF i] by simp
      then show ?thesis by (intro exI[of _ t]) simp
    qed
    ultimately show ?thesis using st1 u1 d r nb by auto
  qed
qed

lemma slot_le_cycle: "i < length ts \<Longrightarrow> fst (ts ! i) \<le> cycle_of ts"
  using slot_end_le[of i ts] by simp

lemma window_delay_ok:
  assumes ok: "baked_ok ts0 p" and ts: "ts = prio_timeline p" and pos: "0 < cycle_of ts"
    and st: "starts ts j (unat w - unat start)" "unat start \<le> unat w" "snd (ts ! j)"
    and nowrap: "unat w + 2 * cycle_of ts < 2 ^ 64"
  shows "\<exists>df dt k. window_delay p w j = Inr (df, dt) \<and> snd (ts ! k) \<and>
     starts ts k (unat df - unat start) \<and> unat start \<le> unat df \<and>
     unat dt = unat df + fst (ts ! k) \<and> unat df = unat w + fst (ts ! j) + fst (ts ! ((j + 1) mod length ts))"
proof -
  have sched: "gate_schedule ts" and n: "length ts = unat (slot_count p)"
    and len: "unat (slot_count p) \<le> length (slots p)"
    using baked_schedule[OF ok] pos ok ts by (auto simp: baked_ok_def)
  let ?k = "(j + 1) mod length ts"
  let ?l = "(?k + 1) mod length ts"
  have j: "j < length ts" using st by (simp add: starts_def)
  then have n0: "0 < length ts" by linarith
  have k: "?k < length ts" and l: "?l < length ts" using n0 by simp_all
  have nth: "ts ! m = (unat (duration_ns (slots p ! m)), opened (slots p ! m))" "m < length (slots p)"
    if "m < length ts" for m
    using prio_timeline_nth[of m p] that n len ts by simp_all
  have nxt: "next_slot p m = Inr ((m + 1) mod length ts)" for m
    using next_slot_ok[of p m] n n0 by simp
  have st2: "starts ts ?l (unat w - unat start + fst (ts ! j) + fst (ts ! ?k))"
    by (intro starts_next st(1))
  have o: "snd (ts ! ?l)"
    using gate_schedule.next_opposite[OF sched j] gate_schedule.next_opposite[OF sched k] st(3) by simp
  let ?d = "duration_ns (slots p ! j)" and ?e = "duration_ns (slots p ! ?k)"
    and ?f = "duration_ns (slots p ! ?l)"
  have d: "fst (ts ! j) = unat ?d" "fst (ts ! ?k) = unat ?e" "fst (ts ! ?l) = unat ?f"
    using nth[OF j] nth[OF k] nth[OF l] by simp_all
  have nb: "unat ?d + unat ?e \<le> cycle_of ts" "unat ?f \<le> cycle_of ts"
    using gate_schedule.neighbours_le[OF sched j] slot_le_cycle[OF l] d by simp_all
  have u1: "unat (w + ?d) = unat w + unat ?d" using nb nowrap by (subst unat_plus_no_wrap) simp_all
  have u2: "unat (w + ?d + ?e) = unat w + unat ?d + unat ?e"
    using nb nowrap u1 by (subst unat_plus_no_wrap) simp_all
  have u3: "unat (w + ?d + ?e + ?f) = unat w + unat ?d + unat ?e + unat ?f"
    using nb nowrap u2 by (subst unat_plus_no_wrap) simp_all
  have "window_delay p w j = Inr (w + ?d + ?e, w + ?d + ?e + ?f)"
    using nth(2)[OF j] nth(2)[OF k] nth(2)[OF l] by (simp add: window_delay_def nxt Let_def)
  moreover have "unat (w + ?d + ?e) - unat start = unat w - unat start + fst (ts ! j) + fst (ts ! ?k)"
    using u2 d st(2) by simp
  ultimately show ?thesis using o st2 st(2) u2 u3 d by auto
qed

text \<open>The window computation for a class that is neither always open nor always closed.\<close>

lemma get_timestamps_core:
  assumes ok: "baked_ok ts0 p" and p: "tc < length (prios (qbv_baked c))" "p = prios (qbv_baked c) ! tc"
    and en: "qbv_enabled (qbv c)" and ts: "ts = prio_timeline p"
    and cyc: "unat (cycle_ns (qbv_baked c)) = cycle_of ts" "0 < cycle_of ts"
    and single: "\<not> (slot_count p = 2 \<and> duration_ns (slots p ! 1) = 0)"
    and start: "unat start \<le> unat from" "start = qbv_start (qbv c)"
    and nowrap: "unat from + 3 * cycle_of ts < 2 ^ 64"
  shows "\<exists>w j df dt k. get_timestamps c from tc bytes delay =
       Inr (True, \<lparr>ts_from = max w from, ts_to = w + of_nat (fst (ts ! j)) - bytes_to_ns bytes,
         ts_delay_from = df, ts_delay_to = (if delay then dt - bytes_to_ns bytes else dt)\<rparr>) \<and>
     snd (ts ! j) \<and> starts ts j (unat w - unat start) \<and> unat start \<le> unat w \<and>
     unat w \<le> unat from + cycle_of ts \<and>
     unat (w + of_nat (fst (ts ! j))) = unat w + fst (ts ! j) \<and>
     (unat from \<le> unat w \<or> unat from - unat w + unat (bytes_to_ns bytes) \<le> fst (ts ! j)) \<and>
     (delay \<longrightarrow> snd (ts ! k) \<and> starts ts k (unat df - unat start) \<and> unat start \<le> unat df \<and>
        unat dt = unat df + fst (ts ! k) \<and> unat df = unat w + fst (ts ! j) + fst (ts ! ((j + 1) mod length ts))) \<and>
     (closed_positive ts \<longrightarrow> (\<forall>t. unat from \<le> t \<and> t < unat w \<longrightarrow>
        (\<exists>u \<ge> t. u < t + max 1 (unat (bytes_to_ns bytes)) \<and> \<not> gate_at ts ((u - unat start) mod cycle_of ts))))"
proof -
  have n: "length ts = unat (slot_count p)" and len: "unat (slot_count p) \<le> length (slots p)"
    and l20: "length (slots p) = 20"
    using baked_schedule[OF ok] cyc ok ts by (auto simp: baked_ok_def)
  let ?r0 = "(from - start) mod cycle_ns (qbv_baked c)"
  have fs: "unat (from - start) = unat from - unat start" using start(1) by (rule unat_minus_no_wrap)
  have r0: "unat ?r0 = (unat from - unat start) mod cycle_of ts" by (simp add: unat_mod fs cyc)
  then have "slot_start ts 0 + unat ?r0 < cycle_of ts" using cyc(2) by simp
  then obtain r i where find: "find_slot (slots p) ?r0 0 = Inr (r, i)" and i: "i < length ts"
    and r: "unat r \<le> fst (ts ! i)" and pos: "slot_start ts i + unat r = unat ?r0"
    using find_slot_ok[OF len ts, of 0 ?r0] by auto
  let ?q = "(unat from - unat start) div cycle_of ts"
  have split: "unat from - unat start = ?q * cycle_of ts + slot_start ts i + unat r"
    using pos r0 by (metis add.assoc div_mult_mod_eq)
  then have "unat from - unat start - unat r = ?q * cycle_of ts + slot_start ts i" by linarith
  then have st: "starts ts i (unat from - unat start - unat r)" using i unfolding starts_def by blast
  have r_le: "unat r + unat start \<le> unat from" using split start(1) by linarith
  obtain w j where w: "window_from p from (bytes_to_ns bytes) r i = Inr (w, j)" "snd (ts ! j)"
    "starts ts j (unat w - unat start)" "unat start \<le> unat w" "unat w \<le> unat from + cycle_of ts"
    "unat from \<le> unat w \<or> w = from - r \<and> j = i \<and> unat r + unat (bytes_to_ns bytes) \<le> fst (ts ! i)"
    "closed_positive ts \<longrightarrow> (\<forall>t. unat from \<le> t \<and> t < unat w \<longrightarrow>
       (\<exists>u \<ge> t. u < t + max 1 (unat (bytes_to_ns bytes)) \<and> \<not> gate_at ts ((u - unat start) mod cycle_of ts)))"
    using window_from_ok[OF ok ts cyc(2) st r r_le, of "bytes_to_ns bytes"] nowrap by auto
  have j: "j < length ts" using w(3) by (simp add: starts_def)
  have dj: "fst (ts ! j) = unat (duration_ns (slots p ! j))" "j < length (slots p)"
    using prio_timeline_nth[of j p] j n len ts by simp_all
  then have of: "of_nat (fst (ts ! j)) = duration_ns (slots p ! j)" by simp
  have wj: "unat (w + of_nat (fst (ts ! j))) = unat w + fst (ts ! j)"
    using slot_le_cycle[OF j] w(5) nowrap dj(1) of by (subst unat_plus_no_wrap) simp_all
  have fit: "unat from \<le> unat w \<or> unat from - unat w + unat (bytes_to_ns bytes) \<le> fst (ts ! j)"
    using w(6) r_le by (auto simp: unat_minus_no_wrap)
  obtain df dt k where df: "if delay then window_delay p w j = Inr (df, dt) else df = 0 \<and> dt = 0"
    "delay \<longrightarrow> snd (ts ! k) \<and> starts ts k (unat df - unat start) \<and> unat start \<le> unat df \<and>
        unat dt = unat df + fst (ts ! k) \<and> unat df = unat w + fst (ts ! j) + fst (ts ! ((j + 1) mod length ts))"
    using window_delay_ok[OF ok ts cyc(2) w(3,4,2)] w(5) nowrap by (cases delay) auto
  have nz: "cycle_ns (qbv_baked c) \<noteq> 0" using cyc by auto
  have "get_timestamps c from tc bytes delay =
       Inr (True, \<lparr>ts_from = max w from, ts_to = w + of_nat (fst (ts ! j)) - bytes_to_ns bytes,
         ts_delay_from = df, ts_delay_to = (if delay then dt - bytes_to_ns bytes else dt)\<rparr>)"
    using single l20 find w(1) df(1) dj(2) of nz p
    by (auto simp: get_timestamps_def en start(2)[symmetric] Let_def)
  then show ?thesis using w(2-5,7) wj fit df(2) by blast
qed

subsection \<open>Properties\<close>

lemma gate_open_starts:
  assumes "baked_ok (cfg_timeline q tc) p" "ts = prio_timeline p"
    and "starts ts i (unat w - unat (qbv_start q))" "unat (qbv_start q) \<le> unat w" "snd (ts ! i)"
    and "unat w \<le> t" "t < unat w + fst (ts ! i)"
  shows "gate_open q tc t"
proof -
  have c: "cycle_of ts = cfg_cycle q" "\<And>r. gate_at ts r = gate_at (cfg_timeline q tc) r"
    using assms(1,2) by (auto simp: baked_ok_def simp flip: cfg_cycle_prefix)
  have "t - unat (qbv_start q) = (unat w - unat (qbv_start q)) + (t - unat w)" using assms by simp
  moreover have "t - unat w < fst (ts ! i)" using assms by simp
  ultimately show ?thesis
    using starts_gate[OF assms(3), of "t - unat w"] assms(5) c by (simp add: gate_open_def)
qed

lemma single_timeline:
  assumes "baked_ok ts0 p" "slot_count p = 2" "duration_ns (slots p ! 1) = 0"
  shows "prio_timeline p = [(unat (duration_ns (slots p ! 0)), opened (slots p ! 0)),
     (0, \<not> opened (slots p ! 0))]"
proof -
  obtain a b xs where ss: "slots p = a # b # xs"
    using assms(1) by (cases "slots p"; cases "List.tl (slots p)") (auto simp: baked_ok_def)
  then have t: "prio_timeline p = [(unat (duration_ns a), opened a), (unat (duration_ns b), opened b)]"
    using assms(2) by (simp add: prio_timeline_def)
  then show ?thesis using assms ss by (auto simp: baked_ok_def)
qed

text \<open>
  The windows a class may be given.  A first window \<open>[a, b]\<close> of starting times for a transmission of
  length \<open>s\<close>: it begins when the frame is ready or within a cycle, the gate is open from its beginning to
  the end of a transmission started at its last instant, and it has room for the transmission unless it
  is a whole open slot that is too short.  When no closed slot is empty, it lasts until the gate closes,
  and no transmission that begins earlier would meet an open gate throughout.
\<close>

definition first_window :: "qbv_config \<Rightarrow> nat \<Rightarrow> timeline \<Rightarrow> timestamp_t \<Rightarrow> u64 \<Rightarrow> timestamp_t \<Rightarrow> timestamp_t \<Rightarrow> bool" where
  "first_window q tc lin from s a b \<longleftrightarrow>
     from \<le> a \<and> unat a \<le> unat from + cfg_cycle q \<and>
     (\<forall>t. unat a \<le> t \<and> t < unat (b + s) \<longrightarrow> gate_open q tc t) \<and>
     (unat a + unat s \<le> unat (b + s) \<or> (\<exists>d. (d, True) \<in> set lin \<and> d < unat s \<and> unat (b + s) = unat a + d)) \<and>
     (closed_positive lin \<longrightarrow> \<not> gate_open q tc (unat (b + s)) \<and>
        (\<forall>t. unat from \<le> t \<and> t < unat a \<longrightarrow> (\<exists>u \<ge> t. u < t + max 1 (unat s) \<and> \<not> gate_open q tc u)))"

text \<open>The window to retry in is the whole next open slot after the first window.\<close>

definition retry_window :: "qbv_config \<Rightarrow> nat \<Rightarrow> timeline \<Rightarrow> u64 \<Rightarrow> timestamp_t \<Rightarrow> timestamp_t \<Rightarrow> timestamp_t \<Rightarrow> bool" where
  "retry_window q tc lin s b a' b' \<longleftrightarrow>
     unat (b + s) \<le> unat a' \<and> (\<forall>t. unat (b + s) \<le> t \<and> t < unat a' \<longrightarrow> \<not> gate_open q tc t) \<and>
     (\<forall>t. unat a' \<le> t \<and> t < unat (b' + s) \<longrightarrow> gate_open q tc t) \<and>
     (\<exists>d. (d, True) \<in> set lin \<and> unat (b' + s) = unat a' + d)"

text \<open>A class that is always open is told so; any other is given a first window, and one to retry in if asked.\<close>

definition windows_given :: "qbv_config \<Rightarrow> nat \<Rightarrow> timeline \<Rightarrow> timestamp_t \<Rightarrow> u64 \<Rightarrow> bool \<Rightarrow> timestamps \<Rightarrow> bool" where
  "windows_given q tc lin from s delay ts \<longleftrightarrow>
     (\<forall>t. gate_open q tc t) \<and> ts_from ts = from \<and> ts_to ts = TSN_ALWAYS_OPEN from \<and>
       (delay \<longrightarrow> ts_delay_from ts = from \<and> ts_delay_to ts = TSN_ALWAYS_OPEN from) \<or>
     first_window q tc lin from s (ts_from ts) (ts_to ts) \<and>
       (delay \<longrightarrow> retry_window q tc lin s (ts_to ts) (ts_delay_from ts) (ts_delay_to ts))"

lemma gate_open_baked:
  assumes "baked_ok (cfg_timeline q tc) p" "ts = prio_timeline p"
  shows "gate_open q tc t = gate_at ts ((t - unat (qbv_start q)) mod cycle_of ts)"
  using assms by (auto simp: baked_ok_def gate_open_def simp flip: cfg_cycle_prefix)

lemma gate_closed_next:
  assumes ok: "baked_ok (cfg_timeline q tc) p" and ts: "ts = prio_timeline p" and pos: "0 < cycle_of ts"
    and st: "starts ts j (unat w - unat (qbv_start q))" "unat (qbv_start q) \<le> unat w" "snd (ts ! j)"
    and t: "unat w + fst (ts ! j) \<le> t" "t < unat w + fst (ts ! j) + fst (ts ! ((j + 1) mod length ts))"
  shows "\<not> gate_open q tc t"
proof -
  have sched: "gate_schedule ts" using baked_schedule(1)[OF ok] pos ok ts by (auto simp: baked_ok_def)
  let ?E = "unat w + fst (ts ! j)"
  have "j < length ts" using st(1) by (simp add: starts_def)
  then have "\<not> snd (ts ! ((j + 1) mod length ts))" using gate_schedule.next_opposite[OF sched] st(3) by simp
  moreover have "t - unat (qbv_start q) = unat w - unat (qbv_start q) + fst (ts ! j) + (t - ?E)" using t(1) st(2) by simp
  ultimately show ?thesis
    using starts_gate[OF starts_next[OF st(1)], of "t - ?E"] t gate_open_baked[OF ok ts] by simp
qed

lemma get_timestamps_gates:
  assumes cur: "baked_current c" and en: "qbv_enabled (qbv c)"
    and tc: "tc < TC_COUNT" and cyc: "0 < cfg_cycle (qbv c)" and start: "qbv_start (qbv c) \<le> from"
    and nowrap: "unat from + 3 * cfg_cycle (qbv c) < 2 ^ 64"
  shows "\<exists>ok ts. get_timestamps c from tc bytes delay = Inr (ok, ts) \<and>
     (\<not> ok \<longrightarrow> (\<forall>t. \<not> gate_open (qbv c) tc t)) \<and>
     (ok \<longrightarrow> windows_given (qbv c) tc (prio_timeline (prios (qbv_baked c) ! tc)) from (bytes_to_ns bytes) delay ts)"
proof -
  let ?p = "prios (qbv_baked c) ! tc" and ?ct = "cfg_timeline (qbv c) tc" and ?s = "bytes_to_ns bytes" and ?q0 = "unat (qbv_start (qbv c))"
  let ?ts = "prio_timeline ?p"
  have b: "baked_ok ?ct ?p" "length (prios (qbv_baked c)) = 8"
    "unat (cycle_ns (qbv_baked c)) = cfg_cycle (qbv c)"
    using cur tc by (auto simp: baked_current_def wf_config_def wf_baked_def)
  have ct: "cycle_of ?ts = cfg_cycle (qbv c)"
    using b(1) by (auto simp: baked_ok_def simp flip: cfg_cycle_prefix)
  note gate = gate_open_baked[OF b(1) refl]
  have nz: "cycle_ns (qbv_baked c) \<noteq> 0" using b(3) cyc by auto
  show ?thesis
  proof (cases "slot_count ?p = 2 \<and> duration_ns (slots ?p ! 1) = 0")
    case True
    note tl = single_timeline[OF b(1) conjunct1[OF True] conjunct2[OF True]]
    have l: "length (slots ?p) = 20" using b(1) by (simp add: baked_ok_def)
    have g: "gate_open (qbv c) tc t = opened (slots ?p ! 0)" for t
    proof -
      have "(t - ?q0) mod cycle_of ?ts < unat (duration_ns (slots ?p ! 0))" using ct tl cyc by simp
      then show ?thesis using tl by (simp add: gate)
    qed
    show ?thesis
      using True l b(2) tc nz
      by (cases "opened (slots ?p ! 0)"; cases delay) (auto simp: get_timestamps_def en Let_def g windows_given_def)
  next
    case False
    have pre: "tc < length (prios (qbv_baked c))" "unat (cycle_ns (qbv_baked c)) = cycle_of ?ts"
      "0 < cycle_of ?ts" "?q0 \<le> unat from" "unat from + 3 * cycle_of ?ts < 2 ^ 64"
      using b(2,3) ct(1) tc cyc nowrap start by (simp_all add: word_le_nat_alt)
    obtain w j df dt k where g: "get_timestamps c from tc bytes delay =
       Inr (True, \<lparr>ts_from = max w from, ts_to = w + of_nat (fst (?ts ! j)) - ?s,
         ts_delay_from = df, ts_delay_to = (if delay then dt - ?s else dt)\<rparr>)"
      and w: "snd (?ts ! j)" "starts ?ts j (unat w - ?q0)" "?q0 \<le> unat w" "unat w \<le> unat from + cycle_of ?ts"
        "unat (w + of_nat (fst (?ts ! j))) = unat w + fst (?ts ! j)"
        "unat from \<le> unat w \<or> unat from - unat w + unat ?s \<le> fst (?ts ! j)"
      and d: "delay \<longrightarrow> snd (?ts ! k) \<and> starts ?ts k (unat df - ?q0) \<and>
        ?q0 \<le> unat df \<and> unat dt = unat df + fst (?ts ! k) \<and>
        unat df = unat w + fst (?ts ! j) + fst (?ts ! ((j + 1) mod length ?ts))"
      and e: "closed_positive ?ts \<longrightarrow> (\<forall>t. unat from \<le> t \<and> t < unat w \<longrightarrow>
        (\<exists>u \<ge> t. u < t + max 1 (unat ?s) \<and> \<not> gate_at ?ts ((u - ?q0) mod cycle_of ?ts)))"
      using get_timestamps_core[OF b(1) pre(1) refl en refl pre(2,3) False pre(4) refl pre(5),
          of bytes delay] by blast
    let ?b = "w + of_nat (fst (?ts ! j)) - ?s" and ?n = "(j + 1) mod length ?ts"
    have j: "j < length ?ts" using w(2) by (simp add: starts_def)
    then have n: "?n < length ?ts" by (metis mod_less_divisor not_less_zero neq0_conv)
    have m: "from \<le> max w from" "unat (max w from) = max (unat w) (unat from)"
      by (simp_all add: max_def word_le_nat_alt)
    note closed = gate_closed_next[OF b(1) refl pre(3) w(2,3,1)]
    have "(fst (?ts ! j), True) \<in> set ?ts" using nth_mem[OF j] w(1) by (metis prod.collapse)
    moreover have "\<not> gate_open (qbv c) tc (unat w + fst (?ts ! j))" if "closed_positive ?ts"
    proof -
      have "gate_schedule ?ts" using baked_schedule(1)[OF b(1)] pre(3) b(1) by (auto simp: baked_ok_def)
      then have "\<not> snd (?ts ! ?n)" using gate_schedule.next_opposite j w(1) by blast
      then have "0 < fst (?ts ! ?n)" using that nth_mem[OF n] by (auto simp: closed_positive_def)
      then show ?thesis using closed by simp
    qed
    moreover have "gate_open (qbv c) tc t" if "max (unat w) (unat from) \<le> t" "t < unat w + fst (?ts ! j)" for t
      using gate_open_starts[OF b(1) refl w(2,3,1), of t] that by simp
    ultimately have "first_window (qbv c) tc ?ts from ?s (max w from) ?b"
      using w(4,5,6) m e ct by (fastforce simp: first_window_def gate)
    moreover have "retry_window (qbv c) tc ?ts ?s ?b df (dt - ?s)" if delay
    proof -
      have k: "k < length ?ts" "snd (?ts ! k)" using d that by (auto simp: starts_def)
      then have "(fst (?ts ! k), True) \<in> set ?ts" using nth_mem by (metis prod.collapse)
      moreover have "gate_open (qbv c) tc t" if "unat df \<le> t" "t < unat dt" for t
        using gate_open_starts[OF b(1) refl, of k df t] d \<open>delay\<close> that by auto
      ultimately show ?thesis using d that closed w(5) by (auto simp: retry_window_def)
    qed
    ultimately show ?thesis using g by (auto simp: windows_given_def)
  qed
qed

text \<open>
  C1: for a class with Qbv in force, a frame ready at \<open>from\<close> (not before the schedule's base time,
  three cycles before the clock wraps around)
  is always given an answer, without division by zero or an access outside an array.  It is
  refused only when the gate of its class never opens.  Otherwise, unless the class is always open,
  its window begins when the frame is ready or within one cycle of it; from the beginning of the
  window to the end of a transmission started at its last instant the configured gate is open; and
  the transmission fits between the beginning of the window and the closing of the gate, unless the
  window is a whole open slot that is too short for the frame.  When no closed slot has length zero,
  the window lasts as long as the gate stays open, and it is the earliest: a transmission begun between
  \<open>from\<close> and the window would meet a closed gate.  The window to retry in is the whole next open slot,
  and the gate is closed from the end of the first to its beginning.
\<close>

theorem get_timestamps_respects_gates:
  assumes wf: "wf_config c0" and bake: "bake_qos_config c0 = Inr c" and en: "qbv_enabled (qbv c)"
    and tc: "tc < TC_COUNT" and cyc: "0 < cfg_cycle (qbv c)" and start: "qbv_start (qbv c) \<le> from"
    and nowrap: "unat from + 3 * cfg_cycle (qbv c) < 2 ^ 64"
  shows "\<exists>ok ts. get_timestamps c from tc bytes delay = Inr (ok, ts) \<and>
     (\<not> ok \<longrightarrow> (\<forall>t. \<not> gate_open (qbv c) tc t)) \<and>
     (ok \<longrightarrow> windows_given (qbv c) tc (prio_timeline (prios (qbv_baked c) ! tc)) from (bytes_to_ns bytes) delay ts)"
  by (rule get_timestamps_gates[OF bake_current[OF wf bake] en tc cyc start nowrap])

text \<open>A gate control list that treats every class alike, for examples.\<close>

definition demo_config :: "(u32 \<times> bool) list \<Rightarrow> tsn_config" where
  "demo_config gcl = zero_config\<lparr>qbv := \<lparr>qbv_enabled = True, qbv_start = 0,
     qbv_slots = map (\<lambda>(d, b). \<lparr>slot_duration_ns = d, opened_prios = replicate TC_COUNT b\<rparr>) gcl @
       replicate (MAX_QBV_SLOTS - length gcl)
         \<lparr>slot_duration_ns = 0, opened_prios = replicate TC_COUNT False\<rparr>,
     qbv_slot_count = of_nat (length gcl)\<rparr>\<rparr>"

lemma wf_demo_config: "length gcl \<le> MAX_QBV_SLOTS \<Longrightarrow> wf_config (demo_config gcl)"
  using wf_zero_config
  by (auto simp: demo_config_def wf_config_def wf_qbv_def unat_of_nat set_replicate_conv_if)

lemma demo_cycle: "cfg_cycle (qbv (demo_config [(400000, True), (600000, False)])) = 1000000"
  by (simp add: cfg_cycle_def demo_config_def)

lemma demo_bake:
  obtains c where "bake_qos_config (demo_config [(400000, True), (600000, False)]) = Inr c"
    "qbv c = qbv (demo_config [(400000, True), (600000, False)])" "qbv_enabled (qbv c)" "qbv_start (qbv c) = 0"
    "cfg_cycle (qbv c) = 1000000"
proof -
  have "wf_config (demo_config [(400000, True), (600000, False)])" by (simp add: wf_demo_config)
  from bake_ok[OF this] obtain c where
    "bake_qos_config (demo_config [(400000, True), (600000, False)]) = Inr c"
    "qbv c = qbv (demo_config [(400000, True), (600000, False)])"
    by (auto simp: demo_config_def)
  then show ?thesis using that[of c] demo_cycle by (simp add: demo_config_def)
qed

lemma demo_prio:
  "rbind (bake_qos_config (demo_config [(400000, True), (600000, False)]))
     (\<lambda>c. Inr (prios (qbv_baked c) ! 0)) =
   Inr \<lparr>slots = [\<lparr>duration_ns = 400000, opened = True\<rparr>, \<lparr>duration_ns = 600000, opened = False\<rparr>] @
          replicate 18 zero_slot, slot_count = 2\<rparr>"
  by code_simp

lemma demo_gate:
  "gate_open (qbv (demo_config [(400000, True), (600000, False)])) 0 0"
  "\<not> gate_open (qbv (demo_config [(400000, True), (600000, False)])) 0 400000"
  by (simp_all add: gate_open_def cfg_timeline_def cfg_cycle_def demo_config_def)

theorem get_timestamps_respects_gates_witness:
  "\<exists>c ts. bake_qos_config (demo_config [(400000, True), (600000, False)]) = Inr c \<and>
     get_timestamps c 395000 0 1000 True = Inr (True, ts) \<and> 395000 \<le> ts_from ts \<and>
     unat (ts_from ts) + 8000 \<le> unat (ts_to ts + 8000)"
proof -
  let ?g = "demo_config [(400000, True), (600000, False)]"
  obtain c where c: "bake_qos_config ?g = Inr c" "qbv c = qbv ?g" "qbv_enabled (qbv c)" "qbv_start (qbv c) = 0"
    "cfg_cycle (qbv c) = 1000000"
    by (rule demo_bake)
  have wf: "wf_config ?g" by (simp add: wf_demo_config)
  have h: "(0::nat) < TC_COUNT" "0 < cfg_cycle (qbv c)" "qbv_start (qbv c) \<le> 395000"
    "unat (395000 :: u64) + 3 * cfg_cycle (qbv c) < 2 ^ 64"
    using c by simp_all
  have "prio_timeline (prios (qbv_baked c) ! 0) = [(400000, True), (600000, False)]"
    using demo_prio c(1) by (simp add: prio_timeline_def)
  moreover have "bytes_to_ns 1000 = 8000" by (simp add: bytes_to_ns_def)
  ultimately obtain ok ts where t: "get_timestamps c 395000 0 1000 True = Inr (ok, ts)"
    "\<not> ok \<longrightarrow> (\<forall>t. \<not> gate_open (qbv c) 0 t)"
    "ok \<longrightarrow> windows_given (qbv c) 0 [(400000, True), (600000, False)] 395000 8000 True ts"
    using get_timestamps_respects_gates[OF wf c(1,3) h, of 1000 True] by auto
  have g: "ok" "\<not> (\<forall>t. gate_open (qbv c) 0 t)" using t(2) demo_gate unfolding c(2) by blast+
  then have w: "first_window (qbv c) 0 [(400000, True), (600000, False)] 395000 8000 (ts_from ts) (ts_to ts)"
    using t(3) unfolding windows_given_def by blast
  then have "unat (ts_from ts) + unat (8000 :: u64) \<le> unat (ts_to ts + 8000)" "395000 \<le> ts_from ts"
    by (auto simp: first_window_def)
  then show ?thesis using t(1) g(1) c(1) by auto
qed

lemma closed_open_closed_prio:
  "rbind (bake_qos_config (demo_config [(400000, False), (300000, True), (300000, False)]))
     (\<lambda>c. Inr (prios (qbv_baked c) ! 0, cycle_ns (qbv_baked c), length (prios (qbv_baked c)),
        qbv_enabled (qbv c), qbv_start (qbv c))) =
   Inr (\<lparr>slots = [\<lparr>duration_ns = 400000, opened = False\<rparr>, \<lparr>duration_ns = 300000, opened = True\<rparr>,
          \<lparr>duration_ns = 300000, opened = False\<rparr>, \<lparr>duration_ns = 0, opened = True\<rparr>] @
          replicate 16 zero_slot, slot_count = 4\<rparr>, 1000000, TC_COUNT, True, 0)"
  by code_simp

text \<open>
  C36: the slot that baking appends to make the number of slots even can be an open slot of length
  zero.  With a gate control list that begins and ends closed, a frame that becomes ready during
  the last closed slot is given exactly that slot: a window that ends, at \<open>from - sending\<close>, before
  it begins.
\<close>

theorem get_timestamps_empty_window:
  assumes "bake_qos_config (demo_config [(400000, False), (300000, True), (300000, False)]) = Inr c"
    and "700000 < from" "from < 1000000"
  shows "\<exists>ts. get_timestamps c from 0 bytes delay = Inr (True, ts) \<and>
     ts_from ts = 1000000 \<and> ts_to ts = ts_from ts - bytes_to_ns bytes"
proof -
  let ?p = "prios (qbv_baked c) ! 0"
  have p: "?p = \<lparr>slots = [\<lparr>duration_ns = 400000, opened = False\<rparr>, \<lparr>duration_ns = 300000, opened = True\<rparr>,
          \<lparr>duration_ns = 300000, opened = False\<rparr>, \<lparr>duration_ns = 0, opened = True\<rparr>] @
          replicate 16 zero_slot, slot_count = 4\<rparr>"
    and c: "cycle_ns (qbv_baked c) = 1000000" "length (prios (qbv_baked c)) = TC_COUNT"
      "qbv_enabled (qbv c)" "qbv_start (qbv c) = 0"
    using closed_open_closed_prio assms(1) by auto
  have u: "700000 < unat from" "unat from < 1000000" using assms(2,3) by (simp_all add: word_less_nat_alt)
  have r: "from mod 1000000 = from" using u(2) by (simp add: word_unat_eq_iff unat_mod)
  have s1: "400000 < from" using u by (simp add: word_less_nat_alt)
  have s2: "300000 < from - 400000" using u by (simp add: word_less_nat_alt unat_minus_no_wrap)
  have s3: "\<not> 300000 < from - 400000 - 300000"
    using u by (simp add: word_less_nat_alt unat_minus_no_wrap)
  have f: "find_slot (slots ?p) from 0 = Inr (from - 400000 - 300000, 2)"
    using s1 s2 s3 by (simp add: p find_slot.simps)
  have w: "window_from ?p from (bytes_to_ns bytes) (from - 400000 - 300000) 2 = Inr (1000000, 3)"
    by (simp add: p window_from_def next_slot_def)
  have d: "\<exists>df dt. window_delay ?p 1000000 3 = Inr (df, dt)"
    by (simp add: p window_delay_def next_slot_def Let_def)
  have m: "max 1000000 from = 1000000" using assms(3) by (auto simp: max_def)
  from f w d m show ?thesis
    by (cases delay) (auto simp: get_timestamps_def c r p Let_def)
qed

theorem get_timestamps_empty_window_witness:
  "\<exists>c ts. bake_qos_config (demo_config [(400000, False), (300000, True), (300000, False)]) = Inr c \<and>
     get_timestamps c 800000 0 1000 True = Inr (True, ts) \<and> ts_from ts = 1000000 \<and> ts_to ts = 992000"
proof -
  obtain c where c: "bake_qos_config (demo_config [(400000, False), (300000, True), (300000, False)]) = Inr c"
    using bake_ok[OF wf_demo_config, of "[(400000, False), (300000, True), (300000, False)]"] by auto
  have "(700000 :: u64) < 800000" "(800000 :: u64) < 1000000" by simp_all
  from get_timestamps_empty_window[OF c this, of 1000 True] c show ?thesis
    by (auto simp: bytes_to_ns_def)
qed

end
