(* ===== verification/Tsn_Qav.thy ===== *)
theory Tsn_Qav
  imports Tsn_Sched
begin

text \<open>
  The credit-based shaper (Qav): \<open>spend_qav_credit\<close> of \<open>tsn.c\<close>.  The code accumulates 32-bit credits
  through double-precision products; the functional law below says exactly what it computes, in
  integers, and exactly when the conversion back to 32 bits is out of range.
\<close>

subsection \<open>The code\<close>

text \<open>C division of signed integers truncates towards zero.\<close>

definition c_div :: "int \<Rightarrow> int \<Rightarrow> int" where
  "c_div a b = sgn a * sgn b * (\<bar>a\<bar> div \<bar>b\<bar>)"

text \<open>
  The body for one class.  Besides a zero divisor, the quotient \<open>INT_MIN / -1\<close> raises the
  processor's divide error.
\<close>

definition spend_credit :: "qav_state \<Rightarrow> timestamp_t \<Rightarrow> u64 \<Rightarrow> qav_state res" where
  "spend_credit q t bytes =
     (if \<not> qav_enabled q then Inr q
      else if t < last_update q \<or> t < available_at q then Inr q
      else
        let elapsed_from_last_update = t - last_update q;
            earned_credit = d_mul (d_of_int (uint elapsed_from_last_update)) (of_int (sint (idle_slope q)))
        in rbind (d_to_s32 (d_add (of_int (sint (credit q))) earned_credit)) (\<lambda>cr.
        let cr = (if sint (hi_credit q) < sint cr then hi_credit q else cr);
            sending_duration = bytes_to_ns bytes;
            spending_credit = d_mul (d_of_int (uint sending_duration)) (of_int (sint (send_slope q)))
        in rbind (d_to_s32 (d_add (of_int (sint cr)) spending_credit)) (\<lambda>cr.
        let cr = (if sint cr < sint (lo_credit q) then lo_credit q else cr);
            send_end = t + sending_duration;
            q = q\<lparr>credit := cr, last_update := send_end\<rparr>
        in if sint cr < 0 then
             (if idle_slope q = 0 \<or> sint cr = - (2 ^ 31) \<and> sint (idle_slope q) = - 1 then Inl DivByZero
              else Inr (q\<lparr>available_at :=
                send_end + scast (- (word_of_int (c_div (sint cr) (sint (idle_slope q))) :: s32))\<rparr>))
           else Inr (q\<lparr>available_at := send_end\<rparr>))))"

definition spend_qav_credit :: "tsn_config \<Rightarrow> timestamp_t \<Rightarrow> nat \<Rightarrow> u64 \<Rightarrow> tsn_config res" where
  "spend_qav_credit config t tc_id bytes =
     rbind (rd (qav config) tc_id) (\<lambda>q.
     rbind (spend_credit q t bytes) (\<lambda>q'.
     rbind (wr (qav config) tc_id q') (\<lambda>qs. Inr (config\<lparr>qav := qs\<rparr>))))"

subsection \<open>The credit law\<close>

definition earned :: "qav_state \<Rightarrow> timestamp_t \<Rightarrow> int" where
  "earned q t = sint (credit q) + uint (t - last_update q) * sint (idle_slope q)"

definition spent :: "qav_state \<Rightarrow> timestamp_t \<Rightarrow> u64 \<Rightarrow> int" where
  "spent q t bytes =
     min (earned q t) (sint (hi_credit q)) + uint (bytes_to_ns bytes) * sint (send_slope q)"

definition new_credit :: "qav_state \<Rightarrow> timestamp_t \<Rightarrow> u64 \<Rightarrow> int" where
  "new_credit q t bytes = max (spent q t bytes) (sint (lo_credit q))"

lemma sint_range: "- (2 ^ 31) \<le> sint (w :: s32)" "sint (w :: s32) < 2 ^ 31"
  using sint_greater_eq[of w] sint_less[of w] by simp_all

lemma sint_abs: "\<bar>sint (w :: s32)\<bar> \<le> 2 ^ 31"
  using sint_range[of w] by (simp add: abs_le_iff)

lemma s32_range_sint [simp]: "s32_range (sint (w :: s32))"
  using sint_range[of w] by (simp add: s32_range_def)

lemma sint_word_of_int_s32: "s32_range n \<Longrightarrow> sint (word_of_int n :: s32) = n"
  by (simp add: s32_range_def int_word_sint)

lemma word_of_sint [simp]: "word_of_int (sint (w :: s32)) = w"
  by (simp add: of_int_sint)

lemma s32_min_max: "s32_range a \<Longrightarrow> s32_range b \<Longrightarrow> s32_range (min a b) \<and> s32_range (max a b)"
  by (auto simp: min_def max_def)

lemma clamp_hi:
  "s32_range a \<Longrightarrow> (if sint h < sint (word_of_int a :: s32) then h else word_of_int a) =
     (word_of_int (min a (sint h)) :: s32)"
  by (auto simp: sint_word_of_int_s32 min_def)

lemma clamp_lo:
  "s32_range a \<Longrightarrow> (if sint (word_of_int a :: s32) < sint l then l else word_of_int a) =
     (word_of_int (max a (sint l)) :: s32)"
  by (auto simp: sint_word_of_int_s32 max_def)

lemma c_div_neg: "c < 0 \<Longrightarrow> 0 < i \<Longrightarrow> c_div c i = - ((- c) div i)"
  by (simp add: c_div_def)

lemma scast_s32_u64:
  assumes "0 \<le> n" "n < 2 ^ 31"
  shows "scast (- (word_of_int (- n) :: s32)) = (word_of_int n :: u64)"
proof -
  have "- (word_of_int (- n) :: s32) = word_of_int n" by simp
  moreover have "sint (word_of_int n :: s32) = n"
    using assms by (intro sint_word_of_int_s32) (simp add: s32_range_def)
  ultimately show ?thesis by (simp add: scast_eq)
qed

lemma neg_div_bound:
  assumes "s32_range c" "c < 0" "0 < (i :: int)" "c \<noteq> - (2 ^ 31) \<or> i \<noteq> 1"
  shows "0 \<le> (- c) div i" "(- c) div i < 2 ^ 31"
proof -
  show "0 \<le> (- c) div i" using assms by (simp add: pos_imp_zdiv_nonneg_iff)
  show "(- c) div i < 2 ^ 31"
  proof (cases "i = 1")
    case True
    then show ?thesis using assms by (simp add: s32_range_def)
  next
    case False
    then have "(- c) div i \<le> (- c) div 2" using assms by (intro zdiv_mono2) auto
    also have "\<dots> < 2 ^ 31" using assms by (simp add: s32_range_def)
    finally show ?thesis .
  qed
qed

lemma spend_credit_exact:
  assumes en: "qav_enabled q" and t: "last_update q \<le> t" "available_at q \<le> t"
    and slope: "0 < sint (idle_slope q)"
    and lo: "- (2 ^ 31) < sint (lo_credit q)"
  shows "spend_credit q t bytes =
     (if s32_range (earned q t) \<and> s32_range (spent q t bytes) then
        Inr (q\<lparr>credit := word_of_int (new_credit q t bytes),
               last_update := t + bytes_to_ns bytes,
               available_at := t + bytes_to_ns bytes +
                 word_of_int (max 0 (- new_credit q t bytes) div sint (idle_slope q))\<rparr>)
      else Inl FloatRange)"
proof -
  let ?i = "sint (idle_slope q)"
  have g: "\<not> (t < last_update q \<or> t < available_at q)" using t by auto
  have m1: "d_to_s32 (d_add (of_int (sint (credit q)))
        (d_mul (d_of_int (uint (t - last_update q))) (of_int ?i))) =
      (if s32_range (earned q t) then Inr (word_of_int (earned q t)) else Inl FloatRange)"
    using d_mac_to_s32[OF sint_abs[of "credit q"]] by (simp add: earned_def)
  show ?thesis
  proof (cases "s32_range (earned q t)")
    case False
    then show ?thesis using en g m1 by (simp add: spend_credit_def Let_def)
  next
    case r1: True
    let ?h = "min (earned q t) (sint (hi_credit q))"
    have h: "s32_range ?h" using s32_min_max[OF r1] by simp
    have sh: "sint (word_of_int ?h :: s32) = ?h" by (rule sint_word_of_int_s32[OF h])
    have m2: "d_to_s32 (d_add (of_int ?h)
          (d_mul (d_of_int (uint (bytes_to_ns bytes))) (of_int (sint (send_slope q))))) =
        (if s32_range (spent q t bytes) then Inr (word_of_int (spent q t bytes)) else Inl FloatRange)"
      using d_mac_to_s32[OF sint_abs[of "word_of_int ?h"]] by (simp add: spent_def sh)
    show ?thesis
    proof (cases "s32_range (spent q t bytes)")
      case False
      then show ?thesis
        using en g m1 m2 r1 by (simp add: spend_credit_def Let_def clamp_hi sh)
    next
      case r2: True
      let ?n = "new_credit q t bytes"
      have n: "s32_range ?n" using s32_min_max[OF r2] by (simp add: new_credit_def)
      have sn: "sint (word_of_int ?n :: s32) = ?n" by (rule sint_word_of_int_s32[OF n])
      have big: "?n \<noteq> - (2 ^ 31)" using lo by (simp add: new_credit_def)
      have z: "idle_slope q \<noteq> 0" using slope by auto
      have c: "(if sint (word_of_int (spent q t bytes) :: s32) < sint (lo_credit q) then lo_credit q
          else word_of_int (spent q t bytes)) = (word_of_int ?n :: s32)"
        using clamp_lo[OF r2] by (simp add: new_credit_def)
      have wait: "scast (- (word_of_int (c_div ?n ?i) :: s32)) = (word_of_int (- ?n div ?i) :: u64)"
        if "?n < 0"
        using scast_s32_u64[OF neg_div_bound[OF n that slope]] big that slope
        by (simp add: c_div_neg)
      show ?thesis
        using en g m1 m2 r1 r2 big z slope wait
        by (simp add: spend_credit_def Let_def clamp_hi sh c sn max_def)
    qed
  qed
qed

subsection \<open>Properties\<close>

text \<open>
  C12: for an enabled class with a positive idle slope, spending credit for a frame sent at \<open>t\<close>
  computes exactly \<open>max lo (min hi (credit + elapsed * idle_slope) + duration * send_slope)\<close> and the
  instant at which the class may send again, in spite of the double-precision arithmetic; it
  fails precisely when the credit before or after the transmission does not fit 32 bits.
\<close>

theorem spend_credit_law:
  assumes "qav_enabled q" and "last_update q \<le> t" "available_at q \<le> t"
    and "0 < sint (idle_slope q)" and "- (2 ^ 31) < sint (lo_credit q)"
  shows "spend_credit q t bytes =
     (if s32_range (earned q t) \<and> s32_range (spent q t bytes) then
        Inr (q\<lparr>credit := word_of_int (new_credit q t bytes),
               last_update := t + bytes_to_ns bytes,
               available_at := t + bytes_to_ns bytes +
                 word_of_int (max 0 (- new_credit q t bytes) div sint (idle_slope q))\<rparr>)
      else Inl FloatRange)"
  by (rule spend_credit_exact[OF assms])

text \<open>Class A traffic of 100 Mbit/s on a 1 Gbit/s link, in the driver's units.\<close>

definition demo_qav :: qav_state where
  "demo_qav = \<lparr>qav_enabled = True, idle_slope = 100, send_slope = - 900, hi_credit = 1000000,
     lo_credit = - 1000000, credit = 0, last_update = 1000, available_at = 1000\<rparr>"

theorem spend_credit_law_witness:
  "spend_credit demo_qav 2000 100 =
     Inr (demo_qav\<lparr>credit := - 620000, last_update := 2800, available_at := 9000\<rparr>)"
proof -
  have h: "qav_enabled demo_qav" "last_update demo_qav \<le> 2000" "available_at demo_qav \<le> 2000"
    "0 < sint (idle_slope demo_qav)" "- (2 ^ 31) < sint (lo_credit demo_qav)"
    by (simp_all add: demo_qav_def)
  show ?thesis
    by (simp add: spend_credit_law[OF h]) (simp add: demo_qav_def earned_def spent_def
        new_credit_def s32_range_def bytes_to_ns_def)
qed

text \<open>
  A transmission keeps the credit between its bounds, and the class becomes available no
  earlier than the end of the transmission and at an instant when its credit, growing at the idle
  slope, has come back to within one step of zero: \<open>-idle_slope < credit + wait * idle_slope\<close>, and not
  a step later than needed.
\<close>

theorem spend_credit_bounds:
  assumes ok: "spend_credit q t bytes = Inr q'"
    and en: "qav_enabled q" and t: "last_update q \<le> t" "available_at q \<le> t"
    and slopes: "0 < sint (idle_slope q)" "sint (send_slope q) \<le> 0"
    and lohi: "- (2 ^ 31) < sint (lo_credit q)" "sint (lo_credit q) \<le> sint (hi_credit q)"
    and nowrap: "unat t + unat (bytes_to_ns bytes) + 2 ^ 31 < 2 ^ 64"
  shows "sint (lo_credit q) \<le> sint (credit q') \<and> sint (credit q') \<le> sint (hi_credit q) \<and>
     last_update q' \<le> available_at q' \<and>
     (let wait = uint (available_at q') - uint (last_update q') in
        - sint (idle_slope q) < sint (credit q') + wait * sint (idle_slope q) \<and>
        (0 < wait \<longrightarrow> sint (credit q') + wait * sint (idle_slope q) \<le> 0))"
proof -
  let ?i = "sint (idle_slope q)" and ?n = "new_credit q t bytes" and ?e = "t + bytes_to_ns bytes"
  let ?w = "max 0 (- ?n) div ?i"
  have r: "s32_range (earned q t)" "s32_range (spent q t bytes)"
    and q': "q' = q\<lparr>credit := word_of_int ?n, last_update := ?e, available_at := ?e + word_of_int ?w\<rparr>"
    using ok spend_credit_exact[OF en t slopes(1) lohi(1), of bytes] by (auto split: if_splits)
  have n: "s32_range ?n" using s32_min_max[OF r(2)] by (simp add: new_credit_def)
  have sn: "sint (credit q') = ?n" by (simp add: q' sint_word_of_int_s32[OF n])
  have "spent q t bytes \<le> sint (hi_credit q)"
    using slopes(2) mult_nonneg_nonpos[of "uint (bytes_to_ns bytes)" "sint (send_slope q)"]
    by (simp add: spent_def min_def)
  then have b: "sint (lo_credit q) \<le> ?n" "?n \<le> sint (hi_credit q)"
    using lohi(2) by (simp_all add: new_credit_def)
  have w: "0 \<le> ?w" "?w < 2 ^ 31"
  proof -
    show "0 \<le> ?w" using slopes(1) by (simp add: pos_imp_zdiv_nonneg_iff)
    have "?w \<le> max 0 (- ?n)" using slopes(1) zdiv_mono2[of "max 0 (- ?n)" 1 ?i] by simp
    also have "\<dots> < 2 ^ 31" using b(1) lohi(1) by simp
    finally show "?w < 2 ^ 31" .
  qed
  have "unat ?e = unat t + unat (bytes_to_ns bytes)"
    using nowrap by (intro unat_plus_no_wrap) simp
  moreover have "unat t + unat (bytes_to_ns bytes) + 2147483648 < 18446744073709551616"
    using nowrap by simp
  ultimately have "uint ?e + 2147483648 < 18446744073709551616"
    unfolding uint_nat[of ?e] by linarith
  with w(2) have ue: "uint ?e + ?w < 2 ^ 64" by simp
  then have ua: "uint (?e + word_of_int ?w) = uint ?e + ?w"
    using w by (simp add: uint_word_ariths uint_word_of_int)
  have d: "?w * ?i \<le> max 0 (- ?n)" "max 0 (- ?n) - ?i < ?w * ?i"
    using div_mult_mod_eq[of "max 0 (- ?n)" ?i] pos_mod_bound[OF slopes(1), of "max 0 (- ?n)"]
      pos_mod_sign[OF slopes(1), of "max 0 (- ?n)"] by linarith+
  have "- ?i < ?n + ?w * ?i" "0 < ?w \<longrightarrow> ?n + ?w * ?i \<le> 0"
    using d slopes(1) by (auto simp: max_def split: if_splits)
  then show ?thesis
    using b sn ua w(1) by (simp add: q' word_le_def Let_def)
qed

lemma demo_spend:
  "spend_credit demo_qav 2000 100 =
     Inr (demo_qav\<lparr>credit := - 620000, last_update := 2800, available_at := 9000\<rparr>)"
proof -
  have h: "qav_enabled demo_qav" "last_update demo_qav \<le> 2000" "available_at demo_qav \<le> 2000"
    "0 < sint (idle_slope demo_qav)" "- (2 ^ 31) < sint (lo_credit demo_qav)"
    by (simp_all add: demo_qav_def)
  show ?thesis
    by (simp add: spend_credit_exact[OF h]) (simp add: demo_qav_def earned_def spent_def
        new_credit_def s32_range_def bytes_to_ns_def)
qed

theorem spend_credit_bounds_witness:
  "\<exists>q'. spend_credit demo_qav 2000 100 = Inr q' \<and> last_update q' \<le> available_at q' \<and>
     sint (credit q') \<le> 1000000"
proof -
  have h: "qav_enabled demo_qav" "last_update demo_qav \<le> 2000" "available_at demo_qav \<le> 2000"
    "0 < sint (idle_slope demo_qav)" "sint (send_slope demo_qav) \<le> 0"
    "- (2 ^ 31) < sint (lo_credit demo_qav)" "sint (lo_credit demo_qav) \<le> sint (hi_credit demo_qav)"
    "unat (2000 :: u64) + unat (bytes_to_ns 100) + 2 ^ 31 < 2 ^ 64"
    by (simp_all add: demo_qav_def bytes_to_ns_def)
  from spend_credit_bounds[OF demo_spend h] demo_spend show ?thesis
    by (auto simp: demo_qav_def)
qed

end
