(* ===== verification/Alinx_Arch.thy ===== *)
theory Alinx_Arch
  imports Xdma_State
begin

text \<open>
  Register access and statistics counters of the FPGA (\<open>alinx_arch.c\<close>).  The 32-bit hardware
  counters are widened to 64 bits in software in two ways, which the lemmas below justify: two
  counters are cleared by reading and accumulated; the other three free-run and are extended by
  the wrapped difference.
\<close>

definition read32 :: "device \<Rightarrow> io_addr \<Rightarrow> xdma_dev \<Rightarrow> u32 \<times> xdma_dev" where
  "read32 hw a d = (let v = hw (io_trace d) a in (v, d\<lparr>io_trace := io_trace d @ [RdReg a v]\<rparr>))"

definition write32 :: "u32 \<Rightarrow> io_addr \<Rightarrow> xdma_dev \<Rightarrow> xdma_dev" where
  "write32 v a d = d\<lparr>io_trace := io_trace d @ [WrReg a v]\<rparr>"

abbreviation REG_NEXT_PULSE_AT_HI :: io_addr where "REG_NEXT_PULSE_AT_HI \<equiv> Bar 0 0x002c"
abbreviation REG_NEXT_PULSE_AT_LO :: io_addr where "REG_NEXT_PULSE_AT_LO \<equiv> Bar 0 0x0030"
abbreviation REG_CYCLE_1S :: io_addr where "REG_CYCLE_1S \<equiv> Bar 0 0x0034"
abbreviation REG_SYS_CLOCK_HI :: io_addr where "REG_SYS_CLOCK_HI \<equiv> Bar 0 0x0380"
abbreviation REG_SYS_CLOCK_LO :: io_addr where "REG_SYS_CLOCK_LO \<equiv> Bar 0 0x0384"
abbreviation REG_TX_PACKETS :: io_addr where "REG_TX_PACKETS \<equiv> Bar 0 0x0200"
abbreviation REG_TX_DROP_PACKETS :: io_addr where "REG_TX_DROP_PACKETS \<equiv> Bar 0 0x0220"
abbreviation REG_NORMAL_TIMEOUT_COUNT :: io_addr where "REG_NORMAL_TIMEOUT_COUNT \<equiv> Bar 0 0x041c"
abbreviation REG_TO_OVERFLOW_POPPED_COUNT :: io_addr where
  "REG_TO_OVERFLOW_POPPED_COUNT \<equiv> Bar 0 0x0420"
abbreviation REG_TO_OVERFLOW_TIMEOUT_COUNT :: io_addr where
  "REG_TO_OVERFLOW_TIMEOUT_COUNT \<equiv> Bar 0 0x0424"

text \<open>A 64-bit value read as two 32-bit halves, high half first.\<close>

definition join64 :: "u32 \<Rightarrow> u32 \<Rightarrow> u64" where
  "join64 hi lo = or (push_bit 32 (ucast hi)) (ucast lo)"

definition alinx_set_pulse_at :: "sysclock_t \<Rightarrow> xdma_dev \<Rightarrow> xdma_dev" where
  "alinx_set_pulse_at time d =
     write32 (ucast time) REG_NEXT_PULSE_AT_LO
       (write32 (ucast (drop_bit 32 time)) REG_NEXT_PULSE_AT_HI d)"

definition alinx_get_sys_clock :: "device \<Rightarrow> xdma_dev \<Rightarrow> sysclock_t \<times> xdma_dev" where
  "alinx_get_sys_clock hw d =
     (let (hi, d) = read32 hw REG_SYS_CLOCK_HI d;
          (lo, d) = read32 hw REG_SYS_CLOCK_LO d
      in (join64 hi lo, d))"

definition alinx_set_cycle_1s :: "u32 \<Rightarrow> xdma_dev \<Rightarrow> xdma_dev" where
  "alinx_set_cycle_1s cycle_1s d = write32 cycle_1s REG_CYCLE_1S d"

definition alinx_get_cycle_1s :: "device \<Rightarrow> xdma_dev \<Rightarrow> u32 \<times> xdma_dev" where
  "alinx_get_cycle_1s hw d =
     (let (ret, d) = read32 hw REG_CYCLE_1S d
      in (if ret \<noteq> 0 then ret else RESERVED_CYCLE, d))"

definition read_pair :: "device \<Rightarrow> nat \<Rightarrow> nat \<Rightarrow> xdma_dev \<Rightarrow> timestamp_t \<times> xdma_dev" where
  "read_pair hw hi_reg lo_reg d =
     (let (hi, d) = read32 hw (Bar 0 hi_reg) d;
          (lo, d) = read32 hw (Bar 0 lo_reg) d
      in (join64 hi lo, d))"

definition alinx_read_tx_timestamp :: "device \<Rightarrow> int \<Rightarrow> xdma_dev \<Rightarrow> timestamp_t \<times> xdma_dev" where
  "alinx_read_tx_timestamp hw tx_id d =
     (if tx_id = 1 then read_pair hw 0x0310 0x0314 d
      else if tx_id = 2 then read_pair hw 0x0320 0x0324 d
      else if tx_id = 3 then read_pair hw 0x0330 0x0334 d
      else if tx_id = 4 then read_pair hw 0x0340 0x0344 d
      else (0, d))"

definition add_u32_counter :: "u64 \<Rightarrow> u32 \<Rightarrow> u64" where
  "add_u32_counter acc val = (let diff = val - ucast acc in acc + ucast diff)"

definition alinx_get_tx_packets :: "device \<Rightarrow> xdma_dev \<Rightarrow> u64 \<times> xdma_dev" where
  "alinx_get_tx_packets hw d =
     (let (regval, d) = read32 hw REG_TX_PACKETS d;
          total = total_tx_count (priv d) + ucast regval
      in (total, d\<lparr>priv := (priv d)\<lparr>total_tx_count := total\<rparr>\<rparr>))"

definition alinx_get_tx_drop_packets :: "device \<Rightarrow> xdma_dev \<Rightarrow> u64 \<times> xdma_dev" where
  "alinx_get_tx_drop_packets hw d =
     (let (regval, d) = read32 hw REG_TX_DROP_PACKETS d;
          total = total_tx_drop_count (priv d) + ucast regval
      in (total, d\<lparr>priv := (priv d)\<lparr>total_tx_drop_count := total\<rparr>\<rparr>))"

definition alinx_get_normal_timeout_packets :: "device \<Rightarrow> xdma_dev \<Rightarrow> u64 \<times> xdma_dev" where
  "alinx_get_normal_timeout_packets hw d =
     (let (regval, d) = read32 hw REG_NORMAL_TIMEOUT_COUNT d;
          total = add_u32_counter (last_normal_timeout (priv d)) regval
      in (total, d\<lparr>priv := (priv d)\<lparr>last_normal_timeout := total\<rparr>\<rparr>))"

definition alinx_get_to_overflow_popped_packets :: "device \<Rightarrow> xdma_dev \<Rightarrow> u64 \<times> xdma_dev" where
  "alinx_get_to_overflow_popped_packets hw d =
     (let (regval, d) = read32 hw REG_TO_OVERFLOW_POPPED_COUNT d;
          total = add_u32_counter (last_to_overflow_popped (priv d)) regval
      in (total, d\<lparr>priv := (priv d)\<lparr>last_to_overflow_popped := total\<rparr>\<rparr>))"

definition alinx_get_to_overflow_timeout_packets :: "device \<Rightarrow> xdma_dev \<Rightarrow> u64 \<times> xdma_dev" where
  "alinx_get_to_overflow_timeout_packets hw d =
     (let (regval, d) = read32 hw REG_TO_OVERFLOW_TIMEOUT_COUNT d;
          total = add_u32_counter (last_to_overflow_timeout (priv d)) regval
      in (total, d\<lparr>priv := (priv d)\<lparr>last_to_overflow_timeout := total\<rparr>\<rparr>))"

text \<open>
  C leaves the order of the four calls in the sum unspecified; they touch disjoint registers and
  fields, and the model takes them from left to right.
\<close>

definition alinx_get_total_tx_drop_packets :: "device \<Rightarrow> xdma_dev \<Rightarrow> u64 \<times> xdma_dev" where
  "alinx_get_total_tx_drop_packets hw d =
     (let (a, d) = alinx_get_tx_drop_packets hw d;
          (b, d) = alinx_get_normal_timeout_packets hw d;
          (c, d) = alinx_get_to_overflow_popped_packets hw d;
          (e, d) = alinx_get_to_overflow_timeout_packets hw d
      in (a + b + c + e, d))"

subsection \<open>64-bit values through 32-bit registers\<close>

lemma join64_split: "join64 (ucast (drop_bit 32 w)) (ucast (w :: u64)) = w"
  by (rule bit_word_eqI) (auto simp: join64_def bit_simps)

lemma uint_join64: "uint (join64 hi lo) = uint hi * 2 ^ 32 + uint lo"
proof -
  have "and (push_bit 32 (ucast hi :: u64)) (ucast lo) = 0"
    by (rule bit_word_eqI) (auto simp: bit_simps dest: bit_imp_le_length)
  then have "join64 hi lo = push_bit 32 (ucast hi) + ucast lo"
    by (simp add: join64_def disjunctive_add_eq_or)
  moreover have "uint hi < 2 ^ 32" "uint lo < 2 ^ 32"
    using uint_lt2p[of hi] uint_lt2p[of lo] by simp_all
  ultimately show ?thesis
    by (simp add: push_bit_eq_mult uint_word_ariths uint_ucast_u32_u64)
qed

subsection \<open>Widening a free-running 32-bit counter\<close>

text \<open>
  If the software total was congruent to the register's true 64-bit count and the count advanced
  by less than \<open>2\<^sup>3\<^sup>2\<close> since, then the new total is the true count.
\<close>

lemma add_u32_counter_exact:
  assumes "true_count - uint acc < 2 ^ 32" "uint acc \<le> true_count" "true_count < 2 ^ 64"
    and "val = word_of_int true_count"
  shows "uint (add_u32_counter acc val) = true_count"
proof -
  let ?d = "true_count - uint acc"
  have "val - ucast acc = (word_of_int ?d :: u32)"
    unfolding assms(4) ucast_eq wi_hom_sub ..
  then have "add_u32_counter acc val = acc + ucast (word_of_int ?d :: u32)"
    by (simp add: add_u32_counter_def)
  moreover have "uint (ucast (word_of_int ?d :: u32) :: u64) = ?d"
    using assms(1,2) by (simp add: uint_word_of_int del: of_int_diff)
  moreover have "0 \<le> true_count" using assms(2) uint_ge_0[of acc] by linarith
  ultimately show ?thesis using assms(3) by (simp add: uint_word_ariths)
qed

end
