(* ===== verification/Alinx_Ptp.thy ===== *)
theory Alinx_Ptp
  imports Alinx_Arch
begin

text \<open>
  The PTP hardware clock (\<open>alinx_ptp.c\<close>).  Device time is \<open>ticks_scale * sys_count + offset\<close> with
  \<open>ticks_scale\<close> a double (8 ns per tick of the 125 MHz system clock when undisturbed) and \<open>offset\<close>
  a 64-bit word that may stand for a negative number.  The lemmas show that rate adjustment is
  continuous, that the two conversions are inverse at the nominal rate, how \<open>settime\<close> really moves
  the clock, and where the next one-second pulse is programmed.
\<close>

definition alinx_get_timestamp :: "u64 \<Rightarrow> double \<Rightarrow> u64 \<Rightarrow> timestamp_t res" where
  "alinx_get_timestamp sys_count scale offset =
     rbind (d_to_u64 (d_mul scale (d_of_int (uint sys_count)))) (\<lambda>timestamp.
     Inr (timestamp + offset))"

definition set_pulse_at :: "sysclock_t \<Rightarrow> xdma_dev \<Rightarrow> xdma_dev res" where
  "set_pulse_at sys_count d =
     rbind (alinx_get_timestamp sys_count (ticks_scale (ptp d)) (ptp_offset (ptp d))) (\<lambda>current_ns.
     let next_pulse_ns = current_ns - current_ns mod NS_IN_1S + NS_IN_1S in
     rbind (d_div (d_of_int (uint (next_pulse_ns - ptp_offset (ptp d)))) (ticks_scale (ptp d))) (\<lambda>q.
     rbind (d_to_u64 q) (\<lambda>next_pulse_sysclock.
     Inr (alinx_set_pulse_at next_pulse_sysclock d))))"

definition set_cycle_1s :: "u32 \<Rightarrow> xdma_dev \<Rightarrow> xdma_dev" where
  "set_cycle_1s cycle_1s d = alinx_set_cycle_1s cycle_1s d"

definition alinx_timestamp_to_sysclock :: "timestamp_t \<Rightarrow> xdma_dev \<Rightarrow> sysclock_t res" where
  "alinx_timestamp_to_sysclock timestamp d =
     rbind (d_div (d_of_int (uint (timestamp - ptp_offset (ptp d)))) (ticks_scale (ptp d))) d_to_u64"

definition alinx_sysclock_to_timestamp :: "sysclock_t \<Rightarrow> xdma_dev \<Rightarrow> timestamp_t res" where
  "alinx_sysclock_to_timestamp sysclock d =
     alinx_get_timestamp sysclock (ticks_scale (ptp d)) (ptp_offset (ptp d))"

definition alinx_get_rx_timestamp :: "sysclock_t \<Rightarrow> xdma_dev \<Rightarrow> timestamp_t res" where
  "alinx_get_rx_timestamp sysclock d =
     rbind (alinx_sysclock_to_timestamp sysclock d) (\<lambda>t. Inr (t - RX_ADJUST_NS))"

definition alinx_sysclock_to_txtstamp :: "sysclock_t \<Rightarrow> xdma_dev \<Rightarrow> timestamp_t res" where
  "alinx_sysclock_to_txtstamp sysclock d =
     rbind (alinx_sysclock_to_timestamp sysclock d) (\<lambda>t. Inr (t + TX_ADJUST_NS))"

definition alinx_get_tx_timestamp :: "device \<Rightarrow> int \<Rightarrow> xdma_dev \<Rightarrow> (timestamp_t \<times> xdma_dev) res" where
  "alinx_get_tx_timestamp hw tx_id d =
     (let (sysclock, d) = alinx_read_tx_timestamp hw tx_id d
      in rbind (alinx_sysclock_to_timestamp sysclock d) (\<lambda>t. Inr (t + TX_ADJUST_NS, d)))"

definition alinx_set_ticks_scale :: "double \<Rightarrow> xdma_dev \<Rightarrow> xdma_dev res" where
  "alinx_set_ticks_scale scale d =
     (let d = d\<lparr>ptp := (ptp d)\<lparr>ticks_scale := scale\<rparr>\<rparr>
      in rbind (d_div (d_of_int (uint NS_IN_1S)) (ticks_scale (ptp d))) (\<lambda>q.
         rbind (d_to_u32 q) (\<lambda>cycle. Inr (alinx_set_cycle_1s cycle d))))"

definition alinx_ptp_gettimex :: "device \<Rightarrow> xdma_dev \<Rightarrow> ((u64 \<times> u64) \<times> xdma_dev) res" where
  "alinx_ptp_gettimex hw d =
     (let (clock, d) = alinx_get_sys_clock hw d
      in rbind (alinx_get_timestamp clock (ticks_scale (ptp d)) (ptp_offset (ptp d))) (\<lambda>timestamp.
         Inr ((timestamp div NS_IN_1S, timestamp mod NS_IN_1S), d)))"

definition alinx_ptp_settime :: "device \<Rightarrow> u64 \<Rightarrow> u64 \<Rightarrow> xdma_dev \<Rightarrow> xdma_dev res" where
  "alinx_ptp_settime hw tv_sec tv_nsec d =
     (let host_timestamp = tv_sec * NS_IN_1S + tv_nsec;
          d = d\<lparr>ptp := (ptp d)\<lparr>ticks_scale := TICKS_SCALE\<rparr>\<rparr>;
          (sys_clock, d) = alinx_get_sys_clock hw d
      in rbind (alinx_get_timestamp sys_clock (ticks_scale (ptp d)) (ptp_offset (ptp d)))
           (\<lambda>hw_timestamp.
         let d = d\<lparr>ptp := (ptp d)\<lparr>ptp_offset := host_timestamp - hw_timestamp\<rparr>\<rparr>;
             d = set_cycle_1s RESERVED_CYCLE d
         in set_pulse_at sys_clock d))"

definition alinx_ptp_adjtime :: "device \<Rightarrow> u64 \<Rightarrow> xdma_dev \<Rightarrow> xdma_dev res" where
  "alinx_ptp_adjtime hw delta d =
     (let d = d\<lparr>ptp := (ptp d)\<lparr>ptp_offset := ptp_offset (ptp d) + delta\<rparr>\<rparr>;
          (sys_clock, d) = alinx_get_sys_clock hw d
      in set_pulse_at sys_clock d)"

definition alinx_ptp_adjfine :: "device \<Rightarrow> int \<Rightarrow> xdma_dev \<Rightarrow> xdma_dev res" where
  "alinx_ptp_adjfine hw scaled_ppm d =
     (let (sys_clock, d) = alinx_get_sys_clock hw d
      in if scaled_ppm = 0 then Inr d
         else
           rbind (alinx_get_timestamp sys_clock (ticks_scale (ptp d)) (ptp_offset (ptp d)))
             (\<lambda>cur_timestamp.
           let is_negative = scaled_ppm < 0;
               ppm = (if is_negative then - scaled_ppm else scaled_ppm)
           in rbind (d_div (d_mul TICKS_SCALE (d_of_int ppm)) (d_of_int (1000000 * 2 ^ 16))) (\<lambda>diff.
           let d = d\<lparr>ptp := (ptp d)\<lparr>ticks_scale :=
                 d_add TICKS_SCALE (if is_negative then - diff else diff)\<rparr>\<rparr>
           in rbind (alinx_get_timestamp sys_clock (ticks_scale (ptp d)) (ptp_offset (ptp d)))
             (\<lambda>new_timestamp.
           let d = d\<lparr>ptp := (ptp d)\<lparr>ptp_offset :=
                 ptp_offset (ptp d) + (cur_timestamp - new_timestamp)\<rparr>\<rparr>
           in rbind (alinx_set_ticks_scale (ticks_scale (ptp d)) d) (\<lambda>d.
           let (sys_clock, d) = alinx_get_sys_clock hw d
           in set_pulse_at sys_clock d)))))"

text \<open>
  \<open>ptp_device_init\<close> allocates a zeroed clock and registers it with the kernel; whether either
  succeeds and what the wall clock says are the kernel's answers, arguments here.
\<close>

definition ptp_device_init ::
  "device \<Rightarrow> bool \<Rightarrow> bool \<Rightarrow> u64 \<Rightarrow> u64 \<Rightarrow> xdma_dev \<Rightarrow> xdma_dev option res" where
  "ptp_device_init hw kzalloc_ok register_ok tv_sec tv_nsec d =
     (if \<not> kzalloc_ok then Inr None
      else if \<not> register_ok then Inr None
      else rbind (alinx_ptp_settime hw tv_sec tv_nsec
                    (d\<lparr>ptp := \<lparr>ticks_scale = TICKS_SCALE, ptp_offset = 0\<rparr>\<rparr>))
             (\<lambda>d. Inr (Some d)))"

subsection \<open>Frames: what the register operations leave alone\<close>

lemma write32_sel [simp]:
  "ptp (write32 v a d) = ptp d" "priv (write32 v a d) = priv d"
  "tsn_config (write32 v a d) = tsn_config d"
  by (simp_all add: write32_def)

lemma read32_sel [simp]:
  "ptp (snd (read32 hw a d)) = ptp d" "priv (snd (read32 hw a d)) = priv d"
  "tsn_config (snd (read32 hw a d)) = tsn_config d"
  by (simp_all add: read32_def Let_def)

lemma get_sys_clock_sel [simp]:
  "ptp (snd (alinx_get_sys_clock hw d)) = ptp d"
  "priv (snd (alinx_get_sys_clock hw d)) = priv d"
  "tsn_config (snd (alinx_get_sys_clock hw d)) = tsn_config d"
  by (simp_all add: alinx_get_sys_clock_def Let_def split_beta)

lemma set_pulse_at_sel:
  assumes "set_pulse_at c d = Inr d'"
  shows "ptp d' = ptp d" "priv d' = priv d" "tsn_config d' = tsn_config d"
  using assms
  by (auto simp: set_pulse_at_def rbind_eq_Inr alinx_set_pulse_at_def Let_def)

lemma set_ticks_scale_sel:
  assumes "alinx_set_ticks_scale s d = Inr d'"
  shows "ptp d' = (ptp d)\<lparr>ticks_scale := s\<rparr>"
  using assms
  by (auto simp: alinx_set_ticks_scale_def rbind_eq_Inr alinx_set_cycle_1s_def Let_def)

text \<open>The clock value a call of \<open>settime\<close> or \<open>adjfine\<close> reads first.\<close>

definition sys_clock_now :: "device \<Rightarrow> xdma_dev \<Rightarrow> sysclock_t" where
  "sys_clock_now hw d = fst (alinx_get_sys_clock hw d)"

lemma sys_clock_now_upd [simp]: "sys_clock_now hw (d\<lparr>ptp := p\<rparr>) = sys_clock_now hw d"
  by (simp add: sys_clock_now_def alinx_get_sys_clock_def read32_def Let_def)

definition device_time :: "sysclock_t \<Rightarrow> xdma_dev \<Rightarrow> timestamp_t res" where
  "device_time c d = alinx_get_timestamp c (ticks_scale (ptp d)) (ptp_offset (ptp d))"

lemma get_timestamp_offset:
  assumes "alinx_get_timestamp c s off = Inr t"
  shows "alinx_get_timestamp c s (off + k) = Inr (t + k)"
    and "alinx_get_timestamp c s (k - t) = Inr (k - off)"
  using assms by (auto simp: alinx_get_timestamp_def rbind_eq_Inr)

subsection \<open>The nominal rate: eight nanoseconds per tick\<close>

lemma get_timestamp_nominal:
  assumes "uint c < 2 ^ 53"
  shows "alinx_get_timestamp c TICKS_SCALE off = Inr (8 * c + off)"
proof -
  have c: "d_of_int (uint c) = of_int (uint c)"
    using assms by (simp add: d_of_int_def double_round_of_int)
  have "double_round (8 * of_int (uint c)) = 8 * of_int (uint c)"
    using double_round_scaled[of "uint c" 3] assms by (simp add: mult.commute)
  then have "d_mul TICKS_SCALE (d_of_int (uint c)) = of_int (8 * uint c)"
    by (simp add: d_mul_def c)
  then show ?thesis
    using assms by (simp add: alinx_get_timestamp_def d_to_u64_def del: of_int_mult)
      (simp add: word_of_int_uint wi_hom_mult[symmetric])
qed

lemma get_timestamp_total:
  assumes "uint c < 2 ^ 53" "0 \<le> s" "s \<le> 100"
  shows "\<exists>t. alinx_get_timestamp c s off = Inr t"
proof -
  have c: "d_of_int (uint c) = of_int (uint c)"
    using assms by (simp add: d_of_int_def double_round_of_int)
  have u: "(0::rat) \<le> of_int (uint c)" "(of_int (uint c) :: rat) < 2 ^ 53"
    using assms(1) of_int_less_iff[where 'a = rat, of "uint c" "2 ^ 53"] by simp_all
  have "s * of_int (uint c) \<le> 100 * 2 ^ 53"
    using assms(2,3) u by (intro mult_mono) auto
  moreover have p: "0 \<le> s * of_int (uint c)" using assms(2) u by simp
  ultimately have "d_mul s (d_of_int (uint c)) < 2 ^ 64" "0 \<le> d_mul s (d_of_int (uint c))"
    using double_round_le_twice[OF p] double_round_nonneg[OF p] by (simp_all add: d_mul_def c)
  then show ?thesis by (simp add: alinx_get_timestamp_def d_to_u64_total)
qed

lemma d_of_int_u64: "0 \<le> d_of_int (uint (w :: u64))" "d_of_int (uint (w :: u64)) \<le> 2 ^ 65"
proof -
  have u: "(0::rat) \<le> of_int (uint w)" "(of_int (uint w) :: rat) < 2 ^ 64"
    using uint_lt2p[of w] of_int_less_iff[where 'a = rat, of "uint w" "2 ^ 64"] by simp_all
  show "0 \<le> d_of_int (uint w)" using double_round_nonneg[OF u(1)] by (simp add: d_of_int_def)
  show "d_of_int (uint w) \<le> 2 ^ 65"
    using double_round_le_twice[OF u(1)] u(2) by (simp add: d_of_int_def)
qed

lemma to_sysclock_total:
  assumes "6 \<le> s"
  shows "\<exists>v. rbind (d_div (d_of_int (uint (w :: u64))) s) d_to_u64 = Inr v"
proof -
  let ?x = "d_of_int (uint w) / s"
  have p: "0 \<le> ?x" using d_of_int_u64(1)[of w] assms by simp
  have "?x \<le> 2 ^ 65 / 6"
    using d_of_int_u64[of w] assms by (intro frac_le) auto
  then have "double_round ?x < 2 ^ 64" using double_round_le_twice[OF p] by simp
  then show ?thesis
    using assms double_round_nonneg[OF p] by (simp add: d_div_def d_to_u64_total)
qed

lemma set_pulse_at_total:
  assumes "uint c < 2 ^ 53" "6 \<le> ticks_scale (ptp d)" "ticks_scale (ptp d) \<le> 100"
  shows "\<exists>d'. set_pulse_at c d = Inr d'"
proof -
  obtain t where t: "alinx_get_timestamp c (ticks_scale (ptp d)) (ptp_offset (ptp d)) = Inr t"
    using get_timestamp_total assms by (metis order_trans zero_le_numeral)
  obtain v where "rbind (d_div (d_of_int (uint (t - t mod NS_IN_1S + NS_IN_1S - ptp_offset (ptp d))))
      (ticks_scale (ptp d))) d_to_u64 = Inr v"
    using to_sysclock_total[OF assms(2)] by blast
  then show ?thesis by (auto simp: set_pulse_at_def t Let_def rbind_eq_Inr)
qed

text \<open>
  The system clock counts 125 million ticks a second from power-up.  While its high half is below
  \<open>2\<^sup>2\<^sup>1\<close>, for 2.28 years, every tick count is an exact double.
\<close>

definition clock_fresh :: "device \<Rightarrow> bool" where
  "clock_fresh hw \<longleftrightarrow> (\<forall>tr. uint (hw tr REG_SYS_CLOCK_HI) < 2 ^ 21)"

lemma clock_fresh_now:
  assumes "clock_fresh hw"
  shows "uint (sys_clock_now hw d) < 2 ^ 53"
proof -
  let ?hi = "hw (io_trace d) REG_SYS_CLOCK_HI"
  let ?lo = "hw (io_trace d @ [RdReg REG_SYS_CLOCK_HI ?hi]) REG_SYS_CLOCK_LO"
  have "sys_clock_now hw d = join64 ?hi ?lo"
    by (simp add: sys_clock_now_def alinx_get_sys_clock_def read32_def Let_def)
  moreover have "uint ?hi < 2 ^ 21" using assms by (simp add: clock_fresh_def)
  moreover have "uint ?lo < 2 ^ 32" using uint_lt2p[of ?lo] by simp
  ultimately show ?thesis by (simp add: uint_join64)
qed

lemma get_sys_clock_now:
  obtains d1 where "alinx_get_sys_clock hw d = (sys_clock_now hw d, d1)"
    "ptp d1 = ptp d" "priv d1 = priv d" "tsn_config d1 = tsn_config d"
  using get_sys_clock_sel[of hw d] by (metis sys_clock_now_def prod.collapse)

subsection \<open>Properties\<close>

lemma settime_ok:
  assumes "clock_fresh hw"
  shows "\<exists>d'. alinx_ptp_settime hw sec nsec d = Inr d' \<and>
     ticks_scale (ptp d') = TICKS_SCALE \<and>
     device_time (sys_clock_now hw d) d' = Inr (sec * NS_IN_1S + nsec - ptp_offset (ptp d))"
proof -
  define d0 where "d0 = d\<lparr>ptp := (ptp d)\<lparr>ticks_scale := TICKS_SCALE\<rparr>\<rparr>"
  obtain d1 where d1: "alinx_get_sys_clock hw d0 = (sys_clock_now hw d, d1)" "ptp d1 = ptp d0"
    using get_sys_clock_now[of hw d0] by (metis d0_def sys_clock_now_upd)
  let ?c = "sys_clock_now hw d" and ?host = "sec * NS_IN_1S + nsec"
  have c: "uint ?c < 2 ^ 53" by (rule clock_fresh_now[OF assms])
  define d2 where "d2 = set_cycle_1s RESERVED_CYCLE
      (d1\<lparr>ptp := (ptp d1)\<lparr>ptp_offset := ?host - (8 * ?c + ptp_offset (ptp d))\<rparr>\<rparr>)"
  have "alinx_ptp_settime hw sec nsec d = set_pulse_at ?c d2"
    unfolding alinx_ptp_settime_def Let_def d0_def[symmetric] d1 split
    by (simp add: d1 d0_def get_timestamp_nominal[OF c] d2_def)
  moreover have p2: "ptp d2 = \<lparr>ticks_scale = TICKS_SCALE,
      ptp_offset = ?host - (8 * ?c + ptp_offset (ptp d))\<rparr>"
    by (simp add: d2_def set_cycle_1s_def alinx_set_cycle_1s_def d1 d0_def)
  moreover obtain d' where d': "set_pulse_at ?c d2 = Inr d'"
    using set_pulse_at_total[OF c, of d2] p2 by auto
  moreover have "ptp d' = ptp d2" using set_pulse_at_sel(1)[OF d'] .
  ultimately show ?thesis
    by (simp add: device_time_def get_timestamp_nominal[OF c])
qed

text \<open>
  C35: \<open>settime\<close> always succeeds, restores the nominal rate, and leaves the clock at the requested
  time \<^emph>\<open>minus the offset that was in force before the call\<close>: the old offset is part of the
  reading it subtracts and is not added back, so the clock shows the requested time only when
  the old offset was zero.
\<close>

theorem alinx_ptp_settime_effect:
  assumes "clock_fresh hw"
  shows "\<exists>d'. alinx_ptp_settime hw sec nsec d = Inr d' \<and>
     ticks_scale (ptp d') = TICKS_SCALE \<and>
     device_time (sys_clock_now hw d) d' = Inr (sec * NS_IN_1S + nsec - ptp_offset (ptp d))"
  using settime_ok[OF assms] .

theorem alinx_ptp_settime_effect_witness:
  "clock_fresh (\<lambda>_ _. 5) \<and>
   (\<exists>d'. alinx_ptp_settime (\<lambda>_ _. 5) 10 7
      \<lparr>io_trace = [], priv = undefined, ptp = \<lparr>ticks_scale = 9, ptp_offset = 3\<rparr>,
       tsn_config = undefined\<rparr> = Inr d' \<and> ticks_scale (ptp d') = 8 \<and>
      device_time (sys_clock_now (\<lambda>_ _. 5)
        \<lparr>io_trace = [], priv = undefined, ptp = \<lparr>ticks_scale = 9, ptp_offset = 3\<rparr>,
         tsn_config = undefined\<rparr>) d' = Inr 10000000004)"
proof -
  have h: "clock_fresh (\<lambda>_ _. 5)" by (simp add: clock_fresh_def)
  let ?d = "\<lparr>io_trace = [], priv = undefined, ptp = \<lparr>ticks_scale = 9, ptp_offset = 3\<rparr>,
    tsn_config = undefined\<rparr> :: xdma_dev"
  show ?thesis using h alinx_ptp_settime_effect[OF h, of 10 7 ?d] by simp
qed

text \<open>
  Registering the clock sets it to the wall-clock time the kernel reports: the zeroed offset of
  a fresh clock is the one case in which \<open>settime\<close> is exact.
\<close>

theorem ptp_device_init_sets_host_time:
  assumes "clock_fresh hw"
  shows "\<exists>d'. ptp_device_init hw True True sec nsec d = Inr (Some d') \<and>
     device_time (sys_clock_now hw d) d' = Inr (sec * NS_IN_1S + nsec)"
proof -
  let ?d = "d\<lparr>ptp := \<lparr>ticks_scale = TICKS_SCALE, ptp_offset = 0\<rparr>\<rparr>"
  obtain d' where "alinx_ptp_settime hw sec nsec ?d = Inr d'"
    "device_time (sys_clock_now hw ?d) d' = Inr (sec * NS_IN_1S + nsec - ptp_offset (ptp ?d))"
    using settime_ok[OF assms, of sec nsec ?d] by blast
  then show ?thesis by (simp add: ptp_device_init_def)
qed

theorem ptp_device_init_sets_host_time_witness:
  "clock_fresh (\<lambda>_ _. 5) \<and>
   (\<exists>d'. ptp_device_init (\<lambda>_ _. 5) True True 10 7
      \<lparr>io_trace = [], priv = undefined, ptp = undefined, tsn_config = undefined\<rparr> = Inr (Some d') \<and>
      device_time (sys_clock_now (\<lambda>_ _. 5)
        \<lparr>io_trace = [], priv = undefined, ptp = undefined, tsn_config = undefined\<rparr>) d'
      = Inr 10000000007)"
proof -
  have h: "clock_fresh (\<lambda>_ _. 5)" by (simp add: clock_fresh_def)
  let ?d = "\<lparr>io_trace = [], priv = undefined, ptp = undefined, tsn_config = undefined\<rparr> :: xdma_dev"
  show ?thesis using h ptp_device_init_sets_host_time[OF h, of 10 7 ?d] by simp
qed

text \<open>The rate a nonzero \<open>scaled_ppm\<close> selects, within the range the clock advertises.\<close>

definition ppm_diff :: "int \<Rightarrow> double" where
  "ppm_diff scaled_ppm = double_round (of_int (8 * \<bar>scaled_ppm\<bar>) / 65536000000)"

definition adjusted_scale :: "int \<Rightarrow> double" where
  "adjusted_scale scaled_ppm =
     d_add TICKS_SCALE (if scaled_ppm < 0 then - ppm_diff scaled_ppm else ppm_diff scaled_ppm)"

lemma adjfine_diff:
  assumes "\<bar>ppm\<bar> \<le> 8192000000"
  shows "d_div (d_mul TICKS_SCALE (d_of_int \<bar>ppm\<bar>)) (d_of_int (1000000 * 2 ^ 16)) =
     Inr (ppm_diff ppm)"
proof -
  have "d_of_int \<bar>ppm\<bar> = of_int \<bar>ppm\<bar>"
    using assms by (simp only: d_of_int_def) (rule double_round_of_int, simp)
  moreover have "double_round (of_int (8 * \<bar>ppm\<bar>)) = of_int (8 * \<bar>ppm\<bar>)"
    using assms by (intro double_round_of_int) simp
  moreover have "d_of_int (1000000 * 2 ^ 16) = 65536000000"
    using double_round_of_int[of 65536000000] by (simp add: d_of_int_def)
  ultimately show ?thesis by (simp add: d_mul_def d_div_def ppm_diff_def)
qed

lemma double_round_le_3_2: "0 \<le> x \<Longrightarrow> x \<le> 1 \<Longrightarrow> double_round x \<le> 3 / 2"
  using double_round_near(2)[of x] by simp

lemma double_round_6_11:
  "13 / 2 \<le> x \<Longrightarrow> x \<le> 19 / 2 \<Longrightarrow> 6 \<le> double_round x \<and> double_round x \<le> 11"
  using double_round_near[of x] by simp

lemma adjusted_scale_bounds:
  assumes "\<bar>ppm\<bar> \<le> 8192000000"
  shows "6 \<le> adjusted_scale ppm" "adjusted_scale ppm \<le> 11"
proof -
  let ?x = "rat_of_int (8 * \<bar>ppm\<bar>) / 65536000000"
  have "rat_of_int (8 * \<bar>ppm\<bar>) \<le> of_int 65536000000"
    using assms by (subst of_int_le_iff) simp
  then have x: "0 \<le> ?x" "?x \<le> 1" by simp_all
  let ?d = "ppm_diff ppm"
  have d: "0 \<le> ?d" "?d \<le> 3 / 2"
    using double_round_le_3_2[OF x] double_round_nonneg[OF x(1)] by (simp_all only: ppm_diff_def)
  show "6 \<le> adjusted_scale ppm" "adjusted_scale ppm \<le> 11"
    using double_round_6_11[of "8 - ?d"] double_round_6_11[of "8 + ?d"] d
    by (simp_all add: adjusted_scale_def d_add_def)
qed

lemma set_ticks_scale_total:
  assumes "6 \<le> s" "s \<le> 11"
  shows "\<exists>d'. alinx_set_ticks_scale s d = Inr d'"
proof -
  have n: "d_of_int 1000000000 = 1000000000"
    using double_round_of_int[of 1000000000] by (simp add: d_of_int_def)
  let ?x = "1000000000 / s"
  have x: "0 \<le> ?x" using assms by simp
  have x': "?x \<le> 1000000000 / 6" using assms by (intro frac_le) auto
  have "double_round ?x \<le> 2 * (1000000000 / 6)"
    using double_round_le_twice[OF x] mult_left_mono[OF x', of 2] by (rule order_trans) simp
  then have "double_round ?x < 2 ^ 32" by simp
  with x show ?thesis
    using assms double_round_nonneg[of ?x]
    by (simp add: alinx_set_ticks_scale_def d_div_def n d_to_u32_total)
qed

text \<open>
  A frequency adjustment inside the advertised range always succeeds and is continuous: it
  changes the rate to the one requested and leaves the device time at the current system-clock
  tick unchanged.  A request of zero, however, returns early and keeps whatever rate was in force.
\<close>

theorem alinx_ptp_adjfine_continuous:
  assumes fresh: "clock_fresh hw" and ppm: "\<bar>ppm\<bar> \<le> 8192000000"
    and scale: "0 \<le> ticks_scale (ptp d)" "ticks_scale (ptp d) \<le> 100"
  shows "\<exists>d'. alinx_ptp_adjfine hw ppm d = Inr d' \<and>
     device_time (sys_clock_now hw d) d' = device_time (sys_clock_now hw d) d \<and>
     ticks_scale (ptp d') = (if ppm = 0 then ticks_scale (ptp d) else adjusted_scale ppm)"
proof -
  let ?c = "sys_clock_now hw d" and ?s = "adjusted_scale ppm"
  obtain d1 where d1: "alinx_get_sys_clock hw d = (?c, d1)" "ptp d1 = ptp d"
    using get_sys_clock_now[of hw d] by metis
  note c = clock_fresh_now[OF fresh] and sb = adjusted_scale_bounds[OF ppm]
  show ?thesis
  proof (cases "ppm = 0")
    case True
    then show ?thesis by (simp add: alinx_ptp_adjfine_def d1 device_time_def)
  next
    case False
    obtain t where t: "alinx_get_timestamp ?c (ticks_scale (ptp d)) (ptp_offset (ptp d)) = Inr t"
      using get_timestamp_total[OF c scale] by blast
    obtain t' where t': "alinx_get_timestamp ?c ?s (ptp_offset (ptp d)) = Inr t'"
      using get_timestamp_total[OF c, of ?s] sb by fastforce
    define d2 where "d2 = d1\<lparr>ptp := (ptp d)\<lparr>ticks_scale := ?s,
        ptp_offset := ptp_offset (ptp d) + (t - t')\<rparr>\<rparr>"
    obtain d3 where d3: "alinx_set_ticks_scale ?s d2 = Inr d3"
      using set_ticks_scale_total[OF sb] by blast
    have p3: "ptp d3 = ptp d2" using set_ticks_scale_sel[OF d3] by (simp add: d2_def)
    obtain d4 where d4: "alinx_get_sys_clock hw d3 = (sys_clock_now hw d3, d4)" "ptp d4 = ptp d3"
      using get_sys_clock_now[of hw d3] by metis
    obtain d' where d': "set_pulse_at (sys_clock_now hw d3) d4 = Inr d'"
      using set_pulse_at_total[OF c, of d4] sb by (fastforce simp: d4 p3 d2_def)
    have ppm': "(if ppm < 0 then - ppm else ppm) = \<bar>ppm\<bar>" by simp
    have "alinx_ptp_adjfine hw ppm d = Inr d'"
      using False t t' d3 d4 d'
      unfolding alinx_ptp_adjfine_def Let_def d1 split ppm' adjfine_diff[OF ppm] rbind_Inr
      by (simp add: d1 adjusted_scale_def d2_def)
    moreover have "ptp d' = ptp d2" using set_pulse_at_sel(1)[OF d'] d4 p3 by simp
    ultimately show ?thesis
      using False t get_timestamp_offset(1)[OF t', of "t - t'"]
      by (simp add: device_time_def d2_def)
  qed
qed

theorem alinx_ptp_adjfine_continuous_witness:
  "clock_fresh (\<lambda>_ _. 5) \<and>
   (\<exists>d'. alinx_ptp_adjfine (\<lambda>_ _. 5) 65536
      \<lparr>io_trace = [], priv = undefined, ptp = \<lparr>ticks_scale = 8, ptp_offset = 3\<rparr>,
       tsn_config = undefined\<rparr> = Inr d' \<and> ticks_scale (ptp d') = adjusted_scale 65536)"
proof -
  have h: "clock_fresh (\<lambda>_ _. 5)" by (simp add: clock_fresh_def)
  let ?d = "\<lparr>io_trace = [], priv = undefined, ptp = \<lparr>ticks_scale = 8, ptp_offset = 3\<rparr>,
    tsn_config = undefined\<rparr> :: xdma_dev"
  have "\<bar>65536 :: int\<bar> \<le> 8192000000" "0 \<le> ticks_scale (ptp ?d)" "ticks_scale (ptp ?d) \<le> 100"
    by simp_all
  from alinx_ptp_adjfine_continuous[OF h this] h show ?thesis by simp blast
qed

text \<open>
  At the nominal rate the two conversions between system-clock ticks and device time are
  inverse: a tick count turned into a timestamp and back is unchanged, whatever the offset.
\<close>

theorem alinx_sysclock_timestamp_roundtrip:
  assumes "ticks_scale (ptp d) = TICKS_SCALE" and "uint c < 2 ^ 53"
  shows "rbind (alinx_sysclock_to_timestamp c d) (\<lambda>t. alinx_timestamp_to_sysclock t d) = Inr c"
proof -
  have u: "uint (8 * c) = 8 * uint c" using assms(2) by (simp add: uint_word_ariths)
  have e: "double_round (of_int (uint c) * 2 powi 3) = of_int (uint c) * 2 powi 3"
    using assms(2) by (intro double_round_scaled) simp
  then have n: "d_of_int (8 * uint c) = 8 * of_int (uint c)"
    by (simp add: d_of_int_def mult.commute)
  have f: "double_round (of_int (uint c)) = of_int (uint c)"
    using assms(2) by (intro double_round_of_int) simp
  have "(of_int (uint c) :: rat) < 2 ^ 64"
    using uint_lt2p[of c] of_int_less_iff[where 'a = rat, of "uint c" "2 ^ 64"] by simp
  then show ?thesis
    using assms f
    by (simp add: alinx_sysclock_to_timestamp_def alinx_timestamp_to_sysclock_def u n d_div_def
        get_timestamp_nominal d_to_u64_total word_of_int_uint)
qed

theorem alinx_sysclock_timestamp_roundtrip_witness:
  "rbind (alinx_sysclock_to_timestamp 1234 \<lparr>io_trace = [], priv = undefined,
       ptp = \<lparr>ticks_scale = 8, ptp_offset = - 5\<rparr>, tsn_config = undefined\<rparr>)
     (\<lambda>t. alinx_timestamp_to_sysclock t \<lparr>io_trace = [], priv = undefined,
       ptp = \<lparr>ticks_scale = 8, ptp_offset = - 5\<rparr>, tsn_config = undefined\<rparr>) = Inr 1234"
  by (rule alinx_sysclock_timestamp_roundtrip) simp_all

text \<open>
  The pulse generator is programmed, high half first, with the tick at which the next whole
  second of device time begins, rounded down to a tick: from device time \<open>t\<close> at tick \<open>c\<close> it is
  \<open>(10\<^sup>9 - t mod 10\<^sup>9) div 8\<close> ticks ahead.
\<close>

theorem set_pulse_at_next_second:
  assumes scale: "ticks_scale (ptp d) = TICKS_SCALE" and c: "uint c < 2 ^ 49"
    and t: "t = 8 * c + ptp_offset (ptp d)"
    and p: "p = c + word_of_int ((1000000000 - uint (t mod NS_IN_1S)) div 8)"
  shows "set_pulse_at c d = Inr (d\<lparr>io_trace := io_trace d @
     [WrReg REG_NEXT_PULSE_AT_HI (ucast (drop_bit 32 p)), WrReg REG_NEXT_PULSE_AT_LO (ucast p)]\<rparr>)"
proof -
  let ?r = "uint (t mod NS_IN_1S)" and ?off = "ptp_offset (ptp d)"
  have r: "0 \<le> ?r" "?r < 1000000000"
    by (simp_all add: uint_mod)
  define n where "n = 8 * uint c + (1000000000 - ?r)"
  have "uint c < 562949953421312" using c by simp
  then have "0 \<le> n" "n < 9007199254740992"
    unfolding n_def using r uint_ge_0[of c] by linarith+
  then have n0: "0 \<le> n" "n < 2 ^ 53" by simp_all
  have "t - t mod NS_IN_1S + NS_IN_1S - ?off = 8 * c - t mod NS_IN_1S + NS_IN_1S"
    by (simp add: t)
  also have "\<dots> = word_of_int n"
    by (simp add: n_def word_of_int_uint wi_hom_add[symmetric] wi_hom_sub[symmetric]
        wi_hom_mult[symmetric])
  finally have w: "t - t mod NS_IN_1S + NS_IN_1S - ?off = word_of_int n" .
  have un: "uint (word_of_int n :: u64) = n" using n0 by (simp add: uint_word_of_int)
  have dn: "d_of_int n = of_int n" using n0 by (simp add: d_of_int_def double_round_of_int)
  have "double_round (of_int n * 2 powi - 3) = of_int n * 2 powi - 3"
    using n0 by (intro double_round_scaled) simp
  moreover have "(2::rat) powi - 3 = 1 / 8" by (simp add: power_int_def power_divide)
  ultimately have q: "double_round (of_int n / 8) = of_int n / 8" by simp
  have "(of_int n / 8 :: rat) < 2 ^ 64"
    using n0 of_int_less_iff[where 'a = rat, of n "2 ^ 53"] by simp
  then have dv: "d_to_u64 (of_int n / 8) = Inr (word_of_int (n div 8))"
    using n0 floor_divide_of_int_eq[where 'a = rat, of n 8]
    by (subst d_to_u64_total) simp_all
  have "n div 8 = uint c + (1000000000 - ?r) div 8" by (simp add: n_def)
  then have "word_of_int (n div 8) = p"
    by (simp add: p wi_hom_add[symmetric] word_of_int_uint)
  moreover have "alinx_get_timestamp c TICKS_SCALE ?off = Inr t"
    using get_timestamp_nominal[of c ?off] c by (simp add: t)
  ultimately show ?thesis
    unfolding set_pulse_at_def scale
    by (simp add: w un dn d_div_def q dv alinx_set_pulse_at_def write32_def Let_def)
qed

theorem set_pulse_at_next_second_witness:
  "set_pulse_at 1000 \<lparr>io_trace = [], priv = undefined, ptp = \<lparr>ticks_scale = 8, ptp_offset = 0\<rparr>,
       tsn_config = undefined\<rparr> =
     Inr \<lparr>io_trace = [WrReg REG_NEXT_PULSE_AT_HI 0, WrReg REG_NEXT_PULSE_AT_LO 125000000],
       priv = undefined, ptp = \<lparr>ticks_scale = 8, ptp_offset = 0\<rparr>, tsn_config = undefined\<rparr>"
  using set_pulse_at_next_second[of "\<lparr>io_trace = [], priv = undefined,
      ptp = \<lparr>ticks_scale = 8, ptp_offset = 0\<rparr>, tsn_config = undefined\<rparr>" 1000 8000 125000000]
  by simp

end
