(* ===== verification/Tsn_Frame.thy ===== *)
theory Tsn_Frame
  imports Tsn_Qav Alinx_Ptp
begin

text \<open>
  Filling in the metadata of a frame (\<open>tsn_fill_metadata\<close> and its helpers in \<open>tsn.c\<close>): classification
  by VLAN priority and gPTP EtherType, admission by the number of packets pending in the hardware
  queue, window selection, credit accounting and conversion of the times to 29-bit ticks.  The
  kernel's traffic-class map is an argument, and so is the previous content of the stack variable
  \<open>timestamps\<close>, which one branch leaves partly unwritten.
\<close>

subsection \<open>Classification\<close>

definition ETH_P_8021Q :: nat where "ETH_P_8021Q = 0x8100"
definition ETH_P_1588 :: nat where "ETH_P_1588 = 0x88F7"

text \<open>A big-endian 16-bit field of the frame.\<close>

definition be16 :: "u8 list \<Rightarrow> nat \<Rightarrow> nat res" where
  "be16 frame i = rbind (rd frame i) (\<lambda>hi. rbind (rd frame (i + 1)) (\<lambda>lo. Inr (unat hi * 256 + unat lo)))"

definition tsn_get_mqprio_tc :: "nat \<Rightarrow> (u8 \<Rightarrow> u8) \<Rightarrow> u8 \<Rightarrow> u8" where
  "tsn_get_mqprio_tc num_tc prio_tc_map prio = (if num_tc = 0 then prio else prio_tc_map prio)"

text \<open>The priority code point is the top three bits of the byte after the tag's EtherType.\<close>

definition tsn_get_vlan_prio :: "u8 list \<Rightarrow> u8 res" where
  "tsn_get_vlan_prio frame =
     rbind (be16 frame 12) (\<lambda>eth_type.
     if eth_type = ETH_P_8021Q then rbind (rd frame 14) (\<lambda>b. Inr (drop_bit 5 b))
     else Inr 0)"

text \<open>For a tagged frame the code reads the two bytes after the Ethernet header.\<close>

definition is_gptp_packet :: "u8 list \<Rightarrow> bool res" where
  "is_gptp_packet payload =
     rbind (be16 payload 12) (\<lambda>eth_type.
     if eth_type = ETH_P_8021Q then rbind (be16 payload 14) (\<lambda>pid. Inr (pid = ETH_P_1588))
     else Inr (eth_type = ETH_P_1588))"

definition tsn_timestamp_to_sysclock :: "timestamp_t \<Rightarrow> xdma_dev \<Rightarrow> sysclock_t res" where
  "tsn_timestamp_to_sysclock timestamp d =
     rbind (alinx_timestamp_to_sysclock (timestamp - TX_ADJUST_NS) d) (\<lambda>s. Inr (s - PHY_DELAY_CLOCKS))"

subsection \<open>Hardware queue tracking\<close>

definition append_buffer_track :: "buffer_tracker \<Rightarrow> bool \<times> buffer_tracker" where
  "append_buffer_track b =
     (if HW_QUEUE_SIZE \<le> unat (pending_packets b) then (False, b)
      else (True, b\<lparr>pending_packets := pending_packets b + 1\<rparr>))"

definition update_buffer_track :: "device \<Rightarrow> xdma_dev \<Rightarrow> xdma_dev" where
  "update_buffer_track hw d =
     (if unat (pending_packets (buffer_tracker (tsn_config d))) < HW_QUEUE_SIZE - HW_QUEUE_SIZE_PAD then d
      else
        let (tx, d) = alinx_get_tx_packets hw d;
            (drops, d) = alinx_get_total_tx_drop_packets hw d;
            tx_count = tx + drops;
            b = buffer_tracker (tsn_config d);
            pop_count = min (tx_count - last_tx_count b) (pending_packets b)
        in d\<lparr>tsn_config := (tsn_config d)\<lparr>buffer_tracker :=
               b\<lparr>last_tx_count := tx_count, pending_packets := pending_packets b - pop_count\<rparr>\<rparr>\<rparr>)"

subsection \<open>Metadata\<close>

text \<open>What the frame is: its traffic class, whether it is gPTP, and its hardware queue.\<close>

definition queue_prio_of :: "bool \<Rightarrow> u8 \<Rightarrow> tsn_prio" where
  "queue_prio_of is_gptp vlan_prio =
     (if is_gptp then TSN_PRIO_GPTP else if 0 < vlan_prio then TSN_PRIO_VLAN else TSN_PRIO_BE)"

text \<open>Admission and window selection; \<open>None\<close> is the early return with no room in the queue.\<close>

definition tsn_select_window ::
  "timestamps \<Rightarrow> tsn_config \<Rightarrow> timestamp_t \<Rightarrow> nat \<Rightarrow> bool \<Rightarrow> u64 \<Rightarrow> (timestamp_t \<times> timestamps \<times> u8) option res" where
  "tsn_select_window stack config from tc_id consider_delay len =
     rbind (rd (qav config) tc_id) (\<lambda>q.
     if \<not> qbv_enabled (qbv config) \<and> \<not> qav_enabled q then
       Inr (Some (from,
         stack\<lparr>ts_from := total_available_at config,
               ts_to := total_available_at config + DEFAULT_TO_MARGIN\<rparr>, 0))
     else
       let from = (if qav_enabled q \<and> from < available_at q then available_at q else from);
           pending = unat (pending_packets (buffer_tracker config))
       in if consider_delay then
            (if TSN_QUEUE_SIZE \<le> pending then Inr None
             else rbind (get_timestamps config from tc_id len True) (\<lambda>(_, ts). Inr (Some (from, ts, 1))))
          else
            (if BE_QUEUE_SIZE \<le> pending then Inr None
             else let from = max from (total_available_at config) in
               rbind (get_timestamps config from tc_id len False) (\<lambda>(_, ts). Inr (Some (from, ts, 0)))))"

text \<open>The four tick fields; an always-open window is carried over to the tick domain.\<close>

definition fill_ticks :: "timestamps \<Rightarrow> tsn_prio \<Rightarrow> xdma_dev \<Rightarrow> tx_metadata \<Rightarrow> tx_metadata res" where
  "fill_ticks ts queue_prio d md =
     (let prio = of_nat (prio_num queue_prio) in
      rbind (tsn_timestamp_to_sysclock (ts_from ts) d) (\<lambda>f.
      rbind (if ts_to ts = TSN_ALWAYS_OPEN (ts_from ts) then Inr (ucast f - 1)
             else rbind (tsn_timestamp_to_sysclock (ts_to ts) d) (\<lambda>s. Inr (ucast s))) (\<lambda>to_tick.
      rbind (tsn_timestamp_to_sysclock (ts_delay_from ts) d) (\<lambda>df.
      rbind (tsn_timestamp_to_sysclock (ts_delay_to ts) d) (\<lambda>dt.
      Inr (md\<lparr>md_from := \<lparr>tick = ucast f, priority = prio\<rparr>,
              md_to := \<lparr>tick = to_tick, priority = prio\<rparr>,
              md_delay_from := \<lparr>tick = ucast df, priority = prio\<rparr>,
              md_delay_to := \<lparr>tick = ucast dt, priority = prio\<rparr>\<rparr>))))))"

definition tsn_fill_metadata ::
  "device \<Rightarrow> nat \<Rightarrow> (u8 \<Rightarrow> u8) \<Rightarrow> timestamps \<Rightarrow> timestamp_t \<Rightarrow> u8 list \<Rightarrow>
   tx_metadata \<Rightarrow> xdma_dev \<Rightarrow> (bool \<times> tx_metadata \<times> xdma_dev) res" where
  "tsn_fill_metadata hw num_tc prio_tc_map stack now frame md d =
     (let d = update_buffer_track hw d in
      rbind (tsn_get_vlan_prio frame) (\<lambda>vlan_prio.
      let tc_id = unat (tsn_get_mqprio_tc num_tc prio_tc_map vlan_prio) in
      rbind (is_gptp_packet frame) (\<lambda>is_gptp.
      let queue_prio = queue_prio_of is_gptp vlan_prio;
          consider_delay = (queue_prio \<noteq> TSN_PRIO_BE);
          len = ucast (frame_length md);
          duration_ns = bytes_to_ns len;
          config = tsn_config d
      in rbind (tsn_select_window stack config (now + H2C_LATENCY_NS) tc_id consider_delay len) (\<lambda>sel.
      case sel of
        None \<Rightarrow> Inr (False, md, d)
      | Some (from, ts, policy) \<Rightarrow>
          rbind (fill_ticks ts queue_prio d (md\<lparr>fail_policy := policy\<rparr>)) (\<lambda>md.
          let md = md\<lparr>timestamp_id :=
                (if \<not> tx_type_on (priv d) then 0 else if is_gptp then 1 else 2)\<rparr> in
          rbind (spend_qav_credit config from tc_id len) (\<lambda>config.
          rbind (rd (queue_available_at config) (prio_num queue_prio)) (\<lambda>qa.
          rbind (wr (queue_available_at config) (prio_num queue_prio) (qa + duration_ns)) (\<lambda>qas.
          let config = config\<lparr>queue_available_at := qas,
                total_available_at := total_available_at config + duration_ns\<rparr>;
              (ok, b) = append_buffer_track (buffer_tracker config)
          in Inr (ok, md, d\<lparr>tsn_config := config\<lparr>buffer_tracker := b\<rparr>\<rparr>))))))))) "


subsection \<open>Queue tracking\<close>

lemma counter_sel [simp]:
  "tsn_config (snd (alinx_get_tx_packets hw d)) = tsn_config d"
  "ptp (snd (alinx_get_tx_packets hw d)) = ptp d"
  "tstamp_config (priv (snd (alinx_get_tx_packets hw d))) = tstamp_config (priv d)"
  "tsn_config (snd (alinx_get_total_tx_drop_packets hw d)) = tsn_config d"
  "ptp (snd (alinx_get_total_tx_drop_packets hw d)) = ptp d"
  "tstamp_config (priv (snd (alinx_get_total_tx_drop_packets hw d))) = tstamp_config (priv d)"
  by (simp_all add: alinx_get_tx_packets_def alinx_get_total_tx_drop_packets_def
      alinx_get_tx_drop_packets_def alinx_get_normal_timeout_packets_def
      alinx_get_to_overflow_popped_packets_def alinx_get_to_overflow_timeout_packets_def
      read32_def Let_def)

text \<open>The number of packets the tracker counts, and what a refresh may change.\<close>

definition pending :: "xdma_dev \<Rightarrow> nat" where
  "pending d = unat (pending_packets (buffer_tracker (tsn_config d)))"

lemma update_track_sel [simp]:
  "ptp (update_buffer_track hw d) = ptp d"
  "tstamp_config (priv (update_buffer_track hw d)) = tstamp_config (priv d)"
  "qbv (tsn_config (update_buffer_track hw d)) = qbv (tsn_config d)"
  "qbv_baked (tsn_config (update_buffer_track hw d)) = qbv_baked (tsn_config d)"
  "qav (tsn_config (update_buffer_track hw d)) = qav (tsn_config d)"
  "queue_available_at (tsn_config (update_buffer_track hw d)) = queue_available_at (tsn_config d)"
  "total_available_at (tsn_config (update_buffer_track hw d)) = total_available_at (tsn_config d)"
  by (simp_all add: update_buffer_track_def Let_def split_beta)

lemma update_track_le: "pending (update_buffer_track hw d) \<le> pending d"
proof -
  have "unat (b - min a b) \<le> unat b" for a b :: u64
    by (simp add: unat_minus_no_wrap min_def word_le_nat_alt)
  then show ?thesis by (simp add: pending_def update_buffer_track_def Let_def split_beta)
qed

lemma wf_update_track [simp]:
  "wf_config (tsn_config (update_buffer_track hw d)) = wf_config (tsn_config d)"
  by (simp add: wf_config_def)

subsection \<open>What filling in the metadata does\<close>

lemma append_track:
  "append_buffer_track b = (ok, b') \<Longrightarrow> unat (pending_packets b) \<le> HW_QUEUE_SIZE \<Longrightarrow>
   ok = (unat (pending_packets b) < HW_QUEUE_SIZE) \<and>
   unat (pending_packets b') = unat (pending_packets b) + (if ok then 1 else 0)"
  by (auto simp: append_buffer_track_def unat_plus_no_wrap split: if_splits)

lemma spend_sel:
  assumes "spend_qav_credit c t tc bytes = Inr c'"
  shows "qbv c' = qbv c" "qbv_baked c' = qbv_baked c" "buffer_tracker c' = buffer_tracker c"
    "queue_available_at c' = queue_available_at c" "total_available_at c' = total_available_at c"
    "length (qav c') = length (qav c)"
  using assms by (auto simp: spend_qav_credit_def rbind_eq_Inr wr_def split: if_splits)

lemma fill_ticks_sel:
  assumes "fill_ticks ts qp d md = Inr md'"
  shows "frame_length md' = frame_length md" "fail_policy md' = fail_policy md"
    "priority (md_from md') = of_nat (prio_num qp)" "priority (md_to md') = of_nat (prio_num qp)"
    "priority (md_delay_from md') = of_nat (prio_num qp)"
    "priority (md_delay_to md') = of_nat (prio_num qp)"
  using assms by (auto simp: fill_ticks_def Let_def rbind_eq_Inr)

lemma wf_config_upd:
  "wf_config c \<Longrightarrow> qbv c' = qbv c \<Longrightarrow> qbv_baked c' = qbv_baked c \<Longrightarrow> length (qav c') = length (qav c) \<Longrightarrow>
   length (queue_available_at c') = length (queue_available_at c) \<Longrightarrow> wf_config c'"
  by (simp add: wf_config_def)

text \<open>The two ways a call that does not fault can end.\<close>

lemma fill_metadata_cases:
  assumes "tsn_fill_metadata hw num_tc map_tc stack now frame md d = Inr (ok, md', d')"
  obtains (refused) vp g where "tsn_get_vlan_prio frame = Inr vp" "is_gptp_packet frame = Inr g"
      "\<not> ok" "md' = md" "d' = update_buffer_track hw d"
      "(if queue_prio_of g vp \<noteq> TSN_PRIO_BE then TSN_QUEUE_SIZE else BE_QUEUE_SIZE) \<le> pending d'"
    | (queued) vp g t ts pol md1 c1 qas b where
      "tsn_get_vlan_prio frame = Inr vp" "is_gptp_packet frame = Inr g"
      "tsn_select_window stack (tsn_config (update_buffer_track hw d)) (now + H2C_LATENCY_NS)
         (unat (tsn_get_mqprio_tc num_tc map_tc vp)) (queue_prio_of g vp \<noteq> TSN_PRIO_BE)
         (ucast (frame_length md)) = Inr (Some (t, ts, pol))"
      "fill_ticks ts (queue_prio_of g vp) (update_buffer_track hw d) (md\<lparr>fail_policy := pol\<rparr>) = Inr md1"
      "md' = md1\<lparr>timestamp_id := (if \<not> tx_type_on (priv d) then 0 else if g then 1 else 2)\<rparr>"
      "spend_qav_credit (tsn_config (update_buffer_track hw d)) t
         (unat (tsn_get_mqprio_tc num_tc map_tc vp)) (ucast (frame_length md)) = Inr c1"
      "length qas = length (queue_available_at c1)"
      "append_buffer_track (buffer_tracker c1) = (ok, b)"
      "d' = (update_buffer_track hw d)\<lparr>tsn_config := c1\<lparr>queue_available_at := qas,
         total_available_at := total_available_at c1 + bytes_to_ns (ucast (frame_length md)),
         buffer_tracker := b\<rparr>\<rparr>"
proof -
  note [simp] = rbind_eq_Inr
  obtain vp g sel where v: "tsn_get_vlan_prio frame = Inr vp" "is_gptp_packet frame = Inr g"
    and sel: "tsn_select_window stack (tsn_config (update_buffer_track hw d)) (now + H2C_LATENCY_NS)
         (unat (tsn_get_mqprio_tc num_tc map_tc vp)) (queue_prio_of g vp \<noteq> TSN_PRIO_BE)
         (ucast (frame_length md)) = Inr sel"
    using assms by (auto simp: tsn_fill_metadata_def Let_def)
  show thesis
  proof (cases sel)
    case None
    then have "(if queue_prio_of g vp \<noteq> TSN_PRIO_BE then TSN_QUEUE_SIZE else BE_QUEUE_SIZE)
        \<le> pending (update_buffer_track hw d)"
      using sel by (auto simp: tsn_select_window_def Let_def pending_def split: if_splits)
    then show ?thesis using refused v assms sel None by (simp add: tsn_fill_metadata_def Let_def)
  next
    case (Some a)
    obtain t ts pol where a: "a = (t, ts, pol)" by (cases a)
    let ?d = "update_buffer_track hw d" and ?n = "prio_num (queue_prio_of g vp)"
    obtain md1 c1 where md1: "fill_ticks ts (queue_prio_of g vp) ?d (md\<lparr>fail_policy := pol\<rparr>) = Inr md1"
      and c1: "spend_qav_credit (tsn_config ?d) t (unat (tsn_get_mqprio_tc num_tc map_tc vp))
         (ucast (frame_length md)) = Inr c1"
      using assms v sel Some a by (auto simp: tsn_fill_metadata_def Let_def)
    obtain ok' b where app: "append_buffer_track (buffer_tracker c1) = (ok', b)"
      by (cases "append_buffer_track (buffer_tracker c1)")
    have n: "?n < length (queue_available_at c1)"
      using assms v sel Some a md1 c1 by (auto simp: tsn_fill_metadata_def Let_def rd_def split: if_splits)
    show ?thesis
      using assms v sel Some a md1 c1 app n
      by (intro queued[OF v sel[unfolded Some a] md1 _ c1, of
          "(queue_available_at c1)[?n := queue_available_at c1 ! ?n + bytes_to_ns (ucast (frame_length md))]" b])
        (simp_all add: tsn_fill_metadata_def Let_def)
  qed
qed

subsection \<open>Properties\<close>

text \<open>
  C28: whatever the frame and the hardware, a call that does not fault keeps the configuration
  well formed and the number of tracked packets within the hardware queue; it never changes the
  gate schedule nor the clock, and it reports success exactly when the frame has been counted as
  one more pending packet.
\<close>

theorem tsn_fill_metadata_invariant:
  assumes "wf_config (tsn_config d)" "pending d \<le> HW_QUEUE_SIZE"
    and "tsn_fill_metadata hw num_tc map_tc stack now frame md d = Inr (ok, md', d')"
  shows "wf_config (tsn_config d') \<and> pending d' \<le> HW_QUEUE_SIZE \<and>
     qbv (tsn_config d') = qbv (tsn_config d) \<and> qbv_baked (tsn_config d') = qbv_baked (tsn_config d) \<and>
     ptp d' = ptp d \<and> pending d' = pending (update_buffer_track hw d) + (if ok then 1 else 0)"
  using assms(3)
proof (cases rule: fill_metadata_cases)
  case (refused vp g)
  then show ?thesis using assms(1,2) update_track_le[of hw d] by simp
next
  case (queued vp g t ts pol md1 c1 qas b)
  have p: "unat (pending_packets (buffer_tracker c1)) = pending (update_buffer_track hw d)"
    using spend_sel(3)[OF queued(6)] by (simp add: pending_def)
  have h: "pending (update_buffer_track hw d) \<le> HW_QUEUE_SIZE"
    using assms(2) update_track_le[of hw d] by linarith
  then have tr: "ok = (pending (update_buffer_track hw d) < HW_QUEUE_SIZE)"
    "unat (pending_packets b) = pending (update_buffer_track hw d) + (if ok then 1 else 0)"
    using append_track[OF queued(8)] p by simp_all
  have "wf_config (tsn_config d')"
    by (rule wf_config_upd[OF assms(1)])
      (simp_all add: queued(7,9) spend_sel(1,2,4,6)[OF queued(6)])
  moreover have "pending d' = unat (pending_packets b)" using queued(9) by (simp add: pending_def)
  moreover have "pending (update_buffer_track hw d) + (if ok then 1 else 0) \<le> HW_QUEUE_SIZE"
    using tr(1) h by simp
  ultimately show ?thesis
    using tr(2) spend_sel(1,2)[OF queued(6)] queued(9) by simp
qed

text \<open>
  The metadata of a frame that is accepted says what the frame is.  All four times carry the
  hardware queue of its kind, 3 for gPTP, 5 for tagged and 7 for best-effort frames; the frame
  length is unchanged; a timestamp is requested only when transmit timestamping is on, in slot 1
  for gPTP and slot 2 for other frames; and the hardware is told to retry, in the second window,
  only frames that are not best effort.
\<close>

theorem tsn_fill_metadata_classifies:
  assumes "tsn_fill_metadata hw num_tc map_tc stack now frame md d = Inr (True, md', d')"
  shows "\<exists>vp g. tsn_get_vlan_prio frame = Inr vp \<and> is_gptp_packet frame = Inr g \<and>
     (let q = of_nat (if g then 3 else if 0 < vp then 5 else 7) in
       priority (md_from md') = q \<and> priority (md_to md') = q \<and>
       priority (md_delay_from md') = q \<and> priority (md_delay_to md') = q) \<and>
     frame_length md' = frame_length md \<and>
     timestamp_id md' = (if \<not> tx_type_on (priv d) then 0 else if g then 1 else 2) \<and>
     (fail_policy md' = 0 \<or> fail_policy md' = 1 \<and> (g \<or> 0 < vp))"
  using assms
proof (cases rule: fill_metadata_cases)
  case (queued vp g t ts pol md1 c1 qas b)
  have "pol = 0 \<or> pol = 1 \<and> queue_prio_of g vp \<noteq> TSN_PRIO_BE"
    using queued(3) by (auto simp: tsn_select_window_def Let_def rbind_eq_Inr split: if_splits)
  then show ?thesis
    using queued(1,2,5) fill_ticks_sel[OF queued(4)]
    by (auto simp: Let_def queue_prio_of_def split: if_splits)
qed simp

text \<open>With a Qbv schedule in force for a class without Qav, a frame is always answered.\<close>

lemma to_sysclock_ok: "6 \<le> ticks_scale (ptp d) \<Longrightarrow> \<exists>v. tsn_timestamp_to_sysclock t d = Inr v"
  using to_sysclock_total[of "ticks_scale (ptp d)" "t - TX_ADJUST_NS - ptp_offset (ptp d)"]
  by (auto simp: tsn_timestamp_to_sysclock_def alinx_timestamp_to_sysclock_def)

text \<open>
  The ticks of the windows: the low 29 bits of the system clock at each time.  A window that is always
  open ends a tick before it begins.
\<close>

definition ticks_of :: "xdma_dev \<Rightarrow> timestamps \<Rightarrow> tx_metadata \<Rightarrow> bool" where
  "ticks_of d ts md \<longleftrightarrow> (\<exists>f t a b. tsn_timestamp_to_sysclock (ts_from ts) d = Inr f \<and> tick (md_from md) = ucast f \<and>
     tsn_timestamp_to_sysclock (ts_to ts) d = Inr t \<and>
     tick (md_to md) = (if ts_to ts = TSN_ALWAYS_OPEN (ts_from ts) then ucast f - 1 else ucast t) \<and>
     tsn_timestamp_to_sysclock (ts_delay_from ts) d = Inr a \<and> tick (md_delay_from md) = ucast a \<and>
     tsn_timestamp_to_sysclock (ts_delay_to ts) d = Inr b \<and> tick (md_delay_to md) = ucast b)"

lemma fill_ticks_ok:
  assumes "6 \<le> ticks_scale (ptp d)"
  shows "\<exists>md'. fill_ticks ts qp d md = Inr md' \<and> fail_policy md' = fail_policy md \<and> ticks_of d ts md'"
proof -
  obtain f t a b where "tsn_timestamp_to_sysclock (ts_from ts) d = Inr f"
    "tsn_timestamp_to_sysclock (ts_to ts) d = Inr t"
    "tsn_timestamp_to_sysclock (ts_delay_from ts) d = Inr a"
    "tsn_timestamp_to_sysclock (ts_delay_to ts) d = Inr b"
    using to_sysclock_ok[OF assms] by metis
  then show ?thesis by (auto simp: fill_ticks_def ticks_of_def Let_def)
qed

lemma headers_ok:
  assumes "16 \<le> length frame"
  obtains vp g where "tsn_get_vlan_prio frame = Inr vp" "is_gptp_packet frame = Inr g"
proof -
  have "\<exists>vp. tsn_get_vlan_prio frame = Inr vp" "\<exists>g. is_gptp_packet frame = Inr g"
    using assms by (auto simp: tsn_get_vlan_prio_def is_gptp_packet_def be16_def)
  then show ?thesis using that by blast
qed

text \<open>The number of pending packets at which a frame is refused, and when a frame is ready.\<close>

definition queue_limit :: "tsn_prio \<Rightarrow> nat" where
  "queue_limit qp = (if qp = TSN_PRIO_BE then BE_QUEUE_SIZE else TSN_QUEUE_SIZE)"

definition ready_at :: "tsn_config \<Rightarrow> timestamp_t \<Rightarrow> tsn_prio \<Rightarrow> timestamp_t" where
  "ready_at c now qp = (if qp = TSN_PRIO_BE then max (now + H2C_LATENCY_NS) (total_available_at c)
     else now + H2C_LATENCY_NS)"

lemma select_window_qbv:
  assumes "tc < length (qav c)" "\<not> qav_enabled (qav c ! tc)" "qbv_enabled (qbv c)"
  shows "tsn_select_window stack c (now + H2C_LATENCY_NS) tc (qp \<noteq> TSN_PRIO_BE) len =
     (if queue_limit qp \<le> unat (pending_packets (buffer_tracker c)) then Inr None
      else rbind (get_timestamps c (ready_at c now qp) tc len (qp \<noteq> TSN_PRIO_BE))
        (\<lambda>(_, ts). Inr (Some (ready_at c now qp, ts, if qp = TSN_PRIO_BE then 0 else 1))))"
  using assms by (cases "qp = TSN_PRIO_BE")
    (simp_all add: tsn_select_window_def Let_def queue_limit_def ready_at_def)

lemma spend_disabled:
  "tc < length (qav c) \<Longrightarrow> \<not> qav_enabled (qav c ! tc) \<Longrightarrow> spend_qav_credit c t tc bytes = Inr c"
  by (simp add: spend_qav_credit_def spend_credit_def)

lemma fill_metadata_queued:
  assumes v: "tsn_get_vlan_prio frame = Inr vp" "is_gptp_packet frame = Inr g"
    and qp: "qp = queue_prio_of g vp" and tc: "tc = unat (tsn_get_mqprio_tc num_tc map_tc vp)"
    and d0: "d0 = update_buffer_track hw d" and len: "len = ucast (frame_length md)"
    and sel: "tsn_select_window stack (tsn_config d0) (now + H2C_LATENCY_NS) tc (qp \<noteq> TSN_PRIO_BE) len
      = Inr (Some (t, ts, pol))"
    and md1: "fill_ticks ts qp d0 (md\<lparr>fail_policy := pol\<rparr>) = Inr md1"
    and c1: "spend_qav_credit (tsn_config d0) t tc len = Inr c1"
    and q8: "length (queue_available_at c1) = TSN_PRIO_COUNT"
    and room: "unat (pending_packets (buffer_tracker c1)) < HW_QUEUE_SIZE"
  shows "\<exists>md' d'. tsn_fill_metadata hw num_tc map_tc stack now frame md d = Inr (True, md', d') \<and>
     md' = md1\<lparr>timestamp_id := timestamp_id md'\<rparr> \<and>
     pending d' = Suc (unat (pending_packets (buffer_tracker c1))) \<and>
     total_available_at (tsn_config d') = total_available_at c1 + bytes_to_ns len \<and>
     queue_available_at (tsn_config d') = (queue_available_at c1)[prio_num qp := queue_available_at c1 ! prio_num qp + bytes_to_ns len]"
proof -
  have n: "prio_num qp < length (queue_available_at c1)" using q8 by (cases qp) simp_all
  then show ?thesis
    using v sel md1 c1 room
    by (simp add: tsn_fill_metadata_def Let_def pending_def unat_plus_no_wrap append_buffer_track_def
        flip: qp tc d0 len)
qed

lemma fill_metadata_qbv_refused:
  assumes "tsn_get_vlan_prio frame = Inr vp" "is_gptp_packet frame = Inr g"
    and "tc = unat (tsn_get_mqprio_tc num_tc map_tc vp)" "tc < length (qav (tsn_config d))"
    and "\<not> qav_enabled (qav (tsn_config d) ! tc)" "qbv_enabled (qbv (tsn_config d))"
    and "queue_limit (queue_prio_of g vp) \<le> pending (update_buffer_track hw d)"
  shows "tsn_fill_metadata hw num_tc map_tc stack now frame md d =
     Inr (False, md, update_buffer_track hw d)"
  using assms select_window_qbv[of tc "tsn_config (update_buffer_track hw d)"]
  by (simp add: tsn_fill_metadata_def Let_def pending_def)

lemma fill_metadata_qbv_accepted:
  assumes v: "tsn_get_vlan_prio frame = Inr vp" "is_gptp_packet frame = Inr g"
    and qp: "qp = queue_prio_of g vp" and tc: "tc = unat (tsn_get_mqprio_tc num_tc map_tc vp)" "tc < TC_COUNT"
    and cur: "baked_current (tsn_config d)" and c: "c = tsn_config d"
    and qav: "\<not> qav_enabled (qav c ! tc)" and en: "qbv_enabled (qbv c)"
    and scale: "6 \<le> ticks_scale (ptp d)" and cyc: "0 < cfg_cycle (qbv c)"
    and start: "qbv_start (qbv c) \<le> ready_at c now qp"
    and nowrap: "unat (ready_at c now qp) + 3 * cfg_cycle (qbv c) < 2 ^ 64"
    and room: "pending (update_buffer_track hw d) < queue_limit qp"
    and len: "len = ucast (frame_length md)"
  shows "\<exists>md' d' ts.
     tsn_fill_metadata hw num_tc map_tc stack now frame md d = Inr (True, md', d') \<and>
     pending d' = Suc (pending (update_buffer_track hw d)) \<and>
     total_available_at (tsn_config d') = total_available_at c + bytes_to_ns len \<and>
     queue_available_at (tsn_config d') = (queue_available_at c)[prio_num qp := queue_available_at c ! prio_num qp + bytes_to_ns len] \<and>
     fail_policy md' = (if qp = TSN_PRIO_BE then 0 else 1) \<and> ticks_of d ts md' \<and>
     ((\<forall>x. \<not> gate_open (qbv c) tc x) \<or>
      windows_given (qbv c) tc (prio_timeline (prios (qbv_baked c) ! tc)) (ready_at c now qp) (bytes_to_ns len) (qp \<noteq> TSN_PRIO_BE) ts)"
  (is "\<exists>md' d' ts. ?fill = Inr (True, md', d') \<and> ?win md' d' ts")
proof -
  let ?d = "update_buffer_track hw d"
  let ?c = "tsn_config ?d" and ?w = "ready_at c now qp"
  have r: "ready_at ?c now qp = ?w" by (simp add: ready_at_def c)
  have l: "length (qav c) = TC_COUNT" "length (queue_available_at c) = TSN_PRIO_COUNT"
    using cur c by (simp_all add: baked_current_def wf_config_def)
  have cur': "baked_current ?c" by (rule baked_current_upd[OF cur]) simp_all
  have gate: "gate_open (qbv ?c) = gate_open (qbv c)" by (simp add: c)
  obtain ok ts where gt: "get_timestamps ?c ?w tc len (qp \<noteq> TSN_PRIO_BE) = Inr (ok, ts)"
    "\<not> ok \<longrightarrow> (\<forall>x. \<not> gate_open (qbv c) tc x)"
    "ok \<longrightarrow> windows_given (qbv c) tc (prio_timeline (prios (qbv_baked c) ! tc)) ?w (bytes_to_ns len) (qp \<noteq> TSN_PRIO_BE) ts"
    using get_timestamps_gates[OF cur' _ tc(2), of ?w len "qp \<noteq> TSN_PRIO_BE"] en cyc start nowrap
    by (auto simp: c)
  have lim: "\<not> queue_limit qp \<le> unat (pending_packets (buffer_tracker ?c))"
    using room by (simp add: pending_def)
  have sel: "tsn_select_window stack ?c (now + H2C_LATENCY_NS) tc (qp \<noteq> TSN_PRIO_BE) len =
     Inr (Some (?w, ts, if qp = TSN_PRIO_BE then 0 else 1))"
    using select_window_qbv[of tc ?c stack now qp len] l(1) tc(2) qav en lim gt(1) r
    by (simp add: c)
  obtain md1 where md1: "fill_ticks ts qp ?d (md\<lparr>fail_policy := if qp = TSN_PRIO_BE then 0 else 1\<rparr>) = Inr md1"
    "fail_policy md1 = (if qp = TSN_PRIO_BE then 0 else 1)" "ticks_of ?d ts md1"
    using fill_ticks_ok[of ?d ts qp "md\<lparr>fail_policy := if qp = TSN_PRIO_BE then 0 else 1\<rparr>"] scale by auto
  have sd: "ticks_of ?d = ticks_of d"
    by (simp add: fun_eq_iff ticks_of_def tsn_timestamp_to_sysclock_def alinx_timestamp_to_sysclock_def)
  have c1: "spend_qav_credit ?c ?w tc len = Inr ?c"
    using l(1) tc(2) qav by (intro spend_disabled) (simp_all add: c)
  have "unat (pending_packets (buffer_tracker ?c)) < HW_QUEUE_SIZE"
    using lim by (auto simp: queue_limit_def split: if_splits)
  then obtain md' d' where f: "tsn_fill_metadata hw num_tc map_tc stack now frame md d = Inr (True, md', d')"
     "md' = md1\<lparr>timestamp_id := timestamp_id md'\<rparr>" "pending d' = Suc (pending ?d)"
     "total_available_at (tsn_config d') = total_available_at c + bytes_to_ns len"
     "queue_available_at (tsn_config d') = (queue_available_at c)[prio_num qp := queue_available_at c ! prio_num qp + bytes_to_ns len]"
    using fill_metadata_queued[OF v qp tc(1) refl len sel md1(1) c1] l(2) by (auto simp: c pending_def)
  have "ticks_of d ts (md1\<lparr>timestamp_id := timestamp_id md'\<rparr>)" "fail_policy (md1\<lparr>timestamp_id := timestamp_id md'\<rparr>) = fail_policy md1"
    using md1(3) sd by (simp_all add: ticks_of_def)
  then have "ticks_of d ts md'" "fail_policy md' = (if qp = TSN_PRIO_BE then 0 else 1)" using f(2) md1(2) by metis+
  then have "?fill = Inr (True, md', d') \<and> ?win md' d' ts" using f gt(2,3) by auto
  then show ?thesis by blast
qed

text \<open>
  C11: with a gate schedule in force whose base time has passed and whose cycle is not empty, no credit
  shaping on its class and a clock of at least 6 ns a tick, a frame is always answered.  It is refused exactly when the queue already holds 108 packets (126 for gPTP and
  tagged frames), leaving the metadata and everything but the refreshed packet counters as they
  were.  Otherwise it is counted, the times its queue and the link become available advance by its
  transmission time, and the ticks in its metadata are the low 29 bits of the system clock times of
  the windows of its class: the transmission fits between the beginning of the window, no earlier than
  the frame is ready, and the closing of the gate, and a frame that is not best effort is told to retry
  in the next open slot (\<open>windows_given\<close>).  The exception is a class whose gate never opens: its frames
  are accepted all the same.
\<close>

theorem tsn_fill_metadata_qbv:
  assumes "tsn_get_vlan_prio frame = Inr vp" "is_gptp_packet frame = Inr g"
    and "qp = queue_prio_of g vp" and "tc = unat (tsn_get_mqprio_tc num_tc map_tc vp)" "tc < TC_COUNT"
    and "baked_current (tsn_config d)" and "c = tsn_config d"
    and "\<not> qav_enabled (qav c ! tc)" and "qbv_enabled (qbv c)"
    and "6 \<le> ticks_scale (ptp d)" and "0 < cfg_cycle (qbv c)"
    and "qbv_start (qbv c) \<le> ready_at c now qp"
    and "unat (ready_at c now qp) + 3 * cfg_cycle (qbv c) < 2 ^ 64"
    and "len = ucast (frame_length md)"
  shows "if queue_limit qp \<le> pending (update_buffer_track hw d)
     then tsn_fill_metadata hw num_tc map_tc stack now frame md d =
       Inr (False, md, update_buffer_track hw d)
     else \<exists>md' d' ts.
       tsn_fill_metadata hw num_tc map_tc stack now frame md d = Inr (True, md', d') \<and>
       pending d' = Suc (pending (update_buffer_track hw d)) \<and>
       total_available_at (tsn_config d') = total_available_at c + bytes_to_ns len \<and>
       queue_available_at (tsn_config d') = (queue_available_at c)[prio_num qp := queue_available_at c ! prio_num qp + bytes_to_ns len] \<and>
       fail_policy md' = (if qp = TSN_PRIO_BE then 0 else 1) \<and> ticks_of d ts md' \<and>
       ((\<forall>x. \<not> gate_open (qbv c) tc x) \<or>
        windows_given (qbv c) tc (prio_timeline (prios (qbv_baked c) ! tc)) (ready_at c now qp) (bytes_to_ns len) (qp \<noteq> TSN_PRIO_BE) ts)"
proof -
  have "tc < length (qav (tsn_config d))" using assms(5,6) by (simp add: baked_current_def wf_config_def)
  then have refused: "queue_limit qp \<le> pending (update_buffer_track hw d) \<Longrightarrow>
    tsn_fill_metadata hw num_tc map_tc stack now frame md d = Inr (False, md, update_buffer_track hw d)"
    using fill_metadata_qbv_refused[OF assms(1,2,4)] assms(3,7,8,9) by simp
  show ?thesis
  proof (cases "queue_limit qp \<le> pending (update_buffer_track hw d)")
    case True
    show ?thesis unfolding if_P[OF True] by (rule refused[OF True])
  next
    case False
    show ?thesis unfolding if_not_P[OF False]
      by (rule fill_metadata_qbv_accepted[OF assms(1-13) False[unfolded not_le] assms(14)])
  qed
qed

text \<open>An untagged best-effort frame through a two-slot schedule, with a cleared device.\<close>

definition demo_frame :: "u8 list" where
  "demo_frame = replicate 12 0 @ [0x08, 0x00] @ replicate 46 0"

definition demo_priv :: xdma_private where
  "demo_priv = \<lparr>tx_work_skb = replicate TSN_TIMESTAMP_ID_MAX None,
     tx_work_start_after = replicate TSN_TIMESTAMP_ID_MAX 0,
     tx_work_wait_until = replicate TSN_TIMESTAMP_ID_MAX 0, tstamp_config = \<lparr>ts_flags = 0, tx_type = 0, rx_filter = 0\<rparr>,
     last_tx_tstamp = replicate TSN_TIMESTAMP_ID_MAX 0, tstamp_retry = replicate TSN_TIMESTAMP_ID_MAX 0,
     total_tx_count = 0, total_tx_drop_count = 0, last_normal_timeout = 0,
     last_to_overflow_popped = 0, last_to_overflow_timeout = 0, tx_state = 0\<rparr>"

definition demo_dev :: "tsn_config \<Rightarrow> xdma_dev" where
  "demo_dev c = \<lparr>io_trace = [], priv = demo_priv, ptp = \<lparr>ticks_scale = 8, ptp_offset = 0\<rparr>,
     tsn_config = c\<rparr>"

definition zero_tick :: tick_count where
  "zero_tick = \<lparr>tick = 0, priority = 0\<rparr>"

definition demo_md :: tx_metadata where
  "demo_md = \<lparr>md_from = zero_tick, md_to = zero_tick, md_delay_from = zero_tick,
     md_delay_to = zero_tick, frame_length = 1000, timestamp_id = 0, fail_policy = 0\<rparr>"

definition zero_ts :: timestamps where
  "zero_ts = \<lparr>ts_from = 0, ts_to = 0, ts_delay_from = 0, ts_delay_to = 0\<rparr>"

lemma demo_frame_class:
  "tsn_get_vlan_prio demo_frame = Inr 0" "is_gptp_packet demo_frame = Inr False"
  by (simp_all add: demo_frame_def tsn_get_vlan_prio_def is_gptp_packet_def be16_def nth_append
      ETH_P_8021Q_def ETH_P_1588_def)

lemma demo_dev_ready:
  obtains c where "bake_qos_config (demo_config [(400000, True), (600000, False)]) = Inr c"
    "baked_current c" "\<not> qav_enabled (qav c ! 0)" "qbv_enabled (qbv c)" "cfg_cycle (qbv c) = 1000000"
    "qbv_start (qbv c) = 0" "buffer_tracker c = \<lparr>pending_packets = 0, last_tx_count = 0\<rparr>"
    "total_available_at c = 0"
proof -
  let ?g = "demo_config [(400000, True), (600000, False)]"
  have wf: "wf_config ?g" by (simp add: wf_demo_config)
  obtain c where c: "bake_qos_config ?g = Inr c" "qav c = qav ?g" "qbv c = qbv ?g"
    using bake_ok[OF wf] by (auto simp: demo_config_def)
  have keep: "buffer_tracker c = buffer_tracker ?g" "total_available_at c = total_available_at ?g"
    using c(1) by (auto simp: bake_qos_config_def bake_default_def rbind_eq_Inr demo_config_def)
  show ?thesis
    using that[of c] c keep bake_current[OF wf c(1)] demo_cycle
    by (simp add: demo_config_def zero_config_def zero_qav_def)
qed

lemma demo_accepted:
  assumes "baked_current c" "\<not> qav_enabled (qav c ! 0)" "qbv_enabled (qbv c)" "cfg_cycle (qbv c) = 1000000"
    "qbv_start (qbv c) = 0" "buffer_tracker c = \<lparr>pending_packets = 0, last_tx_count = 0\<rparr>"
    "total_available_at c = 0" and d: "tsn_config d = c" "ptp d = \<lparr>ticks_scale = 8, ptp_offset = 0\<rparr>"
  shows "\<exists>md' d'. tsn_fill_metadata (\<lambda>_ _. 0) 0 id zero_ts 0 demo_frame md d = Inr (True, md', d')"
proof -
  have r: "ready_at c 0 TSN_PRIO_BE = 30000" using assms(7) by (simp add: ready_at_def max_def)
  have "update_buffer_track (\<lambda>_ _. 0) d = d"
    using assms(6) d by (simp add: update_buffer_track_def)
  then have room: "pending (update_buffer_track (\<lambda>_ _. 0) d) < queue_limit TSN_PRIO_BE"
    using assms(6) d by (simp add: pending_def queue_limit_def)
  have h: "TSN_PRIO_BE = queue_prio_of False 0" "0 = unat (tsn_get_mqprio_tc 0 id 0)" "0 < TC_COUNT"
    "baked_current (tsn_config d)" "c = tsn_config d" "\<not> qav_enabled (qav c ! 0)"
    "qbv_enabled (qbv c)" "6 \<le> ticks_scale (ptp d)" "0 < cfg_cycle (qbv c)"
    "qbv_start (qbv c) \<le> ready_at c 0 TSN_PRIO_BE"
    "unat (ready_at c 0 TSN_PRIO_BE) + 3 * cfg_cycle (qbv c) < 2 ^ 64"
    using assms r d by (simp_all add: queue_prio_of_def tsn_get_mqprio_tc_def)
  show ?thesis
    using fill_metadata_qbv_accepted[OF demo_frame_class h room refl, of zero_ts md] by blast
qed

theorem tsn_fill_metadata_invariant_witness:
  "\<exists>c md' d'. bake_qos_config (demo_config [(400000, True), (600000, False)]) = Inr c \<and>
     tsn_fill_metadata (\<lambda>_ _. 0) 0 id zero_ts 0 demo_frame demo_md (demo_dev c) = Inr (True, md', d') \<and>
     wf_config (tsn_config d') \<and> pending d' \<le> HW_QUEUE_SIZE \<and> pending d' = 1"
proof -
  obtain c where c: "bake_qos_config (demo_config [(400000, True), (600000, False)]) = Inr c"
    "baked_current c" "\<not> qav_enabled (qav c ! 0)" "qbv_enabled (qbv c)" "cfg_cycle (qbv c) = 1000000"
    "qbv_start (qbv c) = 0" "buffer_tracker c = \<lparr>pending_packets = 0, last_tx_count = 0\<rparr>"
    "total_available_at c = 0" by (rule demo_dev_ready)
  obtain md' d' where f: "tsn_fill_metadata (\<lambda>_ _. 0) 0 id zero_ts 0 demo_frame demo_md (demo_dev c) = Inr (True, md', d')"
    using demo_accepted[OF c(2-8), of "demo_dev c" demo_md] by (auto simp: demo_dev_def)
  have h: "wf_config (tsn_config (demo_dev c))" "pending (demo_dev c) \<le> HW_QUEUE_SIZE"
    using c(2,7) by (simp_all add: baked_current_def demo_dev_def pending_def)
  have "update_buffer_track (\<lambda>_ _. 0) (demo_dev c) = demo_dev c" "pending (demo_dev c) = 0"
    using c(7) by (simp_all add: update_buffer_track_def demo_dev_def pending_def)
  then show ?thesis using c(1) f tsn_fill_metadata_invariant[OF h f] by auto
qed

theorem tsn_fill_metadata_classifies_witness:
  "\<exists>c md' d'. bake_qos_config (demo_config [(400000, True), (600000, False)]) = Inr c \<and>
     tsn_fill_metadata (\<lambda>_ _. 0) 0 id zero_ts 0 demo_frame demo_md (demo_dev c) = Inr (True, md', d') \<and>
     priority (md_from md') = 7 \<and> frame_length md' = 1000 \<and> timestamp_id md' = 0 \<and> fail_policy md' = 0"
proof -
  obtain c where c: "bake_qos_config (demo_config [(400000, True), (600000, False)]) = Inr c"
    "baked_current c" "\<not> qav_enabled (qav c ! 0)" "qbv_enabled (qbv c)" "cfg_cycle (qbv c) = 1000000"
    "qbv_start (qbv c) = 0" "buffer_tracker c = \<lparr>pending_packets = 0, last_tx_count = 0\<rparr>"
    "total_available_at c = 0" by (rule demo_dev_ready)
  obtain md' d' where f: "tsn_fill_metadata (\<lambda>_ _. 0) 0 id zero_ts 0 demo_frame demo_md (demo_dev c) = Inr (True, md', d')"
    using demo_accepted[OF c(2-8), of "demo_dev c" demo_md] by (auto simp: demo_dev_def)
  from tsn_fill_metadata_classifies[OF f] c(1) f show ?thesis
    by (auto simp: demo_frame_class demo_dev_def demo_priv_def demo_md_def Let_def)
qed

theorem tsn_fill_metadata_qbv_witness:
  "\<exists>c md' d'. bake_qos_config (demo_config [(400000, True), (600000, False)]) = Inr c \<and>
     tsn_fill_metadata (\<lambda>_ _. 0) 0 id zero_ts 0 demo_frame demo_md (demo_dev c) = Inr (True, md', d') \<and>
     pending d' = 1 \<and> total_available_at (tsn_config d') = 8000 \<and> fail_policy md' = 0"
proof -
  obtain c where c: "bake_qos_config (demo_config [(400000, True), (600000, False)]) = Inr c"
    "baked_current c" "\<not> qav_enabled (qav c ! 0)" "qbv_enabled (qbv c)" "cfg_cycle (qbv c) = 1000000"
    "qbv_start (qbv c) = 0" "buffer_tracker c = \<lparr>pending_packets = 0, last_tx_count = 0\<rparr>"
    "total_available_at c = 0" by (rule demo_dev_ready)
  have r: "ready_at c 0 TSN_PRIO_BE = 30000" using c(8) by (simp add: ready_at_def max_def)
  have u: "update_buffer_track (\<lambda>_ _. 0) (demo_dev c) = demo_dev c" "pending (demo_dev c) = 0"
    using c(7) by (simp_all add: update_buffer_track_def demo_dev_def pending_def)
  have h: "TSN_PRIO_BE = queue_prio_of False 0" "0 = unat (tsn_get_mqprio_tc 0 id 0)" "0 < TC_COUNT"
    "baked_current (tsn_config (demo_dev c))" "c = tsn_config (demo_dev c)" "\<not> qav_enabled (qav c ! 0)"
    "qbv_enabled (qbv c)" "6 \<le> ticks_scale (ptp (demo_dev c))" "0 < cfg_cycle (qbv c)"
    "qbv_start (qbv c) \<le> ready_at c 0 TSN_PRIO_BE"
    "unat (ready_at c 0 TSN_PRIO_BE) + 3 * cfg_cycle (qbv c) < 2 ^ 64" "1000 = ucast (frame_length demo_md)"
    using c r by (simp_all add: queue_prio_of_def tsn_get_mqprio_tc_def demo_dev_def demo_md_def)
  have l: "\<not> queue_limit TSN_PRIO_BE \<le> pending (update_buffer_track (\<lambda>_ _. 0) (demo_dev c))"
    unfolding u by (simp add: queue_limit_def)
  from tsn_fill_metadata_qbv[OF demo_frame_class h, of "\<lambda>_ _. 0" zero_ts] c(1,8)
  show ?thesis unfolding if_not_P[OF l] unfolding u by (auto simp: bytes_to_ns_def)
qed

end

