(* ===== verification/Tsn_Config.thy ===== *)
theory Tsn_Config
  imports Tsn_Frame
begin

text \<open>
  The configuration entry points of \<open>tsn.c\<close>: \<open>tsn_init_configs\<close> and the three traffic-control
  offloads \<open>tsn_set_mqprio\<close>, \<open>tsn_set_qav\<close> and \<open>tsn_set_qbv\<close>.  The kernel's offload structures are
  records; the kernel functions that change a network device's traffic classes are an argument of
  type \<open>net_api\<close> over an unspecified type of network devices.  Return codes are the integers the
  code returns.
\<close>

subsection \<open>The code\<close>

abbreviation ENOTSUPP :: int where "ENOTSUPP \<equiv> 524"
abbreviation EINVAL :: int where "EINVAL \<equiv> 22"
abbreviation EOPNOTSUPP :: int where "EOPNOTSUPP \<equiv> 95"
abbreviation EFAULT :: int where "EFAULT \<equiv> 14"

text \<open>Constants of the kernel's traffic-control interface.\<close>

abbreviation TC_MQPRIO_MODE_DCB :: u16 where "TC_MQPRIO_MODE_DCB \<equiv> 0"
abbreviation TC_QOPT_MAX_QUEUE :: nat where "TC_QOPT_MAX_QUEUE \<equiv> 16"
abbreviation TC_QOPT_BITMASK :: nat where "TC_QOPT_BITMASK \<equiv> 15"

record tc_mqprio_qopt =
  num_tc :: u8
  prio_tc_map :: "u8 list"
  tc_count :: "u16 list"
  tc_offset :: "u16 list"

record tc_mqprio_qopt_offload =
  qopt :: tc_mqprio_qopt
  mode :: u16

record tc_cbs_qopt_offload =
  cbs_enable :: u8
  cbs_queue :: s32
  hicredit :: s32
  locredit :: s32
  idleslope :: s32
  sendslope :: s32

datatype taprio_cmd =
  TAPRIO_CMD_REPLACE | TAPRIO_CMD_DESTROY | TAPRIO_CMD_STATS | TAPRIO_CMD_QUEUE_STATS

record tc_taprio_sched_entry =
  gate_mask :: u32
  interval :: u32

record tc_taprio_qopt_offload =
  taprio_cmd :: taprio_cmd
  base_time :: u64
  num_entries :: u64
  entries :: "tc_taprio_sched_entry list"

text \<open>The kernel's side of a network device: each call may fail with a negative code.\<close>

record 'n net_api =
  netdev_set_num_tc :: "u8 \<Rightarrow> 'n \<Rightarrow> int \<times> 'n"
  netdev_set_tc_queue :: "nat \<Rightarrow> u16 \<Rightarrow> u16 \<Rightarrow> 'n \<Rightarrow> int \<times> 'n"
  netdev_set_prio_tc_map :: "nat \<Rightarrow> u8 \<Rightarrow> 'n \<Rightarrow> int \<times> 'n"

definition tsn_set_mqprio :: "'n net_api \<Rightarrow> tc_mqprio_qopt_offload \<Rightarrow> 'n \<Rightarrow> (int \<times> 'n) res" where
  "tsn_set_mqprio api offload ndev =
     (let q = qopt offload in
      if mode offload \<noteq> TC_MQPRIO_MODE_DCB then Inr (- ENOTSUPP, ndev)
      else if TC_QOPT_MAX_QUEUE \<le> unat (num_tc q) then Inr (- EINVAL, ndev)
      else
        let (ret, ndev) = netdev_set_num_tc api (num_tc q) ndev in
        if ret < 0 then Inr (ret, ndev)
        else if num_tc q = 0 then Inr (0, ndev)
        else
          rbind (foldM (\<lambda>i ndev.
              rbind (rd (tc_count q) i) (\<lambda>c.
              rbind (rd (tc_offset q) i) (\<lambda>off.
              Inr (snd (netdev_set_tc_queue api i c off ndev))))) [0..<unat (num_tc q)] ndev) (\<lambda>ndev.
          rbind (foldM (\<lambda>i ndev.
              rbind (rd (prio_tc_map q) i) (\<lambda>tc.
              Inr (snd (netdev_set_prio_tc_map api i tc ndev)))) [0..<TC_QOPT_BITMASK] ndev) (\<lambda>ndev.
          Inr (0, ndev))))"

definition tsn_set_qav :: "tc_cbs_qopt_offload \<Rightarrow> tsn_config \<Rightarrow> (int \<times> tsn_config) res" where
  "tsn_set_qav offload config =
     (if sint (cbs_queue offload) < 0 \<or> int TC_COUNT \<le> sint (cbs_queue offload) then Inr (- EINVAL, config)
      else
        let i = nat (sint (cbs_queue offload)) in
        rbind (rd (qav config) i) (\<lambda>q.
        rbind (wr (qav config) i (q\<lparr>
            qav_enabled := (cbs_enable offload \<noteq> 0),
            hi_credit := hicredit offload * 1000,
            lo_credit := locredit offload * 1000,
            idle_slope := word_of_int (c_div (sint (idleslope offload)) 1000),
            send_slope := word_of_int (c_div (sint (sendslope offload)) 1000)\<rparr>)) (\<lambda>qs.
        rbind (bake_qos_config (config\<lparr>qav := qs\<rparr>)) (\<lambda>config.
        Inr (0, config)))))"

text \<open>One entry of the gate control list written to slot \<open>i\<close>.\<close>

definition set_qbv_slot :: "tc_taprio_qopt_offload \<Rightarrow> nat \<Rightarrow> qbv_config \<Rightarrow> qbv_config res" where
  "set_qbv_slot offload i q =
     rbind (rd (entries offload) i) (\<lambda>e.
     rbind (rd (qbv_slots q) i) (\<lambda>s.
     rbind (foldM (\<lambda>j ps. wr ps j (bit (gate_mask e) j)) [0..<TC_COUNT] (opened_prios s)) (\<lambda>ps.
     rbind (wr (qbv_slots q) i \<lparr>slot_duration_ns = interval e, opened_prios = ps\<rparr>) (\<lambda>ss.
     Inr (q\<lparr>qbv_slots := ss\<rparr>)))))"

definition tsn_set_qbv :: "tc_taprio_qopt_offload \<Rightarrow> tsn_config \<Rightarrow> (int \<times> tsn_config) res" where
  "tsn_set_qbv offload config =
     (if MAX_QBV_SLOTS < unat (num_entries offload) then Inr (- EINVAL, config)
      else case taprio_cmd offload of
        TAPRIO_CMD_REPLACE \<Rightarrow>
          let q = (qbv config)\<lparr>qbv_enabled := True, qbv_start := base_time offload,
                    qbv_slot_count := ucast (num_entries offload)\<rparr> in
          rbind (foldM (set_qbv_slot offload) [0..<unat (qbv_slot_count q)] q) (\<lambda>q.
          rbind (bake_qos_config (config\<lparr>qbv := q\<rparr>)) (\<lambda>config. Inr (0, config)))
      | TAPRIO_CMD_DESTROY \<Rightarrow>
          rbind (bake_qos_config (config\<lparr>qbv := (qbv config)\<lparr>qbv_enabled := False\<rparr>\<rparr>)) (\<lambda>config.
          Inr (0, config))
      | _ \<Rightarrow> Inr (- EOPNOTSUPP, config))"

definition tsn_init_configs :: "tsn_config res" where
  "tsn_init_configs = bake_qos_config zero_config"

subsection \<open>Writing the gate control list\<close>

definition gcl_of :: "tc_taprio_qopt_offload \<Rightarrow> nat \<Rightarrow> timeline" where
  "gcl_of offload tc = map (\<lambda>e. (unat (interval e), bit (gate_mask e) tc)) (entries offload)"

lemma set_opened_prios:
  assumes "length ps = TC_COUNT"
  shows "foldM (\<lambda>j ps. wr ps j (f j)) [0..<TC_COUNT] ps = Inr (map f [0..<TC_COUNT])"
proof -
  have "\<exists>s'. foldM (\<lambda>j ps. wr ps j (f j)) [0..<TC_COUNT] ps = Inr s' \<and>
      (length s' = TC_COUNT \<and> (\<forall>j < TC_COUNT. s' ! j = f j))"
    by (rule foldM_upt_inv[where I = "\<lambda>k s. length s = TC_COUNT \<and> (\<forall>j < k. s ! j = f j)"])
      (use assms in \<open>auto simp: less_Suc_eq\<close>)
  then show ?thesis by (auto intro!: nth_equalityI)
qed

definition entry_slot :: "tc_taprio_sched_entry \<Rightarrow> qbv_slot" where
  "entry_slot e = \<lparr>slot_duration_ns = interval e, opened_prios = map (bit (gate_mask e)) [0..<TC_COUNT]\<rparr>"

lemma set_qbv_slot_ok:
  assumes "wf_qbv q" "i < length (entries off)" "i < MAX_QBV_SLOTS"
  shows "set_qbv_slot off i q = Inr (q\<lparr>qbv_slots := (qbv_slots q)[i := entry_slot (entries off ! i)]\<rparr>)"
proof -
  have "length (opened_prios (qbv_slots q ! i)) = TC_COUNT" "length (qbv_slots q) = MAX_QBV_SLOTS"
    using assms by (auto simp: wf_qbv_def)
  then show ?thesis using assms(2,3)
    by (simp add: set_qbv_slot_def set_opened_prios entry_slot_def)
qed

lemma wf_qbv_set_slot:
  "wf_qbv q \<Longrightarrow> wf_qbv (q\<lparr>qbv_slots := (qbv_slots q)[i := entry_slot e]\<rparr>)"
  by (auto simp: wf_qbv_def entry_slot_def dest!: set_update_subset_insert[THEN subsetD])

lemma set_qbv_slots_ok:
  assumes "wf_qbv q" "n \<le> length (entries off)" "n \<le> MAX_QBV_SLOTS"
  shows "\<exists>q'. foldM (set_qbv_slot off) [0..<n] q = Inr q' \<and> wf_qbv q' \<and>
     qbv_enabled q' = qbv_enabled q \<and> qbv_start q' = qbv_start q \<and> qbv_slot_count q' = qbv_slot_count q \<and>
     (\<forall>i < n. qbv_slots q' ! i = entry_slot (entries off ! i))"
proof (rule foldM_upt_inv[where I = "\<lambda>k q'. wf_qbv q' \<and>
     qbv_enabled q' = qbv_enabled q \<and> qbv_start q' = qbv_start q \<and> qbv_slot_count q' = qbv_slot_count q \<and>
     (\<forall>i < k. qbv_slots q' ! i = entry_slot (entries off ! i))"])
  fix k s assume k: "k < n" and inv: "wf_qbv s \<and>
     qbv_enabled s = qbv_enabled q \<and> qbv_start s = qbv_start q \<and> qbv_slot_count s = qbv_slot_count q \<and>
     (\<forall>i < k. qbv_slots s ! i = entry_slot (entries off ! i))"
  have l: "length (qbv_slots s) = MAX_QBV_SLOTS" using inv by (simp add: wf_qbv_def)
  show "\<exists>s'. set_qbv_slot off k s = Inr s' \<and> wf_qbv s' \<and>
     qbv_enabled s' = qbv_enabled q \<and> qbv_start s' = qbv_start q \<and> qbv_slot_count s' = qbv_slot_count q \<and>
     (\<forall>i < Suc k. qbv_slots s' ! i = entry_slot (entries off ! i))"
    using set_qbv_slot_ok[of s k off] wf_qbv_set_slot[of s k "entries off ! k"] inv k assms l
    by (auto simp: less_Suc_eq)
qed (use assms in simp)

subsection \<open>What each command establishes\<close>

definition valid_qbv :: "tc_taprio_qopt_offload \<Rightarrow> bool" where
  "valid_qbv off \<longleftrightarrow> length (entries off) = unat (num_entries off)"

lemma unat_ucast_le: "unat (w :: u64) \<le> 20 \<Longrightarrow> unat (ucast w :: u32) = unat w"
  by (simp add: unsigned_ucast_eq take_bit_nat_eq_self)

lemma qbv_replace_ok:
  assumes cur: "wf_config c" and v: "valid_qbv off" "unat (num_entries off) \<le> MAX_QBV_SLOTS"
    and cmd: "taprio_cmd off = TAPRIO_CMD_REPLACE"
  shows "\<exists>c'. tsn_set_qbv off c = Inr (0, c') \<and> baked_current c' \<and> qav c' = qav c \<and>
     qbv_enabled (qbv c') \<and> qbv_start (qbv c') = base_time off \<and>
     (\<forall>tc < TC_COUNT. cfg_timeline (qbv c') tc = gcl_of off tc)"
proof -
  let ?q = "(qbv c)\<lparr>qbv_enabled := True, qbv_start := base_time off,
    qbv_slot_count := ucast (num_entries off)\<rparr>"
  have n: "unat (qbv_slot_count ?q) = unat (num_entries off)" using v(2) by (simp add: unat_ucast_le)
  have wq: "wf_qbv ?q" using cur v(2) n by (simp add: wf_config_def wf_qbv_def)
  obtain q' where q': "foldM (set_qbv_slot off) [0..<unat (num_entries off)] ?q = Inr q'" "wf_qbv q'"
    "qbv_enabled q'" "qbv_start q' = base_time off" "qbv_slot_count q' = ucast (num_entries off)"
    "\<forall>i < unat (num_entries off). qbv_slots q' ! i = entry_slot (entries off ! i)"
    using set_qbv_slots_ok[OF wq, of "unat (num_entries off)" off] v by (auto simp: valid_qbv_def)
  have wf: "wf_config (c\<lparr>qbv := q'\<rparr>)" using cur q'(2) by (simp add: wf_config_def)
  obtain c' where c': "bake_qos_config (c\<lparr>qbv := q'\<rparr>) = Inr c'" "qav c' = qav c" "qbv c' = q'"
    using bake_ok[OF wf] q'(3) by auto
  have "cfg_timeline q' tc = gcl_of off tc" if "tc < TC_COUNT" for tc
    using q'(2,5,6) v that
    by (intro nth_equalityI) (auto simp: cfg_timeline_def gcl_of_def wf_qbv_def valid_qbv_def
        unat_ucast_le entry_slot_def)
  moreover have "tsn_set_qbv off c = Inr (0, c')"
    using v(2) cmd q'(1) c'(1) n by (simp add: tsn_set_qbv_def Let_def)
  ultimately show ?thesis using c' q'(3,4) bake_current[OF wf c'(1)] by auto
qed

lemma qbv_destroy_ok:
  assumes "wf_config c" and "unat (num_entries off) \<le> MAX_QBV_SLOTS" and "taprio_cmd off = TAPRIO_CMD_DESTROY"
  shows "\<exists>c'. tsn_set_qbv off c = Inr (0, c') \<and> baked_current c' \<and> qav c' = qav c \<and>
     ((\<exists>q \<in> set (qav c). qav_enabled q) \<longrightarrow> \<not> qbv_enabled (qbv c'))"
proof -
  let ?c = "c\<lparr>qbv := (qbv c)\<lparr>qbv_enabled := False\<rparr>\<rparr>"
  have wf: "wf_config ?c" using assms(1) by (simp add: wf_config_def wf_qbv_def)
  show ?thesis using bake_ok[OF wf] bake_current[OF wf] assms(2,3) by (auto simp: tsn_set_qbv_def)
qed

lemma set_qbv_current:
  assumes "baked_current c" "valid_qbv off"
  shows "\<exists>r c'. tsn_set_qbv off c = Inr (r, c') \<and> baked_current c'"
proof -
  have wf: "wf_config c" using assms(1) by (simp add: baked_current_def)
  show ?thesis
  proof (cases "unat (num_entries off) \<le> MAX_QBV_SLOTS")
    case True
    then show ?thesis
      using qbv_replace_ok[OF wf assms(2) True] qbv_destroy_ok[OF wf True] assms(1)
      by (cases "taprio_cmd off") (blast, blast, simp_all add: tsn_set_qbv_def)
  qed (use assms(1) in \<open>simp add: tsn_set_qbv_def\<close>)
qed

lemma set_qav_ok:
  assumes cur: "wf_config c" and q: "0 \<le> sint (cbs_queue off)" "sint (cbs_queue off) < int TC_COUNT"
  shows "\<exists>c'. tsn_set_qav off c = Inr (0, c') \<and> baked_current c' \<and>
     qav c' = (qav c)[nat (sint (cbs_queue off)) := (qav c ! nat (sint (cbs_queue off)))\<lparr>
            qav_enabled := (cbs_enable off \<noteq> 0),
            hi_credit := hicredit off * 1000, lo_credit := locredit off * 1000,
            idle_slope := word_of_int (c_div (sint (idleslope off)) 1000),
            send_slope := word_of_int (c_div (sint (sendslope off)) 1000)\<rparr>] \<and>
     (qbv_enabled (qbv c) \<longrightarrow> qbv c' = qbv c)"
  (is "\<exists>c'. _ \<and> _ \<and> qav c' = ?qs \<and> _")
proof -
  have l: "nat (sint (cbs_queue off)) < length (qav c)" using cur q by (simp add: wf_config_def nat_less_iff)
  have wf: "wf_config (c\<lparr>qav := ?qs\<rparr>)" using cur by (simp add: wf_config_def)
  show ?thesis
    using bake_ok[OF wf] bake_current[OF wf] q l by (auto simp: tsn_set_qav_def Let_def)
qed

lemma set_qav_current:
  assumes "baked_current c"
  shows "\<exists>r c'. tsn_set_qav off c = Inr (r, c') \<and> baked_current c'"
proof (cases "sint (cbs_queue off) < 0 \<or> int TC_COUNT \<le> sint (cbs_queue off)")
  case False
  then show ?thesis using set_qav_ok[of c off] assms by (auto simp: baked_current_def not_less not_le)
qed (use assms in \<open>simp add: tsn_set_qav_def\<close>)

subsection \<open>Sequences of commands\<close>

datatype tsn_cmd = Set_Qav tc_cbs_qopt_offload | Set_Qbv tc_taprio_qopt_offload

fun tsn_step :: "tsn_cmd \<Rightarrow> tsn_config \<Rightarrow> tsn_config res" where
  "tsn_step (Set_Qav off) c = rbind (tsn_set_qav off c) (\<lambda>(_, c). Inr c)"
| "tsn_step (Set_Qbv off) c = rbind (tsn_set_qbv off c) (\<lambda>(_, c). Inr c)"

fun tsn_cmd_valid :: "tsn_cmd \<Rightarrow> bool" where
  "tsn_cmd_valid (Set_Qav off) = True"
| "tsn_cmd_valid (Set_Qbv off) = valid_qbv off"

interpretation tsn_commands: safe_machine tsn_step tsn_cmd_valid baked_current
proof
  fix s c assume "baked_current s" "tsn_cmd_valid c"
  then show "\<exists>s'. tsn_step c s = Inr s' \<and> baked_current s'"
    using set_qav_current set_qbv_current by (cases c) (fastforce simp: rbind_eq_Inr)+
qed

subsection \<open>Properties\<close>

text \<open>
  C13: from the driver's initial configuration, whatever sequence of Qav and Qbv offloads the kernel
  submits, valid or not, no command faults, and after each of them the baked schedule is the
  alternating form of the gate control list in force.  The kernel's side of the contract is that
  \<open>num_entries\<close> is the length of the entry array.
\<close>

theorem tsn_commands_never_fault:
  assumes "\<forall>c \<in> set cs. tsn_cmd_valid c"
  shows "\<exists>c0 c. tsn_init_configs = Inr c0 \<and> foldM tsn_step cs c0 = Inr c \<and> baked_current c"
proof -
  obtain c0 where c0: "bake_qos_config zero_config = Inr c0" using bake_ok[OF wf_zero_config] by blast
  from tsn_commands.run_ok[OF bake_current[OF wf_zero_config c0], of cs] assms c0
  show ?thesis by (auto simp: tsn_init_configs_def)
qed

definition demo_qbv :: tc_taprio_qopt_offload where
  "demo_qbv = \<lparr>taprio_cmd = TAPRIO_CMD_REPLACE, base_time = 0, num_entries = 2,
     entries = [\<lparr>gate_mask = 1, interval = 400000\<rparr>, \<lparr>gate_mask = 254, interval = 600000\<rparr>]\<rparr>"

definition demo_cbs :: tc_cbs_qopt_offload where
  "demo_cbs = \<lparr>cbs_enable = 1, cbs_queue = 3, hicredit = 150, locredit = - 1350,
     idleslope = 100000, sendslope = - 900000\<rparr>"

theorem tsn_commands_never_fault_witness:
  "\<exists>c0 c. tsn_init_configs = Inr c0 \<and>
     foldM tsn_step [Set_Qbv demo_qbv, Set_Qav demo_cbs, Set_Qbv (demo_qbv\<lparr>num_entries := 2, taprio_cmd := TAPRIO_CMD_STATS\<rparr>)] c0
       = Inr c \<and> baked_current c"
proof -
  have "\<forall>c \<in> set [Set_Qbv demo_qbv, Set_Qav demo_cbs,
      Set_Qbv (demo_qbv\<lparr>num_entries := 2, taprio_cmd := TAPRIO_CMD_STATS\<rparr>)]. tsn_cmd_valid c"
    by (simp add: demo_qbv_def valid_qbv_def)
  then show ?thesis by (rule tsn_commands_never_fault)
qed

text \<open>
  C27: an accepted gate control list is in force exactly as it was submitted: the gate of every
  class is open at an instant if and only if the entry that covers that instant, in the cycle
  counted from the base time, has the bit of the class in its mask, and what the scheduler uses
  agrees with it.  A list of more than 20 entries is refused with \<open>EINVAL\<close> and changes nothing.
\<close>

theorem tsn_set_qbv_installs_gcl:
  assumes "wf_config c" "valid_qbv off" "taprio_cmd off = TAPRIO_CMD_REPLACE"
  shows "if MAX_QBV_SLOTS < unat (num_entries off) then tsn_set_qbv off c = Inr (- EINVAL, c)
     else \<exists>c'. tsn_set_qbv off c = Inr (0, c') \<and> qbv_enabled (qbv c') \<and> qav c' = qav c \<and>
       (\<forall>tc < TC_COUNT. \<forall>t. gate_open (qbv c') tc t =
          gate_at (gcl_of off tc) ((t - unat (base_time off)) mod cycle_of (gcl_of off tc))) \<and>
       (\<forall>tc < TC_COUNT. \<forall>r. gate_at (prio_timeline (prios (qbv_baked c') ! tc)) r =
          gate_at (gcl_of off tc) r)"
proof (cases "MAX_QBV_SLOTS < unat (num_entries off)")
  case False
  then obtain c' where c': "tsn_set_qbv off c = Inr (0, c')" "baked_current c'" "qav c' = qav c"
    "qbv_enabled (qbv c')" "qbv_start (qbv c') = base_time off"
    "\<forall>tc < TC_COUNT. cfg_timeline (qbv c') tc = gcl_of off tc"
    using qbv_replace_ok[OF assms(1,2) _ assms(3)] by (auto simp: not_less)
  have "gate_open (qbv c') tc t =
      gate_at (gcl_of off tc) ((t - unat (base_time off)) mod cycle_of (gcl_of off tc))"
    if "tc < TC_COUNT" for tc t
    using c'(5,6) that by (simp add: gate_open_def cfg_cycle_prefix[of _ tc])
  moreover have "gate_at (prio_timeline (prios (qbv_baked c') ! tc)) r = gate_at (gcl_of off tc) r"
    if "tc < TC_COUNT" for tc r
    using c'(2,6) that by (auto simp: baked_current_def baked_ok_def)
  ultimately show ?thesis using False c' by auto
qed (simp add: tsn_set_qbv_def)

theorem tsn_set_qbv_installs_gcl_witness:
  "\<exists>c'. tsn_set_qbv demo_qbv zero_config = Inr (0, c') \<and> qbv_enabled (qbv c') \<and>
     gate_open (qbv c') 0 1399999 \<and> \<not> gate_open (qbv c') 0 1400000 \<and> gate_open (qbv c') 7 1400000"
proof -
  have h: "valid_qbv demo_qbv" "taprio_cmd demo_qbv = TAPRIO_CMD_REPLACE"
    "\<not> MAX_QBV_SLOTS < unat (num_entries demo_qbv)"
    by (simp_all add: demo_qbv_def valid_qbv_def)
  obtain c' where c': "tsn_set_qbv demo_qbv zero_config = Inr (0, c')" "qbv_enabled (qbv c')"
    "\<forall>tc < TC_COUNT. \<forall>t. gate_open (qbv c') tc t =
       gate_at (gcl_of demo_qbv tc) ((t - unat (base_time demo_qbv)) mod cycle_of (gcl_of demo_qbv tc))"
    using tsn_set_qbv_installs_gcl[OF wf_zero_config h(1,2)] unfolding if_not_P[OF h(3)] by blast
  show ?thesis using c' by (auto simp: gcl_of_def demo_qbv_def bit_numeral_rec)
qed

text \<open>Slopes in kbit/s from the kernel become credits per nanosecond, that is Mbit/s, truncated.\<close>

lemma c_div_small: "0 \<le> a \<Longrightarrow> a < 1000 \<Longrightarrow> c_div a 1000 = 0"
  by (simp add: c_div_def)

lemma c_div_slope: "a \<le> - 1000 \<Longrightarrow> - 1000000 \<le> a \<Longrightarrow> - 1000 \<le> c_div a 1000 \<and> c_div a 1000 \<le> - 1"
  using zdiv_mono1[of 1000 "- a" 1000] zdiv_mono1[of "- a" 1000000 1000] by (simp add: c_div_neg[of a 1000])

lemma sint_times_1000:
  assumes "- 2000000 \<le> sint (w :: s32)" "sint w \<le> 2000000"
  shows "sint (w * 1000) = sint w * 1000"
proof -
  have "w * 1000 = word_of_int (sint w * 1000)" by (metis of_int_mult of_int_numeral word_of_sint)
  moreover have "s32_range (sint w * 1000)" using assms by (simp add: s32_range_def)
  ultimately show ?thesis by (metis sint_word_of_int_s32)
qed

lemma bytes_to_ns_frame: "unat bytes \<le> 1522 \<Longrightarrow> 480 \<le> uint (bytes_to_ns bytes) \<and> uint (bytes_to_ns bytes) \<le> 12176"
proof -
  assume b: "unat bytes \<le> 1522"
  let ?m = "max bytes 60"
  have "bytes \<le> 1522" using b by (simp add: word_le_nat_alt)
  then have "60 \<le> ?m" "?m \<le> 1522" by simp_all
  then have m: "60 \<le> uint ?m" "uint ?m \<le> 1522" by (simp_all add: word_le_def)
  then have "uint (?m * 8 * NS_IN_1S) = uint ?m * 8000000000"
    by (simp add: uint_word_ariths)
  then have "uint (bytes_to_ns bytes) = uint ?m * 8" by (simp add: bytes_to_ns_def uint_div)
  then show ?thesis using m by simp
qed

text \<open>
  A reservation below 1 Mbit/s is accepted, but its idle slope is truncated to zero; then the
  first frame of the class divides by zero.
\<close>

theorem tsn_set_qav_slow_class_faults:
  assumes cur: "wf_config c" and q: "0 \<le> sint (cbs_queue off)" "sint (cbs_queue off) < int TC_COUNT"
    and tc: "tc = nat (sint (cbs_queue off))" and en: "cbs_enable off \<noteq> 0"
    and slow: "0 \<le> sint (idleslope off)" "sint (idleslope off) < 1000"
    and send: "- 1000000 \<le> sint (sendslope off)" "sint (sendslope off) \<le> - 1000"
    and hi: "0 \<le> sint (hicredit off)" "sint (hicredit off) \<le> 2000000"
    and lo: "- 2000000 \<le> sint (locredit off)" "sint (locredit off) < 0"
    and idle: "credit (qav c ! tc) = 0" "last_update (qav c ! tc) \<le> t" "available_at (qav c ! tc) \<le> t"
    and bytes: "unat bytes \<le> 1522"
  shows "\<exists>c'. tsn_set_qav off c = Inr (0, c') \<and> spend_qav_credit c' t tc bytes = Inl DivByZero"
proof -
  obtain c' where c': "tsn_set_qav off c = Inr (0, c')"
    "qav c' = (qav c)[tc := (qav c ! tc)\<lparr>qav_enabled := (cbs_enable off \<noteq> 0),
       hi_credit := hicredit off * 1000, lo_credit := locredit off * 1000,
       idle_slope := word_of_int (c_div (sint (idleslope off)) 1000),
       send_slope := word_of_int (c_div (sint (sendslope off)) 1000)\<rparr>]"
    using set_qav_ok[OF cur q] tc by blast
  have l: "tc < length (qav c)" using cur q tc by (simp add: wf_config_def nat_less_iff)
  let ?q = "qav c' ! tc" and ?b = "uint (bytes_to_ns bytes)"
  let ?s = "c_div (sint (sendslope off)) 1000"
  have s: "- 1000 \<le> ?s" "?s \<le> - 1" using c_div_slope[OF send(2,1)] by auto
  have ss: "sint (word_of_int ?s :: s32) = ?s" using s by (intro sint_word_of_int_s32) (simp add: s32_range_def)
  have b: "480 \<le> ?b" "?b \<le> 12176" using bytes_to_ns_frame[OF bytes] by auto
  have p: "- 12176000 \<le> ?b * ?s" "?b * ?s \<le> - 480"
    using mult_mono[of ?b 12176 "- ?s" 1000] mult_mono[of 480 ?b 1 "- ?s"] b s by simp_all
  have e: "d_to_s32 (d_add 0 (d_mul (d_of_int (uint (t - last_update (qav c ! tc)))) 0)) = Inr 0"
    by (simp add: d_mul_def d_add_def d_to_s32_def trunc0_def)
  have m: "d_to_s32 (d_add 0 (d_mul (d_of_int ?b) (of_int ?s))) = Inr (word_of_int (?b * ?s))"
    using d_mac_to_s32[of 0 ?b ?s] p by (simp add: s32_range_def)
  have sp: "sint (word_of_int (?b * ?s) :: s32) = ?b * ?s"
    using p by (intro sint_word_of_int_s32) (simp add: s32_range_def)
  have h: "sint (hicredit off * 1000) \<ge> 0" "sint (locredit off * 1000) < 0"
    using hi lo by (simp_all add: sint_times_1000)
  have "spend_credit ?q t bytes = Inl DivByZero"
    using en idle slow h p l c'(2) e m sp ss
    by (simp add: spend_credit_def Let_def c_div_small not_less)
  then show ?thesis using c'(1,2) l by (auto simp: spend_qav_credit_def)
qed

theorem tsn_set_qav_slow_class_faults_witness:
  "\<exists>c'. tsn_set_qav (demo_cbs\<lparr>idleslope := 500\<rparr>) zero_config = Inr (0, c') \<and>
     spend_qav_credit c' 1000000 3 1000 = Inl DivByZero"
proof -
  let ?o = "demo_cbs\<lparr>idleslope := 500\<rparr>"
  have h: "0 \<le> sint (cbs_queue ?o)" "sint (cbs_queue ?o) < int TC_COUNT" "3 = nat (sint (cbs_queue ?o))"
    "cbs_enable ?o \<noteq> 0" "0 \<le> sint (idleslope ?o)" "sint (idleslope ?o) < 1000"
    "- 1000000 \<le> sint (sendslope ?o)" "sint (sendslope ?o) \<le> - 1000" "0 \<le> sint (hicredit ?o)"
    "sint (hicredit ?o) \<le> 2000000" "- 2000000 \<le> sint (locredit ?o)" "sint (locredit ?o) < 0"
    "credit (qav zero_config ! 3) = 0" "last_update (qav zero_config ! 3) \<le> 1000000"
    "available_at (qav zero_config ! 3) \<le> 1000000" "unat (1000 :: u64) \<le> 1522"
    by (simp_all add: demo_cbs_def zero_config_def zero_qav_def)
  from tsn_set_qav_slow_class_faults[OF wf_zero_config h] show ?thesis .
qed

text \<open>
  \<open>tsn_set_mqprio\<close> accepts up to 15 traffic classes, one for each class the kernel can map a
  priority to, but the per-class arrays have 8 entries: a frame whose priority is mapped to class 8
  or above is looked up outside them.
\<close>

theorem tsn_set_mqprio_class_out_of_bounds:
  assumes "mode offload = TC_MQPRIO_MODE_DCB" "unat (num_tc (qopt offload)) < 16" "num_tc (qopt offload) \<noteq> 0"
    and "length (tc_count (qopt offload)) = 16" "length (tc_offset (qopt offload)) = 16"
    and "length (prio_tc_map (qopt offload)) = 16"
    and "0 \<le> fst (netdev_set_num_tc api (num_tc (qopt offload)) ndev)"
    and "wf_config (tsn_config d)" "16 \<le> length frame" "tsn_get_vlan_prio frame = Inr prio"
    and "unat prio < 15" "num = unat (num_tc (qopt offload))"
    and "\<And>p. p < 15 \<Longrightarrow> map_tc (of_nat p) = prio_tc_map (qopt offload) ! p"
    and "TC_COUNT \<le> unat (prio_tc_map (qopt offload) ! unat prio)"
  shows "(\<exists>ndev'. tsn_set_mqprio api offload ndev = Inr (0, ndev')) \<and>
     tsn_fill_metadata hw num map_tc stack now frame md d = Inl OutOfBounds"
proof -
  let ?q = "qopt offload"
  obtain r n1 where n1: "netdev_set_num_tc api (num_tc ?q) ndev = (r, n1)" "0 \<le> r"
    using assms(7) by (cases "netdev_set_num_tc api (num_tc ?q) ndev") simp
  have f1: "\<exists>n2. foldM (\<lambda>i ndev. rbind (rd (tc_count ?q) i) (\<lambda>c. rbind (rd (tc_offset ?q) i) (\<lambda>off.
      Inr (snd (netdev_set_tc_queue api i c off ndev))))) [0..<unat (num_tc ?q)] n1 = Inr n2 \<and> True"
    by (rule foldM_upt_inv) (use assms(2,4,5) in simp_all)
  have f2: "\<exists>n3. foldM (\<lambda>i ndev. rbind (rd (prio_tc_map ?q) i) (\<lambda>tc.
      Inr (snd (netdev_set_prio_tc_map api i tc ndev)))) [0..<TC_QOPT_BITMASK] n2 = Inr n3 \<and> True" for n2
    by (rule foldM_upt_inv) (use assms(6) in simp_all)
  have "\<exists>ndev'. tsn_set_mqprio api offload ndev = Inr (0, ndev')"
  proof -
    from f1 obtain n2 where n2: "foldM (\<lambda>i ndev. rbind (rd (tc_count ?q) i) (\<lambda>c. rbind (rd (tc_offset ?q) i)
      (\<lambda>off. Inr (snd (netdev_set_tc_queue api i c off ndev))))) [0..<unat (num_tc ?q)] n1 = Inr n2" by blast
    from f2[of n2] n1(2) assms(1-3) show ?thesis
      unfolding tsn_set_mqprio_def Let_def n1(1) prod.case n2 rbind_Inr
      by (auto simp del: upt_rec_numeral simp: rbind_eq_Inr)
  qed
  moreover have "map_tc prio = prio_tc_map ?q ! unat prio" using assms(11,13) using assms(13)[of "unat prio"] by simp
  moreover have "num \<noteq> 0" using assms(3,12) by (simp add: unat_eq_0)
  moreover obtain g where "is_gptp_packet frame = Inr g" using headers_ok[OF assms(9)] by blast
  ultimately show ?thesis
    using assms(8,10,14)
    by (simp add: tsn_fill_metadata_def Let_def tsn_get_mqprio_tc_def tsn_select_window_def wf_config_def)
qed

text \<open>A kernel that accepts everything and keeps the last map it was given.\<close>

definition demo_api :: "(u8 \<Rightarrow> u8) net_api" where
  "demo_api = \<lparr>netdev_set_num_tc = (\<lambda>_ n. (0, n)), netdev_set_tc_queue = (\<lambda>_ _ _ n. (0, n)),
     netdev_set_prio_tc_map = (\<lambda>i tc n. (0, n(of_nat i := tc)))\<rparr>"

definition demo_mqprio :: tc_mqprio_qopt_offload where
  "demo_mqprio = \<lparr>qopt = \<lparr>num_tc = 10, prio_tc_map = replicate 16 9, tc_count = replicate 16 1,
     tc_offset = replicate 16 0\<rparr>, mode = 0\<rparr>"

theorem tsn_set_mqprio_class_out_of_bounds_witness:
  "(\<exists>ndev'. tsn_set_mqprio demo_api demo_mqprio (\<lambda>_. 0) = Inr (0, ndev')) \<and>
   tsn_fill_metadata (\<lambda>_ _. 0) 10 (\<lambda>_. 9) zero_ts 0 demo_frame demo_md (demo_dev zero_config) = Inl OutOfBounds"
proof (rule tsn_set_mqprio_class_out_of_bounds)
  show "tsn_get_vlan_prio demo_frame = Inr 0" by (rule demo_frame_class)
  show "wf_config (tsn_config (demo_dev zero_config))" using wf_zero_config by (simp add: demo_dev_def)
  show "16 \<le> length demo_frame" by (simp add: demo_frame_def)
qed (simp_all add: demo_mqprio_def demo_api_def)

end
