(* ===== verification/Xdma_Netdev.thy ===== *)
theory Xdma_Netdev
  imports Tsn_Config
begin

text \<open>
  The network device: transmission (\<open>xdma_netdev.c\<close>), the DMA interrupt handler and the receive
  filter (\<open>xdma_isr\<close>, \<open>filter_rx_timestamp\<close> in \<open>libxdma.c\<close>), the transmit-timestamp workers, and the
  control entry points.  Socket buffers are the kernel's: the record \<open>sk_buff\<close> holds what the driver
  reads and writes, the kernel functions it calls on them are an argument of type \<open>xmit_env\<close>, and
  the reference counting, wake-ups and work items it asks of the kernel are recorded in
  \<open>kevents\<close>.
\<close>

subsection \<open>State\<close>

abbreviation ETH_ZLEN :: u32 where "ETH_ZLEN \<equiv> 60"
abbreviation TX_QUEUE_COUNT :: nat where "TX_QUEUE_COUNT \<equiv> 8"
abbreviation XDMA_BUFFER_SIZE :: nat where "XDMA_BUFFER_SIZE \<equiv> 1560"
abbreviation TX_METADATA_SIZE :: nat where "TX_METADATA_SIZE \<equiv> 32"
abbreviation RX_METADATA_SIZE :: nat where "RX_METADATA_SIZE \<equiv> 10"
abbreviation CRC_LEN :: nat where "CRC_LEN \<equiv> 4"
abbreviation DMA_ENGINE_START :: u32 where "DMA_ENGINE_START \<equiv> 16268831"
abbreviation DMA_ENGINE_STOP :: u32 where "DMA_ENGINE_STOP \<equiv> 16268830"
abbreviation DESC_MAGIC :: u32 where "DESC_MAGIC \<equiv> 0xAD4B0000"
abbreviation DESC_REG_LO :: nat where "DESC_REG_LO \<equiv> 0x4080"
abbreviation DESC_REG_HI :: nat where "DESC_REG_HI \<equiv> 0x4084"
abbreviation TX_WORK_OVERFLOW_MARGIN :: u64 where "TX_WORK_OVERFLOW_MARGIN \<equiv> 100"
abbreviation WORKAROUND_PAD :: u32 where "WORKAROUND_PAD \<equiv> 5"

record xdma_desc =
  desc_control :: u32
  desc_bytes :: u32
  src_addr_lo :: u32
  src_addr_hi :: u32
  dst_addr_lo :: u32
  dst_addr_hi :: u32
  next_lo :: u32
  next_hi :: u32

text \<open>A socket buffer: \<open>skb_mem\<close> is the memory from \<open>skb->data\<close> on.\<close>

record sk_buff =
  skb_id :: nat
  skb_len :: u32
  skb_mem :: "u8 list"
  skb_queue :: u16
  skbtx_hw_tstamp :: bool
  skbtx_in_progress :: bool

datatype kernel_event =
    Submit nat
  | GetSkb nat
  | FreeSkb nat
  | TstampTx nat timestamp_t
  | DmaUnmap u64 u32
  | NetifRx "u8 list" "timestamp_t option"

record xnet =
  xdev :: xdma_dev
  tx_desc :: xdma_desc
  rx_desc :: xdma_desc
  tx_bus_addr :: u64
  tx_dma_addr :: u64
  rx_bus_addr :: u64
  rx_dma_addr :: u64
  res_dma_addr :: u64
  tx_skb :: "sk_buff option"
  subq_stopped :: "u16 \<Rightarrow> bool"
  queue_stopped :: bool
  carrier_on :: bool
  work_pending :: "nat \<Rightarrow> bool"
  mask_irq_h2c :: u32
  mask_irq_c2h :: u32
  h2c_irq_bitmask :: u32
  c2h_irq_bitmask :: u32
  irq_count :: u32
  kevents :: "kernel_event list"

datatype netdev_tx = NETDEV_TX_OK | NETDEV_TX_BUSY

text \<open>
  What transmission takes from outside: the build, the kernel's traffic-class map, the stack's old
  content, and the kernel functions that may fail.
\<close>

record xmit_env =
  build_rpi :: bool
  env_num_tc :: nat
  env_prio_tc_map :: "u8 \<Rightarrow> u8"
  env_stack :: timestamps
  skb_padto :: "sk_buff \<Rightarrow> u32 \<Rightarrow> sk_buff option"
  pskb_expand_head :: "sk_buff \<Rightarrow> nat \<Rightarrow> sk_buff option"
  dma_map_single :: "sk_buff \<Rightarrow> u64 option"

definition event :: "kernel_event \<Rightarrow> xnet \<Rightarrow> xnet" where
  "event e x = x\<lparr>kevents := kevents x @ [e]\<rparr>"

definition netif_stop_subqueue :: "u16 \<Rightarrow> xnet \<Rightarrow> xnet" where
  "netif_stop_subqueue q x = x\<lparr>subq_stopped := (subq_stopped x)(q := True)\<rparr>"

definition netif_wake_subqueue :: "u16 \<Rightarrow> xnet \<Rightarrow> xnet" where
  "netif_wake_subqueue q x = x\<lparr>subq_stopped := (subq_stopped x)(q := False)\<rparr>"

definition schedule_work :: "nat \<Rightarrow> xnet \<Rightarrow> xnet" where
  "schedule_work i x = x\<lparr>work_pending := (work_pending x)(i := True)\<rparr>"

definition iowrite32 :: "u32 \<Rightarrow> io_addr \<Rightarrow> xnet \<Rightarrow> xnet" where
  "iowrite32 v a x = x\<lparr>xdev := write32 v a (xdev x)\<rparr>"

definition ioread32 :: "device \<Rightarrow> io_addr \<Rightarrow> xnet \<Rightarrow> u32 \<times> xnet" where
  "ioread32 hw a x = (let (v, d) = read32 hw a (xdev x) in (v, x\<lparr>xdev := d\<rparr>))"

subsection \<open>Metadata on the wire\<close>

text \<open>The layout of \<open>struct tx_metadata\<close>: big-endian, the 29-bit tick above the 3-bit priority.\<close>

definition be_bytes :: "nat \<Rightarrow> u64 \<Rightarrow> u8 list" where
  "be_bytes n w = map (\<lambda>i. ucast (drop_bit (8 * (n - 1 - i)) w)) [0..<n]"

definition encode_tick :: "tick_count \<Rightarrow> u8 list" where
  "encode_tick t = be_bytes 4 (or (push_bit 3 (ucast (tick t))) (ucast (priority t)))"

definition encode_tx_metadata :: "tx_metadata \<Rightarrow> u8 list" where
  "encode_tx_metadata md =
     encode_tick (md_from md) @ encode_tick (md_to md) @
     encode_tick (md_delay_from md) @ encode_tick (md_delay_to md) @
     be_bytes 2 (ucast (frame_length md)) @ be_bytes 2 (ucast (timestamp_id md)) @
     [fail_policy md] @ replicate 11 0"

subsection \<open>Descriptors\<close>

definition PCI_DMA_L :: "u64 \<Rightarrow> u32" where "PCI_DMA_L addr = ucast addr"
definition PCI_DMA_H :: "u64 \<Rightarrow> u32" where "PCI_DMA_H addr = ucast (drop_bit 32 addr)"

definition workaround_packet_size :: "bool \<Rightarrow> u32 \<Rightarrow> u32" where
  "workaround_packet_size rpi sz =
     (if rpi \<and> 95 \<le> sz \<and> sz \<le> 99 then sz + WORKAROUND_PAD else sz)"

definition desc_control_word :: u32 where
  "desc_control_word = or (and DESC_MAGIC (not 0xFF)) (or (or 1 0x10) 2)"

definition tx_desc_set :: "xdma_desc \<Rightarrow> u64 \<Rightarrow> u32 \<Rightarrow> xdma_desc" where
  "tx_desc_set desc addr len = desc\<lparr>desc_control := desc_control_word,
     src_addr_lo := PCI_DMA_L addr, src_addr_hi := PCI_DMA_H addr, desc_bytes := len\<rparr>"

definition rx_desc_set :: "xdma_desc \<Rightarrow> u64 \<Rightarrow> u32 \<Rightarrow> xdma_desc" where
  "rx_desc_set desc addr len = desc\<lparr>desc_control := desc_control_word,
     dst_addr_lo := PCI_DMA_L addr, dst_addr_hi := PCI_DMA_H addr, desc_bytes := len\<rparr>"

subsection \<open>Open and close\<close>

definition xdma_netdev_open :: "device \<Rightarrow> xnet \<Rightarrow> int \<times> xnet" where
  "xdma_netdev_open hw x =
     (let x = x\<lparr>carrier_on := True, queue_stopped := False\<rparr>;
          x = fold (\<lambda>i x. x\<lparr>subq_stopped := (subq_stopped x)(of_nat i := False)\<rparr>) [0..<TX_QUEUE_COUNT] x;
          x = x\<lparr>rx_desc := (rx_desc x)\<lparr>src_addr_lo := PCI_DMA_L (res_dma_addr x),
                                       src_addr_hi := PCI_DMA_H (res_dma_addr x)\<rparr>\<rparr>;
          x = x\<lparr>rx_desc := rx_desc_set (rx_desc x) (rx_dma_addr x) (of_nat XDMA_BUFFER_SIZE)\<rparr>;
          (_, x) = ioread32 hw RxStatusRc x;
          x = iowrite32 (PCI_DMA_L (rx_bus_addr x)) RxFirstDescLo x;
          x = iowrite32 (PCI_DMA_H (rx_bus_addr x)) RxFirstDescHi x;
          x = iowrite32 DMA_ENGINE_START RxControl x
      in (0, x))"

definition xdma_netdev_close :: "xnet \<Rightarrow> int \<times> xnet" where
  "xdma_netdev_close x =
     (let x = iowrite32 DMA_ENGINE_STOP RxControl x;
          x = x\<lparr>queue_stopped := True\<rparr>;
          x = fold netif_stop_subqueue (map of_nat [0..<TX_QUEUE_COUNT]) x;
          x = x\<lparr>carrier_on := False\<rparr>
      in (0, x))"

subsection \<open>Transmission\<close>

abbreviation LOWER_29_BITS :: u64 where "LOWER_29_BITS \<equiv> 0x1FFFFFFF"

text \<open>The full clock value of a 29-bit tick, relative to the clock read at transmission.\<close>

definition tick_to_sysclock :: "sysclock_t \<Rightarrow> u64 \<Rightarrow> sysclock_t" where
  "tick_to_sysclock sys_count tk =
     (let sys_count_lower = and sys_count LOWER_29_BITS;
          sys_count_upper = and sys_count (not LOWER_29_BITS);
          v = or sys_count_upper tk
      in if tk < sys_count_lower \<and> TX_WORK_OVERFLOW_MARGIN < sys_count_lower - tk
         then v + 0x20000000 else v)"

text \<open>Claiming a timestamp slot for the frame.\<close>

definition xmit_timestamp :: "sysclock_t \<Rightarrow> tx_metadata \<Rightarrow> sk_buff \<Rightarrow> xnet \<Rightarrow> (sk_buff \<times> xnet) res" where
  "xmit_timestamp sys_count md skb x =
     (let p = priv (xdev x); i = unat (timestamp_id md) in
      if \<not> skbtx_hw_tstamp skb then Inr (skb, x)
      else if tx_type_on p \<and> \<not> bit (tx_state p) i then
        let skb = skb\<lparr>skbtx_in_progress := True\<rparr>;
            x = event (GetSkb (skb_id skb)) x;
            to_value = (if fail_policy md = 1 then tick (md_delay_to md) else tick (md_to md))
        in
        rbind (wr (tx_work_skb p) i (Some (skb_id skb))) (\<lambda>skbs.
        rbind (wr (tx_work_start_after p) i (tick_to_sysclock sys_count (ucast (tick (md_from md))))) (\<lambda>sa.
        rbind (wr (tx_work_wait_until p) i (tick_to_sysclock sys_count (ucast to_value))) (\<lambda>wu.
        Inr (skb, schedule_work i (x\<lparr>xdev := (xdev x)\<lparr>priv := p\<lparr>tx_state := set_bit i (tx_state p),
          tx_work_skb := skbs, tx_work_start_after := sa, tx_work_wait_until := wu\<rparr>\<rparr>\<rparr>)))))
      else Inr (skb, x))"

text \<open>Mapping the frame, claiming a timestamp, and starting the DMA engine.\<close>

definition xmit_dma ::
  "xmit_env \<Rightarrow> sysclock_t \<Rightarrow> tx_metadata \<Rightarrow> sk_buff \<Rightarrow> xnet \<Rightarrow> (netdev_tx \<times> sk_buff \<times> xnet) res" where
  "xmit_dma env sys_count md skb x =
     (case dma_map_single env skb of
        None \<Rightarrow> Inr (NETDEV_TX_BUSY, skb, netif_wake_subqueue (skb_queue skb) x)
      | Some dma_addr \<Rightarrow>
        rbind (xmit_timestamp sys_count md skb x) (\<lambda>(skb, x).
        let x = x\<lparr>tx_dma_addr := dma_addr, tx_skb := Some skb,
                  tx_desc := tx_desc_set (tx_desc x) dma_addr (skb_len skb)\<rparr>;
            x = iowrite32 (PCI_DMA_L (tx_bus_addr x)) (Bar 1 DESC_REG_LO) x;
            x = iowrite32 (PCI_DMA_H (tx_bus_addr x)) (Bar 1 DESC_REG_HI) x;
            x = iowrite32 0 (Bar 1 (DESC_REG_HI + 4)) x;
            x = iowrite32 DMA_ENGINE_START TxControl x
        in Inr (NETDEV_TX_OK, skb, x)))"

text \<open>Pushing the metadata in front of the frame and filling it in.\<close>

definition xmit_frame ::
  "device \<Rightarrow> xmit_env \<Rightarrow> u16 \<Rightarrow> sk_buff \<Rightarrow> xnet \<Rightarrow> (netdev_tx \<times> sk_buff \<times> xnet) res" where
  "xmit_frame hw env frame_len skb x =
     (let frame = skb_mem skb;
          md = \<lparr>md_from = zero_tick, md_to = zero_tick, md_delay_from = zero_tick,
                md_delay_to = zero_tick, frame_length = frame_len, timestamp_id = 0, fail_policy = 0\<rparr>;
          (sys_count, d) = alinx_get_sys_clock hw (xdev x);
          x = x\<lparr>xdev := d\<rparr>
      in
      rbind (alinx_sysclock_to_timestamp sys_count (xdev x)) (\<lambda>now.
      rbind (tsn_fill_metadata hw (env_num_tc env) (env_prio_tc_map env) (env_stack env) now frame md (xdev x))
        (\<lambda>(ok, md, d).
      let x = x\<lparr>xdev := d\<rparr>;
          skb = skb\<lparr>skb_len := skb_len skb + of_nat TX_METADATA_SIZE,
                    skb_mem := encode_tx_metadata md @ frame\<rparr>
      in if \<not> ok then Inr (NETDEV_TX_BUSY, skb, netif_wake_subqueue (skb_queue skb) x)
         else xmit_dma env sys_count md skb x)))"

definition xdma_netdev_start_xmit ::
  "device \<Rightarrow> xmit_env \<Rightarrow> sk_buff \<Rightarrow> xnet \<Rightarrow> (netdev_tx \<times> sk_buff \<times> xnet) res" where
  "xdma_netdev_start_xmit hw env skb x =
     (let q = skb_queue skb;
          x = netif_stop_subqueue q x;
          skb = skb\<lparr>skb_len := max ETH_ZLEN (skb_len skb)\<rparr>;
          frame_len = ucast (skb_len skb);
          skb = skb\<lparr>skb_len := workaround_packet_size (build_rpi env) (skb_len skb)\<rparr>;
          drop = (\<lambda>skb. Inr (NETDEV_TX_OK, skb, event (FreeSkb (skb_id skb)) (netif_wake_subqueue q x)))
      in case skb_padto env skb (skb_len skb) of
        None \<Rightarrow> drop skb
      | Some skb \<Rightarrow>
        if XDMA_BUFFER_SIZE < unat (skb_len skb) then drop skb
        else case pskb_expand_head env skb TX_METADATA_SIZE of
          None \<Rightarrow> drop skb
        | Some skb \<Rightarrow> xmit_frame hw env frame_len skb x)"

definition xdma_select_queue :: "sk_buff \<Rightarrow> u16" where
  "xdma_select_queue skb = 0"

subsection \<open>Control entry points\<close>

datatype tc_setup =
    TC_SETUP_QDISC_MQPRIO tc_mqprio_qopt_offload
  | TC_SETUP_QDISC_CBS tc_cbs_qopt_offload
  | TC_SETUP_QDISC_TAPRIO tc_taprio_qopt_offload
  | TC_SETUP_BLOCK
  | TC_SETUP_OTHER

definition xdma_setup_tc_block_cb :: int where
  "xdma_setup_tc_block_cb = - EOPNOTSUPP"

text \<open>\<open>block_setup\<close> is the result of the kernel's \<open>flow_block_cb_setup_simple\<close>.\<close>

definition xdma_netdev_setup_tc ::
  "'n net_api \<Rightarrow> int \<Rightarrow> tc_setup \<Rightarrow> 'n \<times> xdma_dev \<Rightarrow> (int \<times> 'n \<times> xdma_dev) res" where
  "xdma_netdev_setup_tc api block_setup type = (\<lambda>(ndev, d).
     case type of
       TC_SETUP_QDISC_MQPRIO offload \<Rightarrow>
         rbind (tsn_set_mqprio api offload ndev) (\<lambda>(ret, ndev). Inr (ret, ndev, d))
     | TC_SETUP_QDISC_CBS offload \<Rightarrow>
         rbind (tsn_set_qav offload (tsn_config d)) (\<lambda>(ret, c). Inr (ret, ndev, d\<lparr>tsn_config := c\<rparr>))
     | TC_SETUP_QDISC_TAPRIO offload \<Rightarrow>
         rbind (tsn_set_qbv offload (tsn_config d)) (\<lambda>(ret, c). Inr (ret, ndev, d\<lparr>tsn_config := c\<rparr>))
     | TC_SETUP_BLOCK \<Rightarrow> Inr (block_setup, ndev, d)
     | TC_SETUP_OTHER \<Rightarrow> Inr (- ENOTSUPP, ndev, d))"

text \<open>The user's memory: what a copy to it does, and what a copy from it yields.\<close>

definition xdma_get_ts_config :: "(hwtstamp_config \<Rightarrow> bool) \<Rightarrow> xdma_dev \<Rightarrow> int \<times> hwtstamp_config option" where
  "xdma_get_ts_config copy_to_user d =
     (let config = tstamp_config (priv d) in
      if copy_to_user config then (0, Some config) else (- EFAULT, None))"

definition xdma_set_ts_config :: "hwtstamp_config option \<Rightarrow> xdma_dev \<Rightarrow> int \<times> xdma_dev" where
  "xdma_set_ts_config user d =
     (case user of None \<Rightarrow> (- EFAULT, d)
      | Some config \<Rightarrow> (0, d\<lparr>priv := (priv d)\<lparr>tstamp_config := config\<rparr>\<rparr>))"

datatype ioctl_cmd = SIOCGHWTSTAMP | SIOCSHWTSTAMP | SIOC_OTHER

definition xdma_netdev_ioctl ::
  "(hwtstamp_config \<Rightarrow> bool) \<Rightarrow> hwtstamp_config option \<Rightarrow> ioctl_cmd \<Rightarrow> xdma_dev \<Rightarrow>
   int \<times> hwtstamp_config option \<times> xdma_dev" where
  "xdma_netdev_ioctl copy_to_user user cmd d =
     (case cmd of
       SIOCGHWTSTAMP \<Rightarrow> (let (ret, out) = xdma_get_ts_config copy_to_user d in (ret, out, d))
     | SIOCSHWTSTAMP \<Rightarrow> (let (ret, d) = xdma_set_ts_config user d in (ret, None, d))
     | SIOC_OTHER \<Rightarrow> (- EOPNOTSUPP, None, d))"

subsection \<open>Transmit timestamps\<close>

definition set_priv :: "xdma_private \<Rightarrow> xnet \<Rightarrow> xnet" where
  "set_priv p x = x\<lparr>xdev := (xdev x)\<lparr>priv := p\<rparr>\<rparr>"

text \<open>The label \<open>return_error\<close>.\<close>

definition return_error :: "nat \<Rightarrow> xnet \<Rightarrow> xnet res" where
  "return_error tstamp_id x =
     (let p = priv (xdev x) in
      rbind (wr (tstamp_retry p) tstamp_id 0) (\<lambda>rs.
      Inr (set_priv (p\<lparr>tstamp_retry := rs, tx_state := unset_bit tstamp_id (tx_state p)\<rparr>) x)))"

text \<open>The timestamp register has not changed: wait for the window to pass, then count retries.\<close>

definition tx_tstamp_stale :: "device \<Rightarrow> nat \<Rightarrow> xnet \<Rightarrow> xnet res" where
  "tx_tstamp_stale hw tstamp_id x =
     (let (now, d) = alinx_get_sys_clock hw (xdev x);
          x = x\<lparr>xdev := d\<rparr>
      in
      rbind (rd (tx_work_wait_until (priv d)) tstamp_id) (\<lambda>wait_until.
      if now < wait_until then Inr (schedule_work tstamp_id x)
      else
        rbind (rd (tstamp_retry (priv d)) tstamp_id) (\<lambda>r.
        rbind (wr (tstamp_retry (priv d)) tstamp_id (r + 1)) (\<lambda>rs.
        let x = set_priv ((priv d)\<lparr>tstamp_retry := rs\<rparr>) x
        in if TX_TSTAMP_MAX_RETRY \<le> r + 1 then return_error tstamp_id x
           else Inr (schedule_work tstamp_id x)))))"

text \<open>A new timestamp: hand it to the kernel and let go of the buffer.\<close>

definition tx_tstamp_deliver :: "nat \<Rightarrow> nat \<Rightarrow> sysclock_t \<Rightarrow> xnet \<Rightarrow> xnet res" where
  "tx_tstamp_deliver tstamp_id skb tx_tstamp x =
     (let p = priv (xdev x) in
      rbind (wr (tstamp_retry p) tstamp_id 0) (\<lambda>rs.
      rbind (alinx_sysclock_to_txtstamp tx_tstamp (xdev x)) (\<lambda>hwtstamp.
      rbind (wr (last_tx_tstamp p) tstamp_id tx_tstamp) (\<lambda>ls.
      rbind (wr (tx_work_skb p) tstamp_id None) (\<lambda>skbs.
      let x = set_priv (p\<lparr>tstamp_retry := rs, last_tx_tstamp := ls, tx_work_skb := skbs,
                tx_state := unset_bit tstamp_id (tx_state p)\<rparr>) x
      in Inr (event (FreeSkb skb) (event (TstampTx skb hwtstamp) x)))))))"

definition do_tx_work :: "device \<Rightarrow> nat \<Rightarrow> xnet \<Rightarrow> xnet res" where
  "do_tx_work hw tstamp_id x =
     (let (now, d) = alinx_get_sys_clock hw (xdev x);
          x = x\<lparr>xdev := d\<rparr>
      in if TSN_TIMESTAMP_ID_MAX \<le> tstamp_id then Inr x
      else
      rbind (rd (tx_work_skb (priv d)) tstamp_id) (\<lambda>skb.
      case skb of
        None \<Rightarrow> return_error tstamp_id x
      | Some skb \<Rightarrow>
        rbind (rd (tx_work_start_after (priv d)) tstamp_id) (\<lambda>start_after.
        if now < start_after then Inr (schedule_work tstamp_id x)
        else
          let (tx_tstamp, d) = alinx_read_tx_timestamp hw (int tstamp_id) d;
              x = x\<lparr>xdev := d\<rparr>
          in
          rbind (rd (last_tx_tstamp (priv d)) tstamp_id) (\<lambda>lst.
          if tx_tstamp = lst then tx_tstamp_stale hw tstamp_id x
          else tx_tstamp_deliver tstamp_id skb tx_tstamp x))))"

subsection \<open>The DMA interrupt\<close>

definition filter_rx_timestamp :: "int \<Rightarrow> u8 list \<Rightarrow> bool res" where
  "filter_rx_timestamp flt payload =
     (if flt = 0 then Inr False
      else if flt = 1 then Inr True
      else
        rbind (be16 payload 12) (\<lambda>h_proto.
        rbind (if h_proto = ETH_P_8021Q then rbind (be16 payload 14) (\<lambda>pid. Inr (pid, 18))
               else Inr (h_proto, 14)) (\<lambda>(eth_type, ptp).
        if eth_type \<noteq> ETH_P_1588 then Inr False
        else
          rbind (rd payload ptp) (\<lambda>tsmt.
          let msg_type = and tsmt 0xF in
          if flt = 12 \<or> flt = 9 then Inr True
          else if flt = 13 \<or> flt = 10 then Inr (msg_type = 0)
          else if flt = 14 \<or> flt = 11 then Inr (msg_type = 1)
          else Inr False))))"

text \<open>
  What the device has written when it interrupts: the length in the result block and the receive
  buffer, whose first ten bytes are the metadata.
\<close>

record rx_dma =
  res_length :: u32
  rx_timestamp :: u64
  rx_payload :: "u8 list"

datatype irqreturn = IRQ_NONE | IRQ_HANDLED

definition restart_rx :: "xnet \<Rightarrow> xnet" where
  "restart_rx x =
     iowrite32 DMA_ENGINE_START RxControl
       (iowrite32 (c2h_irq_bitmask x) ChannelIntEnableW1S (iowrite32 DMA_ENGINE_STOP RxControl x))"

text \<open>The receive half; \<open>None\<close> is the early return with \<open>IRQ_NONE\<close>.\<close>

definition isr_c2h :: "device \<Rightarrow> (nat \<Rightarrow> bool) \<Rightarrow> rx_dma \<Rightarrow> xnet \<Rightarrow> (bool \<times> xnet) res" where
  "isr_c2h hw dev_alloc_skb rx x =
     (let (_, x) = ioread32 hw RxStatusRc x;
          len = sint (ucast ((ucast (res_length rx) :: u64) - of_nat RX_METADATA_SIZE - of_nat CRC_LEN) :: s32)
      in if len < 0 then Inr (False, restart_rx x)
      else if \<not> dev_alloc_skb (nat len) then Inr (False, restart_rx x)
      else if length (rx_payload rx) < nat len then Inl OutOfBounds
      else
        let data = take (nat len) (rx_payload rx) in
        rbind (filter_rx_timestamp (rx_filter (tstamp_config (priv (xdev x)))) data) (\<lambda>stamp.
        rbind (if stamp then rbind (alinx_get_rx_timestamp (rx_timestamp rx) (xdev x)) (\<lambda>t. Inr (Some t))
               else Inr None) (\<lambda>hwtstamp.
        Inr (True, restart_rx (event (NetifRx data hwtstamp) x)))))"

definition isr_h2c :: "device \<Rightarrow> xnet \<Rightarrow> xnet res" where
  "isr_h2c hw x =
     (let (_, x) = ioread32 hw TxStatusRc x in
      case tx_skb x of
        None \<Rightarrow> Inl NullDeref
      | Some skb \<Rightarrow>
        let q = skb_queue skb;
            x = event (DmaUnmap (tx_dma_addr x) (skb_len skb)) x;
            x = event (FreeSkb (skb_id skb)) x;
            x = x\<lparr>tx_skb := None\<rparr>;
            x = iowrite32 DMA_ENGINE_STOP TxControl x;
            x = netif_wake_subqueue q x;
            x = iowrite32 (h2c_irq_bitmask x) ChannelIntEnableW1S x
        in Inr x)"

definition xdma_isr :: "device \<Rightarrow> (nat \<Rightarrow> bool) \<Rightarrow> rx_dma \<Rightarrow> xnet \<Rightarrow> (irqreturn \<times> xnet) res" where
  "xdma_isr hw dev_alloc_skb rx x =
     (let (ch_irq, x) = ioread32 hw ChannelIntRequest x;
          x = (if ch_irq \<noteq> 0 then iowrite32 ch_irq ChannelIntEnableW1C x else x)
      in
      rbind (if and ch_irq (mask_irq_c2h x) \<noteq> 0 then isr_c2h hw dev_alloc_skb rx x else Inr (True, x)) (\<lambda>(go, x).
      if \<not> go then Inr (IRQ_NONE, x)
      else
        rbind (if and ch_irq (mask_irq_h2c x) \<noteq> 0 then isr_h2c hw x else Inr x) (\<lambda>x.
        Inr (IRQ_HANDLED, x\<lparr>irq_count := irq_count x + 1\<rparr>))))"

end
