(* ===== verification/Xdma_Tx.thy ===== *)
theory Xdma_Tx
  imports Xdma_Netdev
begin

text \<open>
  The transmit path as a whole: the metadata layout and its inverse, the reconstruction of 64-bit
  clock values from 29-bit ticks, and the ownership of socket buffers across the interleavings of
  transmission, the DMA interrupt and the timestamp workers.
\<close>

subsection \<open>Metadata\<close>

text \<open>What the device reads back from the 32 bytes.\<close>

definition be_val :: "u8 list \<Rightarrow> u64" where
  "be_val bs = foldl (\<lambda>a b. or (push_bit 8 a) (ucast b)) 0 bs"

definition decode_tick :: "u8 list \<Rightarrow> tick_count" where
  "decode_tick bs = (let w = be_val bs in \<lparr>tick = ucast (drop_bit 3 w), priority = ucast w\<rparr>)"

definition decode_tx_metadata :: "u8 list \<Rightarrow> tx_metadata" where
  "decode_tx_metadata bs = \<lparr>
     md_from = decode_tick (take 4 bs), md_to = decode_tick (take 4 (drop 4 bs)),
     md_delay_from = decode_tick (take 4 (drop 8 bs)), md_delay_to = decode_tick (take 4 (drop 12 bs)),
     frame_length = ucast (be_val (take 2 (drop 16 bs))),
     timestamp_id = ucast (be_val (take 2 (drop 18 bs))), fail_policy = bs ! 20\<rparr>"

lemma be_bytes_2: "be_bytes 2 w = [ucast (drop_bit 8 w), ucast w]"
  by (simp add: be_bytes_def upt_rec)

lemma be_bytes_4:
  "be_bytes 4 w = [ucast (drop_bit 24 w), ucast (drop_bit 16 w), ucast (drop_bit 8 w), ucast w]"
  by (simp add: be_bytes_def upt_rec)

lemma bit_byte: "bit (ucast (ucast (drop_bit k w) :: u8) :: u64) n \<longleftrightarrow> n < 8 \<and> bit (w :: u64) (k + n)"
  using bit_imp_le_length[of w "k + n"] by (auto simp: bit_ucast_iff bit_drop_bit_eq)

lemma bit_byte_0: "bit (ucast (ucast w :: u8) :: u64) n \<longleftrightarrow> n < 8 \<and> bit (w :: u64) n"
  using bit_byte[of 0 w n] by simp

lemma bit_be_val_2: "bit (be_val (be_bytes 2 w)) n \<longleftrightarrow> n < 16 \<and> bit w n"
  by (cases "n < 8"; cases "n < 16")
    (auto simp: be_val_def be_bytes_2 bit_or_iff bit_push_bit_iff bit_byte bit_byte_0 bit_drop_bit_eq)

lemma bit_be_val_4: "bit (be_val (be_bytes 4 w)) n \<longleftrightarrow> n < 32 \<and> bit w n"
  by (cases "n < 8"; cases "n < 16"; cases "n < 24"; cases "n < 32")
    (auto simp: be_val_def be_bytes_4 bit_or_iff bit_push_bit_iff bit_byte bit_byte_0 bit_drop_bit_eq)

lemma decode_tick_encode: "decode_tick (encode_tick t) = t"
proof -
  let ?w = "or (push_bit 3 (ucast (tick t))) (ucast (priority t)) :: u64"
  have "ucast (drop_bit 3 (be_val (be_bytes 4 ?w))) = tick t"
    by (rule bit_word_eqI) (auto simp: bit_simps bit_be_val_4 dest: bit_imp_le_length)
  moreover have "ucast (be_val (be_bytes 4 ?w)) = priority t"
    by (rule bit_word_eqI) (auto simp: bit_simps bit_be_val_4 dest: bit_imp_le_length)
  ultimately show ?thesis by (simp add: decode_tick_def encode_tick_def Let_def)
qed

lemma decode_u16: "ucast (be_val (be_bytes 2 (ucast (w :: u16)))) = w"
  by (rule bit_word_eqI) (auto simp: bit_simps bit_be_val_2 dest: bit_imp_le_length)

lemma length_encode_tick [simp]: "length (encode_tick t) = 4"
  by (simp add: encode_tick_def be_bytes_4)

lemma length_be_bytes [simp]: "length (be_bytes n w) = n"
  by (simp add: be_bytes_def)

lemma decode_encode: "decode_tx_metadata (encode_tx_metadata md @ rest) = md"
  by (simp add: decode_tx_metadata_def encode_tx_metadata_def decode_tick_encode decode_u16 nth_append)

lemma length_encode: "length (encode_tx_metadata md) = 32"
  by (simp add: encode_tx_metadata_def)

subsection \<open>29-bit ticks\<close>

lemma mask29: "(LOWER_29_BITS :: u64) = mask 29"
  by (simp add: mask_eq_exp_minus_1)

lemma mod_window:
  fixes a b M :: int
  assumes "0 < M" "a \<le> b" "b + 100 < a + M"
  shows "(b mod M < a mod M \<longrightarrow> 100 < a mod M - b mod M) \<and>
     b = a - a mod M + b mod M + (if b mod M < a mod M then M else 0)"
proof -
  let ?q = "b div M - a div M"
  have r: "0 \<le> a mod M" "a mod M < M" "0 \<le> b mod M" "b mod M < M" using assms(1) by simp_all
  have e: "b - a = M * ?q + (b mod M - a mod M)"
    using div_mult_mod_eq[of b M] div_mult_mod_eq[of a M] by (simp add: algebra_simps)
  have "?q < 2"
  proof (rule ccontr)
    assume "\<not> ?q < 2"
    then have "M * 2 \<le> M * ?q" using assms(1) by (intro mult_left_mono) simp_all
    then show False using e r assms(3) by linarith
  qed
  moreover have "- 1 < ?q"
  proof (rule ccontr)
    assume "\<not> - 1 < ?q"
    then have "M * ?q \<le> M * (- 1)" using assms(1) by (intro mult_left_mono) simp_all
    then show False using e r assms(2) by linarith
  qed
  ultimately consider "?q = 0" | "?q = 1" by linarith
  then show ?thesis using e r assms by cases auto
qed

lemma tick_to_sysclock_recovers:
  assumes "uint sys \<le> uint t" "uint t + 100 < uint sys + 2 ^ 29"
  shows "tick_to_sysclock sys (ucast (ucast t :: 29 word)) = t"
proof -
  let ?k = "ucast (ucast t :: 29 word) :: u64"
  let ?lo = "and sys LOWER_29_BITS" and ?up = "and sys (not LOWER_29_BITS)"
  have k: "?k = take_bit 29 t" by (rule bit_word_eqI) (auto simp: bit_simps dest: bit_imp_le_length)
  have lo: "?lo = take_bit 29 sys" unfolding mask29 by (simp add: take_bit_eq_mask)
  have uk: "uint ?k = uint t mod 2 ^ 29" unfolding k unfolding unsigned_take_bit_eq by (rule take_bit_eq_mod)
  have ulo: "uint ?lo = uint sys mod 2 ^ 29" unfolding lo unfolding unsigned_take_bit_eq by (rule take_bit_eq_mod)
  have "and ?up ?k = 0" unfolding k mask29 by (rule bit_word_eqI) (auto simp: bit_simps)
  then have v: "or ?up ?k = ?up + ?k" by (simp add: disjunctive_add_eq_or)
  have "and ?up ?lo = 0" by (rule bit_word_eqI) (auto simp: bit_simps)
  moreover have "or ?up ?lo = sys" by (rule bit_word_eqI) (auto simp: bit_simps)
  ultimately have up: "?up = sys - ?lo" by (metis add_diff_cancel_right' disjunctive_add_eq_or)
  have d: "uint ?k < uint ?lo \<longrightarrow> 100 < uint ?lo - uint ?k"
    and t: "uint t = uint sys - uint ?lo + uint ?k + (if uint ?k < uint ?lo then 2 ^ 29 else 0)"
    using mod_window[of "2 ^ 29" "uint sys" "uint t"] assms unfolding uk ulo by auto
  have "uint ?k < uint ?lo \<Longrightarrow> uint (?lo - ?k) = uint ?lo - uint ?k"
    by (simp add: uint_sub_lem[THEN iffD1])
  then have cond: "(?k < ?lo \<and> TX_WORK_OVERFLOW_MARGIN < ?lo - ?k) = (uint ?k < uint ?lo)"
    using d by (auto simp: word_less_def)
  have "tick_to_sysclock sys ?k = sys - ?lo + ?k + (if uint ?k < uint ?lo then 0x20000000 else 0)"
    unfolding tick_to_sysclock_def Let_def cond v unfolding up by simp
  also have "uint \<dots> = (uint sys - uint ?lo + uint ?k + (if uint ?k < uint ?lo then 2 ^ 29 else 0)) mod 2 ^ 64"
    by (simp add: uint_word_ariths mod_simps)
  also have "\<dots> = uint t mod 2 ^ 64" by (simp only: t)
  also have "\<dots> = uint t" using uint_lt2p[of t] by simp
  finally show ?thesis by (simp only: word_uint_eq_iff)
qed

subsection \<open>What transmission keeps\<close>

text \<open>The documented behaviour of the kernel functions: a buffer that is long enough is not padded.\<close>

definition env_ok :: "xmit_env \<Rightarrow> bool" where
  "env_ok env \<longleftrightarrow> (\<forall>skb. skb_padto env skb (skb_len skb) = Some skb) \<and>
     (\<forall>skb n skb'. pskb_expand_head env skb n = Some skb' \<longrightarrow> skb' = skb)"

text \<open>The driver's timestamp slots: the state word and the buffers held.\<close>

definition slot_view :: "xdma_dev \<Rightarrow> u64 \<times> nat option list" where
  "slot_view d = (tx_state (priv d), tx_work_skb (priv d))"

lemma slot_view_counters [simp]:
  "slot_view (snd (alinx_get_tx_packets hw d)) = slot_view d"
  "slot_view (snd (alinx_get_total_tx_drop_packets hw d)) = slot_view d"
  by (simp_all add: slot_view_def alinx_get_tx_packets_def alinx_get_total_tx_drop_packets_def
      alinx_get_tx_drop_packets_def alinx_get_normal_timeout_packets_def
      alinx_get_to_overflow_popped_packets_def alinx_get_to_overflow_timeout_packets_def
      read32_def Let_def)

lemma slot_view_upd [simp]:
  "slot_view (d\<lparr>tsn_config := c\<rparr>) = slot_view d" "slot_view (write32 v a d) = slot_view d"
  "slot_view (snd (read32 hw a d)) = slot_view d"
  by (simp_all add: slot_view_def)

lemma slot_view_track [simp]: "slot_view (update_buffer_track hw d) = slot_view d"
  by (simp add: update_buffer_track_def Let_def split_beta)

lemma slot_view_fill:
  "tsn_fill_metadata hw n m st now fr md d = Inr (ok, md', d') \<Longrightarrow> slot_view d' = slot_view d"
  by (erule fill_metadata_cases) simp_all

lemma slot_view_clock [simp]: "slot_view (snd (alinx_get_sys_clock hw d)) = slot_view d"
  by (simp add: slot_view_def)

text \<open>What claiming a timestamp slot does to a socket buffer's ownership.\<close>

lemma xmit_timestamp_cases:
  assumes "xmit_timestamp sys md skb x = Inr (skb', x')"
  obtains (none) "skb' = skb" "x' = x"
    | (claimed) i where "i < length (tx_work_skb (priv (xdev x)))" "\<not> bit (tx_state (priv (xdev x))) i"
      "skb' = skb\<lparr>skbtx_in_progress := True\<rparr>" "kevents x' = kevents x @ [GetSkb (skb_id skb)]"
      "slot_view (xdev x') = (set_bit i (tx_state (priv (xdev x))),
         (tx_work_skb (priv (xdev x)))[i := Some (skb_id skb)])"
      "work_pending x' = (work_pending x)(i := True)" "subq_stopped x' = subq_stopped x"
      "tx_skb x' = tx_skb x"
proof (cases "skbtx_hw_tstamp skb \<and> tx_type_on (priv (xdev x)) \<and> \<not> bit (tx_state (priv (xdev x))) (unat (timestamp_id md))")
  case False
  then show ?thesis using assms none by (auto simp: xmit_timestamp_def Let_def split: if_splits)
next
  case True
  then show ?thesis
    using assms
    by (intro claimed[of "unat (timestamp_id md)"])
      (auto simp: xmit_timestamp_def Let_def rbind_eq_Inr wr_def event_def schedule_work_def slot_view_def
        split: if_splits)
qed

lemma iowrite_sel [simp]:
  "kevents (iowrite32 v a x) = kevents x" "tx_skb (iowrite32 v a x) = tx_skb x"
  "subq_stopped (iowrite32 v a x) = subq_stopped x" "work_pending (iowrite32 v a x) = work_pending x"
  "slot_view (xdev (iowrite32 v a x)) = slot_view (xdev x)" "priv (xdev (iowrite32 v a x)) = priv (xdev x)"
  "tx_desc (iowrite32 v a x) = tx_desc x" "tx_dma_addr (iowrite32 v a x) = tx_dma_addr x"
  "io_trace (xdev (iowrite32 v a x)) = io_trace (xdev x) @ [WrReg a v]"
  by (simp_all add: iowrite32_def write32_def slot_view_def)

text \<open>The ownership of buffers as the rest of the system sees it.\<close>

record view =
  v_events :: "kernel_event list"
  v_tx_skb :: "sk_buff option"
  v_stopped :: "u16 \<Rightarrow> bool"
  v_slots :: "u64 \<times> nat option list"
  v_work :: "nat \<Rightarrow> bool"

definition view :: "xnet \<Rightarrow> view" where
  "view x = \<lparr>v_events = kevents x, v_tx_skb = tx_skb x, v_stopped = subq_stopped x,
     v_slots = slot_view (xdev x), v_work = work_pending x\<rparr>"

text \<open>The ways transmission can change it: dropped, handed back, sent, and sent with a timestamp.\<close>

inductive xmit_view :: "sk_buff \<Rightarrow> netdev_tx \<Rightarrow> view \<Rightarrow> view \<Rightarrow> bool" where
  dropped: "v' = v\<lparr>v_events := v_events v @ [FreeSkb (skb_id skb)],
      v_stopped := (v_stopped v)(skb_queue skb := False)\<rparr> \<Longrightarrow> xmit_view skb NETDEV_TX_OK v v'"
| busy: "v' = v\<lparr>v_stopped := (v_stopped v)(skb_queue skb := False)\<rparr> \<Longrightarrow> xmit_view skb NETDEV_TX_BUSY v v'"
| sent: "skb_id s = skb_id skb \<Longrightarrow> skb_queue s = skb_queue skb \<Longrightarrow>
    v' = v\<lparr>v_tx_skb := Some s, v_stopped := (v_stopped v)(skb_queue skb := True)\<rparr> \<Longrightarrow>
    xmit_view skb NETDEV_TX_OK v v'"
| stamped: "skb_id s = skb_id skb \<Longrightarrow> skb_queue s = skb_queue skb \<Longrightarrow> v_slots v = (st, ws) \<Longrightarrow>
    i < length ws \<Longrightarrow> \<not> bit st i \<Longrightarrow>
    v' = v\<lparr>v_events := v_events v @ [GetSkb (skb_id skb)], v_tx_skb := Some s,
      v_stopped := (v_stopped v)(skb_queue skb := True),
      v_slots := (set_bit i st, ws[i := Some (skb_id skb)]), v_work := (v_work v)(i := True)\<rparr> \<Longrightarrow>
    xmit_view skb NETDEV_TX_OK v v'"

lemma xmit_dma_view:
  assumes run: "xmit_dma env sys md s x = Inr (r, s', x')"
    and st: "subq_stopped x = (v_stopped v)(skb_queue skb := True)"
    and v: "v_events v = kevents x" "v_tx_skb v = tx_skb x" "v_slots v = slot_view (xdev x)"
      "v_work v = work_pending x"
    and s: "skb_id s = skb_id skb" "skb_queue s = skb_queue skb"
  shows "xmit_view skb r v (view x')"
proof (cases "dma_map_single env s")
  case None
  then have r: "r = NETDEV_TX_BUSY" "x' = netif_wake_subqueue (skb_queue skb) x"
    using run s by (simp_all add: xmit_dma_def)
  show ?thesis unfolding r
    by (rule xmit_view.busy, cases v) (use st v in \<open>simp add: view_def netif_wake_subqueue_def\<close>)
next
  case (Some addr)
  then obtain x2 where x2: "xmit_timestamp sys md s x = Inr (s', x2)" "r = NETDEV_TX_OK"
    "view x' = (view x2)\<lparr>v_tx_skb := Some s'\<rparr>"
    using run by (auto simp: xmit_dma_def rbind_eq_Inr Let_def view_def)
  from x2(1) show ?thesis
  proof (cases rule: xmit_timestamp_cases)
    case none
    show ?thesis unfolding x2(2)
      by (rule xmit_view.sent[of s']; (cases v)?) (use x2(3) none st v s in \<open>simp_all add: view_def\<close>)
  next
    case (claimed i)
    let ?st = "tx_state (priv (xdev x))" and ?ws = "tx_work_skb (priv (xdev x))"
    have eq: "view x' = v\<lparr>v_events := v_events v @ [GetSkb (skb_id skb)], v_tx_skb := Some s',
        v_stopped := (v_stopped v)(skb_queue skb := True),
        v_slots := (set_bit i ?st, ?ws[i := Some (skb_id skb)]), v_work := (v_work v)(i := True)\<rparr>"
      by (cases v) (use x2(3) claimed st v s in \<open>simp add: view_def\<close>)
    show ?thesis unfolding x2(2)
      by (rule xmit_view.stamped[of s' skb v ?st ?ws i])
        (use eq claimed v s in \<open>simp_all add: slot_view_def\<close>)
  qed
qed

lemma xmit_frame_view:
  assumes run: "xmit_frame hw env n s x = Inr (r, s', x')"
    and st: "subq_stopped x = (v_stopped v)(skb_queue skb := True)"
    and v: "v_events v = kevents x" "v_tx_skb v = tx_skb x" "v_slots v = slot_view (xdev x)"
      "v_work v = work_pending x"
    and s: "skb_id s = skb_id skb" "skb_queue s = skb_queue skb"
  shows "xmit_view skb r v (view x')"
proof -
  let ?c = "alinx_get_sys_clock hw (xdev x)"
  let ?md = "\<lparr>md_from = zero_tick, md_to = zero_tick, md_delay_from = zero_tick,
      md_delay_to = zero_tick, frame_length = n, timestamp_id = 0, fail_policy = 0\<rparr>"
  obtain now ok md d where now: "alinx_sysclock_to_timestamp (fst ?c) (snd ?c) = Inr now"
    and fill: "tsn_fill_metadata hw (env_num_tc env) (env_prio_tc_map env) (env_stack env)
        now (skb_mem s) ?md (snd ?c) = Inr (ok, md, d)"
    using run by (auto simp: xmit_frame_def Let_def split_beta rbind_eq_Inr)
  have rest: "(if \<not> ok then Inr (NETDEV_TX_BUSY, s\<lparr>skb_len := skb_len s + 32,
          skb_mem := encode_tx_metadata md @ skb_mem s\<rparr>, netif_wake_subqueue (skb_queue s) (x\<lparr>xdev := d\<rparr>))
        else xmit_dma env (fst ?c) md (s\<lparr>skb_len := skb_len s + 32,
          skb_mem := encode_tx_metadata md @ skb_mem s\<rparr>) (x\<lparr>xdev := d\<rparr>)) = Inr (r, s', x')"
    using run by (cases ok) (simp_all add: xmit_frame_def Let_def split_beta now fill)
  have sv: "slot_view d = slot_view (xdev x)" using slot_view_fill[OF fill] by simp
  show ?thesis
  proof (cases ok)
    case False
    then have r: "r = NETDEV_TX_BUSY" "x' = netif_wake_subqueue (skb_queue skb) (x\<lparr>xdev := d\<rparr>)"
      using rest s by simp_all
    show ?thesis unfolding r
      by (rule xmit_view.busy, cases v) (use st v sv in \<open>simp add: view_def netif_wake_subqueue_def\<close>)
  next
    case True
    then have "xmit_dma env (fst ?c) md (s\<lparr>skb_len := skb_len s + 32,
          skb_mem := encode_tx_metadata md @ skb_mem s\<rparr>) (x\<lparr>xdev := d\<rparr>) = Inr (r, s', x')"
      using rest by simp
    then show ?thesis by (rule xmit_dma_view) (use st v sv s in simp_all)
  qed
qed

lemma start_xmit_view:
  assumes run: "xdma_netdev_start_xmit hw env skb x = Inr (r, skb', x')" and env: "env_ok env"
  shows "xmit_view skb r (view x) (view x')"
proof -
  let ?len = "workaround_packet_size (build_rpi env) (max ETH_ZLEN (skb_len skb))"
  let ?s = "skb\<lparr>skb_len := ?len\<rparr>" and ?q = "skb_queue skb"
  let ?x = "netif_stop_subqueue ?q x"
  have "skb_padto env ?s (skb_len ?s) = Some ?s" using env unfolding env_ok_def by blast
  then have pad: "skb_padto env ?s ?len = Some ?s" by simp
  show ?thesis
  proof (cases "XDMA_BUFFER_SIZE < unat ?len \<or> pskb_expand_head env ?s TX_METADATA_SIZE = None")
    case True
    then have r: "r = NETDEV_TX_OK" "x' = event (FreeSkb (skb_id skb)) (netif_wake_subqueue ?q ?x)"
      using run pad by (cases "XDMA_BUFFER_SIZE < unat ?len"; simp add: xdma_netdev_start_xmit_def Let_def)+
    show ?thesis unfolding r
      by (rule xmit_view.dropped) (simp add: view_def event_def netif_wake_subqueue_def netif_stop_subqueue_def)
  next
    case False
    then have exp: "pskb_expand_head env ?s TX_METADATA_SIZE = Some ?s" using env by (auto simp: env_ok_def)
    have "xmit_frame hw env (ucast (max ETH_ZLEN (skb_len skb))) ?s ?x = Inr (r, skb', x')"
      using run pad exp False by (simp add: xdma_netdev_start_xmit_def Let_def)
    then show ?thesis
      by (rule xmit_frame_view) (simp_all add: view_def netif_stop_subqueue_def)
  qed
qed

subsection \<open>What the workers and the interrupt change\<close>

inductive work_view :: "nat \<Rightarrow> view \<Rightarrow> view \<Rightarrow> bool" where
  retry: "v' = v\<lparr>v_work := (v_work v)(i := True)\<rparr> \<Longrightarrow> work_view i v v'"
| gave_up: "v_slots v = (st, ws) \<Longrightarrow> v' = v\<lparr>v_slots := (unset_bit i st, ws)\<rparr> \<Longrightarrow> work_view i v v'"
| delivered: "v_slots v = (st, ws) \<Longrightarrow> i < length ws \<Longrightarrow> ws ! i = Some k \<Longrightarrow>
    v' = v\<lparr>v_events := v_events v @ [TstampTx k t, FreeSkb k],
      v_slots := (unset_bit i st, ws[i := None])\<rparr> \<Longrightarrow> work_view i v v'"

lemma read_pair_sel [simp]: "priv (snd (read_pair hw a b d)) = priv d"
  by (simp add: read_pair_def Let_def split_beta)

lemma read_tx_timestamp_sel [simp]: "priv (snd (alinx_read_tx_timestamp hw i d)) = priv d"
  by (simp add: alinx_read_tx_timestamp_def)

lemma return_error_view:
  assumes "return_error i x = Inr x'"
  shows "work_view i (view x) (view x')"
proof -
  have "view x' = (view x)\<lparr>v_slots := (unset_bit i (tx_state (priv (xdev x))), tx_work_skb (priv (xdev x)))\<rparr>"
    using assms by (auto simp: return_error_def Let_def rbind_eq_Inr set_priv_def view_def slot_view_def)
  then show ?thesis by (rule work_view.gave_up[rotated]) (simp add: view_def slot_view_def)
qed

lemma view_eqI:
  "kevents y = kevents x \<Longrightarrow> tx_skb y = tx_skb x \<Longrightarrow> subq_stopped y = subq_stopped x \<Longrightarrow>
   slot_view (xdev y) = slot_view (xdev x) \<Longrightarrow> work_pending y = work_pending x \<Longrightarrow> view y = view x"
  by (simp add: view_def)

lemma work_retry_view: "view y = view x \<Longrightarrow> work_view i (view x) (view (schedule_work i y))"
  by (rule work_view.retry) (simp add: view_def schedule_work_def)

lemma stale_view:
  assumes "tx_tstamp_stale hw i x = Inr x'"
  shows "work_view i (view x) (view x')"
proof -
  let ?d = "snd (alinx_get_sys_clock hw (xdev x))"
  let ?x = "x\<lparr>xdev := ?d\<rparr>"
  have v: "view ?x = view x" by (rule view_eqI) simp_all
  have vp: "view (set_priv ((priv (xdev x))\<lparr>tstamp_retry := rs\<rparr>) ?x) = view x" for rs
    by (rule view_eqI) (simp_all add: set_priv_def slot_view_def)
  obtain w where w: "rd (tx_work_wait_until (priv ?d)) i = Inr w"
    using assms by (auto simp: tx_tstamp_stale_def Let_def split_beta rbind_eq_Inr)
  show ?thesis
  proof (cases "fst (alinx_get_sys_clock hw (xdev x)) < w")
    case True
    then have "x' = schedule_work i ?x" using assms w by (simp add: tx_tstamp_stale_def Let_def split_beta)
    then show ?thesis using work_retry_view[OF v] by simp
  next
    case False
    then obtain r rs where "(if TX_TSTAMP_MAX_RETRY \<le> r + 1 then return_error i (set_priv ((priv (xdev x))\<lparr>tstamp_retry := rs\<rparr>) ?x)
        else Inr (schedule_work i (set_priv ((priv (xdev x))\<lparr>tstamp_retry := rs\<rparr>) ?x))) = Inr x'"
      using assms w by (auto simp: tx_tstamp_stale_def Let_def split_beta rbind_eq_Inr)
    then show ?thesis
      using return_error_view[of i "set_priv ((priv (xdev x))\<lparr>tstamp_retry := rs\<rparr>) ?x" x']
        work_retry_view[OF vp, of i rs] vp[of rs] by (auto split: if_splits)
  qed
qed

lemma deliver_view:
  assumes "tx_tstamp_deliver i k t x = Inr x'" "i < length (tx_work_skb (priv (xdev x)))"
    and "tx_work_skb (priv (xdev x)) ! i = Some k"
  shows "work_view i (view x) (view x')"
proof -
  let ?p = "priv (xdev x)"
  have "\<exists>s. view x' = (view x)\<lparr>v_events := v_events (view x) @ [TstampTx k s, FreeSkb k],
      v_slots := (unset_bit i (tx_state ?p), (tx_work_skb ?p)[i := None])\<rparr>"
    using assms
    by (auto simp: tx_tstamp_deliver_def Let_def rbind_eq_Inr set_priv_def view_def slot_view_def event_def)
  then obtain s where "view x' = (view x)\<lparr>v_events := v_events (view x) @ [TstampTx k s, FreeSkb k],
      v_slots := (unset_bit i (tx_state ?p), (tx_work_skb ?p)[i := None])\<rparr>" ..
  then show ?thesis
    using assms by (intro work_view.delivered[of _ "tx_state ?p" "tx_work_skb ?p" i k _ s])
      (simp_all add: view_def slot_view_def)
qed

lemma do_tx_work_view:
  assumes run: "do_tx_work hw i x = Inr x'" and i: "i < TSN_TIMESTAMP_ID_MAX"
  shows "work_view i (view x) (view x')"
proof -
  let ?c = "alinx_get_sys_clock hw (xdev x)"
  let ?x = "x\<lparr>xdev := snd ?c\<rparr>" and ?r = "alinx_read_tx_timestamp hw (int i) (snd ?c)"
  let ?y = "x\<lparr>xdev := snd ?r\<rparr>"
  have v: "view ?x = view x" "view ?y = view x"
    by (rule view_eqI; simp add: slot_view_def)+
  obtain o' where o': "rd (tx_work_skb (priv (snd ?c))) i = Inr o'"
    using run i by (auto simp: do_tx_work_def Let_def split_beta rbind_eq_Inr)
  show ?thesis
  proof (cases o')
    case None
    then have "return_error i ?x = Inr x'" using run i o' by (simp add: do_tx_work_def Let_def split_beta)
    then show ?thesis using return_error_view v by metis
  next
    case (Some k)
    then have k: "i < length (tx_work_skb (priv (xdev x)))" "tx_work_skb (priv (xdev x)) ! i = Some k"
      using o' by (auto simp: rd_def split: if_splits)
    obtain sa where sa: "rd (tx_work_start_after (priv (snd ?c))) i = Inr sa"
      using run i o' Some by (auto simp: do_tx_work_def Let_def split_beta rbind_eq_Inr)
    show ?thesis
    proof (cases "fst ?c < sa")
      case True
      then have "x' = schedule_work i ?x" using run i o' Some sa by (simp add: do_tx_work_def Let_def split_beta)
      then show ?thesis using work_retry_view[OF v(1)] by simp
    next
      case False
      then obtain l where "(if fst ?r = l then tx_tstamp_stale hw i ?y else tx_tstamp_deliver i k (fst ?r) ?y) = Inr x'"
        using run i o' Some sa by (auto simp: do_tx_work_def Let_def split_beta rbind_eq_Inr)
      then have "tx_tstamp_stale hw i ?y = Inr x' \<or> tx_tstamp_deliver i k (fst ?r) ?y = Inr x'"
        by (simp split: if_splits)
      then show ?thesis using stale_view[of hw i ?y x'] deliver_view[of i k _ ?y x'] k v(2) by auto
    qed
  qed
qed

inductive isr_view :: "view \<Rightarrow> view \<Rightarrow> bool" where
  received: "set es \<subseteq> range (\<lambda>(a, b). NetifRx a b) \<Longrightarrow> v' = v\<lparr>v_events := v_events v @ es\<rparr> \<Longrightarrow> isr_view v v'"
| completed: "set es \<subseteq> range (\<lambda>(a, b). NetifRx a b) \<Longrightarrow> v_tx_skb v = Some s \<Longrightarrow>
    v' = v\<lparr>v_events := v_events v @ es @ [DmaUnmap addr n, FreeSkb (skb_id s)], v_tx_skb := None,
      v_stopped := (v_stopped v)(skb_queue s := False)\<rparr> \<Longrightarrow> isr_view v v'"

lemma ioread_sel [simp]:
  "kevents (snd (ioread32 hw a x)) = kevents x" "tx_skb (snd (ioread32 hw a x)) = tx_skb x"
  "subq_stopped (snd (ioread32 hw a x)) = subq_stopped x" "work_pending (snd (ioread32 hw a x)) = work_pending x"
  "slot_view (xdev (snd (ioread32 hw a x))) = slot_view (xdev x)"
  "mask_irq_h2c (snd (ioread32 hw a x)) = mask_irq_h2c x"
  by (simp_all add: ioread32_def read32_def slot_view_def Let_def)

lemma view_io [simp]: "view (iowrite32 v a x) = view x" "view (snd (ioread32 hw a x)) = view x"
  by (simp_all add: view_def)

lemma isr_c2h_view:
  assumes "isr_c2h hw al rx x = Inr (go, x')"
  shows "\<exists>es. set es \<subseteq> range (\<lambda>(a, b). NetifRx a b) \<and> view x' = (view x)\<lparr>v_events := v_events (view x) @ es\<rparr>"
proof -
  have r: "view (restart_rx y) = view y" for y by (simp add: restart_rx_def)
  have e: "\<exists>a b. view x' = view (event (NetifRx a b) (snd (ioread32 hw RxStatusRc x)))" if "go"
    using assms that by (auto simp: isr_c2h_def Let_def split_beta rbind_eq_Inr r split: if_splits) blast+
  have n: "view x' = view x" if "\<not> go"
    using assms that by (auto simp: isr_c2h_def Let_def split_beta rbind_eq_Inr r split: if_splits)
  show ?thesis
  proof (cases go)
    case True
    then obtain a b where "view x' = view (event (NetifRx a b) (snd (ioread32 hw RxStatusRc x)))" using e by blast
    then show ?thesis by (intro exI[of _ "[NetifRx a b]"]) (auto simp: view_def event_def)
  next
    case False
    then show ?thesis using n by (intro exI[of _ "[]"]) simp
  qed
qed

lemma isr_h2c_view:
  assumes "isr_h2c hw x = Inr x'"
  obtains s a n where "tx_skb x = Some s" "view x' = (view x)\<lparr>v_events := v_events (view x) @ [DmaUnmap a n, FreeSkb (skb_id s)],
     v_tx_skb := None, v_stopped := (v_stopped (view x))(skb_queue s := False)\<rparr>"
proof -
  obtain s where "tx_skb x = Some s" using assms by (cases "tx_skb x") (auto simp: isr_h2c_def Let_def split_beta)
  with assms that[of s "tx_dma_addr (snd (ioread32 hw TxStatusRc x))" "skb_len s"] show ?thesis
    by (auto simp: isr_h2c_def Let_def split_beta view_def event_def netif_wake_subqueue_def)
qed

lemma rbind_prod_eq_Inr:
  "rbind m (\<lambda>(a, b). f a b) = Inr c \<longleftrightarrow> (\<exists>a b. m = Inr (a, b) \<and> f a b = Inr c)"
  by (cases m) auto

lemma xdma_isr_view:
  assumes "xdma_isr hw al rx x = Inr (r, x')"
  shows "isr_view (view x) (view x')"
proof -
  obtain c x0 where io: "ioread32 hw ChannelIntRequest x = (c, x0)" by (cases "ioread32 hw ChannelIntRequest x")
  define y where "y = (if c \<noteq> 0 then iowrite32 c ChannelIntEnableW1C x0 else x0)"
  have v0: "view y = view x" using view_io(2)[of hw ChannelIntRequest x] io by (simp add: y_def)
  obtain go x1 where c2h: "(if and c (mask_irq_c2h y) \<noteq> 0 then isr_c2h hw al rx y else Inr (True, y)) = Inr (go, x1)"
    and rest: "(if \<not> go then Inr (IRQ_NONE, x1)
      else rbind (if and c (mask_irq_h2c x1) \<noteq> 0 then isr_h2c hw x1 else Inr x1) (\<lambda>x.
        Inr (IRQ_HANDLED, x\<lparr>irq_count := irq_count x + 1\<rparr>))) = Inr (r, x')"
    using assms unfolding xdma_isr_def Let_def io prod.case rbind_prod_eq_Inr y_def by blast
  obtain es where es: "set es \<subseteq> range (\<lambda>(a, b). NetifRx a b)" "view x1 = (view x)\<lparr>v_events := v_events (view x) @ es\<rparr>"
  proof (cases "and c (mask_irq_c2h y) \<noteq> 0")
    case True
    then show ?thesis using isr_c2h_view[of hw al rx y go x1] c2h v0 that by auto
  next
    case False
    then show ?thesis using c2h v0 that[of "[]"] by simp
  qed
  have upd: "view (x\<lparr>irq_count := n\<rparr>) = view x" for x n by (simp add: view_def)
  show ?thesis
  proof (cases "go \<and> and c (mask_irq_h2c x1) \<noteq> 0")
    case False
    then have "view x' = view x1" using rest by (auto simp: upd split: if_splits)
    then show ?thesis using isr_view.received[OF es(1)] es(2) by simp
  next
    case True
    then obtain x2 where x2: "isr_h2c hw x1 = Inr x2" "view x' = view x2" using rest by (auto simp: rbind_eq_Inr upd)
    obtain s a n where s: "tx_skb x1 = Some s" "view x2 = (view x1)\<lparr>v_events := v_events (view x1) @ [DmaUnmap a n, FreeSkb (skb_id s)],
       v_tx_skb := None, v_stopped := (v_stopped (view x1))(skb_queue s := False)\<rparr>"
      using isr_h2c_view[OF x2(1)] by blast
    have "v_tx_skb (view x1) = Some s" using s(1) by (simp add: view_def)
    then have "v_tx_skb (view x) = Some s" using es(2) by simp
    then show ?thesis
      by (rule isr_view.completed[OF es(1)]) (use x2(2) s(2) es(2) in simp)
  qed
qed

subsection \<open>Interleavings\<close>

text \<open>
  Transmission, interrupts and workers interleave, each handler running to its end.  The kernel
  calls the transmit function only on a queue that is not stopped, and with the queue that
  \<open>xdma_select_queue\<close> chose; a worker runs only when it has been scheduled.  The hardware's answers
  and the kernel's successes and failures are arbitrary at every step; a step is a handler that
  does not fault (a transmit interrupt with no transfer in progress would be a null dereference).
\<close>

inductive tx_step :: "xnet \<Rightarrow> xnet \<Rightarrow> bool" where
  Xmit_ok: "env_ok env \<Longrightarrow> skb_queue skb = xdma_select_queue skb \<Longrightarrow> \<not> subq_stopped x (skb_queue skb) \<Longrightarrow>
    xdma_netdev_start_xmit hw env skb x = Inr (NETDEV_TX_OK, skb', y) \<Longrightarrow> tx_step x (event (Submit (skb_id skb)) y)"
| Xmit_busy: "env_ok env \<Longrightarrow> skb_queue skb = xdma_select_queue skb \<Longrightarrow> \<not> subq_stopped x (skb_queue skb) \<Longrightarrow>
    xdma_netdev_start_xmit hw env skb x = Inr (NETDEV_TX_BUSY, skb', y) \<Longrightarrow> tx_step x y"
| Interrupt: "xdma_isr hw al rx x = Inr (r, y) \<Longrightarrow> tx_step x y"
| Worker: "work_pending x i \<Longrightarrow> do_tx_work hw i (x\<lparr>work_pending := (work_pending x)(i := False)\<rparr>) = Inr y \<Longrightarrow>
    tx_step x y"

text \<open>References taken and given back, in flight, and held for a timestamp.\<close>

definition taken :: "view \<Rightarrow> nat \<Rightarrow> nat" where
  "taken v k = count_list (v_events v) (Submit k) + count_list (v_events v) (GetSkb k)"

definition freed :: "view \<Rightarrow> nat \<Rightarrow> nat" where
  "freed v k = count_list (v_events v) (FreeSkb k)"

definition in_flight :: "view \<Rightarrow> nat \<Rightarrow> nat" where
  "in_flight v k = (case v_tx_skb v of None \<Rightarrow> 0 | Some s \<Rightarrow> if skb_id s = k then 1 else 0)"

definition held_in :: "u64 \<Rightarrow> nat option list \<Rightarrow> nat \<Rightarrow> nat" where
  "held_in st ws k = card {i. i < length ws \<and> bit st i \<and> ws ! i = Some k}"

definition tx_shape :: "view \<Rightarrow> bool" where
  "tx_shape v \<longleftrightarrow>
     (v_stopped v 0 \<longleftrightarrow> v_tx_skb v \<noteq> None) \<and> (\<forall>s. v_tx_skb v = Some s \<longrightarrow> skb_queue s = 0) \<and>
     length (snd (v_slots v)) = TSN_TIMESTAMP_ID_MAX \<and>
     (\<forall>i. v_work v i \<longleftrightarrow> bit (fst (v_slots v)) i) \<and>
     (\<forall>i. bit (fst (v_slots v)) i \<longrightarrow> i < TSN_TIMESTAMP_ID_MAX \<and> snd (v_slots v) ! i \<noteq> None)"

definition ledger :: "view \<Rightarrow> nat \<Rightarrow> bool" where
  "ledger v k \<longleftrightarrow> freed v k + in_flight v k + held_in (fst (v_slots v)) (snd (v_slots v)) k \<le> taken v k"

definition tx_inv :: "view \<Rightarrow> bool" where
  "tx_inv v \<longleftrightarrow> tx_shape v \<and> (\<forall>k. ledger v k)"

lemma held_claim:
  assumes "i < length ws" "\<not> bit st i" "i < 64"
  shows "held_in (set_bit i st) (ws[i := Some k]) j = held_in st ws j + (if j = k then 1 else 0)"
proof -
  let ?A = "{n. n < length ws \<and> bit st n \<and> ws ! n = Some j}"
  have "{n. n < length (ws[i := Some k]) \<and> bit (set_bit i st) n \<and> ws[i := Some k] ! n = Some j} =
      (if j = k then insert i ?A else ?A)"
    using assms by (auto simp: bit_set_bit_iff nth_list_update)
  moreover have "card (insert i ?A) = Suc (card ?A)" using assms by (intro card_insert_disjoint) simp_all
  ultimately show ?thesis unfolding held_in_def by (cases "j = k") simp_all
qed

lemma held_release:
  assumes "i < length ws" "bit st i" "ws ! i = Some k"
  shows "held_in (unset_bit i st) ws j + (if j = k then 1 else 0) = held_in st ws j"
    and "held_in (unset_bit i st) (ws[i := None]) j + (if j = k then 1 else 0) = held_in st ws j"
proof -
  let ?A = "{n. n < length ws \<and> bit st n \<and> ws ! n = Some j}"
  have 1: "{n. n < length ws \<and> bit (unset_bit i st) n \<and> ws ! n = Some j} = ?A - {i}"
    by (auto simp: bit_unset_bit_iff)
  have 2: "{n. n < length (ws[i := None]) \<and> bit (unset_bit i st) n \<and> ws[i := None] ! n = Some j} = ?A - {i}"
    by (auto simp: bit_unset_bit_iff nth_list_update)
  have c: "card (?A - {i}) + (if j = k then 1 else 0) = card ?A"
  proof (cases "j = k")
    case True
    then have "card ?A = Suc (card (?A - {i}))" using assms by (intro card.remove) simp_all
    then show ?thesis using True by simp
  next
    case False
    then have "i \<notin> ?A" using assms by simp
    then show ?thesis using False by simp
  qed
  show "held_in (unset_bit i st) ws j + (if j = k then 1 else 0) = held_in st ws j"
    using c 1 by (simp add: held_in_def)
  show "held_in (unset_bit i st) (ws[i := None]) j + (if j = k then 1 else 0) = held_in st ws j"
    using c 2 by (simp add: held_in_def)
qed

lemmas ledger_defs = ledger_def taken_def freed_def in_flight_def

lemma xmit_shape:
  assumes "tx_shape v" "xmit_view skb r v v'" "skb_queue skb = 0" "\<not> v_stopped v 0"
  shows "tx_shape v'"
  using assms(2)
proof cases
  case (stamped s st ws i)
  have "i < TSN_TIMESTAMP_ID_MAX" using assms(1) stamped by (simp add: tx_shape_def)
  then show ?thesis
    using assms(1,3) stamped by (auto simp: tx_shape_def bit_set_bit_iff nth_list_update)
qed (use assms(1,3,4) in \<open>auto simp: tx_shape_def\<close>)

lemma xmit_ledger:
  assumes "tx_shape v" "ledger v k" "xmit_view skb r v v'" "\<not> v_stopped v 0"
  shows "ledger (if r = NETDEV_TX_OK then v'\<lparr>v_events := v_events v' @ [Submit (skb_id skb)]\<rparr> else v') k"
  using assms(3)
proof cases
  case (stamped s st ws i)
  have i: "i < TSN_TIMESTAMP_ID_MAX" using assms(1) stamped by (simp add: tx_shape_def)
  have "held_in (set_bit i st) (ws[i := Some (skb_id skb)]) k = held_in st ws k + (if k = skb_id skb then 1 else 0)"
    using i stamped by (intro held_claim) simp_all
  then show ?thesis using assms(1,2,4) stamped by (simp add: tx_shape_def ledger_defs)
qed (use assms(1,2,4) in \<open>simp_all add: tx_shape_def ledger_defs\<close>)

lemma work_inv:
  assumes "tx_inv v" "v_work v i" "work_view i (v\<lparr>v_work := (v_work v)(i := False)\<rparr>) v'"
  shows "tx_inv v'"
  using assms(3)
proof cases
  case retry
  then have "v' = v" using assms(2) by (cases v) (simp add: fun_upd_idem)
  then show ?thesis using assms(1) by simp
next
  case (gave_up st ws)
  have i: "i < length ws" "bit st i" using assms(1,2) gave_up by (auto simp: tx_inv_def tx_shape_def)
  obtain n where n: "ws ! i = Some n" using assms(1) gave_up i by (auto simp: tx_inv_def tx_shape_def)
  have "ledger v' k" for k
  proof -
    have "ledger v k" using assms(1) by (simp add: tx_inv_def)
    then show ?thesis using gave_up held_release(1)[OF i n, of k] by (simp add: ledger_defs)
  qed
  moreover have "tx_shape v'"
    using assms(1) gave_up by (auto simp: tx_inv_def tx_shape_def bit_unset_bit_iff)
  ultimately show ?thesis by (simp add: tx_inv_def)
next
  case (delivered st ws n t)
  have i: "i < length ws" "bit st i" using assms(1,2) delivered by (auto simp: tx_inv_def tx_shape_def)
  have "ledger v' k" for k
  proof -
    have "ledger v k" using assms(1) by (simp add: tx_inv_def)
    then show ?thesis
      using delivered held_release(2)[OF i delivered(3), of k] by (cases "k = n") (simp_all add: ledger_defs)
  qed
  moreover have "tx_shape v'"
    using assms(1) delivered by (auto simp: tx_inv_def tx_shape_def bit_unset_bit_iff nth_list_update)
  ultimately show ?thesis by (simp add: tx_inv_def)
qed

lemma count_rx: "set es \<subseteq> range (\<lambda>(a, b). NetifRx a b) \<Longrightarrow>
    count_list es (FreeSkb k) = 0 \<and> count_list es (Submit k) = 0 \<and> count_list es (GetSkb k) = 0"
  by (auto simp: count_list_0_iff)

lemma isr_inv:
  assumes "tx_inv v" "isr_view v v'"
  shows "tx_inv v'"
proof -
  have "ledger v' k" for k
  proof -
    have "ledger v k" using assms(1) by (simp add: tx_inv_def)
    with assms(2) show ?thesis by cases (use count_rx in \<open>auto simp: ledger_defs\<close>)
  qed
  moreover have "tx_shape v'"
    using assms(2,1) by cases (auto simp: tx_inv_def tx_shape_def)
  ultimately show ?thesis by (simp add: tx_inv_def)
qed

lemma tx_step_inv:
  assumes "tx_step x y" "tx_inv (view x)"
  shows "tx_inv (view y)"
  using assms
proof cases
  case (Xmit_ok env skb hw skb' z)
  have v: "xmit_view skb NETDEV_TX_OK (view x) (view z)" by (rule start_xmit_view[OF Xmit_ok(5,2)])
  have q: "skb_queue skb = 0" "\<not> v_stopped (view x) 0"
    using Xmit_ok(3,4) by (simp_all add: xdma_select_queue_def view_def)
  have e: "view y = (view z)\<lparr>v_events := v_events (view z) @ [Submit (skb_id skb)]\<rparr>"
    using Xmit_ok(1) by (simp add: view_def event_def)
  have "ledger (view y) k" for k
    using xmit_ledger[OF _ _ v q(2), of k] assms(2) e by (simp add: tx_inv_def)
  moreover have "tx_shape (view z)" using xmit_shape[OF _ v q] assms(2) by (simp add: tx_inv_def)
  then have "tx_shape (view y)" by (simp add: e tx_shape_def)
  ultimately show ?thesis by (simp add: tx_inv_def)
next
  case (Xmit_busy env skb hw skb')
  have v: "xmit_view skb NETDEV_TX_BUSY (view x) (view y)" by (rule start_xmit_view[OF Xmit_busy(4,1)])
  have q: "skb_queue skb = 0" "\<not> v_stopped (view x) 0"
    using Xmit_busy(2,3) by (simp_all add: xdma_select_queue_def view_def)
  show ?thesis
    using xmit_ledger[OF _ _ v q(2)] xmit_shape[OF _ v q] assms(2) by (simp add: tx_inv_def)
next
  case (Interrupt hw al rx r)
  then show ?thesis using isr_inv[OF assms(2)] xdma_isr_view by blast
next
  case (Worker i hw)
  have w: "v_work (view x) i" using Worker(1) by (simp add: view_def)
  then have i: "i < TSN_TIMESTAMP_ID_MAX" using assms(2) by (auto simp: tx_inv_def tx_shape_def)
  have "view (x\<lparr>work_pending := (work_pending x)(i := False)\<rparr>) = (view x)\<lparr>v_work := (v_work (view x))(i := False)\<rparr>"
    by (simp add: view_def)
  then show ?thesis using work_inv[OF assms(2) w] do_tx_work_view[OF Worker(2) i] by simp
qed

lemma tx_steps_inv: "tx_step\<^sup>*\<^sup>* x y \<Longrightarrow> tx_inv (view x) \<Longrightarrow> tx_inv (view y)"
  by (induction rule: rtranclp_induct) (auto intro: tx_step_inv)

text \<open>The device as \<open>probe_one\<close> and \<open>xdma_netdev_open\<close> leave it.\<close>

definition tx_idle :: "xnet \<Rightarrow> bool" where
  "tx_idle x \<longleftrightarrow> kevents x = [] \<and> tx_skb x = None \<and> \<not> subq_stopped x 0 \<and> (\<forall>i. \<not> work_pending x i) \<and>
     slot_view (xdev x) = (0, replicate TSN_TIMESTAMP_ID_MAX None)"

lemma tx_idle_inv: "tx_idle x \<Longrightarrow> tx_inv (view x)"
  by (simp add: tx_idle_def tx_inv_def tx_shape_def ledger_defs held_in_def view_def)

subsection \<open>Properties\<close>

text \<open>
  The 32 bytes of metadata in front of a frame determine every field: reading them back as the
  device does, big-endian with the tick in the upper 29 bits and the queue in the lower 3, gives
  the metadata that was written, whatever the frame behind it.
\<close>

theorem tx_metadata_roundtrip:
  "length (encode_tx_metadata md) = TX_METADATA_SIZE \<and> decode_tx_metadata (encode_tx_metadata md @ frame) = md"
  by (simp add: decode_encode length_encode)

text \<open>
  A transmit time given to the hardware as 29 bits is recovered exactly by the timestamp worker
  from the clock read at transmission, across the wrap-around of the 29-bit counter, for any time
  not before that clock and less than \<open>2\<^sup>2\<^sup>9 - 100\<close> ticks (4.29 s) after it.
\<close>

theorem tick_to_sysclock_exact:
  assumes "uint sys \<le> uint t" "uint t + 100 < uint sys + 2 ^ 29"
  shows "tick_to_sysclock sys (ucast (ucast t :: 29 word)) = t"
  by (rule tick_to_sysclock_recovers[OF assms])

theorem tick_to_sysclock_exact_witness:
  "tick_to_sysclock 0x3FFFFFF0 (ucast (ucast (0x40000010 :: u64) :: 29 word)) = 0x40000010"
  by (rule tick_to_sysclock_exact) simp_all

text \<open>
  C3: in every interleaving of transmission, interrupts and timestamp workers, starting from an idle
  device: the transmit queue is stopped exactly while a frame is in flight, so the one frame the
  driver remembers is never overwritten; a timestamp slot is marked busy exactly while its worker
  is scheduled, and then a buffer is attached to it; and no buffer is released more often than it
  was taken, counting the references still needed for the frame in flight and for the timestamps
  awaited.
\<close>

theorem tx_ownership:
  assumes "tx_idle x" "tx_step\<^sup>*\<^sup>* x y"
  shows "(subq_stopped y 0 \<longleftrightarrow> tx_skb y \<noteq> None) \<and>
     (\<forall>i. work_pending y i \<longleftrightarrow> bit (tx_state (priv (xdev y))) i) \<and>
     (\<forall>i. work_pending y i \<longrightarrow> i < TSN_TIMESTAMP_ID_MAX \<and> tx_work_skb (priv (xdev y)) ! i \<noteq> None) \<and>
     (\<forall>k. freed (view y) k + in_flight (view y) k +
        held_in (tx_state (priv (xdev y))) (tx_work_skb (priv (xdev y))) k \<le> taken (view y) k)"
  using tx_steps_inv[OF assms(2) tx_idle_inv[OF assms(1)]]
  by (simp add: tx_inv_def tx_shape_def ledger_def view_def slot_view_def)

text \<open>A device with an empty schedule, idle, and a kernel whose operations succeed.\<close>

definition demo_env :: xmit_env where
  "demo_env = \<lparr>build_rpi = False, env_num_tc = 0, env_prio_tc_map = id, env_stack = zero_ts,
     skb_padto = (\<lambda>skb _. Some skb), pskb_expand_head = (\<lambda>skb _. Some skb),
     dma_map_single = (\<lambda>_. Some 0x123456789A)\<rparr>"

definition zero_desc :: xdma_desc where
  "zero_desc = \<lparr>desc_control = 0, desc_bytes = 0, src_addr_lo = 0, src_addr_hi = 0, dst_addr_lo = 0,
     dst_addr_hi = 0, next_lo = 0, next_hi = 0\<rparr>"

definition demo_net :: "xdma_dev \<Rightarrow> xnet" where
  "demo_net d = \<lparr>xdev = d, tx_desc = zero_desc, rx_desc = zero_desc, tx_bus_addr = 0x1000,
     tx_dma_addr = 0, rx_bus_addr = 0x2000, rx_dma_addr = 0x3000, res_dma_addr = 0x4000, tx_skb = None,
     subq_stopped = (\<lambda>_. False), queue_stopped = False, carrier_on = True, work_pending = (\<lambda>_. False),
     mask_irq_h2c = 1, mask_irq_c2h = 2, h2c_irq_bitmask = 1, c2h_irq_bitmask = 2, irq_count = 0,
     kevents = []\<rparr>"

definition demo_skb :: sk_buff where
  "demo_skb = \<lparr>skb_id = 7, skb_len = 60, skb_mem = demo_frame, skb_queue = 0,
     skbtx_hw_tstamp = False, skbtx_in_progress = False\<rparr>"

lemma demo_env_ok: "env_ok demo_env"
  by (auto simp: env_ok_def demo_env_def)

lemma demo_sent:
  assumes "baked_current c" "\<not> qav_enabled (qav c ! 0)" "qbv_enabled (qbv c)" "cfg_cycle (qbv c) = 1000000"
    "qbv_start (qbv c) = 0" "buffer_tracker c = \<lparr>pending_packets = 0, last_tx_count = 0\<rparr>"
    "total_available_at c = 0"
  shows "\<exists>s' x'. xdma_netdev_start_xmit (\<lambda>_ _. 0) demo_env demo_skb (demo_net (demo_dev c)) =
     Inr (NETDEV_TX_OK, s', x') \<and> tx_skb x' = Some s'"
proof -
  let ?x = "netif_stop_subqueue 0 (demo_net (demo_dev c))"
  let ?c = "alinx_get_sys_clock (\<lambda>_ _. 0) (xdev ?x)"
  have c: "fst ?c = 0" "tsn_config (snd ?c) = c" "ptp (snd ?c) = \<lparr>ticks_scale = 8, ptp_offset = 0\<rparr>"
    by (simp_all add: alinx_get_sys_clock_def read32_def Let_def join64_def demo_net_def demo_dev_def
        netif_stop_subqueue_def)
  have now: "alinx_sysclock_to_timestamp 0 (snd ?c) = Inr 0"
    using c by (simp add: alinx_sysclock_to_timestamp_def alinx_get_timestamp_def d_of_int_def d_mul_def
        d_to_u64_def trunc0_def)
  let ?md = "\<lparr>md_from = zero_tick, md_to = zero_tick, md_delay_from = zero_tick,
    md_delay_to = zero_tick, frame_length = 60, timestamp_id = 0, fail_policy = 0\<rparr>"
  obtain md' d' where f: "tsn_fill_metadata (\<lambda>_ _. 0) 0 id zero_ts 0 demo_frame ?md (snd ?c) = Inr (True, md', d')"
    using demo_accepted[OF assms c(2,3)] by blast
  have "xmit_frame (\<lambda>_ _. 0) demo_env 60 demo_skb ?x =
      xmit_dma demo_env 0 md' (demo_skb\<lparr>skb_len := 92, skb_mem := encode_tx_metadata md' @ demo_frame\<rparr>) (?x\<lparr>xdev := d'\<rparr>)"
    using now f c(1) by (simp add: xmit_frame_def Let_def split_beta demo_env_def demo_skb_def)
  moreover have "xdma_netdev_start_xmit (\<lambda>_ _. 0) demo_env demo_skb (demo_net (demo_dev c)) =
      xmit_frame (\<lambda>_ _. 0) demo_env 60 demo_skb ?x"
    by (simp add: xdma_netdev_start_xmit_def Let_def demo_env_def demo_skb_def workaround_packet_size_def)
  ultimately show ?thesis
    by (simp add: xmit_dma_def demo_env_def xmit_timestamp_def demo_skb_def Let_def)
qed

theorem tx_ownership_witness:
  "\<exists>c y. bake_qos_config (demo_config [(400000, True), (600000, False)]) = Inr c \<and>
     tx_step (demo_net (demo_dev c)) y \<and> subq_stopped y 0 \<and> in_flight (view y) 7 \<le> taken (view y) 7"
proof -
  obtain c where c: "bake_qos_config (demo_config [(400000, True), (600000, False)]) = Inr c"
    "baked_current c" "\<not> qav_enabled (qav c ! 0)" "qbv_enabled (qbv c)" "cfg_cycle (qbv c) = 1000000"
    "qbv_start (qbv c) = 0" "buffer_tracker c = \<lparr>pending_packets = 0, last_tx_count = 0\<rparr>"
    "total_available_at c = 0" by (rule demo_dev_ready)
  obtain s x where x: "xdma_netdev_start_xmit (\<lambda>_ _. 0) demo_env demo_skb (demo_net (demo_dev c)) =
     Inr (NETDEV_TX_OK, s, x)" "tx_skb x = Some s"
    using demo_sent[OF c(2-8)] by blast
  let ?y = "event (Submit (skb_id demo_skb)) x"
  have "skb_queue demo_skb = xdma_select_queue demo_skb" "\<not> subq_stopped (demo_net (demo_dev c)) (skb_queue demo_skb)"
    by (simp_all add: demo_skb_def xdma_select_queue_def demo_net_def)
  then have st: "tx_step (demo_net (demo_dev c)) ?y" by (rule tx_step.Xmit_ok[OF demo_env_ok _ _ x(1)])
  have idle: "tx_idle (demo_net (demo_dev c))"
    by (simp add: tx_idle_def demo_net_def demo_dev_def demo_priv_def slot_view_def)
  have "subq_stopped ?y 0 \<and> in_flight (view ?y) 7 \<le> taken (view ?y) 7"
    using tx_ownership[OF idle r_into_rtranclp[of tx_step, OF st]] x(2)
    by (auto simp: event_def dest: spec[of _ 7])
  then show ?thesis using c(1) st by blast
qed

end
