(* ===== verification/Sgdma_Desc.thy ===== *)
theory Sgdma_Desc
  imports Xdma_Netdev
begin

text \<open>
  Requests and descriptors of the scatter-gather DMA engine (\<open>libxdma.c\<close>).  A request cuts a scatter
  list into pieces a descriptor can carry; a transfer writes a run of pieces into the engine's ring of
  descriptors, which the hardware reads from memory.  Pointers into the ring are indices, and the
  descriptor's bus address is the ring's plus 32 bytes per descriptor.
\<close>

subsection \<open>Data\<close>

type_synonym scatterlist = "(u64 \<times> u32) list"

record sw_desc =
  sd_addr :: u64
  sd_len :: u32

text \<open>A completion record written by the hardware, without its padding.\<close>

record xdma_result =
  res_status :: u32
  res_len :: u32

record xdma_request_cb =
  rq_ep_addr :: u64
  rq_total_len :: u32
  rq_sw_desc_idx :: u32
  rq_sw_desc_cnt :: u32
  rq_sdesc :: "sw_desc list"

datatype dma_data_direction = DMA_TO_DEVICE | DMA_FROM_DEVICE

abbreviation (input) XDMA_MAX_ADJ_BLOCK_SIZE :: u32 where "XDMA_MAX_ADJ_BLOCK_SIZE \<equiv> 0x40"
abbreviation (input) XDMA_PAGE_SIZE :: u32 where "XDMA_PAGE_SIZE \<equiv> 0x1000"
abbreviation (input) XDMA_DESC_STOPPED :: u32 where "XDMA_DESC_STOPPED \<equiv> 1"
abbreviation (input) XDMA_DESC_COMPLETED :: u32 where "XDMA_DESC_COMPLETED \<equiv> 2"
abbreviation (input) XDMA_DESC_EOP :: u32 where "XDMA_DESC_EOP \<equiv> 0x10"
abbreviation (input) LS_BYTE_MASK :: u32 where "LS_BYTE_MASK \<equiv> 0xFF"

subsection \<open>Requests\<close>

text \<open>The entries of a scatter list are a chain; behind its end \<open>sg_next\<close> is a null pointer.\<close>

definition sg_at :: "scatterlist \<Rightarrow> nat \<Rightarrow> (u64 \<times> u32) res" where
  "sg_at sgl i = (if i < length sgl then Inr (sgl ! i) else Inl NullDeref)"

text \<open>
  The request and its pieces are one allocation, whose size is computed in 32 bits; \<open>cb\<close> is the size
  of the request without pieces, and a piece takes 16 bytes.
\<close>

definition xdma_request_alloc :: "u32 \<Rightarrow> bool \<Rightarrow> u32 \<Rightarrow> sw_desc list option" where
  "xdma_request_alloc cb ok sdesc_nr =
     (let size = cb + sdesc_nr * 16 in
      if ok then Some (replicate ((unat size - unat cb) div 16) \<lparr>sd_addr = 0, sd_len = 0\<rparr>) else None)"

definition extra_descs :: "u32 \<Rightarrow> scatterlist \<Rightarrow> u32 \<Rightarrow> u32 res" where
  "extra_descs bmax sgl nents =
     foldM (\<lambda>i extra. rbind (sg_at sgl i) (\<lambda>(addr, len).
       if bmax < len then (if bmax = 0 then Inl DivByZero else Inr (extra + (len + bmax - 1) div bmax))
       else Inr extra)) [0..<nat (sint nents)] 0"

text \<open>The inner loop writes a piece in every round, so that it ends at the end of the array at the latest.\<close>

function split_sg :: "u32 \<Rightarrow> u64 \<Rightarrow> u32 \<Rightarrow> nat \<Rightarrow> sw_desc list \<Rightarrow> (nat \<times> sw_desc list) res" where
  "split_sg bmax addr tlen j sdesc =
     (if tlen = 0 then Inr (j, sdesc)
      else if length sdesc \<le> j then Inl OutOfBounds
      else if bmax < tlen then split_sg bmax (addr + ucast bmax) (tlen - bmax) (Suc j) (sdesc[j := \<lparr>sd_addr = addr, sd_len = bmax\<rparr>])
      else split_sg bmax addr 0 (Suc j) (sdesc[j := \<lparr>sd_addr = addr, sd_len = tlen\<rparr>]))"
  by pat_completeness auto

termination
  by (relation "measure (\<lambda>(_, _, _, j, sdesc). length sdesc - j)") auto

declare split_sg.simps [simp del]

definition xdma_init_request :: "u32 \<Rightarrow> u32 \<Rightarrow> bool \<Rightarrow> scatterlist \<Rightarrow> u32 \<Rightarrow> u64 \<Rightarrow> xdma_request_cb option res" where
  "xdma_init_request bmax cb ok sgl nents ep_addr =
     rbind (extra_descs bmax sgl nents) (\<lambda>extra.
     let max = nents + extra in
     case xdma_request_alloc cb ok max of
       None \<Rightarrow> Inr None
     | Some sdesc \<Rightarrow>
         rbind (foldM (\<lambda>i (total_len, j, sdesc). rbind (sg_at sgl i) (\<lambda>(addr, tlen).
             rbind (split_sg bmax addr tlen j sdesc) (\<lambda>(j, sdesc). Inr (total_len + tlen, j, sdesc))))
           [0..<unat nents] (0, 0, sdesc)) (\<lambda>(total_len, j, sdesc).
         if sint max < int j then Inr None
         else Inr (Some \<lparr>rq_ep_addr = ep_addr, rq_total_len = total_len, rq_sw_desc_idx = 0,
                rq_sw_desc_cnt = of_nat j, rq_sdesc = sdesc\<rparr>)))"

subsection \<open>Descriptors\<close>

definition desc_at :: "nat \<Rightarrow> (xdma_desc \<Rightarrow> xdma_desc) \<Rightarrow> xdma_desc list \<Rightarrow> xdma_desc list res" where
  "desc_at k f ds = rbind (rd ds k) (\<lambda>d. wr ds k (f d))"

definition transfer_desc_init :: "nat \<Rightarrow> u64 \<Rightarrow> u32 \<Rightarrow> xdma_desc list \<Rightarrow> xdma_desc list res" where
  "transfer_desc_init virt bus count ds =
     rbind (foldM (\<lambda>i (desc_bus, ds).
         let desc_bus = desc_bus + 32 in
         rbind (desc_at (virt + i) (\<lambda>d. d\<lparr>next_lo := PCI_DMA_L desc_bus, next_hi := PCI_DMA_H desc_bus,
           desc_bytes := 0, desc_control := DESC_MAGIC\<rparr>) ds) (\<lambda>ds. Inr (desc_bus, ds)))
       [0..<nat (sint count - 1)] (bus, ds)) (\<lambda>(_, ds).
     desc_at (virt + nat (sint count - 1)) (\<lambda>d. d\<lparr>next_lo := 0, next_hi := 0, desc_bytes := 0, desc_control := DESC_MAGIC\<rparr>) ds)"

definition xdma_desc_link :: "xdma_desc \<Rightarrow> u64 option \<Rightarrow> xdma_desc" where
  "xdma_desc_link first second_bus =
     (let control = and (desc_control first) 0x00FFC0FF;
          first = (case second_bus of
              Some bus \<Rightarrow> first\<lparr>next_lo := PCI_DMA_L bus, next_hi := PCI_DMA_H bus\<rparr>
            | None \<Rightarrow> first\<lparr>next_lo := 0, next_hi := 0\<rparr>)
      in first\<lparr>desc_control := or control DESC_MAGIC\<rparr>)"

definition xdma_desc_adjacent :: "u32 \<Rightarrow> xdma_desc \<Rightarrow> xdma_desc" where
  "xdma_desc_adjacent next_adjacent desc =
     desc\<lparr>desc_control := or (and (desc_control desc) 0x0000F0FF) (or 0xAD4B0000 (push_bit 8 next_adjacent))\<rparr>"

text \<open>A control field with bits above the lowest byte is refused; no caller looks at the result.\<close>

definition xdma_desc_control_set :: "u32 \<Rightarrow> xdma_desc \<Rightarrow> xdma_desc" where
  "xdma_desc_control_set control_field first =
     (if and control_field (not LS_BYTE_MASK) \<noteq> 0 then first
      else first\<lparr>desc_control := or (and (desc_control first) (not LS_BYTE_MASK)) control_field\<rparr>)"

definition cleared_desc :: xdma_desc where
  "cleared_desc = \<lparr>desc_control = 0, desc_bytes = 0, src_addr_lo = 0, src_addr_hi = 0, dst_addr_lo = 0, dst_addr_hi = 0,
     next_lo = 0, next_hi = 0\<rparr>"

definition xdma_desc_done :: "nat \<Rightarrow> u32 \<Rightarrow> xdma_desc list \<Rightarrow> xdma_desc list res" where
  "xdma_desc_done virt count = foldM (\<lambda>i ds. wr ds (virt + i) cleared_desc) [0..<nat (sint count)]"

definition xdma_desc_set :: "u64 \<Rightarrow> u64 \<Rightarrow> u32 \<Rightarrow> dma_data_direction \<Rightarrow> xdma_desc \<Rightarrow> xdma_desc" where
  "xdma_desc_set rc_bus_addr ep_addr len dir desc =
     (let desc = desc\<lparr>desc_bytes := len\<rparr> in
      if dir = DMA_TO_DEVICE
      then desc\<lparr>src_addr_lo := PCI_DMA_L rc_bus_addr, src_addr_hi := PCI_DMA_H rc_bus_addr,
             dst_addr_lo := PCI_DMA_L ep_addr, dst_addr_hi := PCI_DMA_H ep_addr\<rparr>
      else desc\<lparr>src_addr_lo := PCI_DMA_L ep_addr, src_addr_hi := PCI_DMA_H ep_addr,
             dst_addr_lo := PCI_DMA_L rc_bus_addr, dst_addr_hi := PCI_DMA_H rc_bus_addr\<rparr>)"

definition xdma_get_next_adj :: "u32 \<Rightarrow> u32 \<Rightarrow> u32" where
  "xdma_get_next_adj remaining lo =
     (if remaining \<le> 1 then 0
      else let next_index = drop_bit 5 (and lo (XDMA_PAGE_SIZE - 1)) mod XDMA_MAX_ADJ_BLOCK_SIZE
           in min (XDMA_MAX_ADJ_BLOCK_SIZE - next_index - 1) (remaining - 1))"

text \<open>A count that fits an \<open>int\<close> is the same number read as an \<open>int\<close>.\<close>

lemma sint_unat: "unat (w :: u32) < 2147483648 \<Longrightarrow> sint w = int (unat w)"
  unfolding sint_uint by (subst signed_take_bit_int_eq_self) (simp_all add: uint_nat order_trans[of _ 0] del: of_nat_unat)

subsection \<open>What a request holds\<close>

text \<open>The pieces of one entry of a scatter list, and the bytes an entry or a piece stands for.\<close>

function sg_pieces :: "u32 \<Rightarrow> u64 \<Rightarrow> u32 \<Rightarrow> sw_desc list" where
  "sg_pieces bmax addr len =
     (if len = 0 \<or> bmax = 0 then []
      else if bmax < len then \<lparr>sd_addr = addr, sd_len = bmax\<rparr> # sg_pieces bmax (addr + ucast bmax) (len - bmax)
      else [\<lparr>sd_addr = addr, sd_len = len\<rparr>])"
  by pat_completeness auto

termination
  by (relation "measure (\<lambda>(_, _, len). unat len)") (auto simp: unat_minus_no_wrap word_le_nat_alt word_less_nat_alt unat_gt_0)

declare sg_pieces.simps [simp del]

definition sg_span :: "u64 \<Rightarrow> u32 \<Rightarrow> u64 list" where
  "sg_span addr len = map (\<lambda>k. addr + of_nat k) [0..<unat len]"

definition piece_span :: "sw_desc \<Rightarrow> u64 list" where
  "piece_span d = sg_span (sd_addr d) (sd_len d)"

lemma sg_span_split:
  assumes "b \<le> l"
  shows "sg_span a l = sg_span a b @ sg_span (a + ucast b) (l - b)"
proof -
  have n: "unat (l - b) = unat l - unat b" "unat b \<le> unat l"
    using assms by (simp_all add: unat_minus_no_wrap word_le_nat_alt)
  have s: "[0..<unat l] = [0..<unat b] @ map (\<lambda>k. k + unat b) [0..<unat l - unat b]"
    using n(2) upt_add_eq_append[of 0 "unat b" "unat l - unat b"] by (simp add: map_add_upt)
  show ?thesis unfolding sg_span_def n s map_append by (simp add: o_def ac_simps)
qed

lemma pieces_span: "bmax \<noteq> 0 \<Longrightarrow> concat (map piece_span (sg_pieces bmax a l)) = sg_span a l"
proof (induction bmax a l rule: sg_pieces.induct)
  case (1 bmax a l)
  show ?case
    using 1 sg_span_split[of bmax l a]
    by (subst sg_pieces.simps) (auto simp: piece_span_def[abs_def] sg_span_def[of _ 0])
qed

lemma pieces_fit: "d \<in> set (sg_pieces bmax a l) \<Longrightarrow> 0 < sd_len d \<and> sd_len d \<le> bmax"
proof (induction bmax a l rule: sg_pieces.induct)
  case (1 bmax a l)
  then show ?case by (subst (asm) (2) sg_pieces.simps) (auto split: if_splits simp: word_neq_0_conv)
qed

end
