(* ===== verification/Sgdma_Engine.thy ===== *)
theory Sgdma_Engine
  imports Sgdma_Desc
begin

text \<open>
  The scatter-gather DMA engine (\<open>libxdma.c\<close>): building a transfer in the descriptor ring, the queue of
  transfers, starting and stopping the engine, and the service routine that the interrupt worker and
  the polling thread call.  A transfer is shared between its submitter and the engine, so transfers
  live in a store and the queue holds their names.  Registers are an environment answering every read
  from the accesses before it; waking a waiter and calling a callback are recorded events.  The lock
  makes every operation atomic.
\<close>

subsection \<open>State\<close>

record module_params =
  poll_mode :: bool
  enable_st_c2h_credit :: bool
  desc_blen_max :: u32

datatype transfer_state =
    TRANSFER_STATE_NEW
  | TRANSFER_STATE_SUBMITTED
  | TRANSFER_STATE_COMPLETED
  | TRANSFER_STATE_FAILED
  | TRANSFER_STATE_ABORTED

record xdma_transfer =
  xf_desc_virt :: nat
  xf_res_bus :: u64
  xf_desc_bus :: u64
  xf_desc_adjacent :: u32
  xf_desc_num :: u32
  xf_desc_index :: u32
  xf_desc_cmpl :: u32
  xf_desc_cmpl_th :: u32
  xf_dir :: dma_data_direction
  xf_state :: transfer_state
  xf_flags :: u32
  xf_cyclic :: bool
  xf_last_in_request :: bool
  xf_len :: u32
  xf_cb :: bool

record xdma_performance_ioctl =
  perf_stopped :: bool
  perf_iterations :: u32

datatype engine_reg =
    engine_identifier | control | control_w1s | control_w1c | status | status_rc | completed_desc_count | alignments | poll_mode_wb_lo | poll_mode_wb_hi
  | interrupt_enable_mask | interrupt_enable_mask_w1s | interrupt_enable_mask_w1c | first_desc_lo | first_desc_hi | first_desc_adjacent | credits
  | channel_int_enable_w1s | channel_int_pending | credit_mode_enable_w1s | credit_mode_enable_w1c

datatype engine_op = Read_register engine_reg | Write_register u32 engine_reg

type_synonym engine_hw = "engine_op list \<Rightarrow> u32"

datatype wake = Wake_transfer nat | Io_done nat | Wake_shutdown | Wake_perf

record xdma_engine =
  en_magic :: u64
  en_offline :: bool
  en_shutdown :: u32
  en_dir :: dma_data_direction
  en_streaming :: bool
  en_running :: bool
  en_non_incr_addr :: bool
  en_eop_flush :: bool
  en_desc_dequeued :: u32
  en_desc_max :: u32
  en_status :: u32
  en_transfer_list :: "nat list"
  en_result :: "xdma_result list"
  en_result_bus :: u64
  en_desc_bus :: u64
  en_desc :: "xdma_desc list"
  en_desc_idx :: u32
  en_desc_used :: u32
  en_addr_align :: u8
  en_len_granularity :: u8
  en_addr_bits :: u8
  en_channel :: nat
  en_irq_bitmask :: u32
  en_bypass_offset :: u32
  en_irq_mask_value :: u32
  en_poll_wb :: "u32 option"
  en_poll_bus :: u64
  en_perf :: "xdma_performance_ioctl option"
  en_xfers :: "nat \<Rightarrow> xdma_transfer"
  en_ops :: "engine_op list"
  en_wakes :: "wake list"

abbreviation (input) MAGIC_ENGINE :: u64 where "MAGIC_ENGINE \<equiv> 0xEEEEEEEE"
abbreviation (input) ENGINE_SHUTDOWN_NONE :: u32 where "ENGINE_SHUTDOWN_NONE \<equiv> 0"
abbreviation (input) ENGINE_SHUTDOWN_REQUEST :: u32 where "ENGINE_SHUTDOWN_REQUEST \<equiv> 1"
abbreviation (input) ENGINE_SHUTDOWN_IDLE :: u32 where "ENGINE_SHUTDOWN_IDLE \<equiv> 2"
abbreviation (input) XFER_FLAG_NEED_UNMAP :: u32 where "XFER_FLAG_NEED_UNMAP \<equiv> 1"
abbreviation (input) XFER_FLAG_ST_C2H_EOP_RCVED :: u32 where "XFER_FLAG_ST_C2H_EOP_RCVED \<equiv> 2"
abbreviation (input) RX_STATUS_EOP :: u32 where "RX_STATUS_EOP \<equiv> 1"
abbreviation (input) XDMA_CTRL_RUN_STOP :: u32 where "XDMA_CTRL_RUN_STOP \<equiv> 1"
abbreviation (input) XDMA_CTRL_IE_DESC_STOPPED :: u32 where "XDMA_CTRL_IE_DESC_STOPPED \<equiv> 2"
abbreviation (input) XDMA_CTRL_IE_DESC_COMPLETED :: u32 where "XDMA_CTRL_IE_DESC_COMPLETED \<equiv> 4"
abbreviation (input) XDMA_CTRL_IE_DESC_ALIGN_MISMATCH :: u32 where "XDMA_CTRL_IE_DESC_ALIGN_MISMATCH \<equiv> 8"
abbreviation (input) XDMA_CTRL_IE_MAGIC_STOPPED :: u32 where "XDMA_CTRL_IE_MAGIC_STOPPED \<equiv> 0x10"
abbreviation (input) XDMA_CTRL_IE_IDLE_STOPPED :: u32 where "XDMA_CTRL_IE_IDLE_STOPPED \<equiv> 0x40"
abbreviation (input) XDMA_CTRL_IE_READ_ERROR :: u32 where "XDMA_CTRL_IE_READ_ERROR \<equiv> 0x3E00"
abbreviation (input) XDMA_CTRL_IE_DESC_ERROR :: u32 where "XDMA_CTRL_IE_DESC_ERROR \<equiv> 0xF80000"
abbreviation (input) XDMA_CTRL_NON_INCR_ADDR :: u32 where "XDMA_CTRL_NON_INCR_ADDR \<equiv> 0x2000000"
abbreviation (input) XDMA_CTRL_POLL_MODE_WB :: u32 where "XDMA_CTRL_POLL_MODE_WB \<equiv> 0x4000000"
abbreviation (input) XDMA_STAT_BUSY :: u32 where "XDMA_STAT_BUSY \<equiv> 1"
abbreviation (input) XDMA_STAT_DESC_STOPPED :: u32 where "XDMA_STAT_DESC_STOPPED \<equiv> 2"
abbreviation (input) XDMA_STAT_DESC_COMPLETED :: u32 where "XDMA_STAT_DESC_COMPLETED \<equiv> 4"
abbreviation (input) XDMA_STAT_H2C_ERR_MASK :: u32 where "XDMA_STAT_H2C_ERR_MASK \<equiv> 0xF8FE38"
abbreviation (input) XDMA_STAT_C2H_ERR_MASK :: u32 where "XDMA_STAT_C2H_ERR_MASK \<equiv> 0xF80638"
abbreviation (input) WB_COUNT_MASK :: u32 where "WB_COUNT_MASK \<equiv> 0xFFFFFF"
abbreviation (input) WB_ERR_MASK :: u32 where "WB_ERR_MASK \<equiv> 0x80000000"
abbreviation (input) EBUSY :: int where "EBUSY \<equiv> 16"

definition read_register :: "engine_hw \<Rightarrow> engine_reg \<Rightarrow> xdma_engine \<Rightarrow> u32 \<times> xdma_engine" where
  "read_register hw r e = (let ops = en_ops e @ [Read_register r] in (hw ops, e\<lparr>en_ops := ops\<rparr>))"

definition write_register :: "u32 \<Rightarrow> engine_reg \<Rightarrow> xdma_engine \<Rightarrow> xdma_engine" where
  "write_register v r e = e\<lparr>en_ops := en_ops e @ [Write_register v r]\<rparr>"

definition wake_up :: "wake \<Rightarrow> xdma_engine \<Rightarrow> xdma_engine" where
  "wake_up w e = e\<lparr>en_wakes := en_wakes e @ [w]\<rparr>"

definition upd_xfer :: "nat \<Rightarrow> (xdma_transfer \<Rightarrow> xdma_transfer) \<Rightarrow> xdma_engine \<Rightarrow> xdma_engine" where
  "upd_xfer x f e = e\<lparr>en_xfers := (en_xfers e)(x := f (en_xfers e x))\<rparr>"

subsection \<open>Building a transfer\<close>

definition zero_transfer :: xdma_transfer where
  "zero_transfer = \<lparr>xf_desc_virt = 0, xf_res_bus = 0, xf_desc_bus = 0, xf_desc_adjacent = 0, xf_desc_num = 0, xf_desc_index = 0,
     xf_desc_cmpl = 0, xf_desc_cmpl_th = 0, xf_dir = DMA_TO_DEVICE, xf_state = TRANSFER_STATE_NEW, xf_flags = 0, xf_cyclic = False,
     xf_last_in_request = False, xf_len = 0, xf_cb = False\<rparr>"

definition build_desc :: "xdma_engine \<Rightarrow> xdma_transfer \<Rightarrow> nat \<Rightarrow> sw_desc \<Rightarrow> u64 \<Rightarrow> u64 \<Rightarrow> xdma_desc \<Rightarrow> xdma_desc" where
  "build_desc e xfer j sdesc ep_addr bus d =
     (let d = xdma_desc_set (sd_addr sdesc) ep_addr (sd_len sdesc) (xf_dir xfer) d in
      if en_streaming e \<and> en_dir e = DMA_FROM_DEVICE
      then d\<lparr>src_addr_lo := PCI_DMA_L bus, src_addr_hi := PCI_DMA_H bus\<rparr> else d)"

definition build_step :: "nat \<Rightarrow> nat \<Rightarrow> nat \<Rightarrow> xdma_engine \<times> xdma_request_cb \<times> xdma_transfer \<times> u64
    \<Rightarrow> (xdma_engine \<times> xdma_request_cb \<times> xdma_transfer \<times> u64) res" where
  "build_step first virt i = (\<lambda>(e, req, xfer, bus).
     rbind (rd (rq_sdesc req) (first + i)) (\<lambda>sdesc.
     rbind (desc_at (virt + i) (build_desc e xfer i sdesc (rq_ep_addr req) bus) (en_desc e)) (\<lambda>ds.
     let e = e\<lparr>en_desc := ds\<rparr>; xfer = xfer\<lparr>xf_len := xf_len xfer + sd_len sdesc\<rparr>;
         req = (if en_non_incr_addr e then req else req\<lparr>rq_ep_addr := rq_ep_addr req + ucast (sd_len sdesc)\<rparr>) in
     if en_streaming e \<and> en_dir e = DMA_FROM_DEVICE
     then rbind (wr (en_result e) (virt + i) \<lparr>res_status = 0, res_len = 0\<rparr>) (\<lambda>rs. Inr (e\<lparr>en_result := rs\<rparr>, req, xfer, bus + 32))
     else Inr (e, req, xfer, bus))))"

definition transfer_build :: "xdma_engine \<Rightarrow> xdma_request_cb \<Rightarrow> xdma_transfer \<Rightarrow> u32 \<Rightarrow> (xdma_engine \<times> xdma_request_cb \<times> xdma_transfer) res" where
  "transfer_build e req xfer n =
     rbind (foldM (build_step (unat (rq_sw_desc_idx req)) (xf_desc_virt xfer)) [0..<unat n] (e, req, xfer, xf_res_bus xfer))
       (\<lambda>(e, req, xfer, _). Inr (e, req\<lparr>rq_sw_desc_idx := rq_sw_desc_idx req + n\<rparr>, xfer))"

definition adjacent_step :: "xdma_transfer \<Rightarrow> nat \<Rightarrow> xdma_desc list \<Rightarrow> xdma_desc list res" where
  "adjacent_step xfer i = desc_at (xf_desc_virt xfer + i)
     (\<lambda>d. xdma_desc_adjacent (xdma_get_next_adj (xf_desc_num xfer - of_nat i - 1) (next_lo d)) d)"

text \<open>
  After the descriptors are filled in: the last one stops the engine, ends the packet and raises the
  interrupt, every other one to the device ends a packet, and all get their number of adjacent ones.
\<close>

definition finish_descs :: "dma_data_direction \<Rightarrow> xdma_transfer \<Rightarrow> u32 \<Rightarrow> xdma_desc list \<Rightarrow> xdma_desc list res" where
  "finish_descs dir xfer n ds =
     (let v = xf_desc_virt xfer; last = nat (sint (n - 1)) in
      rbind (desc_at (v + last) (xdma_desc_control_set (or (or XDMA_DESC_STOPPED XDMA_DESC_EOP) XDMA_DESC_COMPLETED)) ds) (\<lambda>ds.
      rbind (if dir = DMA_TO_DEVICE then foldM (\<lambda>i. desc_at (v + i) (xdma_desc_control_set XDMA_DESC_EOP)) [0..<last] ds
             else Inr ds) (\<lambda>ds.
      foldM (adjacent_step xfer) [0..<nat (sint n)] ds)))"

definition transfer_init :: "xdma_engine \<Rightarrow> xdma_request_cb \<Rightarrow> nat \<Rightarrow> (xdma_engine \<times> xdma_request_cb) res" where
  "transfer_init e req x =
     (let n = min (rq_sw_desc_cnt req - rq_sw_desc_idx req) (en_desc_max e);
          idx = en_desc_idx e;
          xfer = zero_transfer\<lparr>xf_dir := en_dir e, xf_desc_virt := unat idx, xf_desc_bus := en_desc_bus e + 32 * ucast idx,
            xf_res_bus := en_result_bus e + 32 * ucast idx, xf_desc_index := idx\<rparr>;
          n = (if idx + n \<ge> en_desc_max e then en_desc_max e - idx else n) in
      rbind (transfer_desc_init (unat idx) (xf_desc_bus xfer) n (en_desc e)) (\<lambda>ds.
      rbind (transfer_build (e\<lparr>en_desc := ds\<rparr>) req xfer n) (\<lambda>(e, req, xfer).
      let xfer = xfer\<lparr>xf_desc_adjacent := n, xf_desc_cmpl_th := n, xf_desc_num := n\<rparr> in
      rbind (finish_descs (en_dir e) xfer n (en_desc e)) (\<lambda>ds.
      if en_desc_max e = 0 then Inl DivByZero
      else Inr (e\<lparr>en_desc := ds, en_desc_idx := (idx + n) mod en_desc_max e, en_desc_used := en_desc_used e + n,
               en_xfers := (en_xfers e)(x := xfer)\<rparr>, req)))))"

subsection \<open>Starting and stopping\<close>

definition engine_status_read :: "engine_hw \<Rightarrow> bool \<Rightarrow> xdma_engine \<Rightarrow> xdma_engine" where
  "engine_status_read hw clear e =
     (let (v, e) = read_register hw (if clear then status_rc else status) e in e\<lparr>en_status := v\<rparr>)"

text \<open>The interrupts of every run, and those that depend on how completions are noticed.\<close>

definition completion_bits :: "module_params \<Rightarrow> u32" where
  "completion_bits mp = (if poll_mode mp then XDMA_CTRL_POLL_MODE_WB else or XDMA_CTRL_IE_DESC_STOPPED XDMA_CTRL_IE_DESC_COMPLETED)"

definition error_bits :: u32 where
  "error_bits = or (or XDMA_CTRL_IE_DESC_ALIGN_MISMATCH XDMA_CTRL_IE_MAGIC_STOPPED) (or XDMA_CTRL_IE_READ_ERROR XDMA_CTRL_IE_DESC_ERROR)"

definition st_credit :: "module_params \<Rightarrow> xdma_engine \<Rightarrow> bool" where
  "st_credit mp e \<longleftrightarrow> enable_st_c2h_credit mp \<and> en_streaming e \<and> en_dir e = DMA_FROM_DEVICE"

definition xdma_engine_stop :: "module_params \<Rightarrow> xdma_engine \<Rightarrow> xdma_engine" where
  "xdma_engine_stop mp e =
     (let e = (if st_credit mp e then write_register 0 credits e else e);
          e = write_register (or error_bits (completion_bits mp)) control e
      in e\<lparr>en_running := False\<rparr>)"

definition engine_start_mode_config :: "engine_hw \<Rightarrow> module_params \<Rightarrow> xdma_engine \<Rightarrow> xdma_engine" where
  "engine_start_mode_config hw mp e =
     (let e = (if en_perf e \<noteq> None
               then write_register (or (or XDMA_CTRL_IE_DESC_STOPPED XDMA_CTRL_IE_DESC_COMPLETED) (or error_bits XDMA_CTRL_IE_IDLE_STOPPED))
                      interrupt_enable_mask e
               else e);
          w = or (or XDMA_CTRL_RUN_STOP error_bits) (completion_bits mp);
          w = (if en_non_incr_addr e then or w XDMA_CTRL_NON_INCR_ADDR else w);
          e = write_register w control e
      in snd (read_register hw status e))"

definition engine_start :: "engine_hw \<Rightarrow> module_params \<Rightarrow> xdma_engine \<Rightarrow> nat option \<times> xdma_engine" where
  "engine_start hw mp e =
     (if en_running e then (None, e)
      else case en_transfer_list e of
        [] \<Rightarrow> (None, e)
      | x # _ \<Rightarrow>
          let transfer = en_xfers e x;
              e = e\<lparr>en_shutdown := ENGINE_SHUTDOWN_NONE\<rparr>;
              e = (if st_credit mp e then write_register (en_desc_used e) credits e else e);
              e = e\<lparr>en_desc_dequeued := 0\<rparr>;
              e = write_register (PCI_DMA_L (xf_desc_bus transfer)) first_desc_lo e;
              e = write_register (PCI_DMA_H (xf_desc_bus transfer)) first_desc_hi e;
              e = write_register (xdma_get_next_adj (xf_desc_adjacent transfer) (PCI_DMA_L (xf_desc_bus transfer))) first_desc_adjacent e;
              e = engine_start_mode_config hw mp e
          in (Some x, e\<lparr>en_running := True\<rparr>))"

definition engine_service_shutdown :: "module_params \<Rightarrow> xdma_engine \<Rightarrow> xdma_engine" where
  "engine_service_shutdown mp e = wake_up Wake_shutdown (xdma_engine_stop mp e)"

subsection \<open>The queue\<close>

definition transfer_queue :: "engine_hw \<Rightarrow> module_params \<Rightarrow> nat \<Rightarrow> xdma_engine \<Rightarrow> int \<times> xdma_engine" where
  "transfer_queue hw mp x e =
     (if en_offline e then (- EBUSY, e)
      else if and (en_shutdown e) ENGINE_SHUTDOWN_REQUEST \<noteq> 0 then (- EBUSY, e)
      else
        let e = upd_xfer x (\<lambda>t. t\<lparr>xf_state := TRANSFER_STATE_SUBMITTED\<rparr>) e;
            e = e\<lparr>en_transfer_list := en_transfer_list e @ [x]\<rparr>
        in (0, if \<not> en_running e then snd (engine_start hw mp e) else e))"

definition transfer_abort :: "nat \<Rightarrow> xdma_engine \<Rightarrow> int \<times> xdma_engine" where
  "transfer_abort x e =
     (if xf_desc_num (en_xfers e x) = 0 then (- EINVAL, e)
      else
        let e = (case en_transfer_list e of h # rest \<Rightarrow> if h = x then e\<lparr>en_transfer_list := rest\<rparr> else e | [] \<Rightarrow> e)
        in (0, if xf_state (en_xfers e x) = TRANSFER_STATE_SUBMITTED
               then upd_xfer x (\<lambda>t. t\<lparr>xf_state := TRANSFER_STATE_ABORTED\<rparr>) e else e))"

subsection \<open>Service\<close>

definition engine_transfer_completion :: "nat \<Rightarrow> xdma_engine \<Rightarrow> xdma_engine" where
  "engine_transfer_completion x e =
     (let e = wake_up (Wake_transfer x) e
      in if xf_cb (en_xfers e x) \<and> xf_last_in_request (en_xfers e x) then wake_up (Io_done x) e else e)"

text \<open>
  All transfers but the last one completed: the loop looks at the head of the queue and removes it.
\<close>

fun engine_service_transfer_list :: "nat list \<Rightarrow> u32 \<Rightarrow> xdma_engine \<Rightarrow> nat option \<times> u32 \<times> xdma_engine" where
  "engine_service_transfer_list [] desc_completed e = (None, desc_completed, e)"
| "engine_service_transfer_list (x # rest) desc_completed e =
     (let transfer = en_xfers e x in
      if \<not> xf_cyclic transfer \<and> xf_desc_num transfer < desc_completed
      then engine_service_transfer_list rest (desc_completed - xf_desc_num transfer)
        (engine_transfer_completion x
          (upd_xfer x (\<lambda>t. t\<lparr>xf_state := TRANSFER_STATE_COMPLETED\<rparr>)
            (e\<lparr>en_transfer_list := rest, en_desc_dequeued := en_desc_dequeued e + xf_desc_num transfer\<rparr>)))
      else (Some x, desc_completed, e))"

definition engine_err_handle :: "engine_hw \<Rightarrow> module_params \<Rightarrow> nat \<Rightarrow> xdma_engine \<Rightarrow> xdma_engine" where
  "engine_err_handle hw mp x e =
     (let e = (if and (en_status e) XDMA_STAT_BUSY \<noteq> 0 then snd (read_register hw status e) else e)
      in xdma_engine_stop mp (upd_xfer x (\<lambda>t. t\<lparr>xf_state := TRANSFER_STATE_FAILED\<rparr>) e))"

definition status_error :: "xdma_engine \<Rightarrow> bool" where
  "status_error e \<longleftrightarrow>
     en_dir e = DMA_FROM_DEVICE \<and> and (en_status e) XDMA_STAT_C2H_ERR_MASK \<noteq> 0 \<or>
     en_dir e = DMA_TO_DEVICE \<and> and (en_status e) XDMA_STAT_H2C_ERR_MASK \<noteq> 0"

text \<open>The end of packet is looked for in the records of the completed descriptors, up to the first that has it.\<close>

fun eop_received :: "nat list \<Rightarrow> xdma_result list \<Rightarrow> bool res" where
  "eop_received [] rs = Inr False"
| "eop_received (i # is) rs = rbind (rd rs i) (\<lambda>r. if and (res_status r) RX_STATUS_EOP \<noteq> 0 then Inr True else eop_received is rs)"

definition transfer_del :: "nat \<Rightarrow> xdma_engine \<Rightarrow> xdma_engine" where
  "transfer_del x e = engine_transfer_completion x (e\<lparr>en_transfer_list := tl (en_transfer_list e)\<rparr>)"

definition engine_service_final_transfer :: "engine_hw \<Rightarrow> module_params \<Rightarrow> nat option \<Rightarrow> u32 \<Rightarrow> xdma_engine \<Rightarrow> xdma_engine res" where
  "engine_service_final_transfer hw mp transfer desc_completed e = (case transfer of
     None \<Rightarrow> Inr e
   | Some x \<Rightarrow>
     let n = xf_desc_num (en_xfers e x) in
     if status_error e then Inr (transfer_del x (engine_err_handle hw mp x e))
     else if desc_completed < n then
       if en_eop_flush e then
         rbind (eop_received (map (\<lambda>i. xf_desc_virt (en_xfers e x) + i) [0..<nat (sint desc_completed)]) (en_result e)) (\<lambda>eop.
         let e = upd_xfer x (\<lambda>t. t\<lparr>xf_flags := (if eop then or (xf_flags t) XFER_FLAG_ST_C2H_EOP_RCVED else xf_flags t),
                xf_desc_cmpl := xf_desc_cmpl t + desc_completed\<rparr>) e in
         if and (xf_flags (en_xfers e x)) XFER_FLAG_ST_C2H_EOP_RCVED = 0 then Inr e
         else
           let e = upd_xfer x (\<lambda>t. t\<lparr>xf_state := TRANSFER_STATE_COMPLETED\<rparr>) (engine_service_shutdown mp e)
           in Inr (transfer_del x (e\<lparr>en_desc_dequeued := en_desc_dequeued e + xf_desc_cmpl (en_xfers e x)\<rparr>)))
       else
         Inr (transfer_del x (upd_xfer x (\<lambda>t. t\<lparr>xf_state := TRANSFER_STATE_FAILED, xf_desc_cmpl := desc_completed\<rparr>)
           (e\<lparr>en_desc_dequeued := en_desc_dequeued e + n\<rparr>)))
     else
       Inr (transfer_del x (upd_xfer x (\<lambda>t. t\<lparr>xf_state := TRANSFER_STATE_COMPLETED, xf_desc_cmpl := xf_desc_num t\<rparr>)
         (e\<lparr>en_desc_dequeued := en_desc_dequeued e + n\<rparr>))))"

definition engine_service_perf :: "u32 \<Rightarrow> xdma_engine \<Rightarrow> xdma_engine" where
  "engine_service_perf desc_completed e = (case en_perf e of
     None \<Rightarrow> e
   | Some p \<Rightarrow>
       let p = (if and (en_status e) XDMA_STAT_DESC_COMPLETED \<noteq> 0 then p\<lparr>perf_iterations := desc_completed\<rparr> else p)
       in if and (en_status e) XDMA_STAT_DESC_STOPPED \<noteq> 0
          then wake_up Wake_perf (e\<lparr>en_perf := Some (p\<lparr>perf_stopped := True\<rparr>)\<rparr>)
          else e\<lparr>en_perf := Some p\<rparr>)"

definition engine_service_resume :: "engine_hw \<Rightarrow> module_params \<Rightarrow> xdma_engine \<Rightarrow> int \<times> xdma_engine" where
  "engine_service_resume hw mp e =
     (if \<not> en_running e then
        if en_transfer_list e \<noteq> [] then
          let (transfer_started, e) = engine_start hw mp e
          in (if transfer_started = None then - EINVAL else 0, e)
        else if and (en_shutdown e) ENGINE_SHUTDOWN_REQUEST \<noteq> 0
        then (0, wake_up Wake_shutdown (e\<lparr>en_shutdown := or (en_shutdown e) ENGINE_SHUTDOWN_IDLE\<rparr>))
        else (0, e)
      else if en_transfer_list e = [] then (0, engine_service_shutdown mp e)
      else (0, e))"

text \<open>
  The routine first reads the status, when the interrupt or an error made it run, and stops an engine
  that is no longer busy; then it asks for the number of completed descriptors, if it was not told.
\<close>

definition service_stop :: "engine_hw \<Rightarrow> module_params \<Rightarrow> u32 \<Rightarrow> u32 \<Rightarrow> xdma_engine \<Rightarrow> xdma_engine" where
  "service_stop hw mp desc_count err_flag e =
     (let e = (if desc_count = 0 \<or> err_flag \<noteq> 0 then engine_status_read hw True e else e)
      in if en_running e \<and> and (en_status e) XDMA_STAT_BUSY = 0 \<or> \<not> en_eop_flush e \<and> desc_count \<noteq> 0
         then engine_service_shutdown mp e else e)"

definition service_count :: "engine_hw \<Rightarrow> u32 \<Rightarrow> xdma_engine \<Rightarrow> u32 \<times> xdma_engine" where
  "service_count hw desc_count e = (if desc_count = 0 then read_register hw completed_desc_count e else (desc_count, e))"

definition engine_service :: "engine_hw \<Rightarrow> module_params \<Rightarrow> u32 \<Rightarrow> xdma_engine \<Rightarrow> (int \<times> xdma_engine) res" where
  "engine_service hw mp desc_writeback e =
     (let desc_count = and desc_writeback WB_COUNT_MASK; err_flag = and desc_writeback WB_ERR_MASK in
      if \<not> en_running e then Inr (0, engine_status_read hw True e)
      else
        let (desc_count, e) = service_count hw desc_count (service_stop hw mp desc_count err_flag e);
            rv = (if err_flag \<noteq> 0 then -1 else 0) in
        if desc_count = 0 then Inr (rv, e)
        else
          let e = (if en_transfer_list e \<noteq> [] then engine_service_perf desc_count e else e);
              (transfer, desc_count, e) = engine_service_transfer_list (en_transfer_list e) (desc_count - en_desc_dequeued e) e in
          rbind (engine_service_final_transfer hw mp transfer desc_count e) (\<lambda>e.
          Inr (rv, snd (engine_service_resume hw mp e))))"

end
