(* ===== verification/Sgdma_Submit.thy ===== *)
theory Sgdma_Submit
  imports Sgdma_Engine
begin

text \<open>
  Submitting a request (\<open>xdma_xfer_submit\<close> of \<open>libxdma.c\<close>): the request is cut into transfers of at most
  a ring of descriptors, each of which is queued and waited for.  While the submitter sleeps, the
  hardware and the service routine run; they are an environment that maps the state at the start of
  the wait to the state at its end.
\<close>

subsection \<open>The device\<close>

record xdma_sgdev =
  sg_known :: bool
  sg_h2c_channel_max :: u32
  sg_c2h_channel_max :: u32
  sg_engine_h2c :: "xdma_engine list"
  sg_engine_c2h :: "xdma_engine list"
  sg_engines_num :: u32
  sg_mask_irq_h2c :: u32
  sg_mask_irq_c2h :: u32

text \<open>A scatter table: the list, its entries before mapping, and the entries mapped (0 when unmapped).\<close>

record sg_table =
  st_sgl :: scatterlist
  st_nents :: u32
  st_orig_nents :: u32

text \<open>What sleeping does to the transfer's engine and to a state of the outside world.\<close>

type_synonym 'h waiting = "nat \<Rightarrow> 'h \<times> xdma_engine \<Rightarrow> 'h \<times> xdma_engine"

abbreviation (input) EIO :: int where "EIO \<equiv> 5"
abbreviation (input) ENOMEM :: int where "ENOMEM \<equiv> 12"
abbreviation (input) ERESTARTSYS :: int where "ERESTARTSYS \<equiv> 512"

text \<open>The number of a channel is signed, so that only one that is too large is refused.\<close>

definition submit_engine :: "xdma_sgdev \<Rightarrow> s32 \<Rightarrow> bool \<Rightarrow> (int + nat) res" where
  "submit_engine d channel write =
     (if \<not> sg_known d then Inr (Inl (- EINVAL))
      else if sint (if write then sg_h2c_channel_max d else sg_c2h_channel_max d) \<le> sint channel then Inr (Inl (- EINVAL))
      else if sint channel < 0 \<or> length (if write then sg_engine_h2c d else sg_engine_c2h d) \<le> unat channel then Inl OutOfBounds
      else Inr (Inr (unat channel)))"

subsection \<open>One transfer\<close>

text \<open>Unmapping: what \<open>dma_unmap_sg\<close> is called with is recorded.\<close>

definition transfer_destroy :: "nat \<Rightarrow> xdma_engine \<times> sg_table \<times> u32 list \<Rightarrow> (xdma_engine \<times> sg_table \<times> u32 list) res" where
  "transfer_destroy x = (\<lambda>(e, sgt, unmaps).
     let xfer = en_xfers e x in
     rbind (xdma_desc_done (xf_desc_virt xfer) (xf_desc_num xfer) (en_desc e)) (\<lambda>ds.
     let e = e\<lparr>en_desc := ds\<rparr> in
     if xf_last_in_request xfer \<and> and (xf_flags xfer) XFER_FLAG_NEED_UNMAP \<noteq> 0 \<and> st_nents sgt \<noteq> 0
     then Inr (e, sgt\<lparr>st_nents := 0\<rparr>, unmaps @ [st_nents sgt])
     else Inr (e, sgt, unmaps)))"

definition results_length :: "nat \<Rightarrow> u32 \<Rightarrow> xdma_result list \<Rightarrow> int res" where
  "results_length virt n rs = foldM (\<lambda>i done. rbind (rd rs (virt + i)) (\<lambda>r. Inr (done + uint (res_len r)))) [0..<nat (sint n)] 0"

text \<open>
  What the submitter makes of the transfer after the wait: the return value, the bytes done, and
  whether the request ends here.
\<close>

definition xfer_outcome :: "engine_hw \<Rightarrow> module_params \<Rightarrow> nat \<Rightarrow> int \<Rightarrow> xdma_engine \<Rightarrow> (int \<times> int \<times> bool \<times> xdma_engine) res" where
  "xfer_outcome hw mp x done e =
     (let xfer = en_xfers e x in
      case xf_state xfer of
        TRANSFER_STATE_COMPLETED \<Rightarrow>
          if en_streaming e \<and> en_dir e = DMA_FROM_DEVICE
          then rbind (results_length (xf_desc_virt xfer) (xf_desc_cmpl xfer) (en_result e)) (\<lambda>n. Inr (0, done + n, en_eop_flush e, e))
          else Inr (0, done + uint (xf_len xfer), False, e)
      | TRANSFER_STATE_FAILED \<Rightarrow> Inr (- EIO, done, False, e)
      | _ \<Rightarrow>
          let e = engine_status_read hw False e; (rv, e) = transfer_abort x e
          in Inr (- ERESTARTSYS, done, False, if rv = 0 then xdma_engine_stop mp e else e))"

subsection \<open>The request\<close>

text \<open>The flags of a transfer: the last one of a request carries the mapping, if there is one to undo.\<close>

definition mark_xfer :: "bool \<Rightarrow> u32 \<Rightarrow> nat \<Rightarrow> xdma_engine \<Rightarrow> xdma_engine" where
  "mark_xfer dma_mapped n x = upd_xfer x (\<lambda>t. t\<lparr>
     xf_flags := (if dma_mapped then xf_flags t else XFER_FLAG_NEED_UNMAP), xf_last_in_request := (n = 0)\<rparr>)"

text \<open>
  One round of the loop: build, queue, wait, look at the outcome, clean up.  The result is the return
  value, the bytes done, the descriptors left, and the state.
\<close>

definition submit_one :: "engine_hw \<Rightarrow> module_params \<Rightarrow> 'h waiting \<Rightarrow> nat \<Rightarrow> bool \<Rightarrow> u32 \<Rightarrow> int \<Rightarrow>
    'h \<times> xdma_engine \<times> sg_table \<times> u32 list \<times> xdma_request_cb \<Rightarrow>
    (int \<times> int \<times> u32 \<times> 'h \<times> xdma_engine \<times> sg_table \<times> u32 list \<times> xdma_request_cb) res" where
  "submit_one hw mp wait x dma_mapped n done = (\<lambda>(h, e, sgt, unmaps, req).
     rbind (transfer_init e req x) (\<lambda>(e, req).
     let n = n - xf_desc_num (en_xfers e x);
         (rv, e) = transfer_queue hw mp x (mark_xfer dma_mapped n x e) in
     if rv < 0 then Inr (rv, done, n, h, e, sgt, unmaps, req)
     else
       let (h, e) = wait x (h, e) in
       rbind (xfer_outcome hw mp x done e) (\<lambda>(rv, done, finish, e).
       rbind (transfer_destroy x (e\<lparr>en_desc_used := en_desc_used e - xf_desc_num (en_xfers e x)\<rparr>, sgt, unmaps)) (\<lambda>(e, sgt, unmaps).
       Inr (rv, done, if finish then 0 else n, h, e, sgt, unmaps, req)))))"

text \<open>
  The loop takes one transfer after the other until no descriptor is left; \<open>fuel\<close> bounds the number of
  transfers.  The result is the return value, the bytes done and the final state.
\<close>

fun submit_loop :: "engine_hw \<Rightarrow> module_params \<Rightarrow> 'h waiting \<Rightarrow> nat \<Rightarrow> bool \<Rightarrow> nat \<Rightarrow> u32 \<Rightarrow> int \<Rightarrow>
    'h \<times> xdma_engine \<times> sg_table \<times> u32 list \<times> xdma_request_cb \<Rightarrow>
    (int \<times> int \<times> 'h \<times> xdma_engine \<times> sg_table \<times> u32 list) res option" where
  "submit_loop hw mp wait x dma_mapped 0 n done s = None"
| "submit_loop hw mp wait x dma_mapped (Suc fuel) n done (h, e, sgt, unmaps, req) =
     (if n = 0 then Some (Inr (0, done, h, e, sgt, unmaps))
      else case submit_one hw mp wait x dma_mapped n done (h, e, sgt, unmaps, req) of
        Inl f \<Rightarrow> Some (Inl f)
      | Inr (rv, done, n, h, e, sgt, unmaps, req) \<Rightarrow>
          if rv < 0 then Some (Inr (rv, done, h, e, sgt, unmaps))
          else submit_loop hw mp wait x dma_mapped fuel n done (h, e, sgt, unmaps, req))"

text \<open>The end of every path after the mapping: unmap what is still mapped, and return the bytes done if there are any.\<close>

definition submit_end :: "bool \<Rightarrow> int \<times> int \<times> 'h \<times> xdma_engine \<times> sg_table \<times> u32 list \<Rightarrow> int \<times> 'h \<times> xdma_engine \<times> sg_table \<times> u32 list" where
  "submit_end dma_mapped = (\<lambda>(rv, done, h, e, sgt, unmaps).
     let (sgt, unmaps) = (if \<not> dma_mapped \<and> st_nents sgt \<noteq> 0 then (sgt\<lparr>st_nents := 0\<rparr>, unmaps @ [st_orig_nents sgt]) else (sgt, unmaps))
     in (if done \<noteq> 0 then done else rv, h, e, sgt, unmaps))"

text \<open>
  \<open>mapped\<close> is what \<open>dma_map_sg\<close> makes of the list, empty if it fails; \<open>ok\<close> is whether the request can be
  allocated.
\<close>

definition xfer_submit_on :: "engine_hw \<Rightarrow> module_params \<Rightarrow> 'h waiting \<Rightarrow> u32 \<Rightarrow> bool \<Rightarrow> scatterlist \<Rightarrow> nat \<Rightarrow> nat \<Rightarrow> bool \<Rightarrow> u64 \<Rightarrow>
    bool \<Rightarrow> 'h \<times> xdma_engine \<times> sg_table \<Rightarrow> (int \<times> 'h \<times> xdma_engine \<times> sg_table \<times> u32 list) res option" where
  "xfer_submit_on hw mp wait cb ok mapped fuel x write ep_addr dma_mapped = (\<lambda>(h, e, sgt).
     let dir = (if write then DMA_TO_DEVICE else DMA_FROM_DEVICE) in
     if en_magic e \<noteq> MAGIC_ENGINE then Some (Inr (- EINVAL, h, e, sgt, []))
     else if en_offline e then Some (Inr (- EBUSY, h, e, sgt, []))
     else if en_dir e \<noteq> dir then Some (Inr (- EINVAL, h, e, sgt, []))
     else if \<not> dma_mapped \<and> mapped = [] then Some (Inr (- EIO, h, e, sgt, []))
     else if dma_mapped \<and> st_nents sgt = 0 then Some (Inr (- EIO, h, e, sgt, []))
     else
       let sgt = (if dma_mapped then sgt else sgt\<lparr>st_sgl := mapped, st_nents := of_nat (length mapped)\<rparr>) in
       case xdma_init_request (desc_blen_max mp) cb ok (st_sgl sgt) (st_nents sgt) ep_addr of
         Inl f \<Rightarrow> Some (Inl f)
       | Inr None \<Rightarrow> Some (Inr (submit_end dma_mapped (- ENOMEM, 0, h, e, sgt, [])))
       | Inr (Some req) \<Rightarrow>
           map_option (map_sum id (submit_end dma_mapped))
             (submit_loop hw mp wait x dma_mapped fuel (rq_sw_desc_cnt req) 0 (h, e, sgt, [], req)))"


definition xdma_xfer_submit :: "engine_hw \<Rightarrow> module_params \<Rightarrow> 'h waiting \<Rightarrow> u32 \<Rightarrow> bool \<Rightarrow> scatterlist \<Rightarrow> nat \<Rightarrow> nat \<Rightarrow>
    s32 \<Rightarrow> bool \<Rightarrow> u64 \<Rightarrow> bool \<Rightarrow> 'h \<times> xdma_sgdev option \<times> sg_table \<Rightarrow>
    (int \<times> 'h \<times> xdma_sgdev option \<times> sg_table \<times> u32 list) res option" where
  "xdma_xfer_submit hw mp wait cb ok mapped fuel x channel write ep_addr dma_mapped = (\<lambda>(h, dev, sgt). case dev of
     None \<Rightarrow> Some (Inr (- EINVAL, h, None, sgt, []))
   | Some d \<Rightarrow> (case submit_engine d channel write of
       Inl f \<Rightarrow> Some (Inl f)
     | Inr (Inl rv) \<Rightarrow> Some (Inr (rv, h, Some d, sgt, []))
     | Inr (Inr k) \<Rightarrow>
         map_option (map_sum id (\<lambda>(r, h, e, sgt, unmaps). (r, h, Some (if write
             then d\<lparr>sg_engine_h2c := (sg_engine_h2c d)[k := e]\<rparr> else d\<lparr>sg_engine_c2h := (sg_engine_c2h d)[k := e]\<rparr>), sgt, unmaps)))
           (xfer_submit_on hw mp wait cb ok mapped fuel x write ep_addr dma_mapped
             (h, (if write then sg_engine_h2c d else sg_engine_c2h d) ! k, sgt))))"

end
