(* ===== verification/Sgdma_Setup.thy ===== *)
theory Sgdma_Setup
  imports Sgdma_Submit
begin

text \<open>
  Setting engines up and taking them down (\<open>libxdma.c\<close>): the resources and registers of an engine, the
  search for the engines a device has, and taking a device off and on line.  The registers of every
  engine answer on their own; the memory an engine is given is a parameter, and an allocation may fail.
  The flag of a device being off line is kept in each engine, which reaches it through its device.  The
  thread that polls an engine, and locks and wait queues, are the kernel's.
\<close>

subsection \<open>An engine\<close>

text \<open>The bus addresses of the memory an engine asks for: descriptors, writeback, and completion records.\<close>

record engine_memory =
  mem_desc :: "u64 option"
  mem_wb :: "u64 option"
  mem_result :: "u64 option"

abbreviation (input) XDMA_ENGINE_XFER_MAX_DESC :: u32 where "XDMA_ENGINE_XFER_MAX_DESC \<equiv> 0x800"
abbreviation (input) XDMA_ENGINE_CREDIT_XFER_MAX_DESC :: u32 where "XDMA_ENGINE_CREDIT_XFER_MAX_DESC \<equiv> 0x3FF"
abbreviation (input) XDMA_ID_H2C :: u32 where "XDMA_ID_H2C \<equiv> 0x1fc0"
abbreviation (input) XDMA_ID_C2H :: u32 where "XDMA_ID_C2H \<equiv> 0x1fc1"
abbreviation (input) BYPASS_MODE_SPACING :: u32 where "BYPASS_MODE_SPACING \<equiv> 0x100"
abbreviation (input) XDMA_CHANNEL_NUM_MAX :: nat where "XDMA_CHANNEL_NUM_MAX \<equiv> 4"

definition zero_engine :: xdma_engine where
  "zero_engine = \<lparr>en_magic = 0, en_offline = False, en_shutdown = 0, en_dir = DMA_TO_DEVICE, en_streaming = False,
     en_running = False, en_non_incr_addr = False, en_eop_flush = False, en_desc_dequeued = 0, en_desc_max = 0, en_status = 0,
     en_transfer_list = [], en_result = [], en_result_bus = 0, en_desc_bus = 0, en_desc = [],
     en_desc_idx = 0, en_desc_used = 0, en_addr_align = 0, en_len_granularity = 0, en_addr_bits = 0, en_channel = 0, en_irq_bitmask = 0,
     en_bypass_offset = 0, en_irq_mask_value = 0, en_poll_wb = None, en_poll_bus = 0,
     en_perf = None, en_xfers = (\<lambda>_. zero_transfer), en_ops = [], en_wakes = []\<rparr>"

definition engine_alignments :: "engine_hw \<Rightarrow> xdma_engine \<Rightarrow> xdma_engine" where
  "engine_alignments hw e =
     (let (w, e) = read_register hw alignments e in
      if w \<noteq> 0
      then e\<lparr>en_addr_align := ucast (drop_bit 16 (and w 0x00ff0000)), en_len_granularity := ucast (drop_bit 8 (and w 0x0000ff00)),
             en_addr_bits := ucast (and w 0x000000ff)\<rparr>
      else e\<lparr>en_addr_align := 1, en_len_granularity := 1, en_addr_bits := 64\<rparr>)"

definition engine_writeback_setup :: "xdma_engine \<Rightarrow> xdma_engine res" where
  "engine_writeback_setup e = (case en_poll_wb e of
     None \<Rightarrow> Inl NullDeref
   | Some _ \<Rightarrow>
       let e = e\<lparr>en_poll_wb := Some 0\<rparr>;
           e = write_register (PCI_DMA_L (en_poll_bus e)) poll_mode_wb_lo e
       in Inr (write_register (PCI_DMA_H (en_poll_bus e)) poll_mode_wb_hi e))"

definition engine_init_regs :: "engine_hw \<Rightarrow> module_params \<Rightarrow> xdma_engine \<Rightarrow> xdma_engine res" where
  "engine_init_regs hw mp e =
     (let e = write_register XDMA_CTRL_NON_INCR_ADDR control_w1c e;
          e = engine_alignments hw e;
          reg_value = (if poll_mode mp then error_bits
                       else or error_bits (or XDMA_CTRL_IE_DESC_STOPPED XDMA_CTRL_IE_DESC_COMPLETED)) in
      rbind (if poll_mode mp then engine_writeback_setup e else Inr e) (\<lambda>e.
      let e = write_register reg_value interrupt_enable_mask e;
          e = e\<lparr>en_irq_mask_value := reg_value\<rparr>
      in Inr (if st_credit mp e then write_register (push_bit 16 (push_bit (en_channel e) 1)) credit_mode_enable_w1s e else e)))"

definition engine_free_resource :: "xdma_engine \<Rightarrow> xdma_engine" where
  "engine_free_resource e = e\<lparr>en_poll_wb := None, en_desc := [], en_result := []\<rparr>"

definition engine_alloc_resource :: "module_params \<Rightarrow> engine_memory \<Rightarrow> xdma_engine \<Rightarrow> int \<times> xdma_engine" where
  "engine_alloc_resource mp mem e = (case mem_desc mem of
     None \<Rightarrow> (- ENOMEM, engine_free_resource e)
   | Some bus \<Rightarrow>
       let e = e\<lparr>en_desc := replicate (unat (en_desc_max e)) cleared_desc, en_desc_bus := bus\<rparr> in
       if poll_mode mp \<and> mem_wb mem = None then (- ENOMEM, engine_free_resource e)
       else
         let e = (if poll_mode mp then e\<lparr>en_poll_wb := Some 0, en_poll_bus := the (mem_wb mem)\<rparr> else e) in
         if en_streaming e \<and> en_dir e = DMA_FROM_DEVICE then (case mem_result mem of
             None \<Rightarrow> (- ENOMEM, engine_free_resource e)
           | Some bus \<Rightarrow> (0, e\<lparr>en_result := replicate (unat (en_desc_max e)) \<lparr>res_status = 0, res_len = 0\<rparr>, en_result_bus := bus\<rparr>))
         else (0, e))"

text \<open>The engines of a direction.\<close>

definition engines :: "dma_data_direction \<Rightarrow> xdma_sgdev \<Rightarrow> xdma_engine list" where
  "engines dir d = (if dir = DMA_TO_DEVICE then sg_engine_h2c d else sg_engine_c2h d)"

definition put_engine :: "dma_data_direction \<Rightarrow> nat \<Rightarrow> xdma_engine \<Rightarrow> xdma_sgdev \<Rightarrow> xdma_sgdev" where
  "put_engine dir k e d =
     (if dir = DMA_TO_DEVICE then d\<lparr>sg_engine_h2c := (sg_engine_h2c d)[k := e]\<rparr> else d\<lparr>sg_engine_c2h := (sg_engine_c2h d)[k := e]\<rparr>)"

text \<open>What an engine learns of itself before it has memory.\<close>

definition engine_identity :: "engine_hw \<Rightarrow> module_params \<Rightarrow> dma_data_direction \<Rightarrow> nat \<Rightarrow> u32 \<Rightarrow> xdma_engine \<Rightarrow> xdma_engine" where
  "engine_identity hw mp dir channel n e =
     (let e = e\<lparr>en_magic := MAGIC_ENGINE, en_channel := channel, en_irq_bitmask := push_bit (unat n) 1,
                en_bypass_offset := n * BYPASS_MODE_SPACING\<rparr>;
          (v, e) = read_register hw engine_identifier e;
          e = (if and v 0x8000 \<noteq> 0 then e\<lparr>en_streaming := True\<rparr> else e);
          e = e\<lparr>en_dir := dir\<rparr>
      in e\<lparr>en_desc_max := (if st_credit mp e then XDMA_ENGINE_CREDIT_XFER_MAX_DESC else XDMA_ENGINE_XFER_MAX_DESC)\<rparr>)"

definition engine_init :: "engine_hw \<Rightarrow> module_params \<Rightarrow> engine_memory \<Rightarrow> dma_data_direction \<Rightarrow> nat \<Rightarrow> xdma_sgdev \<Rightarrow> (int \<times> xdma_sgdev) res" where
  "engine_init hw mp mem dir channel d =
     rbind (rd (engines dir d) channel) (\<lambda>e.
     let e = engine_identity hw mp dir channel (sg_engines_num d) e;
         d = (if dir = DMA_TO_DEVICE then d\<lparr>sg_mask_irq_h2c := or (sg_mask_irq_h2c d) (en_irq_bitmask e)\<rparr>
              else d\<lparr>sg_mask_irq_c2h := or (sg_mask_irq_c2h d) (en_irq_bitmask e)\<rparr>);
         d = d\<lparr>sg_engines_num := sg_engines_num d + 1\<rparr>;
         (rv, e) = engine_alloc_resource mp mem e in
     if rv \<noteq> 0 then Inr (rv, put_engine dir channel e d)
     else rbind (engine_init_regs hw mp e) (\<lambda>e. Inr (0, put_engine dir channel e d)))"

text \<open>The engine's memory is cleared with everything in it.\<close>

definition engine_destroy :: "module_params \<Rightarrow> dma_data_direction \<Rightarrow> nat \<Rightarrow> xdma_sgdev \<Rightarrow> xdma_sgdev res" where
  "engine_destroy mp dir k d =
     rbind (rd (engines dir d) k) (\<lambda>e.
     let e = write_register 0 interrupt_enable_mask e;
         e = (if st_credit mp e then write_register (push_bit 16 (push_bit (en_channel e) 1)) credit_mode_enable_w1c e else e);
         e = engine_free_resource e
     in Inr ((put_engine dir k (zero_engine\<lparr>en_offline := en_offline e, en_ops := en_ops e\<rparr>) d)\<lparr>sg_engines_num := sg_engines_num d - 1\<rparr>))"

subsection \<open>The engines of a device\<close>

definition get_engine_channel_id :: "engine_hw \<Rightarrow> xdma_engine \<Rightarrow> u32 \<times> xdma_engine" where
  "get_engine_channel_id hw e = (let (v, e) = read_register hw engine_identifier e in (drop_bit 8 (and v 0xf00), e))"

definition get_engine_id :: "engine_hw \<Rightarrow> xdma_engine \<Rightarrow> u32 \<times> xdma_engine" where
  "get_engine_id hw e = (let (v, e) = read_register hw engine_identifier e in (drop_bit 16 (and v 0xffff0000), e))"

type_synonym device_hw = "dma_data_direction \<Rightarrow> nat \<Rightarrow> engine_hw"
type_synonym device_memory = "dma_data_direction \<Rightarrow> nat \<Rightarrow> engine_memory"

definition probe_for_engine :: "device_hw \<Rightarrow> module_params \<Rightarrow> device_memory \<Rightarrow> dma_data_direction \<Rightarrow> nat \<Rightarrow> xdma_sgdev \<Rightarrow> (int \<times> xdma_sgdev) res" where
  "probe_for_engine hw mp mem dir channel d =
     rbind (rd (engines dir d) channel) (\<lambda>e.
     let (engine_id, e) = get_engine_id (hw dir channel) e;
         (channel_id, e) = get_engine_channel_id (hw dir channel) e;
         d = put_engine dir channel e d in
     if engine_id \<noteq> (if dir = DMA_TO_DEVICE then XDMA_ID_H2C else XDMA_ID_C2H) \<or> channel_id \<noteq> of_nat channel
     then Inr (- EINVAL, d)
     else engine_init (hw dir channel) mp (mem dir channel) dir channel d)"

text \<open>The channels of a direction are probed until one is missing; \<open>n\<close> is the number left.\<close>

fun probe_channels :: "device_hw \<Rightarrow> module_params \<Rightarrow> device_memory \<Rightarrow> dma_data_direction \<Rightarrow> nat \<Rightarrow> nat \<Rightarrow> xdma_sgdev \<Rightarrow> (nat \<times> xdma_sgdev) res" where
  "probe_channels hw mp mem dir 0 i d = Inr (i, d)"
| "probe_channels hw mp mem dir (Suc n) i d =
     rbind (probe_for_engine hw mp mem dir i d) (\<lambda>(rv, d).
     if rv \<noteq> 0 then Inr (i, d) else probe_channels hw mp mem dir n (Suc i) d)"

definition probe_engines :: "device_hw \<Rightarrow> module_params \<Rightarrow> device_memory \<Rightarrow> xdma_sgdev \<Rightarrow> xdma_sgdev res" where
  "probe_engines hw mp mem d =
     rbind (probe_channels hw mp mem DMA_TO_DEVICE (nat (sint (sg_h2c_channel_max d))) 0 d) (\<lambda>(i, d).
     let d = d\<lparr>sg_h2c_channel_max := of_nat i\<rparr> in
     rbind (probe_channels hw mp mem DMA_FROM_DEVICE (nat (sint (sg_c2h_channel_max d))) 0 d) (\<lambda>(i, d).
     Inr (d\<lparr>sg_c2h_channel_max := of_nat i\<rparr>)))"

definition remove_channels :: "module_params \<Rightarrow> dma_data_direction \<Rightarrow> nat \<Rightarrow> xdma_sgdev \<Rightarrow> xdma_sgdev res" where
  "remove_channels mp dir n = foldM (\<lambda>i d. rbind (rd (engines dir d) i) (\<lambda>e.
     if en_magic e = MAGIC_ENGINE then engine_destroy mp dir i d else Inr d)) [0..<n]"

definition remove_engines :: "module_params \<Rightarrow> xdma_sgdev \<Rightarrow> xdma_sgdev res" where
  "remove_engines mp d =
     rbind (remove_channels mp DMA_TO_DEVICE (nat (sint (sg_h2c_channel_max d))) d)
       (\<lambda>d. remove_channels mp DMA_FROM_DEVICE (nat (sint (sg_c2h_channel_max d))) d)"

text \<open>A new device has no engine in use; the caller's limits are cut to the number of channels there is room for.\<close>

definition alloc_dev_instance :: xdma_sgdev where
  "alloc_dev_instance = \<lparr>sg_known = True, sg_h2c_channel_max = 0, sg_c2h_channel_max = 0,
     sg_engine_h2c = replicate XDMA_CHANNEL_NUM_MAX zero_engine, sg_engine_c2h = replicate XDMA_CHANNEL_NUM_MAX zero_engine,
     sg_engines_num = 0, sg_mask_irq_h2c = 0, sg_mask_irq_c2h = 0\<rparr>"

definition channel_limit :: "s32 \<Rightarrow> s32" where
  "channel_limit n = (if n = 0 \<or> int XDMA_CHANNEL_NUM_MAX < sint n then of_nat XDMA_CHANNEL_NUM_MAX else n)"

definition set_offline :: "bool \<Rightarrow> xdma_sgdev \<Rightarrow> xdma_sgdev" where
  "set_offline b d = d\<lparr>sg_engine_h2c := map (\<lambda>e. e\<lparr>en_offline := b\<rparr>) (sg_engine_h2c d),
     sg_engine_c2h := map (\<lambda>e. e\<lparr>en_offline := b\<rparr>) (sg_engine_c2h d)\<rparr>"

text \<open>Opening a device, as far as the engines go: the device is off line until its engines are found.\<close>

definition open_engines :: "device_hw \<Rightarrow> module_params \<Rightarrow> device_memory \<Rightarrow> s32 \<Rightarrow> s32 \<Rightarrow> xdma_sgdev res" where
  "open_engines hw mp mem h2c c2h =
     rbind (probe_engines hw mp mem (set_offline True alloc_dev_instance\<lparr>sg_h2c_channel_max := channel_limit h2c,
       sg_c2h_channel_max := channel_limit c2h\<rparr>)) (\<lambda>d. Inr (set_offline False d))"

subsection \<open>Off and on line\<close>

definition xdma_device_offline :: "module_params \<Rightarrow> xdma_sgdev \<Rightarrow> xdma_sgdev res" where
  "xdma_device_offline mp d =
     (let d = set_offline True d;
          stop = (\<lambda>dir i d. rbind (rd (engines dir d) i) (\<lambda>e.
            if en_magic e = MAGIC_ENGINE
            then Inr (put_engine dir i (xdma_engine_stop mp (e\<lparr>en_shutdown := or (en_shutdown e) ENGINE_SHUTDOWN_REQUEST\<rparr>)) d)
            else Inr d))
      in rbind (foldM (stop DMA_TO_DEVICE) [0..<nat (sint (sg_h2c_channel_max d))] d)
           (\<lambda>d. foldM (stop DMA_FROM_DEVICE) [0..<nat (sint (sg_c2h_channel_max d))] d))"

definition xdma_device_online :: "device_hw \<Rightarrow> module_params \<Rightarrow> xdma_sgdev \<Rightarrow> xdma_sgdev res" where
  "xdma_device_online hw mp d =
     (let start = (\<lambda>dir i d. rbind (rd (engines dir d) i) (\<lambda>e.
            if en_magic e = MAGIC_ENGINE
            then rbind (engine_init_regs (hw dir i) mp e) (\<lambda>e.
              Inr (put_engine dir i (e\<lparr>en_shutdown := and (en_shutdown e) (not ENGINE_SHUTDOWN_REQUEST)\<rparr>) d))
            else Inr d))
      in rbind (foldM (start DMA_TO_DEVICE) [0..<nat (sint (sg_h2c_channel_max d))] d) (\<lambda>d.
         rbind (foldM (start DMA_FROM_DEVICE) [0..<nat (sint (sg_c2h_channel_max d))] d) (\<lambda>d.
         Inr (set_offline False d))))"

definition engine_addrmode_set :: "engine_hw \<Rightarrow> nat option \<Rightarrow> xdma_engine \<Rightarrow> int \<times> xdma_engine" where
  "engine_addrmode_set hw arg e = (case arg of
     None \<Rightarrow> (- EFAULT, engine_alignments hw e)
   | Some dst \<Rightarrow>
       let e = e\<lparr>en_non_incr_addr := (dst \<noteq> 0)\<rparr>;
           e = write_register XDMA_CTRL_NON_INCR_ADDR (if en_non_incr_addr e then control_w1s else control_w1c) e
       in (0, engine_alignments hw e))"

subsection \<open>Interrupts and polling\<close>

text \<open>The interrupt of a channel turns itself off and leaves the work to the service routine, which turns it on again.\<close>

definition xdma_channel_irq :: "engine_hw \<Rightarrow> xdma_engine \<Rightarrow> xdma_engine" where
  "xdma_channel_irq hw e =
     snd (read_register hw channel_int_pending (write_register (en_irq_mask_value e) interrupt_enable_mask_w1c e))"

definition engine_service_work :: "engine_hw \<Rightarrow> module_params \<Rightarrow> bool \<Rightarrow> xdma_engine \<Rightarrow> xdma_engine res" where
  "engine_service_work hw mp msix_enabled e =
     (if en_magic e \<noteq> MAGIC_ENGINE then Inr e
      else rbind (engine_service hw mp 0 e) (\<lambda>(rv, e).
        if rv < 0 then Inr e
        else Inr (if msix_enabled then write_register (en_irq_mask_value e) interrupt_enable_mask_w1s e
                  else write_register (en_irq_bitmask e) channel_int_enable_w1s e)))"

text \<open>
  Polling reads the writeback again and again: the values found there, and whether the time is up at
  each of them, are parameters.  The result is None when they do not suffice.
\<close>

fun engine_service_wb_monitor :: "u32 \<Rightarrow> (u32 \<times> bool) list \<Rightarrow> u32 option" where
  "engine_service_wb_monitor expected [] = (if expected = 0 then Some 0 else None)"
| "engine_service_wb_monitor expected ((desc_wb, late) # polls) =
     (if expected = 0 then Some 0
      else if and desc_wb WB_ERR_MASK \<noteq> 0 then Some desc_wb
      else if expected \<le> desc_wb then Some desc_wb
      else if late then Some (if expected < and desc_wb WB_COUNT_MASK then or expected WB_ERR_MASK else desc_wb)
      else engine_service_wb_monitor expected polls)"

definition engine_service_poll :: "engine_hw \<Rightarrow> module_params \<Rightarrow> (u32 \<times> bool) list \<Rightarrow> u32 \<Rightarrow> xdma_engine \<Rightarrow> (int \<times> xdma_engine) res option" where
  "engine_service_poll hw mp polls expected e =
     (if en_magic e \<noteq> MAGIC_ENGINE then Some (Inr (- EINVAL, e))
      else map_option (\<lambda>desc_wb. if desc_wb = 0 then Inr (0, e) else engine_service hw mp desc_wb e)
        (engine_service_wb_monitor expected polls))"

end
