(* ===== verification/Sgdma_Chain.thy ===== *)
theory Sgdma_Chain
  imports Sgdma_Submit
begin

text \<open>
  What the hardware finds in memory: the descriptors of a transfer are a chain that starts at the
  transfer's bus address, ends with the stop bit after exactly the transfer's descriptors, and whose
  bursts of adjacent descriptors stay inside the transfer and inside a page.
\<close>

subsection \<open>Updating a range\<close>

definition upd_range :: "nat \<Rightarrow> nat \<Rightarrow> (nat \<Rightarrow> 'a \<Rightarrow> 'a) \<Rightarrow> 'a list \<Rightarrow> 'a list" where
  "upd_range v n f xs = map (\<lambda>k. if v \<le> k \<and> k < v + n then f (k - v) (xs ! k) else xs ! k) [0..<length xs]"

lemma upd_range_length [simp]: "length (upd_range v n f xs) = length xs"
  by (simp add: upd_range_def)

lemma upd_range_nth: "k < length xs \<Longrightarrow> upd_range v n f xs ! k = (if v \<le> k \<and> k < v + n then f (k - v) (xs ! k) else xs ! k)"
  by (simp add: upd_range_def)

lemma upd_range_0 [simp]: "upd_range v 0 f xs = xs"
  by (intro nth_equalityI) (auto simp: upd_range_nth)

lemma upd_range_Suc:
  "v + n < length xs \<Longrightarrow> (upd_range v n f xs)[v + n := f n (upd_range v n f xs ! (v + n))] = upd_range v (Suc n) f xs"
  by (intro nth_equalityI) (auto simp: upd_range_nth nth_list_update)

lemma upd_range_upd_range: "upd_range v n f (upd_range v n g xs) = upd_range v n (\<lambda>i. f i \<circ> g i) xs"
  by (intro nth_equalityI) (auto simp: upd_range_nth)

lemma upd_range_cong: "(\<And>i d. i < n \<Longrightarrow> f i d = g i d) \<Longrightarrow> upd_range v n f xs = upd_range v n g xs"
  by (intro nth_equalityI) (auto simp: upd_range_nth)

lemma upd_range_widen: "m \<le> n \<Longrightarrow> upd_range v m f xs = upd_range v n (\<lambda>i d. if i < m then f i d else d) xs"
  by (intro nth_equalityI) (auto simp: upd_range_nth)

lemma desc_at_range:
  "v + i < length xs \<Longrightarrow> i < n \<Longrightarrow> desc_at (v + i) f xs = Inr (upd_range v n (\<lambda>k d. if k = i then f d else d) xs)"
  unfolding desc_at_def by simp (intro nth_equalityI; auto simp: upd_range_nth nth_list_update)

lemma desc_at_fold:
  assumes "v + n \<le> length xs"
  shows "foldM (\<lambda>i. desc_at (v + i) (f i)) [0..<n] xs = Inr (upd_range v n f xs)"
  using assms
proof (induction n)
  case (Suc n)
  then show ?case using upd_range_Suc[of v n xs f] by (simp add: foldM_append desc_at_def)
qed simp

subsection \<open>Building\<close>

lemma bus_step: "bus + 32 * of_nat (Suc n) = bus + 32 * of_nat n + (32 :: u64)"
  by (simp add: algebra_simps)

lemma desc_init_range:
  assumes "v + unat n \<le> length ds" "n \<noteq> 0" "unat n < 2147483648"
  shows "transfer_desc_init v bus n ds = Inr (upd_range v (unat n) (\<lambda>i d. d\<lparr>
      next_lo := (if Suc i = unat n then 0 else PCI_DMA_L (bus + 32 * of_nat (Suc i))),
      next_hi := (if Suc i = unat n then 0 else PCI_DMA_H (bus + 32 * of_nat (Suc i))),
      desc_bytes := 0, desc_control := DESC_MAGIC\<rparr>) ds)"
proof -
  let ?f = "\<lambda>i d. d\<lparr>next_lo := PCI_DMA_L (bus + 32 * of_nat (Suc i)), next_hi := PCI_DMA_H (bus + 32 * of_nat (Suc i)),
     desc_bytes := 0, desc_control := DESC_MAGIC\<rparr>"
  have c: "nat (sint n - 1) = unat n - 1" by (simp add: sint_unat[OF assms(3)] nat_diff_distrib' del: of_nat_unat)
  have n: "0 < unat n" using assms(2) by (simp add: unat_gt_0)
  have f: "foldM (\<lambda>i (desc_bus, ds). let desc_bus = desc_bus + 32 in
         rbind (desc_at (v + i) (\<lambda>d. d\<lparr>next_lo := PCI_DMA_L desc_bus, next_hi := PCI_DMA_H desc_bus,
           desc_bytes := 0, desc_control := DESC_MAGIC\<rparr>) ds) (\<lambda>ds. Inr (desc_bus, ds))) [0..<m] (bus, ds) =
     Inr (bus + 32 * of_nat m, upd_range v m ?f ds)" if "v + m \<le> length ds" for m
    using that
  proof (induction m)
    case (Suc m)
    then show ?case using upd_range_Suc[of v m ds ?f] by (simp add: foldM_append desc_at_def Let_def algebra_simps)
  qed simp
  let ?l = "\<lambda>d. d\<lparr>next_lo := 0, next_hi := 0, desc_bytes := 0, desc_control := DESC_MAGIC\<rparr>"
  have w: "upd_range v (unat n - 1) ?f ds = upd_range v (unat n) (\<lambda>k d. if k < unat n - 1 then ?f k d else d) ds"
    by (rule upd_range_widen) simp
  have "transfer_desc_init v bus n ds = desc_at (v + (unat n - 1)) ?l (upd_range v (unat n - 1) ?f ds)"
    unfolding transfer_desc_init_def c using f[of "unat n - 1"] assms(1) by simp
  also have "\<dots> = Inr (upd_range v (unat n) (\<lambda>k. (\<lambda>d. if k = unat n - 1 then ?l d else d) \<circ> (\<lambda>d. if k < unat n - 1 then ?f k d else d)) ds)"
    unfolding w upd_range_upd_range[symmetric] using n assms(1) by (intro desc_at_range) simp_all
  also have "\<dots> = Inr (upd_range v (unat n) (\<lambda>i d. d\<lparr>
      next_lo := (if Suc i = unat n then 0 else PCI_DMA_L (bus + 32 * of_nat (Suc i))),
      next_hi := (if Suc i = unat n then 0 else PCI_DMA_H (bus + 32 * of_nat (Suc i))),
      desc_bytes := 0, desc_control := DESC_MAGIC\<rparr>) ds)"
    using n by (intro arg_cong[of _ _ Inr] upd_range_cong) auto
  finally show ?thesis .
qed


text \<open>The endpoint address of a piece, and the completion record it is answered in.\<close>

definition ep_at :: "bool \<Rightarrow> u64 \<Rightarrow> sw_desc list \<Rightarrow> nat \<Rightarrow> u64" where
  "ep_at fixed ep sds i = (if fixed then ep else ep + sum_list (map (\<lambda>d. ucast (sd_len d)) (take i sds)))"

lemma ep_at_Suc: "i < length sds \<Longrightarrow> ep_at fixed ep sds (Suc i) = (if fixed then ep else ep_at fixed ep sds i + ucast (sd_len (sds ! i)))"
  by (simp add: ep_at_def take_Suc_conv_app_nth)

lemma ep_at_fixed [simp]: "ep_at True ep sds i = ep" "ep_at False ep sds 0 = ep"
  by (simp_all add: ep_at_def)

lemma request_same_ep [simp]: "req\<lparr>rq_ep_addr := rq_ep_addr req\<rparr> = req"
  by (cases req) simp

definition writeback :: "xdma_engine \<Rightarrow> bool" where
  "writeback e \<longleftrightarrow> en_streaming e \<and> en_dir e = DMA_FROM_DEVICE"

lemma build_desc_state [simp]:
  "build_desc (e\<lparr>en_desc := ds\<rparr>) = build_desc e" "build_desc (e\<lparr>en_result := rs\<rparr>) = build_desc e"
  "build_desc e (xfer\<lparr>xf_len := l\<rparr>) = build_desc e xfer"
  by (simp_all add: build_desc_def fun_eq_iff)

lemma writeback_state [simp]:
  "writeback (e\<lparr>en_desc := ds\<rparr>) = writeback e" "writeback (e\<lparr>en_result := rs\<rparr>) = writeback e"
  by (simp_all add: writeback_def)

lemma build_desc_no_writeback: "\<not> writeback e \<Longrightarrow> build_desc e xfer i sd ep b = build_desc e xfer i sd ep b'"
  by (auto simp: build_desc_def writeback_def fun_eq_iff)

lemma build_range:
  fixes e req xfer
  defines "sds \<equiv> drop (unat (rq_sw_desc_idx req)) (rq_sdesc req)" and "v \<equiv> xf_desc_virt xfer"
  assumes "v + n \<le> length (en_desc e)" "n \<le> length sds" "writeback e \<Longrightarrow> v + n \<le> length (en_result e)"
  shows "foldM (build_step (unat (rq_sw_desc_idx req)) v) [0..<n] (e, req, xfer, bus) =
    Inr (e\<lparr>en_desc := upd_range v n (\<lambda>i. build_desc e xfer i (sds ! i) (ep_at (en_non_incr_addr e) (rq_ep_addr req) sds i) (bus + 32 * of_nat i)) (en_desc e),
           en_result := (if writeback e then upd_range v n (\<lambda>i r. \<lparr>res_status = 0, res_len = 0\<rparr>) (en_result e) else en_result e)\<rparr>,
         req\<lparr>rq_ep_addr := ep_at (en_non_incr_addr e) (rq_ep_addr req) sds n\<rparr>,
         xfer\<lparr>xf_len := xf_len xfer + sum_list (map sd_len (take n sds))\<rparr>,
         if writeback e then bus + 32 * of_nat n else bus)"
  using assms(3-5)
proof (induction n)
  case 0
  show ?case by (simp add: ep_at_def)
next
  case (Suc n)
  let ?f = "\<lambda>i. build_desc e xfer i (sds ! i) (ep_at (en_non_incr_addr e) (rq_ep_addr req) sds i) (bus + 32 * of_nat i)"
  let ?ds = "upd_range v n ?f (en_desc e)"
  have i: "unat (rq_sw_desc_idx req) + n < length (rq_sdesc req)" "rq_sdesc req ! (unat (rq_sw_desc_idx req) + n) = sds ! n" "n < length sds"
    using Suc.prems(2) by (auto simp: sds_def)
  have d: "desc_at (v + n) (build_desc e xfer n (sds ! n) (ep_at (en_non_incr_addr e) (rq_ep_addr req) sds n)
       (if writeback e then bus + 32 * of_nat n else bus)) ?ds = Inr (upd_range v (Suc n) ?f (en_desc e))"
    using Suc.prems(1) upd_range_Suc[of v n "en_desc e" ?f] build_desc_no_writeback[of e xfer n _ _ bus "bus + 32 * of_nat n"]
    by (auto simp: desc_at_def)
  have r: "wr (upd_range v n (\<lambda>i r. \<lparr>res_status = 0, res_len = 0\<rparr>) (en_result e)) (v + n) \<lparr>res_status = 0, res_len = 0\<rparr> =
      Inr (upd_range v (Suc n) (\<lambda>i r. \<lparr>res_status = 0, res_len = 0\<rparr>) (en_result e))" if "writeback e"
    using Suc.prems(3)[OF that] upd_range_Suc[of v n "en_result e" "\<lambda>i r. \<lparr>res_status = 0, res_len = 0\<rparr>"] by simp
  note w = writeback_def[of e, symmetric]
  have IH: "foldM (build_step (unat (rq_sw_desc_idx req)) v) [0..<n] (e, req, xfer, bus) = Inr (e\<lparr>en_desc := ?ds,
           en_result := (if writeback e then upd_range v n (\<lambda>i r. \<lparr>res_status = 0, res_len = 0\<rparr>) (en_result e) else en_result e)\<rparr>,
         req\<lparr>rq_ep_addr := ep_at (en_non_incr_addr e) (rq_ep_addr req) sds n\<rparr>,
         xfer\<lparr>xf_len := xf_len xfer + sum_list (map sd_len (take n sds))\<rparr>,
         if writeback e then bus + 32 * of_nat n else bus)"
    using Suc.prems by (intro Suc.IH) auto
  show ?case
    unfolding upt_Suc_append[OF le0] foldM_append IH
    using i r by (simp add: build_step_def d ep_at_Suc take_Suc_conv_app_nth bus_step w add.assoc del: of_nat_Suc)
qed


subsection \<open>The whole transfer\<close>

text \<open>The descriptor of a transfer: what every field holds after \<open>transfer_init\<close>.\<close>

definition chain_next :: "u64 \<Rightarrow> nat \<Rightarrow> nat \<Rightarrow> u64" where
  "chain_next bus n i = (if Suc i = n then 0 else bus + 32 * of_nat (Suc i))"

definition chain_flags :: "dma_data_direction \<Rightarrow> nat \<Rightarrow> nat \<Rightarrow> u32" where
  "chain_flags dir n i = (if Suc i = n then 0x13 else if dir = DMA_TO_DEVICE then 0x10 else 0)"

definition chain_adj :: "u64 \<Rightarrow> nat \<Rightarrow> nat \<Rightarrow> u32" where
  "chain_adj bus n i = xdma_get_next_adj (of_nat n - of_nat i - 1) (PCI_DMA_L (chain_next bus n i))"

definition chain_desc :: "xdma_engine \<Rightarrow> u64 \<Rightarrow> sw_desc list \<Rightarrow> u64 \<Rightarrow> u64 \<Rightarrow> nat \<Rightarrow> nat \<Rightarrow> xdma_desc" where
  "chain_desc e ep sds bus res n i =
     (let sd = sds ! i; rc = sd_addr sd; ep = ep_at (en_non_incr_addr e) ep sds i;
          src = (if writeback e then res + 32 * of_nat i else if en_dir e = DMA_TO_DEVICE then rc else ep);
          dst = (if en_dir e = DMA_TO_DEVICE then ep else rc)
      in \<lparr>desc_control = or (or DESC_MAGIC (push_bit 8 (chain_adj bus n i))) (chain_flags (en_dir e) n i), desc_bytes = sd_len sd,
          src_addr_lo = PCI_DMA_L src, src_addr_hi = PCI_DMA_H src, dst_addr_lo = PCI_DMA_L dst, dst_addr_hi = PCI_DMA_H dst,
          next_lo = PCI_DMA_L (chain_next bus n i), next_hi = PCI_DMA_H (chain_next bus n i)\<rparr>)"

definition ring_ok :: "xdma_engine \<Rightarrow> bool" where
  "ring_ok e \<longleftrightarrow> length (en_desc e) = unat (en_desc_max e) \<and> unat (en_desc_max e) < 2147483648 \<and>
     en_desc_idx e < en_desc_max e \<and> (writeback e \<longrightarrow> length (en_result e) = unat (en_desc_max e))"

definition cb_ok :: "xdma_request_cb \<Rightarrow> bool" where
  "cb_ok req \<longleftrightarrow> rq_sw_desc_idx req \<le> rq_sw_desc_cnt req \<and> unat (rq_sw_desc_cnt req) \<le> length (rq_sdesc req)"

definition req_rest :: "xdma_request_cb \<Rightarrow> sw_desc list" where
  "req_rest req = drop (unat (rq_sw_desc_idx req)) (take (unat (rq_sw_desc_cnt req)) (rq_sdesc req))"

text \<open>How many pieces the next transfer takes: no more than are left, and than fit before the end of the ring.\<close>

definition xfer_count :: "xdma_engine \<Rightarrow> xdma_request_cb \<Rightarrow> nat" where
  "xfer_count e req = min (length (req_rest req)) (unat (en_desc_max e) - unat (en_desc_idx e))"

lemma xfer_count_word:
  assumes "ring_ok e" "cb_ok req"
  defines "n \<equiv> min (rq_sw_desc_cnt req - rq_sw_desc_idx req) (en_desc_max e)"
  shows "(if en_desc_idx e + n \<ge> en_desc_max e then en_desc_max e - en_desc_idx e else n) = of_nat (xfer_count e req)"
    "xfer_count e req < 2147483648" "unat (of_nat (xfer_count e req) :: u32) = xfer_count e req"
proof -
  have l: "length (req_rest req) = unat (rq_sw_desc_cnt req) - unat (rq_sw_desc_idx req)"
    using assms(2) by (simp add: req_rest_def cb_ok_def)
  have m: "unat (en_desc_idx e) < unat (en_desc_max e)" "unat (en_desc_max e) < 2147483648"
    using assms(1) by (simp_all add: ring_ok_def word_less_nat_alt)
  have n: "unat n = min (length (req_rest req)) (unat (en_desc_max e))"
    using assms(2) by (auto simp: n_def min_def l word_le_nat_alt unat_minus_no_wrap cb_ok_def)
  have s: "unat (en_desc_idx e + n) = unat (en_desc_idx e) + unat n" using m n by (intro unat_plus_no_wrap) simp
  show c: "xfer_count e req < 2147483648" using m by (simp add: xfer_count_def)
  then show u: "unat (of_nat (xfer_count e req) :: u32) = xfer_count e req" by (simp add: unat_of_nat)
  show "(if en_desc_idx e + n \<ge> en_desc_max e then en_desc_max e - en_desc_idx e else n) = of_nat (xfer_count e req)"
    using m n s by (intro word_unat_eq_iff[THEN iffD2], unfold u) (auto simp: xfer_count_def word_le_nat_alt unat_minus_no_wrap)
qed


lemma next_adj_64: "xdma_get_next_adj r a < 64"
proof -
  have "min (0x40 - k - 1) (r - 1) < 64" if "k < 64" for k :: u32
    using that by (auto simp: min_def word_less_nat_alt word_le_nat_alt unat_minus_no_wrap)
  moreover have "(drop_bit 5 (and a (0x1000 - 1)) :: u32) mod 0x40 < 64" by (rule word_mod_less_divisor) simp
  ultimately show ?thesis by (simp add: xdma_get_next_adj_def Let_def)
qed

definition init_xfer :: "xdma_engine \<Rightarrow> xdma_request_cb \<Rightarrow> xdma_transfer" where
  "init_xfer e req = (let n = of_nat (xfer_count e req); idx = en_desc_idx e in
     zero_transfer\<lparr>xf_dir := en_dir e, xf_desc_virt := unat idx, xf_desc_bus := en_desc_bus e + 32 * ucast idx,
       xf_res_bus := en_result_bus e + 32 * ucast idx, xf_desc_index := idx,
       xf_len := sum_list (map sd_len (take (xfer_count e req) (req_rest req))),
       xf_desc_adjacent := n, xf_desc_cmpl_th := n, xf_desc_num := n\<rparr>)"

definition init_desc :: "xdma_engine \<Rightarrow> xdma_request_cb \<Rightarrow> nat \<Rightarrow> xdma_desc" where
  "init_desc e req = chain_desc e (rq_ep_addr req) (req_rest req) (en_desc_bus e + 32 * ucast (en_desc_idx e))
     (en_result_bus e + 32 * ucast (en_desc_idx e)) (xfer_count e req)"

lemma desc_stages:
  assumes "i < n" "n < 4294967296" "xf_dir xfer = en_dir e"
  shows "xdma_desc_adjacent (xdma_get_next_adj (of_nat n - of_nat i - 1) (PCI_DMA_L (chain_next bus n i)))
      ((if en_dir e = DMA_TO_DEVICE \<and> i < n - 1 then xdma_desc_control_set XDMA_DESC_EOP else id)
       ((if i = n - 1 then xdma_desc_control_set (or (or XDMA_DESC_STOPPED XDMA_DESC_EOP) XDMA_DESC_COMPLETED) else id)
        (build_desc e xfer j (sds ! i) (ep_at (en_non_incr_addr e) ep sds i) (res + 32 * of_nat i)
         (d\<lparr>next_lo := PCI_DMA_L (chain_next bus n i), next_hi := PCI_DMA_H (chain_next bus n i), desc_bytes := 0, desc_control := DESC_MAGIC\<rparr>)))) =
    chain_desc e ep sds bus res n i"
  using assms
  by (cases d; cases "en_dir e") (auto simp: xdma_desc_adjacent_def xdma_desc_control_set_def build_desc_def xdma_desc_set_def chain_desc_def
      Let_def chain_flags_def chain_adj_def writeback_def or.commute or.left_commute or.assoc)


lemma rest_drop:
  assumes "cb_ok req" "i \<le> length (req_rest req)"
  shows "take i (drop (unat (rq_sw_desc_idx req)) (rq_sdesc req)) = take i (req_rest req)"
    "i < length (req_rest req) \<Longrightarrow> drop (unat (rq_sw_desc_idx req)) (rq_sdesc req) ! i = req_rest req ! i"
    "ep_at fixed ep (drop (unat (rq_sw_desc_idx req)) (rq_sdesc req)) i = ep_at fixed ep (req_rest req) i"
    "length (req_rest req) \<le> length (drop (unat (rq_sw_desc_idx req)) (rq_sdesc req))"
proof -
  show t: "take i (drop (unat (rq_sw_desc_idx req)) (rq_sdesc req)) = take i (req_rest req)"
    using assms by (auto simp: req_rest_def cb_ok_def drop_take min_def split: if_splits)
  show "i < length (req_rest req) \<Longrightarrow> drop (unat (rq_sw_desc_idx req)) (rq_sdesc req) ! i = req_rest req ! i"
    using assms by (auto simp: req_rest_def cb_ok_def drop_take)
  show "ep_at fixed ep (drop (unat (rq_sw_desc_idx req)) (rq_sdesc req)) i = ep_at fixed ep (req_rest req) i"
    by (simp add: ep_at_def t)
  show "length (req_rest req) \<le> length (drop (unat (rq_sw_desc_idx req)) (rq_sdesc req))"
    using assms by (auto simp: req_rest_def cb_ok_def)
qed

lemma desc_init_chain:
  assumes "v + n \<le> length ds" "0 < n" "n < 2147483648"
  shows "transfer_desc_init v bus (of_nat n) ds = Inr (upd_range v n (\<lambda>i d. d\<lparr>next_lo := PCI_DMA_L (chain_next bus n i),
      next_hi := PCI_DMA_H (chain_next bus n i), desc_bytes := 0, desc_control := DESC_MAGIC\<rparr>) ds)"
proof -
  have u: "unat (of_nat n :: u32) = n" using assms(3) by (simp add: unat_of_nat)
  have "(of_nat n :: u32) \<noteq> 0" using u assms(2) by (metis unat_0 less_numeral_extra(3))
  then show ?thesis
    using desc_init_range[of v "of_nat n" ds bus] assms u
    by (auto simp: PCI_DMA_L_def PCI_DMA_H_def chain_next_def intro!: upd_range_cong)
qed

lemma build_ok:
  assumes "cb_ok req" "n \<le> length (req_rest req)" "n < 4294967296" "xf_desc_virt xfer + n \<le> length (en_desc e)"
    "writeback e \<Longrightarrow> xf_desc_virt xfer + n \<le> length (en_result e)"
  shows "transfer_build e req xfer (of_nat n) =
    Inr (e\<lparr>en_desc := upd_range (xf_desc_virt xfer) n (\<lambda>i. build_desc e xfer i (req_rest req ! i)
             (ep_at (en_non_incr_addr e) (rq_ep_addr req) (req_rest req) i) (xf_res_bus xfer + 32 * of_nat i)) (en_desc e),
           en_result := (if writeback e then upd_range (xf_desc_virt xfer) n (\<lambda>i r. \<lparr>res_status = 0, res_len = 0\<rparr>) (en_result e) else en_result e)\<rparr>,
         req\<lparr>rq_ep_addr := ep_at (en_non_incr_addr e) (rq_ep_addr req) (req_rest req) n, rq_sw_desc_idx := rq_sw_desc_idx req + of_nat n\<rparr>,
         xfer\<lparr>xf_len := xf_len xfer + sum_list (map sd_len (take n (req_rest req)))\<rparr>)"
proof -
  note r = rest_drop[OF assms(1)]
  have u: "unat (of_nat n :: u32) = n" using assms(3) by (simp add: unat_of_nat)
  have "upd_range (xf_desc_virt xfer) n (\<lambda>i. build_desc e xfer i (drop (unat (rq_sw_desc_idx req)) (rq_sdesc req) ! i)
      (ep_at (en_non_incr_addr e) (rq_ep_addr req) (drop (unat (rq_sw_desc_idx req)) (rq_sdesc req)) i) (xf_res_bus xfer + 32 * of_nat i)) (en_desc e) =
    upd_range (xf_desc_virt xfer) n (\<lambda>i. build_desc e xfer i (req_rest req ! i)
      (ep_at (en_non_incr_addr e) (rq_ep_addr req) (req_rest req) i) (xf_res_bus xfer + 32 * of_nat i)) (en_desc e)"
    using assms(2) by (intro upd_range_cong) (simp add: r)
  then show ?thesis
    using build_range[of xfer n e req "xf_res_bus xfer"] assms r(4)[of 0] r(1,3)[OF assms(2)]
    by (simp add: transfer_build_def u)
qed


lemma desc_finish:
  assumes "v + n \<le> length ds" "0 < n" "n < 2147483648"
    and f: "\<And>i d. i < n \<Longrightarrow> next_lo (f i d) = PCI_DMA_L (chain_next bus n i)"
    and num: "xf_desc_num xfer = of_nat n" "xf_desc_virt xfer = v"
  shows "finish_descs dir xfer (of_nat n) (upd_range v n f ds) =
   Inr (upd_range v n (\<lambda>i d. xdma_desc_adjacent (xdma_get_next_adj (of_nat n - of_nat i - 1) (PCI_DMA_L (chain_next bus n i)))
      ((if dir = DMA_TO_DEVICE \<and> i < n - 1 then xdma_desc_control_set XDMA_DESC_EOP else id)
       ((if i = n - 1 then xdma_desc_control_set (or (or XDMA_DESC_STOPPED XDMA_DESC_EOP) XDMA_DESC_COMPLETED) else id) (f i d)))) ds)"
proof -
  let ?last = "xdma_desc_control_set (or (or XDMA_DESC_STOPPED XDMA_DESC_EOP) XDMA_DESC_COMPLETED)"
  let ?g = "\<lambda>i d. (if dir = DMA_TO_DEVICE \<and> i < n - 1 then xdma_desc_control_set XDMA_DESC_EOP else id) ((if i = n - 1 then ?last else id) (f i d))"
  have a: "desc_at (v + (n - 1)) ?last (upd_range v n f ds) = Inr (upd_range v n (\<lambda>i d. (if i = n - 1 then ?last else id) (f i d)) ds)"
    using assms(1,2) desc_at_range[of v "n - 1" "upd_range v n f ds" n ?last]
    by (auto simp: upd_range_upd_range intro!: upd_range_cong)
  have b: "(if dir = DMA_TO_DEVICE then foldM (\<lambda>i. desc_at (v + i) (xdma_desc_control_set XDMA_DESC_EOP)) [0..<n - 1]
        (upd_range v n (\<lambda>i d. (if i = n - 1 then ?last else id) (f i d)) ds)
      else Inr (upd_range v n (\<lambda>i d. (if i = n - 1 then ?last else id) (f i d)) ds)) = Inr (upd_range v n ?g ds)"
    using assms(1) desc_at_fold[of v "n - 1" "upd_range v n (\<lambda>i d. (if i = n - 1 then ?last else id) (f i d)) ds" "\<lambda>_. xdma_desc_control_set XDMA_DESC_EOP"]
      upd_range_widen[of "n - 1" n v "\<lambda>_. xdma_desc_control_set XDMA_DESC_EOP" "upd_range v n (\<lambda>i d. (if i = n - 1 then ?last else id) (f i d)) ds"]
    by (auto simp: upd_range_upd_range intro!: upd_range_cong)
  have c: "foldM (adjacent_step xfer) [0..<n] (upd_range v n ?g ds) =
      Inr (upd_range v n (\<lambda>i. (\<lambda>d. xdma_desc_adjacent (xdma_get_next_adj (xf_desc_num xfer - of_nat i - 1) (next_lo d)) d) \<circ> ?g i) ds)"
    unfolding adjacent_step_def num(2) upd_range_upd_range[symmetric] using assms(1) by (intro desc_at_fold) simp
  have l: "next_lo (xdma_desc_control_set w d) = next_lo d" for w d by (simp add: xdma_desc_control_set_def)
  have u: "unat (of_nat n :: u32) = n" using assms(3) by (simp add: unat_of_nat)
  then have "unat (of_nat n - 1 :: u32) = n - 1" using assms(2) by (simp add: unat_minus_no_wrap)
  then have s: "nat (sint (of_nat n :: u32)) = n" "nat (sint (of_nat n - 1 :: u32)) = n - 1"
    using u assms(3) sint_unat[of "of_nat n"] sint_unat[of "of_nat n - 1"] by (simp_all del: of_nat_unat)
  show ?thesis unfolding finish_descs_def Let_def s num(2) a rbind_Inr b c
    by (intro arg_cong[of _ _ Inr] upd_range_cong) (simp add: l f num)
qed

definition inited :: "xdma_engine \<Rightarrow> xdma_request_cb \<Rightarrow> nat \<Rightarrow> xdma_engine" where
  "inited e req x = (let n = xfer_count e req; idx = unat (en_desc_idx e) in
     e\<lparr>en_result := (if writeback e then upd_range idx n (\<lambda>i r. \<lparr>res_status = 0, res_len = 0\<rparr>) (en_result e) else en_result e),
       en_desc := upd_range idx n (\<lambda>i d. init_desc e req i) (en_desc e),
       en_desc_idx := (en_desc_idx e + of_nat n) mod en_desc_max e, en_desc_used := en_desc_used e + of_nat n,
       en_xfers := (en_xfers e)(x := init_xfer e req)\<rparr>)"

definition advanced :: "xdma_engine \<Rightarrow> xdma_request_cb \<Rightarrow> xdma_request_cb" where
  "advanced e req = (let n = xfer_count e req in
     req\<lparr>rq_ep_addr := ep_at (en_non_incr_addr e) (rq_ep_addr req) (req_rest req) n, rq_sw_desc_idx := rq_sw_desc_idx req + of_nat n\<rparr>)"

lemma transfer_init_ok:
  assumes e: "ring_ok e" and req: "cb_ok req" and more: "req_rest req \<noteq> []"
  shows "transfer_init e req x = Inr (inited e req x, advanced e req)"
proof -
  let ?n = "xfer_count e req" and ?v = "unat (en_desc_idx e)"
  let ?bus = "en_desc_bus e + 32 * ucast (en_desc_idx e)" and ?res = "en_result_bus e + 32 * ucast (en_desc_idx e)"
  let ?x0 = "zero_transfer\<lparr>xf_dir := en_dir e, xf_desc_virt := ?v, xf_desc_bus := ?bus, xf_res_bus := ?res, xf_desc_index := en_desc_idx e\<rparr>"
  let ?f0 = "\<lambda>i d. d\<lparr>next_lo := PCI_DMA_L (chain_next ?bus ?n i), next_hi := PCI_DMA_H (chain_next ?bus ?n i),
      desc_bytes := 0, desc_control := DESC_MAGIC\<rparr>"
  let ?f1 = "\<lambda>i. build_desc e ?x0 i (req_rest req ! i) (ep_at (en_non_incr_addr e) (rq_ep_addr req) (req_rest req) i) (?res + 32 * of_nat i)"
  note w = xfer_count_word[OF e req]
  have m: "?v < length (en_desc e)" "length (en_desc e) = unat (en_desc_max e)" "en_desc_max e \<noteq> 0"
    using e by (auto simp: ring_ok_def word_less_nat_alt)
  have n: "0 < ?n" "?v + ?n \<le> length (en_desc e)" "?n \<le> length (req_rest req)"
    using more m by (auto simp: xfer_count_def)
  have r: "writeback e \<Longrightarrow> ?v + ?n \<le> length (en_result e)" using e n(2) by (simp add: ring_ok_def)
  have i: "transfer_desc_init ?v ?bus (of_nat ?n) (en_desc e) = Inr (upd_range ?v ?n ?f0 (en_desc e))"
    using n w(2) by (intro desc_init_chain)
  have b: "transfer_build (e\<lparr>en_desc := upd_range ?v ?n ?f0 (en_desc e)\<rparr>) req ?x0 (of_nat ?n) =
    Inr (e\<lparr>en_desc := upd_range ?v ?n (\<lambda>i d. ?f1 i (?f0 i d)) (en_desc e),
        en_result := (if writeback e then upd_range ?v ?n (\<lambda>i r. \<lparr>res_status = 0, res_len = 0\<rparr>) (en_result e) else en_result e)\<rparr>,
      advanced e req, ?x0\<lparr>xf_len := sum_list (map sd_len (take ?n (req_rest req)))\<rparr>)"
    using n r w(2) build_ok[of req ?n ?x0 "e\<lparr>en_desc := upd_range ?v ?n ?f0 (en_desc e)\<rparr>"] req
    by (simp add: zero_transfer_def upd_range_upd_range comp_def advanced_def Let_def)
  have nl: "next_lo (?f1 i (?f0 i d)) = PCI_DMA_L (chain_next ?bus ?n i)" for i d
    by (simp add: build_desc_def xdma_desc_set_def Let_def)
  have fin: "upd_range ?v ?n (\<lambda>i d. xdma_desc_adjacent (xdma_get_next_adj (of_nat ?n - of_nat i - 1) (PCI_DMA_L (chain_next ?bus ?n i)))
      ((if en_dir e = DMA_TO_DEVICE \<and> i < ?n - 1 then xdma_desc_control_set XDMA_DESC_EOP else id)
       ((if i = ?n - 1 then xdma_desc_control_set (or (or XDMA_DESC_STOPPED XDMA_DESC_EOP) XDMA_DESC_COMPLETED) else id) (?f1 i (?f0 i d))))) (en_desc e) =
    upd_range ?v ?n (\<lambda>i d. init_desc e req i) (en_desc e)"
    unfolding init_desc_def using w(2) by (intro upd_range_cong desc_stages) simp_all
  let ?x1 = "?x0\<lparr>xf_len := sum_list (map sd_len (take ?n (req_rest req))), xf_desc_adjacent := of_nat ?n, xf_desc_cmpl_th := of_nat ?n, xf_desc_num := of_nat ?n\<rparr>"
  have f: "finish_descs (en_dir e) ?x1 (of_nat ?n) (upd_range ?v ?n (\<lambda>i d. ?f1 i (?f0 i d)) (en_desc e)) =
      Inr (upd_range ?v ?n (\<lambda>i d. init_desc e req i) (en_desc e))"
    by (subst desc_finish[where f = "\<lambda>i d. ?f1 i (?f0 i d)" and dir = "en_dir e" and xfer = ?x1, OF n(2,1) w(2) nl])
      (simp_all only: fin xdma_transfer.simps, simp_all)
  show ?thesis
    using m(3) unfolding transfer_init_def Let_def w(1)
    by (simp add: i b f inited_def init_xfer_def Let_def split del: if_split)
qed

end
