(* ===== verification/Sgdma_Walk.thy ===== *)
theory Sgdma_Walk
  imports Sgdma_Chain
begin

text \<open>
  The descriptor chain as the hardware walks it: from the address programmed into the engine it reads
  a descriptor, follows the link of every descriptor without the stop bit, and performs the copy each
  one describes.  A transfer is walked exactly once through, and the copies are those of the request.
\<close>

subsection \<open>The hardware's view\<close>

definition desc_mem :: "u64 \<Rightarrow> xdma_desc list \<Rightarrow> u64 \<Rightarrow> xdma_desc option" where
  "desc_mem base ds addr =
     (let off = unat (addr - base) in if off mod 32 = 0 \<and> off div 32 < length ds then Some (ds ! (off div 32)) else None)"

definition desc_stops :: "xdma_desc \<Rightarrow> bool" where "desc_stops d \<longleftrightarrow> bit (desc_control d) 0"
definition desc_magic_ok :: "xdma_desc \<Rightarrow> bool" where "desc_magic_ok d \<longleftrightarrow> drop_bit 16 (desc_control d) = 0xAD4B"
definition desc_adj :: "xdma_desc \<Rightarrow> nat" where "desc_adj d = unat (take_bit 6 (drop_bit 8 (desc_control d)))"
definition desc_next :: "xdma_desc \<Rightarrow> u64" where "desc_next d = join64 (next_hi d) (next_lo d)"

text \<open>A copy: where from, where to, how many bytes.\<close>

type_synonym dma_copy = "u64 \<times> u64 \<times> u32"

definition desc_copy :: "xdma_desc \<Rightarrow> dma_copy" where
  "desc_copy d = (join64 (src_addr_hi d) (src_addr_lo d), join64 (dst_addr_hi d) (dst_addr_lo d), desc_bytes d)"

text \<open>A walk that takes more steps than there is fuel, finds no descriptor or no magic number, fails.\<close>

fun dma_fetch :: "nat \<Rightarrow> (u64 \<Rightarrow> xdma_desc option) \<Rightarrow> u64 \<Rightarrow> xdma_desc list option" where
  "dma_fetch 0 mem addr = None"
| "dma_fetch (Suc k) mem addr = (case mem addr of
     None \<Rightarrow> None
   | Some d \<Rightarrow>
       if \<not> desc_magic_ok d then None
       else if desc_stops d then Some [d]
       else map_option (Cons d) (dma_fetch k mem (desc_next d)))"

text \<open>
  The burst behind a descriptor: the next descriptor and the adjacent ones behind it are read at once,
  so they must not leave the page, nor the transfer, whose last descriptor is \<open>n - 1\<close>.
\<close>

definition bursts_inside :: "xdma_desc list \<Rightarrow> bool" where
  "bursts_inside ds \<longleftrightarrow> (\<forall>i. Suc i < length ds \<longrightarrow>
     Suc i + desc_adj (ds ! i) < length ds \<and>
     unat (take_bit 12 (desc_next (ds ! i))) div 32 + desc_adj (ds ! i) < 128)"

text \<open>The copies of a list of pieces, to or from consecutive endpoint addresses.\<close>

fun request_copies :: "bool \<Rightarrow> dma_data_direction \<Rightarrow> u64 option \<Rightarrow> u64 \<Rightarrow> sw_desc list \<Rightarrow> dma_copy list" where
  "request_copies fixed dir wb ep [] = []"
| "request_copies fixed dir wb ep (d # ds) =
     (case wb of Some a \<Rightarrow> a | None \<Rightarrow> if dir = DMA_TO_DEVICE then sd_addr d else ep,
      if dir = DMA_TO_DEVICE then ep else sd_addr d, sd_len d) #
     request_copies fixed dir (map_option (\<lambda>a. a + 32) wb) (if fixed then ep else ep + ucast (sd_len d)) ds"

subsection \<open>A transfer is walked through\<close>

lemma join64_halves [simp]: "join64 (PCI_DMA_H a) (PCI_DMA_L a) = a"
  unfolding join64_def PCI_DMA_H_def PCI_DMA_L_def
  by (intro bit_word_eqI) (auto simp: bit_or_iff bit_push_bit_iff bit_unsigned_iff bit_drop_bit_eq dest: bit_imp_le_length)

lemma chain_adj_64: "chain_adj bus n i < 64"
  by (simp add: chain_adj_def next_adj_64)

lemma chain_desc_fields:
  fixes e ep sds bus res n i
  defines "d \<equiv> chain_desc e ep sds bus res n i"
  shows "desc_magic_ok d" "desc_stops d \<longleftrightarrow> Suc i = n" "desc_adj d = unat (chain_adj bus n i)" "desc_next d = chain_next bus n i"
proof -
  let ?a = "chain_adj bus n i"
  have c: "desc_control d = or (or DESC_MAGIC (push_bit 8 ?a)) (chain_flags (en_dir e) n i)"
    by (simp add: d_def chain_desc_def Let_def)
  have z: "take_bit 6 ?a = ?a" using chain_adj_64[of bus n i]
    by (simp add: word_unat_eq_iff word_less_nat_alt unsigned_take_bit_eq take_bit_nat_eq_self)
  have b: "bit ?a k \<Longrightarrow> k < 6" for k using bit_take_bit_iff[of 6 ?a k] unfolding z by simp
  have "drop_bit 16 (push_bit 8 ?a) = 0"
    by (intro bit_word_eqI) (auto simp: bit_drop_bit_eq bit_push_bit_iff dest: b)
  then show "desc_magic_ok d"
    unfolding desc_magic_ok_def c
    by (simp add: drop_bit_or drop_bit_push_bit chain_flags_def)
  show "desc_stops d \<longleftrightarrow> Suc i = n"
    unfolding desc_stops_def c by (simp add: bit_or_iff bit_push_bit_iff chain_flags_def)
  show "desc_adj d = unat ?a"
  proof -
    have "take_bit 6 (drop_bit 8 (push_bit 8 ?a)) = ?a"
      by (intro bit_word_eqI) (auto simp: bit_take_bit_iff bit_drop_bit_eq bit_push_bit_iff dest: b)
    then show ?thesis
      unfolding desc_adj_def c by (simp add: drop_bit_or take_bit_or chain_flags_def)
  qed
  show "desc_next d = chain_next bus n i" by (simp add: d_def desc_next_def chain_desc_def Let_def)
qed


lemma mem_in_ring:
  assumes "k < length ds" "length ds < 2147483648"
  shows "desc_mem base ds (base + 32 * of_nat k) = Some (ds ! k)"
proof -
  have "unat (32 * of_nat k :: u64) = 32 * k" using assms by (simp add: unat_word_ariths unat_of_nat)
  then show ?thesis using assms(1) by (simp add: desc_mem_def Let_def)
qed

lemma fetch_chain:
  assumes mem: "\<And>k. k < n \<Longrightarrow> mem (bus + 32 * of_nat k) = Some (chain_desc e ep sds bus res n k)" and "i < n" "n - i \<le> fuel"
  shows "dma_fetch fuel mem (bus + 32 * of_nat i) = Some (map (chain_desc e ep sds bus res n) [i..<n])"
  using assms(2,3)
proof (induction "n - i" arbitrary: i fuel)
  case (Suc m)
  then obtain f where f: "fuel = Suc f" by (cases fuel) auto
  note d = chain_desc_fields[of e ep sds bus res n i]
  show ?case
  proof (cases "Suc i = n")
    case True
    then show ?thesis using Suc.prems(1) d mem[of i] by (simp add: f upt_conv_Cons)
  next
    case False
    then have "dma_fetch f mem (bus + 32 * of_nat (Suc i)) = Some (map (chain_desc e ep sds bus res n) [Suc i..<n])"
      using Suc.prems Suc.hyps f by (intro Suc.hyps(1)) auto
    then show ?thesis
      using False Suc.prems(1) d mem[of i] by (simp add: f chain_next_def upt_conv_Cons del: of_nat_Suc)
  qed
qed simp

lemma next_adj_bound:
  assumes "0 < r" "r < 4294967296"
  shows "unat (xdma_get_next_adj (of_nat r) lo) < r" "unat (take_bit 12 lo) div 32 + unat (xdma_get_next_adj (of_nat r) lo) < 128"
proof -
  let ?k = "drop_bit 5 (and lo (0x1000 - 1)) mod 0x40 :: u32"
  have m: "and lo (0x1000 - 1) = take_bit 12 lo" by (simp add: take_bit_eq_mask mask_eq_exp_minus_1)
  have k: "unat ?k = (unat (take_bit 12 lo) div 32) mod 64"
    unfolding m by (simp add: unat_mod drop_bit_eq_div unat_div)
  have l: "unat (take_bit 12 lo) < 4096" using take_bit_nat_less_exp[of 12 "unat lo"] by (simp only: unsigned_take_bit_eq, simp)
  have r: "unat (of_nat r :: u32) = r" using assms(2) by (simp add: unat_of_nat)
  show "unat (xdma_get_next_adj (of_nat r) lo) < r"
    using assms(1) r by (auto simp: xdma_get_next_adj_def Let_def word_le_nat_alt min_def unat_minus_no_wrap)
  have "unat (0x40 - ?k - 1) = 63 - unat ?k"
    using k by (simp add: unat_minus_no_wrap word_le_nat_alt)
  moreover have "xdma_get_next_adj (of_nat r) lo \<le> 0x40 - ?k - 1"
    by (simp add: xdma_get_next_adj_def Let_def)
  ultimately have "unat (xdma_get_next_adj (of_nat r) lo) \<le> 63 - (unat (take_bit 12 lo) div 32) mod 64"
    using k by (simp add: word_le_nat_alt)
  then show "unat (take_bit 12 lo) div 32 + unat (xdma_get_next_adj (of_nat r) lo) < 128"
  proof -
    have q: "q + x < 128" if "q < 128" "x \<le> 63 - q mod 64" for q x :: nat
      using that less_mult_imp_div_less[of q 2 64] mod_less_divisor[of 64 q] div_mult_mod_eq[of q 64] by linarith
    show ?thesis using \<open>unat (xdma_get_next_adj (of_nat r) lo) \<le> _\<close> l by (intro q) auto
  qed
qed


subsection \<open>The copies\<close>

lemma desc_copy_chain:
  "desc_copy (chain_desc e ep sds bus res n i) =
     (if writeback e then res + 32 * of_nat i else if en_dir e = DMA_TO_DEVICE then sd_addr (sds ! i) else ep_at (en_non_incr_addr e) ep sds i,
      if en_dir e = DMA_TO_DEVICE then ep_at (en_non_incr_addr e) ep sds i else sd_addr (sds ! i), sd_len (sds ! i))"
  by (simp add: desc_copy_def chain_desc_def Let_def)

lemma request_copies_nth:
  "length (request_copies fixed dir wb ep sds) = length sds"
  "i < length sds \<Longrightarrow> request_copies fixed dir wb ep sds ! i =
     (case wb of Some a \<Rightarrow> a + 32 * of_nat i | None \<Rightarrow> if dir = DMA_TO_DEVICE then sd_addr (sds ! i) else ep_at fixed ep sds i,
      if dir = DMA_TO_DEVICE then ep_at fixed ep sds i else sd_addr (sds ! i), sd_len (sds ! i))"
proof (induction sds arbitrary: wb ep i)
  case (Cons d sds)
  {
    case 1
    then show ?case using Cons.IH(1) by simp
  next
    case 2
    then show ?case
      using Cons.IH(2)[of "i - 1"] by (cases i) (auto simp: ep_at_def algebra_simps split: option.splits)
  }
qed simp_all

lemma chain_copies:
  assumes "n \<le> length sds"
  shows "map (desc_copy \<circ> chain_desc e ep sds bus res n) [0..<n] =
    request_copies (en_non_incr_addr e) (en_dir e) (if writeback e then Some res else None) ep (take n sds)"
  using assms
  by (intro nth_equalityI) (auto simp: request_copies_nth desc_copy_chain ep_at_def min_absorb1 min_def)

lemma chain_bursts:
  assumes "n < 4294967296"
  shows "bursts_inside (map (chain_desc e ep sds bus res n) [0..<n])"
proof -
  have "Suc i + desc_adj (chain_desc e ep sds bus res n i) < n \<and>
      unat (take_bit 12 (desc_next (chain_desc e ep sds bus res n i))) div 32 + desc_adj (chain_desc e ep sds bus res n i) < 128"
    if "Suc i < n" for i
  proof -
    let ?lo = "PCI_DMA_L (chain_next bus n i)"
    have r: "of_nat n - of_nat i - 1 = (of_nat (n - i - 1) :: u32)" using that by (simp add: of_nat_diff)
    have t: "unat (take_bit 12 (chain_next bus n i)) = unat (take_bit 12 ?lo)"
      by (simp add: PCI_DMA_L_def unsigned_take_bit_eq unsigned_ucast_eq)
    have "0 < n - i - 1" "n - i - 1 < 4294967296" using that assms by linarith+
    note h = next_adj_bound[OF this, of ?lo]
    show ?thesis
      unfolding chain_desc_fields(3,4) t chain_adj_def r by (intro conjI h(2)) (use h(1) in linarith)
  qed
  then show ?thesis by (simp add: bursts_inside_def)
qed

end
