(* ===== verification/Sgdma_Request.thy ===== *)
theory Sgdma_Request
  imports Sgdma_Desc
begin

text \<open>
  A request: its pieces are the bytes of the scatter list, in order, and the loop that cuts them never
  leaves the array allocated for them, as long as the size of that array does not wrap around.
\<close>

lemma split_sg_pieces:
  assumes "bmax \<noteq> 0" "j + length (sg_pieces bmax a l) \<le> length ds"
  shows "split_sg bmax a l j ds = Inr (j + length (sg_pieces bmax a l),
     take j ds @ sg_pieces bmax a l @ drop (j + length (sg_pieces bmax a l)) ds)"
  using assms
proof (induction bmax a l j ds rule: split_sg.induct)
  case (1 bmax a l j ds)
  show ?case
  proof (cases "l = 0")
    case True
    then show ?thesis by (simp add: split_sg.simps sg_pieces.simps)
  next
    case False
    then have "sg_pieces bmax a l \<noteq> []" using "1.prems"(1) by (simp add: sg_pieces.simps[of bmax a l])
    then have j: "j < length ds" using "1.prems"(2) by (cases "sg_pieces bmax a l") auto
    have u: "take (Suc j) (ds[j := x]) = take j ds @ [x]" for x using j by (simp add: take_Suc_conv_app_nth)
    show ?thesis
    proof (cases "bmax < l")
      case True
      then have p: "sg_pieces bmax a l = \<lparr>sd_addr = a, sd_len = bmax\<rparr> # sg_pieces bmax (a + ucast bmax) (l - bmax)"
        using False "1.prems"(1) by (subst sg_pieces.simps) simp
      show ?thesis
        using "1.IH"(1)[OF False _ True] "1.prems" True False j u by (subst split_sg.simps) (simp add: p)
    next
      case False
      then have p: "sg_pieces bmax a l = [\<lparr>sd_addr = a, sd_len = l\<rparr>]"
        using \<open>l \<noteq> 0\<close> "1.prems"(1) by (subst sg_pieces.simps) simp
      then show ?thesis
        using \<open>l \<noteq> 0\<close> False j by (subst split_sg.simps) (simp add: split_sg.simps p upd_conv_take_nth_drop)
    qed
  qed
qed

lemma pieces_count:
  assumes "bmax \<noteq> 0"
  shows "length (sg_pieces bmax a l) = (unat l + unat bmax - 1) div unat bmax"
  using assms
proof (induction bmax a l rule: sg_pieces.induct)
  case (1 bmax a l)
  have b: "0 < unat bmax" using "1.prems" by (simp add: unat_gt_0)
  show ?case
  proof (cases "bmax < l")
    case True
    then have "unat (l - bmax) = unat l - unat bmax" "unat bmax < unat l"
      by (simp_all add: unat_minus_no_wrap word_le_nat_alt word_less_nat_alt)
    then show ?thesis
      using 1 True b le_div_geq[of "unat bmax" "unat l + unat bmax - 1"] by (subst sg_pieces.simps) auto
  next
    case False
    then have "l \<noteq> 0 \<Longrightarrow> (unat l + unat bmax - 1) div unat bmax = 1"
      using b by (intro div_nat_eqI) (auto simp: word_less_nat_alt not_less simp flip: unat_gt_0)
    then show ?thesis
      using False b by (subst sg_pieces.simps) auto
  qed
qed


subsection \<open>The whole list\<close>

text \<open>Room for the pieces, as the code counts it: an entry, and the pieces of an entry that is too long.\<close>

definition sg_room :: "u32 \<Rightarrow> u64 \<times> u32 \<Rightarrow> nat" where
  "sg_room bmax e = 1 + (if bmax < snd e then (unat (snd e) + unat bmax - 1) div unat bmax else 0)"

definition request_room :: "u32 \<Rightarrow> scatterlist \<Rightarrow> nat" where
  "request_room bmax sgl = sum_list (map (sg_room bmax) sgl)"

definition sg_all :: "u32 \<Rightarrow> scatterlist \<Rightarrow> sw_desc list" where
  "sg_all bmax sgl = concat (map (\<lambda>(a, l). sg_pieces bmax a l) sgl)"

lemma pieces_room: "bmax \<noteq> 0 \<Longrightarrow> length (sg_pieces bmax a l) \<le> sg_room bmax (a, l)"
proof (cases "bmax < l")
  case False
  then have "length (sg_pieces bmax a l) \<le> 1" by (subst sg_pieces.simps) auto
  then show ?thesis by (simp add: sg_room_def)
qed (simp add: pieces_count sg_room_def)

lemma all_room: "bmax \<noteq> 0 \<Longrightarrow> length (sg_all bmax sgl) \<le> request_room bmax sgl"
  by (induction sgl) (auto simp: sg_all_def request_room_def intro!: add_mono pieces_room)

lemma extra_step:
  assumes "unat (l :: u32) + unat bmax \<le> 4294967296" "bmax < l"
  shows "(l + bmax - 1) div bmax = of_nat ((unat l + unat bmax - 1) div unat bmax)"
proof -
  have "unat (l + bmax - 1) = unat l + unat bmax - 1"
  proof (cases "unat l + unat bmax = 4294967296")
    case True
    have "l + bmax = of_nat (unat l + unat bmax)" by (rule word_arith_nat_add)
    also have "\<dots> = 0" unfolding True by simp
    finally have "l + bmax = 0" .
    then show ?thesis using True by (simp add: unsigned_minus_1_eq_mask mask_eq_exp_minus_1)
  next
    case False
    then have "unat (l + bmax) = unat l + unat bmax" using assms(1) by (intro unat_plus_no_wrap) simp
    moreover have "0 < unat l" using assms(2) by (simp add: word_less_nat_alt)
    ultimately show ?thesis by (simp add: unat_minus_no_wrap)
  qed
  moreover have "(unat l + unat bmax - 1) div unat bmax < 4294967296"
    using assms(1) by (intro le_less_trans[OF div_le_dividend]) (use assms(2) in \<open>simp add: word_less_nat_alt\<close>)
  ultimately show ?thesis by (intro word_unat_eq_iff[THEN iffD2]) (simp add: unat_div unat_of_nat)
qed


definition sg_ok :: "u32 \<Rightarrow> scatterlist \<Rightarrow> bool" where
  "sg_ok bmax sgl \<longleftrightarrow> list_all (\<lambda>(a, l). unat l + unat bmax \<le> 4294967296) sgl"

lemma extra_room:
  assumes "sg_ok bmax sgl" "n \<le> length sgl" "bmax \<noteq> 0"
  shows "foldM (\<lambda>i extra. rbind (sg_at sgl i) (\<lambda>(addr, len).
       if bmax < len then (if bmax = 0 then Inl DivByZero else Inr (extra + (len + bmax - 1) div bmax))
       else Inr extra)) [0..<n] 0 = Inr (of_nat (request_room bmax (take n sgl)) - of_nat n)"
  using assms(2)
proof (induction n)
  case 0
  show ?case by (simp add: request_room_def)
next
  case (Suc n)
  obtain a l where e: "sgl ! n = (a, l)" by (cases "sgl ! n")
  then have "(a, l) \<in> set sgl" using Suc.prems nth_mem[of n sgl] by simp
  then have "unat l + unat bmax \<le> 4294967296" using assms(1) by (auto simp: sg_ok_def list_all_iff)
  note x = extra_step[OF this]
  have r: "request_room bmax (take (Suc n) sgl) = request_room bmax (take n sgl) + sg_room bmax (a, l)"
    using Suc.prems by (simp add: take_Suc_conv_app_nth request_room_def e)
  show ?case
    using Suc assms(3) by (auto simp: foldM_append sg_at_def e r sg_room_def x)
qed

lemma pieces_fold:
  assumes "bmax \<noteq> 0" "n \<le> length sgl" "length (sg_all bmax sgl) \<le> length ds"
  shows "foldM (\<lambda>i (total_len, j, sdesc). rbind (sg_at sgl i) (\<lambda>(addr, tlen).
             rbind (split_sg bmax addr tlen j sdesc) (\<lambda>(j, sdesc). Inr (total_len + tlen, j, sdesc)))) [0..<n] (0, 0, ds) =
     Inr (sum_list (map snd (take n sgl)), length (sg_all bmax (take n sgl)),
       sg_all bmax (take n sgl) @ drop (length (sg_all bmax (take n sgl))) ds)"
  using assms(2)
proof (induction n)
  case 0
  show ?case by (simp add: sg_all_def)
next
  case (Suc n)
  obtain a l where e: "sgl ! n = (a, l)" by (cases "sgl ! n")
  let ?p = "sg_all bmax (take n sgl)"
  have t: "take (Suc n) sgl = take n sgl @ [(a, l)]" using Suc.prems by (simp add: take_Suc_conv_app_nth e)
  have a: "sg_all bmax (take (Suc n) sgl) = ?p @ sg_pieces bmax a l" by (simp add: t sg_all_def)
  have "sg_all bmax sgl = sg_all bmax (take (Suc n) sgl) @ sg_all bmax (drop (Suc n) sgl)"
    unfolding sg_all_def by (simp flip: concat_append map_append)
  then have "length ?p + length (sg_pieces bmax a l) \<le> length ds" using assms(3) by (simp add: a)
  then have s: "split_sg bmax a l (length ?p) (?p @ drop (length ?p) ds) =
      Inr (length (sg_all bmax (take (Suc n) sgl)), sg_all bmax (take (Suc n) sgl) @ drop (length (sg_all bmax (take (Suc n) sgl))) ds)"
    using split_sg_pieces[OF assms(1), of "length ?p" a l "?p @ drop (length ?p) ds"] by (simp add: a add.commute)
  show ?case
    using Suc s by (simp add: foldM_append sg_at_def e t)
qed

lemma all_spans: "bmax \<noteq> 0 \<Longrightarrow> concat (map piece_span (sg_all bmax sgl)) = concat (map (\<lambda>(a, l). sg_span a l) sgl)"
  by (induction sgl) (auto simp: sg_all_def pieces_span)

lemma init_request_ok:
  assumes "bmax \<noteq> 0" "sg_ok bmax sgl" "length sgl = unat nents"
    and size: "unat cb + 16 * request_room bmax sgl < 4294967296"
  shows "\<exists>sdesc. xdma_init_request bmax cb True sgl nents ep =
     Inr (Some \<lparr>rq_ep_addr = ep, rq_total_len = sum_list (map snd sgl), rq_sw_desc_idx = 0,
       rq_sw_desc_cnt = of_nat (length (sg_all bmax sgl)), rq_sdesc = sg_all bmax sgl @ sdesc\<rparr>)"
proof -
  let ?r = "request_room bmax sgl"
  have len: "length sgl \<le> ?r" by (induction sgl) (auto simp: request_room_def sg_room_def)
  have n: "nat (sint nents) = length sgl" "unat nents = length sgl"
    using len size assms(3) sint_unat[of nents] by simp_all
  have "extra_descs bmax sgl nents = Inr (of_nat ?r - nents)"
    unfolding extra_descs_def n using extra_room[OF assms(2) le_refl assms(1)] assms(3) by simp
  moreover have "xdma_request_alloc cb True (of_nat ?r) = Some (replicate ?r \<lparr>sd_addr = 0, sd_len = 0\<rparr>)"
  proof -
    have r: "unat (of_nat ?r :: u32) = ?r" using size by (simp add: unat_of_nat)
    then have "unat (of_nat ?r * 16 :: u32) = ?r * 16" using size by (simp add: unat_word_ariths)
    then have "unat (cb + of_nat ?r * 16) = unat cb + ?r * 16"
      using size unat_plus_no_wrap[of cb "of_nat ?r * 16"] by simp
    then show ?thesis by (simp add: xdma_request_alloc_def Let_def)
  qed
  moreover note pieces_fold[OF assms(1) le_refl, of sgl "replicate ?r \<lparr>sd_addr = 0, sd_len = 0\<rparr>"] all_room[OF assms(1), of sgl]
  moreover have "sint (of_nat ?r :: u32) = int ?r" using size sint_unat[of "of_nat ?r"] by (simp add: unat_of_nat)
  ultimately show ?thesis
    by (simp add: xdma_init_request_def n Let_def)
qed

end
