(* ===== verification/Sgdma_Props.thy ===== *)
theory Sgdma_Props
  imports Sgdma_Walk Sgdma_Request
begin

text \<open>
  The properties of the scatter-gather engine: the chain of a transfer, the request from the scatter
  list to the copies the hardware performs, and the queue of transfers under service.
\<close>

subsection \<open>A transfer\<close>

lemma inited_walk:
  assumes e: "ring_ok e" and req: "cb_ok req" and more: "req_rest req \<noteq> []"
  defines "n \<equiv> xfer_count e req"
  shows "dma_fetch (length (en_desc e)) (desc_mem (en_desc_bus e) (en_desc (inited e req x))) (xf_desc_bus (init_xfer e req)) =
    Some (map (init_desc e req) [0..<n])"
proof -
  let ?v = "unat (en_desc_idx e)" and ?bus = "en_desc_bus e + 32 * ucast (en_desc_idx e)"
  have m: "?v + n \<le> length (en_desc e)" "0 < n" "length (en_desc e) < 2147483648"
    using e more by (auto simp: n_def xfer_count_def ring_ok_def word_less_nat_alt)
  have "desc_mem (en_desc_bus e) (en_desc (inited e req x)) (?bus + 32 * of_nat k) = Some (init_desc e req k)" if "k < n" for k
  proof -
    have b: "?bus + 32 * of_nat k = en_desc_bus e + 32 * of_nat (?v + k)" by (simp add: algebra_simps)
    have "?v + k < length (en_desc e)" using m that by simp
    then show ?thesis
      unfolding b using m(3) that by (subst mem_in_ring) (simp_all add: inited_def Let_def upd_range_nth flip: n_def)
  qed
  then show ?thesis
    using m fetch_chain[of n _ ?bus e "rq_ep_addr req" "req_rest req" _ 0 "length (en_desc e)"]
    by (simp add: init_desc_def init_xfer_def Let_def flip: n_def)
qed

lemma inited_ring:
  assumes "ring_ok e"
  shows "ring_ok (inited e req x)"
proof -
  have "(en_desc_idx e + of_nat (xfer_count e req)) mod en_desc_max e < en_desc_max e"
    using assms by (intro word_mod_less_divisor) (auto simp: ring_ok_def word_less_nat_alt)
  then show ?thesis using assms by (auto simp: ring_ok_def inited_def Let_def writeback_def)
qed

lemma advanced_rest:
  assumes "ring_ok e" "cb_ok req"
  shows "cb_ok (advanced e req)" "req_rest (advanced e req) = drop (xfer_count e req) (req_rest req)"
proof -
  let ?n = "xfer_count e req"
  have n: "unat (of_nat ?n :: u32) = ?n" "?n \<le> length (req_rest req)"
    using xfer_count_word(3)[OF assms] by (simp_all add: xfer_count_def)
  have l: "length (req_rest req) = unat (rq_sw_desc_cnt req) - unat (rq_sw_desc_idx req)"
    using assms(2) by (simp add: req_rest_def cb_ok_def)
  have "unat (rq_sw_desc_idx req) + ?n \<le> unat (rq_sw_desc_cnt req)"
    using n l assms(2) by (auto simp: cb_ok_def word_le_nat_alt)
  then have i: "unat (rq_sw_desc_idx req + of_nat ?n) = unat (rq_sw_desc_idx req) + ?n"
    using n(1) unat_lt_u32[of "rq_sw_desc_cnt req"] unat_plus_no_wrap[of "rq_sw_desc_idx req" "of_nat ?n"] by simp
  show "cb_ok (advanced e req)"
    using i \<open>_ \<le> unat (rq_sw_desc_cnt req)\<close> assms(2) by (simp add: cb_ok_def advanced_def Let_def word_le_nat_alt)
  show "req_rest (advanced e req) = drop ?n (req_rest req)"
    using i by (simp add: req_rest_def advanced_def Let_def add.commute)
qed

lemma init_copies:
  "map desc_copy (map (init_desc e req) [0..<xfer_count e req]) =
     request_copies (en_non_incr_addr e) (en_dir e) (if writeback e then Some (en_result_bus e + 32 * ucast (en_desc_idx e)) else None)
       (rq_ep_addr req) (take (xfer_count e req) (req_rest req))"
  unfolding init_desc_def map_map by (rule chain_copies) (simp add: xfer_count_def)

text \<open>
  C10: a transfer as the hardware sees it.  Building a transfer from the pieces of a request that are
  left writes a chain of descriptors into the ring: walked from the transfer's bus address it has as
  many descriptors as there are pieces left, or as fit before the end of the ring; they describe
  exactly the copies of these pieces, in order; no burst of adjacent descriptors leaves the transfer
  or its page; the rest of the ring is untouched and the other pieces remain.
\<close>

theorem transfer_chain_walk:
  assumes "ring_ok e" and "cb_ok req" and "req_rest req \<noteq> []"
  shows "\<exists>e' req' ds. transfer_init e req x = Inr (e', req') \<and>
    dma_fetch (length (en_desc e)) (desc_mem (en_desc_bus e) (en_desc e')) (xf_desc_bus (en_xfers e' x)) = Some ds \<and>
    length ds = min (length (req_rest req)) (unat (en_desc_max e) - unat (en_desc_idx e)) \<and> 0 < length ds \<and>
    map desc_copy ds = request_copies (en_non_incr_addr e) (en_dir e)
      (if writeback e then Some (en_result_bus e + 32 * ucast (en_desc_idx e)) else None) (rq_ep_addr req) (take (length ds) (req_rest req)) \<and>
    bursts_inside ds \<and> req_rest req' = drop (length ds) (req_rest req) \<and> ring_ok e' \<and> cb_ok req' \<and>
    (\<forall>k. k < length (en_desc e) \<and> (k < unat (en_desc_idx e) \<or> unat (en_desc_idx e) + length ds \<le> k) \<longrightarrow> en_desc e' ! k = en_desc e ! k)"
proof (intro exI conjI)
  let ?ds = "map (init_desc e req) [0..<xfer_count e req]"
  show "transfer_init e req x = Inr (inited e req x, advanced e req)" by (rule transfer_init_ok[OF assms])
  have "en_xfers (inited e req x) x = init_xfer e req" by (simp add: inited_def Let_def)
  then show "dma_fetch (length (en_desc e)) (desc_mem (en_desc_bus e) (en_desc (inited e req x))) (xf_desc_bus (en_xfers (inited e req x) x)) = Some ?ds"
    using inited_walk[OF assms] by simp
  show "map desc_copy ?ds = request_copies (en_non_incr_addr e) (en_dir e)
      (if writeback e then Some (en_result_bus e + 32 * ucast (en_desc_idx e)) else None) (rq_ep_addr req) (take (length ?ds) (req_rest req))"
    using init_copies[of e req] by (simp only: length_map length_upt diff_zero)
  show "bursts_inside ?ds" unfolding init_desc_def using xfer_count_word(2)[OF assms(1,2)] by (intro chain_bursts) simp
  show "0 < length ?ds" using assms by (auto simp: xfer_count_def ring_ok_def word_less_nat_alt)
  show "\<forall>k. k < length (en_desc e) \<and> (k < unat (en_desc_idx e) \<or> unat (en_desc_idx e) + length ?ds \<le> k) \<longrightarrow> en_desc (inited e req x) ! k = en_desc e ! k"
    by (auto simp: inited_def Let_def upd_range_nth)
qed (use advanced_rest[OF assms(1,2)] inited_ring[OF assms(1)] in \<open>simp_all add: xfer_count_def\<close>)

text \<open>A ring of two descriptors whose second is next, and a request of two pieces.\<close>

definition demo_engine :: xdma_engine where
  "demo_engine = \<lparr>en_magic = MAGIC_ENGINE, en_offline = False, en_shutdown = 0, en_dir = DMA_TO_DEVICE, en_streaming = False,
     en_running = False, en_non_incr_addr = False, en_eop_flush = False, en_desc_dequeued = 0, en_desc_max = 2, en_status = 0,
     en_transfer_list = [], en_result = [], en_result_bus = 0, en_desc_bus = 0xFFFFFFE0, en_desc = [cleared_desc, cleared_desc],
     en_desc_idx = 1, en_desc_used = 0, en_addr_align = 1, en_len_granularity = 1, en_addr_bits = 64, en_channel = 0, en_irq_bitmask = 1,
     en_bypass_offset = 0, en_irq_mask_value = 0, en_poll_wb = None, en_poll_bus = 0, en_perf = None, en_xfers = (\<lambda>_. zero_transfer), en_ops = [], en_wakes = []\<rparr>"

definition demo_request :: xdma_request_cb where
  "demo_request = \<lparr>rq_ep_addr = 0x80, rq_total_len = 5000, rq_sw_desc_idx = 0, rq_sw_desc_cnt = 2,
     rq_sdesc = [\<lparr>sd_addr = 0x1000, sd_len = 4096\<rparr>, \<lparr>sd_addr = 0x2000, sd_len = 904\<rparr>]\<rparr>"

lemma transfer_chain_walk_witness:
  "\<exists>e' req' ds. transfer_init demo_engine demo_request 7 = Inr (e', req') \<and>
    dma_fetch 2 (desc_mem 0xFFFFFFE0 (en_desc e')) (xf_desc_bus (en_xfers e' 7)) = Some ds \<and>
    map desc_copy ds = [(0x1000, 0x80, 4096)] \<and> req_rest req' = [\<lparr>sd_addr = 0x2000, sd_len = 904\<rparr>]"
proof -
  have h: "ring_ok demo_engine" "cb_ok demo_request" "req_rest demo_request = [\<lparr>sd_addr = 0x1000, sd_len = 4096\<rparr>, \<lparr>sd_addr = 0x2000, sd_len = 904\<rparr>]"
    by (simp_all add: ring_ok_def cb_ok_def req_rest_def demo_engine_def demo_request_def writeback_def)
  then have ne: "req_rest demo_request \<noteq> []" by (simp add: demo_request_def)
  obtain e' req' ds where w: "transfer_init demo_engine demo_request 7 = Inr (e', req')"
    "dma_fetch (length (en_desc demo_engine)) (desc_mem (en_desc_bus demo_engine) (en_desc e')) (xf_desc_bus (en_xfers e' 7)) = Some ds"
    "length ds = min (length (req_rest demo_request)) (unat (en_desc_max demo_engine) - unat (en_desc_idx demo_engine))"
    "map desc_copy ds = request_copies (en_non_incr_addr demo_engine) (en_dir demo_engine)
      (if writeback demo_engine then Some (en_result_bus demo_engine + 32 * ucast (en_desc_idx demo_engine)) else None)
      (rq_ep_addr demo_request) (take (length ds) (req_rest demo_request))"
    "req_rest req' = drop (length ds) (req_rest demo_request)"
    using transfer_chain_walk[OF h(1,2) ne, of 7] by blast
  have "length ds = 1" using w(3) unfolding h(3) by (simp add: demo_engine_def)
  moreover have f: "length (en_desc demo_engine) = 2" by (simp add: demo_engine_def)
  ultimately show ?thesis using w unfolding h(3) by (intro exI[of _ e'] exI[of _ req'] exI[of _ ds]) (simp only: f, simp add: demo_engine_def demo_request_def writeback_def del: dma_fetch.simps)
qed


subsection \<open>A request\<close>

text \<open>
  C18: a request covers its scatter list.  When an entry plus the longest piece fits 32 bits and the
  array's size does too, making a request of a scatter list succeeds without leaving the array; its
  pieces cover the bytes of the list, in order; none is empty or longer than a descriptor can carry.
\<close>

theorem xdma_init_request_covers:
  assumes "bmax \<noteq> 0" and "sg_ok bmax sgl" and "length sgl = unat nents" and "unat cb + 16 * request_room bmax sgl < 4294967296"
  shows "\<exists>req. xdma_init_request bmax cb True sgl nents ep = Inr (Some req) \<and> cb_ok req \<and> rq_ep_addr req = ep \<and>
    rq_total_len req = sum_list (map snd sgl) \<and> concat (map piece_span (req_rest req)) = concat (map (\<lambda>(a, l). sg_span a l) sgl) \<and>
    (\<forall>d\<in>set (req_rest req). 0 < sd_len d \<and> sd_len d \<le> bmax)"
proof -
  obtain sdesc where r: "xdma_init_request bmax cb True sgl nents ep =
     Inr (Some \<lparr>rq_ep_addr = ep, rq_total_len = sum_list (map snd sgl), rq_sw_desc_idx = 0,
       rq_sw_desc_cnt = of_nat (length (sg_all bmax sgl)), rq_sdesc = sg_all bmax sgl @ sdesc\<rparr>)"
    using init_request_ok[OF assms] by blast
  have "unat (of_nat (length (sg_all bmax sgl)) :: u32) = length (sg_all bmax sgl)"
    using all_room[OF assms(1), of sgl] assms(4) by (simp add: unat_of_nat)
  moreover have "0 < sd_len d \<and> sd_len d \<le> bmax" if "d \<in> set (sg_all bmax sgl)" for d
    using that pieces_fit unfolding sg_all_def by fastforce
  ultimately show ?thesis by (simp add: r cb_ok_def req_rest_def all_spans[OF assms(1)])
qed

lemma xdma_init_request_covers_witness:
  "\<exists>req. xdma_init_request 4096 24 True [(0x1000, 5000), (0x9000, 0), (0x8000, 1)] 3 0x80 = Inr (Some req) \<and>
    rq_total_len req = 5001 \<and> (\<forall>d\<in>set (req_rest req). sd_len d \<le> 4096)"
  using xdma_init_request_covers[of 4096 "[(0x1000, 5000), (0x9000, 0), (0x8000, 1)]" 3 24 "0x80"]
  by (auto simp: sg_ok_def request_room_def sg_room_def)

text \<open>
  With the driver's limit of a descriptor, the room for an entry of nearly 4 GB is counted as one
  piece, since the sum wraps around: the second piece leaves the array.
\<close>

lemma init_request_room_wraps: "xdma_init_request 4096 24 True [(0, 0xFFFFFFFF)] 1 ep = Inl OutOfBounds"
proof -
  have "extra_descs 4096 [(0, 0xFFFFFFFF)] 1 = Inr 0" by (simp add: extra_descs_def sg_at_def)
  moreover have "xdma_request_alloc 24 True 1 = Some [\<lparr>sd_addr = 0, sd_len = 0\<rparr>]" by (simp add: xdma_request_alloc_def Let_def)
  moreover have "split_sg 4096 0 0xFFFFFFFF 0 [\<lparr>sd_addr = 0, sd_len = 0\<rparr>] = Inl OutOfBounds"
    by (simp add: split_sg.simps)
  ultimately show ?thesis by (simp add: xdma_init_request_def sg_at_def)
qed

end
