(* ===== verification/Sgdma_Copy.thy ===== *)
theory Sgdma_Copy
  imports Sgdma_Props
begin

text \<open>
  A request from the scatter list to the bytes copied.  The submitter relies on one thing only: that
  while it sleeps the device performs the chain it was started on and the transfer is completed.  That
  is the contract of the locale below; a device that walks the chain and raises its interrupt, after
  which the service routine runs, provides it.
\<close>

subsection \<open>What stays the same\<close>

definition static :: "xdma_engine \<Rightarrow> xdma_engine" where
  "static e = e\<lparr>en_shutdown := 0, en_running := False, en_desc_dequeued := 0, en_status := 0, en_transfer_list := [],
     en_perf := None, en_xfers := (\<lambda>_. zero_transfer), en_ops := [], en_wakes := []\<rparr>"

lemma static_simps [simp]:
  "static (e\<lparr>en_shutdown := a\<rparr>) = static e" "static (e\<lparr>en_running := b\<rparr>) = static e" "static (e\<lparr>en_desc_dequeued := a\<rparr>) = static e"
  "static (e\<lparr>en_status := a\<rparr>) = static e" "static (e\<lparr>en_transfer_list := l\<rparr>) = static e" "static (e\<lparr>en_perf := p\<rparr>) = static e"
  "static (e\<lparr>en_xfers := xs\<rparr>) = static e" "static (e\<lparr>en_ops := os\<rparr>) = static e" "static (e\<lparr>en_wakes := ws\<rparr>) = static e"
  by (simp_all add: static_def)

lemma static_prims [simp]:
  "static (write_register v r e) = static e" "static (snd (read_register hw r e)) = static e" "static (wake_up w e) = static e"
  "static (upd_xfer x f e) = static e"
  by (simp_all add: write_register_def read_register_def wake_up_def upd_xfer_def Let_def)

lemma static_eq:
  assumes "static e' = static e"
  shows "en_desc e' = en_desc e" "en_desc_max e' = en_desc_max e" "en_desc_idx e' = en_desc_idx e" "en_desc_used e' = en_desc_used e"
    "en_dir e' = en_dir e" "en_streaming e' = en_streaming e" "en_non_incr_addr e' = en_non_incr_addr e" "en_eop_flush e' = en_eop_flush e"
    "en_result e' = en_result e" "en_desc_bus e' = en_desc_bus e" "en_result_bus e' = en_result_bus e" "en_offline e' = en_offline e"
    "en_magic e' = en_magic e"
  using assms by (cases e; cases e'; simp add: static_def)+

subsection \<open>Starting a transfer\<close>

text \<open>The value a register was last written with.\<close>

definition reg_value :: "engine_reg \<Rightarrow> engine_op list \<Rightarrow> u32" where
  "reg_value r ops = fold (\<lambda>op v. case op of Write_register w r' \<Rightarrow> if r' = r then w else v | Read_register _ \<Rightarrow> v) ops 0"

definition dev_start :: "engine_op list \<Rightarrow> u64" where
  "dev_start ops = join64 (reg_value first_desc_hi ops) (reg_value first_desc_lo ops)"

definition idle :: "xdma_engine \<Rightarrow> bool" where
  "idle e \<longleftrightarrow> \<not> en_running e \<and> en_transfer_list e = [] \<and> and (en_shutdown e) ENGINE_SHUTDOWN_REQUEST = 0 \<and> \<not> en_offline e"

definition submitted :: "xdma_engine \<Rightarrow> nat \<Rightarrow> xdma_desc list \<Rightarrow> bool" where
  "submitted e x ds \<longleftrightarrow> en_running e \<and> en_transfer_list e = [x] \<and> and (en_shutdown e) ENGINE_SHUTDOWN_REQUEST = 0 \<and> \<not> en_offline e \<and>
     en_desc_dequeued e = 0 \<and> xf_state (en_xfers e x) = TRANSFER_STATE_SUBMITTED \<and> \<not> xf_cyclic (en_xfers e x) \<and>
     dma_fetch (length (en_desc e)) (desc_mem (en_desc_bus e) (en_desc e)) (dev_start (en_ops e)) = Some ds \<and>
     0 < length ds \<and> length ds < 2147483648 \<and> xf_desc_num (en_xfers e x) = of_nat (length ds)"

lemma start_ops:
  assumes "en_transfer_list e = x # xs" "\<not> en_running e"
  shows "\<exists>e'. engine_start hw mp e = (Some x, e') \<and> en_running e' \<and> en_transfer_list e' = x # xs \<and> en_shutdown e' = 0 \<and>
     en_desc_dequeued e' = 0 \<and> en_xfers e' = en_xfers e \<and> static e' = static e \<and> en_wakes e' = en_wakes e \<and>
     dev_start (en_ops e') = xf_desc_bus (en_xfers e x)"
  using assms
  by (auto simp: engine_start_def engine_start_mode_config_def Let_def write_register_def read_register_def dev_start_def
      reg_value_def)

lemma queue_starts:
  assumes "idle e"
  shows "\<exists>e'. transfer_queue hw mp x e = (0, e') \<and> en_running e' \<and> en_transfer_list e' = [x] \<and> en_shutdown e' = 0 \<and>
     en_desc_dequeued e' = 0 \<and> en_xfers e' = (en_xfers e)(x := (en_xfers e x)\<lparr>xf_state := TRANSFER_STATE_SUBMITTED\<rparr>) \<and>
     static e' = static e \<and> \<not> en_offline e' \<and> dev_start (en_ops e') = xf_desc_bus (en_xfers e x)"
proof -
  let ?e = "upd_xfer x (\<lambda>t. t\<lparr>xf_state := TRANSFER_STATE_SUBMITTED\<rparr>) e\<lparr>en_transfer_list := [x]\<rparr>"
  obtain e' where e': "engine_start hw mp ?e = (Some x, e')" "en_running e'" "en_transfer_list e' = [x]" "en_shutdown e' = 0"
     "en_desc_dequeued e' = 0" "en_xfers e' = en_xfers ?e" "static e' = static ?e" "dev_start (en_ops e') = xf_desc_bus (en_xfers ?e x)"
    using start_ops[of ?e x "[]" hw mp] assms by (auto simp: idle_def upd_xfer_def)
  have "en_offline e' = en_offline e" using static_eq(12)[OF e'(7)] by (simp add: upd_xfer_def)
  then show ?thesis
    using assms e' by (auto simp: transfer_queue_def idle_def Let_def upd_xfer_def)
qed


subsection \<open>The contract of the wait\<close>

locale completing_wait =
  fixes wait :: "dma_copy list waiting"
  assumes completes: "submitted e x ds \<Longrightarrow> \<exists>e' c. wait x (cl, e) = (cl @ map desc_copy ds, e') \<and> idle e' \<and> static e' = static e \<and>
    en_xfers e' x = (en_xfers e x)\<lparr>xf_state := TRANSFER_STATE_COMPLETED, xf_desc_cmpl := c\<rparr>"

text \<open>
  A device that performs the chain at the address it was started with: its status says that it stopped
  after completing descriptors, and it reports their number.  Its interrupt is served by the service
  routine.
\<close>

definition device_done :: "nat \<Rightarrow> engine_hw" where
  "device_done n ops = (case last ops of Read_register completed_desc_count \<Rightarrow> of_nat n | _ \<Rightarrow> or XDMA_STAT_DESC_STOPPED XDMA_STAT_DESC_COMPLETED)"

definition copying_device :: "module_params \<Rightarrow> dma_copy list waiting" where
  "copying_device mp x = (\<lambda>(cl, e).
     case dma_fetch (length (en_desc e)) (desc_mem (en_desc_bus e) (en_desc e)) (dev_start (en_ops e)) of
       None \<Rightarrow> (cl, e)
     | Some ds \<Rightarrow> (case engine_service (device_done (length ds)) mp 0 e of
         Inl _ \<Rightarrow> (cl, e)
       | Inr (rv, e') \<Rightarrow> (cl @ map desc_copy ds, e')))"

lemma engine_stop_simps [simp]:
  "en_running (xdma_engine_stop mp e) = False" "en_transfer_list (xdma_engine_stop mp e) = en_transfer_list e"
  "en_shutdown (xdma_engine_stop mp e) = en_shutdown e" "en_desc_dequeued (xdma_engine_stop mp e) = en_desc_dequeued e"
  "en_xfers (xdma_engine_stop mp e) = en_xfers e" "static (xdma_engine_stop mp e) = static e" "en_perf (xdma_engine_stop mp e) = en_perf e"
  "en_status (xdma_engine_stop mp e) = en_status e" "en_eop_flush (xdma_engine_stop mp e) = en_eop_flush e" "en_dir (xdma_engine_stop mp e) = en_dir e"
  "en_offline (xdma_engine_stop mp e) = en_offline e" "en_wakes (xdma_engine_stop mp e) = en_wakes e" "en_result (xdma_engine_stop mp e) = en_result e"
  by (simp_all add: xdma_engine_stop_def write_register_def Let_def static_def)

lemma perf_simps [simp]:
  "en_running (engine_service_perf n e) = en_running e" "en_transfer_list (engine_service_perf n e) = en_transfer_list e"
  "en_shutdown (engine_service_perf n e) = en_shutdown e" "en_desc_dequeued (engine_service_perf n e) = en_desc_dequeued e"
  "en_xfers (engine_service_perf n e) = en_xfers e" "static (engine_service_perf n e) = static e"
  "en_status (engine_service_perf n e) = en_status e" "en_eop_flush (engine_service_perf n e) = en_eop_flush e"
  "en_dir (engine_service_perf n e) = en_dir e" "en_offline (engine_service_perf n e) = en_offline e" "en_result (engine_service_perf n e) = en_result e"
  by (auto simp: engine_service_perf_def wake_up_def Let_def split: option.splits)

lemma completion_simps [simp]:
  "en_running (engine_transfer_completion x e) = en_running e" "en_transfer_list (engine_transfer_completion x e) = en_transfer_list e"
  "en_shutdown (engine_transfer_completion x e) = en_shutdown e" "en_desc_dequeued (engine_transfer_completion x e) = en_desc_dequeued e"
  "en_xfers (engine_transfer_completion x e) = en_xfers e" "static (engine_transfer_completion x e) = static e"
  "en_status (engine_transfer_completion x e) = en_status e" "en_eop_flush (engine_transfer_completion x e) = en_eop_flush e"
  "en_dir (engine_transfer_completion x e) = en_dir e" "en_offline (engine_transfer_completion x e) = en_offline e" "en_result (engine_transfer_completion x e) = en_result e"
  by (auto simp: engine_transfer_completion_def wake_up_def Let_def)

lemma served_completes:
  assumes "submitted e x ds"
  shows "\<exists>e' rv c. engine_service (device_done (length ds)) mp 0 e = Inr (rv, e') \<and> idle e' \<and> static e' = static e \<and>
    en_xfers e' x = (en_xfers e x)\<lparr>xf_state := TRANSFER_STATE_COMPLETED, xf_desc_cmpl := c\<rparr> \<and>
    (xf_cb (en_xfers e x) \<and> xf_last_in_request (en_xfers e x) \<longrightarrow> Io_done x \<in> set (en_wakes e'))"
proof -
  have n: "of_nat (length ds) \<noteq> (0 :: u32)"
  proof -
    have "unat (of_nat (length ds) :: u32) = length ds" using assms by (simp add: submitted_def unat_of_nat)
    then show ?thesis using assms by (auto simp: submitted_def )
  qed
  show ?thesis
    using assms n
    by (auto simp: submitted_def engine_service_def service_stop_def service_count_def engine_status_read_def read_register_def Let_def device_done_def engine_service_shutdown_def
        wake_up_def engine_service_final_transfer_def status_error_def transfer_del_def upd_xfer_def engine_service_resume_def idle_def
        engine_transfer_completion_def[of x])
qed

interpretation copying: completing_wait "copying_device mp"
proof
  fix e x ds cl
  assume s: "submitted e x ds"
  obtain e' rv c where "engine_service (device_done (length ds)) mp 0 e = Inr (rv, e')" "idle e'" "static e' = static e"
      "en_xfers e' x = (en_xfers e x)\<lparr>xf_state := TRANSFER_STATE_COMPLETED, xf_desc_cmpl := c\<rparr>"
    using served_completes[OF s, of mp] by blast
  then show "\<exists>e' c. copying_device mp x (cl, e) = (cl @ map desc_copy ds, e') \<and> idle e' \<and> static e' = static e \<and>
      en_xfers e' x = (en_xfers e x)\<lparr>xf_state := TRANSFER_STATE_COMPLETED, xf_desc_cmpl := c\<rparr>"
    using s by (auto simp: copying_device_def submitted_def)
qed


subsection \<open>The loop over transfers\<close>

lemma copies_append:
  "request_copies fixed dir None ep (xs @ ys) = request_copies fixed dir None ep xs @ request_copies fixed dir None (ep_at fixed ep xs (length xs)) ys"
  by (induction xs arbitrary: ep) (auto simp: ep_at_def add.assoc)

lemma desc_done:
  assumes "v + n \<le> length ds" "n < 2147483648"
  shows "xdma_desc_done v (of_nat n) ds = Inr (upd_range v n (\<lambda>_ _. cleared_desc) ds)"
proof -
  have u: "unat (of_nat n :: u32) = n" using assms(2) by (simp add: unat_of_nat)
  have s: "nat (sint (of_nat n :: u32)) = n" using sint_unat[of "of_nat n"] u assms(2) by (simp del: of_nat_unat)
  have "foldM (\<lambda>i ds. wr ds (v + i) cleared_desc) [0..<n] ds = Inr (upd_range v n (\<lambda>_ _. cleared_desc) ds)"
    using assms(1)
  proof (induction n)
    case (Suc n)
    then show ?case using upd_range_Suc[of v n ds "\<lambda>_ _. cleared_desc"] by (simp add: foldM_append)
  qed simp
  then show ?thesis by (simp add: xdma_desc_done_def s)
qed

definition bytes_of :: "sw_desc list \<Rightarrow> nat" where
  "bytes_of sds = sum_list (map (\<lambda>d. unat (sd_len d)) sds)"

lemma bytes_append [simp]: "bytes_of (xs @ ys) = bytes_of xs + bytes_of ys"
  by (simp add: bytes_of_def)

lemma len_sum: "bytes_of sds < 4294967296 \<Longrightarrow> uint (sum_list (map sd_len sds)) = int (bytes_of sds)"
proof (induction sds)
  case (Cons d sds)
  then have s: "unat (sum_list (map sd_len sds)) = bytes_of sds"
    by (auto simp: bytes_of_def simp flip: nat_uint_eq)
  have "unat (sd_len d + sum_list (map sd_len sds)) = unat (sd_len d) + bytes_of sds"
    using Cons.prems s by (subst unat_plus_no_wrap) (simp_all add: bytes_of_def)
  then show ?case by (simp add: bytes_of_def uint_nat del: of_nat_unat)
qed (simp add: bytes_of_def)

lemma init_submitted:
  fixes fl l c x e req
  assumes e: "idle e" "ring_ok e" and req: "cb_ok req" "req_rest req \<noteq> []"
  defines "e1 \<equiv> upd_xfer x (\<lambda>t. t\<lparr>xf_flags := fl, xf_last_in_request := l, xf_cb := c\<rparr>) (inited e req x)"
  shows "\<exists>e2. transfer_queue hw mp x e1 = (0, e2) \<and> submitted e2 x (map (init_desc e req) [0..<xfer_count e req]) \<and>
     static e2 = static (inited e req x) \<and>
     en_xfers e2 x = (init_xfer e req)\<lparr>xf_flags := fl, xf_last_in_request := l, xf_cb := c, xf_state := TRANSFER_STATE_SUBMITTED\<rparr>"
proof -
  have i: "idle e1" using e(1) by (simp add: e1_def idle_def upd_xfer_def inited_def Let_def)
  have x1: "en_xfers e1 x = (init_xfer e req)\<lparr>xf_flags := fl, xf_last_in_request := l, xf_cb := c\<rparr>"
    by (simp add: e1_def upd_xfer_def inited_def Let_def)
  have s1: "static e1 = static (inited e req x)" by (simp add: e1_def)
  obtain e2 where e2: "transfer_queue hw mp x e1 = (0, e2)" "en_running e2" "en_transfer_list e2 = [x]" "en_shutdown e2 = 0"
     "en_desc_dequeued e2 = 0" "en_xfers e2 = (en_xfers e1)(x := (en_xfers e1 x)\<lparr>xf_state := TRANSFER_STATE_SUBMITTED\<rparr>)"
     "static e2 = static e1" "\<not> en_offline e2" "dev_start (en_ops e2) = xf_desc_bus (en_xfers e1 x)"
    using queue_starts[OF i] by blast
  have d: "en_desc e2 = en_desc (inited e req x)" "en_desc_bus e2 = en_desc_bus e"
    using static_eq(1,10)[OF e2(7)[unfolded s1]] by (simp_all add: inited_def Let_def)
  have l: "length (en_desc (inited e req x)) = length (en_desc e)" by (simp add: inited_def Let_def)
  have "0 < xfer_count e req" using e(2) req(2) by (auto simp: xfer_count_def ring_ok_def word_less_nat_alt)
  then have "submitted e2 x (map (init_desc e req) [0..<xfer_count e req])"
    using inited_walk[OF e(2) req, of x] xfer_count_word(2)[OF e(2) req(1)]
    by (simp add: submitted_def e2 d l x1 init_xfer_def zero_transfer_def Let_def)
  then show ?thesis using e2 x1 s1 by auto
qed


lemma mark_inited:
  "mark_xfer dma_mapped n x (inited e req x) =
   upd_xfer x (\<lambda>t. t\<lparr>xf_flags := (if dma_mapped then 0 else XFER_FLAG_NEED_UNMAP), xf_last_in_request := (n = 0), xf_cb := False\<rparr>) (inited e req x)"
  by (simp add: mark_xfer_def upd_xfer_def inited_def init_xfer_def zero_transfer_def Let_def)

text \<open>What the last transfer of a request does to the mapping.\<close>

definition unmap :: "bool \<Rightarrow> sg_table \<times> u32 list \<Rightarrow> sg_table \<times> u32 list" where
  "unmap dma_mapped = (\<lambda>(sgt, unmaps). if \<not> dma_mapped \<and> st_nents sgt \<noteq> 0 then (sgt\<lparr>st_nents := 0\<rparr>, unmaps @ [st_nents sgt]) else (sgt, unmaps))"

text \<open>The parts of the engine's state a request leaves as they were.\<close>

definition config_of :: "xdma_engine \<Rightarrow> dma_data_direction \<times> bool \<times> bool" where
  "config_of e = (en_dir e, en_streaming e, en_non_incr_addr e)"

context completing_wait
begin

lemma transfer_done:
  assumes e: "idle e" "ring_ok e" "\<not> en_streaming e" and req: "cb_ok req" "req_rest req \<noteq> []"
    and n: "n = of_nat (length (req_rest req))" and small: "bytes_of (req_rest req) < 4294967296"
  defines "k \<equiv> xfer_count e req" and "m \<equiv> n - of_nat (xfer_count e req)"
  shows "\<exists>e'. submit_loop hw mp wait x dma_mapped (Suc fuel) n done (cl, e, sgt, um, req) =
      (let (sgt, um) = (if m = 0 then unmap dma_mapped (sgt, um) else (sgt, um)) in
       submit_loop hw mp wait x dma_mapped fuel m (done + int (bytes_of (take k (req_rest req))))
        (cl @ request_copies (en_non_incr_addr e) (en_dir e) None (rq_ep_addr req) (take k (req_rest req)), e', sgt, um, advanced e req)) \<and>
     idle e' \<and> ring_ok e' \<and> config_of e' = config_of e"
proof -
  let ?v = "unat (en_desc_idx e)" and ?fl = "if dma_mapped then 0 else XFER_FLAG_NEED_UNMAP :: u32"
  let ?ds = "map (init_desc e req) [0..<k]"
  have k: "?v + k \<le> length (en_desc e)" "k < 2147483648"
    using e(2) xfer_count_word(2)[OF e(2) req(1)] by (auto simp: k_def xfer_count_def ring_ok_def word_less_nat_alt)
  have n0: "n \<noteq> 0"
  proof -
    have "length (req_rest req) \<le> unat (rq_sw_desc_cnt req)" by (simp add: req_rest_def)
    then have "unat n = length (req_rest req)" using unat_lt_u32[of "rq_sw_desc_cnt req"] by (simp add: n unat_of_nat)
    then show ?thesis using req(2) by auto
  qed
  obtain e2 where e2: "transfer_queue hw mp x (upd_xfer x (\<lambda>t. t\<lparr>xf_flags := ?fl, xf_last_in_request := (m = 0), xf_cb := False\<rparr>) (inited e req x)) = (0, e2)"
    "submitted e2 x ?ds" "static e2 = static (inited e req x)"
    "en_xfers e2 x = (init_xfer e req)\<lparr>xf_flags := ?fl, xf_last_in_request := (m = 0), xf_cb := False, xf_state := TRANSFER_STATE_SUBMITTED\<rparr>"
    using init_submitted[OF e(1,2) req, where fl = ?fl and l = "m = 0" and c = False and x = x and hw = hw and mp = mp] unfolding k_def by blast
  obtain e3 c where e3: "wait x (cl, e2) = (cl @ map desc_copy ?ds, e3)" "idle e3" "static e3 = static e2"
    "en_xfers e3 x = (en_xfers e2 x)\<lparr>xf_state := TRANSFER_STATE_COMPLETED, xf_desc_cmpl := c\<rparr>"
    using completes[OF e2(2)] by blast
  note s = static_eq[OF e3(3)[unfolded e2(3)]]
  have x3: "xf_desc_num (en_xfers e3 x) = of_nat k" "xf_desc_virt (en_xfers e3 x) = ?v" "xf_flags (en_xfers e3 x) = ?fl"
    "xf_last_in_request (en_xfers e3 x) = (m = 0)" "xf_state (en_xfers e3 x) = TRANSFER_STATE_COMPLETED"
    "xf_len (en_xfers e3 x) = sum_list (map sd_len (take k (req_rest req)))"
    by (simp_all add: e3(4) e2(4) init_xfer_def Let_def k_def zero_transfer_def)
  have len: "uint (sum_list (map sd_len (take k (req_rest req)))) = int (bytes_of (take k (req_rest req)))"
  proof (rule len_sum)
    have "bytes_of (req_rest req) = bytes_of (take k (req_rest req)) + bytes_of (drop k (req_rest req))" by (simp flip: bytes_append)
    then show "bytes_of (take k (req_rest req)) < 4294967296" using small by simp
  qed
  let ?e4 = "e3\<lparr>en_desc_used := en_desc_used e3 - of_nat k\<rparr>"
  let ?e5 = "?e4\<lparr>en_desc := upd_range ?v k (\<lambda>_ _. cleared_desc) (en_desc e3)\<rparr>"
  have str: "\<not> en_streaming e3" using e(3) s(6) by (simp add: inited_def Let_def)
  have d: "xdma_desc_done ?v (of_nat k) (en_desc e3) = Inr (upd_range ?v k (\<lambda>_ _. cleared_desc) (en_desc e3))"
    using k s(1) by (intro desc_done) (simp_all add: inited_def Let_def)
  have t: "transfer_destroy x (?e4, sgt, um) = Inr (?e5, if m = 0 then unmap dma_mapped (sgt, um) else (sgt, um))"
    by (simp add: transfer_destroy_def Let_def x3 d unmap_def)
  have o: "xfer_outcome hw mp x done e3 = Inr (0, done + int (bytes_of (take k (req_rest req))), False, e3)"
    using str by (simp add: xfer_outcome_def Let_def x3 len)
  have cp: "map desc_copy ?ds = request_copies (en_non_incr_addr e) (en_dir e) None (rq_ep_addr req) (take k (req_rest req))"
    using init_copies[of e req] e(3) by (simp add: k_def writeback_def)
  have i: "xf_desc_num (en_xfers (inited e req x) x) = of_nat k" by (simp add: inited_def init_xfer_def Let_def k_def)
  have "submit_one hw mp wait x dma_mapped n done (cl, e, sgt, um, req) =
      Inr (0, done + int (bytes_of (take k (req_rest req))), m, cl @ map desc_copy ?ds, ?e5,
        fst (if m = 0 then unmap dma_mapped (sgt, um) else (sgt, um)), snd (if m = 0 then unmap dma_mapped (sgt, um) else (sgt, um)), advanced e req)"
    using transfer_init_ok[OF e(2) req, of x] e2(1)
    by (simp add: submit_one_def Let_def i m_def[folded k_def, symmetric] mark_inited e3(1) o t[unfolded x3(1)] x3(1) case_prod_beta split del: if_split)
  then have "submit_loop hw mp wait x dma_mapped (Suc fuel) n done (cl, e, sgt, um, req) =
      (let (sgt, um) = (if m = 0 then unmap dma_mapped (sgt, um) else (sgt, um)) in
       submit_loop hw mp wait x dma_mapped fuel m (done + int (bytes_of (take k (req_rest req)))) (cl @ map desc_copy ?ds, ?e5, sgt, um, advanced e req))"
    using n0 by (simp add: case_prod_beta Let_def split del: if_split)
  moreover have "idle ?e5" using e3(2) by (simp add: idle_def)
  moreover have "ring_ok ?e5" using inited_ring[OF e(2), of req x] s by (simp add: ring_ok_def writeback_def)
  moreover have "config_of ?e5 = config_of e" using s by (simp add: config_of_def inited_def Let_def)
  ultimately show ?thesis unfolding cp by blast
qed

lemma loop_copies:
  assumes "idle e" "ring_ok e" "\<not> en_streaming e" "cb_ok req" "n = of_nat (length (req_rest req))"
    "bytes_of (req_rest req) < 4294967296" "length (req_rest req) < fuel"
  shows "\<exists>e'. submit_loop hw mp wait x dma_mapped fuel n done (cl, e, sgt, um, req) =
      (let (sgt, um) = (if req_rest req = [] then (sgt, um) else unmap dma_mapped (sgt, um)) in
       Some (Inr (0, done + int (bytes_of (req_rest req)),
        cl @ request_copies (en_non_incr_addr e) (en_dir e) None (rq_ep_addr req) (req_rest req), e', sgt, um))) \<and> idle e'"
  using assms
proof (induction fuel arbitrary: e req n "done" cl sgt um)
  case (Suc fuel)
  show ?case
  proof (cases "req_rest req = []")
    case True
    then show ?thesis using Suc.prems by (auto simp: bytes_of_def)
  next
    case False
    let ?k = "xfer_count e req" and ?m = "n - of_nat (xfer_count e req)"
    obtain e' where e': "submit_loop hw mp wait x dma_mapped (Suc fuel) n done (cl, e, sgt, um, req) =
      (let (sgt, um) = (if ?m = 0 then unmap dma_mapped (sgt, um) else (sgt, um)) in
       submit_loop hw mp wait x dma_mapped fuel ?m (done + int (bytes_of (take ?k (req_rest req))))
        (cl @ request_copies (en_non_incr_addr e) (en_dir e) None (rq_ep_addr req) (take ?k (req_rest req)), e', sgt, um, advanced e req))"
      "idle e'" "ring_ok e'" "config_of e' = config_of e"
      using transfer_done[OF Suc.prems(1-4) False Suc.prems(5,6)] by blast
    note rest = advanced_rest[OF Suc.prems(2,4)]
    have c: "en_dir e' = en_dir e" "en_streaming e' = en_streaming e" "en_non_incr_addr e' = en_non_incr_addr e"
      using e'(4) by (simp_all add: config_of_def)
    have l: "length (req_rest req) < 4294967296"
      using unat_lt_u32[of "rq_sw_desc_cnt req"] by (simp add: req_rest_def)
    have k: "0 < ?k" "?k \<le> length (req_rest req)"
      using Suc.prems(2) False by (auto simp: xfer_count_def ring_ok_def word_less_nat_alt)
    have m: "?m = of_nat (length (drop ?k (req_rest req)))" using k(2) Suc.prems(5) by (simp add: of_nat_diff)
    have z: "?m = 0 \<longleftrightarrow> drop ?k (req_rest req) = []"
    proof -
      have "unat ?m = length (drop ?k (req_rest req))" unfolding m using l by (simp add: unat_of_nat)
      then show ?thesis by (metis length_0_conv unat_eq_zero)
    qed
    have b: "bytes_of (req_rest req) = bytes_of (take ?k (req_rest req)) + bytes_of (drop ?k (req_rest req))"
      by (simp flip: bytes_append)
    have cp: "request_copies (en_non_incr_addr e) (en_dir e) None (rq_ep_addr req) (req_rest req) =
        request_copies (en_non_incr_addr e) (en_dir e) None (rq_ep_addr req) (take ?k (req_rest req)) @
        request_copies (en_non_incr_addr e) (en_dir e) None (rq_ep_addr (advanced e req)) (drop ?k (req_rest req))"
    proof -
      have "ep_at (en_non_incr_addr e) (rq_ep_addr req) (take ?k (req_rest req)) (length (take ?k (req_rest req))) = rq_ep_addr (advanced e req)"
        using k(2) by (simp add: advanced_def Let_def ep_at_def min_absorb2)
      then show ?thesis using copies_append[of _ _ _ "take ?k (req_rest req)" "drop ?k (req_rest req)"] by simp
    qed
    obtain sgt1 um1 where u: "(if ?m = 0 then unmap dma_mapped (sgt, um) else (sgt, um)) = (sgt1, um1)" by fastforce
    have "\<exists>e''. submit_loop hw mp wait x dma_mapped fuel ?m (done + int (bytes_of (take ?k (req_rest req))))
        (cl @ request_copies (en_non_incr_addr e) (en_dir e) None (rq_ep_addr req) (take ?k (req_rest req)), e', sgt1, um1, advanced e req) =
      (let (sgt, um) = (if req_rest (advanced e req) = [] then (sgt1, um1) else unmap dma_mapped (sgt1, um1)) in
       Some (Inr (0, done + int (bytes_of (take ?k (req_rest req))) + int (bytes_of (req_rest (advanced e req))),
        (cl @ request_copies (en_non_incr_addr e) (en_dir e) None (rq_ep_addr req) (take ?k (req_rest req))) @
        request_copies (en_non_incr_addr e') (en_dir e') None (rq_ep_addr (advanced e req)) (req_rest (advanced e req)), e'', sgt, um))) \<and> idle e''"
      using Suc.prems k e'(2,3) c rest m b by (intro Suc.IH) auto
    then obtain e'' where l: "submit_loop hw mp wait x dma_mapped fuel ?m (done + int (bytes_of (take ?k (req_rest req))))
        (cl @ request_copies (en_non_incr_addr e) (en_dir e) None (rq_ep_addr req) (take ?k (req_rest req)), e', sgt1, um1, advanced e req) =
      (let (sgt, um) = (if ?m = 0 then (sgt1, um1) else unmap dma_mapped (sgt1, um1)) in
       Some (Inr (0, done + int (bytes_of (req_rest req)),
        cl @ request_copies (en_non_incr_addr e) (en_dir e) None (rq_ep_addr req) (req_rest req), e'', sgt, um)))" "idle e''"
      unfolding rest(2) z cp b c by auto
    have "(if ?m = 0 then (sgt1, um1) else unmap dma_mapped (sgt1, um1)) = unmap dma_mapped (sgt, um)"
      using u by (simp split: if_splits)
    then show ?thesis using l False unfolding e'(1) u by auto
  qed
qed simp

end

end
