(* ===== verification/Sgdma_Queue.thy ===== *)
theory Sgdma_Queue
  imports Sgdma_Copy
begin

text \<open>
  The queue of transfers under service: whatever the hardware reports, the service routine takes
  transfers off the front of the queue only, and wakes each of them once, when its outcome is decided.
\<close>

subsection \<open>What is seen of the queue\<close>

definition woken :: "xdma_engine \<Rightarrow> nat list" where
  "woken e = concat (map (\<lambda>w. case w of Wake_transfer x \<Rightarrow> [x] | _ \<Rightarrow> []) (en_wakes e))"

definition queue_view :: "xdma_engine \<Rightarrow> nat list \<times> nat list \<times> (nat \<Rightarrow> transfer_state)" where
  "queue_view e = (en_transfer_list e, woken e, \<lambda>x. xf_state (en_xfers e x))"

text \<open>What a transfer's place in the ring needs: the completion records of its descriptors exist.\<close>

definition geom :: "xdma_engine \<Rightarrow> bool \<times> nat \<times> (nat \<Rightarrow> nat \<times> u32) \<times> bool" where
  "geom e = (en_eop_flush e, length (en_result e), \<lambda>x. (xf_desc_virt (en_xfers e x), xf_desc_num (en_xfers e x)), en_offline e)"

definition fits :: "xdma_engine \<Rightarrow> nat \<Rightarrow> bool" where
  "fits e x \<longleftrightarrow> (en_eop_flush e \<longrightarrow> unat (xf_desc_num (en_xfers e x)) < 2147483648 \<and>
     xf_desc_virt (en_xfers e x) + unat (xf_desc_num (en_xfers e x)) \<le> length (en_result e))"

lemma fits_cong: "geom e = geom e' \<Longrightarrow> fits e x = fits e' x"
  by (auto simp: geom_def fits_def fun_eq_iff)

definition fifo :: "nat list \<Rightarrow> nat list \<times> nat list \<times> (nat \<Rightarrow> transfer_state) \<Rightarrow> bool" where
  "fifo q = (\<lambda>(pending, awake, st). q = awake @ pending \<and> distinct q \<and> (\<forall>x\<in>set pending. st x = TRANSFER_STATE_SUBMITTED) \<and>
     (\<forall>x\<in>set awake. st x = TRANSFER_STATE_COMPLETED \<or> st x = TRANSFER_STATE_FAILED))"

lemma fifo_finish:
  assumes "fifo q (x # rest, awake, st)" "s = TRANSFER_STATE_COMPLETED \<or> s = TRANSFER_STATE_FAILED"
  shows "fifo q (rest, awake @ [x], st(x := s))"
  using assms by (auto simp: fifo_def)

subsection \<open>Operations\<close>

lemma woken_wake [simp]: "woken (wake_up w e) = woken e @ (case w of Wake_transfer x \<Rightarrow> [x] | _ \<Rightarrow> [])"
  by (simp add: woken_def wake_up_def)

lemma woken_state [simp]:
  "woken (e\<lparr>en_shutdown := a\<rparr>) = woken e" "woken (e\<lparr>en_running := b\<rparr>) = woken e" "woken (e\<lparr>en_desc_dequeued := a\<rparr>) = woken e"
  "woken (e\<lparr>en_status := a\<rparr>) = woken e" "woken (e\<lparr>en_transfer_list := l\<rparr>) = woken e" "woken (e\<lparr>en_perf := p\<rparr>) = woken e"
  "woken (e\<lparr>en_xfers := xs\<rparr>) = woken e" "woken (e\<lparr>en_ops := os\<rparr>) = woken e"
  by (simp_all add: woken_def)

lemma woken_prims [simp]:
  "woken (write_register v r e) = woken e" "woken (snd (read_register hw r e)) = woken e" "woken (upd_xfer x f e) = woken e"
  by (simp_all add: write_register_def read_register_def upd_xfer_def Let_def)

text \<open>The fields an operation that only talks to the hardware leaves as they are.\<close>

definition queue_part :: "xdma_engine \<Rightarrow> (nat list \<times> nat list \<times> (nat \<Rightarrow> transfer_state)) \<times> (bool \<times> nat \<times> (nat \<Rightarrow> nat \<times> u32) \<times> bool)" where
  "queue_part e = (queue_view e, geom e)"

lemma queue_part_state [simp]:
  "queue_part (e\<lparr>en_shutdown := a\<rparr>) = queue_part e" "queue_part (e\<lparr>en_running := b\<rparr>) = queue_part e"
  "queue_part (e\<lparr>en_desc_dequeued := a\<rparr>) = queue_part e" "queue_part (e\<lparr>en_status := a\<rparr>) = queue_part e"
  "queue_part (e\<lparr>en_perf := p\<rparr>) = queue_part e" "queue_part (e\<lparr>en_ops := os\<rparr>) = queue_part e"
  by (simp_all add: queue_part_def queue_view_def geom_def)

lemma queue_part_prims [simp]:
  "queue_part (write_register v r e) = queue_part e" "queue_part (snd (read_register hw r e)) = queue_part e"
  "queue_part (wake_up Wake_shutdown e) = queue_part e" "queue_part (wake_up Wake_perf e) = queue_part e"
  "queue_part (wake_up (Io_done x) e) = queue_part e" "queue_part (engine_status_read hw cl e) = queue_part e"
  by (simp_all add: write_register_def read_register_def queue_part_def queue_view_def geom_def wake_up_def woken_def engine_status_read_def Let_def)

lemma queue_part_stop [simp]: "queue_part (xdma_engine_stop mp e) = queue_part e" "queue_part (engine_service_shutdown mp e) = queue_part e"
  by (simp_all add: xdma_engine_stop_def engine_service_shutdown_def Let_def)

lemma queue_part_perf [simp]: "queue_part (engine_service_perf n e) = queue_part e"
  by (auto simp: engine_service_perf_def Let_def split: option.splits)

lemma queue_part_start [simp]: "queue_part (snd (engine_start hw mp e)) = queue_part e"
  by (auto simp: engine_start_def engine_start_mode_config_def Let_def split: list.splits)

lemma queue_part_resume [simp]: "queue_part (snd (engine_service_resume hw mp e)) = queue_part e"
  by (auto simp: engine_service_resume_def case_prod_beta Let_def)

text \<open>Deciding a transfer at the front and taking it off the queue.\<close>

definition finished :: "nat list \<Rightarrow> nat set \<Rightarrow> xdma_engine \<Rightarrow> bool" where
  "finished q X e \<longleftrightarrow> fifo q (queue_view e) \<and> (\<forall>x\<in>X. fits e x) \<and> \<not> en_offline e"

lemma finished_cong:
  assumes "queue_part e = queue_part e'"
  shows "finished q X e = finished q X e'"
proof -
  have v: "queue_view e = queue_view e'" and g: "geom e = geom e'" using assms by (simp_all add: queue_part_def)
  have "en_offline e = en_offline e'" using g by (simp add: geom_def)
  then show ?thesis unfolding finished_def v fits_cong[OF g] by simp
qed

lemma finish_front:
  assumes "finished q X e" "en_transfer_list e = x # rest" "s = TRANSFER_STATE_COMPLETED \<or> s = TRANSFER_STATE_FAILED"
    and "\<And>t. xf_state (f t) = s" "\<And>t. xf_desc_virt (f t) = xf_desc_virt t" "\<And>t. xf_desc_num (f t) = xf_desc_num t"
  shows "finished q X (engine_transfer_completion x (upd_xfer x f e\<lparr>en_transfer_list := rest\<rparr>))"
proof -
  let ?e = "engine_transfer_completion x (upd_xfer x f e\<lparr>en_transfer_list := rest\<rparr>)"
  have v: "queue_view ?e = (rest, woken e @ [x], (\<lambda>y. xf_state (en_xfers e y))(x := s))"
    using assms(4) by (auto simp: queue_view_def engine_transfer_completion_def Let_def fun_eq_iff) (auto simp: upd_xfer_def wake_up_def)
  have g: "geom ?e = geom e"
    using assms(5,6) by (auto simp: geom_def engine_transfer_completion_def Let_def fun_eq_iff wake_up_def upd_xfer_def)
  have "fifo q (x # rest, woken e, \<lambda>y. xf_state (en_xfers e y))" using assms(1,2) by (simp add: finished_def queue_view_def)
  from fifo_finish[OF this assms(3)] show ?thesis
    using assms(1) v g fits_cong[OF g] by (auto simp: finished_def) (auto simp: geom_def)
qed

lemma finished_list:
  assumes "finished q X e" "en_transfer_list e = l"
  shows "\<exists>n' e'. engine_service_transfer_list l n e = (case en_transfer_list e' of [] \<Rightarrow> None | x # _ \<Rightarrow> Some x, n', e') \<and> finished q X e' \<and>
     en_running e' = en_running e \<and> en_shutdown e' = en_shutdown e"
  using assms
proof (induction l arbitrary: n e)
  case Nil
  then show ?case by simp
next
  case (Cons x rest)
  let ?n = "xf_desc_num (en_xfers e x)"
  show ?case
  proof (cases "\<not> xf_cyclic (en_xfers e x) \<and> ?n < n")
    case False
    then have "engine_service_transfer_list (x # rest) n e = (Some x, n, e)" by (auto simp: Let_def)
    then show ?thesis using Cons.prems by auto
  next
    case True
    let ?e = "e\<lparr>en_desc_dequeued := en_desc_dequeued e + ?n\<rparr>"
    let ?e1 = "engine_transfer_completion x (upd_xfer x (\<lambda>t. t\<lparr>xf_state := TRANSFER_STATE_COMPLETED\<rparr>)
       (e\<lparr>en_transfer_list := rest, en_desc_dequeued := en_desc_dequeued e + ?n\<rparr>))"
    have "finished q X ?e" using Cons.prems(1) finished_cong[of ?e e] by simp
    from finish_front[OF this, of x rest TRANSFER_STATE_COMPLETED "\<lambda>t. t\<lparr>xf_state := TRANSFER_STATE_COMPLETED\<rparr>"]
    have "finished q X (engine_transfer_completion x (upd_xfer x (\<lambda>t. t\<lparr>xf_state := TRANSFER_STATE_COMPLETED\<rparr>) ?e\<lparr>en_transfer_list := rest\<rparr>))"
      using Cons.prems(2) by simp
    moreover have "upd_xfer x (\<lambda>t. t\<lparr>xf_state := TRANSFER_STATE_COMPLETED\<rparr>) ?e\<lparr>en_transfer_list := rest\<rparr> =
       upd_xfer x (\<lambda>t. t\<lparr>xf_state := TRANSFER_STATE_COMPLETED\<rparr>)
       (e\<lparr>en_transfer_list := rest, en_desc_dequeued := en_desc_dequeued e + ?n\<rparr>)" by (simp add: upd_xfer_def)
    ultimately have f: "finished q X ?e1" by simp
    have s: "engine_service_transfer_list (x # rest) n e = engine_service_transfer_list rest (n - ?n) ?e1" using True by (simp add: Let_def)
    have "en_transfer_list ?e1 = rest" "en_running ?e1 = en_running e" "en_shutdown ?e1 = en_shutdown e" by (simp_all add: upd_xfer_def)
    then show ?thesis unfolding s using Cons.IH[OF f, of "n - ?n"] by auto
  qed
qed

lemma eop_total: "\<forall>i\<in>set l. i < length rs \<Longrightarrow> \<exists>b. eop_received l rs = Inr b"
  by (induction l) auto

lemma finished_state:
  assumes "finished q X e" "queue_part e' = queue_part e"
  shows "finished q X e'"
  using assms finished_cong by blast

lemma finished_flags:
  assumes "finished q X e" "\<And>t. xf_state (f t) = xf_state t" "\<And>t. xf_desc_virt (f t) = xf_desc_virt t" "\<And>t. xf_desc_num (f t) = xf_desc_num t"
  shows "finished q X (upd_xfer x f e)"
  using assms(1)
proof (rule finished_state)
  show "queue_part (upd_xfer x f e) = queue_part e"
    using assms(2-4) by (simp add: queue_part_def queue_view_def geom_def fun_eq_iff) (auto simp: upd_xfer_def)
qed

lemma finish_del:
  assumes "finished q X e" "en_transfer_list e = x # rest" "s = TRANSFER_STATE_COMPLETED \<or> s = TRANSFER_STATE_FAILED"
    and "\<And>t. xf_state (f t) = s" "\<And>t. xf_desc_virt (f t) = xf_desc_virt t" "\<And>t. xf_desc_num (f t) = xf_desc_num t"
  shows "finished q X (transfer_del x (upd_xfer x f e))"
proof -
  have "tl (en_transfer_list (upd_xfer x f e)) = rest" using assms(2) by (simp add: upd_xfer_def)
  then show ?thesis using finish_front[OF assms] by (simp add: transfer_del_def)
qed

lemma list_upd [simp]: "en_transfer_list (upd_xfer x f e) = en_transfer_list e" "en_shutdown (upd_xfer x f e) = en_shutdown e"
  "en_running (upd_xfer x f e) = en_running e"
  by (simp_all add: upd_xfer_def)

lemma shutdown_kept [simp]:
  "en_shutdown (transfer_del x e) = en_shutdown e" "en_shutdown (engine_service_shutdown mp e) = en_shutdown e"
  "en_shutdown (snd (read_register hw r e)) = en_shutdown e" "en_shutdown (engine_status_read hw cl e) = en_shutdown e"
  by (simp_all add: transfer_del_def engine_service_shutdown_def wake_up_def read_register_def engine_status_read_def Let_def)

lemma finished_final:
  assumes "finished q X e" "set (en_transfer_list e) \<subseteq> X"
  shows "\<exists>e'. engine_service_final_transfer hw mp (case en_transfer_list e of [] \<Rightarrow> None | x # _ \<Rightarrow> Some x) n e = Inr e' \<and> finished q X e' \<and> en_shutdown e' = en_shutdown e"
proof (cases "en_transfer_list e")
  case Nil
  then show ?thesis using assms(1) by (simp add: engine_service_final_transfer_def)
next
  case (Cons x rest)
  let ?x = "en_xfers e x"
  let ?d = "e\<lparr>en_desc_dequeued := en_desc_dequeued e + xf_desc_num ?x\<rparr>"
  have d: "finished q X ?d" by (rule finished_state[OF assms(1)]) simp
  consider (err) "status_error e" | (eop) "\<not> status_error e" "n < xf_desc_num ?x" "en_eop_flush e"
    | (half) "\<not> status_error e" "n < xf_desc_num ?x" "\<not> en_eop_flush e" | (full) "\<not> status_error e" "\<not> n < xf_desc_num ?x" by blast
  then show ?thesis
  proof cases
    case err
    let ?r = "if and (en_status e) XDMA_STAT_BUSY \<noteq> 0 then snd (read_register hw status e) else e"
    have r: "finished q X (xdma_engine_stop mp ?r)" by (rule finished_state[OF assms(1)]) simp
    have "engine_err_handle hw mp x e = upd_xfer x (\<lambda>t. t\<lparr>xf_state := TRANSFER_STATE_FAILED\<rparr>) (xdma_engine_stop mp ?r)"
      by (simp add: engine_err_handle_def Let_def xdma_engine_stop_def upd_xfer_def write_register_def st_credit_def)
    moreover have "en_transfer_list (xdma_engine_stop mp ?r) = x # rest" using Cons by (simp add: read_register_def Let_def)
    ultimately show ?thesis
      using err Cons finish_del[OF r, of x rest TRANSFER_STATE_FAILED] by (simp add: engine_service_final_transfer_def)
  next
    case eop
    have "fits e x" using assms Cons by (auto simp: finished_def)
    then have "xf_desc_virt ?x + unat (xf_desc_num ?x) \<le> length (en_result e)" "unat (xf_desc_num ?x) < 2147483648" using eop(3) by (simp_all add: fits_def)
    moreover have "nat (sint n) = unat n"
      using eop(2) calculation(2) by (subst sint_unat) (simp_all add: word_less_nat_alt)
    ultimately have "\<forall>i\<in>set (map (\<lambda>i. xf_desc_virt ?x + i) [0..<nat (sint n)]). i < length (en_result e)"
      using eop(2) by (auto simp: word_less_nat_alt)
    then obtain b where b: "eop_received (map (\<lambda>i. xf_desc_virt ?x + i) [0..<nat (sint n)]) (en_result e) = Inr b" using eop_total by blast
    let ?f = "\<lambda>t. t\<lparr>xf_flags := (if b then or (xf_flags t) XFER_FLAG_ST_C2H_EOP_RCVED else xf_flags t), xf_desc_cmpl := xf_desc_cmpl t + n\<rparr>"
    let ?u = "upd_xfer x ?f e"
    let ?s = "engine_service_shutdown mp ?u\<lparr>en_desc_dequeued := en_desc_dequeued (engine_service_shutdown mp ?u) + xf_desc_cmpl (en_xfers (engine_service_shutdown mp ?u) x)\<rparr>"
    have u: "finished q X ?u" by (rule finished_flags[OF assms(1)]) simp_all
    have s: "finished q X ?s" by (rule finished_state[OF u]) simp
    have l: "en_transfer_list ?s = x # rest" using Cons by (simp add: engine_service_shutdown_def wake_up_def)
    let ?w = "upd_xfer x (\<lambda>t. t\<lparr>xf_state := TRANSFER_STATE_COMPLETED\<rparr>) (engine_service_shutdown mp ?u)"
    have "upd_xfer x (\<lambda>t. t\<lparr>xf_state := TRANSFER_STATE_COMPLETED\<rparr>) ?s =
        ?w\<lparr>en_desc_dequeued := en_desc_dequeued ?w + xf_desc_cmpl (en_xfers ?w x)\<rparr>" by (simp add: upd_xfer_def)
    then have w: "finished q X (transfer_del x (?w\<lparr>en_desc_dequeued := en_desc_dequeued ?w + xf_desc_cmpl (en_xfers ?w x)\<rparr>))"
      using finish_del[OF s l, of TRANSFER_STATE_COMPLETED "\<lambda>t. t\<lparr>xf_state := TRANSFER_STATE_COMPLETED\<rparr>"] by simp
    show ?thesis
    proof (cases "and (xf_flags (en_xfers ?u x)) XFER_FLAG_ST_C2H_EOP_RCVED = 0")
      case True
      then show ?thesis using eop Cons b u by (simp add: engine_service_final_transfer_def Let_def split del: if_split)
    next
      case False
      then show ?thesis using eop Cons b w by (simp add: engine_service_final_transfer_def Let_def split del: if_split)
    qed
  next
    case half
    then show ?thesis
      using Cons finish_del[OF d, of x rest TRANSFER_STATE_FAILED "\<lambda>t. t\<lparr>xf_state := TRANSFER_STATE_FAILED, xf_desc_cmpl := n\<rparr>"]
      by (simp add: engine_service_final_transfer_def Let_def)
  next
    case full
    then show ?thesis
      using Cons finish_del[OF d, of x rest TRANSFER_STATE_COMPLETED "\<lambda>t. t\<lparr>xf_state := TRANSFER_STATE_COMPLETED, xf_desc_cmpl := xf_desc_num t\<rparr>"]
      by (simp add: engine_service_final_transfer_def Let_def)
  qed
qed


subsection \<open>Service keeps the queue\<close>

definition queue_inv :: "nat list \<Rightarrow> nat set \<Rightarrow> xdma_engine \<Rightarrow> bool" where
  "queue_inv q X e \<longleftrightarrow> finished q X e \<and> (en_running e \<longrightarrow> en_transfer_list e \<noteq> []) \<and> and (en_shutdown e) ENGINE_SHUTDOWN_REQUEST = 0"

lemma resume_queue:
  assumes "finished q X e" "and (en_shutdown e) ENGINE_SHUTDOWN_REQUEST = 0"
  shows "queue_inv q X (snd (engine_service_resume hw mp e))"
    "en_running (snd (engine_service_resume hw mp e)) \<longleftrightarrow> en_transfer_list (snd (engine_service_resume hw mp e)) \<noteq> []"
proof -
  have f: "finished q X (snd (engine_service_resume hw mp e))" by (rule finished_state[OF assms(1)]) simp
  have l: "en_transfer_list (snd (engine_service_resume hw mp e)) = en_transfer_list e"
    using queue_part_resume[of hw mp e] by (simp add: queue_part_def queue_view_def del: queue_part_resume)
  show r: "en_running (snd (engine_service_resume hw mp e)) \<longleftrightarrow> en_transfer_list (snd (engine_service_resume hw mp e)) \<noteq> []"
    unfolding l using assms(2)
    by (auto simp: engine_service_resume_def engine_start_def engine_service_shutdown_def wake_up_def Let_def split: list.splits)
  have "and (en_shutdown (snd (engine_service_resume hw mp e))) ENGINE_SHUTDOWN_REQUEST = 0"
  proof -
    have s: "en_shutdown (snd (engine_start hw mp e)) = (if en_running e \<or> en_transfer_list e = [] then en_shutdown e else 0)"
      by (auto simp: engine_start_def engine_start_mode_config_def Let_def write_register_def read_register_def split: list.splits)
    show ?thesis using assms(2) s by (auto simp: engine_service_resume_def case_prod_beta Let_def)
  qed
  then show "queue_inv q X (snd (engine_service_resume hw mp e))" using f r by (simp add: queue_inv_def)
qed

lemma service_queue:
  assumes e: "queue_inv q X e" and X: "set q \<subseteq> X"
  shows "\<exists>rv e'. engine_service hw mp wb e = Inr (rv, e') \<and> queue_inv q X e'"
proof (cases "en_running e")
  case False
  have "finished q X (engine_status_read hw True e)" using e by (simp add: queue_inv_def finished_state[of q X e])
  moreover have "en_running (engine_status_read hw True e) = en_running e"
    by (simp add: engine_status_read_def read_register_def Let_def)
  ultimately show ?thesis using False e by (simp add: engine_service_def queue_inv_def)
next
  case True
  let ?n = "and wb WB_COUNT_MASK" and ?er = "and wb WB_ERR_MASK"
  obtain n e3 where c: "service_count hw ?n (service_stop hw mp ?n ?er e) = (n, e3)" by fastforce
  then have c': "e3 = snd (service_count hw ?n (service_stop hw mp ?n ?er e))" by simp
  let ?e4 = "engine_service_perf n e3"
  have q: "queue_part e3 = queue_part e" "queue_part ?e4 = queue_part e"
    by (simp_all add: c' service_stop_def service_count_def Let_def)
  have sh: "en_shutdown e3 = en_shutdown e" by (simp add: c' service_stop_def service_count_def Let_def)
  have l: "en_transfer_list e3 = en_transfer_list e" using q(1) by (simp add: queue_part_def queue_view_def)
  have f: "finished q X e" and s: "and (en_shutdown e) ENGINE_SHUTDOWN_REQUEST = 0" and ne: "en_transfer_list e \<noteq> []"
    using e True by (auto simp: queue_inv_def)
  show ?thesis
  proof (cases "n = 0")
    case zero: True
    then have "engine_service hw mp wb e = Inr (if ?er \<noteq> 0 then -1 else 0, e3)"
      using True by (simp add: engine_service_def c)
    then show ?thesis using finished_state[OF f q(1)] sh s ne l by (simp add: queue_inv_def)
  next
    case False
    obtain n5 e5 where e5: "engine_service_transfer_list (en_transfer_list e3) (n - en_desc_dequeued e3) ?e4 =
        (case en_transfer_list e5 of [] \<Rightarrow> None | x # _ \<Rightarrow> Some x, n5, e5)" "finished q X e5" "en_shutdown e5 = en_shutdown e3"
      using finished_list[OF finished_state[OF f q(2)], of "en_transfer_list e3" "n - en_desc_dequeued e3"] by auto
    have "set (en_transfer_list e5) \<subseteq> X" using e5(2) X by (auto simp: finished_def fifo_def queue_view_def)
    from finished_final[OF e5(2) this] obtain e6 where e6:
      "engine_service_final_transfer hw mp (case en_transfer_list e5 of [] \<Rightarrow> None | x # _ \<Rightarrow> Some x) n5 e5 = Inr e6"
      "finished q X e6" "en_shutdown e6 = en_shutdown e5" by blast
    have "engine_service hw mp wb e = Inr (if ?er \<noteq> 0 then -1 else 0, snd (engine_service_resume hw mp e6))"
      using True False ne l by (simp add: engine_service_def c Let_def e5(1)[unfolded l] e6(1))
    then show ?thesis using resume_queue(1)[OF e6(2)] e6(3) e5(3) sh s by simp
  qed
qed


subsection \<open>Runs\<close>

text \<open>An engine in use: transfers are queued, and the interrupt or the polling thread has it serviced.\<close>

datatype engine_event = Queue_transfer nat | Service u32

fun engine_event_step :: "engine_hw \<Rightarrow> module_params \<Rightarrow> engine_event \<Rightarrow> xdma_engine \<Rightarrow> xdma_engine res" where
  "engine_event_step hw mp (Queue_transfer x) e = Inr (snd (transfer_queue hw mp x e))"
| "engine_event_step hw mp (Service wb) e = rbind (engine_service hw mp wb e) (\<lambda>(_, e). Inr e)"

definition engine_run :: "engine_hw \<Rightarrow> module_params \<Rightarrow> engine_event list \<Rightarrow> xdma_engine \<Rightarrow> xdma_engine res" where
  "engine_run hw mp = foldM (engine_event_step hw mp)"

definition queued :: "engine_event list \<Rightarrow> nat list" where
  "queued evs = concat (map (\<lambda>ev. case ev of Queue_transfer x \<Rightarrow> [x] | Service _ \<Rightarrow> []) evs)"

lemma queued_simps [simp]: "queued [] = []" "queued (Queue_transfer x # evs) = x # queued evs" "queued (Service wb # evs) = queued evs"
  by (simp_all add: queued_def)

lemma queue_queue:
  assumes e: "queue_inv q X e" and x: "x \<notin> set q"
  shows "queue_inv (q @ [x]) X (snd (transfer_queue hw mp x e))"
proof -
  let ?e = "upd_xfer x (\<lambda>t. t\<lparr>xf_state := TRANSFER_STATE_SUBMITTED\<rparr>) e\<lparr>en_transfer_list := en_transfer_list e @ [x]\<rparr>"
  have off: "\<not> en_offline e" "and (en_shutdown e) ENGINE_SHUTDOWN_REQUEST = 0" using e by (simp_all add: queue_inv_def finished_def)
  have g: "geom ?e = geom e" by (auto simp: geom_def upd_xfer_def fun_eq_iff)
  have "fifo (q @ [x]) (queue_view ?e)"
    using e x by (auto simp: queue_inv_def finished_def fifo_def queue_view_def) (auto simp: upd_xfer_def)
  then have f: "finished (q @ [x]) X ?e"
    using e fits_cong[OF g] g by (auto simp: finished_def queue_inv_def) (auto simp: geom_def)
  show ?thesis
  proof (cases "en_running e")
    case True
    then show ?thesis using off f by (simp add: transfer_queue_def Let_def queue_inv_def)
  next
    case False
    obtain h t where ht: "en_transfer_list e @ [x] = h # t" by (cases "en_transfer_list e @ [x]") auto
    from start_ops[of ?e h t hw mp] obtain e' where e': "engine_start hw mp ?e = (Some h, e')" "en_running e'"
        "en_transfer_list e' = h # t" "en_shutdown e' = 0"
      using False ht by (auto simp: upd_xfer_def)
    have "finished (q @ [x]) X e'" using e'(1) queue_part_start[of hw mp ?e] by (intro finished_state[OF f]) simp
    then show ?thesis using off False e' by (simp add: transfer_queue_def Let_def queue_inv_def)
  qed
qed

lemma run_queue:
  assumes "queue_inv q X e" "distinct (q @ queued evs)" "set (q @ queued evs) \<subseteq> X"
  shows "\<exists>e'. engine_run hw mp evs e = Inr e' \<and> queue_inv (q @ queued evs) X e'"
  using assms unfolding engine_run_def
proof (induction evs arbitrary: q e)
  case (Cons ev evs)
  show ?case
  proof (cases ev)
    case (Queue_transfer x)
    then have "queue_inv (q @ [x]) X (snd (transfer_queue hw mp x e))" using Cons.prems by (intro queue_queue) auto
    from Cons.IH[OF this] show ?thesis using Cons.prems Queue_transfer by auto
  next
    case (Service wb)
    then obtain rv e1 where "engine_service hw mp wb e = Inr (rv, e1)" "queue_inv q X e1"
      using service_queue[OF Cons.prems(1), of hw mp wb] Cons.prems(3) by auto
    then show ?thesis using Cons.IH[of q e1] Cons.prems Service by auto
  qed
qed simp

text \<open>
  C5: the engine is a queue.  Start from an idle engine and queue any transfers, none of them twice,
  with the service routine running at any time in between, on whatever values the hardware and the
  completion writeback report.  No step fails; the transfers whose waiters were woken, followed by the
  ones still on the engine's list, are the transfers queued, in their order; a woken transfer is
  completed or failed, a listed one still submitted; and the engine is not running on an empty list.
\<close>

theorem engine_run_fifo:
  assumes "idle e" and "woken e = []" and "distinct (queued evs)" and "\<forall>x\<in>set (queued evs). fits e x"
  shows "\<exists>e'. engine_run hw mp evs e = Inr e' \<and> woken e' @ en_transfer_list e' = queued evs \<and>
    (\<forall>x\<in>set (woken e'). xf_state (en_xfers e' x) = TRANSFER_STATE_COMPLETED \<or> xf_state (en_xfers e' x) = TRANSFER_STATE_FAILED) \<and>
    (\<forall>x\<in>set (en_transfer_list e'). xf_state (en_xfers e' x) = TRANSFER_STATE_SUBMITTED) \<and>
    (en_running e' \<longrightarrow> en_transfer_list e' \<noteq> [])"
proof -
  have "queue_inv [] (set (queued evs)) e"
    using assms by (simp add: queue_inv_def finished_def fifo_def queue_view_def idle_def)
  from run_queue[OF this, of evs hw mp] show ?thesis
    using assms(3) by (auto simp: queue_inv_def finished_def fifo_def queue_view_def)
qed

lemma engine_run_fifo_witness:
  "\<exists>e'. engine_run (\<lambda>_. 0) \<lparr>poll_mode = True, enable_st_c2h_credit = False, desc_blen_max = 4096\<rparr>
      [Queue_transfer 3, Queue_transfer 4, Service 2, Queue_transfer 5] demo_engine = Inr e' \<and> woken e' @ en_transfer_list e' = [3, 4, 5]"
  using engine_run_fifo[of demo_engine "[Queue_transfer 3, Queue_transfer 4, Service 2, Queue_transfer 5]" "\<lambda>_. 0"
      "\<lparr>poll_mode = True, enable_st_c2h_credit = False, desc_blen_max = 4096\<rparr>"]
  by (auto simp: demo_engine_def idle_def woken_def fits_def)

text \<open>
  C39: an engine that fails before its first descriptor.  The routine leaves before it looks at the
  status when no descriptor was completed: it has stopped the engine by then, but an error in the
  status it has read does not fail the transfer.  However often the routine runs afterwards, the
  transfers stay submitted on the list, none of their waiters is woken, and the engine stays stopped.
\<close>

theorem engine_error_before_first_stays:
  assumes "en_running e" and "hw (en_ops e @ [Read_register status_rc]) = s" and "and s XDMA_STAT_BUSY = 0"
    and "status_error (e\<lparr>en_status := s\<rparr>)" and "\<forall>ops. hw (ops @ [Read_register completed_desc_count]) = 0"
  shows "\<exists>e'. engine_run hw mp (Service 0 # map Service wbs) e = Inr e' \<and> \<not> en_running e' \<and>
    (wbs = [] \<longrightarrow> status_error e') \<and> en_transfer_list e' = en_transfer_list e \<and> en_xfers e' = en_xfers e \<and> woken e' = woken e"
proof -
  let ?P = "\<lambda>e'. \<not> en_running e' \<and> en_transfer_list e' = en_transfer_list e \<and> en_xfers e' = en_xfers e \<and> woken e' = woken e"
  have stays: "?P e1 \<Longrightarrow> \<exists>e'. engine_run hw mp (map Service wbs) e1 = Inr e' \<and> ?P e'" for wbs e1
  proof (induction wbs arbitrary: e1)
    case Nil
    then show ?case by (simp add: engine_run_def)
  next
    case (Cons wb wbs)
    have "engine_service hw mp wb e1 = Inr (0, engine_status_read hw True e1)" using Cons.prems by (simp add: engine_service_def)
    moreover have "?P (engine_status_read hw True e1)"
      using Cons.prems by (simp add: engine_status_read_def read_register_def Let_def)
    ultimately show ?case using Cons.IH[of "engine_status_read hw True e1"] by (simp add: engine_run_def)
  qed
  obtain e1 where e1: "engine_service hw mp 0 e = Inr (0, e1)" "?P e1" "status_error e1"
    using assms(1-4) assms(5)[rule_format]
    by (auto simp: engine_service_def service_stop_def service_count_def engine_status_read_def read_register_def engine_service_shutdown_def
        wake_up_def woken_def status_error_def Let_def)
  then show ?thesis using stays[OF e1(2), of wbs] by (cases wbs) (auto simp: engine_run_def)
qed

lemma engine_error_before_first_stays_witness:
  "\<exists>e'. engine_run (\<lambda>ops. if last ops = Read_register status_rc then 0x200 else 0)
      \<lparr>poll_mode = False, enable_st_c2h_credit = False, desc_blen_max = 4096\<rparr> [Service 0, Service 0]
      (demo_engine\<lparr>en_running := True, en_transfer_list := [7]\<rparr>) = Inr e' \<and> \<not> en_running e' \<and> en_transfer_list e' = [7]"
  using engine_error_before_first_stays[of "demo_engine\<lparr>en_running := True, en_transfer_list := [7]\<rparr>"
      "\<lambda>ops. if last ops = Read_register status_rc then 0x200 else 0" "0x200"
      "\<lparr>poll_mode = False, enable_st_c2h_credit = False, desc_blen_max = 4096\<rparr>" "[0]"]
  by (auto simp: demo_engine_def status_error_def)

end
