(* ===== verification/Sgdma_System.thy ===== *)
theory Sgdma_System
  imports Sgdma_Queue
begin

text \<open>
  The request as a whole: what a caller of \<open>xdma_xfer_submit\<close> can rely on when the device does its part.
\<close>

subsection \<open>The bytes of the copies\<close>

definition copy_bytes :: "dma_copy \<Rightarrow> (u64 \<times> u64) list" where
  "copy_bytes = (\<lambda>(src, dst, len). map (\<lambda>k. (src + of_nat k, dst + of_nat k)) [0..<unat len])"

text \<open>The endpoint's bytes are consecutive; which side is the source is the direction.\<close>

definition copied :: "dma_data_direction \<Rightarrow> u64 \<Rightarrow> u64 list \<Rightarrow> (u64 \<times> u64) list" where
  "copied dir ep bytes =
     (if dir = DMA_TO_DEVICE then zip bytes (map (\<lambda>i. ep + of_nat i) [0..<length bytes])
      else zip (map (\<lambda>i. ep + of_nat i) [0..<length bytes]) bytes)"

lemma copied_append:
  "copied dir ep (xs @ ys) = copied dir ep xs @ copied dir (ep + of_nat (length xs)) ys"
proof -
  have "map (\<lambda>i. ep + of_nat i) [0..<length xs + length ys] =
      map (\<lambda>i. ep + of_nat i) [0..<length xs] @ map (\<lambda>i. ep + of_nat (length xs) + of_nat i) [0..<length ys]"
    by (intro nth_equalityI) (auto simp: nth_append of_nat_diff)
  then show ?thesis by (auto simp: copied_def)
qed

lemma copies_bytes:
  "concat (map copy_bytes (request_copies False dir None ep sds)) = copied dir ep (concat (map piece_span sds))"
proof (induction sds arbitrary: ep)
  case Nil
  show ?case by (simp add: copied_def)
next
  case (Cons d sds)
  have l: "of_nat (length (piece_span d)) = (ucast (sd_len d) :: u64)" by (simp add: piece_span_def sg_span_def)
  have "copy_bytes (if dir = DMA_TO_DEVICE then (sd_addr d, ep, sd_len d) else (ep, sd_addr d, sd_len d)) = copied dir ep (piece_span d)"
    by (auto simp: copy_bytes_def copied_def piece_span_def sg_span_def zip_map_map zip_same_conv_map intro!: nth_equalityI)
  then show ?case
    using Cons.IH[of "ep + ucast (sd_len d)"] by (auto simp: copied_append l)
qed

lemma all_bytes:
  assumes "bmax \<noteq> 0"
  shows "bytes_of (sg_all bmax sgl) = sum_list (map (\<lambda>(a, l). unat l) sgl)"
proof -
  have p: "bytes_of sds = length (concat (map piece_span sds))" for sds
    by (induction sds) (auto simp: bytes_of_def piece_span_def sg_span_def)
  show ?thesis unfolding p all_spans[OF assms] by (induction sgl) (auto simp: sg_span_def)
qed


subsection \<open>The request\<close>

text \<open>An engine that can take a memory-mapped request of a direction.\<close>

definition engine_ready :: "bool \<Rightarrow> xdma_engine \<Rightarrow> bool" where
  "engine_ready write e \<longleftrightarrow> en_magic e = MAGIC_ENGINE \<and> idle e \<and> ring_ok e \<and> \<not> en_streaming e \<and> \<not> en_non_incr_addr e \<and>
     en_dir e = (if write then DMA_TO_DEVICE else DMA_FROM_DEVICE)"

text \<open>A scatter list whose pieces can be counted and allocated, and whose length fits 32 bits.\<close>

definition list_ready :: "u32 \<Rightarrow> u32 \<Rightarrow> scatterlist \<Rightarrow> bool" where
  "list_ready bmax cb sg \<longleftrightarrow> bmax \<noteq> 0 \<and> sg_ok bmax sg \<and> unat cb + 16 * request_room bmax sg < 4294967296 \<and>
     0 < sum_list (map (\<lambda>(a, l). unat l) sg) \<and> sum_list (map (\<lambda>(a, l). unat l) sg) < 4294967296"

lemma ready_request:
  assumes "list_ready bmax cb mapped"
  shows "mapped \<noteq> []" "of_nat (length mapped) \<noteq> (0 :: u32)" "sg_all bmax mapped \<noteq> []" "length (sg_all bmax mapped) < 4294967296"
    "\<exists>req. xdma_init_request bmax cb True mapped (of_nat (length mapped)) ep = Inr (Some req) \<and> cb_ok req \<and> req_rest req = sg_all bmax mapped \<and>
      rq_ep_addr req = ep \<and> rq_sw_desc_cnt req = of_nat (length (sg_all bmax mapped))"
proof -
  let ?n = "sum_list (map (\<lambda>(a, l). unat l) mapped)"
  have b: "bmax \<noteq> 0" and total: "0 < ?n" and size: "unat cb + 16 * request_room bmax mapped < 4294967296" and ok: "sg_ok bmax mapped"
    using assms by (simp_all add: list_ready_def)
  show ne: "mapped \<noteq> []" using total by auto
  have "length mapped \<le> request_room bmax mapped" by (induction mapped) (auto simp: request_room_def sg_room_def)
  then have u: "unat (of_nat (length mapped) :: u32) = length mapped" using size by (simp add: unat_of_nat)
  show "of_nat (length mapped) \<noteq> (0 :: u32)" using u ne by (metis length_0_conv unat_0)
  show "sg_all bmax mapped \<noteq> []"
  proof
    assume "sg_all bmax mapped = []"
    then have "bytes_of (sg_all bmax mapped) = 0" by (simp add: bytes_of_def)
    then show False using total unfolding all_bytes[OF b, of mapped] by linarith
  qed
  show l: "length (sg_all bmax mapped) < 4294967296" using all_room[OF b, of mapped] size by simp
  obtain sdesc where r: "xdma_init_request bmax cb True mapped (of_nat (length mapped)) ep =
     Inr (Some \<lparr>rq_ep_addr = ep, rq_total_len = sum_list (map snd mapped), rq_sw_desc_idx = 0,
       rq_sw_desc_cnt = of_nat (length (sg_all bmax mapped)), rq_sdesc = sg_all bmax mapped @ sdesc\<rparr>)"
    using init_request_ok[OF b ok u[symmetric] size] by blast
  have "unat (of_nat (length (sg_all bmax mapped)) :: u32) = length (sg_all bmax mapped)" using l by (simp add: unat_of_nat)
  then show "\<exists>req. xdma_init_request bmax cb True mapped (of_nat (length mapped)) ep = Inr (Some req) \<and> cb_ok req \<and>
      req_rest req = sg_all bmax mapped \<and> rq_ep_addr req = ep \<and> rq_sw_desc_cnt req = of_nat (length (sg_all bmax mapped))"
    using r by (simp add: cb_ok_def req_rest_def)
qed

lemma submit_on_copies:
  assumes e: "engine_ready to_dev e" and l: "list_ready (desc_blen_max mp) cb mapped" and fuel: "request_room (desc_blen_max mp) mapped < fuel"
  shows "\<exists>cl e'. xfer_submit_on hw mp (copying_device mp) cb True mapped fuel x to_dev ep False ([], e, sgt) =
      Some (Inr (int (sum_list (map (\<lambda>(a, l). unat l) mapped)), cl, e', sgt\<lparr>st_sgl := mapped, st_nents := 0\<rparr>, [of_nat (length mapped)])) \<and>
    idle e' \<and> concat (map copy_bytes cl) = copied (en_dir e) ep (concat (map (\<lambda>(a, l). sg_span a l) mapped))"
proof -
  let ?b = "desc_blen_max mp" and ?n = "sum_list (map (\<lambda>(a, l). unat l) mapped)"
  have b: "?b \<noteq> 0" and total: "0 < ?n" "?n < 4294967296" using l by (simp_all add: list_ready_def)
  note rr = ready_request[OF l]
  note ne = rr(1) and m = rr(2) and rest = rr(3)
  obtain req where r: "xdma_init_request ?b cb True mapped (of_nat (length mapped)) ep = Inr (Some req)"
    and req: "cb_ok req" "req_rest req = sg_all ?b mapped" "rq_ep_addr req = ep" "rq_sw_desc_cnt req = of_nat (length (sg_all ?b mapped))"
    using rr(5) by blast
  have e': "idle e" "ring_ok e" "\<not> en_streaming e" "\<not> en_non_incr_addr e" using e by (simp_all add: engine_ready_def)
  let ?sgt = "sgt\<lparr>st_sgl := mapped, st_nents := of_nat (length mapped)\<rparr>"
  obtain e'' where lp: "submit_loop hw mp (copying_device mp) x False fuel (of_nat (length (sg_all ?b mapped))) 0 ([], e, ?sgt, [], req) =
      (let (sgt, um) = unmap False (?sgt, []) in
       Some (Inr (0, int ?n, request_copies False (en_dir e) None ep (sg_all ?b mapped), e'', sgt, um)))" "idle e''"
  proof -
    have "\<exists>e''. submit_loop hw mp (copying_device mp) x False fuel (of_nat (length (sg_all ?b mapped))) 0 ([], e, ?sgt, [], req) =
      (let (sgt, um) = (if req_rest req = [] then (?sgt, []) else unmap False (?sgt, [])) in
       Some (Inr (0, 0 + int (bytes_of (req_rest req)),
        [] @ request_copies (en_non_incr_addr e) (en_dir e) None (rq_ep_addr req) (req_rest req), e'', sgt, um))) \<and> idle e''"
      using req(1,2) e' fuel all_bytes[OF b, of mapped] total(2) all_room[OF b, of mapped] by (intro copying.loop_copies) auto
    then show ?thesis using that e'(4) rest by (auto simp: req(2,3) all_bytes[OF b] case_prod_beta Let_def)
  qed
  have "xfer_submit_on hw mp (copying_device mp) cb True mapped fuel x to_dev ep False ([], e, sgt) =
      Some (Inr (int ?n, request_copies False (en_dir e) None ep (sg_all ?b mapped), e'', sgt\<lparr>st_sgl := mapped, st_nents := 0\<rparr>, [of_nat (length mapped)]))"
    using e ne m r req(4) lp total(1)
    by (simp add: xfer_submit_on_def engine_ready_def idle_def Let_def unmap_def submit_end_def)
  then show ?thesis using lp(2) copies_bytes[of "en_dir e" ep "sg_all ?b mapped"] all_spans[OF b, of mapped] by auto
qed

lemma submit_copies:
  assumes "sg_known d" and "0 \<le> sint channel"
    and "sint channel < sint (if to_dev then sg_h2c_channel_max d else sg_c2h_channel_max d)"
    and "unat channel < length (if to_dev then sg_engine_h2c d else sg_engine_c2h d)"
    and "engine_ready to_dev ((if to_dev then sg_engine_h2c d else sg_engine_c2h d) ! unat channel)"
    and "list_ready (desc_blen_max mp) cb mapped" and "request_room (desc_blen_max mp) mapped < fuel"
  shows "\<exists>cl d'. xdma_xfer_submit hw mp (copying_device mp) cb True mapped fuel x channel to_dev ep False ([], Some d, sgt) =
      Some (Inr (int (sum_list (map (\<lambda>(a, l). unat l) mapped)), cl, Some d', sgt\<lparr>st_sgl := mapped, st_nents := 0\<rparr>, [of_nat (length mapped)])) \<and>
    concat (map copy_bytes cl) = copied (if to_dev then DMA_TO_DEVICE else DMA_FROM_DEVICE) ep (concat (map (\<lambda>(a, l). sg_span a l) mapped)) \<and>
    idle ((if to_dev then sg_engine_h2c d' else sg_engine_c2h d') ! unat channel)"
proof -
  let ?es = "if to_dev then sg_engine_h2c d else sg_engine_c2h d"
  obtain cl e' where r: "xfer_submit_on hw mp (copying_device mp) cb True mapped fuel x to_dev ep False ([], ?es ! unat channel, sgt) =
      Some (Inr (int (sum_list (map (\<lambda>(a, l). unat l) mapped)), cl, e', sgt\<lparr>st_sgl := mapped, st_nents := 0\<rparr>, [of_nat (length mapped)]))"
    "idle e'" "concat (map copy_bytes cl) = copied (en_dir (?es ! unat channel)) ep (concat (map (\<lambda>(a, l). sg_span a l) mapped))"
    using submit_on_copies[OF assms(5-7)] by blast
  have s: "submit_engine d channel to_dev = Inr (Inr (unat channel))"
    using assms(1-4) by (simp add: submit_engine_def split del: if_split)
  have dir: "en_dir (?es ! unat channel) = (if to_dev then DMA_TO_DEVICE else DMA_FROM_DEVICE)"
    using assms(5) by (simp add: engine_ready_def)
  show ?thesis
    using r s assms(4) unfolding dir by (cases to_dev) (auto simp: xdma_xfer_submit_def)
qed

text \<open>
  C9: a request copies its scatter list.  On a device that performs the chains it is started on, a
  request of a scatter list that can be counted and allocated returns the number of its bytes; the
  copies made in between, transfer by transfer and descriptor by descriptor, are exactly those of
  every byte of the list, in order, to or from consecutive endpoint addresses; the list is unmapped
  once; and the engine is idle again.  The service routine is the one that completes the transfers.
\<close>

theorem xdma_xfer_submit_copies:
  assumes "sg_known d" and "0 \<le> sint channel"
    and "sint channel < sint (if to_dev then sg_h2c_channel_max d else sg_c2h_channel_max d)"
    and "unat channel < length (if to_dev then sg_engine_h2c d else sg_engine_c2h d)"
    and "engine_ready to_dev ((if to_dev then sg_engine_h2c d else sg_engine_c2h d) ! unat channel)"
    and "list_ready (desc_blen_max mp) cb mapped" and "request_room (desc_blen_max mp) mapped < fuel"
  shows "\<exists>cl d'. xdma_xfer_submit hw mp (copying_device mp) cb True mapped fuel x channel to_dev ep False ([], Some d, sgt) =
      Some (Inr (int (sum_list (map (\<lambda>(a, l). unat l) mapped)), cl, Some d', sgt\<lparr>st_sgl := mapped, st_nents := 0\<rparr>, [of_nat (length mapped)])) \<and>
    concat (map copy_bytes cl) = copied (if to_dev then DMA_TO_DEVICE else DMA_FROM_DEVICE) ep (concat (map (\<lambda>(a, l). sg_span a l) mapped)) \<and>
    idle ((if to_dev then sg_engine_h2c d' else sg_engine_c2h d') ! unat channel)"
  using submit_copies[OF assms] .

lemma xdma_xfer_submit_copies_witness:
  "\<exists>cl d'. xdma_xfer_submit (\<lambda>_. 0) \<lparr>poll_mode = False, enable_st_c2h_credit = False, desc_blen_max = 4096\<rparr>
      (copying_device \<lparr>poll_mode = False, enable_st_c2h_credit = False, desc_blen_max = 4096\<rparr>) 24 True [(0x1000, 5000)] 4 7 0 True 0x80 False
      ([], Some \<lparr>sg_known = True, sg_h2c_channel_max = 1, sg_c2h_channel_max = 1, sg_engine_h2c = [demo_engine], sg_engine_c2h = [],
        sg_engines_num = 1, sg_mask_irq_h2c = 1, sg_mask_irq_c2h = 0\<rparr>,
       \<lparr>st_sgl = [(0x1000, 5000)], st_nents = 0, st_orig_nents = 1\<rparr>) =
    Some (Inr (5000, cl, Some d', \<lparr>st_sgl = [(0x1000, 5000)], st_nents = 0, st_orig_nents = 1\<rparr>, [1]))"
  using xdma_xfer_submit_copies[where d = "\<lparr>sg_known = True, sg_h2c_channel_max = 1, sg_c2h_channel_max = 1, sg_engine_h2c = [demo_engine], sg_engine_c2h = [],
        sg_engines_num = 1, sg_mask_irq_h2c = 1, sg_mask_irq_c2h = 0\<rparr>"
      and channel = 0 and to_dev = True and mp = "\<lparr>poll_mode = False, enable_st_c2h_credit = False, desc_blen_max = 4096\<rparr>" and cb = 24 and mapped = "[(0x1000, 5000)]"
      and fuel = 4 and hw = "\<lambda>_. 0" and x = 7 and ep = "0x80" and sgt = "\<lparr>st_sgl = [(0x1000, 5000)], st_nents = 0, st_orig_nents = 1\<rparr>"]
  by (auto simp: engine_ready_def idle_def ring_ok_def writeback_def demo_engine_def list_ready_def sg_ok_def request_room_def sg_room_def)

end
