(* ===== verification/Sgdma_Probe.thy ===== *)
theory Sgdma_Probe
  imports Sgdma_Setup Sgdma_System
begin

text \<open>
  From the probing of a device to its requests: the engines found are set up the way a request needs
  them, every one with an interrupt bit of its own, and the channels in use are exactly those from the
  first to the last one the hardware has without a gap.
\<close>

subsection \<open>One engine\<close>

definition fresh :: "xdma_engine \<Rightarrow> bool" where
  "fresh e \<longleftrightarrow> e = zero_engine\<lparr>en_offline := True, en_ops := en_ops e\<rparr>"

text \<open>The identifier of a channel: what it is, its number, and whether it streams.\<close>

definition matches :: "dma_data_direction \<Rightarrow> u32 \<Rightarrow> nat \<Rightarrow> bool" where
  "matches dir v k \<longleftrightarrow> drop_bit 16 (and v 0xffff0000) = (if dir = DMA_TO_DEVICE then XDMA_ID_H2C else XDMA_ID_C2H) \<and>
     drop_bit 8 (and v 0xf00) = of_nat k"

definition set_up :: "dma_data_direction \<Rightarrow> u32 \<Rightarrow> nat \<Rightarrow> nat \<Rightarrow> xdma_engine \<Rightarrow> bool" where
  "set_up dir v k bt e \<longleftrightarrow> en_magic e = MAGIC_ENGINE \<and> en_dir e = dir \<and> ring_ok e \<and> \<not> en_running e \<and> en_transfer_list e = [] \<and>
     en_shutdown e = 0 \<and> \<not> en_non_incr_addr e \<and> en_channel e = k \<and> en_irq_bitmask e = push_bit bt 1 \<and> (en_streaming e \<longleftrightarrow> and v 0x8000 \<noteq> 0)"

definition mem_ok :: "engine_memory \<Rightarrow> bool" where
  "mem_ok mem \<longleftrightarrow> mem_desc mem \<noteq> None \<and> mem_wb mem \<noteq> None \<and> mem_result mem \<noteq> None"

lemma fresh_ops: "fresh e \<Longrightarrow> fresh (snd (read_register hw r e))"
  by (simp add: fresh_def read_register_def Let_def) (cases e; simp add: zero_engine_def)

lemma put_engines [simp]:
  "k < length (engines dir d) \<Longrightarrow> engines dir (put_engine dir k e d) = (engines dir d)[k := e]"
  "engines dir (put_engine dir' k e d) = (if dir = dir' then (engines dir d)[k := e] else engines dir d)"
  "sg_engines_num (put_engine dir k e d) = sg_engines_num d" "sg_h2c_channel_max (put_engine dir k e d) = sg_h2c_channel_max d"
  "sg_c2h_channel_max (put_engine dir k e d) = sg_c2h_channel_max d" "sg_known (put_engine dir k e d) = sg_known d"
  by (cases dir; cases dir'; simp add: engines_def put_engine_def)+

lemma init_regs_ok:
  assumes "poll_mode mp \<longrightarrow> en_poll_wb e \<noteq> None"
  shows "\<exists>e'. engine_init_regs hw mp e = Inr e' \<and> en_magic e' = en_magic e \<and> en_dir e' = en_dir e \<and> (ring_ok e' \<longleftrightarrow> ring_ok e) \<and> en_running e' = en_running e \<and>
    en_transfer_list e' = en_transfer_list e \<and> en_shutdown e' = en_shutdown e \<and> en_non_incr_addr e' = en_non_incr_addr e \<and> en_channel e' = en_channel e \<and>
    en_irq_bitmask e' = en_irq_bitmask e \<and> en_streaming e' = en_streaming e"
  using assms
  by (auto simp: engine_init_regs_def engine_writeback_setup_def engine_alignments_def read_register_def write_register_def ring_ok_def writeback_def Let_def)

lemma alloc_ok:
  assumes "mem_ok mem" "en_desc_idx e = 0" "en_desc_max e = XDMA_ENGINE_CREDIT_XFER_MAX_DESC \<or> en_desc_max e = XDMA_ENGINE_XFER_MAX_DESC"
  shows "\<exists>e'. engine_alloc_resource mp mem e = (0, e') \<and> ring_ok e' \<and> (poll_mode mp \<longrightarrow> en_poll_wb e' \<noteq> None) \<and>
    en_magic e' = en_magic e \<and> en_dir e' = en_dir e \<and> en_running e' = en_running e \<and>
    en_transfer_list e' = en_transfer_list e \<and> en_shutdown e' = en_shutdown e \<and> en_non_incr_addr e' = en_non_incr_addr e \<and> en_channel e' = en_channel e \<and>
    en_irq_bitmask e' = en_irq_bitmask e \<and> en_streaming e' = en_streaming e"
proof -
  obtain a b c where m: "mem_desc mem = Some a" "mem_wb mem = Some b" "mem_result mem = Some c"
    using assms(1) by (auto simp: mem_ok_def)
  show ?thesis
    using assms(2,3) by (auto simp: engine_alloc_resource_def m ring_ok_def writeback_def Let_def)
qed

lemma identity_ok:
  fixes mp dir k n
  assumes "fresh e" "hw (en_ops e @ [Read_register engine_identifier]) = v"
  defines "e' \<equiv> engine_identity hw mp dir k n e"
  shows "en_desc_idx e' = 0" "en_desc_max e' = XDMA_ENGINE_CREDIT_XFER_MAX_DESC \<or> en_desc_max e' = XDMA_ENGINE_XFER_MAX_DESC"
    "en_magic e' = MAGIC_ENGINE" "en_dir e' = dir" "\<not> en_running e'" "en_transfer_list e' = []" "en_shutdown e' = 0" "\<not> en_non_incr_addr e'"
    "en_channel e' = k" "en_irq_bitmask e' = push_bit (unat n) 1" "en_streaming e' \<longleftrightarrow> and v 0x8000 \<noteq> 0"
proof -
  define ops where "ops = en_ops e"
  have e: "e = zero_engine\<lparr>en_offline := True, en_ops := ops\<rparr>" using assms(1) unfolding fresh_def ops_def .
  have v: "hw (ops @ [Read_register engine_identifier]) = v" using assms(2) by (simp add: ops_def)
  show "en_desc_idx e' = 0" "en_desc_max e' = XDMA_ENGINE_CREDIT_XFER_MAX_DESC \<or> en_desc_max e' = XDMA_ENGINE_XFER_MAX_DESC"
    "en_magic e' = MAGIC_ENGINE" "en_dir e' = dir" "\<not> en_running e'" "en_transfer_list e' = []" "en_shutdown e' = 0" "\<not> en_non_incr_addr e'"
    "en_channel e' = k" "en_irq_bitmask e' = push_bit (unat n) 1" "en_streaming e' \<longleftrightarrow> and v 0x8000 \<noteq> 0"
    unfolding e'_def e by (simp_all add: engine_identity_def read_register_def v zero_engine_def Let_def)
qed

lemma not_to_device: "dir \<noteq> DMA_TO_DEVICE \<longleftrightarrow> dir = DMA_FROM_DEVICE"
  by (cases dir) simp_all

lemma init_ok:
  assumes "fresh e" "k < length (engines dir d)" "engines dir d ! k = e" "hw (en_ops e @ [Read_register engine_identifier]) = v" "mem_ok mem"
  shows "\<exists>d' e'. engine_init hw mp mem dir k d = Inr (0, d') \<and> set_up dir v k (unat (sg_engines_num d)) e' \<and>
    (\<forall>dir'. engines dir' d' = (if dir' = dir then (engines dir d)[k := e'] else engines dir' d)) \<and>
    sg_engines_num d' = sg_engines_num d + 1 \<and> sg_h2c_channel_max d' = sg_h2c_channel_max d \<and> sg_c2h_channel_max d' = sg_c2h_channel_max d \<and>
    sg_known d' = sg_known d"
proof -
  let ?e1 = "engine_identity hw mp dir k (sg_engines_num d) e"
  note i = identity_ok[where hw = hw and e = e and v = v and mp = mp and dir = dir and k = k and n = "sg_engines_num d", OF assms(1,4)]
  obtain e2 where e2: "engine_alloc_resource mp mem ?e1 = (0, e2)" "ring_ok e2" "poll_mode mp \<longrightarrow> en_poll_wb e2 \<noteq> None"
    "en_magic e2 = en_magic ?e1" "en_dir e2 = en_dir ?e1" "en_running e2 = en_running ?e1"
    "en_transfer_list e2 = en_transfer_list ?e1" "en_shutdown e2 = en_shutdown ?e1" "en_non_incr_addr e2 = en_non_incr_addr ?e1" "en_channel e2 = en_channel ?e1"
    "en_irq_bitmask e2 = en_irq_bitmask ?e1" "en_streaming e2 = en_streaming ?e1"
    using alloc_ok[OF assms(5) i(1,2)] by blast
  obtain e3 where e3: "engine_init_regs hw mp e2 = Inr e3" "en_magic e3 = en_magic e2" "en_dir e3 = en_dir e2" "ring_ok e3 \<longleftrightarrow> ring_ok e2"
    "en_running e3 = en_running e2" "en_transfer_list e3 = en_transfer_list e2" "en_shutdown e3 = en_shutdown e2"
    "en_non_incr_addr e3 = en_non_incr_addr e2" "en_channel e3 = en_channel e2" "en_irq_bitmask e3 = en_irq_bitmask e2" "en_streaming e3 = en_streaming e2"
    using init_regs_ok[OF e2(3), of hw] by blast
  have "set_up dir v k (unat (sg_engines_num d)) e3"
    using i e2(2,4-12) e3(2-11) by (simp add: set_up_def)
  then show ?thesis
    using assms(2,3) e2(1) e3(1)
    by (auto simp: engine_init_def Let_def engines_def put_engine_def not_to_device intro!: exI[of _ e3])
qed

subsection \<open>The channels of a direction\<close>

text \<open>The channels from a first one that are there without a gap.\<close>

definition present :: "dma_data_direction \<Rightarrow> (nat \<Rightarrow> u32) \<Rightarrow> nat \<Rightarrow> nat \<Rightarrow> nat" where
  "present dir v i n = i + length (takeWhile (\<lambda>k. matches dir (v k) k) [i..<i + n])"

lemma present_0 [simp]: "present dir v i 0 = i"
  by (simp add: present_def)

lemma present_Suc: "present dir v i (Suc n) = (if matches dir (v i) i then present dir v (Suc i) n else i)"
proof -
  have "[i..<i + Suc n] = i # [Suc i..<Suc i + n]" by (simp add: upt_conv_Cons del: upt_Suc)
  then show ?thesis by (simp add: present_def)
qed

definition probed :: "dma_data_direction \<Rightarrow> (nat \<Rightarrow> u32) \<Rightarrow> nat \<Rightarrow> nat \<Rightarrow> xdma_sgdev \<Rightarrow> bool" where
  "probed dir v base i d \<longleftrightarrow> length (engines dir d) = XDMA_CHANNEL_NUM_MAX \<and> sg_engines_num d = of_nat (base + i) \<and>
     (\<forall>k<i. set_up dir (v k) k (base + k) (engines dir d ! k)) \<and> (\<forall>k. i \<le> k \<and> k < XDMA_CHANNEL_NUM_MAX \<longrightarrow> fresh (engines dir d ! k))"

definition same_outside :: "dma_data_direction \<Rightarrow> xdma_sgdev \<Rightarrow> xdma_sgdev \<Rightarrow> bool" where
  "same_outside dir d d' \<longleftrightarrow> (\<forall>dir'. dir' \<noteq> dir \<longrightarrow> engines dir' d' = engines dir' d) \<and> sg_h2c_channel_max d' = sg_h2c_channel_max d \<and>
     sg_c2h_channel_max d' = sg_c2h_channel_max d \<and> sg_known d' = sg_known d"

lemma probe_one:
  assumes hw: "\<And>ops. hw dir i (ops @ [Read_register engine_identifier]) = v i" and mem: "mem_ok (mem dir i)"
    and d: "probed dir v base i d" and i: "i < XDMA_CHANNEL_NUM_MAX" "base + i < 8"
  shows "\<exists>d'. probe_for_engine hw mp mem dir i d = Inr (if matches dir (v i) i then 0 else - EINVAL, d') \<and> same_outside dir d d' \<and>
    probed dir v base (if matches dir (v i) i then Suc i else i) d'"
proof -
  let ?e = "engines dir d ! i"
  define e1 where "e1 = snd (read_register (hw dir i) engine_identifier (snd (read_register (hw dir i) engine_identifier ?e)))"
  let ?d = "put_engine dir i e1 d"
  have len: "i < length (engines dir d)" "length (engines dir d) = 4" using d i by (simp_all add: probed_def)
  have f: "fresh e1" using d i fresh_ops by (simp add: probed_def e1_def)
  have r: "read_register (hw dir i) engine_identifier e = (v i, snd (read_register (hw dir i) engine_identifier e))" for e
    using hw by (simp add: read_register_def Let_def)
  have eq: "probe_for_engine hw mp mem dir i d =
      (if matches dir (v i) i then engine_init (hw dir i) mp (mem dir i) dir i ?d else Inr (- EINVAL, ?d))"
    using len r[of ?e] r[of "snd (read_register (hw dir i) engine_identifier ?e)"]
    by (auto simp: probe_for_engine_def get_engine_id_def get_engine_channel_id_def matches_def e1_def split: prod.splits)
  show ?thesis
  proof (cases "matches dir (v i) i")
    case False
    then show ?thesis
      using d f len by (auto simp: eq same_outside_def probed_def nth_list_update)
  next
    case True
    have n: "unat (sg_engines_num ?d) = base + i" using d i by (simp add: probed_def unat_of_nat del: of_nat_add)
    obtain d' e' where d': "engine_init (hw dir i) mp (mem dir i) dir i ?d = Inr (0, d')" "set_up dir (v i) i (base + i) e'"
      "\<forall>dir'. engines dir' d' = (if dir' = dir then (engines dir ?d)[i := e'] else engines dir' ?d)"
      "sg_engines_num d' = sg_engines_num ?d + 1" "sg_h2c_channel_max d' = sg_h2c_channel_max ?d" "sg_c2h_channel_max d' = sg_c2h_channel_max ?d"
      "sg_known d' = sg_known ?d"
      using init_ok[OF f, of i dir ?d "hw dir i" "v i" "mem dir i" mp] len hw mem unfolding n by auto
    have "sg_engines_num d' = of_nat (base + Suc i)" using d d'(4) by (simp add: probed_def)
    then have "probed dir v base (Suc i) d'"
      using d d'(2,3) len by (auto simp: probed_def nth_list_update less_Suc_eq)
    moreover have "same_outside dir d d'" using d'(3,5-7) by (auto simp: same_outside_def)
    ultimately show ?thesis using True d'(1) by (simp add: eq)
  qed
qed

lemma probe_loop:
  assumes hw: "\<And>k ops. hw dir k (ops @ [Read_register engine_identifier]) = v k" and mem: "\<And>k. mem_ok (mem dir k)"
    and "probed dir v base i d" "i + n \<le> XDMA_CHANNEL_NUM_MAX" "base \<le> 4"
  shows "\<exists>d'. probe_channels hw mp mem dir n i d = Inr (present dir v i n, d') \<and> same_outside dir d d' \<and> probed dir v base (present dir v i n) d'"
  using assms(3-5)
proof (induction n arbitrary: i d)
  case 0
  then show ?case by (simp add: same_outside_def)
next
  case (Suc n)
  obtain d1 where d1: "probe_for_engine hw mp mem dir i d = Inr (if matches dir (v i) i then 0 else - EINVAL, d1)" "same_outside dir d d1"
    "probed dir v base (if matches dir (v i) i then Suc i else i) d1"
    using probe_one[where hw = hw and dir = dir and i = i and v = v and mem = mem and mp = mp, OF hw mem Suc.prems(1)] Suc.prems(2,3) by auto
  show ?case
  proof (cases "matches dir (v i) i")
    case True
    then show ?thesis
      using Suc.IH[of "Suc i" d1] d1 Suc.prems by (auto simp: present_Suc same_outside_def)
  next
    case False
    then show ?thesis using d1 by (auto simp: present_Suc)
  qed
qed

subsection \<open>A device\<close>

text \<open>The number of channels a caller may ask for.\<close>

definition channels_asked :: "s32 \<Rightarrow> nat" where
  "channels_asked n = nat (sint (channel_limit n))"

lemma channels_asked_le: "channels_asked n \<le> XDMA_CHANNEL_NUM_MAX"
  by (auto simp: channels_asked_def channel_limit_def)

lemma present_bounds:
  "i \<le> present dir v i n" "present dir v i n \<le> i + n" "\<And>k. i \<le> k \<Longrightarrow> k < present dir v i n \<Longrightarrow> matches dir (v k) k"
  "present dir v i n < i + n \<Longrightarrow> \<not> matches dir (v (present dir v i n)) (present dir v i n)"
proof (induction n arbitrary: i)
  case (Suc n)
  {
    case 1
    show ?case using Suc.IH(1)[of "Suc i"] by (simp add: present_Suc)
  next
    case 2
    show ?case using Suc.IH(2)[of "Suc i"] by (simp add: present_Suc)
  next
    case (3 k)
    then show ?case using Suc.IH(3)[of "Suc i" k] by (cases "k = i") (auto simp: present_Suc split: if_splits)
  next
    case 4
    then show ?case using Suc.IH(4)[of "Suc i"] by (auto simp: present_Suc split: if_splits)
  }
qed simp_all

lemma set_up_offline [simp]: "set_up dir v k bt (e\<lparr>en_offline := b\<rparr>) = set_up dir v k bt e"
  by (simp add: set_up_def ring_ok_def writeback_def)

lemma set_offline_engines [simp]:
  "engines dir (set_offline b d) = map (\<lambda>e. e\<lparr>en_offline := b\<rparr>) (engines dir d)" "sg_known (set_offline b d) = sg_known d"
  "sg_h2c_channel_max (set_offline b d) = sg_h2c_channel_max d" "sg_c2h_channel_max (set_offline b d) = sg_c2h_channel_max d"
  by (simp_all add: set_offline_def engines_def)

lemma engines_state [simp]: "engines dir (d\<lparr>sg_h2c_channel_max := n\<rparr>) = engines dir d" "engines dir (d\<lparr>sg_c2h_channel_max := n\<rparr>) = engines dir d"
  by (simp_all add: engines_def)

lemma open_ok:
  fixes h2c c2h
  assumes hw: "\<And>dir k ops. hw dir k (ops @ [Read_register engine_identifier]) = v dir k" and mem: "\<And>dir k. mem_ok (mem dir k)"
  defines "h \<equiv> present DMA_TO_DEVICE (v DMA_TO_DEVICE) 0 (channels_asked h2c)"
    and "c \<equiv> present DMA_FROM_DEVICE (v DMA_FROM_DEVICE) 0 (channels_asked c2h)"
  shows "\<exists>d. open_engines hw mp mem h2c c2h = Inr d \<and> sg_known d \<and> sg_h2c_channel_max d = of_nat h \<and> sg_c2h_channel_max d = of_nat c \<and>
    length (engines DMA_TO_DEVICE d) = XDMA_CHANNEL_NUM_MAX \<and> length (engines DMA_FROM_DEVICE d) = XDMA_CHANNEL_NUM_MAX \<and>
    (\<forall>k<h. set_up DMA_TO_DEVICE (v DMA_TO_DEVICE k) k k (engines DMA_TO_DEVICE d ! k) \<and> \<not> en_offline (engines DMA_TO_DEVICE d ! k)) \<and>
    (\<forall>k<c. set_up DMA_FROM_DEVICE (v DMA_FROM_DEVICE k) k (h + k) (engines DMA_FROM_DEVICE d ! k) \<and> \<not> en_offline (engines DMA_FROM_DEVICE d ! k))"
proof -
  let ?d = "set_offline True alloc_dev_instance\<lparr>sg_h2c_channel_max := channel_limit h2c, sg_c2h_channel_max := channel_limit c2h\<rparr>"
  have f: "\<forall>k<4. fresh (engines dir ?d ! k)" "length (engines dir ?d) = 4" "sg_known ?d" "sg_engines_num ?d = 0" for dir
    by (auto simp: alloc_dev_instance_def fresh_def zero_engine_def engines_def set_offline_def)
  have h: "h \<le> 4" "c \<le> 4"
    using present_bounds(2)[where i = 0] channels_asked_le order_trans unfolding h_def c_def by (metis add_0)+
  have p: "probed DMA_TO_DEVICE (v DMA_TO_DEVICE) 0 0 ?d" using f by (simp add: probed_def)
  obtain d1 where d1: "probe_channels hw mp mem DMA_TO_DEVICE (channels_asked h2c) 0 ?d = Inr (h, d1)" "same_outside DMA_TO_DEVICE ?d d1"
    "probed DMA_TO_DEVICE (v DMA_TO_DEVICE) 0 h d1"
    using probe_loop[where hw = hw and dir = DMA_TO_DEVICE and v = "v DMA_TO_DEVICE" and mem = mem and mp = mp, OF hw mem p, of "channels_asked h2c"]
      channels_asked_le unfolding h_def by auto
  let ?d1 = "d1\<lparr>sg_h2c_channel_max := of_nat h\<rparr>"
  have p: "probed DMA_FROM_DEVICE (v DMA_FROM_DEVICE) h 0 ?d1"
    using f d1(2,3) by (simp add: probed_def same_outside_def)
  obtain d2 where d2: "probe_channels hw mp mem DMA_FROM_DEVICE (channels_asked c2h) 0 ?d1 = Inr (c, d2)" "same_outside DMA_FROM_DEVICE ?d1 d2"
    "probed DMA_FROM_DEVICE (v DMA_FROM_DEVICE) h c d2"
    using probe_loop[where hw = hw and dir = DMA_FROM_DEVICE and v = "v DMA_FROM_DEVICE" and mem = mem and mp = mp, OF hw mem p, of "channels_asked c2h"]
      channels_asked_le h unfolding c_def by auto
  have "nat (sint (sg_h2c_channel_max ?d)) = channels_asked h2c" "nat (sint (sg_c2h_channel_max ?d1)) = channels_asked c2h"
    using d1(2) by (simp_all add: channels_asked_def same_outside_def)
  then have o: "open_engines hw mp mem h2c c2h = Inr (set_offline False (d2\<lparr>sg_c2h_channel_max := of_nat c\<rparr>))"
    using d1(1) d2(1) by (simp add: open_engines_def probe_engines_def)
  have "length (engines DMA_TO_DEVICE d1) = 4" "length (engines DMA_FROM_DEVICE d2) = 4" "sg_known d2" using d1(2,3) d2(2,3) f by (simp_all add: probed_def same_outside_def)
  then show ?thesis
    using d1(3) d2(2,3) h by (auto simp: o probed_def same_outside_def)
qed

lemma set_up_ready:
  assumes "set_up (if to_dev then DMA_TO_DEVICE else DMA_FROM_DEVICE) v k bt e" "\<not> en_offline e" "and v 0x8000 = 0"
  shows "engine_ready to_dev e"
  using assms by (simp add: set_up_def engine_ready_def idle_def)

text \<open>
  C19: the engines of a device.  On a device whose channels identify themselves, and with the memory
  asked for, opening it succeeds and leaves in use, in each direction, the channels from the first one
  on, up to the first that is missing or the limit the caller gives.  Every one of them is set up:
  idle, with an empty ring of descriptors, and with an interrupt bit no other engine has; it takes
  requests of its direction if it is memory mapped.
\<close>

theorem open_engines_ready:
  assumes "\<forall>dir k ops. hw dir k (ops @ [Read_register engine_identifier]) = v dir k" and "\<forall>dir k. mem_ok (mem dir k)"
  shows "\<exists>d h c. open_engines hw mp mem h2c c2h = Inr d \<and> sg_h2c_channel_max d = of_nat h \<and> sg_c2h_channel_max d = of_nat c \<and>
    h \<le> channels_asked h2c \<and> c \<le> channels_asked c2h \<and>
    (\<forall>k<h. matches DMA_TO_DEVICE (v DMA_TO_DEVICE k) k) \<and> (h < channels_asked h2c \<longrightarrow> \<not> matches DMA_TO_DEVICE (v DMA_TO_DEVICE h) h) \<and>
    (\<forall>k<c. matches DMA_FROM_DEVICE (v DMA_FROM_DEVICE k) k) \<and> (c < channels_asked c2h \<longrightarrow> \<not> matches DMA_FROM_DEVICE (v DMA_FROM_DEVICE c) c) \<and>
    (\<forall>k<h. set_up DMA_TO_DEVICE (v DMA_TO_DEVICE k) k k (sg_engine_h2c d ! k) \<and>
      (and (v DMA_TO_DEVICE k) 0x8000 = 0 \<longrightarrow> engine_ready True (sg_engine_h2c d ! k))) \<and>
    (\<forall>k<c. set_up DMA_FROM_DEVICE (v DMA_FROM_DEVICE k) k (h + k) (sg_engine_c2h d ! k) \<and>
      (and (v DMA_FROM_DEVICE k) 0x8000 = 0 \<longrightarrow> engine_ready False (sg_engine_c2h d ! k)))"
proof -
  let ?h = "present DMA_TO_DEVICE (v DMA_TO_DEVICE) 0 (channels_asked h2c)"
    and ?c = "present DMA_FROM_DEVICE (v DMA_FROM_DEVICE) 0 (channels_asked c2h)"
  obtain d where d: "open_engines hw mp mem h2c c2h = Inr d" "sg_h2c_channel_max d = of_nat ?h" "sg_c2h_channel_max d = of_nat ?c"
    "\<forall>k<?h. set_up DMA_TO_DEVICE (v DMA_TO_DEVICE k) k k (engines DMA_TO_DEVICE d ! k) \<and> \<not> en_offline (engines DMA_TO_DEVICE d ! k)"
    "\<forall>k<?c. set_up DMA_FROM_DEVICE (v DMA_FROM_DEVICE k) k (?h + k) (engines DMA_FROM_DEVICE d ! k) \<and> \<not> en_offline (engines DMA_FROM_DEVICE d ! k)"
    using open_ok[where hw = hw and v = v and mem = mem and mp = mp, OF assms(1)[rule_format] assms(2)[rule_format]] by blast
  note b = present_bounds[where i = 0, simplified]
  have r: "\<forall>k<?h. and (v DMA_TO_DEVICE k) 0x8000 = 0 \<longrightarrow> engine_ready True (engines DMA_TO_DEVICE d ! k)"
    using d(4) set_up_ready[of True] by auto
  have r': "\<forall>k<?c. and (v DMA_FROM_DEVICE k) 0x8000 = 0 \<longrightarrow> engine_ready False (engines DMA_FROM_DEVICE d ! k)"
    using d(5) set_up_ready[of False] by auto
  show ?thesis
    using d r r' b by (intro exI[of _ d] exI[of _ ?h] exI[of _ ?c]) (simp add: engines_def)
qed

definition demo_ident :: "dma_data_direction \<Rightarrow> nat \<Rightarrow> u32" where
  "demo_ident dir k = (if dir = DMA_TO_DEVICE \<and> k = 0 then 0x1fc00000 else if dir = DMA_FROM_DEVICE \<and> k = 0 then 0x1fc18000 else 0)"

definition demo_engines_hw :: device_hw where
  "demo_engines_hw dir k ops = (if last ops = Read_register engine_identifier then demo_ident dir k else 0)"

definition demo_mem :: device_memory where
  "demo_mem dir k = \<lparr>mem_desc = Some 0x10000, mem_wb = Some 0x20000, mem_result = Some 0x30000\<rparr>"

lemma demo_present: "matches DMA_TO_DEVICE (demo_ident DMA_TO_DEVICE 0) 0" "\<not> matches DMA_TO_DEVICE (demo_ident DMA_TO_DEVICE 1) 1"
  by (simp_all add: matches_def demo_ident_def)

lemma open_engines_ready_witness:
  "\<exists>d h c. open_engines demo_engines_hw \<lparr>poll_mode = False, enable_st_c2h_credit = False, desc_blen_max = 4096\<rparr> demo_mem 0 0 = Inr d \<and>
    sg_h2c_channel_max d = of_nat h \<and> h \<le> channels_asked 0 \<and> (h < channels_asked 0 \<longrightarrow> \<not> matches DMA_TO_DEVICE (demo_ident DMA_TO_DEVICE h) h)"
  using open_engines_ready[where hw = demo_engines_hw and v = demo_ident and mem = demo_mem
      and mp = "\<lparr>poll_mode = False, enable_st_c2h_credit = False, desc_blen_max = 4096\<rparr>" and h2c = 0 and c2h = 0]
  by (auto simp: demo_engines_hw_def demo_mem_def mem_ok_def)

text \<open>
  C4: from the probing to the bytes.  On an opened device, a request on any memory-mapped channel that
  was found, of a list that can be counted and allocated, copies every byte of the list in order.
\<close>

theorem opened_channel_copies:
  assumes "\<forall>dir k ops. hw dir k (ops @ [Read_register engine_identifier]) = v dir k" and "\<forall>dir k. mem_ok (mem dir k)"
    and "\<forall>j\<le>k. matches (if to_dev then DMA_TO_DEVICE else DMA_FROM_DEVICE) (v (if to_dev then DMA_TO_DEVICE else DMA_FROM_DEVICE) j) j"
    and "k < channels_asked (if to_dev then h2c else c2h)" and "and (v (if to_dev then DMA_TO_DEVICE else DMA_FROM_DEVICE) k) 0x8000 = 0"
    and "list_ready (desc_blen_max mp) cb mapped" and "request_room (desc_blen_max mp) mapped < fuel"
  shows "\<exists>d cl d'. open_engines hw mp mem h2c c2h = Inr d \<and>
    xdma_xfer_submit hw' mp (copying_device mp) cb True mapped fuel x (of_nat k) to_dev ep False ([], Some d, sgt) =
      Some (Inr (int (sum_list (map (\<lambda>(a, l). unat l) mapped)), cl, Some d', sgt\<lparr>st_sgl := mapped, st_nents := 0\<rparr>, [of_nat (length mapped)])) \<and>
    concat (map copy_bytes cl) = copied (if to_dev then DMA_TO_DEVICE else DMA_FROM_DEVICE) ep (concat (map (\<lambda>(a, l). sg_span a l) mapped))"
proof -
  let ?h = "present DMA_TO_DEVICE (v DMA_TO_DEVICE) 0 (channels_asked h2c)"
    and ?c = "present DMA_FROM_DEVICE (v DMA_FROM_DEVICE) 0 (channels_asked c2h)"
  obtain d where d: "open_engines hw mp mem h2c c2h = Inr d" "sg_known d" "sg_h2c_channel_max d = of_nat ?h" "sg_c2h_channel_max d = of_nat ?c"
    "length (engines DMA_TO_DEVICE d) = 4" "length (engines DMA_FROM_DEVICE d) = 4"
    "\<forall>k<?h. set_up DMA_TO_DEVICE (v DMA_TO_DEVICE k) k k (engines DMA_TO_DEVICE d ! k) \<and> \<not> en_offline (engines DMA_TO_DEVICE d ! k)"
    "\<forall>k<?c. set_up DMA_FROM_DEVICE (v DMA_FROM_DEVICE k) k (?h + k) (engines DMA_FROM_DEVICE d ! k) \<and> \<not> en_offline (engines DMA_FROM_DEVICE d ! k)"
    using open_ok[where hw = hw and v = v and mem = mem and mp = mp, OF assms(1)[rule_format] assms(2)[rule_format]] by blast
  note b = present_bounds[where i = 0, simplified]
  let ?dir = "if to_dev then DMA_TO_DEVICE else DMA_FROM_DEVICE" and ?n = "if to_dev then ?h else ?c"
  have k: "k < ?n"
  proof (rule ccontr)
    assume "\<not> k < ?n"
    then have "\<not> matches ?dir (v ?dir ?n) ?n"
      using assms(4)
        present_bounds(4)[of DMA_TO_DEVICE "v DMA_TO_DEVICE" 0 "channels_asked h2c"] present_bounds(4)[of DMA_FROM_DEVICE "v DMA_FROM_DEVICE" 0 "channels_asked c2h"]
      by (cases to_dev) auto
    then show False using assms(3) \<open>\<not> k < ?n\<close> by simp
  qed
  have n: "?h \<le> 4" "?c \<le> 4" by (rule le_trans[OF b(2) channels_asked_le])+
  have s: "sint (of_nat m :: s32) = int m" "unat (of_nat m :: s32) = m" if "m \<le> 4" for m
    using that sint_unat[of "of_nat m"] by (simp_all add: unat_of_nat)
  have e: "(if to_dev then sg_engine_h2c d else sg_engine_c2h d) = engines ?dir d" by (simp add: engines_def)
  have "engine_ready to_dev (engines ?dir d ! k)"
    using d(7,8) k assms(5) set_up_ready[of to_dev "v ?dir k" k] by (cases to_dev) auto
  moreover have "unat (of_nat k :: s32) = k" "0 \<le> sint (of_nat k :: s32)" "sint (of_nat k :: s32) < sint (if to_dev then sg_h2c_channel_max d else sg_c2h_channel_max d)"
    "k < length (engines ?dir d)"
    using k n s[of k] s[of ?n] d(3-6) by (auto split: if_splits)
  moreover have "k < length (if to_dev then sg_engine_h2c d else sg_engine_c2h d)" "engine_ready to_dev ((if to_dev then sg_engine_h2c d else sg_engine_c2h d) ! k)"
    using calculation unfolding e by simp_all
  ultimately have "\<exists>cl d'. xdma_xfer_submit hw' mp (copying_device mp) cb True mapped fuel x (of_nat k) to_dev ep False ([], Some d, sgt) =
      Some (Inr (int (sum_list (map (\<lambda>(a, l). unat l) mapped)), cl, Some d', sgt\<lparr>st_sgl := mapped, st_nents := 0\<rparr>, [of_nat (length mapped)])) \<and>
      concat (map copy_bytes cl) = copied ?dir ep (concat (map (\<lambda>(a, l). sg_span a l) mapped)) \<and>
      idle ((if to_dev then sg_engine_h2c d' else sg_engine_c2h d') ! unat (of_nat k :: s32))"
    using d(2) assms(6,7) by (intro submit_copies) simp_all
  then show ?thesis using d(1) by blast
qed

lemma opened_channel_copies_witness:
  "\<exists>d cl d'. open_engines demo_engines_hw \<lparr>poll_mode = False, enable_st_c2h_credit = False, desc_blen_max = 4096\<rparr> demo_mem 0 0 = Inr d \<and>
    xdma_xfer_submit (\<lambda>_. 0) \<lparr>poll_mode = False, enable_st_c2h_credit = False, desc_blen_max = 4096\<rparr>
      (copying_device \<lparr>poll_mode = False, enable_st_c2h_credit = False, desc_blen_max = 4096\<rparr>) 24 True [(0x1000, 5000)] 4 7 0 True 0x80 False
      ([], Some d, \<lparr>st_sgl = [(0x1000, 5000)], st_nents = 0, st_orig_nents = 1\<rparr>) =
    Some (Inr (5000, cl, Some d', \<lparr>st_sgl = [(0x1000, 5000)], st_nents = 0, st_orig_nents = 1\<rparr>, [1]))"
proof -
  have h: "\<forall>dir k ops. demo_engines_hw dir k (ops @ [Read_register engine_identifier]) = demo_ident dir k" "\<forall>dir k. mem_ok (demo_mem dir k)"
    by (simp_all add: demo_engines_hw_def demo_mem_def mem_ok_def)
  have "0 < channels_asked 0" "list_ready 4096 24 [(0x1000, 5000)]" "request_room 4096 [(0x1000, 5000)] < 4"
    by (simp_all add: channels_asked_def channel_limit_def list_ready_def sg_ok_def request_room_def sg_room_def)
  then show ?thesis
    using opened_channel_copies[where to_dev = True and k = 0 and h2c = 0 and c2h = 0 and cb = 24 and mapped = "[(0x1000, 5000)]" and fuel = 4
        and mp = "\<lparr>poll_mode = False, enable_st_c2h_credit = False, desc_blen_max = 4096\<rparr>" and hw' = "\<lambda>_. 0" and x = 7 and ep = "0x80"
        and sgt = "\<lparr>st_sgl = [(0x1000, 5000)], st_nents = 0, st_orig_nents = 1\<rparr>", OF h] demo_present(1)
    by (simp add: demo_ident_def) blast
qed

end
