(* ===== verification/Sgdma_Async.thy ===== *)
theory Sgdma_Async
  imports Sgdma_Submit
begin

text \<open>
  Requests nobody waits for (\<open>xdma_xfer_submit_nowait\<close> and \<open>xdma_xfer_completion\<close> of \<open>libxdma.c\<close>): the
  transfers of a request are all queued at once, and looked at when the callback has reported the end.
  The transfers are an array of the request, given by the names of its elements.
\<close>

abbreviation (input) EIOCBQUEUED :: int where "EIOCBQUEUED \<equiv> 529"

subsection \<open>Submission\<close>

definition mark_async :: "bool \<Rightarrow> u32 \<Rightarrow> nat \<Rightarrow> xdma_engine \<Rightarrow> xdma_engine" where
  "mark_async dma_mapped n x e = mark_xfer dma_mapped n x (upd_xfer x (\<lambda>t. t\<lparr>xf_cb := True\<rparr>) e)"

text \<open>The loop takes the next element of the array for every transfer, and there are no more than the array has.\<close>

fun nowait_loop :: "engine_hw \<Rightarrow> module_params \<Rightarrow> bool \<Rightarrow> nat list \<Rightarrow> u32 \<Rightarrow> xdma_engine \<times> xdma_request_cb \<Rightarrow> (int \<times> xdma_engine \<times> xdma_request_cb) res" where
  "nowait_loop hw mp dma_mapped [] n (e, req) = (if n = 0 then Inr (- EIOCBQUEUED, e, req) else Inl OutOfBounds)"
| "nowait_loop hw mp dma_mapped (x # tfer) n (e, req) =
     (if n = 0 then Inr (- EIOCBQUEUED, e, req)
      else rbind (transfer_init e req x) (\<lambda>(e, req).
        let n = n - xf_desc_num (en_xfers e x);
            (rv, e) = transfer_queue hw mp x (mark_async dma_mapped n x e)
        in if rv < 0 then Inr (rv, e, req) else nowait_loop hw mp dma_mapped tfer n (e, req)))"

text \<open>
  The result: the return value, the engine, the table, the calls that unmapped it, and the request the
  callback holds, unless it was freed.  A request that cannot be queued as a whole is unmapped and freed.
\<close>

definition nowait_on :: "engine_hw \<Rightarrow> module_params \<Rightarrow> u32 \<Rightarrow> bool \<Rightarrow> scatterlist \<Rightarrow> nat list \<Rightarrow> bool \<Rightarrow> u64 \<Rightarrow> bool \<Rightarrow>
    xdma_engine \<times> sg_table \<Rightarrow> (int \<times> xdma_engine \<times> sg_table \<times> u32 list \<times> xdma_request_cb option) res" where
  "nowait_on hw mp cb ok mapped tfer write ep_addr dma_mapped = (\<lambda>(e, sgt).
     if en_magic e \<noteq> MAGIC_ENGINE then Inr (- EINVAL, e, sgt, [], None)
     else if en_offline e then Inr (- EBUSY, e, sgt, [], None)
     else if en_dir e \<noteq> (if write then DMA_TO_DEVICE else DMA_FROM_DEVICE) then Inr (- EINVAL, e, sgt, [], None)
     else if \<not> dma_mapped \<and> mapped = [] then Inr (- EIO, e, sgt, [], None)
     else if dma_mapped \<and> st_nents sgt = 0 then Inr (- EIO, e, sgt, [], None)
     else
       let sgt = (if dma_mapped then sgt else sgt\<lparr>st_sgl := mapped, st_nents := of_nat (length mapped)\<rparr>);
           unmap_sgl = (if \<not> dma_mapped \<and> st_nents sgt \<noteq> 0 then (sgt\<lparr>st_nents := 0\<rparr>, [st_orig_nents sgt]) else (sgt, [])) in
       rbind (xdma_init_request (desc_blen_max mp) cb ok (st_sgl sgt) (st_nents sgt) ep_addr) (\<lambda>r. case r of
         None \<Rightarrow> Inr (- ENOMEM, e, fst unmap_sgl, snd unmap_sgl, None)
       | Some req \<Rightarrow>
           rbind (nowait_loop hw mp dma_mapped tfer (rq_sw_desc_cnt req) (e, req)) (\<lambda>(rv, e, req).
           if rv = - EIOCBQUEUED then Inr (rv, e, sgt, [], Some req)
           else Inr (rv, e, fst unmap_sgl, snd unmap_sgl, None))))"

definition xdma_xfer_submit_nowait :: "engine_hw \<Rightarrow> module_params \<Rightarrow> u32 \<Rightarrow> bool \<Rightarrow> scatterlist \<Rightarrow> nat list \<Rightarrow>
    s32 \<Rightarrow> bool \<Rightarrow> u64 \<Rightarrow> bool \<Rightarrow> xdma_sgdev option \<times> sg_table \<Rightarrow>
    (int \<times> xdma_sgdev option \<times> sg_table \<times> u32 list \<times> xdma_request_cb option) res" where
  "xdma_xfer_submit_nowait hw mp cb ok mapped tfer channel write ep_addr dma_mapped = (\<lambda>(dev, sgt). case dev of
     None \<Rightarrow> Inr (- EINVAL, None, sgt, [], None)
   | Some d \<Rightarrow> rbind (submit_engine d channel write) (\<lambda>r. case r of
       Inl rv \<Rightarrow> Inr (rv, Some d, sgt, [], None)
     | Inr k \<Rightarrow> rbind (nowait_on hw mp cb ok mapped tfer write ep_addr dma_mapped ((if write then sg_engine_h2c d else sg_engine_c2h d) ! k, sgt))
         (\<lambda>(rv, e, sgt, unmaps, req). Inr (rv, Some (if write
             then d\<lparr>sg_engine_h2c := (sg_engine_h2c d)[k := e]\<rparr> else d\<lparr>sg_engine_c2h := (sg_engine_c2h d)[k := e]\<rparr>), sgt, unmaps, req))))"

subsection \<open>Completion\<close>

text \<open>What is made of one transfer; the registers dumped on the way of the last case are left out.\<close>

definition completion_outcome :: "engine_hw \<Rightarrow> module_params \<Rightarrow> nat \<Rightarrow> int \<Rightarrow> xdma_engine \<Rightarrow> (int \<times> int \<times> xdma_engine) res" where
  "completion_outcome hw mp x done e =
     (let xfer = en_xfers e x in
      case xf_state xfer of
        TRANSFER_STATE_COMPLETED \<Rightarrow>
          if en_streaming e \<and> en_dir e = DMA_FROM_DEVICE
          then rbind (results_length (xf_desc_virt xfer) (xf_desc_num xfer) (en_result e)) (\<lambda>n. Inr (0, done + n, e))
          else Inr (0, done + uint (xf_len xfer), e)
      | TRANSFER_STATE_FAILED \<Rightarrow> Inr (- EIO, done, e)
      | _ \<Rightarrow> Inr (- ERESTARTSYS, done, xdma_engine_stop mp (snd (transfer_abort x (engine_status_read hw False e)))))"

fun completion_loop :: "engine_hw \<Rightarrow> module_params \<Rightarrow> nat list \<Rightarrow> u32 \<Rightarrow> int \<Rightarrow> xdma_engine \<times> sg_table \<times> u32 list \<Rightarrow>
    (int \<times> xdma_engine \<times> sg_table \<times> u32 list) res" where
  "completion_loop hw mp [] n done (e, sgt, unmaps) = (if n = 0 then Inr (done, e, sgt, unmaps) else Inl OutOfBounds)"
| "completion_loop hw mp (x # tfer) n done (e, sgt, unmaps) =
     (if n = 0 then Inr (done, e, sgt, unmaps)
      else
        let n = n - xf_desc_num (en_xfers e x) in
        rbind (completion_outcome hw mp x done e) (\<lambda>(rv, done, e).
        rbind (transfer_destroy x (e, sgt, unmaps)) (\<lambda>(e, sgt, unmaps).
        let e = e\<lparr>en_desc_used := en_desc_used e - xf_desc_num (en_xfers e x)\<rparr> in
        if rv < 0 then Inr (done, e, sgt, unmaps) else completion_loop hw mp tfer n done (e, sgt, unmaps))))"

definition completion_on :: "engine_hw \<Rightarrow> module_params \<Rightarrow> nat list \<Rightarrow> bool \<Rightarrow> xdma_request_cb \<Rightarrow> xdma_engine \<times> sg_table \<Rightarrow>
    (int \<times> xdma_engine \<times> sg_table \<times> u32 list) res" where
  "completion_on hw mp tfer dma_mapped req = (\<lambda>(e, sgt).
     if en_magic e \<noteq> MAGIC_ENGINE then Inr (- EINVAL, e, sgt, [])
     else rbind (completion_loop hw mp tfer (rq_sw_desc_cnt req) 0 (e, sgt, [])) (\<lambda>(done, e, sgt, unmaps).
       let (sgt, unmaps) = (if \<not> dma_mapped \<and> st_nents sgt \<noteq> 0 then (sgt\<lparr>st_nents := 0\<rparr>, unmaps @ [st_orig_nents sgt]) else (sgt, unmaps))
       in Inr (done, e, sgt, unmaps)))"

definition xdma_xfer_completion :: "engine_hw \<Rightarrow> module_params \<Rightarrow> nat list \<Rightarrow> s32 \<Rightarrow> bool \<Rightarrow> bool \<Rightarrow> xdma_request_cb \<Rightarrow>
    xdma_sgdev \<times> sg_table \<Rightarrow> (int \<times> xdma_sgdev \<times> sg_table \<times> u32 list) res" where
  "xdma_xfer_completion hw mp tfer channel write dma_mapped req = (\<lambda>(d, sgt).
     rbind (submit_engine (d\<lparr>sg_known := True\<rparr>) channel write) (\<lambda>r. case r of
       Inl rv \<Rightarrow> Inr (rv, d, sgt, [])
     | Inr k \<Rightarrow> rbind (completion_on hw mp tfer dma_mapped req ((if write then sg_engine_h2c d else sg_engine_c2h d) ! k, sgt))
         (\<lambda>(done, e, sgt, unmaps). Inr (done, if write
             then d\<lparr>sg_engine_h2c := (sg_engine_h2c d)[k := e]\<rparr> else d\<lparr>sg_engine_c2h := (sg_engine_c2h d)[k := e]\<rparr>, sgt, unmaps))))"

end
