(* ===== verification/Sgdma_Async_Props.thy ===== *)
theory Sgdma_Async_Props
  imports Sgdma_Async Sgdma_System
begin

text \<open>
  Requests nobody waits for: they work as long as a request is one transfer.  When it is two, the
  second is built while the hardware may still be at the first, and when it is three, the third is
  built behind the end of the array of transfers.
\<close>

lemma mark_async_inited:
  "mark_async dma_mapped n x (inited e req x) =
   upd_xfer x (\<lambda>t. t\<lparr>xf_flags := (if dma_mapped then 0 else XFER_FLAG_NEED_UNMAP), xf_last_in_request := (n = 0), xf_cb := True\<rparr>) (inited e req x)"
  by (simp add: mark_async_def mark_xfer_def upd_xfer_def inited_def init_xfer_def zero_transfer_def Let_def)

lemma queue_next:
  assumes "\<not> en_offline e" "and (en_shutdown e) ENGINE_SHUTDOWN_REQUEST = 0"
  shows "\<exists>e'. transfer_queue hw mp x e = (0, e') \<and> static e' = static e \<and> \<not> en_offline e' \<and> and (en_shutdown e') ENGINE_SHUTDOWN_REQUEST = 0 \<and>
    en_running e' \<and> en_transfer_list e' = en_transfer_list e @ [x] \<and>
    en_xfers e' = (en_xfers e)(x := (en_xfers e x)\<lparr>xf_state := TRANSFER_STATE_SUBMITTED\<rparr>)"
proof (cases "en_running e")
  case True
  then show ?thesis using assms by (simp add: transfer_queue_def Let_def upd_xfer_def)
next
  case False
  let ?e = "upd_xfer x (\<lambda>t. t\<lparr>xf_state := TRANSFER_STATE_SUBMITTED\<rparr>) e\<lparr>en_transfer_list := en_transfer_list e @ [x]\<rparr>"
  obtain h t where ht: "en_transfer_list e @ [x] = h # t" by (cases "en_transfer_list e @ [x]") auto
  have l: "en_transfer_list ?e = h # t" "\<not> en_running ?e" using ht False by (simp_all add: upd_xfer_def)
  obtain e' where e': "engine_start hw mp ?e = (Some h, e')" "en_running e'" "en_transfer_list e' = h # t" "en_shutdown e' = 0"
     "en_xfers e' = en_xfers ?e" "static e' = static ?e"
    using start_ops[OF l, of hw mp] by blast
  have "en_offline e' = en_offline e" using static_eq(12)[OF e'(6)] by (simp add: upd_xfer_def)
  then show ?thesis
    using assms False e' ht by (auto simp: transfer_queue_def Let_def upd_xfer_def)
qed

lemma of_nat_nz: "0 < n \<Longrightarrow> n < 4294967296 \<Longrightarrow> of_nat n \<noteq> (0 :: u32)"
proof
  assume n: "0 < n" "n < 4294967296" "of_nat n = (0 :: u32)"
  have "unat (of_nat n :: u32) = n" using n(2) by (simp add: unat_of_nat)
  then show False using n(1) unfolding n(3) by simp
qed

text \<open>One round of the loop.\<close>

definition accepting :: "xdma_engine \<Rightarrow> bool" where
  "accepting e \<longleftrightarrow> ring_ok e \<and> \<not> en_offline e \<and> and (en_shutdown e) ENGINE_SHUTDOWN_REQUEST = 0"

lemma nowait_round:
  assumes e: "accepting e" and req: "cb_ok req" "req_rest req \<noteq> []" and n: "n = of_nat (length (req_rest req))"
  shows "\<exists>e'. nowait_loop hw mp dma_mapped (x # tfer) n (e, req) =
      nowait_loop hw mp dma_mapped tfer (of_nat (length (req_rest (advanced e req)))) (e', advanced e req) \<and>
    accepting e' \<and> static e' = static (inited e req x) \<and> en_running e' \<and> en_transfer_list e' = en_transfer_list e @ [x] \<and>
    (\<forall>y. y \<noteq> x \<longrightarrow> en_xfers e' y = en_xfers e y) \<and> xf_desc_bus (en_xfers e' x) = en_desc_bus e + 32 * ucast (en_desc_idx e)"
proof -
  let ?k = "xfer_count e req" and ?fl = "if dma_mapped then 0 else XFER_FLAG_NEED_UNMAP :: u32"
  have r: "ring_ok e" using e by (simp add: accepting_def)
  have k: "?k \<le> length (req_rest req)" by (simp add: xfer_count_def)
  have n0: "n \<noteq> 0"
  proof -
    have "length (req_rest req) \<le> unat (rq_sw_desc_cnt req)" by (simp add: req_rest_def)
    then have "unat n = length (req_rest req)" using unat_lt_u32[of "rq_sw_desc_cnt req"] by (simp add: n unat_of_nat)
    then show ?thesis using req(2) by auto
  qed
  have i: "xf_desc_num (en_xfers (inited e req x) x) = of_nat ?k" by (simp add: inited_def init_xfer_def Let_def)
  have m: "n - of_nat ?k = of_nat (length (req_rest (advanced e req)))"
    using k by (simp add: n advanced_rest[OF r req(1)] of_nat_diff)
  let ?e1 = "mark_async dma_mapped (n - of_nat ?k) x (inited e req x)"
  have p: "\<not> en_offline ?e1" "and (en_shutdown ?e1) ENGINE_SHUTDOWN_REQUEST = 0" "static ?e1 = static (inited e req x)"
      "en_transfer_list ?e1 = en_transfer_list e" "\<forall>y. y \<noteq> x \<longrightarrow> en_xfers ?e1 y = en_xfers e y"
      "xf_desc_bus (en_xfers ?e1 x) = en_desc_bus e + 32 * ucast (en_desc_idx e)"
    using e by (simp_all add: mark_async_inited accepting_def) (simp_all add: upd_xfer_def inited_def init_xfer_def Let_def)
  obtain e2 where e2: "transfer_queue hw mp x ?e1 = (0, e2)" "static e2 = static ?e1" "\<not> en_offline e2" "and (en_shutdown e2) ENGINE_SHUTDOWN_REQUEST = 0"
    "en_running e2" "en_transfer_list e2 = en_transfer_list ?e1 @ [x]" "en_xfers e2 = (en_xfers ?e1)(x := (en_xfers ?e1 x)\<lparr>xf_state := TRANSFER_STATE_SUBMITTED\<rparr>)"
    using queue_next[OF p(1,2)] by blast
  have "ring_ok e2"
    using inited_ring[OF r, of req x] static_eq[OF e2(2)[unfolded p(3)]] by (simp add: ring_ok_def writeback_def)
  then show ?thesis
    using n0 transfer_init_ok[OF r req, of x] e2 p m i by (auto simp: Let_def accepting_def)
qed

lemma nowait_ready:
  assumes e: "engine_ready to_dev e" and l: "list_ready (desc_blen_max mp) cb mapped"
  shows "\<exists>req. cb_ok req \<and> req_rest req = sg_all (desc_blen_max mp) mapped \<and> rq_ep_addr req = ep \<and>
    rq_sw_desc_cnt req = of_nat (length (sg_all (desc_blen_max mp) mapped)) \<and>
    (\<forall>tfer. nowait_on hw mp cb True mapped tfer to_dev ep False (e, sgt) =
      rbind (nowait_loop hw mp False tfer (of_nat (length (req_rest req))) (e, req)) (\<lambda>(rv, e, req).
        if rv = - EIOCBQUEUED then Inr (rv, e, sgt\<lparr>st_sgl := mapped, st_nents := of_nat (length mapped)\<rparr>, [], Some req)
        else Inr (rv, e, sgt\<lparr>st_sgl := mapped, st_nents := 0\<rparr>, [st_orig_nents sgt], None)))"
proof -
  note rr = ready_request[OF l]
  obtain req where r: "xdma_init_request (desc_blen_max mp) cb True mapped (of_nat (length mapped)) ep = Inr (Some req)"
    "cb_ok req" "req_rest req = sg_all (desc_blen_max mp) mapped" "rq_ep_addr req = ep"
    "rq_sw_desc_cnt req = of_nat (length (sg_all (desc_blen_max mp) mapped))"
    using rr(5) by blast
  then show ?thesis
    using e rr(1,2) by (intro exI[of _ req]) (simp add: nowait_on_def engine_ready_def idle_def Let_def cong: if_cong)
qed

lemma ready_accepting: "engine_ready to_dev e \<Longrightarrow> accepting e"
  by (simp add: engine_ready_def accepting_def idle_def)

lemma next_idx:
  assumes "ring_ok e" "cb_ok req" "unat (en_desc_max e) - unat (en_desc_idx e) \<le> length (req_rest req)" "static e' = static (inited e req x)"
  shows "en_desc_idx e' = 0" "xfer_count e req = unat (en_desc_max e) - unat (en_desc_idx e)" "en_desc_max e' = en_desc_max e"
proof -
  show k: "xfer_count e req = unat (en_desc_max e) - unat (en_desc_idx e)" using assms(3) by (simp add: xfer_count_def)
  have "(of_nat (unat (en_desc_max e) - unat (en_desc_idx e)) :: u32) = en_desc_max e - en_desc_idx e"
    using assms(1) by (simp add: ring_ok_def word_less_nat_alt of_nat_diff)
  then have "en_desc_idx (inited e req x) = 0" by (simp add: inited_def Let_def k)
  moreover have "en_desc_max (inited e req x) = en_desc_max e" by (simp add: inited_def Let_def)
  ultimately show "en_desc_idx e' = 0" "en_desc_max e' = en_desc_max e" using static_eq(2,3)[OF assms(4)] by simp_all
qed

text \<open>
  C23: a request of three transfers.  A request that is queued and not waited for has room for two
  transfers; when it has more pieces than fit behind the next descriptor of the ring and once into the
  whole ring, the third transfer is built behind the end of the array.
\<close>

theorem nowait_third_transfer_overruns:
  assumes "sg_known d" and "0 \<le> sint channel"
    and "sint channel < sint (if to_dev then sg_h2c_channel_max d else sg_c2h_channel_max d)"
    and "unat channel < length (if to_dev then sg_engine_h2c d else sg_engine_c2h d)"
    and "e = (if to_dev then sg_engine_h2c d else sg_engine_c2h d) ! unat channel"
    and "engine_ready to_dev e" and "list_ready (desc_blen_max mp) cb mapped"
    and "unat (en_desc_max e) - unat (en_desc_idx e) + unat (en_desc_max e) < length (sg_all (desc_blen_max mp) mapped)"
  shows "xdma_xfer_submit_nowait hw mp cb True mapped [x, y] channel to_dev ep False (Some d, sgt) = Inl OutOfBounds"
proof -
  obtain req where req: "cb_ok req" "req_rest req = sg_all (desc_blen_max mp) mapped"
    and on: "nowait_on hw mp cb True mapped tfer to_dev ep False (e, sgt) =
      rbind (nowait_loop hw mp False tfer (of_nat (length (req_rest req))) (e, req)) (\<lambda>(rv, e, req).
        if rv = - EIOCBQUEUED then Inr (rv, e, sgt\<lparr>st_sgl := mapped, st_nents := of_nat (length mapped)\<rparr>, [], Some req)
        else Inr (rv, e, sgt\<lparr>st_sgl := mapped, st_nents := 0\<rparr>, [st_orig_nents sgt], None))" for tfer
    using nowait_ready[OF assms(6,7), of ep hw sgt] by blast
  have r: "ring_ok e" using assms(6) by (simp add: engine_ready_def)
  have more: "req_rest req \<noteq> []" using assms(8) by (auto simp: req(2))
  obtain e1 where e1: "nowait_loop hw mp False [x, y] (of_nat (length (req_rest req))) (e, req) =
      nowait_loop hw mp False [y] (of_nat (length (req_rest (advanced e req)))) (e1, advanced e req)" "accepting e1" "static e1 = static (inited e req x)"
    using nowait_round[OF ready_accepting[OF assms(6)] req(1) more refl] by blast
  note a = advanced_rest[OF r req(1)] and i = next_idx[OF r req(1) _ e1(3)]
  have l: "length (req_rest (advanced e req)) = length (sg_all (desc_blen_max mp) mapped) - (unat (en_desc_max e) - unat (en_desc_idx e))"
    using i(2) assms(8) by (simp add: a(2) req(2))
  then have more1: "req_rest (advanced e req) \<noteq> []" and r1: "ring_ok e1" using assms(8) e1(2) by (auto simp: accepting_def)
  obtain e2 where e2: "nowait_loop hw mp False [y] (of_nat (length (req_rest (advanced e req)))) (e1, advanced e req) =
      nowait_loop hw mp False [] (of_nat (length (req_rest (advanced e1 (advanced e req))))) (e2, advanced e1 (advanced e req))"
    using nowait_round[OF e1(2) a(1) more1 refl] by blast
  note a1 = advanced_rest[OF r1 a(1)]
  have "xfer_count e1 (advanced e req) \<le> unat (en_desc_max e)" using i(1,3) assms(8) by (simp add: xfer_count_def req(2))
  then have "0 < length (req_rest (advanced e1 (advanced e req)))" using l assms(8) by (simp add: a1(2))
  moreover have "length (req_rest (advanced e1 (advanced e req))) < 4294967296"
    using ready_request(4)[OF assms(7)] l by (simp add: a1(2))
  ultimately have "of_nat (length (req_rest (advanced e1 (advanced e req)))) \<noteq> (0 :: u32)" by (intro of_nat_nz)
  then have "nowait_on hw mp cb True mapped [x, y] to_dev ep False (e, sgt) = Inl OutOfBounds" using on e1(1) e2 by simp
  moreover have "submit_engine d channel to_dev = Inr (Inr (unat channel))"
    using assms(1-4) by (simp add: submit_engine_def split del: if_split)
  ultimately show ?thesis by (simp add: xdma_xfer_submit_nowait_def assms(5)[symmetric])
qed

definition demo_ring :: xdma_engine where
  "demo_ring = demo_engine\<lparr>en_desc_idx := 0\<rparr>"

lemma nowait_third_transfer_overruns_witness:
  "xdma_xfer_submit_nowait (\<lambda>_. 0) \<lparr>poll_mode = False, enable_st_c2h_credit = False, desc_blen_max = 4096\<rparr> 24 True [(0x1000, 20000)] [7, 8] 0 True
      0x80 False (Some \<lparr>sg_known = True, sg_h2c_channel_max = 1, sg_c2h_channel_max = 1, sg_engine_h2c = [demo_ring], sg_engine_c2h = [],
        sg_engines_num = 1, sg_mask_irq_h2c = 1, sg_mask_irq_c2h = 0\<rparr>, \<lparr>st_sgl = [(0x1000, 20000)], st_nents = 0, st_orig_nents = 1\<rparr>) = Inl OutOfBounds"
proof -
  have "length (sg_all 4096 [(0x1000, 20000)]) = 5" using pieces_count[of 4096 "0x1000" 20000] by (simp add: sg_all_def)
  then show ?thesis
    using nowait_third_transfer_overruns[where to_dev = True and channel = 0 and e = demo_ring and mp = "\<lparr>poll_mode = False, enable_st_c2h_credit = False, desc_blen_max = 4096\<rparr>"
        and mapped = "[(0x1000, 20000)]" and cb = 24 and x = 7 and y = 8 and ep = "0x80" and hw = "\<lambda>_. 0"
        and d = "\<lparr>sg_known = True, sg_h2c_channel_max = 1, sg_c2h_channel_max = 1, sg_engine_h2c = [demo_ring], sg_engine_c2h = [],
          sg_engines_num = 1, sg_mask_irq_h2c = 1, sg_mask_irq_c2h = 0\<rparr>"]
    by (simp add: engine_ready_def idle_def ring_ok_def writeback_def demo_ring_def demo_engine_def list_ready_def sg_ok_def request_room_def sg_room_def)
qed

text \<open>
  C22: a request of two transfers.  On a ring whose first descriptor is next, a request of more pieces
  than the ring has descriptors is queued as two transfers at once, and the second is built over the
  descriptors of the first, which the engine has just been started on: what the hardware finds at the
  first transfer's address are the copies of the second, and the copies of the first are lost.
\<close>

theorem nowait_second_transfer_overwrites:
  assumes "engine_ready to_dev e" and "list_ready (desc_blen_max mp) cb mapped" and "x \<noteq> y" and "en_desc_idx e = 0"
    and "unat (en_desc_max e) < length (sg_all (desc_blen_max mp) mapped)" and "length (sg_all (desc_blen_max mp) mapped) \<le> 2 * unat (en_desc_max e)"
  shows "\<exists>e' req ds. nowait_on hw mp cb True mapped [x, y] to_dev ep False (e, sgt) =
      Inr (- EIOCBQUEUED, e', sgt\<lparr>st_sgl := mapped, st_nents := of_nat (length mapped)\<rparr>, [], Some req) \<and>
    en_running e' \<and> en_transfer_list e' = [x, y] \<and>
    dma_fetch (length (en_desc e')) (desc_mem (en_desc_bus e') (en_desc e')) (xf_desc_bus (en_xfers e' x)) = Some ds \<and>
    map desc_copy ds = request_copies False (en_dir e) None
      (ep_at False ep (sg_all (desc_blen_max mp) mapped) (unat (en_desc_max e))) (drop (unat (en_desc_max e)) (sg_all (desc_blen_max mp) mapped))"
proof -
  obtain req where req: "cb_ok req" "req_rest req = sg_all (desc_blen_max mp) mapped" "rq_ep_addr req = ep"
    and on: "nowait_on hw mp cb True mapped tfer to_dev ep False (e, sgt) =
      rbind (nowait_loop hw mp False tfer (of_nat (length (req_rest req))) (e, req)) (\<lambda>(rv, e, req).
        if rv = - EIOCBQUEUED then Inr (rv, e, sgt\<lparr>st_sgl := mapped, st_nents := of_nat (length mapped)\<rparr>, [], Some req)
        else Inr (rv, e, sgt\<lparr>st_sgl := mapped, st_nents := 0\<rparr>, [st_orig_nents sgt], None))" for tfer
    using nowait_ready[OF assms(1,2), of ep hw sgt] by blast
  let ?m = "unat (en_desc_max e)" and ?sds = "sg_all (desc_blen_max mp) mapped"
  have r: "ring_ok e" and str: "\<not> en_streaming e" "\<not> en_non_incr_addr e" "en_transfer_list e = []"
    using assms(1) by (simp_all add: engine_ready_def idle_def)
  have more: "req_rest req \<noteq> []" using assms(5) by (auto simp: req(2))
  obtain e1 where e1: "nowait_loop hw mp False [x, y] (of_nat (length (req_rest req))) (e, req) =
      nowait_loop hw mp False [y] (of_nat (length (req_rest (advanced e req)))) (e1, advanced e req)" "accepting e1" "static e1 = static (inited e req x)"
    "en_transfer_list e1 = en_transfer_list e @ [x]" "xf_desc_bus (en_xfers e1 x) = en_desc_bus e + 32 * ucast (en_desc_idx e)"
    using nowait_round[OF ready_accepting[OF assms(1)] req(1) more refl] by blast
  note a = advanced_rest[OF r req(1)] and i = next_idx[OF r req(1) _ e1(3)]
  have k: "en_desc_idx e1 = 0" "xfer_count e req = ?m" "en_desc_max e1 = en_desc_max e"
    using i assms(4,5) by (simp_all add: req(2))
  have s1: "en_dir e1 = en_dir e" "\<not> en_streaming e1" "\<not> en_non_incr_addr e1" "en_desc_bus e1 = en_desc_bus e"
    using static_eq[OF e1(3)] str by (simp_all add: inited_def Let_def)
  have l: "req_rest (advanced e req) = drop ?m ?sds" by (simp add: a(2) req(2) k(2))
  have more1: "req_rest (advanced e req) \<noteq> []" and r1: "ring_ok e1" using assms(5) e1(2) by (simp_all add: l accepting_def)
  obtain e2 where e2: "nowait_loop hw mp False [y] (of_nat (length (req_rest (advanced e req)))) (e1, advanced e req) =
      nowait_loop hw mp False [] (of_nat (length (req_rest (advanced e1 (advanced e req))))) (e2, advanced e1 (advanced e req))"
    "static e2 = static (inited e1 (advanced e req) y)" "en_running e2" "en_transfer_list e2 = en_transfer_list e1 @ [y]"
    "\<forall>z. z \<noteq> y \<longrightarrow> en_xfers e2 z = en_xfers e1 z"
    using nowait_round[OF e1(2) a(1) more1 refl] by blast
  have c: "xfer_count e1 (advanced e req) = length ?sds - ?m" using assms(5,6) k(1,3) by (simp add: xfer_count_def l)
  then have "req_rest (advanced e1 (advanced e req)) = []" by (simp add: advanced_rest[OF r1 a(1)] l)
  then have loop: "nowait_loop hw mp False [x, y] (of_nat (length (req_rest req))) (e, req) = Inr (- EIOCBQUEUED, e2, advanced e1 (advanced e req))"
    unfolding e1(1) e2(1) by simp
  have bus: "xf_desc_bus (en_xfers e2 x) = xf_desc_bus (init_xfer e1 (advanced e req))"
    using e1(5) e2(5) assms(3,4) k(1) s1(4) by (simp add: init_xfer_def Let_def)
  have d2: "en_desc e2 = en_desc (inited e1 (advanced e req) y)" "en_desc_bus e2 = en_desc_bus e1"
    using static_eq(1,10)[OF e2(2)] by (simp_all add: inited_def Let_def)
  have len: "length (en_desc (inited e1 (advanced e req) y)) = length (en_desc e1)" by (simp add: inited_def Let_def)
  have walk: "dma_fetch (length (en_desc e2)) (desc_mem (en_desc_bus e2) (en_desc e2)) (xf_desc_bus (en_xfers e2 x)) =
      Some (map (init_desc e1 (advanced e req)) [0..<xfer_count e1 (advanced e req)])"
    unfolding bus d2 len using inited_walk[OF r1 a(1) more1, of y] by simp
  have "rq_ep_addr (advanced e req) = ep_at False ep ?sds ?m"
    using str by (simp add: advanced_def Let_def k(2) req(2,3))
  then have cp: "map desc_copy (map (init_desc e1 (advanced e req)) [0..<xfer_count e1 (advanced e req)]) =
      request_copies False (en_dir e) None (ep_at False ep ?sds ?m) (drop ?m ?sds)"
    unfolding init_copies using s1 by (simp add: writeback_def l c)
  show ?thesis
    using on loop e1(4) e2(3,4) str(3) walk cp by auto
qed

lemma nowait_second_transfer_overwrites_witness:
  "\<exists>e' req ds. nowait_on (\<lambda>_. 0) \<lparr>poll_mode = False, enable_st_c2h_credit = False, desc_blen_max = 4096\<rparr> 24 True [(0x1000, 12000)] [7, 8] True 0x80 False
      (demo_ring, \<lparr>st_sgl = [(0x1000, 12000)], st_nents = 0, st_orig_nents = 1\<rparr>) =
      Inr (- EIOCBQUEUED, e', \<lparr>st_sgl = [(0x1000, 12000)], st_nents = 1, st_orig_nents = 1\<rparr>, [], Some req) \<and>
    en_running e' \<and> dma_fetch (length (en_desc e')) (desc_mem (en_desc_bus e') (en_desc e')) (xf_desc_bus (en_xfers e' 7)) = Some ds \<and>
    map desc_copy ds = [(0x3000, 0x2080, 3808)]"
proof -
  have all: "sg_all 4096 [(0x1000, 12000)] = [\<lparr>sd_addr = 0x1000, sd_len = 4096\<rparr>, \<lparr>sd_addr = 0x2000, sd_len = 4096\<rparr>, \<lparr>sd_addr = 0x3000, sd_len = 3808\<rparr>]"
    by (simp add: sg_all_def sg_pieces.simps)
  let ?mp = "\<lparr>poll_mode = False, enable_st_c2h_credit = False, desc_blen_max = 4096\<rparr>"
  have h: "engine_ready True demo_ring" "list_ready (desc_blen_max ?mp) 24 [(0x1000, 12000)]" "(7 :: nat) \<noteq> 8" "en_desc_idx demo_ring = 0"
    "unat (en_desc_max demo_ring) < length (sg_all (desc_blen_max ?mp) [(0x1000, 12000)])"
    "length (sg_all (desc_blen_max ?mp) [(0x1000, 12000)]) \<le> 2 * unat (en_desc_max demo_ring)"
    by (simp_all add: all engine_ready_def idle_def ring_ok_def writeback_def demo_ring_def demo_engine_def list_ready_def sg_ok_def request_room_def sg_room_def)
  obtain e' req ds where "nowait_on (\<lambda>_. 0) ?mp 24 True [(0x1000, 12000)] [7, 8] True 0x80 False (demo_ring, \<lparr>st_sgl = [(0x1000, 12000)], st_nents = 0, st_orig_nents = 1\<rparr>) =
      Inr (- EIOCBQUEUED, e', \<lparr>st_sgl = [(0x1000, 12000)], st_nents = 0, st_orig_nents = 1\<rparr>\<lparr>st_sgl := [(0x1000, 12000)], st_nents := of_nat (length [(0x1000 :: u64, 12000 :: u32)])\<rparr>, [], Some req)"
    "en_running e'" "dma_fetch (length (en_desc e')) (desc_mem (en_desc_bus e') (en_desc e')) (xf_desc_bus (en_xfers e' 7)) = Some ds"
    "map desc_copy ds = request_copies False (en_dir demo_ring) None
      (ep_at False 0x80 (sg_all (desc_blen_max ?mp) [(0x1000, 12000)]) (unat (en_desc_max demo_ring))) (drop (unat (en_desc_max demo_ring)) (sg_all (desc_blen_max ?mp) [(0x1000, 12000)]))"
    using nowait_second_transfer_overwrites[OF h] by blast
  moreover have "request_copies False (en_dir demo_ring) None
      (ep_at False 0x80 (sg_all (desc_blen_max ?mp) [(0x1000, 12000)]) (unat (en_desc_max demo_ring))) (drop (unat (en_desc_max demo_ring)) (sg_all (desc_blen_max ?mp) [(0x1000, 12000)])) =
      [(0x3000, 0x2080, 3808)]"
    by (simp add: all demo_ring_def demo_engine_def ep_at_def)
  ultimately show ?thesis by (intro exI[of _ e'] exI[of _ req] exI[of _ ds]) simp
qed

text \<open>
  C20: a request of one transfer.  When the pieces fit before the end of the ring, the request is
  queued, the device copies the bytes of the list and the callback is called; the completion then
  returns their number, unmaps the list once and leaves the engine idle.
\<close>

theorem nowait_completion_roundtrip:
  assumes "engine_ready to_dev e" and "list_ready (desc_blen_max mp) cb mapped"
    and "length (sg_all (desc_blen_max mp) mapped) \<le> unat (en_desc_max e) - unat (en_desc_idx e)"
  shows "\<exists>e1 req cl e2 e3. nowait_on hw mp cb True mapped (x # tfer) to_dev ep False (e, sgt) =
      Inr (- EIOCBQUEUED, e1, sgt\<lparr>st_sgl := mapped, st_nents := of_nat (length mapped)\<rparr>, [], Some req) \<and>
    copying_device mp x ([], e1) = (cl, e2) \<and> Io_done x \<in> set (en_wakes e2) \<and>
    concat (map copy_bytes cl) = copied (en_dir e) ep (concat (map (\<lambda>(a, l). sg_span a l) mapped)) \<and>
    completion_on hw mp (x # tfer) False req (e2, sgt\<lparr>st_sgl := mapped, st_nents := of_nat (length mapped)\<rparr>) =
      Inr (int (sum_list (map (\<lambda>(a, l). unat l) mapped)), e3, sgt\<lparr>st_sgl := mapped, st_nents := 0\<rparr>, [of_nat (length mapped)]) \<and> idle e3"
proof -
  let ?b = "desc_blen_max mp" and ?sds = "sg_all (desc_blen_max mp) mapped"
  have b: "?b \<noteq> 0" and total: "bytes_of ?sds < 4294967296" using assms(2) all_bytes[of ?b mapped] by (simp_all add: list_ready_def)
  note rr = ready_request[OF assms(2)]
  obtain req where req: "cb_ok req" "req_rest req = ?sds" "rq_ep_addr req = ep" "rq_sw_desc_cnt req = of_nat (length ?sds)"
    and on: "nowait_on hw mp cb True mapped tfer to_dev ep False (e, sgt) =
      rbind (nowait_loop hw mp False tfer (of_nat (length (req_rest req))) (e, req)) (\<lambda>(rv, e, req).
        if rv = - EIOCBQUEUED then Inr (rv, e, sgt\<lparr>st_sgl := mapped, st_nents := of_nat (length mapped)\<rparr>, [], Some req)
        else Inr (rv, e, sgt\<lparr>st_sgl := mapped, st_nents := 0\<rparr>, [st_orig_nents sgt], None))" for tfer
    using nowait_ready[OF assms(1,2), of ep hw sgt] by blast
  have e: "idle e" "ring_ok e" "\<not> en_streaming e" "\<not> en_non_incr_addr e" "en_magic e = MAGIC_ENGINE" using assms(1) by (simp_all add: engine_ready_def)
  have more: "req_rest req \<noteq> []" using rr(3) by (simp add: req(2))
  have k: "xfer_count e req = length ?sds" using assms(3) by (simp add: xfer_count_def req(2))
  have n0: "of_nat (length ?sds) \<noteq> (0 :: u32)" using rr(3,4) by (intro of_nat_nz) simp_all
  obtain e1 where e1: "transfer_queue hw mp x (mark_async False 0 x (inited e req x)) = (0, e1)"
    "submitted e1 x (map (init_desc e req) [0..<length ?sds])" "static e1 = static (inited e req x)"
    "en_xfers e1 x = (init_xfer e req)\<lparr>xf_flags := XFER_FLAG_NEED_UNMAP, xf_last_in_request := True, xf_cb := True, xf_state := TRANSFER_STATE_SUBMITTED\<rparr>"
    using init_submitted[OF e(1,2) req(1) more, where fl = XFER_FLAG_NEED_UNMAP and l = True and c = True and x = x and hw = hw and mp = mp]
    by (auto simp: mark_async_inited k)
  have i: "xf_desc_num (en_xfers (inited e req x) x) = of_nat (length ?sds)" by (simp add: inited_def init_xfer_def Let_def k)
  have loop: "nowait_loop hw mp False (x # tfer) (of_nat (length (req_rest req))) (e, req) = Inr (- EIOCBQUEUED, e1, advanced e req)"
    using transfer_init_ok[OF e(2) req(1) more, of x] n0 e1(1) by (cases tfer) (simp_all add: req(2) i Let_def)
  obtain e2 rv c where e2: "engine_service (device_done (length (map (init_desc e req) [0..<length ?sds]))) mp 0 e1 = Inr (rv, e2)" "idle e2" "static e2 = static e1"
    "en_xfers e2 x = (en_xfers e1 x)\<lparr>xf_state := TRANSFER_STATE_COMPLETED, xf_desc_cmpl := c\<rparr>" "Io_done x \<in> set (en_wakes e2)"
    using served_completes[OF e1(2), of mp] e1(4) by auto
  let ?cl = "map desc_copy (map (init_desc e req) [0..<length ?sds])"
  have dev: "copying_device mp x ([], e1) = (?cl, e2)"
    using e1(2) e2(1) by (simp add: copying_device_def submitted_def)
  have cl: "?cl = request_copies False (en_dir e) None ep ?sds"
    using init_copies[of e req] e(3,4) by (simp add: k req(2,3) writeback_def)
  note s = static_eq[OF e2(3)[unfolded e1(3)]]
  have x2: "xf_desc_num (en_xfers e2 x) = of_nat (length ?sds)" "xf_desc_virt (en_xfers e2 x) = unat (en_desc_idx e)"
    "xf_flags (en_xfers e2 x) = XFER_FLAG_NEED_UNMAP" "xf_last_in_request (en_xfers e2 x)" "xf_state (en_xfers e2 x) = TRANSFER_STATE_COMPLETED"
    "xf_len (en_xfers e2 x) = sum_list (map sd_len ?sds)"
    by (simp_all add: e2(4) e1(4) init_xfer_def Let_def k req(2) zero_transfer_def)
  have len: "uint (sum_list (map sd_len ?sds)) = int (sum_list (map (\<lambda>(a, l). unat l) mapped))"
    using len_sum[OF total] all_bytes[OF b, of mapped] by simp
  have small: "unat (en_desc_idx e) + length ?sds \<le> length (en_desc e2)" "length ?sds < 2147483648"
    using e(2) assms(3) s(1) by (auto simp: ring_ok_def word_less_nat_alt inited_def Let_def)
  let ?ds = "upd_range (unat (en_desc_idx e)) (length ?sds) (\<lambda>_ _. cleared_desc) (en_desc e2)"
  have d: "xdma_desc_done (unat (en_desc_idx e)) (of_nat (length ?sds)) (en_desc e2) = Inr ?ds" using small by (intro desc_done)
  let ?sgt = "sgt\<lparr>st_sgl := mapped, st_nents := of_nat (length mapped)\<rparr>"
  let ?e3 = "e2\<lparr>en_desc := ?ds, en_desc_used := en_desc_used e2 - of_nat (length ?sds)\<rparr>"
  have t: "transfer_destroy x (e2, ?sgt, []) = Inr (e2\<lparr>en_desc := ?ds\<rparr>, sgt\<lparr>st_sgl := mapped, st_nents := 0\<rparr>, [of_nat (length mapped)])"
    using rr(2) by (simp add: transfer_destroy_def Let_def x2 d)
  have o: "completion_outcome hw mp x 0 e2 = Inr (0, int (sum_list (map (\<lambda>(a, l). unat l) mapped)), e2)"
    using e(3) s(6) by (simp add: completion_outcome_def Let_def x2 len inited_def)
  have "en_magic e2 = MAGIC_ENGINE" using s(13) e(5) by (simp add: inited_def Let_def)
  moreover have "rq_sw_desc_cnt (advanced e req) = of_nat (length ?sds)" by (simp add: advanced_def Let_def req(4))
  ultimately have fin: "completion_on hw mp (x # tfer) False (advanced e req) (e2, ?sgt) =
      Inr (int (sum_list (map (\<lambda>(a, l). unat l) mapped)), ?e3, sgt\<lparr>st_sgl := mapped, st_nents := 0\<rparr>, [of_nat (length mapped)])"
    using n0 o t by (cases tfer) (simp_all add: completion_on_def x2(1) Let_def)
  have "idle ?e3" using e2(2) by (simp add: idle_def)
  then show ?thesis
    using on[of "x # tfer"] loop dev e2(5) fin copies_bytes[of "en_dir e" ep ?sds] all_spans[OF b, of mapped] unfolding cl by auto
qed

lemma nowait_completion_roundtrip_witness:
  "\<exists>e1 req cl e2 e3. nowait_on (\<lambda>_. 0) \<lparr>poll_mode = False, enable_st_c2h_credit = False, desc_blen_max = 4096\<rparr> 24 True [(0x1000, 5000)] [7, 8] True 0x80 False
      (demo_ring, \<lparr>st_sgl = [(0x1000, 5000)], st_nents = 0, st_orig_nents = 1\<rparr>) =
      Inr (- EIOCBQUEUED, e1, \<lparr>st_sgl = [(0x1000, 5000)], st_nents = 1, st_orig_nents = 1\<rparr>, [], Some req) \<and>
    copying_device \<lparr>poll_mode = False, enable_st_c2h_credit = False, desc_blen_max = 4096\<rparr> 7 ([], e1) = (cl, e2) \<and>
    completion_on (\<lambda>_. 0) \<lparr>poll_mode = False, enable_st_c2h_credit = False, desc_blen_max = 4096\<rparr> [7, 8] False req
      (e2, \<lparr>st_sgl = [(0x1000, 5000)], st_nents = 1, st_orig_nents = 1\<rparr>) =
      Inr (5000, e3, \<lparr>st_sgl = [(0x1000, 5000)], st_nents = 0, st_orig_nents = 1\<rparr>, [1])"
proof -
  let ?mp = "\<lparr>poll_mode = False, enable_st_c2h_credit = False, desc_blen_max = 4096\<rparr>"
  have all: "sg_all 4096 [(0x1000, 5000)] = [\<lparr>sd_addr = 0x1000, sd_len = 4096\<rparr>, \<lparr>sd_addr = 0x2000, sd_len = 904\<rparr>]"
    by (simp add: sg_all_def sg_pieces.simps)
  have h: "engine_ready True demo_ring" "list_ready (desc_blen_max ?mp) 24 [(0x1000, 5000)]"
    "length (sg_all (desc_blen_max ?mp) [(0x1000, 5000)]) \<le> unat (en_desc_max demo_ring) - unat (en_desc_idx demo_ring)"
    by (simp_all add: all engine_ready_def idle_def ring_ok_def writeback_def demo_ring_def demo_engine_def list_ready_def sg_ok_def request_room_def sg_room_def)
  show ?thesis
    using nowait_completion_roundtrip[OF h, of "\<lambda>_. 0" 7 "[8]" "0x80" "\<lparr>st_sgl = [(0x1000, 5000)], st_nents = 0, st_orig_nents = 1\<rparr>"] by simp blast
qed

end
