(* ===== verification/Sgdma_Aperture.thy ===== *)
theory Sgdma_Aperture
  imports Sgdma_Submit
begin

text \<open>
  Requests through an aperture (\<open>xdma_xfer_aperture\<close> of \<open>libxdma.c\<close>): the endpoint's addresses wrap around
  inside a window, so that the pieces are cut at its end too.  The descriptors are written straight
  from the scatter list, and the request remembers where the last transfer stopped.
\<close>

record aperture_request =
  aq_ep_addr :: u64
  aq_aperture :: u32
  aq_total_len :: u32
  aq_offset :: u32
  aq_sg_idx :: nat
  aq_sg_offset :: u32

text \<open>Where filling the ring has got to: the endpoint address, the offset in the entry, the bytes of the transfer, the next descriptor.\<close>

record fill =
  fl_ep :: u64
  fl_sg_offset :: u32
  fl_moved :: u32
  fl_idx :: nat
  fl_desc :: "xdma_desc list"

text \<open>The pieces of one entry; the loop stops at the end of the ring, so that it ends even for pieces without bytes.\<close>

definition aperture_piece :: "u32 \<Rightarrow> u64 \<Rightarrow> u64 \<Rightarrow> u32 \<Rightarrow> u64 \<Rightarrow> u64 \<times> u32" where
  "aperture_piece maxlen base ep_max tlen ep =
     (let len = min tlen maxlen;
          ep = (if ep_max < ep then base else ep)
      in (ep, if ep_max < ep + ucast len then ucast (ep_max - ep + 1) else len))"

function aperture_entry :: "dma_data_direction \<Rightarrow> u32 \<Rightarrow> u64 \<Rightarrow> u64 \<Rightarrow> nat \<Rightarrow> u64 \<Rightarrow> u32 \<Rightarrow> fill \<Rightarrow> (u32 \<times> fill) res" where
  "aperture_entry dir maxlen base ep_max desc_max addr tlen f =
     (if tlen = 0 \<or> desc_max \<le> fl_idx f then Inr (tlen, f)
      else
        let (ep, len) = aperture_piece maxlen base ep_max tlen (fl_ep f) in
        rbind (desc_at (fl_idx f) (xdma_desc_set addr ep len dir) (fl_desc f)) (\<lambda>ds.
        aperture_entry dir maxlen base ep_max desc_max (addr + ucast len) (tlen - len)
          \<lparr>fl_ep = ep + ucast len, fl_sg_offset = fl_sg_offset f + len, fl_moved = fl_moved f + len, fl_idx = Suc (fl_idx f), fl_desc = ds\<rparr>))"
  by pat_completeness auto

termination
  by (relation "measure (\<lambda>(_, _, _, _, desc_max, _, _, f). desc_max - fl_idx f)") auto

declare aperture_entry.simps [simp del]

text \<open>
  The entries: \<open>n\<close> are left, \<open>i\<close> counts them, and \<open>p\<close> is the entry looked at.
\<close>

fun aperture_fill :: "dma_data_direction \<Rightarrow> u32 \<Rightarrow> u64 \<Rightarrow> u64 \<Rightarrow> nat \<Rightarrow> scatterlist \<Rightarrow> nat \<Rightarrow> nat \<Rightarrow> nat \<Rightarrow> fill \<Rightarrow> (nat \<times> fill) res" where
  "aperture_fill dir maxlen base ep_max desc_max sgl 0 i p f = Inr (i, f)"
| "aperture_fill dir maxlen base ep_max desc_max sgl (Suc n) i p f =
     (if desc_max \<le> fl_idx f then Inr (i, f)
      else rbind (sg_at sgl p) (\<lambda>(addr, len).
        rbind (aperture_entry dir maxlen base ep_max desc_max (addr + ucast (fl_sg_offset f)) (len - fl_sg_offset f) f) (\<lambda>(tlen, f).
        if tlen = 0 then aperture_fill dir maxlen base ep_max desc_max sgl n (Suc i) (Suc p) (f\<lparr>fl_sg_offset := 0\<rparr>)
        else Inr (i, f))))"

text \<open>The links: every descriptor points to the one behind it, and the last one stops the engine.\<close>

definition aperture_link :: "nat \<Rightarrow> u64 \<Rightarrow> u32 \<Rightarrow> xdma_desc list \<Rightarrow> xdma_desc list res" where
  "aperture_link virt bus cnt ds =
     rbind (foldM (\<lambda>i. desc_at (virt + i) (\<lambda>d. d\<lparr>next_lo := PCI_DMA_L (bus + 32 * of_nat (Suc i)),
         next_hi := PCI_DMA_H (bus + 32 * of_nat (Suc i)), desc_control := DESC_MAGIC\<rparr>)) [0..<unat (cnt - 1)] ds) (\<lambda>ds.
     desc_at (virt + unat (cnt - 1)) (\<lambda>d. d\<lparr>next_lo := 0, next_hi := 0,
       desc_control := or DESC_MAGIC (or (or XDMA_DESC_STOPPED XDMA_DESC_EOP) XDMA_DESC_COMPLETED)\<rparr>) ds)"

text \<open>
  One transfer.  The scatter list is entered at its first entry each time, while the number of
  entries left is counted from where the last transfer stopped.
\<close>

definition aperture_build :: "u32 \<Rightarrow> bool \<Rightarrow> scatterlist \<Rightarrow> nat \<Rightarrow> nat \<Rightarrow> xdma_engine \<times> aperture_request \<Rightarrow> (xdma_engine \<times> aperture_request) res" where
  "aperture_build bmax dma_mapped sgl sg_max x = (\<lambda>(e, req).
     let idx = unat (en_desc_idx e); bus = en_desc_bus e + 32 * ucast (en_desc_idx e);
         ep_max = aq_ep_addr req + ucast (aq_aperture req) - 1;
         f = \<lparr>fl_ep = aq_ep_addr req + ucast (and (aq_offset req) (aq_aperture req - 1)), fl_sg_offset = aq_sg_offset req, fl_moved = 0,
              fl_idx = idx, fl_desc = en_desc e\<rparr> in
     rbind (aperture_fill (en_dir e) (min (aq_aperture req) bmax) (aq_ep_addr req) ep_max (unat (en_desc_max e)) sgl
         (sg_max - aq_sg_idx req) (aq_sg_idx req) 0 f) (\<lambda>(i, f).
     let cnt = of_nat (fl_idx f - idx);
         req = req\<lparr>aq_offset := aq_offset req + fl_moved f, aq_sg_offset := fl_sg_offset f, aq_sg_idx := i\<rparr>;
         xfer = zero_transfer\<lparr>xf_dir := en_dir e, xf_flags := (if dma_mapped then 0 else XFER_FLAG_NEED_UNMAP), xf_desc_virt := idx,
           xf_desc_bus := bus, xf_res_bus := en_result_bus e + 32 * ucast (en_desc_idx e), xf_desc_index := en_desc_idx e,
           xf_len := fl_moved f, xf_desc_adjacent := cnt, xf_desc_num := cnt, xf_desc_cmpl_th := cnt,
           xf_last_in_request := (aq_offset req = aq_total_len req)\<rparr> in
     rbind (aperture_link idx bus cnt (fl_desc f)) (\<lambda>ds.
     rbind (foldM (adjacent_step xfer) [0..<unat cnt] ds) (\<lambda>ds.
     if en_desc_max e = 0 then Inl DivByZero
     else Inr (e\<lparr>en_desc := ds, en_desc_used := en_desc_used e + cnt, en_desc_idx := (en_desc_idx e + cnt) mod en_desc_max e,
              en_xfers := (en_xfers e)(x := xfer)\<rparr>, req)))))"

text \<open>The loop, one transfer after the other; what is made of a transfer is the same as for other requests.\<close>

fun aperture_loop :: "engine_hw \<Rightarrow> module_params \<Rightarrow> 'h waiting \<Rightarrow> nat \<Rightarrow> bool \<Rightarrow> scatterlist \<Rightarrow> nat \<Rightarrow> nat \<Rightarrow> int \<Rightarrow>
    'h \<times> xdma_engine \<times> sg_table \<times> u32 list \<times> aperture_request \<Rightarrow> (int \<times> int \<times> 'h \<times> xdma_engine \<times> sg_table \<times> u32 list) res option" where
  "aperture_loop hw mp wait x dma_mapped sgl sg_max 0 done s = None"
| "aperture_loop hw mp wait x dma_mapped sgl sg_max (Suc fuel) done (h, e, sgt, unmaps, req) =
     (if aq_total_len req \<le> aq_offset req then Some (Inr (0, done, h, e, sgt, unmaps))
      else case rbind (aperture_build (desc_blen_max mp) dma_mapped sgl sg_max x (e, req)) (\<lambda>(e, req).
          let (rv, e) = transfer_queue hw mp x e in
          if rv < 0 then Inr (rv, done, h, e, sgt, unmaps, req)
          else
            let (h, e) = wait x (h, e) in
            rbind (xfer_outcome hw mp x done e) (\<lambda>(rv, done, _, e).
            rbind (transfer_destroy x (e\<lparr>en_desc_used := en_desc_used e - xf_desc_num (en_xfers e x)\<rparr>, sgt, unmaps)) (\<lambda>(e, sgt, unmaps).
            Inr (rv, done, h, e, sgt, unmaps, req)))) of
        Inl f \<Rightarrow> Some (Inl f)
      | Inr (rv, done, h, e, sgt, unmaps, req) \<Rightarrow>
          if rv < 0 then Some (Inr (rv, done, h, e, sgt, unmaps))
          else aperture_loop hw mp wait x dma_mapped sgl sg_max fuel done (h, e, sgt, unmaps, req))"

definition xdma_xfer_aperture :: "engine_hw \<Rightarrow> module_params \<Rightarrow> 'h waiting \<Rightarrow> bool \<Rightarrow> scatterlist \<Rightarrow> nat \<Rightarrow> nat \<Rightarrow> bool \<Rightarrow> u64 \<Rightarrow> u32 \<Rightarrow>
    bool \<Rightarrow> 'h \<times> xdma_engine option \<times> sg_table \<Rightarrow> (int \<times> 'h \<times> xdma_engine option \<times> sg_table \<times> u32 list) res option" where
  "xdma_xfer_aperture hw mp wait ok mapped fuel x write ep_addr aperture dma_mapped = (\<lambda>(h, engine, sgt). case engine of
     None \<Rightarrow> Some (Inr (- EINVAL, h, None, sgt, []))
   | Some e \<Rightarrow>
     if en_magic e \<noteq> MAGIC_ENGINE then Some (Inr (- EINVAL, h, Some e, sgt, []))
     else if en_offline e then Some (Inr (- EBUSY, h, Some e, sgt, []))
     else if en_dir e \<noteq> (if write then DMA_TO_DEVICE else DMA_FROM_DEVICE) then Some (Inr (- EINVAL, h, Some e, sgt, []))
     else if en_streaming e then Some (Inr (- EINVAL, h, Some e, sgt, []))
     else
       let sgt = (if dma_mapped then sgt else if mapped = [] then sgt\<lparr>st_nents := 0\<rparr>
                  else sgt\<lparr>st_sgl := mapped, st_nents := of_nat (length mapped)\<rparr>) in
       if st_nents sgt = 0 then Some (Inr (- EIO, h, Some e, sgt, []))
       else if \<not> ok then (let (r, h, e, sgt, unmaps) = submit_end dma_mapped (- ENOMEM, 0, h, e, sgt, []) in Some (Inr (r, h, Some e, sgt, unmaps)))
       else case foldM (\<lambda>i tlen. rbind (sg_at (st_sgl sgt) i) (\<lambda>(_, len). Inr (tlen + len))) [0..<unat (st_nents sgt)] 0 of
         Inl f \<Rightarrow> Some (Inl f)
       | Inr total_len \<Rightarrow>
         map_option (map_sum id (\<lambda>s. let (r, h, e, sgt, unmaps) = submit_end dma_mapped s in (r, h, Some e, sgt, unmaps)))
           (aperture_loop hw mp wait x dma_mapped (st_sgl sgt) (unat (st_nents sgt)) fuel 0 (h, e, sgt, [],
             \<lparr>aq_ep_addr = ep_addr, aq_aperture = aperture, aq_total_len = total_len, aq_offset = 0, aq_sg_idx = 0, aq_sg_offset = 0\<rparr>)))"

end
