(* ===== verification/Sgdma_Aperture_Props.thy ===== *)
theory Sgdma_Aperture_Props
  imports Sgdma_Aperture Sgdma_System
begin

text \<open>
  A transfer through an aperture, byte by byte: the endpoint's addresses run round the window.  The
  second transfer of a request, though, starts over at the first entry of the scatter list.
\<close>

subsection \<open>A piece\<close>

text \<open>The window: a first address and a size, without wrapping around 64 bits.\<close>

definition window_ok :: "u64 \<Rightarrow> u32 \<Rightarrow> bool" where
  "window_ok base ap \<longleftrightarrow> 0 < ap \<and> unat base + 2 * unat ap < 18446744073709551616"

definition in_window :: "u64 \<Rightarrow> u32 \<Rightarrow> u64 \<Rightarrow> bool" where
  "in_window base ap ep \<longleftrightarrow> unat base \<le> unat ep \<and> unat ep \<le> unat base + unat ap"

lemma unat_up: "unat (ucast (w :: u32) :: u64) = unat w"
  using unat_lt_u32[of w] by (simp add: unsigned_ucast_eq take_bit_nat_eq_self)

lemma unat_down: "unat (w :: u64) < 4294967296 \<Longrightarrow> unat (ucast w :: u32) = unat w"
  by (simp add: unsigned_ucast_eq take_bit_nat_eq_self)

lemma piece_ok:
  assumes w: "window_ok base ap" "in_window base ap ep" and t: "0 < tlen" "0 < maxlen" "maxlen \<le> ap"
    and p: "aperture_piece maxlen base (base + ucast ap - 1) tlen ep = (ep1, len)"
  shows "unat ep1 = unat base + (unat ep - unat base) mod unat ap"
    "unat len = min (min (unat tlen) (unat maxlen)) (unat ap - (unat ep - unat base) mod unat ap)"
    "0 < len" "len \<le> tlen" "in_window base ap (ep1 + ucast len)" "unat (ep1 + ucast len) = unat base + (unat ep - unat base) mod unat ap + unat len"
proof -
  let ?s = "unat ep - unat base"
  have A: "0 < unat ap" using w(1) by (simp add: window_ok_def word_less_nat_alt)
  have nw: "unat base + 2 * unat ap < 18446744073709551616" using w(1) by (simp add: window_ok_def)
  have ba: "unat (base + ucast ap) = unat base + unat ap" using nw by (subst unat_plus_no_wrap) (simp_all add: unat_up)
  have m: "unat (base + ucast ap - 1) = unat base + unat ap - 1" using ba A by (simp add: unat_minus_no_wrap)
  have s: "?s \<le> unat ap" using w(2) by (auto simp: in_window_def)
  have smod: "?s mod unat ap = (if ?s = unat ap then 0 else ?s)" using s A by auto
  have c: "base + ucast ap - 1 < ep \<longleftrightarrow> ?s = unat ap" using m w(2) A by (auto simp: word_less_nat_alt in_window_def)
  have e1: "ep1 = (if ?s = unat ap then base else ep)" using p by (simp add: aperture_piece_def Let_def c)
  show u1: "unat ep1 = unat base + ?s mod unat ap" unfolding smod using w(2) by (auto simp: e1 in_window_def)
  let ?l = "min tlen maxlen"
  have l: "unat ?l = min (unat tlen) (unat maxlen)" by (simp add: min_def word_le_nat_alt)
  have lA: "unat ?l \<le> unat ap" using l t(3) by (simp add: word_le_nat_alt)
  have k: "?s mod unat ap < unat ap" using A by simp
  have el: "unat (ep1 + ucast ?l) = unat base + ?s mod unat ap + unat ?l"
    using u1 lA k nw by (subst unat_plus_no_wrap) (simp_all add: unat_up)
  have le: "len = (if base + ucast ap - 1 < ep1 + ucast ?l then ucast (base + ucast ap - 1 - ep1 + 1) else ?l)"
  proof -
    note q = p[unfolded aperture_piece_def Let_def prod.inject]
    show ?thesis using conjunct2[OF q] unfolding conjunct1[OF q] by (rule sym)
  qed
  have d: "unat (ucast (base + ucast ap - 1 - ep1 + 1) :: u32) = unat ap - ?s mod unat ap"
  proof -
    have "base + ucast ap - 1 - ep1 + 1 = base + ucast ap - ep1" by simp
    also have "unat \<dots> = unat ap - ?s mod unat ap" using ba u1 k by (simp add: unat_minus_no_wrap)
    finally show ?thesis using unat_lt_u32[of ap] by (subst unat_down) simp_all
  qed
  show ul: "unat len = min (min (unat tlen) (unat maxlen)) (unat ap - ?s mod unat ap)"
  proof -
    have n: "(if B + A - 1 < B + r + L then A - r else L) = min L (A - r)" if "r < A" for A B r L :: nat using that by auto
    have "unat len = (if unat base + unat ap - 1 < unat base + ?s mod unat ap + unat ?l then unat ap - ?s mod unat ap else unat ?l)"
      unfolding le using d el m by (simp add: word_less_nat_alt)
    then show ?thesis unfolding n[OF k] l .
  qed
  show "0 < len" using ul t k by (simp add: word_less_nat_alt)
  show "len \<le> tlen" using ul by (simp add: word_le_nat_alt)
  have "unat len \<le> unat ap - ?s mod unat ap" by (simp add: ul)
  then have b: "unat base + ?s mod unat ap + unat len \<le> unat base + unat ap" using k by linarith
  have "unat (ep1 + ucast len) = unat base + ?s mod unat ap + unat len"
    using u1 b nw by (subst unat_plus_no_wrap) (simp_all add: unat_up)
  then show "in_window base ap (ep1 + ucast len)" "unat (ep1 + ucast len) = unat base + ?s mod unat ap + unat len" using b by (simp_all add: in_window_def)
qed

subsection \<open>Bytes\<close>

text \<open>The bytes of a list against the addresses of the window, from a place in it on.\<close>

definition through :: "dma_data_direction \<Rightarrow> u64 \<Rightarrow> u32 \<Rightarrow> nat \<Rightarrow> u64 list \<Rightarrow> (u64 \<times> u64) list" where
  "through dir base ap s bytes =
     (let eps = map (\<lambda>i. base + of_nat ((s + i) mod unat ap)) [0..<length bytes]
      in if dir = DMA_TO_DEVICE then zip bytes eps else zip eps bytes)"

lemma through_append: "through dir base ap s (xs @ ys) = through dir base ap s xs @ through dir base ap (s + length xs) ys"
proof -
  have "map (\<lambda>i. base + of_nat ((s + i) mod unat ap)) [0..<length xs + length ys] =
      map (\<lambda>i. base + of_nat ((s + i) mod unat ap)) [0..<length xs] @ map (\<lambda>i. base + of_nat ((s + length xs + i) mod unat ap)) [0..<length ys]"
    by (intro nth_equalityI) (auto simp: nth_append)
  then show ?thesis by (auto simp: through_def Let_def)
qed

lemma through_cong: "s mod unat ap = s' mod unat ap \<Longrightarrow> through dir base ap s bytes = through dir base ap s' bytes"
proof -
  assume "s mod unat ap = s' mod unat ap"
  then have "(s + i) mod unat ap = (s' + i) mod unat ap" for i by (rule mod_add_cong) simp
  then show ?thesis by (simp add: through_def)
qed

lemma through_Nil [simp]: "through dir base ap s [] = []"
  by (simp add: through_def)

lemma piece_bytes:
  assumes "unat ep1 = unat base + s mod unat ap" "unat len \<le> unat ap - s mod unat ap" "0 < unat ap"
  shows "copy_bytes (if dir = DMA_TO_DEVICE then (addr, ep1, len) else (ep1, addr, len)) = through dir base ap s (sg_span addr len)"
proof -
  have e: "ep1 = base + of_nat (s mod unat ap)" 
  proof -
    have "ep1 = of_nat (unat ep1)" by simp
    also have "\<dots> = base + of_nat (s mod unat ap)" unfolding assms(1) by simp
    finally show ?thesis .
  qed
  have "(s + k) mod unat ap = s mod unat ap + k" if "k < unat len" for k
  proof -
    have "s mod unat ap + k < unat ap" using that assms(2,3) by linarith
    then show ?thesis using mod_add_left_eq[of s "unat ap" k] by simp
  qed
  then have "map (\<lambda>i. base + of_nat ((s + i) mod unat ap)) [0..<unat len] = map (\<lambda>k. ep1 + of_nat k) [0..<unat len]"
    by (intro map_cong) (auto simp: e)
  then show ?thesis
    by (auto simp: through_def copy_bytes_def sg_span_def Let_def zip_map_map zip_same_conv_map intro!: nth_equalityI)
qed

definition ring_bytes :: "xdma_desc list \<Rightarrow> nat \<Rightarrow> nat \<Rightarrow> (u64 \<times> u64) list" where
  "ring_bytes ds a b = concat (map (\<lambda>k. copy_bytes (desc_copy (ds ! k))) [a..<b])"

lemma ring_bytes_split: "a \<le> b \<Longrightarrow> b \<le> c \<Longrightarrow> ring_bytes ds a c = ring_bytes ds a b @ ring_bytes ds b c"
proof -
  assume "a \<le> b" "b \<le> c"
  then have "[a..<c] = [a..<b] @ [b..<c]" by (metis le_Suc_ex upt_add_eq_append)
  then show ?thesis by (simp add: ring_bytes_def)
qed

lemma ring_bytes_cong: "(\<And>k. a \<le> k \<Longrightarrow> k < b \<Longrightarrow> desc_copy (ds ! k) = desc_copy (ds' ! k)) \<Longrightarrow> ring_bytes ds a b = ring_bytes ds' a b"
  unfolding ring_bytes_def by (intro arg_cong[of _ _ concat] map_cong) auto

lemma ring_bytes_one [simp]: "ring_bytes ds a (Suc a) = copy_bytes (desc_copy (ds ! a))" "ring_bytes ds a a = []"
  by (simp_all add: ring_bytes_def)

lemma set_copy: "desc_copy (xdma_desc_set addr ep len dir d) = (if dir = DMA_TO_DEVICE then (addr, ep, len) else (ep, addr, len))"
  by (simp add: desc_copy_def xdma_desc_set_def Let_def)

subsection \<open>Entries\<close>

definition filled_with :: "dma_data_direction \<Rightarrow> u64 \<Rightarrow> u32 \<Rightarrow> nat \<Rightarrow> u64 list \<Rightarrow> fill \<Rightarrow> fill \<Rightarrow> bool" where
  "filled_with dir base ap dmax bytes f f' \<longleftrightarrow> fl_idx f \<le> fl_idx f' \<and> fl_idx f' \<le> dmax \<and> length (fl_desc f') = length (fl_desc f) \<and>
     (\<forall>k<fl_idx f. fl_desc f' ! k = fl_desc f ! k) \<and> in_window base ap (fl_ep f') \<and>
     fl_moved f' = fl_moved f + of_nat (length bytes) \<and>
     ring_bytes (fl_desc f') (fl_idx f) (fl_idx f') = through dir base ap (unat (fl_ep f) - unat base) bytes \<and>
     (unat (fl_ep f') - unat base) mod unat ap = (unat (fl_ep f) - unat base + length bytes) mod unat ap"

lemma filled_trans:
  assumes "filled_with dir base ap dmax xs f g" "filled_with dir base ap dmax ys g h"
  shows "filled_with dir base ap dmax (xs @ ys) f h"
proof -
  have "ring_bytes (fl_desc h) (fl_idx f) (fl_idx h) = ring_bytes (fl_desc h) (fl_idx f) (fl_idx g) @ ring_bytes (fl_desc h) (fl_idx g) (fl_idx h)"
    using assms by (intro ring_bytes_split) (simp_all add: filled_with_def)
  also have "ring_bytes (fl_desc h) (fl_idx f) (fl_idx g) = ring_bytes (fl_desc g) (fl_idx f) (fl_idx g)"
    using assms by (intro ring_bytes_cong) (simp add: filled_with_def)
  finally have b: "ring_bytes (fl_desc h) (fl_idx f) (fl_idx h) = through dir base ap (unat (fl_ep f) - unat base) (xs @ ys)"
    using assms through_cong[of "unat (fl_ep g) - unat base" ap "unat (fl_ep f) - unat base + length xs" dir base ys]
    by (simp add: filled_with_def through_append)
  have "(unat (fl_ep h) - unat base) mod unat ap = (unat (fl_ep f) - unat base + length (xs @ ys)) mod unat ap"
  proof -
    have "(unat (fl_ep h) - unat base) mod unat ap = (unat (fl_ep g) - unat base + length ys) mod unat ap" using assms(2) by (simp add: filled_with_def)
    also have "\<dots> = (unat (fl_ep f) - unat base + length xs + length ys) mod unat ap"
      using assms(1) by (intro mod_add_cong) (simp_all add: filled_with_def)
    finally show ?thesis by (simp add: add.assoc)
  qed
  then show ?thesis using assms b by (auto simp: filled_with_def)
qed

lemma entry_filled:
  assumes w: "window_ok base ap" and m: "0 < maxlen" "maxlen \<le> ap"
    and "in_window base ap (fl_ep f)" "dmax \<le> length (fl_desc f)" "fl_idx f \<le> dmax"
  shows "\<exists>tl' f'. aperture_entry dir maxlen base (base + ucast ap - 1) dmax addr tlen f = Inr (tl', f') \<and> tl' \<le> tlen \<and>
    filled_with dir base ap dmax (sg_span addr (tlen - tl')) f f' \<and> (tl' = 0 \<or> fl_idx f' = dmax)"
  using assms
proof (induction dir maxlen base "base + ucast ap - 1" dmax addr tlen f rule: aperture_entry.induct)
  case (1 dir maxlen base dmax addr tlen f)
  let ?m = "base + ucast ap - 1"
  have A: "0 < unat ap" using "1.prems"(1) by (simp add: window_ok_def word_less_nat_alt)
  show ?case
  proof (cases "tlen = 0 \<or> dmax \<le> fl_idx f")
    case True
    then show ?thesis using "1.prems" by (subst aperture_entry.simps) (auto simp: filled_with_def sg_span_def)
  next
    case False
    obtain ep1 len where p: "aperture_piece maxlen base ?m tlen (fl_ep f) = (ep1, len)" by fastforce
    note k = piece_ok[OF "1.prems"(1,4) _ "1.prems"(2,3) p]
    have t: "0 < tlen" using False by (simp add: word_neq_0_conv)
    let ?ds = "(fl_desc f)[fl_idx f := xdma_desc_set addr ep1 len dir (fl_desc f ! fl_idx f)]"
    let ?f = "\<lparr>fl_ep = ep1 + ucast len, fl_sg_offset = fl_sg_offset f + len, fl_moved = fl_moved f + len, fl_idx = Suc (fl_idx f), fl_desc = ?ds\<rparr>"
    have i: "fl_idx f < length (fl_desc f)" using False "1.prems"(5) by simp
    then have d: "desc_at (fl_idx f) (xdma_desc_set addr ep1 len dir) (fl_desc f) = Inr ?ds" by (simp add: desc_at_def)
    have step: "aperture_entry dir maxlen base ?m dmax addr tlen f = aperture_entry dir maxlen base ?m dmax (addr + ucast len) (tlen - len) ?f"
      using False by (subst aperture_entry.simps) (simp add: p d)
    have l: "unat len \<le> unat ap - (unat (fl_ep f) - unat base) mod unat ap" unfolding k(2)[OF t] by simp
    have f: "filled_with dir base ap dmax (sg_span addr len) f ?f"
      using False i k(5,6)[OF t] piece_bytes[OF k(1)[OF t] l A, of dir addr]
      by (auto simp: filled_with_def set_copy sg_span_def mod_add_left_eq)
    obtain tl' f' where r: "aperture_entry dir maxlen base ?m dmax (addr + ucast len) (tlen - len) ?f = Inr (tl', f')" "tl' \<le> tlen - len"
      "filled_with dir base ap dmax (sg_span (addr + ucast len) (tlen - len - tl')) ?f f'" "tl' = 0 \<or> fl_idx f' = dmax"
      using "1.hyps"[OF False p[symmetric] refl d] "1.prems" False k(5)[OF t] by auto
    have "tl' \<le> tlen" using r(2) k(4)[OF t] by (meson order_trans word_sub_le)
    moreover have "len \<le> tlen - tl'" using r(2) k(4)[OF t] by (simp add: word_le_nat_alt unat_minus_no_wrap)
    then have "sg_span addr (tlen - tl') = sg_span addr len @ sg_span (addr + ucast len) (tlen - len - tl')"
      using sg_span_split[of len "tlen - tl'" addr] by (simp add: algebra_simps)
    ultimately show ?thesis using r filled_trans[OF f r(3)] by (simp add: step)
  qed
qed

definition list_span :: "scatterlist \<Rightarrow> u64 list" where
  "list_span sgl = concat (map (\<lambda>(a, l). sg_span a l) sgl)"

lemma fill_filled:
  assumes w: "window_ok base ap" and m: "0 < maxlen" "maxlen \<le> ap"
    and f: "in_window base ap (fl_ep f)" "dmax \<le> length (fl_desc f)" "fl_idx f \<le> dmax" "fl_sg_offset f = 0" and p: "p + n \<le> length sgl"
  shows "\<exists>i' f' bytes rest. aperture_fill dir maxlen base (base + ucast ap - 1) dmax sgl n i p f = Inr (i', f') \<and>
    filled_with dir base ap dmax bytes f f' \<and> list_span (take n (drop p sgl)) = bytes @ rest \<and> (rest = [] \<or> fl_idx f' = dmax)"
  using f p
proof (induction n arbitrary: i p f)
  case 0
  then show ?case by (auto simp: filled_with_def list_span_def intro!: exI[of _ "[]"])
next
  case (Suc n)
  show ?case
  proof (cases "dmax \<le> fl_idx f")
    case True
    then show ?thesis using Suc.prems
      by (intro exI[of _ i] exI[of _ f] exI[of _ "[]"] exI[of _ "list_span (take (Suc n) (drop p sgl))"]) (simp add: filled_with_def)
  next
    case False
    obtain a l where e: "sgl ! p = (a, l)" by (cases "sgl ! p")
    have s: "list_span (take (Suc n) (drop p sgl)) = sg_span a l @ list_span (take n (drop (Suc p) sgl))"
      using Suc.prems(5) e by (simp add: list_span_def Cons_nth_drop_Suc[symmetric])
    obtain tl' f1 where r: "aperture_entry dir maxlen base (base + ucast ap - 1) dmax a l f = Inr (tl', f1)" "tl' \<le> l"
      "filled_with dir base ap dmax (sg_span a (l - tl')) f f1" "tl' = 0 \<or> fl_idx f1 = dmax"
      using entry_filled[OF w m Suc.prems(1-3), of dir a l] by blast
    show ?thesis
    proof (cases "tl' = 0")
      case True
      let ?f = "f1\<lparr>fl_sg_offset := 0\<rparr>"
      have f1: "filled_with dir base ap dmax (sg_span a l) f ?f" using r(3) True by (simp add: filled_with_def)
      obtain i' f' bytes rest where g: "aperture_fill dir maxlen base (base + ucast ap - 1) dmax sgl n (Suc i) (Suc p) ?f = Inr (i', f')"
        "filled_with dir base ap dmax bytes ?f f'" "list_span (take n (drop (Suc p) sgl)) = bytes @ rest" "rest = [] \<or> fl_idx f' = dmax"
        using Suc.IH[of ?f "Suc p" "Suc i"] f1 Suc.prems by (auto simp: filled_with_def)
      have "aperture_fill dir maxlen base (base + ucast ap - 1) dmax sgl (Suc n) i p f = Inr (i', f')"
        using False Suc.prems(4,5) e r(1) True g(1) by (simp add: sg_at_def)
      then show ?thesis
        using filled_trans[OF f1 g(2)] g(3,4) unfolding s by (intro exI[of _ i'] exI[of _ f'] exI[of _ "sg_span a l @ bytes"] exI[of _ rest]) auto
    next
      case neq: False
      have "aperture_fill dir maxlen base (base + ucast ap - 1) dmax sgl (Suc n) i p f = Inr (i, f1)"
        using False Suc.prems(4,5) e r(1) neq by (simp add: sg_at_def)
      moreover have "sg_span a l = sg_span a (l - tl') @ sg_span (a + ucast (l - tl')) (l - (l - tl'))"
        using r(2) by (intro sg_span_split) (simp add: word_sub_le)
      then have "list_span (take (Suc n) (drop p sgl)) = sg_span a (l - tl') @ sg_span (a + ucast (l - tl')) (l - (l - tl')) @ list_span (take n (drop (Suc p) sgl))"
        unfolding s by simp
      ultimately show ?thesis using r(3,4) neq by blast
    qed
  qed
qed

subsection \<open>A transfer\<close>

lemma upd_copy:
  assumes "\<And>i d. desc_copy (f i d) = desc_copy d" "b \<le> length ds"
  shows "ring_bytes (upd_range v n f ds) a b = ring_bytes ds a b"
  using assms by (intro ring_bytes_cong) (simp add: upd_range_nth)

lemma link_ok:
  assumes "0 < n" "v + n \<le> length ds" "n < 4294967296"
  shows "\<exists>ds'. aperture_link v bus (of_nat n) ds = Inr ds' \<and> length ds' = length ds \<and> (\<forall>a b. b \<le> length ds \<longrightarrow> ring_bytes ds' a b = ring_bytes ds a b)"
proof -
  have c: "unat (of_nat n - 1 :: u32) = n - 1"
  proof -
    have u: "unat (of_nat n :: u32) = n" using assms(3) by (simp add: unat_of_nat)
    then show ?thesis using assms(1) by (simp add: unat_minus_no_wrap)
  qed
  let ?f = "\<lambda>i d. d\<lparr>next_lo := PCI_DMA_L (bus + 32 * of_nat (Suc i)), next_hi := PCI_DMA_H (bus + 32 * of_nat (Suc i)), desc_control := DESC_MAGIC\<rparr>"
  let ?l = "\<lambda>d. d\<lparr>next_lo := 0, next_hi := 0, desc_control := or DESC_MAGIC (or (or XDMA_DESC_STOPPED XDMA_DESC_EOP) XDMA_DESC_COMPLETED)\<rparr>"
  have "foldM (\<lambda>i. desc_at (v + i) (?f i)) [0..<n - 1] ds = Inr (upd_range v (n - 1) ?f ds)" using assms(2) by (intro desc_at_fold) simp
  moreover have "desc_at (v + (n - 1)) ?l (upd_range v (n - 1) ?f ds) =
      Inr (upd_range v n (\<lambda>k d. if k = n - 1 then ?l d else d) (upd_range v (n - 1) ?f ds))"
    using assms(1,2) by (intro desc_at_range) simp_all
  ultimately show ?thesis
    unfolding aperture_link_def c by (auto simp: upd_copy desc_copy_def)
qed

lemma adjacent_ok:
  assumes "xf_desc_virt xfer + n \<le> length ds"
  shows "\<exists>ds'. foldM (adjacent_step xfer) [0..<n] ds = Inr ds' \<and> length ds' = length ds \<and> (\<forall>a b. b \<le> length ds \<longrightarrow> ring_bytes ds' a b = ring_bytes ds a b)"
proof -
  let ?f = "\<lambda>i d. xdma_desc_adjacent (xdma_get_next_adj (xf_desc_num xfer - of_nat i - 1) (next_lo d)) d"
  have s: "adjacent_step xfer = (\<lambda>i. desc_at (xf_desc_virt xfer + i) (?f i))" by (simp add: adjacent_step_def fun_eq_iff)
  have "foldM (adjacent_step xfer) [0..<n] ds = Inr (upd_range (xf_desc_virt xfer) n ?f ds)"
    unfolding s using assms by (rule desc_at_fold)
  then show ?thesis by (simp add: upd_copy desc_copy_def xdma_desc_adjacent_def)
qed

lemma build_bytes:
  assumes "ring_ok e" and "window_ok (aq_ep_addr req) (aq_aperture req)" and "bmax \<noteq> 0" and "aq_sg_offset req = 0" and "aq_sg_idx req \<le> length sgl"
    and "list_span (take (length sgl - aq_sg_idx req) sgl) \<noteq> []"
  shows "\<exists>e' req' n bytes rest. aperture_build bmax dma_mapped sgl (length sgl) x (e, req) = Inr (e', req') \<and>
    list_span (take (length sgl - aq_sg_idx req) sgl) = bytes @ rest \<and> (rest = [] \<or> unat (en_desc_idx e) + n = unat (en_desc_max e)) \<and>
    0 < n \<and> xf_desc_num (en_xfers e' x) = of_nat n \<and> aq_offset req' = aq_offset req + of_nat (length bytes) \<and>
    ring_bytes (en_desc e') (unat (en_desc_idx e)) (unat (en_desc_idx e) + n) =
      through (en_dir e) (aq_ep_addr req) (aq_aperture req) (unat (and (aq_offset req) (aq_aperture req - 1))) bytes"
proof -
  define base ap where "base = aq_ep_addr req" and "ap = aq_aperture req"
  note ba = base_def[symmetric] ap_def[symmetric]
  let ?sgl = "take (length sgl - aq_sg_idx req) sgl"
  let ?i = "unat (en_desc_idx e)" and ?m = "unat (en_desc_max e)"
  let ?off = "and (aq_offset req) (ap - 1)"
  let ?f = "\<lparr>fl_ep = base + ucast ?off, fl_sg_offset = 0, fl_moved = 0, fl_idx = ?i, fl_desc = en_desc e\<rparr>"
  have r: "?i < ?m" "length (en_desc e) = ?m" "?m < 2147483648" using assms(1) by (simp_all add: ring_ok_def word_less_nat_alt)
  have A: "0 < ap" using assms(2) by (simp add: window_ok_def ba)
  have ml: "0 < min ap bmax" "min ap bmax \<le> ap" using A assms(3) by (simp_all add: word_neq_0_conv)
  have "?off \<le> ap - 1" by (rule word_and_le1)
  then have "unat ?off < unat ap" using A by (simp add: word_le_nat_alt word_less_nat_alt unat_minus_no_wrap)
  moreover from this have ep: "unat (base + ucast ?off) = unat base + unat ?off"
    using assms(2) by (subst unat_plus_no_wrap) (simp_all add: unat_up window_ok_def ba)
  ultimately have w: "in_window base ap (fl_ep ?f)" by (simp add: in_window_def)
  obtain i' f' bytes rest where g: "aperture_fill (en_dir e) (min ap bmax) base (base + ucast ap - 1) ?m sgl (length sgl - aq_sg_idx req) (aq_sg_idx req) 0 ?f = Inr (i', f')"
    "filled_with (en_dir e) base ap ?m bytes ?f f'" "list_span ?sgl = bytes @ rest" "rest = [] \<or> fl_idx f' = ?m"
    using fill_filled[OF assms(2)[unfolded ba] ml w, of ?m 0 "length sgl - aq_sg_idx req" sgl "en_dir e" "aq_sg_idx req"] r by auto
  define n where "n = fl_idx f' - ?i"
  have "?i \<le> fl_idx f'" "fl_idx f' \<le> ?m" using g(2) by (simp_all add: filled_with_def)
  then have n: "fl_idx f' = ?i + n" "n < 4294967296" "?i + n \<le> ?m" using r unfolding n_def by linarith+
  have n0: "0 < n"
  proof (rule ccontr)
    assume "\<not> 0 < n"
    then have "through (en_dir e) base ap (unat ?off) bytes = []" using g(2) n(1) by (simp add: filled_with_def ep)
    then have "bytes = []" by (auto simp: through_def Let_def zip_eq_Nil_iff split: if_splits)
    then show False using g(3,4) assms(6) n r \<open>\<not> 0 < n\<close> by auto
  qed
  have len: "length (fl_desc f') = ?m" using g(2) r by (simp add: filled_with_def)
  obtain ds1 where l: "aperture_link ?i (en_desc_bus e + 32 * ucast (en_desc_idx e)) (of_nat n) (fl_desc f') = Inr ds1" "length ds1 = ?m"
    "\<forall>a b. b \<le> ?m \<longrightarrow> ring_bytes ds1 a b = ring_bytes (fl_desc f') a b"
    using link_ok[of n ?i "fl_desc f'" "en_desc_bus e + 32 * ucast (en_desc_idx e)"] n n0 len by auto
  have u: "unat (of_nat n :: u32) = n" using n(2) by (simp add: unat_of_nat)
  have adj: "\<exists>ds2. foldM (adjacent_step xfer) [0..<n] ds1 = Inr ds2 \<and> length ds2 = ?m \<and> (\<forall>a b. b \<le> ?m \<longrightarrow> ring_bytes ds2 a b = ring_bytes ds1 a b)"
    if "xf_desc_virt xfer = ?i" for xfer using adjacent_ok[of xfer n ds1] that l(2) n(3) by auto
  let ?x = "zero_transfer\<lparr>xf_dir := en_dir e, xf_flags := (if dma_mapped then 0 else XFER_FLAG_NEED_UNMAP), xf_desc_virt := ?i,
           xf_desc_bus := en_desc_bus e + 32 * ucast (en_desc_idx e), xf_res_bus := en_result_bus e + 32 * ucast (en_desc_idx e), xf_desc_index := en_desc_idx e,
           xf_len := fl_moved f', xf_desc_adjacent := of_nat n, xf_desc_num := of_nat n, xf_desc_cmpl_th := of_nat n,
           xf_last_in_request := (aq_offset req + fl_moved f' = aq_total_len req)\<rparr>"
  obtain ds2 where d2: "foldM (adjacent_step ?x) [0..<n] ds1 = Inr ds2" "\<forall>a b. b \<le> ?m \<longrightarrow> ring_bytes ds2 a b = ring_bytes ds1 a b"
    using adj[of ?x] by auto
  have "en_desc_max e \<noteq> 0" using r by auto
  then have "aperture_build bmax dma_mapped sgl (length sgl) x (e, req) =
    Inr (e\<lparr>en_desc := ds2, en_desc_used := en_desc_used e + of_nat n, en_desc_idx := (en_desc_idx e + of_nat n) mod en_desc_max e,
           en_xfers := (en_xfers e)(x := ?x)\<rparr>,
         req\<lparr>aq_offset := aq_offset req + fl_moved f', aq_sg_offset := fl_sg_offset f', aq_sg_idx := i'\<rparr>)"
    using g(1) l(1) d2(1) u by (simp add: aperture_build_def Let_def n_def[symmetric] ba assms(4))
  moreover have "ring_bytes ds2 ?i (?i + n) = through (en_dir e) base ap (unat ?off) bytes"
    using d2(2) l(3) n(1,3) g(2) by (simp add: filled_with_def ep)
  moreover have "fl_moved f' = of_nat (length bytes)" using g(2) by (simp add: filled_with_def)
  ultimately show ?thesis unfolding ba using g(3,4) n(1) n0 by (intro exI conjI) (assumption | simp)+
qed

text \<open>
  C21: the first transfer through an aperture.  It fills the ring from the next descriptor on, to the
  end of the list or of the ring; its descriptors stand for the first bytes of the scatter list, in
  order, against the addresses of the window, taken round and round.
\<close>

theorem aperture_transfer_bytes:
  assumes "ring_ok e" and "window_ok base ap" and "bmax \<noteq> 0" and "list_span sgl \<noteq> []"
  shows "\<exists>e' req' n bytes rest. aperture_build bmax dma_mapped sgl (length sgl) x
      (e, \<lparr>aq_ep_addr = base, aq_aperture = ap, aq_total_len = total_len, aq_offset = 0, aq_sg_idx = 0, aq_sg_offset = 0\<rparr>) = Inr (e', req') \<and>
    list_span sgl = bytes @ rest \<and> (rest = [] \<or> unat (en_desc_idx e) + n = unat (en_desc_max e)) \<and>
    0 < n \<and> xf_desc_num (en_xfers e' x) = of_nat n \<and> aq_offset req' = of_nat (length bytes) \<and>
    ring_bytes (en_desc e') (unat (en_desc_idx e)) (unat (en_desc_idx e) + n) = through (en_dir e) base ap 0 bytes"
  using build_bytes[where req = "\<lparr>aq_ep_addr = base, aq_aperture = ap, aq_total_len = total_len, aq_offset = 0, aq_sg_idx = 0, aq_sg_offset = 0\<rparr>"
      and e = e and sgl = sgl and bmax = bmax and dma_mapped = dma_mapped and x = x] assms by simp

lemma aperture_transfer_bytes_witness:
  "\<exists>e' req' n bytes rest. aperture_build 4096 False [(0x1000, 3), (0x2000, 2)] (length [(0x1000 :: u64, 3 :: u32), (0x2000, 2)]) 7
      (demo_engine, \<lparr>aq_ep_addr = 0x80, aq_aperture = 4, aq_total_len = 5, aq_offset = 0, aq_sg_idx = 0, aq_sg_offset = 0\<rparr>) = Inr (e', req') \<and>
    0 < n \<and> ring_bytes (en_desc e') (unat (en_desc_idx demo_engine)) (unat (en_desc_idx demo_engine) + n) = through (en_dir demo_engine) 0x80 4 0 bytes \<and>
    list_span [(0x1000, 3), (0x2000, 2)] = bytes @ rest"
proof -
  have h: "ring_ok demo_engine" "window_ok 0x80 4" "(4096 :: u32) \<noteq> 0" "list_span [(0x1000, 3), (0x2000, 2)] \<noteq> []"
    by (simp_all add: ring_ok_def writeback_def demo_engine_def window_ok_def list_span_def sg_span_def)
  show ?thesis using aperture_transfer_bytes[OF h, of False 7 5] by blast
qed

text \<open>
  C40: the second transfer through an aperture.  When a transfer has stopped at the start of an entry
  that is not the first, the next one begins at the first entry again: its descriptors stand for bytes
  from the beginning of the list, as many entries of it as are left, and not for those left over.
\<close>

theorem aperture_second_transfer_restarts:
  assumes "ring_ok e" and "window_ok (aq_ep_addr req) (aq_aperture req)" and "bmax \<noteq> 0" and "aq_sg_offset req = 0"
    and "0 < aq_sg_idx req" and "aq_sg_idx req \<le> length sgl" and "list_span (take (length sgl - aq_sg_idx req) sgl) \<noteq> []"
  shows "\<exists>e' req' n bytes rest. aperture_build bmax dma_mapped sgl (length sgl) x (e, req) = Inr (e', req') \<and> 0 < n \<and>
    list_span (take (length sgl - aq_sg_idx req) sgl) = bytes @ rest \<and>
    ring_bytes (en_desc e') (unat (en_desc_idx e)) (unat (en_desc_idx e) + n) =
      through (en_dir e) (aq_ep_addr req) (aq_aperture req) (unat (and (aq_offset req) (aq_aperture req - 1))) bytes"
  using build_bytes[OF assms(1-4,6,7), of dma_mapped x] by blast

lemma aperture_second_transfer_restarts_witness:
  "\<exists>e' req' n bytes rest. aperture_build 4096 False [(0x1000, 3), (0x2000, 2)] (length [(0x1000 :: u64, 3 :: u32), (0x2000, 2)]) 7
      (demo_engine, \<lparr>aq_ep_addr = 0x80, aq_aperture = 0x100, aq_total_len = 5, aq_offset = 3, aq_sg_idx = 1, aq_sg_offset = 0\<rparr>) = Inr (e', req') \<and>
    0 < (n :: nat) \<and> [0x1000 :: u64, 0x1001, 0x1002] = bytes @ rest"
proof -
  let ?req = "\<lparr>aq_ep_addr = 0x80, aq_aperture = 0x100, aq_total_len = 5, aq_offset = 3, aq_sg_idx = 1, aq_sg_offset = 0\<rparr> :: aperture_request"
  let ?sgl = "[(0x1000, 3), (0x2000, 2)] :: scatterlist"
  have s: "list_span (take (length ?sgl - aq_sg_idx ?req) ?sgl) = [0x1000, 0x1001, 0x1002]"
    by (simp add: list_span_def sg_span_def upt_rec)
  have h: "ring_ok demo_engine" "window_ok (aq_ep_addr ?req) (aq_aperture ?req)" "(4096 :: u32) \<noteq> 0" "aq_sg_offset ?req = 0" "0 < aq_sg_idx ?req"
    "aq_sg_idx ?req \<le> length ?sgl" "list_span (take (length ?sgl - aq_sg_idx ?req) ?sgl) \<noteq> []"
    unfolding s by (simp_all add: ring_ok_def writeback_def demo_engine_def window_ok_def)
  from aperture_second_transfer_restarts[OF h, of False 7] show ?thesis
    unfolding s by blast
qed

end
