(* ===== verification/Qdma_List.thy ===== *)
theory Qdma_List
  imports Prelude
begin

text \<open>
  The intrusive doubly linked list of the QDMA access library (\<open>qdma_list.c\<close>).  Nodes are
  addresses, \<open>0\<close> is the null pointer, and the heap holds the two link fields of every node.  The
  contract of the operations is a locale over an abstract list; the pointer operations are an
  interpretation of it, so that the components above may speak of lists of entries.
\<close>

type_synonym ptr = nat

record heap =
  h_prev :: "ptr \<Rightarrow> ptr"
  h_next :: "ptr \<Rightarrow> ptr"

definition set_next :: "ptr \<Rightarrow> ptr \<Rightarrow> heap \<Rightarrow> heap" where
  "set_next p q h = h\<lparr>h_next := (h_next h)(p := q)\<rparr>"

definition set_prev :: "ptr \<Rightarrow> ptr \<Rightarrow> heap \<Rightarrow> heap" where
  "set_prev p q h = h\<lparr>h_prev := (h_prev h)(p := q)\<rparr>"

subsection \<open>The code\<close>

definition qdma_list_init_head :: "ptr \<Rightarrow> heap \<Rightarrow> heap" where
  "qdma_list_init_head head h = (if head \<noteq> 0 then set_prev head head (set_next head head h) else h)"

definition qdma_list_add_tail :: "ptr \<Rightarrow> ptr \<Rightarrow> heap \<Rightarrow> heap" where
  "qdma_list_add_tail node head h =
     (let h = set_next (h_prev h head) node h;
          h = set_next node head h;
          h = set_prev node (h_prev h head) h
      in set_prev head node h)"

definition qdma_list_insert_before :: "ptr \<Rightarrow> ptr \<Rightarrow> heap \<Rightarrow> heap" where
  "qdma_list_insert_before new_node node h =
     (let h = set_next (h_prev h node) new_node h;
          h = set_prev new_node (h_prev h node) h;
          h = set_next new_node node h
      in set_prev node new_node h)"

definition qdma_list_insert_after :: "ptr \<Rightarrow> ptr \<Rightarrow> heap \<Rightarrow> heap" where
  "qdma_list_insert_after new_node node h =
     (let h = set_prev new_node node h;
          h = set_next new_node (h_next h node) h;
          h = set_prev (h_next h node) new_node h
      in set_next node new_node h)"

definition qdma_list_del :: "ptr \<Rightarrow> heap \<Rightarrow> heap" where
  "qdma_list_del node h =
     (if node \<noteq> 0 then
        let h = (if h_prev h node \<noteq> 0 then set_next (h_prev h node) (h_next h node) h else h)
        in if h_next h node \<noteq> 0 then set_prev (h_next h node) (h_prev h node) h else h
      else h)"

definition qdma_list_is_last_entry :: "ptr \<Rightarrow> ptr \<Rightarrow> heap \<Rightarrow> bool" where
  "qdma_list_is_last_entry entry head h \<longleftrightarrow> h_next h entry = head"

definition qdma_list_is_empty :: "ptr \<Rightarrow> heap \<Rightarrow> bool" where
  "qdma_list_is_empty head h \<longleftrightarrow> h_next h head = head"

text \<open>
  \<open>qdma_list_for_each_safe\<close>: the successor is read before the body runs, so the body may delete the
  node it is given.  The fuel bounds the number of nodes visited; running out of it is \<open>None\<close>.
\<close>

fun for_each_safe :: "nat \<Rightarrow> (ptr \<Rightarrow> heap \<Rightarrow> 's \<Rightarrow> heap \<times> 's) \<Rightarrow> ptr \<Rightarrow> ptr \<Rightarrow> heap \<Rightarrow> 's \<Rightarrow> (heap \<times> 's) option" where
  "for_each_safe 0 body head pos h s = None"
| "for_each_safe (Suc n) body head pos h s =
     (if pos = head then Some (h, s)
      else let nxt = h_next h pos; (h, s) = body pos h s in for_each_safe n body head nxt h s)"

definition qdma_list_for_each_safe ::
  "nat \<Rightarrow> (ptr \<Rightarrow> heap \<Rightarrow> 's \<Rightarrow> heap \<times> 's) \<Rightarrow> ptr \<Rightarrow> heap \<Rightarrow> 's \<Rightarrow> (heap \<times> 's) option" where
  "qdma_list_for_each_safe fuel body head h s = for_each_safe fuel body head (h_next h head) h s"

subsection \<open>Representation\<close>

fun links :: "heap \<Rightarrow> ptr list \<Rightarrow> bool" where
  "links h (x # y # zs) \<longleftrightarrow> h_next h x = y \<and> h_prev h y = x \<and> links h (y # zs)"
| "links h _ \<longleftrightarrow> True"

definition is_list :: "heap \<Rightarrow> ptr \<Rightarrow> ptr list \<Rightarrow> bool" where
  "is_list h head xs \<longleftrightarrow> distinct (head # xs) \<and> 0 \<notin> set (head # xs) \<and> links h (head # xs @ [head])"

lemma links_append: "links h (xs @ y # zs) \<longleftrightarrow> links h (xs @ [y]) \<and> links h (y # zs)"
  by (induction h xs rule: links.induct) auto

lemma links_frame:
  assumes "\<And>x. x \<in> set (butlast xs) \<Longrightarrow> h_next h' x = h_next h x"
    and "\<And>x. x \<in> set (tl xs) \<Longrightarrow> h_prev h' x = h_prev h x"
  shows "links h' xs = links h xs"
  using assms by (induction h xs rule: links.induct) auto

text \<open>
  Every operation cuts the cycle at one link: what lies before the cut ends in the node whose
  successor changes, and what lies behind it begins with the node whose predecessor changes.
\<close>

lemma links_cut:
  assumes "links h (as @ [a])" "links h (b # bs)"
    and "a \<notin> set as" "n \<notin> set as" "b \<notin> set (tl (as @ [a]))" "n \<notin> set (tl (as @ [a]))"
    and "a \<notin> set (butlast (b # bs))" "n \<notin> set (butlast (b # bs))" "b \<notin> set bs" "n \<notin> set bs"
    and "n \<noteq> a" "n \<noteq> b"
    and h': "h_next h' = (h_next h)(a := n, n := b)" "h_prev h' = (h_prev h)(n := a, b := n)"
  shows "links h' (as @ a # n # b # bs)"
proof -
  have "links h' (as @ [a]) = links h (as @ [a])"
    using assms(3-6) by (intro links_frame) (auto simp: h')
  moreover have "links h' (b # bs) = links h (b # bs)"
    using assms(7-10) by (intro links_frame) (auto simp: h')
  moreover have "h_next h' a = n" "h_prev h' n = a" "h_next h' n = b" "h_prev h' b = n"
    using assms(11,12) by (simp_all add: h')
  ultimately show ?thesis
    using assms(1,2) links_append[of h' as a "n # b # bs"] by simp
qed

lemma cycle_cut:
  assumes "is_list h head (ys @ zs)"
  obtains as a b bs where "head # ys = as @ [a]" "zs @ [head] = b # bs" "links h (as @ [a])" "links h (b # bs)"
    "h_next h a = b" "h_prev h b = a"
proof -
  obtain as a where A: "head # ys = as @ [a]" by (metis rev_exhaust list.discI)
  obtain b bs where B: "zs @ [head] = b # bs" by (cases zs) auto
  have "links h ((head # ys) @ (zs @ [head]))" using assms by (simp add: is_list_def)
  then have "links h (as @ a # b # bs)" unfolding A B by simp
  then show ?thesis using that[OF A B] links_append[of h as a "b # bs"] by simp
qed

lemma cut_facts:
  assumes A: "head # ys = as @ [a]" and B: "zs @ [head] = b # bs" and d: "distinct (head # ys @ zs)"
  shows "tl (as @ [a]) = ys" "butlast (b # bs) = zs" "a \<notin> set as" "b \<notin> set bs" "b \<notin> set ys" "a \<notin> set zs"
    "set as \<subseteq> insert head (set ys)" "set bs \<subseteq> insert head (set zs)" "a \<in> insert head (set ys)"
    "b \<in> insert head (set zs)" "last (head # ys) = a" "hd (zs @ [head]) = b"
proof -
  show "tl (as @ [a]) = ys" using A by (metis list.sel(3))
  show "butlast (b # bs) = zs" using B by (metis butlast_snoc)
  show a: "last (head # ys) = a" and b: "hd (zs @ [head]) = b" using A B by simp_all
  have "distinct (head # ys)" "distinct (zs @ [head])" using d by auto
  then show "a \<notin> set as" "b \<notin> set bs" unfolding A B by simp_all
  have sA: "insert head (set ys) = insert a (set as)" using arg_cong[OF A, of set] by simp
  have sB: "insert head (set zs) = insert b (set bs)" using arg_cong[OF B, of set] by simp
  show aA: "a \<in> insert head (set ys)" and bB: "b \<in> insert head (set zs)" unfolding sA sB by simp_all
  show "set as \<subseteq> insert head (set ys)" "set bs \<subseteq> insert head (set zs)" unfolding sA sB by auto
  show "b \<notin> set ys" "a \<notin> set zs" using aA bB d by auto
qed

lemma insert_cut:
  assumes l: "is_list h head (ys @ zs)" and n: "n \<notin> set (head # ys @ zs)" "n \<noteq> 0"
    and h': "h_next h' = (h_next h)(last (head # ys) := n, n := hd (zs @ [head]))"
      "h_prev h' = (h_prev h)(n := last (head # ys), hd (zs @ [head]) := n)"
  shows "is_list h' head (ys @ n # zs)"
proof -
  obtain as a b bs where c: "head # ys = as @ [a]" "zs @ [head] = b # bs" "links h (as @ [a])" "links h (b # bs)"
    using cycle_cut[OF l] by metis
  have d: "distinct (head # ys @ zs)" "0 \<notin> set (head # ys @ zs)" using l by (simp_all add: is_list_def)
  note f = cut_facts[OF c(1,2) d(1)]
  have nf: "n \<notin> set as" "n \<notin> set bs" "n \<noteq> a" "n \<noteq> b" "n \<notin> set ys" "n \<notin> set zs" using f(7-10) n(1) by auto
  have "links h' (as @ a # n # b # bs)"
    by (rule links_cut[OF c(3,4)]) (use f(1-6) nf h'[unfolded f(11,12)] in simp_all)
  moreover have "as @ a # n # b # bs = (head # ys) @ n # (zs @ [head])" unfolding c(1,2) by simp
  ultimately show ?thesis using d n by (simp add: is_list_def)
qed

lemma delete_cut:
  assumes l: "is_list h head (ys @ n # zs)"
    and h': "h_next h' = (h_next h)(last (head # ys) := hd (zs @ [head]))"
      "h_prev h' = (h_prev h)(hd (zs @ [head]) := last (head # ys))"
  shows "is_list h' head (ys @ zs)"
proof -
  obtain as a where A: "head # ys = as @ [a]" by (metis rev_exhaust list.discI)
  obtain b bs where B: "zs @ [head] = b # bs" by (cases zs) auto
  have d: "distinct (head # ys @ zs)" "0 \<notin> set (head # ys @ zs)" using l by (simp_all add: is_list_def)
  note f = cut_facts[OF A B d(1)]
  have "links h ((head # ys) @ n # (zs @ [head]))" using l by (simp add: is_list_def)
  then have "links h (as @ a # n # b # bs)" unfolding A B by simp
  then have old: "links h (as @ [a])" "links h (b # bs)"
    using links_append[of h as a "n # b # bs"] by simp_all
  have nx: "h_next h' = (h_next h)(a := b)" and pv: "h_prev h' = (h_prev h)(b := a)"
    using h' by (simp_all only: f(11,12))
  have "links h' (as @ [a]) = links h (as @ [a])"
    by (rule links_frame) (use f in \<open>auto simp: nx pv\<close>)
  moreover have "links h' (b # bs) = links h (b # bs)"
  proof (rule links_frame)
    fix x assume "x \<in> set (butlast (b # bs))"
    then show "h_next h' x = h_next h x" using f(2,6) by (auto simp: nx)
  qed (use f(4) in \<open>auto simp: pv\<close>)
  ultimately have "links h' (as @ a # b # bs)"
    using old links_append[of h' as a "b # bs"] by (simp add: nx pv)
  moreover have "as @ a # b # bs = (head # ys) @ (zs @ [head])" unfolding A B by simp
  ultimately show ?thesis using d by (simp add: is_list_def)
qed

subsection \<open>The operations on the represented list\<close>

lemma is_list_ends:
  assumes "is_list h head (ys @ zs)"
  shows "h_next h (last (head # ys)) = hd (zs @ [head])" "h_prev h (hd (zs @ [head])) = last (head # ys)"
proof -
  obtain as a b bs where c: "head # ys = as @ [a]" "zs @ [head] = b # bs" "h_next h a = b" "h_prev h b = a"
    using cycle_cut[OF assms] by metis
  then show "h_next h (last (head # ys)) = hd (zs @ [head])" "h_prev h (hd (zs @ [head])) = last (head # ys)"
    by (simp_all del: last.simps)
qed

lemma is_list_neighbours:
  assumes "is_list h head (ys @ node # zs)"
  shows "h_prev h node = last (head # ys)" "h_next h node = hd (zs @ [head])"
  using is_list_ends[OF assms] is_list_ends[of h head "ys @ [node]" zs] assms by simp_all

lemmas link_defs = set_next_def set_prev_def Let_def

lemma init_head_ok: "head \<noteq> 0 \<Longrightarrow> is_list (qdma_list_init_head head h) head []"
  by (simp add: qdma_list_init_head_def is_list_def link_defs)

lemma add_tail_ok:
  assumes "is_list h head xs" "n \<noteq> 0" "n \<notin> set (head # xs)"
  shows "is_list (qdma_list_add_tail n head h) head (xs @ [n])"
  by (rule insert_cut[of h head xs "[]"])
    (use assms is_list_ends(2)[of h head xs "[]"] in \<open>simp_all add: qdma_list_add_tail_def link_defs\<close>)

lemma insert_before_ok:
  assumes "is_list h head (ys @ node # zs)" "n \<noteq> 0" "n \<notin> set (head # ys @ node # zs)"
  shows "is_list (qdma_list_insert_before n node h) head (ys @ n # node # zs)"
  by (rule insert_cut[of h head ys "node # zs"])
    (use assms is_list_neighbours(1)[OF assms(1)] in \<open>simp_all add: qdma_list_insert_before_def link_defs\<close>)

lemma insert_after_ok:
  assumes "is_list h head (ys @ node # zs)" "n \<noteq> 0" "n \<notin> set (head # ys @ node # zs)"
  shows "is_list (qdma_list_insert_after n node h) head (ys @ node # n # zs)"
proof -
  have "is_list (qdma_list_insert_after n node h) head ((ys @ [node]) @ n # zs)"
    by (rule insert_cut[of h head "ys @ [node]" zs])
      (use assms is_list_neighbours(2)[OF assms(1)] in
        \<open>simp_all add: qdma_list_insert_after_def link_defs fun_upd_twist\<close>)
  then show ?thesis by simp
qed

lemma del_ok:
  assumes "is_list h head (ys @ node # zs)"
  shows "is_list (qdma_list_del node h) head (ys @ zs)"
proof -
  have nz: "node \<noteq> 0" "last (head # ys) \<noteq> 0" "hd (zs @ [head]) \<noteq> 0" "node \<noteq> last (head # ys)"
    using assms last_in_set[of "head # ys"] hd_in_set[of "zs @ [head]"]
    by (auto simp: is_list_def simp del: last.simps split: if_splits)
  show ?thesis
    by (rule delete_cut[OF assms]) (use is_list_neighbours[OF assms] nz in
      \<open>simp_all add: qdma_list_del_def link_defs del: last.simps\<close>)
qed

lemma is_empty_ok: "is_list h head xs \<Longrightarrow> qdma_list_is_empty head h = (xs = [])"
  using is_list_ends(1)[of h head "[]" xs]
  by (cases xs) (auto simp: qdma_list_is_empty_def is_list_def)

lemma is_last_entry_ok:
  "is_list h head (ys @ node # zs) \<Longrightarrow> qdma_list_is_last_entry node head h = (zs = [])"
  using is_list_neighbours(2)[of h head ys node zs]
  by (cases zs) (auto simp: qdma_list_is_last_entry_def is_list_def)

subsection \<open>The contract\<close>

locale dlist =
  fixes rep :: "'h \<Rightarrow> 'p \<Rightarrow> 'p list \<Rightarrow> bool"
    and valid :: "'p \<Rightarrow> bool"
    and init :: "'p \<Rightarrow> 'h \<Rightarrow> 'h"
    and add_tail :: "'p \<Rightarrow> 'p \<Rightarrow> 'h \<Rightarrow> 'h"
    and before :: "'p \<Rightarrow> 'p \<Rightarrow> 'h \<Rightarrow> 'h"
    and after :: "'p \<Rightarrow> 'p \<Rightarrow> 'h \<Rightarrow> 'h"
    and del :: "'p \<Rightarrow> 'h \<Rightarrow> 'h"
  assumes rep_distinct: "rep h r xs \<Longrightarrow> distinct (r # xs)"
    and rep_init: "valid r \<Longrightarrow> rep (init r h) r []"
    and rep_add_tail: "rep h r xs \<Longrightarrow> valid n \<Longrightarrow> n \<notin> set (r # xs) \<Longrightarrow> rep (add_tail n r h) r (xs @ [n])"
    and rep_before: "rep h r (ys @ x # zs) \<Longrightarrow> valid n \<Longrightarrow> n \<notin> set (r # ys @ x # zs) \<Longrightarrow>
      rep (before n x h) r (ys @ n # x # zs)"
    and rep_after: "rep h r (ys @ x # zs) \<Longrightarrow> valid n \<Longrightarrow> n \<notin> set (r # ys @ x # zs) \<Longrightarrow>
      rep (after n x h) r (ys @ x # n # zs)"
    and rep_del: "rep h r (ys @ x # zs) \<Longrightarrow> rep (del x h) r (ys @ zs)"
begin

lemma add_all:
  assumes "rep h r xs" "\<forall>n \<in> set ns. valid n" "distinct (r # xs @ ns)"
  shows "rep (fold (\<lambda>n. add_tail n r) ns h) r (xs @ ns)"
  using assms
proof (induction ns arbitrary: h xs)
  case (Cons n ns)
  have "rep (add_tail n r h) r (xs @ [n])" using Cons.prems by (intro rep_add_tail) auto
  from Cons.IH[OF this] Cons.prems show ?case by simp
qed simp

lemma build: "valid r \<Longrightarrow> \<forall>n \<in> set ns. valid n \<Longrightarrow> distinct (r # ns) \<Longrightarrow>
  rep (fold (\<lambda>n. add_tail n r) ns (init r h)) r ns"
  using add_all[OF rep_init] by simp

lemma del_all: "rep h r (ys @ xs) \<Longrightarrow> rep (fold del xs h) r ys"
proof (induction xs arbitrary: h)
  case (Cons x xs)
  from Cons.IH[OF rep_del[of h r ys x xs]] Cons.prems show ?case by simp
qed simp

lemma before_del: "rep h r (ys @ x # zs) \<Longrightarrow> valid n \<Longrightarrow> n \<notin> set (r # ys @ x # zs) \<Longrightarrow>
  rep (del n (before n x h)) r (ys @ x # zs)"
  by (rule rep_del) (rule rep_before)

end

interpretation qdma_list: dlist is_list "\<lambda>p. p \<noteq> 0" qdma_list_init_head qdma_list_add_tail
  qdma_list_insert_before qdma_list_insert_after qdma_list_del
  by unfold_locales
    (simp_all add: init_head_ok add_tail_ok insert_before_ok insert_after_ok del_ok, simp add: is_list_def)

subsection \<open>Traversal\<close>

text \<open>
  A body that at most unlinks the node it is given leaves the rest of the list to be visited, so
  the loop runs through the list it started with and stops.
\<close>

lemma for_each_ok:
  assumes step: "\<And>ys p zs h s h' s'. is_list h head (ys @ p # zs) \<Longrightarrow> I (p # zs) ys s \<Longrightarrow> body p h s = (h', s') \<Longrightarrow>
      \<exists>ys'. is_list h' head (ys' @ zs) \<and> I zs ys' s'"
  shows "is_list h head (ys @ zs) \<Longrightarrow> I zs ys s \<Longrightarrow> length zs < fuel \<Longrightarrow>
    \<exists>h' s' ys'. for_each_safe fuel body head (hd (zs @ [head])) h s = Some (h', s') \<and> is_list h' head ys' \<and> I [] ys' s'"
proof (induction zs arbitrary: fuel ys h s)
  case Nil
  then show ?case by (cases fuel) auto
next
  case (Cons p zs)
  then obtain n where f: "fuel = Suc n" "length zs < n" by (cases fuel) auto
  have p: "p \<noteq> head" "h_next h p = hd (zs @ [head])"
    using Cons.prems(1) is_list_neighbours(2)[OF Cons.prems(1)] by (auto simp: is_list_def)
  obtain h1 s1 where b: "body p h s = (h1, s1)" by (cases "body p h s")
  obtain ys1 where "is_list h1 head (ys1 @ zs)" "I zs ys1 s1"
    using step[OF Cons.prems(1,2) b] by blast
  from Cons.IH[OF this f(2)] show ?case using p by (simp add: f(1) b Let_def)
qed

subsection \<open>Properties\<close>

text \<open>
  C31: the pointer operations implement their list meaning: on a well-formed ring that holds
  \<open>ys @ node # zs\<close>, with a new node that is not in it, adding at the tail appends, inserting before
  and after puts the new node next to \<open>node\<close>, deleting removes \<open>node\<close> and nothing else, and the
  ring is well formed afterwards; the two tests answer for the list.
\<close>

theorem qdma_list_refines_list:
  assumes "is_list h head (ys @ node # zs)" "n \<noteq> 0" "n \<notin> set (head # ys @ node # zs)"
  shows "is_list (qdma_list_add_tail n head h) head (ys @ node # zs @ [n]) \<and>
     is_list (qdma_list_insert_before n node h) head (ys @ n # node # zs) \<and>
     is_list (qdma_list_insert_after n node h) head (ys @ node # n # zs) \<and>
     is_list (qdma_list_del node h) head (ys @ zs) \<and>
     \<not> qdma_list_is_empty head h \<and> qdma_list_is_last_entry node head h = (zs = [])"
  using qdma_list.rep_add_tail[OF assms] qdma_list.rep_before[OF assms] qdma_list.rep_after[OF assms]
    qdma_list.rep_del[OF assms(1)] is_empty_ok[OF assms(1)] is_last_entry_ok[OF assms(1)] by simp

lemma demo_ring: "is_list (fold (\<lambda>n. qdma_list_add_tail n 1) [2, 3, 4]
    (qdma_list_init_head 1 \<lparr>h_prev = (\<lambda>_. 0), h_next = (\<lambda>_. 0)\<rparr>)) 1 [2, 3, 4]"
  by (rule qdma_list.build) simp_all

theorem qdma_list_refines_list_witness:
  "let h = fold (\<lambda>n. qdma_list_add_tail n 1) [2, 3, 4]
     (qdma_list_init_head 1 \<lparr>h_prev = (\<lambda>_. 0), h_next = (\<lambda>_. 0)\<rparr>)
   in is_list (qdma_list_del 3 h) 1 [2, 4] \<and> is_list (qdma_list_insert_before 9 3 h) 1 [2, 9, 3, 4]"
proof -
  let ?h = "fold (\<lambda>n. qdma_list_add_tail n 1) [2, 3, 4]
     (qdma_list_init_head 1 \<lparr>h_prev = (\<lambda>_. 0), h_next = (\<lambda>_. 0)\<rparr>)"
  have "is_list ?h 1 ([2] @ 3 # [4])" using demo_ring by simp
  from qdma_list_refines_list[OF this, of 9] show ?thesis by (simp add: Let_def)
qed

text \<open>
  C32: the deletion-safe traversal visits every node of the ring once, in order, and ends, also when
  its body unlinks each node it is given; then the ring is empty afterwards.  One step of fuel
  more than the ring has nodes is enough.
\<close>

theorem for_each_safe_empties_list:
  assumes "is_list h head xs" "length xs < fuel"
  shows "\<exists>h'. qdma_list_for_each_safe fuel (\<lambda>p h s. (qdma_list_del p h, s @ [p])) head h [] = Some (h', xs) \<and>
     is_list h' head []"
proof -
  define I where "I zs ys s \<longleftrightarrow> ys = [] \<and> s @ zs = xs" for zs ys s :: "ptr list"
  have "\<exists>h' s' ys'. for_each_safe fuel (\<lambda>p h s. (qdma_list_del p h, s @ [p])) head (hd (xs @ [head])) h [] = Some (h', s') \<and>
      is_list h' head ys' \<and> I [] ys' s'"
  proof (rule for_each_ok[where I = I and ys = "[]"])
    fix ys p zs h s h' s' assume a: "is_list h head (ys @ p # zs)" "I (p # zs) ys s"
      "(qdma_list_del p h, s @ [p]) = (h', s' :: ptr list)"
    then have "is_list h' head (ys @ zs) \<and> I zs ys s'" using del_ok[OF a(1)] by (auto simp: I_def)
    then show "\<exists>ys'. is_list h' head (ys' @ zs) \<and> I zs ys' s'" ..
  qed (use assms in \<open>simp_all add: I_def\<close>)
  moreover have "h_next h head = hd (xs @ [head])" using is_list_ends(1)[of h head "[]" xs] assms by simp
  ultimately show ?thesis by (auto simp: qdma_list_for_each_safe_def I_def)
qed

theorem for_each_safe_empties_list_witness:
  "\<exists>h'. qdma_list_for_each_safe 4 (\<lambda>p h s. (qdma_list_del p h, s @ [p])) 1
     (fold (\<lambda>n. qdma_list_add_tail n 1) [2, 3, 4]
       (qdma_list_init_head 1 \<lparr>h_prev = (\<lambda>_. 0), h_next = (\<lambda>_. 0)\<rparr>)) [] = Some (h', [2, 3, 4]) \<and>
     is_list h' 1 []"
  by (rule for_each_safe_empties_list[OF demo_ring]) simp

end
