(* ===== verification/Qdma_Resource.thy ===== *)
theory Qdma_Resource
  imports Qdma_List
begin

text \<open>
  The queue resource manager of the QDMA access library (\<open>qdma_resource_mgmt.c\<close>): for every DMA
  device, a range of hardware queues is divided between a sorted list of free ranges and the
  functions of the device.  The lists are HOL lists, which the ring operations of \<open>qdma_list.c\<close>
  implement; a pointer into one is an index.  Whether an allocation succeeds is decided by a list
  of outcomes that every \<open>qdma_calloc\<close> consumes, an exhausted list standing for success.  The locks
  make every operation atomic and are not modelled.
\<close>

subsection \<open>State\<close>

record qdma_resource_entry =
  qbase :: s32
  total_q :: u32

record qdma_dev_entry =
  func_id :: u16
  active_h2c_qcnt :: u32
  active_c2h_qcnt :: u32
  active_cmpt_qcnt :: u32
  dev_q :: qdma_resource_entry

record qdma_resource_master =
  dma_device_index :: u32
  pci_bus_start :: u32
  pci_bus_end :: u32
  res_total_q :: u32
  res_qbase :: s32
  dev_list :: "qdma_dev_entry list"
  free_list :: "qdma_resource_entry list"
  active_qcnt :: u32

record qdma_rm =
  master_resource_list :: "qdma_resource_master list"
  rm_index :: u32
  callocs :: "bool list"

datatype qdma_dev_q_type = QDMA_DEV_Q_TYPE_H2C | QDMA_DEV_Q_TYPE_C2H | QDMA_DEV_Q_TYPE_CMPT | QDMA_DEV_Q_TYPE_MAX

datatype qdma_dev_q_range = QDMA_DEV_Q_IN_RANGE | QDMA_DEV_Q_OUT_OF_RANGE

abbreviation (input) QDMA_SUCCESS :: int where "QDMA_SUCCESS \<equiv> 0"
abbreviation (input) QDMA_ERR_NO_MEM :: int where "QDMA_ERR_NO_MEM \<equiv> 2"
abbreviation (input) QDMA_ERR_RM_RES_EXISTS :: int where "QDMA_ERR_RM_RES_EXISTS \<equiv> 8"
abbreviation (input) QDMA_ERR_RM_RES_NOT_EXISTS :: int where "QDMA_ERR_RM_RES_NOT_EXISTS \<equiv> 9"
abbreviation (input) QDMA_ERR_RM_DEV_EXISTS :: int where "QDMA_ERR_RM_DEV_EXISTS \<equiv> 10"
abbreviation (input) QDMA_ERR_RM_DEV_NOT_EXISTS :: int where "QDMA_ERR_RM_DEV_NOT_EXISTS \<equiv> 11"
abbreviation (input) QDMA_ERR_RM_NO_QUEUES_LEFT :: int where "QDMA_ERR_RM_NO_QUEUES_LEFT \<equiv> 12"
abbreviation (input) QDMA_ERR_RM_QMAX_CONF_REJECTED :: int where "QDMA_ERR_RM_QMAX_CONF_REJECTED \<equiv> 13"

text \<open>An allocation: whether it succeeds, and the outcomes left.\<close>

fun qdma_calloc :: "bool list \<Rightarrow> bool \<times> bool list" where
  "qdma_calloc [] = (True, [])"
| "qdma_calloc (ok # mem) = (ok, mem)"

text \<open>The first element of a list that satisfies a test, by its position.\<close>

fun find_pos :: "('a \<Rightarrow> bool) \<Rightarrow> 'a list \<Rightarrow> nat option" where
  "find_pos P [] = None"
| "find_pos P (x # xs) = (if P x then Some 0 else map_option Suc (find_pos P xs))"

subsection \<open>Lookup\<close>

definition qdma_find_master_resource_entry :: "u32 \<Rightarrow> u32 \<Rightarrow> qdma_rm \<Rightarrow> nat option" where
  "qdma_find_master_resource_entry bus_start bus_end rm =
     find_pos (\<lambda>m. pci_bus_start m = bus_start \<and> pci_bus_end m = bus_end) (master_resource_list rm)"

definition qdma_get_master_resource_entry :: "u32 \<Rightarrow> qdma_rm \<Rightarrow> nat option" where
  "qdma_get_master_resource_entry idx rm =
     find_pos (\<lambda>m. dma_device_index m = idx) (master_resource_list rm)"

definition qdma_get_dev_entry :: "u32 \<Rightarrow> u16 \<Rightarrow> qdma_rm \<Rightarrow> (nat \<times> nat) option" where
  "qdma_get_dev_entry idx func rm =
     (case qdma_get_master_resource_entry idx rm of
        None \<Rightarrow> None
      | Some i \<Rightarrow> map_option (Pair i)
          (find_pos (\<lambda>d. func_id d = func) (dev_list (master_resource_list rm ! i))))"

subsection \<open>Free list\<close>

text \<open>
  Where a returned range goes: before the first entry with a larger base, else at the tail.  The
  loop stops at the last entry in any case, and the empty list is the caller's other branch.
\<close>

fun insert_free :: "qdma_resource_entry \<Rightarrow> qdma_resource_entry list \<Rightarrow> qdma_resource_entry list" where
  "insert_free e [] = [e]"
| "insert_free e [n] = (if sint (qbase e) < sint (qbase n) then [e, n] else [n, e])"
| "insert_free e (n # m # ns) =
     (if sint (qbase e) < sint (qbase n) then e # n # m # ns else n # insert_free e (m # ns))"

text \<open>Merging neighbours: the sum is computed and compared as an unsigned 32-bit number.\<close>

fun defragment :: "qdma_resource_entry list \<Rightarrow> qdma_resource_entry list" where
  "defragment (s # n # ns) =
     (if qbase s + total_q s = qbase n then defragment (s\<lparr>total_q := total_q s + total_q n\<rparr> # ns)
      else s # defragment (n # ns))"
| "defragment ns = ns"

definition no_queues :: qdma_resource_entry where
  "no_queues = \<lparr>qbase = - 1, total_q = 0\<rparr>"

definition qdma_submit_to_free_list ::
  "qdma_resource_entry \<Rightarrow> qdma_resource_entry list \<Rightarrow> bool list \<Rightarrow>
   qdma_resource_entry \<times> qdma_resource_entry list \<times> bool list" where
  "qdma_submit_to_free_list e free mem =
     (if total_q e = 0 then (e, free, mem)
      else let (ok, mem) = qdma_calloc mem in
        if \<not> ok then (e, free, mem)
        else (no_queues, defragment (insert_free \<lparr>qbase = qbase e, total_q = total_q e\<rparr> free), mem))"

text \<open>The entry that holds the requested range, and the smallest entry that is large enough.\<close>

definition find_requested :: "u32 \<Rightarrow> s32 \<Rightarrow> qdma_resource_entry list \<Rightarrow> nat option" where
  "find_requested qmax base free =
     find_pos (\<lambda>n. sint (qbase n) \<le> sint base \<and> base + qmax \<le> qbase n + total_q n) free"

fun best_fit :: "u32 \<Rightarrow> nat \<Rightarrow> (nat \<times> qdma_resource_entry) option \<Rightarrow> qdma_resource_entry list \<Rightarrow>
    (nat \<times> qdma_resource_entry) option" where
  "best_fit qmax i best [] = best"
| "best_fit qmax i best (n # ns) =
     best_fit qmax (Suc i)
       (if qmax \<le> total_q n \<and> (case best of None \<Rightarrow> True | Some (_, b) \<Rightarrow> total_q n \<le> total_q b)
        then Some (i, n) else best) ns"

text \<open>Cutting the requested range out of the entry found; the position returned is that of the range.\<close>

definition fragment_free_list ::
  "u32 \<Rightarrow> s32 \<Rightarrow> nat \<Rightarrow> qdma_resource_entry list \<Rightarrow> bool list \<Rightarrow>
   nat option \<times> qdma_resource_entry list \<times> bool list" where
  "fragment_free_list qmax base i free mem =
     (let n = free ! i; before = take i free; after = drop (Suc i) free in
      if base = qbase n \<and> qmax = total_q n then (Some i, free, mem)
      else if base = qbase n then
        let (ok, mem) = qdma_calloc mem;
            lqmax = total_q n - qmax
        in if \<not> ok then (None, free, mem)
           else (Some i, before @ [n\<lparr>total_q := total_q n - lqmax\<rparr>,
                                   \<lparr>qbase = qbase n + qmax, total_q = lqmax\<rparr>] @ after, mem)
      else if sint (qbase n) < sint base \<and> base + qmax = qbase n + total_q n then
        let (ok, mem) = qdma_calloc mem
        in if \<not> ok then (None, free, mem)
           else (Some (Suc i), before @ [\<lparr>qbase = qbase n, total_q = base - qbase n\<rparr>,
                                         \<lparr>qbase = base, total_q = qmax\<rparr>] @ after, mem)
      else
        let (ok, mem) = qdma_calloc mem;
            lqmax = base - qbase n
        in if \<not> ok then (None, free, mem)
           else
             let lower = \<lparr>qbase = qbase n, total_q = lqmax\<rparr>;
                 n = \<lparr>qbase = base, total_q = total_q n - lqmax\<rparr>;
                 (ok, mem) = qdma_calloc mem
             in if \<not> ok then (None, before @ [lower, n] @ after, mem)
                else (Some (Suc i), before @ [lower, n\<lparr>total_q := qmax\<rparr>,
                        \<lparr>qbase = base + qmax, total_q = total_q n - qmax\<rparr>] @ after, mem))"

definition qdma_get_resource_node ::
  "u32 \<Rightarrow> s32 \<Rightarrow> qdma_resource_entry list \<Rightarrow> bool list \<Rightarrow>
   nat option \<times> qdma_resource_entry list \<times> bool list" where
  "qdma_get_resource_node qmax base free mem =
     (case (if 0 \<le> sint base then find_requested qmax base free else None) of
        Some i \<Rightarrow> fragment_free_list qmax base i free mem
      | None \<Rightarrow>
        (case best_fit qmax 0 None free of
           None \<Rightarrow> (None, free, mem)
         | Some (i, n) \<Rightarrow> fragment_free_list qmax (qbase n) i free mem))"

definition qdma_request_q_resource ::
  "qdma_resource_entry \<Rightarrow> u32 \<Rightarrow> s32 \<Rightarrow> qdma_resource_entry list \<Rightarrow> bool list \<Rightarrow>
   int \<times> qdma_resource_entry \<times> qdma_resource_entry list \<times> bool list" where
  "qdma_request_q_resource dq new_qmax new_qbase free mem =
     (let (e, free, mem) = qdma_submit_to_free_list dq free mem in
      if new_qmax = 0 then (0, e, free, mem)
      else case qdma_get_resource_node new_qmax new_qbase free mem of
        (Some i, free, mem) \<Rightarrow> (QDMA_SUCCESS, free ! i, take i free @ drop (Suc i) free, mem)
      | (None, free, mem) \<Rightarrow>
        (case qdma_get_resource_node (total_q dq) (qbase dq) free mem of
           (None, free, mem) \<Rightarrow> (- QDMA_ERR_RM_NO_QUEUES_LEFT, no_queues, free, mem)
         | (Some i, free, mem) \<Rightarrow>
             (- QDMA_ERR_RM_NO_QUEUES_LEFT, free ! i, take i free @ drop (Suc i) free, mem)))"

subsection \<open>Devices\<close>

definition qdma_master_resource_create ::
  "u32 \<Rightarrow> u32 \<Rightarrow> s32 \<Rightarrow> u32 \<Rightarrow> qdma_rm \<Rightarrow> int \<times> u32 \<times> qdma_rm" where
  "qdma_master_resource_create bus_start bus_end q_base q_total rm =
     (case qdma_find_master_resource_entry bus_start bus_end rm of
        Some i \<Rightarrow> (- QDMA_ERR_RM_RES_EXISTS, dma_device_index (master_resource_list rm ! i), rm)
      | None \<Rightarrow>
        let index = rm_index rm;
            (ok, mem) = qdma_calloc (callocs rm)
        in if \<not> ok then (- QDMA_ERR_NO_MEM, index, rm\<lparr>callocs := mem\<rparr>)
        else let (ok, mem) = qdma_calloc mem
        in if \<not> ok then (- QDMA_ERR_NO_MEM, index, rm\<lparr>callocs := mem\<rparr>)
        else (QDMA_SUCCESS, index, rm\<lparr>callocs := mem, rm_index := index + 1,
          master_resource_list := master_resource_list rm @
            [\<lparr>dma_device_index = index, pci_bus_start = bus_start, pci_bus_end = bus_end,
              res_total_q = q_total, res_qbase = q_base, dev_list = [],
              free_list = [\<lparr>qbase = q_base, total_q = q_total\<rparr>], active_qcnt = 0\<rparr>]\<rparr>))"

definition qdma_master_resource_destroy :: "u32 \<Rightarrow> qdma_rm \<Rightarrow> qdma_rm" where
  "qdma_master_resource_destroy idx rm =
     (case qdma_get_master_resource_entry idx rm of
        None \<Rightarrow> rm
      | Some i \<Rightarrow>
        if dev_list (master_resource_list rm ! i) \<noteq> [] then rm
        else rm\<lparr>master_resource_list := take i (master_resource_list rm) @ drop (Suc i) (master_resource_list rm)\<rparr>)"

definition upd_master :: "nat \<Rightarrow> (qdma_resource_master \<Rightarrow> qdma_resource_master) \<Rightarrow> qdma_rm \<Rightarrow> qdma_rm" where
  "upd_master i f rm = rm\<lparr>master_resource_list := (master_resource_list rm)[i := f (master_resource_list rm ! i)]\<rparr>"

definition upd_dev :: "nat \<Rightarrow> (qdma_dev_entry \<Rightarrow> qdma_dev_entry) \<Rightarrow> qdma_resource_master \<Rightarrow> qdma_resource_master" where
  "upd_dev j f m = m\<lparr>dev_list := (dev_list m)[j := f (dev_list m ! j)]\<rparr>"

definition qdma_dev_entry_create :: "u32 \<Rightarrow> u16 \<Rightarrow> qdma_rm \<Rightarrow> int \<times> qdma_rm" where
  "qdma_dev_entry_create idx func rm =
     (case qdma_get_master_resource_entry idx rm of
        None \<Rightarrow> (- QDMA_ERR_RM_RES_NOT_EXISTS, rm)
      | Some i \<Rightarrow>
        (case qdma_get_dev_entry idx func rm of
           Some _ \<Rightarrow> (- QDMA_ERR_RM_DEV_EXISTS, rm)
         | None \<Rightarrow>
           let (ok, mem) = qdma_calloc (callocs rm);
               rm = rm\<lparr>callocs := mem\<rparr>
           in if \<not> ok then (- QDMA_ERR_NO_MEM, rm)
              else (QDMA_SUCCESS, upd_master i (\<lambda>m. m\<lparr>dev_list := dev_list m @
                [\<lparr>func_id = func, active_h2c_qcnt = 0, active_c2h_qcnt = 0, active_cmpt_qcnt = 0,
                  dev_q = no_queues\<rparr>]\<rparr>) rm)))"

definition qdma_dev_entry_destroy :: "u32 \<Rightarrow> u16 \<Rightarrow> qdma_rm \<Rightarrow> qdma_rm" where
  "qdma_dev_entry_destroy idx func rm =
     (case qdma_get_dev_entry idx func rm of
        None \<Rightarrow> rm
      | Some (i, j) \<Rightarrow>
        let m = master_resource_list rm ! i;
            (_, free, mem) = qdma_submit_to_free_list (dev_q (dev_list m ! j)) (free_list m) (callocs rm)
        in upd_master i (\<lambda>m. m\<lparr>free_list := free, dev_list := take j (dev_list m) @ drop (Suc j) (dev_list m)\<rparr>)
             (rm\<lparr>callocs := mem\<rparr>))"

definition qdma_dev_update :: "u32 \<Rightarrow> u16 \<Rightarrow> u32 \<Rightarrow> s32 \<Rightarrow> qdma_rm \<Rightarrow> int \<times> s32 \<times> qdma_rm" where
  "qdma_dev_update idx func qmax base rm =
     (case qdma_get_master_resource_entry idx rm of
        None \<Rightarrow> (- QDMA_ERR_RM_RES_NOT_EXISTS, base, rm)
      | Some _ \<Rightarrow>
        (case qdma_get_dev_entry idx func rm of
           None \<Rightarrow> (- QDMA_ERR_RM_DEV_NOT_EXISTS, base, rm)
         | Some (i, j) \<Rightarrow>
           let m = master_resource_list rm ! i; d = dev_list m ! j in
           if active_h2c_qcnt d \<noteq> 0 \<or> active_c2h_qcnt d \<noteq> 0 \<or> active_cmpt_qcnt d \<noteq> 0 then
             (- QDMA_ERR_RM_QMAX_CONF_REJECTED, base, rm)
           else
             let (rv, e, free, mem) = qdma_request_q_resource (dev_q d) qmax base (free_list m) (callocs rm)
             in (rv, qbase e, upd_master i (\<lambda>m. upd_dev j (\<lambda>d. d\<lparr>dev_q := e\<rparr>) (m\<lparr>free_list := free\<rparr>))
                  (rm\<lparr>callocs := mem\<rparr>))))"

definition qdma_dev_qinfo_get :: "u32 \<Rightarrow> u16 \<Rightarrow> qdma_rm \<Rightarrow> int \<times> (s32 \<times> u32) option" where
  "qdma_dev_qinfo_get idx func rm =
     (case qdma_get_master_resource_entry idx rm of
        None \<Rightarrow> (- QDMA_ERR_RM_RES_NOT_EXISTS, None)
      | Some _ \<Rightarrow>
        (case qdma_get_dev_entry idx func rm of
           None \<Rightarrow> (- QDMA_ERR_RM_DEV_NOT_EXISTS, None)
         | Some (i, j) \<Rightarrow>
           let e = dev_q (dev_list (master_resource_list rm ! i) ! j)
           in (QDMA_SUCCESS, Some (qbase e, total_q e))))"

definition qdma_dev_is_queue_in_range :: "u32 \<Rightarrow> u16 \<Rightarrow> u32 \<Rightarrow> qdma_rm \<Rightarrow> qdma_dev_q_range" where
  "qdma_dev_is_queue_in_range idx func qid_hw rm =
     (case qdma_get_dev_entry idx func rm of
        None \<Rightarrow> QDMA_DEV_Q_OUT_OF_RANGE
      | Some (i, j) \<Rightarrow>
        let e = dev_q (dev_list (master_resource_list rm ! i) ! j);
            qmax = qbase e + total_q e
        in if total_q e \<noteq> 0 \<and> qid_hw < qmax \<and> sint (qbase e) \<le> sint qid_hw then QDMA_DEV_Q_IN_RANGE
           else QDMA_DEV_Q_OUT_OF_RANGE)"

subsection \<open>Active queues\<close>

fun active_of :: "qdma_dev_q_type \<Rightarrow> qdma_dev_entry \<Rightarrow> u32 option" where
  "active_of QDMA_DEV_Q_TYPE_H2C d = Some (active_h2c_qcnt d)"
| "active_of QDMA_DEV_Q_TYPE_C2H d = Some (active_c2h_qcnt d)"
| "active_of QDMA_DEV_Q_TYPE_CMPT d = Some (active_cmpt_qcnt d)"
| "active_of QDMA_DEV_Q_TYPE_MAX d = None"

fun set_active :: "qdma_dev_q_type \<Rightarrow> u32 \<Rightarrow> qdma_dev_entry \<Rightarrow> qdma_dev_entry" where
  "set_active QDMA_DEV_Q_TYPE_H2C c d = d\<lparr>active_h2c_qcnt := c\<rparr>"
| "set_active QDMA_DEV_Q_TYPE_C2H c d = d\<lparr>active_c2h_qcnt := c\<rparr>"
| "set_active QDMA_DEV_Q_TYPE_CMPT c d = d\<lparr>active_cmpt_qcnt := c\<rparr>"
| "set_active QDMA_DEV_Q_TYPE_MAX c d = d"

definition qdma_dev_increment_active_queue :: "u32 \<Rightarrow> u16 \<Rightarrow> qdma_dev_q_type \<Rightarrow> qdma_rm \<Rightarrow> int \<times> qdma_rm" where
  "qdma_dev_increment_active_queue idx func q_type rm =
     (case qdma_get_master_resource_entry idx rm of
        None \<Rightarrow> (- QDMA_ERR_RM_RES_NOT_EXISTS, rm)
      | Some _ \<Rightarrow>
        (case qdma_get_dev_entry idx func rm of
           None \<Rightarrow> (- QDMA_ERR_RM_DEV_NOT_EXISTS, rm)
         | Some (i, j) \<Rightarrow>
           let d = dev_list (master_resource_list rm ! i) ! j in
           case active_of q_type d of
             None \<Rightarrow> (- QDMA_ERR_RM_DEV_NOT_EXISTS, rm)
           | Some c \<Rightarrow>
             if total_q (dev_q d) < c + 1 then (- QDMA_ERR_RM_NO_QUEUES_LEFT, rm)
             else (QDMA_SUCCESS, upd_master i (\<lambda>m. upd_dev j (set_active q_type (c + 1))
                    (m\<lparr>active_qcnt := active_qcnt m + 1\<rparr>)) rm)))"

definition qdma_dev_decrement_active_queue :: "u32 \<Rightarrow> u16 \<Rightarrow> qdma_dev_q_type \<Rightarrow> qdma_rm \<Rightarrow> int \<times> qdma_rm" where
  "qdma_dev_decrement_active_queue idx func q_type rm =
     (case qdma_get_master_resource_entry idx rm of
        None \<Rightarrow> (- QDMA_ERR_RM_RES_NOT_EXISTS, rm)
      | Some _ \<Rightarrow>
        (case qdma_get_dev_entry idx func rm of
           None \<Rightarrow> (- QDMA_ERR_RM_DEV_NOT_EXISTS, rm)
         | Some (i, j) \<Rightarrow>
           let d = dev_list (master_resource_list rm ! i) ! j;
               rv = (case active_of q_type d of None \<Rightarrow> - QDMA_ERR_RM_DEV_NOT_EXISTS | Some _ \<Rightarrow> QDMA_SUCCESS)
           in (rv, upd_master i (\<lambda>m. upd_dev j (\<lambda>d. case active_of q_type d of
                    None \<Rightarrow> d | Some c \<Rightarrow> if c \<noteq> 0 then set_active q_type (c - 1) d else d)
                  (m\<lparr>active_qcnt := active_qcnt m - 1\<rparr>)) rm)))"

definition qdma_get_active_queue_count :: "u32 \<Rightarrow> qdma_rm \<Rightarrow> u32" where
  "qdma_get_active_queue_count idx rm =
     (case qdma_get_master_resource_entry idx rm of None \<Rightarrow> 0
      | Some i \<Rightarrow> active_qcnt (master_resource_list rm ! i))"

definition qdma_get_device_active_queue_count :: "u32 \<Rightarrow> u16 \<Rightarrow> qdma_dev_q_type \<Rightarrow> qdma_rm \<Rightarrow> int" where
  "qdma_get_device_active_queue_count idx func q_type rm =
     (case qdma_get_master_resource_entry idx rm of
        None \<Rightarrow> - QDMA_ERR_RM_RES_NOT_EXISTS
      | Some _ \<Rightarrow>
        (case qdma_get_dev_entry idx func rm of
           None \<Rightarrow> - QDMA_ERR_RM_DEV_NOT_EXISTS
         | Some (i, j) \<Rightarrow>
           (case active_of q_type (dev_list (master_resource_list rm ! i) ! j) of
              None \<Rightarrow> 0 | Some c \<Rightarrow> sint (c :: s32))))"

subsection \<open>Ranges of queues\<close>

definition lo :: "qdma_resource_entry \<Rightarrow> int" where "lo e = sint (qbase e)"
definition hi :: "qdma_resource_entry \<Rightarrow> int" where "hi e = lo e + uint (total_q e)"

text \<open>How many of the entries hold a queue.\<close>

definition holds :: "qdma_resource_entry \<Rightarrow> int \<Rightarrow> nat" where
  "holds e q = (if lo e \<le> q \<and> q < hi e then 1 else 0)"

definition cover :: "qdma_resource_entry list \<Rightarrow> int \<Rightarrow> nat" where
  "cover es q = sum_list (map (\<lambda>e. holds e q) es)"

lemma cover_simps [simp]:
  "cover [] q = 0" "cover (e # es) q = holds e q + cover es q" "cover (as @ bs) q = cover as q + cover bs q"
  by (simp_all add: cover_def)

lemma holds_empty [simp]: "total_q e = 0 \<Longrightarrow> holds e q = 0"
  by (simp add: holds_def hi_def)

text \<open>The queues a device has, below \<open>2\<^sup>3\<^sup>1\<close>, so that no sum wraps around.\<close>

definition in_range :: "int \<Rightarrow> int \<Rightarrow> qdma_resource_entry \<Rightarrow> bool" where
  "in_range B E e \<longleftrightarrow> 0 \<le> B \<and> E < 2147483648 \<and> B \<le> lo e \<and> hi e \<le> E"

lemma sint_small: "uint (w :: s32) < 2147483648 \<Longrightarrow> sint w = uint w"
  unfolding sint_uint by (rule signed_take_bit_int_eq_self) (simp_all add: order_trans[OF _ uint_ge_0])

lemma uint_nonneg_s32: "0 \<le> sint (w :: s32) \<Longrightarrow> uint w = sint w"
  using sint_lt[of w] by (simp add: uint_sint take_bit_int_eq_self)

lemma in_range_word:
  assumes "in_range B E e"
  shows "uint (qbase e) = lo e" "uint (qbase e + total_q e) = hi e" "lo e \<le> hi e" "hi e < 2147483648" "0 \<le> lo e"
proof -
  have b: "0 \<le> lo e" "hi e < 2147483648" using assms by (auto simp: in_range_def)
  have t: "0 \<le> uint (total_q e)" by simp
  show u: "uint (qbase e) = lo e" using b(1) uint_nonneg_s32[of "qbase e"] by (simp add: lo_def)
  show "uint (qbase e + total_q e) = hi e" using b by (simp add: uint_word_ariths u hi_def)
  show "lo e \<le> hi e" "hi e < 2147483648" "0 \<le> lo e" using b t by (simp_all add: hi_def)
qed

lemma cover_insert_free: "cover (insert_free e xs) q = holds e q + cover xs q"
  by (induction e xs rule: insert_free.induct) auto

lemma set_insert_free: "set (insert_free e xs) = insert e (set xs)"
  by (induction e xs rule: insert_free.induct) auto

lemma merge_range:
  assumes "in_range B E s" "in_range B E n" "qbase s + total_q s = qbase n"
  shows "hi s = lo n" "lo (s\<lparr>total_q := total_q s + total_q n\<rparr>) = lo s"
    "hi (s\<lparr>total_q := total_q s + total_q n\<rparr>) = hi n"
    "in_range B E (s\<lparr>total_q := total_q s + total_q n\<rparr>)"
proof -
  note w = in_range_word[OF assms(1)] in_range_word[OF assms(2)]
  show hl: "hi s = lo n" using w(2,6) assms(3) by simp
  show l: "lo (s\<lparr>total_q := total_q s + total_q n\<rparr>) = lo s" by (simp add: lo_def)
  have "uint (total_q s) + uint (total_q n) = hi n - lo s" using hl by (simp add: hi_def)
  then have "uint (total_q s + total_q n) = hi n - lo s"
    using w(4,5,8,9) hl w(3) by (simp add: uint_word_ariths)
  then show h: "hi (s\<lparr>total_q := total_q s + total_q n\<rparr>) = hi n" using l by (simp add: hi_def)
  show "in_range B E (s\<lparr>total_q := total_q s + total_q n\<rparr>)"
    using assms(1,2) l h by (simp add: in_range_def)
qed

lemma defragment_ok:
  assumes "\<And>e. e \<in> set xs \<Longrightarrow> in_range B E e"
  shows "cover (defragment xs) q = cover xs q \<and> (\<forall>e \<in> set (defragment xs). in_range B E e)"
  using assms
proof (induction xs rule: defragment.induct)
  case (1 s n ns)
  have r: "in_range B E s" "in_range B E n" using 1(3) by auto
  show ?case
  proof (cases "qbase s + total_q s = qbase n")
    case True
    note m = merge_range[OF r True]
    have "holds (s\<lparr>total_q := total_q s + total_q n\<rparr>) q = holds s q + holds n q"
      using m(1-3) in_range_word(3)[OF r(1)] in_range_word(3)[OF r(2)] by (auto simp: holds_def)
    moreover have "cover (defragment (s\<lparr>total_q := total_q s + total_q n\<rparr> # ns)) q =
        cover (s\<lparr>total_q := total_q s + total_q n\<rparr> # ns) q \<and>
        (\<forall>e \<in> set (defragment (s\<lparr>total_q := total_q s + total_q n\<rparr> # ns)). in_range B E e)"
      by (rule 1(1)[OF True]) (use 1(3) m(4) in auto)
    ultimately show ?thesis using True by simp
  next
    case False
    then show ?thesis using 1(2)[OF False] 1(3) by auto
  qed
qed simp_all

lemma submit_ok:
  assumes sub: "qdma_submit_to_free_list e free mem = (e', free', mem')"
    and ok: "\<forall>n \<in> set free. in_range B E n" "total_q e \<noteq> 0 \<longrightarrow> in_range B E e"
  shows "cover free' q + holds e' q = cover free q + holds e q" "\<forall>n \<in> set free'. in_range B E n"
    "total_q e' \<noteq> 0 \<Longrightarrow> e' = e" "mem = [] \<Longrightarrow> mem' = [] \<and> total_q e' = 0"
proof -
  let ?e = "\<lparr>qbase = qbase e, total_q = total_q e\<rparr>"
  have h: "holds ?e q = holds e q" by (simp add: holds_def lo_def hi_def)
  have i: "in_range B E ?e" if "total_q e \<noteq> 0" using ok(2) that by (simp add: in_range_def lo_def hi_def)
  have d: "cover (defragment (insert_free ?e free)) q = holds e q + cover free q \<and>
      (\<forall>n \<in> set (defragment (insert_free ?e free)). in_range B E n)" if "total_q e \<noteq> 0"
    using defragment_ok[of "insert_free ?e free" B E q] i[OF that] ok(1) h
    by (auto simp: set_insert_free cover_insert_free)
  show "cover free' q + holds e' q = cover free q + holds e q" "\<forall>n \<in> set free'. in_range B E n"
    using sub ok(1) d
    by (auto simp: qdma_submit_to_free_list_def Let_def no_queues_def split: if_splits prod.splits)
  show "total_q e' \<noteq> 0 \<Longrightarrow> e' = e"
    using sub by (auto simp: qdma_submit_to_free_list_def Let_def no_queues_def split: if_splits prod.splits)
  show "mem = [] \<Longrightarrow> mem' = [] \<and> total_q e' = 0"
    using sub by (auto simp: qdma_submit_to_free_list_def Let_def no_queues_def split: if_splits prod.splits)
qed

text \<open>The searches find an entry that holds the range asked for.\<close>

lemma find_pos_Some: "find_pos P xs = Some i \<Longrightarrow> i < length xs \<and> P (xs ! i) \<and> (\<forall>j < i. \<not> P (xs ! j))"
proof (induction xs arbitrary: i)
  case (Cons x xs)
  then show ?case by (cases i) (auto simp: All_less_Suc2 split: if_splits)
qed simp

lemma find_pos_None: "find_pos P xs = None \<longleftrightarrow> (\<forall>x \<in> set xs. \<not> P x)"
  by (induction xs) auto

lemma best_fit_None: "best_fit qmax i b ns = None \<longleftrightarrow> b = None \<and> (\<forall>n \<in> set ns. \<not> qmax \<le> total_q n)"
  by (induction ns arbitrary: i b) (auto split: option.splits)

lemma best_fit_from:
  "best_fit qmax i b ns = Some (k, n) \<Longrightarrow>
   b = Some (k, n) \<or> (\<exists>j < length ns. k = i + j \<and> ns ! j = n \<and> qmax \<le> total_q n)"
proof (induction ns arbitrary: i b)
  case (Cons x ns)
  let ?c = "qmax \<le> total_q x \<and> (case b of None \<Rightarrow> True | Some (_, b) \<Rightarrow> total_q x \<le> total_q b)"
  have "(if ?c then Some (i, x) else b) = Some (k, n) \<or>
      (\<exists>j < length ns. k = Suc i + j \<and> ns ! j = n \<and> qmax \<le> total_q n)"
    using Cons.prems by (intro Cons.IH) simp
  then show ?case
  proof
    assume "(if ?c then Some (i, x) else b) = Some (k, n)"
    then show ?thesis by (cases ?c) auto
  next
    assume "\<exists>j < length ns. k = Suc i + j \<and> ns ! j = n \<and> qmax \<le> total_q n"
    then obtain j where "j < length ns" "k = Suc i + j" "ns ! j = n" "qmax \<le> total_q n" by blast
    then show ?thesis by (intro disjI2 exI[of _ "Suc j"]) simp
  qed
qed simp

lemma best_fit_le:
  "best_fit qmax i (Some (k', m)) ns = Some (k, n) \<Longrightarrow> total_q n \<le> total_q m"
proof (induction ns arbitrary: i k' m)
  case (Cons x ns)
  show ?case
  proof (cases "qmax \<le> total_q x \<and> total_q x \<le> total_q m")
    case True
    then have "total_q n \<le> total_q x" using Cons.prems by (intro Cons.IH[of "Suc i" i x]) simp
    then show ?thesis using True by (blast intro: order_trans)
  next
    case False
    have "best_fit qmax (Suc i) (Some (k', m)) ns = Some (k, n)"
      using Cons.prems by (simp only: best_fit.simps option.case prod.case if_not_P[OF False])
    then show ?thesis by (rule Cons.IH)
  qed
qed simp

lemma best_fit_min:
  "best_fit qmax i b ns = Some (k, n) \<Longrightarrow> m \<in> set ns \<Longrightarrow> qmax \<le> total_q m \<Longrightarrow> total_q n \<le> total_q m"
proof (induction ns arbitrary: i b)
  case (Cons x ns)
  let ?b = "if qmax \<le> total_q x \<and> (case b of None \<Rightarrow> True | Some (_, b) \<Rightarrow> total_q x \<le> total_q b)
    then Some (i, x) else b"
  have run: "best_fit qmax (Suc i) ?b ns = Some (k, n)" using Cons.prems(1) by simp
  show ?case
  proof (cases "m = x")
    case False
    then show ?thesis using Cons.IH[OF run] Cons.prems(2,3) by simp
  next
    case True
    show ?thesis
    proof (cases "?b = Some (i, x)")
      case True
      have "best_fit qmax (Suc i) (Some (i, x)) ns = Some (k, n)" using run unfolding True .
      then show ?thesis using \<open>m = x\<close> by (simp add: best_fit_le)
    next
      case False
      then obtain k' m' where "b = Some (k', m')" "\<not> total_q x \<le> total_q m'"
        using True Cons.prems(3) by (auto split: option.splits if_splits)
      then have "?b = Some (k', m')" by simp
      then have "total_q n \<le> total_q m'" using run by (intro best_fit_le[of qmax "Suc i" k' m' ns k n]) simp
      then show ?thesis using \<open>\<not> total_q x \<le> total_q m'\<close> \<open>m = x\<close> by (metis order_trans linear)
    qed
  qed
qed simp

subsection \<open>Cutting a range out of the free list\<close>

lemma piece:
  assumes "uint x = a" "a < 2147483648" "uint y = t"
  shows "lo \<lparr>qbase = x, total_q = y\<rparr> = a" "hi \<lparr>qbase = x, total_q = y\<rparr> = a + t"
  using assms sint_small[of x] by (simp_all add: lo_def hi_def)

lemma uint_sub_no_wrap: "uint (b :: u32) \<le> uint a \<Longrightarrow> uint (a - b) = uint a - uint b"
  by (simp add: uint_sub_lem)

lemma uint_add_no_wrap: "uint (a :: u32) + uint b < 2 ^ 32 \<Longrightarrow> uint (a + b) = uint a + uint b"
  using uint_ge_0[of a] uint_ge_0[of b] by (simp add: uint_word_ariths)

text \<open>The three parts of an entry around the range that is asked for.\<close>

lemma split_parts:
  assumes n: "in_range B E n" and b: "lo n \<le> sint base" "sint base + uint qmax \<le> hi n"
  shows "lo \<lparr>qbase = qbase n, total_q = base - qbase n\<rparr> = lo n"
    "hi \<lparr>qbase = qbase n, total_q = base - qbase n\<rparr> = sint base"
    "lo \<lparr>qbase = base, total_q = qmax\<rparr> = sint base"
    "hi \<lparr>qbase = base, total_q = qmax\<rparr> = sint base + uint qmax"
    "lo \<lparr>qbase = base + qmax, total_q = total_q n - (base - qbase n) - qmax\<rparr> = sint base + uint qmax"
    "hi \<lparr>qbase = base + qmax, total_q = total_q n - (base - qbase n) - qmax\<rparr> = hi n"
    "lo \<lparr>qbase = base, total_q = total_q n - (base - qbase n)\<rparr> = sint base"
    "hi \<lparr>qbase = base, total_q = total_q n - (base - qbase n)\<rparr> = hi n"
proof -
  note w = in_range_word[OF n]
  have q0: "0 \<le> uint qmax" by simp
  have ub: "uint base = sint base" using b(1) w(5) by (intro uint_nonneg_s32) linarith
  have sb: "sint base < 2147483648" using b(2) w(4) q0 by linarith
  have d: "uint (base - qbase n) = sint base - lo n"
    using b(1) by (subst uint_sub_no_wrap) (simp_all add: ub w(1))
  have t: "uint (total_q n) = hi n - lo n" by (simp add: hi_def)
  have t1: "uint (total_q n - (base - qbase n)) = hi n - sint base"
    using uint_sub_no_wrap[of "base - qbase n" "total_q n"] b(2) q0 unfolding d t by linarith
  have t2: "uint (total_q n - (base - qbase n) - qmax) = hi n - sint base - uint qmax"
    using uint_sub_no_wrap[of qmax "total_q n - (base - qbase n)"] b(2) unfolding t1 by linarith
  have a: "uint (base + qmax) = sint base + uint qmax"
    using b(2) w(4) by (subst uint_add_no_wrap) (simp_all add: ub)
  have lw: "lo n < 2147483648" using w(3,4) by linarith
  show "lo \<lparr>qbase = qbase n, total_q = base - qbase n\<rparr> = lo n"
    "hi \<lparr>qbase = qbase n, total_q = base - qbase n\<rparr> = sint base"
    using piece[OF w(1) lw d] by simp_all
  show "lo \<lparr>qbase = base, total_q = qmax\<rparr> = sint base"
    "hi \<lparr>qbase = base, total_q = qmax\<rparr> = sint base + uint qmax"
    using piece[OF ub _ refl] sb by simp_all
  show "lo \<lparr>qbase = base + qmax, total_q = total_q n - (base - qbase n) - qmax\<rparr> = sint base + uint qmax"
    "hi \<lparr>qbase = base + qmax, total_q = total_q n - (base - qbase n) - qmax\<rparr> = hi n"
    using piece[OF a _ t2] b(2) w(4) by simp_all
  show "lo \<lparr>qbase = base, total_q = total_q n - (base - qbase n)\<rparr> = sint base"
    "hi \<lparr>qbase = base, total_q = total_q n - (base - qbase n)\<rparr> = hi n"
    using piece[OF ub _ t1] sb by simp_all
qed

lemma holds_split3:
  "(a :: int) \<le> b \<Longrightarrow> b \<le> c \<Longrightarrow> c \<le> d \<Longrightarrow> (if a \<le> q \<and> q < d then 1 else 0 :: nat) =
   (if a \<le> q \<and> q < b then 1 else 0) + ((if b \<le> q \<and> q < c then 1 else 0) + (if c \<le> q \<and> q < d then 1 else 0))"
  by auto

lemma total_q_set: "(e :: qdma_resource_entry)\<lparr>total_q := t\<rparr> = \<lparr>qbase = qbase e, total_q = t\<rparr>"
  by simp

lemma cut_length:
  "i < length free \<Longrightarrow> i < Suc (length free - Suc 0)" "i < length free \<Longrightarrow> i < Suc (Suc (length free - Suc 0))"
  by linarith+

lemma bool_lists: "mem = [] \<or> (\<exists>ms. mem = False # ms) \<or> mem = [True] \<or> (\<exists>b ms. mem = True # b # ms)"
  by (cases mem rule: remdups_adj.cases) auto

lemma cover_replace:
  "i < length free \<Longrightarrow> holds (free ! i) q = cover ps q \<Longrightarrow>
   cover (take i free @ ps @ drop (Suc i) free) q = cover free q"
  by (subst (3) id_take_nth_drop[of i free]) simp_all

lemma in_range_replace:
  "\<forall>n \<in> set free. in_range B E n \<Longrightarrow> \<forall>n \<in> set ps. in_range B E n \<Longrightarrow>
   \<forall>n \<in> set (take i free @ ps @ drop (Suc i) free). in_range B E n"
  by (auto dest: in_set_takeD in_set_dropD)

definition cut_ok :: "int \<Rightarrow> int \<Rightarrow> u32 \<Rightarrow> s32 \<Rightarrow> qdma_resource_entry list \<Rightarrow> bool list \<Rightarrow>
    nat option \<times> qdma_resource_entry list \<times> bool list \<Rightarrow> bool" where
  "cut_ok B E qmax base free mem = (\<lambda>(r, free', mem').
     (\<forall>q. cover free' q = cover free q) \<and> (\<forall>n \<in> set free'. in_range B E n) \<and>
     (\<forall>k. r = Some k \<longrightarrow> k < length free' \<and> free' ! k = \<lparr>qbase = base, total_q = qmax\<rparr>) \<and>
     (mem = [] \<longrightarrow> mem' = [] \<and> r \<noteq> None))"

lemma fragment_ok:
  assumes i: "i < length free" and free: "\<forall>n \<in> set free. in_range B E n"
    and b: "lo (free ! i) \<le> sint base" "sint base + uint qmax \<le> hi (free ! i)"
  shows "cut_ok B E qmax base free mem (fragment_free_list qmax base i free mem)"
proof -
  let ?n = "free ! i"
  have n: "in_range B E ?n" using i free by simp
  note p = split_parts[OF n b]
  have q0: "0 \<le> uint qmax" by simp
  have r: "in_range B E \<lparr>qbase = qbase ?n, total_q = base - qbase ?n\<rparr>" "in_range B E \<lparr>qbase = base, total_q = qmax\<rparr>"
    "in_range B E \<lparr>qbase = base + qmax, total_q = total_q ?n - (base - qbase ?n) - qmax\<rparr>"
    "in_range B E \<lparr>qbase = base, total_q = total_q ?n - (base - qbase ?n)\<rparr>"
    unfolding in_range_def p using n b q0 unfolding in_range_def by linarith+
  have s3: "holds ?n q = cover [\<lparr>qbase = qbase ?n, total_q = base - qbase ?n\<rparr>, \<lparr>qbase = base, total_q = qmax\<rparr>,
      \<lparr>qbase = base + qmax, total_q = total_q ?n - (base - qbase ?n) - qmax\<rparr>] q" for q
    unfolding cover_simps holds_def p using holds_split3[OF b(1) _ b(2)] q0 by simp
  have s2: "holds ?n q = cover [\<lparr>qbase = qbase ?n, total_q = base - qbase ?n\<rparr>,
      \<lparr>qbase = base, total_q = total_q ?n - (base - qbase ?n)\<rparr>] q" for q
    unfolding cover_simps holds_def p using holds_split3[OF b(1) _ order_refl, of "hi ?n" q] b(2) q0 by simp
  consider (whole) "base = qbase ?n" "qmax = total_q ?n" | (front) "base = qbase ?n" "qmax \<noteq> total_q ?n"
    | (rear) "base \<noteq> qbase ?n" "sint (qbase ?n) < sint base \<and> base + qmax = qbase ?n + total_q ?n"
    | (middle) "base \<noteq> qbase ?n" "\<not> (sint (qbase ?n) < sint base \<and> base + qmax = qbase ?n + total_q ?n)"
    by blast
  then show ?thesis
  proof cases
    case whole
    then have "fragment_free_list qmax base i free mem = (Some i, free, mem)"
      by (simp add: fragment_free_list_def)
    then show ?thesis using i free unfolding whole by (simp add: cut_ok_def)
  next
    case front
    let ?ps = "[\<lparr>qbase = base, total_q = qmax\<rparr>, \<lparr>qbase = base + qmax, total_q = total_q ?n - qmax\<rparr>]"
    have c: "cover (take i free @ ?ps @ drop (Suc i) free) q = cover free q" for q
      using s3[of q] front by (intro cover_replace[OF i]) simp
    have f: "\<forall>n \<in> set (take i free @ ?ps @ drop (Suc i) free). in_range B E n"
      using r front by (intro in_range_replace[OF free]) simp
    show ?thesis using front(2) i c f free unfolding front(1)
      by (cases mem) (simp_all add: fragment_free_list_def cut_ok_def nth_append Let_def total_q_set cut_length)
  next
    case rear
    let ?ps = "[\<lparr>qbase = qbase ?n, total_q = base - qbase ?n\<rparr>, \<lparr>qbase = base, total_q = qmax\<rparr>]"
    have "total_q ?n - (base - qbase ?n) = qmax" using rear(2) by (simp add: algebra_simps)
    then have c: "cover (take i free @ ?ps @ drop (Suc i) free) q = cover free q" for q
      using s2[of q] by (intro cover_replace[OF i]) simp
    have f: "\<forall>n \<in> set (take i free @ ?ps @ drop (Suc i) free). in_range B E n"
      using r by (intro in_range_replace[OF free]) simp
    show ?thesis using rear i c f free
      by (cases mem) (simp_all add: fragment_free_list_def cut_ok_def nth_append Let_def total_q_set cut_length)
  next
    case middle
    note c3 = cover_replace[OF i s3] and c2 = cover_replace[OF i s2]
    have f3: "\<forall>n \<in> set (take i free @ [\<lparr>qbase = qbase ?n, total_q = base - qbase ?n\<rparr>, \<lparr>qbase = base, total_q = qmax\<rparr>,
      \<lparr>qbase = base + qmax, total_q = total_q ?n - (base - qbase ?n) - qmax\<rparr>] @ drop (Suc i) free). in_range B E n"
      using r by (intro in_range_replace[OF free]) simp
    have f2: "\<forall>n \<in> set (take i free @ [\<lparr>qbase = qbase ?n, total_q = base - qbase ?n\<rparr>,
      \<lparr>qbase = base, total_q = total_q ?n - (base - qbase ?n)\<rparr>] @ drop (Suc i) free). in_range B E n"
      using r by (intro in_range_replace[OF free]) simp
    show ?thesis using middle(1) i c2 c3 f2 f3 free bool_lists[of mem]
      unfolding fragment_free_list_def Let_def if_not_P[OF middle(2)]
      by (elim disjE exE) (simp_all add: cut_ok_def nth_append Let_def total_q_set cut_length)
  qed
qed

end
