(* ===== verification/Qdma_Ctxt.thy ===== *)
theory Qdma_Ctxt
  imports Qdma_Resource
begin

text \<open>
  The queue contexts of the QDMA hardware as the access library sees them (\<open>qdma_access_common.h\<close>),
  the mailbox messages by which a virtual function asks its physical function to program them
  (\<open>qdma_mbox_protocol.h\<close>, \<open>qdma_mbox_protocol.c\<close>), and the hardware access functions the physical
  function calls.  The members of the message union are kept side by side: apart from the header,
  every function reads one of them.  The hardware is an environment that answers every call as a
  function of the calls made so far, so that a statement about all environments covers every
  failure and every value the hardware may return.
\<close>

subsection \<open>Contexts\<close>

record qdma_fmap_cfg =
  cfg_qbase :: u16
  cfg_qmax :: u16

record qdma_descq_sw_ctxt =
  sw_ring_bs_addr :: u64
  sw_vec :: u16
  sw_pidx :: u16
  sw_irq_arm :: u8
  sw_fnc_id :: u8
  sw_qen :: u8
  sw_frcd_en :: u8
  sw_wbi_chk :: u8
  sw_wbi_intvl_en :: u8
  sw_at :: u8
  sw_fetch_max :: u8
  sw_rngsz_idx :: u8
  sw_desc_sz :: u8
  sw_bypass :: u8
  sw_mm_chn :: u8
  sw_wbk_en :: u8
  sw_irq_en :: u8
  sw_port_id :: u8
  sw_irq_no_last :: u8
  sw_err :: u8
  sw_err_wb_sent :: u8
  sw_irq_req :: u8
  sw_mrkr_dis :: u8
  sw_is_mm :: u8
  sw_intr_aggr :: u8
  sw_pasid_en :: u8
  sw_dis_intr_on_vf :: u8
  sw_virtio_en :: u8
  sw_pack_byp_out :: u8
  sw_irq_byp :: u8
  sw_host_id :: u8
  sw_pasid :: u32
  sw_virtio_dsc_base :: u64

record qdma_descq_hw_ctxt =
  hw_cidx :: u16
  hw_crd_use :: u16
  hw_dsc_pend :: u8
  hw_idl_stp_b :: u8
  hw_evt_pnd :: u8
  hw_fetch_pnd :: u8

record qdma_descq_credit_ctxt =
  cr_credit :: u32

record qdma_descq_prefetch_ctxt =
  pf_sw_crdt :: u16
  pf_bypass :: u8
  pf_bufsz_idx :: u8
  pf_port_id :: u8
  pf_var_desc :: u8
  pf_num_pftch :: u16
  pf_err :: u8
  pf_pfch_en :: u8
  pf_pfch :: u8
  pf_valid :: u8

record qdma_descq_cmpt_ctxt =
  cm_bs_addr :: u64
  cm_vec :: u16
  cm_pidx :: u16
  cm_cidx :: u16
  cm_en_stat_desc :: u8
  cm_en_int :: u8
  cm_trig_mode :: u8
  cm_fnc_id :: u8
  cm_counter_idx :: u8
  cm_timer_idx :: u8
  cm_in_st :: u8
  cm_color :: u8
  cm_ringsz_idx :: u8
  cm_desc_sz :: u8
  cm_valid :: u8
  cm_err :: u8
  cm_user_trig_pend :: u8
  cm_timer_running :: u8
  cm_full_upd :: u8
  cm_ovf_chk_dis :: u8
  cm_at :: u8
  cm_int_aggr :: u8
  cm_dis_intr_on_vf :: u8
  cm_vio :: u8
  cm_dir_c2h :: u8
  cm_host_id :: u8
  cm_pasid :: u32
  cm_pasid_en :: u8
  cm_vio_eop :: u8
  cm_sh_cmpt :: u8

record qdma_indirect_intr_ctxt =
  ic_baddr_4k :: u64
  ic_vec :: u16
  ic_pidx :: u16
  ic_valid :: u8
  ic_int_st :: u8
  ic_color :: u8
  ic_page_size :: u8
  ic_at :: u8
  ic_host_id :: u8
  ic_pasid :: u32
  ic_pasid_en :: u8
  ic_func_id :: u16

record qdma_descq_context =
  dc_fmap :: qdma_fmap_cfg
  dc_sw :: qdma_descq_sw_ctxt
  dc_hw :: qdma_descq_hw_ctxt
  dc_cr :: qdma_descq_credit_ctxt
  dc_pf :: qdma_descq_prefetch_ctxt
  dc_cm :: qdma_descq_cmpt_ctxt

record qdma_dev_attributes =
  at_num_pfs :: u8
  at_num_qs :: u16
  at_flr_present :: bool
  at_st_en :: bool
  at_mm_en :: bool
  at_mm_cmpt_en :: bool
  at_mailbox_en :: bool
  at_debug_mode :: bool
  at_desc_eng_mode :: "2 word"
  at_mm_channel_max :: u8
  at_qid2vec_ctx :: bool
  at_cmpt_ovf_chk_dis :: bool
  at_mailbox_intr :: bool
  at_sw_desc_64b :: bool
  at_cmpt_desc_64b :: bool
  at_dynamic_bar :: bool
  at_legacy_intr :: bool
  at_cmpt_trig_count_timer :: bool

record qdma_csr_info =
  csr_ringsz :: "u16 list"
  csr_bufsz :: "u16 list"
  csr_timer_cnt :: "u8 list"
  csr_cnt_thres :: "u8 list"
  csr_wb_intvl :: u8

subsection \<open>Hardware access\<close>

datatype qdma_hw_access_type = QDMA_HW_ACCESS_READ | QDMA_HW_ACCESS_WRITE | QDMA_HW_ACCESS_CLEAR | QDMA_HW_ACCESS_INVALIDATE

datatype qdma_global_csr_type = QDMA_CSR_RING_SZ | QDMA_CSR_TIMER_CNT | QDMA_CSR_CNT_TH | QDMA_CSR_BUF_SZ

datatype hw_call =
    Sw_Ctx bool u16 "qdma_descq_sw_ctxt option" qdma_hw_access_type
  | Hw_Ctx bool u16 qdma_hw_access_type
  | Credit_Ctx bool u16 qdma_hw_access_type
  | Pfetch_Ctx u16 "qdma_descq_prefetch_ctxt option" qdma_hw_access_type
  | Cmpt_Ctx u16 "qdma_descq_cmpt_ctxt option" qdma_hw_access_type
  | Fmap_Conf u16 "qdma_fmap_cfg option" qdma_hw_access_type
  | Intr_Ctx u16 "qdma_indirect_intr_ctxt option" qdma_hw_access_type
  | Global_Csr qdma_global_csr_type
  | Get_Attributes
  | Read_Reg_List u16

record hw_reply =
  hw_rv :: int
  rd_ctxt :: qdma_descq_context
  rd_intr :: qdma_indirect_intr_ctxt
  rd_csr :: "u32 list"
  rd_attr :: qdma_dev_attributes
  rd_regs :: "(u32 \<times> u32) list"

type_synonym hw_env = "hw_call list \<Rightarrow> hw_reply"

subsection \<open>Messages\<close>

datatype mbox_cmpt_ctxt_type =
  QDMA_MBOX_CMPT_CTXT_ONLY | QDMA_MBOX_CMPT_WITH_MM | QDMA_MBOX_CMPT_WITH_ST | QDMA_MBOX_CMPT_CTXT_NONE

record mbox_descq_conf =
  dq_ring_bs_addr :: u64
  dq_cmpt_ring_bs_addr :: u64
  dq_forced_en :: "1 word"
  dq_en_bypass :: "1 word"
  dq_irq_arm :: "1 word"
  dq_wbi_intvl_en :: "1 word"
  dq_wbi_chk :: "1 word"
  dq_at :: "1 word"
  dq_wbk_en :: "1 word"
  dq_irq_en :: "1 word"
  dq_pfch_en :: "1 word"
  dq_en_bypass_prefetch :: "1 word"
  dq_dis_overflow_check :: "1 word"
  dq_cmpt_int_en :: "1 word"
  dq_cmpt_at :: "1 word"
  dq_cmpt_color :: "1 word"
  dq_cmpt_full_upd :: "1 word"
  dq_cmpl_stat_en :: "1 word"
  dq_desc_sz :: "2 word"
  dq_cmpt_desc_sz :: "2 word"
  dq_triggermode :: "3 word"
  dq_func_id :: u16
  dq_cnt_thres :: u8
  dq_timer_thres :: u8
  dq_intr_id :: "11 word"
  dq_intr_aggr :: "1 word"
  dq_ringsz :: u16
  dq_bufsz :: u16
  dq_cmpt_ringsz :: u16

record mbox_msg_hdr =
  hdr_op :: u8
  hdr_status :: u8
  hdr_src :: u16
  hdr_dst :: u16

record mbox_msg_hello =
  he_qbase :: u32
  he_qmax :: u32
  he_dev_cap :: qdma_dev_attributes
  he_dma_device_index :: u32

record mbox_msg_fmap =
  fm_qbase :: s32
  fm_qmax :: u32

record mbox_msg_active_qcnt =
  h2c_queues :: u32
  c2h_queues :: u32
  cmpt_queues :: u32

record mbox_msg_q_nitfy =
  qn_qid_hw :: u16
  qn_q_type :: qdma_dev_q_type

record mbox_msg_qctxt =
  qc_qid_hw :: u16
  qc_st :: bool
  qc_c2h :: bool
  qc_cmpt_ctxt_type :: mbox_cmpt_ctxt_type
  qc_descq_conf :: mbox_descq_conf
  qc_descq_ctxt :: qdma_descq_context

record mbox_msg_intr_ctxt =
  num_rings :: u8
  ring_index_list :: "u32 list"
  ictxt :: "qdma_indirect_intr_ctxt list"

record mbox_read_reg_list =
  group_num :: u16
  num_regs :: u16
  reg_list :: "(u32 \<times> u32) list"

record qdma_mbox_txrx =
  hdr :: mbox_msg_hdr
  hello :: mbox_msg_hello
  fmap :: mbox_msg_fmap
  intr_ctxt :: mbox_msg_intr_ctxt
  qctxt :: mbox_msg_qctxt
  csr :: qdma_csr_info
  qcnt :: mbox_msg_active_qcnt
  q_notify :: mbox_msg_q_nitfy
  reg_read_list :: mbox_read_reg_list

text \<open>All zero, as \<open>qdma_mbox_memset\<close> leaves a structure.\<close>

definition zero_fmap :: qdma_fmap_cfg where "zero_fmap = \<lparr>cfg_qbase = 0, cfg_qmax = 0\<rparr>"

definition zero_sw_ctxt :: qdma_descq_sw_ctxt where
  "zero_sw_ctxt = \<lparr>sw_ring_bs_addr = 0, sw_vec = 0, sw_pidx = 0, sw_irq_arm = 0, sw_fnc_id = 0, sw_qen = 0,
     sw_frcd_en = 0, sw_wbi_chk = 0, sw_wbi_intvl_en = 0, sw_at = 0, sw_fetch_max = 0, sw_rngsz_idx = 0,
     sw_desc_sz = 0, sw_bypass = 0, sw_mm_chn = 0, sw_wbk_en = 0, sw_irq_en = 0, sw_port_id = 0,
     sw_irq_no_last = 0, sw_err = 0, sw_err_wb_sent = 0, sw_irq_req = 0, sw_mrkr_dis = 0, sw_is_mm = 0,
     sw_intr_aggr = 0, sw_pasid_en = 0, sw_dis_intr_on_vf = 0, sw_virtio_en = 0, sw_pack_byp_out = 0,
     sw_irq_byp = 0, sw_host_id = 0, sw_pasid = 0, sw_virtio_dsc_base = 0\<rparr>"

definition zero_pf_ctxt :: qdma_descq_prefetch_ctxt where
  "zero_pf_ctxt = \<lparr>pf_sw_crdt = 0, pf_bypass = 0, pf_bufsz_idx = 0, pf_port_id = 0, pf_var_desc = 0,
     pf_num_pftch = 0, pf_err = 0, pf_pfch_en = 0, pf_pfch = 0, pf_valid = 0\<rparr>"

definition zero_cm_ctxt :: qdma_descq_cmpt_ctxt where
  "zero_cm_ctxt = \<lparr>cm_bs_addr = 0, cm_vec = 0, cm_pidx = 0, cm_cidx = 0, cm_en_stat_desc = 0, cm_en_int = 0,
     cm_trig_mode = 0, cm_fnc_id = 0, cm_counter_idx = 0, cm_timer_idx = 0, cm_in_st = 0, cm_color = 0,
     cm_ringsz_idx = 0, cm_desc_sz = 0, cm_valid = 0, cm_err = 0, cm_user_trig_pend = 0, cm_timer_running = 0,
     cm_full_upd = 0, cm_ovf_chk_dis = 0, cm_at = 0, cm_int_aggr = 0, cm_dis_intr_on_vf = 0, cm_vio = 0,
     cm_dir_c2h = 0, cm_host_id = 0, cm_pasid = 0, cm_pasid_en = 0, cm_vio_eop = 0, cm_sh_cmpt = 0\<rparr>"

definition zero_ic_ctxt :: qdma_indirect_intr_ctxt where
  "zero_ic_ctxt = \<lparr>ic_baddr_4k = 0, ic_vec = 0, ic_pidx = 0, ic_valid = 0, ic_int_st = 0, ic_color = 0,
     ic_page_size = 0, ic_at = 0, ic_host_id = 0, ic_pasid = 0, ic_pasid_en = 0, ic_func_id = 0\<rparr>"

definition zero_context :: qdma_descq_context where
  "zero_context = \<lparr>dc_fmap = zero_fmap, dc_sw = zero_sw_ctxt,
     dc_hw = \<lparr>hw_cidx = 0, hw_crd_use = 0, hw_dsc_pend = 0, hw_idl_stp_b = 0, hw_evt_pnd = 0, hw_fetch_pnd = 0\<rparr>,
     dc_cr = \<lparr>cr_credit = 0\<rparr>, dc_pf = zero_pf_ctxt, dc_cm = zero_cm_ctxt\<rparr>"

definition zero_descq_conf :: mbox_descq_conf where
  "zero_descq_conf = \<lparr>dq_ring_bs_addr = 0, dq_cmpt_ring_bs_addr = 0, dq_forced_en = 0, dq_en_bypass = 0,
     dq_irq_arm = 0, dq_wbi_intvl_en = 0, dq_wbi_chk = 0, dq_at = 0, dq_wbk_en = 0, dq_irq_en = 0, dq_pfch_en = 0,
     dq_en_bypass_prefetch = 0, dq_dis_overflow_check = 0, dq_cmpt_int_en = 0, dq_cmpt_at = 0, dq_cmpt_color = 0,
     dq_cmpt_full_upd = 0, dq_cmpl_stat_en = 0, dq_desc_sz = 0, dq_cmpt_desc_sz = 0, dq_triggermode = 0,
     dq_func_id = 0, dq_cnt_thres = 0, dq_timer_thres = 0, dq_intr_id = 0, dq_intr_aggr = 0, dq_ringsz = 0,
     dq_bufsz = 0, dq_cmpt_ringsz = 0\<rparr>"

definition zero_attr :: qdma_dev_attributes where
  "zero_attr = \<lparr>at_num_pfs = 0, at_num_qs = 0, at_flr_present = False, at_st_en = False, at_mm_en = False,
     at_mm_cmpt_en = False, at_mailbox_en = False, at_debug_mode = False, at_desc_eng_mode = 0,
     at_mm_channel_max = 0, at_qid2vec_ctx = False, at_cmpt_ovf_chk_dis = False, at_mailbox_intr = False,
     at_sw_desc_64b = False, at_cmpt_desc_64b = False, at_dynamic_bar = False, at_legacy_intr = False,
     at_cmpt_trig_count_timer = False\<rparr>"

abbreviation (input) QDMA_NUM_DATA_VEC_FOR_INTR_CXT :: nat where "QDMA_NUM_DATA_VEC_FOR_INTR_CXT \<equiv> 1"
abbreviation (input) QDMA_GLOBAL_CSR_ARRAY_SZ :: nat where "QDMA_GLOBAL_CSR_ARRAY_SZ \<equiv> 16"
abbreviation (input) QDMA_MAX_REGISTER_DUMP :: nat where "QDMA_MAX_REGISTER_DUMP \<equiv> 14"

definition zero_msg :: qdma_mbox_txrx where
  "zero_msg = \<lparr>hdr = \<lparr>hdr_op = 0, hdr_status = 0, hdr_src = 0, hdr_dst = 0\<rparr>,
     hello = \<lparr>he_qbase = 0, he_qmax = 0, he_dev_cap = zero_attr, he_dma_device_index = 0\<rparr>,
     fmap = \<lparr>fm_qbase = 0, fm_qmax = 0\<rparr>,
     intr_ctxt = \<lparr>num_rings = 0, ring_index_list = replicate QDMA_NUM_DATA_VEC_FOR_INTR_CXT 0,
       ictxt = replicate QDMA_NUM_DATA_VEC_FOR_INTR_CXT zero_ic_ctxt\<rparr>,
     qctxt = \<lparr>qc_qid_hw = 0, qc_st = False, qc_c2h = False, qc_cmpt_ctxt_type = QDMA_MBOX_CMPT_CTXT_ONLY,
       qc_descq_conf = zero_descq_conf, qc_descq_ctxt = zero_context\<rparr>,
     csr = \<lparr>csr_ringsz = replicate QDMA_GLOBAL_CSR_ARRAY_SZ 0, csr_bufsz = replicate QDMA_GLOBAL_CSR_ARRAY_SZ 0,
       csr_timer_cnt = replicate QDMA_GLOBAL_CSR_ARRAY_SZ 0, csr_cnt_thres = replicate QDMA_GLOBAL_CSR_ARRAY_SZ 0,
       csr_wb_intvl = 0\<rparr>,
     qcnt = \<lparr>h2c_queues = 0, c2h_queues = 0, cmpt_queues = 0\<rparr>,
     q_notify = \<lparr>qn_qid_hw = 0, qn_q_type = QDMA_DEV_Q_TYPE_H2C\<rparr>,
     reg_read_list = \<lparr>group_num = 0, num_regs = 0, reg_list = replicate QDMA_MAX_REGISTER_DUMP (0, 0)\<rparr>\<rparr>"

text \<open>The opcodes; a response has the request's opcode plus 0x80.\<close>

abbreviation (input) MBOX_OP_VF_BYE :: u8 where "MBOX_OP_VF_BYE \<equiv> 0"
abbreviation (input) MBOX_OP_HELLO :: u8 where "MBOX_OP_HELLO \<equiv> 1"
abbreviation (input) MBOX_OP_FMAP :: u8 where "MBOX_OP_FMAP \<equiv> 2"
abbreviation (input) MBOX_OP_CSR :: u8 where "MBOX_OP_CSR \<equiv> 3"
abbreviation (input) MBOX_OP_QREQ :: u8 where "MBOX_OP_QREQ \<equiv> 4"
abbreviation (input) MBOX_OP_QNOTIFY_ADD :: u8 where "MBOX_OP_QNOTIFY_ADD \<equiv> 5"
abbreviation (input) MBOX_OP_QNOTIFY_DEL :: u8 where "MBOX_OP_QNOTIFY_DEL \<equiv> 6"
abbreviation (input) MBOX_OP_GET_QACTIVE_CNT :: u8 where "MBOX_OP_GET_QACTIVE_CNT \<equiv> 7"
abbreviation (input) MBOX_OP_QCTXT_WRT :: u8 where "MBOX_OP_QCTXT_WRT \<equiv> 8"
abbreviation (input) MBOX_OP_QCTXT_RD :: u8 where "MBOX_OP_QCTXT_RD \<equiv> 9"
abbreviation (input) MBOX_OP_QCTXT_CLR :: u8 where "MBOX_OP_QCTXT_CLR \<equiv> 10"
abbreviation (input) MBOX_OP_QCTXT_INV :: u8 where "MBOX_OP_QCTXT_INV \<equiv> 11"
abbreviation (input) MBOX_OP_INTR_CTXT_WRT :: u8 where "MBOX_OP_INTR_CTXT_WRT \<equiv> 12"
abbreviation (input) MBOX_OP_INTR_CTXT_RD :: u8 where "MBOX_OP_INTR_CTXT_RD \<equiv> 13"
abbreviation (input) MBOX_OP_INTR_CTXT_CLR :: u8 where "MBOX_OP_INTR_CTXT_CLR \<equiv> 14"
abbreviation (input) MBOX_OP_INTR_CTXT_INV :: u8 where "MBOX_OP_INTR_CTXT_INV \<equiv> 15"
abbreviation (input) MBOX_OP_RESET_PREPARE :: u8 where "MBOX_OP_RESET_PREPARE \<equiv> 16"
abbreviation (input) MBOX_OP_RESET_DONE :: u8 where "MBOX_OP_RESET_DONE \<equiv> 17"
abbreviation (input) MBOX_OP_REG_LIST_READ :: u8 where "MBOX_OP_REG_LIST_READ \<equiv> 18"
abbreviation (input) MBOX_OP_PF_BYE :: u8 where "MBOX_OP_PF_BYE \<equiv> 19"
abbreviation (input) MBOX_OP_PF_RESET_VF_BYE :: u8 where "MBOX_OP_PF_RESET_VF_BYE \<equiv> 20"
abbreviation (input) MBOX_OP_RESET_PREPARE_RESP :: u8 where "MBOX_OP_RESET_PREPARE_RESP \<equiv> 144"
abbreviation (input) MBOX_OP_RESET_DONE_RESP :: u8 where "MBOX_OP_RESET_DONE_RESP \<equiv> 145"
abbreviation (input) MBOX_OP_PF_BYE_RESP :: u8 where "MBOX_OP_PF_BYE_RESP \<equiv> 147"
abbreviation (input) MBOX_MSG_OP_RSP_OFFSET :: u8 where "MBOX_MSG_OP_RSP_OFFSET \<equiv> 128"

end
