(* ===== verification/Qdma_Mbox.thy ===== *)
theory Qdma_Mbox
  imports Qdma_Ctxt
begin

text \<open>
  The physical function's side of the mailbox protocol (\<open>qdma_mbox_protocol.c\<close>): the composition of
  queue contexts from a virtual function's request, their programming, and the handler of received
  messages, together with the functions by which either side composes messages and reads responses.
  Every call of a hardware access function is recorded in order.
\<close>

unbundle bit_operations_syntax

subsection \<open>State\<close>

record mbox_pf =
  pf_rm :: qdma_rm
  pf_calls :: "hw_call list"

definition hw :: "hw_env \<Rightarrow> hw_call \<Rightarrow> mbox_pf \<Rightarrow> hw_reply \<times> mbox_pf" where
  "hw env c s = (let s = s\<lparr>pf_calls := pf_calls s @ [c]\<rparr> in (env (pf_calls s), s))"

definition hw_do :: "hw_env \<Rightarrow> hw_call \<Rightarrow> mbox_pf \<Rightarrow> int \<times> mbox_pf" where
  "hw_do env c s = (let (r, s) = hw env c s in (hw_rv r, s))"

text \<open>A run of calls that the first negative return value ends.\<close>

fun chain :: "('s \<Rightarrow> int \<times> 's) list \<Rightarrow> 's \<Rightarrow> int \<times> 's" where
  "chain [] s = (QDMA_SUCCESS, s)"
| "chain (a # as) s = (let (rv, s) = a s in if rv < 0 then (rv, s) else chain as s)"

abbreviation (input) QDMA_ERR_HWACC_FEATURE_NOT_SUPPORTED :: int where "QDMA_ERR_HWACC_FEATURE_NOT_SUPPORTED \<equiv> 7"
abbreviation (input) QDMA_ERR_MBOX_NUM_QUEUES :: int where "QDMA_ERR_MBOX_NUM_QUEUES \<equiv> 15"
abbreviation (input) QDMA_ERR_MBOX_INV_QID :: int where "QDMA_ERR_MBOX_INV_QID \<equiv> 16"
abbreviation (input) QDMA_ERR_MBOX_INV_RINGSZ :: int where "QDMA_ERR_MBOX_INV_RINGSZ \<equiv> 17"
abbreviation (input) QDMA_ERR_MBOX_INV_BUFSZ :: int where "QDMA_ERR_MBOX_INV_BUFSZ \<equiv> 18"
abbreviation (input) QDMA_ERR_MBOX_INV_CNTR_TH :: int where "QDMA_ERR_MBOX_INV_CNTR_TH \<equiv> 19"
abbreviation (input) QDMA_ERR_MBOX_INV_TMR_TH :: int where "QDMA_ERR_MBOX_INV_TMR_TH \<equiv> 20"
abbreviation (input) QDMA_ERR_MBOX_INV_MSG :: int where "QDMA_ERR_MBOX_INV_MSG \<equiv> 21"
abbreviation (input) QDMA_ERR_MBOX_REG_READ_FAILED :: int where "QDMA_ERR_MBOX_REG_READ_FAILED \<equiv> 24"

subsection \<open>Indices into the global registers\<close>

text \<open>The array of sixteen words that a read of a global register group fills.\<close>

definition csr_array :: "hw_reply \<Rightarrow> u32 list" where
  "csr_array r = take QDMA_GLOBAL_CSR_ARRAY_SZ (rd_csr r @ replicate QDMA_GLOBAL_CSR_ARRAY_SZ 0)"

definition get_ring_idx :: "hw_env \<Rightarrow> u16 \<Rightarrow> mbox_pf \<Rightarrow> (int \<times> u16) \<times> mbox_pf" where
  "get_ring_idx env ring_sz s =
     (let (r, s) = hw env (Global_Csr QDMA_CSR_RING_SZ) s in
      if hw_rv r \<noteq> 0 then ((hw_rv r, 0), s)
      else case find_pos (\<lambda>v. ucast ring_sz = v - 1) (csr_array r) of
        Some i \<Rightarrow> ((QDMA_SUCCESS, of_nat i), s)
      | None \<Rightarrow> ((- QDMA_ERR_MBOX_INV_RINGSZ, 0), s))"

definition get_buf_idx :: "hw_env \<Rightarrow> u16 \<Rightarrow> mbox_pf \<Rightarrow> (int \<times> u16) \<times> mbox_pf" where
  "get_buf_idx env buf_sz s =
     (let (r, s) = hw env (Global_Csr QDMA_CSR_BUF_SZ) s in
      if hw_rv r \<noteq> 0 then ((hw_rv r, 0), s)
      else case find_pos (\<lambda>v. v = ucast buf_sz) (csr_array r) of
        Some i \<Rightarrow> ((QDMA_SUCCESS, of_nat i), s)
      | None \<Rightarrow> ((- QDMA_ERR_MBOX_INV_BUFSZ, 0), s))"

definition get_cntr_idx :: "hw_env \<Rightarrow> u8 \<Rightarrow> mbox_pf \<Rightarrow> (int \<times> u8) \<times> mbox_pf" where
  "get_cntr_idx env cntr_val s =
     (let (r, s) = hw env (Global_Csr QDMA_CSR_CNT_TH) s in
      if hw_rv r \<noteq> 0 then ((hw_rv r, 0), s)
      else case find_pos (\<lambda>v. v = ucast cntr_val) (csr_array r) of
        Some i \<Rightarrow> ((QDMA_SUCCESS, of_nat i), s)
      | None \<Rightarrow> ((- QDMA_ERR_MBOX_INV_CNTR_TH, 0), s))"

definition get_tmr_idx :: "hw_env \<Rightarrow> u8 \<Rightarrow> mbox_pf \<Rightarrow> (int \<times> u8) \<times> mbox_pf" where
  "get_tmr_idx env tmr_val s =
     (let (r, s) = hw env (Global_Csr QDMA_CSR_TIMER_CNT) s in
      if hw_rv r \<noteq> 0 then ((hw_rv r, 0), s)
      else case find_pos (\<lambda>v. v = ucast tmr_val) (csr_array r) of
        Some i \<Rightarrow> ((QDMA_SUCCESS, of_nat i), s)
      | None \<Rightarrow> ((- QDMA_ERR_MBOX_INV_TMR_TH, 0), s))"

subsection \<open>Contexts of a queue\<close>

definition fill_sw_context :: "mbox_msg_qctxt \<Rightarrow> u16 \<Rightarrow> qdma_descq_sw_ctxt \<Rightarrow> qdma_descq_sw_ctxt" where
  "fill_sw_context q rng_idx sw =
     (let c = qc_descq_conf q;
          sw = sw\<lparr>sw_vec := ucast (dq_intr_id c), sw_intr_aggr := ucast (dq_intr_aggr c),
            sw_ring_bs_addr := dq_ring_bs_addr c, sw_wbi_chk := ucast (dq_wbi_chk c),
            sw_wbi_intvl_en := ucast (dq_wbi_intvl_en c), sw_rngsz_idx := ucast rng_idx,
            sw_bypass := ucast (dq_en_bypass c), sw_wbk_en := ucast (dq_wbk_en c),
            sw_irq_en := ucast (dq_irq_en c), sw_is_mm := NOT (of_bool (qc_st q)), sw_mm_chn := 0,
            sw_qen := 1, sw_frcd_en := ucast (dq_forced_en c), sw_desc_sz := ucast (dq_desc_sz c),
            sw_fnc_id := ucast (dq_func_id c), sw_irq_arm := ucast (dq_irq_arm c)\<rparr>
      in if qc_st q \<and> qc_c2h q
         then sw\<lparr>sw_irq_en := 0, sw_irq_arm := 0, sw_wbk_en := 0, sw_wbi_chk := 0\<rparr> else sw)"

definition mbox_compose_sw_context ::
  "hw_env \<Rightarrow> mbox_msg_qctxt \<Rightarrow> qdma_descq_sw_ctxt \<Rightarrow> mbox_pf \<Rightarrow> (int \<times> qdma_descq_sw_ctxt) \<times> mbox_pf" where
  "mbox_compose_sw_context env q sw s =
     (let ((rv, rng_idx), s) = get_ring_idx env (dq_ringsz (qc_descq_conf q)) s in
      if rv < 0 then ((rv, sw), s) else ((QDMA_SUCCESS, fill_sw_context q rng_idx sw), s))"

definition fill_prefetch_context :: "mbox_msg_qctxt \<Rightarrow> u16 \<Rightarrow> qdma_descq_prefetch_ctxt \<Rightarrow> qdma_descq_prefetch_ctxt" where
  "fill_prefetch_context q buf_idx pf =
     pf\<lparr>pf_valid := 1, pf_bypass := ucast (dq_en_bypass_prefetch (qc_descq_conf q)),
       pf_bufsz_idx := ucast buf_idx, pf_pfch_en := ucast (dq_pfch_en (qc_descq_conf q))\<rparr>"

definition mbox_compose_prefetch_context ::
  "hw_env \<Rightarrow> mbox_msg_qctxt \<Rightarrow> qdma_descq_prefetch_ctxt \<Rightarrow> mbox_pf \<Rightarrow> (int \<times> qdma_descq_prefetch_ctxt) \<times> mbox_pf" where
  "mbox_compose_prefetch_context env q pf s =
     (let ((rv, buf_idx), s) = get_buf_idx env (dq_bufsz (qc_descq_conf q)) s in
      if rv < 0 then ((rv, pf), s) else ((QDMA_SUCCESS, fill_prefetch_context q buf_idx pf), s))"

definition fill_cmpt_context :: "mbox_msg_qctxt \<Rightarrow> u8 \<Rightarrow> u8 \<Rightarrow> u16 \<Rightarrow> qdma_descq_cmpt_ctxt \<Rightarrow> qdma_descq_cmpt_ctxt" where
  "fill_cmpt_context q cntr_idx tmr_idx rng_idx cm =
     (let c = qc_descq_conf q in
      cm\<lparr>cm_bs_addr := dq_cmpt_ring_bs_addr c, cm_en_stat_desc := ucast (dq_cmpl_stat_en c),
        cm_en_int := ucast (dq_cmpt_int_en c), cm_trig_mode := ucast (dq_triggermode c),
        cm_fnc_id := ucast (dq_func_id c), cm_timer_idx := tmr_idx, cm_counter_idx := cntr_idx, cm_color := 1,
        cm_ringsz_idx := ucast rng_idx, cm_desc_sz := ucast (dq_cmpt_desc_sz c), cm_valid := 1,
        cm_ovf_chk_dis := ucast (dq_dis_overflow_check c), cm_vec := ucast (dq_intr_id c),
        cm_int_aggr := ucast (dq_intr_aggr c)\<rparr>)"

definition mbox_compose_cmpt_context ::
  "hw_env \<Rightarrow> mbox_msg_qctxt \<Rightarrow> qdma_descq_cmpt_ctxt \<Rightarrow> mbox_pf \<Rightarrow> (int \<times> qdma_descq_cmpt_ctxt) \<times> mbox_pf" where
  "mbox_compose_cmpt_context env q cm s =
     (let c = qc_descq_conf q;
          ((rv, cntr_idx), s) = get_cntr_idx env (dq_cnt_thres c) s in
      if rv < 0 then ((rv, cm), s)
      else let ((rv, tmr_idx), s) = get_tmr_idx env (dq_timer_thres c) s in
      if rv < 0 then ((rv, cm), s)
      else let ((rv, rng_idx), s) = get_ring_idx env (dq_cmpt_ringsz c) s in
      if rv < 0 then ((rv, cm), s)
      else ((QDMA_SUCCESS, fill_cmpt_context q cntr_idx tmr_idx rng_idx cm), s))"

abbreviation with_cmpt :: "mbox_cmpt_ctxt_type \<Rightarrow> bool" where
  "with_cmpt t \<equiv> t = QDMA_MBOX_CMPT_WITH_MM \<or> t = QDMA_MBOX_CMPT_WITH_ST"

text \<open>
  The range check: an error of the lookup is returned, while a queue outside the function's range
  makes the caller return the lookup's success code.
\<close>

definition range_check :: "u8 \<Rightarrow> u16 \<Rightarrow> u16 \<Rightarrow> mbox_pf \<Rightarrow> int option" where
  "range_check idx func qid s =
     (let (rv, _) = qdma_dev_qinfo_get (ucast idx) func (pf_rm s) in
      if rv < 0 then Some rv
      else if qdma_dev_is_queue_in_range (ucast idx) func (ucast qid) (pf_rm s) \<noteq> QDMA_DEV_Q_IN_RANGE then Some rv
      else None)"

definition queue_contexts_do ::
  "qdma_hw_access_type \<Rightarrow> hw_env \<Rightarrow> u8 \<Rightarrow> u16 \<Rightarrow> u16 \<Rightarrow> bool \<Rightarrow> bool \<Rightarrow> mbox_cmpt_ctxt_type \<Rightarrow> mbox_pf \<Rightarrow> int \<times> mbox_pf" where
  "queue_contexts_do acc env idx func qid st c2h t s =
     (if t = QDMA_MBOX_CMPT_CTXT_ONLY then chain [hw_do env (Cmpt_Ctx qid None acc)] s
      else case range_check idx func qid s of
        Some rv \<Rightarrow> (rv, s)
      | None \<Rightarrow> chain ([hw_do env (Sw_Ctx c2h qid None acc), hw_do env (Hw_Ctx c2h qid acc),
                        hw_do env (Credit_Ctx c2h qid acc)] @
                       (if st \<and> c2h then [hw_do env (Pfetch_Ctx qid None acc)] else []) @
                       (if with_cmpt t then [hw_do env (Cmpt_Ctx qid None acc)] else [])) s)"

definition mbox_clear_queue_contexts where
  "mbox_clear_queue_contexts = queue_contexts_do QDMA_HW_ACCESS_CLEAR"

definition mbox_invalidate_queue_contexts where
  "mbox_invalidate_queue_contexts = queue_contexts_do QDMA_HW_ACCESS_INVALIDATE"

definition mbox_write_queue_contexts :: "hw_env \<Rightarrow> u8 \<Rightarrow> mbox_msg_qctxt \<Rightarrow> mbox_pf \<Rightarrow> int \<times> mbox_pf" where
  "mbox_write_queue_contexts env idx q s =
     (let func = dq_func_id (qc_descq_conf q); qid = qc_qid_hw q; t = qc_cmpt_ctxt_type q;
          st_c2h = (qc_st q \<and> qc_c2h q) in
      case range_check idx func qid s of
        Some rv \<Rightarrow> (rv, s)
      | None \<Rightarrow>
        if t = QDMA_MBOX_CMPT_CTXT_ONLY then
          let ((rv, cm), s) = mbox_compose_cmpt_context env q zero_cm_ctxt s in
          if rv < 0 then (rv, s)
          else chain [hw_do env (Cmpt_Ctx qid None QDMA_HW_ACCESS_CLEAR),
                      hw_do env (Cmpt_Ctx qid (Some cm) QDMA_HW_ACCESS_WRITE)] s
        else
          let ((rv, sw), s) = mbox_compose_sw_context env q zero_sw_ctxt s in
          if rv < 0 then (rv, s)
          else
          let ((rv, pf), s) = (if st_c2h then mbox_compose_prefetch_context env q zero_pf_ctxt s
                               else ((QDMA_SUCCESS, zero_pf_ctxt), s)) in
          if rv < 0 then (rv, s)
          else
          let ((rv, cm), s) = (if with_cmpt t then mbox_compose_cmpt_context env q zero_cm_ctxt s
                               else ((QDMA_SUCCESS, zero_cm_ctxt), s)) in
          if rv < 0 then (rv, s)
          else chain ([mbox_clear_queue_contexts env idx func qid (qc_st q) (qc_c2h q) t,
                       hw_do env (Sw_Ctx (qc_c2h q) qid (Some sw) QDMA_HW_ACCESS_WRITE)] @
                      (if st_c2h then [hw_do env (Pfetch_Ctx qid (Some pf) QDMA_HW_ACCESS_WRITE)] else []) @
                      (if with_cmpt t then [hw_do env (Cmpt_Ctx qid (Some cm) QDMA_HW_ACCESS_WRITE)] else [])) s)"

text \<open>A read fills its part of the context when it succeeds.\<close>

definition hw_get :: "hw_env \<Rightarrow> hw_call \<Rightarrow> (qdma_descq_context \<Rightarrow> qdma_descq_context \<Rightarrow> qdma_descq_context) \<Rightarrow>
    qdma_descq_context \<times> mbox_pf \<Rightarrow> int \<times> qdma_descq_context \<times> mbox_pf" where
  "hw_get env c put = (\<lambda>(ctxt, s). let (r, s) = hw env c s in
     (hw_rv r, if hw_rv r < 0 then ctxt else put (rd_ctxt r) ctxt, s))"

definition mbox_read_queue_contexts ::
  "hw_env \<Rightarrow> u16 \<Rightarrow> u16 \<Rightarrow> bool \<Rightarrow> bool \<Rightarrow> mbox_cmpt_ctxt_type \<Rightarrow> qdma_descq_context \<times> mbox_pf \<Rightarrow>
   int \<times> qdma_descq_context \<times> mbox_pf" where
  "mbox_read_queue_contexts env func qid st c2h t =
     chain ([hw_get env (Sw_Ctx c2h qid None QDMA_HW_ACCESS_READ) (\<lambda>r c. c\<lparr>dc_sw := dc_sw r\<rparr>),
             hw_get env (Hw_Ctx c2h qid QDMA_HW_ACCESS_READ) (\<lambda>r c. c\<lparr>dc_hw := dc_hw r\<rparr>),
             hw_get env (Credit_Ctx c2h qid QDMA_HW_ACCESS_READ) (\<lambda>r c. c\<lparr>dc_cr := dc_cr r\<rparr>),
             hw_get env (Fmap_Conf func None QDMA_HW_ACCESS_READ) (\<lambda>r c. c\<lparr>dc_fmap := dc_fmap r\<rparr>)] @
            (if st \<and> c2h then [hw_get env (Pfetch_Ctx qid None QDMA_HW_ACCESS_READ) (\<lambda>r c. c\<lparr>dc_pf := dc_pf r\<rparr>)] else []) @
            (if with_cmpt t then [hw_get env (Cmpt_Ctx qid None QDMA_HW_ACCESS_READ) (\<lambda>r c. c\<lparr>dc_cm := dc_cm r\<rparr>)] else []))"

subsection \<open>The physical function's handler\<close>

text \<open>What a branch of the handler leaves: the return value of its last call, the response and the state.\<close>

type_synonym mbox_out = "int \<times> qdma_mbox_txrx \<times> mbox_pf"

abbreviation (input) QDMA_MBOX_VF_ONLINE :: int where "QDMA_MBOX_VF_ONLINE \<equiv> 1"
abbreviation (input) QDMA_MBOX_VF_OFFLINE :: int where "QDMA_MBOX_VF_OFFLINE \<equiv> - 1"
abbreviation (input) QDMA_MBOX_VF_RESET :: int where "QDMA_MBOX_VF_RESET \<equiv> 2"
abbreviation (input) QDMA_MBOX_PF_RESET_DONE :: int where "QDMA_MBOX_PF_RESET_DONE \<equiv> 3"
abbreviation (input) QDMA_MBOX_PF_BYE :: int where "QDMA_MBOX_PF_BYE \<equiv> 4"
abbreviation (input) QDMA_MBOX_VF_RESET_BYE :: int where "QDMA_MBOX_VF_RESET_BYE \<equiv> 5"

definition op_bye :: "hw_env \<Rightarrow> u8 \<Rightarrow> qdma_mbox_txrx \<Rightarrow> qdma_mbox_txrx \<Rightarrow> mbox_pf \<Rightarrow> mbox_out" where
  "op_bye env idx rcv resp s =
     (let src = hdr_src (hdr rcv);
          (rv, s) = hw_do env (Fmap_Conf src (Some zero_fmap) QDMA_HW_ACCESS_WRITE) s
      in (rv, resp, s\<lparr>pf_rm := qdma_dev_entry_destroy (ucast idx) src (pf_rm s)\<rparr>))"

definition op_hello :: "hw_env \<Rightarrow> u8 \<Rightarrow> qdma_mbox_txrx \<Rightarrow> qdma_mbox_txrx \<Rightarrow> mbox_pf \<Rightarrow> mbox_out" where
  "op_hello env idx rcv resp s =
     (let src = hdr_src (hdr rcv);
          (rv, info) = qdma_dev_qinfo_get (ucast idx) src (pf_rm s);
          fm = (case info of None \<Rightarrow> fmap rcv | Some (b, n) \<Rightarrow> \<lparr>fm_qbase = b, fm_qmax = n\<rparr>);
          (rv, rm) = (if rv < 0 then qdma_dev_entry_create (ucast idx) src (pf_rm s) else (rv, pf_rm s));
          s = s\<lparr>pf_rm := rm\<rparr>;
          (resp, s) = (if rv = 0 then
             let (r, s) = hw env Get_Attributes s
             in (resp\<lparr>hello := (hello resp)\<lparr>he_qbase := fm_qbase fm, he_qmax := fm_qmax fm,
                   he_dma_device_index := ucast idx, he_dev_cap := rd_attr r\<rparr>\<rparr>, s)
             else (resp, s));
          (_, s) = hw_do env (Fmap_Conf src (Some zero_fmap) QDMA_HW_ACCESS_WRITE) s
      in (rv, resp, s))"

definition op_fmap :: "hw_env \<Rightarrow> qdma_mbox_txrx \<Rightarrow> mbox_pf \<Rightarrow> int \<times> mbox_pf" where
  "op_fmap env rcv s =
     hw_do env (Fmap_Conf (hdr_src (hdr rcv))
       (Some \<lparr>cfg_qbase = ucast (fm_qbase (fmap rcv)), cfg_qmax = ucast (fm_qmax (fmap rcv))\<rparr>) QDMA_HW_ACCESS_WRITE) s"

text \<open>The four register groups; a group that the device does not support is tolerated after the first.\<close>

definition csr_failed :: "int \<Rightarrow> bool" where
  "csr_failed rv \<longleftrightarrow> rv < 0 \<and> rv \<noteq> - QDMA_ERR_HWACC_FEATURE_NOT_SUPPORTED"

definition op_csr :: "hw_env \<Rightarrow> qdma_mbox_txrx \<Rightarrow> mbox_pf \<Rightarrow> mbox_out" where
  "op_csr env resp s =
     (let (r, s) = hw env (Global_Csr QDMA_CSR_RING_SZ) s; rv = hw_rv r; ringsz = csr_array r in
      if rv < 0 then (rv, resp, s)
      else
      let (a, s) = hw env Get_Attributes s; cap = rd_attr a; zeros = replicate QDMA_GLOBAL_CSR_ARRAY_SZ 0;
          (rv, bufsz, s) = (if at_st_en cap
             then let (r, s) = hw env (Global_Csr QDMA_CSR_BUF_SZ) s in (hw_rv r, csr_array r, s) else (rv, zeros, s)) in
      if at_st_en cap \<and> csr_failed rv then (rv, resp, s)
      else
      let more = (at_st_en cap \<or> at_mm_cmpt_en cap);
          (rv, tmr_th, s) = (if more
             then let (r, s) = hw env (Global_Csr QDMA_CSR_TIMER_CNT) s in (hw_rv r, csr_array r, s) else (rv, zeros, s)) in
      if more \<and> csr_failed rv then (rv, resp, s)
      else
      let (rv, cntr_th, s) = (if more
             then let (r, s) = hw env (Global_Csr QDMA_CSR_CNT_TH) s in (hw_rv r, csr_array r, s) else (rv, zeros, s)) in
      if more \<and> csr_failed rv then (rv, resp, s)
      else
      let info = (csr resp)\<lparr>csr_ringsz := map ucast ringsz\<rparr>;
          info = (if rv = 0 then info\<lparr>csr_bufsz := map ucast bufsz, csr_timer_cnt := map ucast tmr_th,
                     csr_cnt_thres := map ucast cntr_th\<rparr> else info)
      in (if rv = - QDMA_ERR_HWACC_FEATURE_NOT_SUPPORTED then QDMA_SUCCESS else rv, resp\<lparr>csr := info\<rparr>, s))"

definition op_qreq :: "hw_env \<Rightarrow> u8 \<Rightarrow> qdma_mbox_txrx \<Rightarrow> qdma_mbox_txrx \<Rightarrow> mbox_pf \<Rightarrow> mbox_out" where
  "op_qreq env idx rcv resp s =
     (let src = hdr_src (hdr rcv);
          (rv, _, rm) = qdma_dev_update (ucast idx) src (fm_qmax (fmap rcv)) (fm_qbase (fmap rcv)) (pf_rm s);
          s = s\<lparr>pf_rm := rm\<rparr>;
          (rv, resp) = (if rv = 0 then
             let (rv, info) = qdma_dev_qinfo_get (ucast idx) src (pf_rm s)
             in (rv, case info of None \<Rightarrow> resp | Some (b, n) \<Rightarrow> resp\<lparr>fmap := \<lparr>fm_qbase = b, fm_qmax = n\<rparr>\<rparr>)
             else (rv, resp))
      in if rv < 0 then (- QDMA_ERR_MBOX_NUM_QUEUES, resp, s)
         else let (_, s) = hw_do env (Fmap_Conf src (Some zero_fmap) QDMA_HW_ACCESS_WRITE) s in (rv, resp, s))"

definition op_qnotify ::
  "(u32 \<Rightarrow> u16 \<Rightarrow> qdma_dev_q_type \<Rightarrow> qdma_rm \<Rightarrow> int \<times> qdma_rm) \<Rightarrow> u8 \<Rightarrow> qdma_mbox_txrx \<Rightarrow> qdma_mbox_txrx \<Rightarrow> mbox_pf \<Rightarrow> mbox_out" where
  "op_qnotify count idx rcv resp s =
     (let src = hdr_src (hdr rcv); n = q_notify rcv in
      if qdma_dev_is_queue_in_range (ucast idx) src (ucast (qn_qid_hw n)) (pf_rm s) \<noteq> QDMA_DEV_Q_IN_RANGE
      then (- QDMA_ERR_MBOX_INV_QID, resp, s)
      else let (rv, rm) = count (ucast idx) src (qn_q_type n) (pf_rm s) in (rv, resp, s\<lparr>pf_rm := rm\<rparr>))"

definition op_active_cnt :: "u8 \<Rightarrow> qdma_mbox_txrx \<Rightarrow> qdma_mbox_txrx \<Rightarrow> mbox_pf \<Rightarrow> mbox_out" where
  "op_active_cnt idx rcv resp s =
     (let cnt = (\<lambda>t. qdma_get_device_active_queue_count (ucast idx) (hdr_src (hdr rcv)) t (pf_rm s));
          rv = cnt QDMA_DEV_Q_TYPE_CMPT
      in (rv, resp\<lparr>qcnt := \<lparr>h2c_queues = word_of_int (cnt QDMA_DEV_Q_TYPE_H2C),
            c2h_queues = word_of_int (cnt QDMA_DEV_Q_TYPE_C2H), cmpt_queues = word_of_int rv\<rparr>\<rparr>, s))"

text \<open>The loops over the interrupt rings of a message; ring and context arrays have one element.\<close>

definition set_status :: "int \<Rightarrow> qdma_mbox_txrx \<Rightarrow> qdma_mbox_txrx" where
  "set_status rv resp = (if rv < 0 then resp\<lparr>hdr := (hdr resp)\<lparr>hdr_status := word_of_int rv\<rparr>\<rparr> else resp)"

definition intr_write :: "hw_env \<Rightarrow> mbox_msg_intr_ctxt \<Rightarrow> nat \<Rightarrow> mbox_out \<Rightarrow> mbox_out res" where
  "intr_write env ic i = (\<lambda>(_, resp, s).
     rbind (rd (ring_index_list ic) i) (\<lambda>ring.
     rbind (rd (ictxt ic) i) (\<lambda>ctxt.
       let (rv, s) = hw_do env (Intr_Ctx (ucast ring) None QDMA_HW_ACCESS_CLEAR) s;
           resp = set_status rv resp;
           (rv, s) = hw_do env (Intr_Ctx (ucast ring) (Some ctxt) QDMA_HW_ACCESS_WRITE) s
       in Inr (rv, set_status rv resp, s))))"

definition intr_read :: "hw_env \<Rightarrow> mbox_msg_intr_ctxt \<Rightarrow> nat \<Rightarrow> mbox_out \<Rightarrow> mbox_out res" where
  "intr_read env ic i = (\<lambda>(_, resp, s).
     rbind (rd (ring_index_list ic) i) (\<lambda>ring.
       let (r, s) = hw env (Intr_Ctx (ucast ring) None QDMA_HW_ACCESS_READ) s; rv = hw_rv r in
       rbind (wr (ictxt (intr_ctxt resp)) i (rd_intr r)) (\<lambda>cs.
         Inr (rv, if rv < 0 then set_status rv resp
                  else resp\<lparr>intr_ctxt := (intr_ctxt resp)\<lparr>ictxt := cs\<rparr>\<rparr>, s))))"

definition intr_do :: "qdma_hw_access_type \<Rightarrow> hw_env \<Rightarrow> mbox_msg_intr_ctxt \<Rightarrow> nat \<Rightarrow> mbox_out \<Rightarrow> mbox_out res" where
  "intr_do acc env ic i = (\<lambda>(_, resp, s).
     rbind (rd (ring_index_list ic) i) (\<lambda>ring.
       let (rv, s) = hw_do env (Intr_Ctx (ucast ring) None acc) s in Inr (rv, set_status rv resp, s)))"

definition op_intr :: "(mbox_msg_intr_ctxt \<Rightarrow> nat \<Rightarrow> mbox_out \<Rightarrow> mbox_out res) \<Rightarrow> qdma_mbox_txrx \<Rightarrow> qdma_mbox_txrx \<Rightarrow> mbox_pf \<Rightarrow> mbox_out res" where
  "op_intr body rcv resp s =
     foldM (body (intr_ctxt rcv)) [0..<unat (num_rings (intr_ctxt rcv))] (QDMA_SUCCESS, resp, s)"

definition op_qctxt :: "(hw_env \<Rightarrow> u8 \<Rightarrow> u16 \<Rightarrow> u16 \<Rightarrow> bool \<Rightarrow> bool \<Rightarrow> mbox_cmpt_ctxt_type \<Rightarrow> mbox_pf \<Rightarrow> int \<times> mbox_pf) \<Rightarrow>
    hw_env \<Rightarrow> u8 \<Rightarrow> qdma_mbox_txrx \<Rightarrow> qdma_mbox_txrx \<Rightarrow> mbox_pf \<Rightarrow> mbox_out" where
  "op_qctxt f env idx rcv resp s =
     (let q = qctxt rcv;
          (rv, s) = f env idx (hdr_src (hdr rcv)) (qc_qid_hw q) (qc_st q) (qc_c2h q) (qc_cmpt_ctxt_type q) s
      in (rv, resp, s))"

definition op_qctxt_read :: "hw_env \<Rightarrow> qdma_mbox_txrx \<Rightarrow> qdma_mbox_txrx \<Rightarrow> mbox_pf \<Rightarrow> mbox_out" where
  "op_qctxt_read env rcv resp s =
     (let q = qctxt rcv;
          (rv, c, s) = mbox_read_queue_contexts env (hdr_src (hdr rcv)) (qc_qid_hw q) (qc_st q) (qc_c2h q)
             (qc_cmpt_ctxt_type q) (qc_descq_ctxt (qctxt resp), s)
      in (rv, resp\<lparr>qctxt := (qctxt resp)\<lparr>qc_descq_ctxt := c\<rparr>\<rparr>, s))"

definition op_qctxt_write :: "hw_env \<Rightarrow> u8 \<Rightarrow> qdma_mbox_txrx \<Rightarrow> qdma_mbox_txrx \<Rightarrow> mbox_pf \<Rightarrow> mbox_out" where
  "op_qctxt_write env idx rcv resp s =
     (let q = (qctxt rcv)\<lparr>qc_descq_conf := (qc_descq_conf (qctxt rcv))\<lparr>dq_func_id := hdr_src (hdr rcv)\<rparr>\<rparr>;
          (rv, s) = mbox_write_queue_contexts env idx q s
      in (rv, resp, s))"

definition op_reg_list :: "hw_env \<Rightarrow> qdma_mbox_txrx \<Rightarrow> qdma_mbox_txrx \<Rightarrow> mbox_pf \<Rightarrow> mbox_out" where
  "op_reg_list env rcv resp s =
     (let (r, s) = hw env (Read_Reg_List (group_num (reg_read_list rcv))) s; rv = hw_rv r;
          regs = take QDMA_MAX_REGISTER_DUMP (rd_regs r);
          resp = (if rv < 0 then resp else resp\<lparr>reg_read_list := (reg_read_list resp)\<lparr>num_regs := of_nat (length regs),
             reg_list := regs @ drop (length regs) (reg_list (reg_read_list resp))\<rparr>\<rparr>)
      in (if rv < 0 \<or> num_regs (reg_read_list resp) = 0 then - QDMA_ERR_MBOX_REG_READ_FAILED else rv, resp, s))"

text \<open>The common exit: the response's header.\<close>

definition exit_func :: "u16 \<Rightarrow> qdma_mbox_txrx \<Rightarrow> int \<Rightarrow> qdma_mbox_txrx \<Rightarrow> qdma_mbox_txrx" where
  "exit_func func rcv rv resp = resp\<lparr>hdr := \<lparr>hdr_op = hdr_op (hdr rcv) + MBOX_MSG_OP_RSP_OFFSET,
     hdr_status = word_of_int rv, hdr_src = func, hdr_dst = hdr_src (hdr rcv)\<rparr>\<rparr>"

definition reply :: "u16 \<Rightarrow> qdma_mbox_txrx \<Rightarrow> int \<Rightarrow> mbox_out \<Rightarrow> int \<times> qdma_mbox_txrx \<times> mbox_pf" where
  "reply func rcv ret = (\<lambda>(rv, resp, s). (ret, exit_func func rcv rv resp, s))"

definition qdma_mbox_pf_rcv_msg_handler ::
  "hw_env \<Rightarrow> u8 \<Rightarrow> u16 \<Rightarrow> qdma_mbox_txrx \<Rightarrow> qdma_mbox_txrx \<Rightarrow> mbox_pf \<Rightarrow> (int \<times> qdma_mbox_txrx \<times> mbox_pf) res" where
  "qdma_mbox_pf_rcv_msg_handler env idx func rcv resp s =
     (let op = hdr_op (hdr rcv); ok = (\<lambda>out. Inr (reply func rcv 0 out)) in
      if op = MBOX_OP_VF_BYE then Inr (reply func rcv QDMA_MBOX_VF_OFFLINE (op_bye env idx rcv resp s))
      else if op = MBOX_OP_PF_RESET_VF_BYE then Inr (reply func rcv QDMA_MBOX_VF_RESET_BYE (op_bye env idx rcv resp s))
      else if op = MBOX_OP_HELLO then Inr (reply func rcv QDMA_MBOX_VF_ONLINE (op_hello env idx rcv resp s))
      else if op = MBOX_OP_FMAP then
        (let (rv, s) = op_fmap env rcv s in if rv < 0 then Inr (rv, resp, s) else ok (rv, resp, s))
      else if op = MBOX_OP_CSR then ok (op_csr env resp s)
      else if op = MBOX_OP_QREQ then ok (op_qreq env idx rcv resp s)
      else if op = MBOX_OP_QNOTIFY_ADD then ok (op_qnotify qdma_dev_increment_active_queue idx rcv resp s)
      else if op = MBOX_OP_QNOTIFY_DEL then ok (op_qnotify qdma_dev_decrement_active_queue idx rcv resp s)
      else if op = MBOX_OP_GET_QACTIVE_CNT then ok (op_active_cnt idx rcv resp s)
      else if op = MBOX_OP_INTR_CTXT_WRT then rbind (op_intr (intr_write env) rcv resp s) ok
      else if op = MBOX_OP_INTR_CTXT_RD then rbind (op_intr (intr_read env) rcv resp s) ok
      else if op = MBOX_OP_INTR_CTXT_CLR then rbind (op_intr (intr_do QDMA_HW_ACCESS_CLEAR env) rcv resp s) ok
      else if op = MBOX_OP_INTR_CTXT_INV then rbind (op_intr (intr_do QDMA_HW_ACCESS_INVALIDATE env) rcv resp s) ok
      else if op = MBOX_OP_QCTXT_INV then ok (op_qctxt mbox_invalidate_queue_contexts env idx rcv resp s)
      else if op = MBOX_OP_QCTXT_CLR then ok (op_qctxt mbox_clear_queue_contexts env idx rcv resp s)
      else if op = MBOX_OP_QCTXT_RD then ok (op_qctxt_read env rcv resp s)
      else if op = MBOX_OP_QCTXT_WRT then ok (op_qctxt_write env idx rcv resp s)
      else if op = MBOX_OP_RESET_PREPARE_RESP then Inr (QDMA_MBOX_VF_RESET, resp, s)
      else if op = MBOX_OP_RESET_DONE_RESP then Inr (QDMA_MBOX_PF_RESET_DONE, resp, s)
      else if op = MBOX_OP_REG_LIST_READ then ok (op_reg_list env rcv resp s)
      else if op = MBOX_OP_PF_BYE_RESP then Inr (QDMA_MBOX_PF_BYE, resp, s)
      else Inr (- QDMA_ERR_MBOX_INV_MSG, resp, s))"

end
