(* ===== verification/Qdma_Mbox_Hw.thy ===== *)
theory Qdma_Mbox_Hw
  imports Qdma_Mbox
begin

text \<open>
  The rest of the mailbox protocol: the messages either side composes, what it reads from a response,
  the virtual function's handler, and the transfer of a message through the mailbox registers.  A
  register access is recorded in order, and the value a read returns is a function of the accesses
  made so far.  On the register level a message is its 32 words; its header is the first six bytes.
\<close>

subsection \<open>Composing messages\<close>

text \<open>The buffer a message is composed in may be a null pointer.\<close>

type_synonym raw_data = "qdma_mbox_txrx option"

abbreviation (input) QDMA_ERR_INV_PARAM :: int where "QDMA_ERR_INV_PARAM \<equiv> 1"

definition compose :: "u8 \<Rightarrow> u16 \<Rightarrow> (qdma_mbox_txrx \<Rightarrow> qdma_mbox_txrx) \<Rightarrow> raw_data \<Rightarrow> int \<times> raw_data" where
  "compose op func fill raw =
     (case raw of
        None \<Rightarrow> (- QDMA_ERR_INV_PARAM, None)
      | Some _ \<Rightarrow> (QDMA_SUCCESS, Some (fill (zero_msg\<lparr>hdr := (hdr zero_msg)\<lparr>hdr_op := op, hdr_src := func\<rparr>\<rparr>))))"

definition qmda_mbox_compose_vf_online :: "u16 \<Rightarrow> u16 \<Rightarrow> s32 \<Rightarrow> raw_data \<Rightarrow> int \<times> raw_data" where
  "qmda_mbox_compose_vf_online func qmax base =
     compose MBOX_OP_HELLO func (\<lambda>m. m\<lparr>fmap := \<lparr>fm_qbase = base, fm_qmax = ucast qmax\<rparr>\<rparr>)"

definition qdma_mbox_compose_vf_offline :: "u16 \<Rightarrow> raw_data \<Rightarrow> int \<times> raw_data" where
  "qdma_mbox_compose_vf_offline func = compose MBOX_OP_VF_BYE func id"

definition qdma_mbox_compose_vf_reset_offline :: "u16 \<Rightarrow> raw_data \<Rightarrow> int \<times> raw_data" where
  "qdma_mbox_compose_vf_reset_offline func = compose MBOX_OP_PF_RESET_VF_BYE func id"

definition qdma_mbox_compose_vf_qreq :: "u16 \<Rightarrow> u16 \<Rightarrow> s32 \<Rightarrow> raw_data \<Rightarrow> int \<times> raw_data" where
  "qdma_mbox_compose_vf_qreq func qmax base =
     compose MBOX_OP_QREQ func (\<lambda>m. m\<lparr>fmap := \<lparr>fm_qbase = base, fm_qmax = ucast qmax\<rparr>\<rparr>)"

definition qdma_mbox_compose_vf_notify_qadd :: "u16 \<Rightarrow> u16 \<Rightarrow> qdma_dev_q_type \<Rightarrow> raw_data \<Rightarrow> int \<times> raw_data" where
  "qdma_mbox_compose_vf_notify_qadd func qid t =
     compose MBOX_OP_QNOTIFY_ADD func (\<lambda>m. m\<lparr>q_notify := \<lparr>qn_qid_hw = qid, qn_q_type = t\<rparr>\<rparr>)"

definition qdma_mbox_compose_vf_get_device_active_qcnt :: "u16 \<Rightarrow> raw_data \<Rightarrow> int \<times> raw_data" where
  "qdma_mbox_compose_vf_get_device_active_qcnt func = compose MBOX_OP_GET_QACTIVE_CNT func id"

definition qdma_mbox_compose_vf_notify_qdel :: "u16 \<Rightarrow> u16 \<Rightarrow> qdma_dev_q_type \<Rightarrow> raw_data \<Rightarrow> int \<times> raw_data" where
  "qdma_mbox_compose_vf_notify_qdel func qid t =
     compose MBOX_OP_QNOTIFY_DEL func (\<lambda>m. m\<lparr>q_notify := \<lparr>qn_qid_hw = qid, qn_q_type = t\<rparr>\<rparr>)"

definition qdma_mbox_compose_vf_fmap_prog :: "u16 \<Rightarrow> u16 \<Rightarrow> s32 \<Rightarrow> raw_data \<Rightarrow> int \<times> raw_data" where
  "qdma_mbox_compose_vf_fmap_prog func qmax base =
     compose MBOX_OP_FMAP func (\<lambda>m. m\<lparr>fmap := \<lparr>fm_qbase = base, fm_qmax = ucast qmax\<rparr>\<rparr>)"

definition fill_qctxt :: "u16 \<Rightarrow> bool \<Rightarrow> bool \<Rightarrow> mbox_cmpt_ctxt_type \<Rightarrow> qdma_mbox_txrx \<Rightarrow> qdma_mbox_txrx" where
  "fill_qctxt qid st c2h t m = m\<lparr>qctxt := (qctxt m)\<lparr>qc_qid_hw := qid, qc_c2h := c2h, qc_st := st, qc_cmpt_ctxt_type := t\<rparr>\<rparr>"

definition qdma_mbox_compose_vf_qctxt_write ::
  "u16 \<Rightarrow> u16 \<Rightarrow> bool \<Rightarrow> bool \<Rightarrow> mbox_cmpt_ctxt_type \<Rightarrow> mbox_descq_conf \<Rightarrow> raw_data \<Rightarrow> int \<times> raw_data" where
  "qdma_mbox_compose_vf_qctxt_write func qid st c2h t conf =
     compose MBOX_OP_QCTXT_WRT func
       (\<lambda>m. let m = fill_qctxt qid st c2h t m in m\<lparr>qctxt := (qctxt m)\<lparr>qc_descq_conf := conf\<rparr>\<rparr>)"

definition qdma_mbox_compose_vf_qctxt_read :: "u16 \<Rightarrow> u16 \<Rightarrow> bool \<Rightarrow> bool \<Rightarrow> mbox_cmpt_ctxt_type \<Rightarrow> raw_data \<Rightarrow> int \<times> raw_data" where
  "qdma_mbox_compose_vf_qctxt_read func qid st c2h t = compose MBOX_OP_QCTXT_RD func (fill_qctxt qid st c2h t)"

definition qdma_mbox_compose_vf_qctxt_invalidate :: "u16 \<Rightarrow> u16 \<Rightarrow> bool \<Rightarrow> bool \<Rightarrow> mbox_cmpt_ctxt_type \<Rightarrow> raw_data \<Rightarrow> int \<times> raw_data" where
  "qdma_mbox_compose_vf_qctxt_invalidate func qid st c2h t = compose MBOX_OP_QCTXT_INV func (fill_qctxt qid st c2h t)"

definition qdma_mbox_compose_vf_qctxt_clear :: "u16 \<Rightarrow> u16 \<Rightarrow> bool \<Rightarrow> bool \<Rightarrow> mbox_cmpt_ctxt_type \<Rightarrow> raw_data \<Rightarrow> int \<times> raw_data" where
  "qdma_mbox_compose_vf_qctxt_clear func qid st c2h t = compose MBOX_OP_QCTXT_CLR func (fill_qctxt qid st c2h t)"

definition qdma_mbox_compose_csr_read :: "u16 \<Rightarrow> raw_data \<Rightarrow> int \<times> raw_data" where
  "qdma_mbox_compose_csr_read func = compose MBOX_OP_CSR func id"

definition qdma_mbox_compose_reg_read :: "u16 \<Rightarrow> u16 \<Rightarrow> raw_data \<Rightarrow> int \<times> raw_data" where
  "qdma_mbox_compose_reg_read func grp =
     compose MBOX_OP_REG_LIST_READ func (\<lambda>m. m\<lparr>reg_read_list := (reg_read_list m)\<lparr>group_num := grp\<rparr>\<rparr>)"

definition qdma_mbox_compose_vf_intr_ctxt_write :: "u16 \<Rightarrow> mbox_msg_intr_ctxt \<Rightarrow> raw_data \<Rightarrow> int \<times> raw_data" where
  "qdma_mbox_compose_vf_intr_ctxt_write func ic = compose MBOX_OP_INTR_CTXT_WRT func (\<lambda>m. m\<lparr>intr_ctxt := ic\<rparr>)"

definition qdma_mbox_compose_vf_intr_ctxt_read :: "u16 \<Rightarrow> mbox_msg_intr_ctxt \<Rightarrow> raw_data \<Rightarrow> int \<times> raw_data" where
  "qdma_mbox_compose_vf_intr_ctxt_read func ic = compose MBOX_OP_INTR_CTXT_RD func (\<lambda>m. m\<lparr>intr_ctxt := ic\<rparr>)"

definition qdma_mbox_compose_vf_intr_ctxt_clear :: "u16 \<Rightarrow> mbox_msg_intr_ctxt \<Rightarrow> raw_data \<Rightarrow> int \<times> raw_data" where
  "qdma_mbox_compose_vf_intr_ctxt_clear func ic = compose MBOX_OP_INTR_CTXT_CLR func (\<lambda>m. m\<lparr>intr_ctxt := ic\<rparr>)"

definition qdma_mbox_compose_vf_intr_ctxt_invalidate :: "u16 \<Rightarrow> mbox_msg_intr_ctxt \<Rightarrow> raw_data \<Rightarrow> int \<times> raw_data" where
  "qdma_mbox_compose_vf_intr_ctxt_invalidate func ic = compose MBOX_OP_INTR_CTXT_INV func (\<lambda>m. m\<lparr>intr_ctxt := ic\<rparr>)"

text \<open>The physical function's own messages name their destination.\<close>

definition compose_to :: "u8 \<Rightarrow> u8 \<Rightarrow> u8 \<Rightarrow> raw_data \<Rightarrow> int \<times> raw_data" where
  "compose_to op src dst = compose op (ucast src) (\<lambda>m. m\<lparr>hdr := (hdr m)\<lparr>hdr_dst := ucast dst\<rparr>\<rparr>)"

definition qdma_mbox_compose_vf_reset_message :: "raw_data \<Rightarrow> u8 \<Rightarrow> u8 \<Rightarrow> int \<times> raw_data" where
  "qdma_mbox_compose_vf_reset_message raw src dst = compose_to MBOX_OP_RESET_PREPARE src dst raw"

definition qdma_mbox_compose_pf_reset_done_message :: "raw_data \<Rightarrow> u8 \<Rightarrow> u8 \<Rightarrow> int \<times> raw_data" where
  "qdma_mbox_compose_pf_reset_done_message raw src dst = compose_to MBOX_OP_RESET_DONE src dst raw"

definition qdma_mbox_compose_pf_offline :: "raw_data \<Rightarrow> u8 \<Rightarrow> u8 \<Rightarrow> int \<times> raw_data" where
  "qdma_mbox_compose_pf_offline raw src dst = compose_to MBOX_OP_PF_BYE src dst raw"

subsection \<open>Reading responses\<close>

text \<open>The sum of the opcode and the offset is computed as an \<open>int\<close>.\<close>

definition qdma_mbox_is_msg_response :: "qdma_mbox_txrx \<Rightarrow> qdma_mbox_txrx \<Rightarrow> bool" where
  "qdma_mbox_is_msg_response tx rx \<longleftrightarrow> uint (hdr_op (hdr tx)) + 128 = uint (hdr_op (hdr rx))"

definition qdma_mbox_vf_response_status :: "qdma_mbox_txrx \<Rightarrow> int" where
  "qdma_mbox_vf_response_status m = sint (hdr_status (hdr m))"

definition qdma_mbox_vf_func_id_get :: "qdma_mbox_txrx \<Rightarrow> bool \<Rightarrow> u8" where
  "qdma_mbox_vf_func_id_get m is_vf = ucast (if is_vf then hdr_dst (hdr m) else hdr_src (hdr m))"

definition qdma_mbox_vf_active_queues_get :: "qdma_mbox_txrx \<Rightarrow> qdma_dev_q_type \<Rightarrow> int" where
  "qdma_mbox_vf_active_queues_get m t =
     (case t of
        QDMA_DEV_Q_TYPE_H2C \<Rightarrow> sint (h2c_queues (qcnt m))
      | QDMA_DEV_Q_TYPE_C2H \<Rightarrow> sint (c2h_queues (qcnt m))
      | QDMA_DEV_Q_TYPE_CMPT \<Rightarrow> sint (cmpt_queues (qcnt m))
      | QDMA_DEV_Q_TYPE_MAX \<Rightarrow> 0)"

definition qdma_mbox_vf_parent_func_id_get :: "qdma_mbox_txrx \<Rightarrow> u8" where
  "qdma_mbox_vf_parent_func_id_get m = ucast (hdr_src (hdr m))"

definition qdma_mbox_vf_dev_info_get :: "qdma_mbox_txrx \<Rightarrow> int \<times> qdma_dev_attributes \<times> u32" where
  "qdma_mbox_vf_dev_info_get m = (sint (hdr_status (hdr m)), he_dev_cap (hello m), he_dma_device_index (hello m))"

definition qdma_mbox_vf_qinfo_get :: "qdma_mbox_txrx \<Rightarrow> int \<times> s32 \<times> u16" where
  "qdma_mbox_vf_qinfo_get m = (sint (hdr_status (hdr m)), fm_qbase (fmap m), ucast (fm_qmax (fmap m)))"

definition qdma_mbox_vf_csr_get :: "qdma_mbox_txrx \<Rightarrow> int \<times> qdma_csr_info" where
  "qdma_mbox_vf_csr_get m = (sint (hdr_status (hdr m)), csr m)"

text \<open>The number of bytes copied is an 8-bit number.\<close>

definition qdma_mbox_vf_reg_list_get :: "qdma_mbox_txrx \<Rightarrow> (u32 \<times> u32) list \<Rightarrow> (int \<times> u16 \<times> (u32 \<times> u32) list) res" where
  "qdma_mbox_vf_reg_list_get m out =
     (let n = num_regs (reg_read_list m); k = unat (ucast (n * 8) :: u8) div 8; regs = reg_list (reg_read_list m) in
      if k \<le> length regs \<and> k \<le> length out then Inr (sint (hdr_status (hdr m)), n, take k regs @ drop k out)
      else Inl OutOfBounds)"

definition qdma_mbox_vf_context_get :: "qdma_mbox_txrx \<Rightarrow> int \<times> qdma_descq_context" where
  "qdma_mbox_vf_context_get m = (sint (hdr_status (hdr m)), qc_descq_ctxt (qctxt m))"

definition qdma_mbox_vf_intr_context_get :: "qdma_mbox_txrx \<Rightarrow> int \<times> mbox_msg_intr_ctxt" where
  "qdma_mbox_vf_intr_context_get m = (sint (hdr_status (hdr m)), intr_ctxt m)"

subsection \<open>The virtual function's handler\<close>

definition qdma_mbox_vf_rcv_msg_handler :: "qdma_mbox_txrx \<Rightarrow> qdma_mbox_txrx \<Rightarrow> int \<times> qdma_mbox_txrx" where
  "qdma_mbox_vf_rcv_msg_handler rcv resp =
     (let op = hdr_op (hdr rcv);
          resp' = resp\<lparr>hdr := (hdr resp)\<lparr>hdr_op := op + MBOX_MSG_OP_RSP_OFFSET, hdr_dst := hdr_src (hdr rcv),
             hdr_src := hdr_dst (hdr rcv)\<rparr>\<rparr>
      in if op = MBOX_OP_RESET_PREPARE then (QDMA_MBOX_VF_RESET, resp')
         else if op = MBOX_OP_RESET_DONE then (QDMA_MBOX_PF_RESET_DONE, resp')
         else if op = MBOX_OP_PF_BYE then (QDMA_MBOX_PF_BYE, resp')
         else (0, resp))"

subsection \<open>Mailbox registers\<close>

datatype reg_op = Reg_Read u32 | Reg_Write u32 u32

type_synonym reg_env = "reg_op list \<Rightarrow> u32"

definition qdma_reg_read :: "reg_env \<Rightarrow> u32 \<Rightarrow> reg_op list \<Rightarrow> u32 \<times> reg_op list" where
  "qdma_reg_read env a t = (env (t @ [Reg_Read a]), t @ [Reg_Read a])"

definition qdma_reg_write :: "u32 \<Rightarrow> u32 \<Rightarrow> reg_op list \<Rightarrow> reg_op list" where
  "qdma_reg_write a v t = t @ [Reg_Write a v]"

abbreviation (input) MBOX_FN_STATUS :: u32 where "MBOX_FN_STATUS \<equiv> 0"
abbreviation (input) MBOX_FN_CMD :: u32 where "MBOX_FN_CMD \<equiv> 4"
abbreviation (input) MBOX_ISR_VEC :: u32 where "MBOX_ISR_VEC \<equiv> 8"
abbreviation (input) MBOX_FN_TARGET :: u32 where "MBOX_FN_TARGET \<equiv> 12"
abbreviation (input) MBOX_ISR_EN :: u32 where "MBOX_ISR_EN \<equiv> 16"
abbreviation (input) MBOX_PF_ACK_BASE :: u32 where "MBOX_PF_ACK_BASE \<equiv> 32"
abbreviation (input) MBOX_IN_MSG_BASE :: u32 where "MBOX_IN_MSG_BASE \<equiv> 2048"
abbreviation (input) MBOX_OUT_MSG_BASE :: u32 where "MBOX_OUT_MSG_BASE \<equiv> 3072"
abbreviation (input) MBOX_MSG_REG_MAX :: nat where "MBOX_MSG_REG_MAX \<equiv> 32"
abbreviation (input) MBOX_PF_ACK_COUNT :: nat where "MBOX_PF_ACK_COUNT \<equiv> 8"
abbreviation (input) QDMA_ERR_MBOX_SEND_BUSY :: int where "QDMA_ERR_MBOX_SEND_BUSY \<equiv> 22"
abbreviation (input) QDMA_ERR_MBOX_NO_MSG_IN :: int where "QDMA_ERR_MBOX_NO_MSG_IN \<equiv> 23"
abbreviation (input) QDMA_ERR_MBOX_ALL_ZERO_MSG :: int where "QDMA_ERR_MBOX_ALL_ZERO_MSG \<equiv> 25"

record qdma_hw_access =
  mbox_base_pf :: u32
  mbox_base_vf :: u32

definition get_mbox_offset :: "qdma_hw_access \<Rightarrow> bool \<Rightarrow> u32" where
  "get_mbox_offset h is_vf = (if is_vf then mbox_base_vf h else mbox_base_pf h)"

text \<open>The header in the first two words of a message.\<close>

definition raw_src :: "u32 list \<Rightarrow> u16" where "raw_src raw = ucast (drop_bit 16 (raw ! 0))"
definition raw_dst :: "u32 list \<Rightarrow> u16" where "raw_dst raw = ucast (raw ! 1)"
definition raw_op :: "u32 list \<Rightarrow> u8" where "raw_op raw = ucast (raw ! 0)"

definition set_raw_src :: "u16 \<Rightarrow> u32 list \<Rightarrow> u32 list" where
  "set_raw_src f raw = raw[0 := take_bit 16 (raw ! 0) OR push_bit 16 (ucast f)]"

definition mbox_pf_hw_clear_func_ack :: "qdma_hw_access \<Rightarrow> u16 \<Rightarrow> reg_op list \<Rightarrow> reg_op list" where
  "mbox_pf_hw_clear_func_ack h func t =
     (let idx = ucast func div 32; bit = unat func mod 32
      in qdma_reg_write (get_mbox_offset h False + MBOX_PF_ACK_BASE + idx * 4) (push_bit bit 1) t)"

definition clear_ack :: "reg_env \<Rightarrow> u32 \<Rightarrow> nat \<Rightarrow> reg_op list \<Rightarrow> reg_op list" where
  "clear_ack env base i t =
     (let reg = base + MBOX_PF_ACK_BASE + of_nat i * 4; (v, t) = qdma_reg_read env reg t
      in if v = 0 then t else qdma_reg_write reg v t)"

definition qdma_mbox_pf_hw_clear_ack :: "reg_env \<Rightarrow> qdma_hw_access \<Rightarrow> reg_op list \<Rightarrow> reg_op list" where
  "qdma_mbox_pf_hw_clear_ack env h t =
     (let base = get_mbox_offset h False; (v, t) = qdma_reg_read env (base + MBOX_FN_STATUS) t
      in if v AND 4 = 0 then t else fold (clear_ack env base) [0..<MBOX_PF_ACK_COUNT] t)"

definition qdma_mbox_send :: "reg_env \<Rightarrow> qdma_hw_access \<Rightarrow> bool \<Rightarrow> u32 list \<Rightarrow> reg_op list \<Rightarrow> int \<times> reg_op list" where
  "qdma_mbox_send env h is_vf raw t =
     (let base = get_mbox_offset h is_vf; dst = raw_dst raw;
          (v, t) = qdma_reg_read env (base + MBOX_FN_STATUS) t in
      if v AND 2 \<noteq> 0 then (- QDMA_ERR_MBOX_SEND_BUSY, t)
      else
        let t = (if \<not> is_vf then qdma_reg_write (base + MBOX_FN_TARGET) (ucast dst AND 0xFFF) t else t);
            t = fold (\<lambda>i. qdma_reg_write (base + (MBOX_OUT_MSG_BASE + of_nat i * 4)) (raw ! i)) [0..<MBOX_MSG_REG_MAX] t;
            t = (if \<not> is_vf then mbox_pf_hw_clear_func_ack h dst t else t)
        in (QDMA_SUCCESS, qdma_reg_write (base + MBOX_FN_CMD) 1 t))"

text \<open>The words of the incoming message are read one after the other.\<close>

definition read_words :: "reg_env \<Rightarrow> u32 \<Rightarrow> reg_op list \<Rightarrow> u32 list \<times> reg_op list" where
  "read_words env base t =
     fold (\<lambda>i (ws, t). let (w, t) = qdma_reg_read env (base + (MBOX_IN_MSG_BASE + of_nat i * 4)) t in (ws @ [w], t))
       [0..<MBOX_MSG_REG_MAX] ([], t)"

definition qdma_mbox_rcv :: "reg_env \<Rightarrow> qdma_hw_access \<Rightarrow> bool \<Rightarrow> u32 list \<Rightarrow> reg_op list \<Rightarrow> int \<times> u32 list \<times> reg_op list" where
  "qdma_mbox_rcv env h is_vf raw t =
     (let base = get_mbox_offset h is_vf; (v, t) = qdma_reg_read env (base + MBOX_FN_STATUS) t in
      if v AND 1 = 0 then (- QDMA_ERR_MBOX_NO_MSG_IN, raw, t)
      else
        let from_id = (if is_vf then 0 else drop_bit 4 v AND 0xFFF);
            t = (if \<not> is_vf then qdma_reg_write (base + MBOX_FN_TARGET) from_id t else t);
            (raw, t) = read_words env base t;
            t = qdma_reg_write (base + MBOX_FN_CMD) 2 t
        in if \<forall>w \<in> set raw. w = 0 then (- QDMA_ERR_MBOX_ALL_ZERO_MSG, raw, t)
           else (QDMA_SUCCESS, if \<not> is_vf \<and> from_id \<noteq> ucast (raw_src raw) then set_raw_src (ucast from_id) raw else raw, t))"

definition qdma_mbox_hw_init :: "reg_env \<Rightarrow> qdma_hw_access \<Rightarrow> bool \<Rightarrow> reg_op list \<Rightarrow> reg_op list" where
  "qdma_mbox_hw_init env h is_vf t =
     (if is_vf then
        let base = get_mbox_offset h is_vf; (v, t) = qdma_reg_read env (base + MBOX_FN_STATUS) t
        in if v AND 1 \<noteq> 0 then qdma_reg_write (base + MBOX_FN_CMD) 2 t else t
      else qdma_mbox_pf_hw_clear_ack env h t)"

definition qdma_mbox_enable_interrupts :: "qdma_hw_access \<Rightarrow> bool \<Rightarrow> reg_op list \<Rightarrow> reg_op list" where
  "qdma_mbox_enable_interrupts h is_vf t =
     (let base = get_mbox_offset h is_vf
      in qdma_reg_write (base + MBOX_ISR_EN) 1 (qdma_reg_write (base + MBOX_ISR_VEC) 0 t))"

definition qdma_mbox_disable_interrupts :: "qdma_hw_access \<Rightarrow> bool \<Rightarrow> reg_op list \<Rightarrow> reg_op list" where
  "qdma_mbox_disable_interrupts h is_vf t = qdma_reg_write (get_mbox_offset h is_vf + MBOX_ISR_EN) 0 t"

definition qdma_mbox_out_status :: "reg_env \<Rightarrow> qdma_hw_access \<Rightarrow> bool \<Rightarrow> reg_op list \<Rightarrow> u8 \<times> reg_op list" where
  "qdma_mbox_out_status env h is_vf t =
     (let (v, t) = qdma_reg_read env (get_mbox_offset h is_vf + MBOX_FN_STATUS) t
      in (if v AND 2 \<noteq> 0 then 1 else 0, t))"

end
