(* ===== verification/Qdma_Field.thy ===== *)
theory Qdma_Field
  imports Prelude
begin

unbundle bit_operations_syntax

text \<open>
  The bit-field macros of the QDMA register access code: \<open>BIT\<close> and \<open>GENMASK\<close> of
  \<open>qdma_soft_reg.h\<close>, \<open>get_trailing_zeros\<close>, \<open>FIELD_SET\<close> and \<open>FIELD_GET\<close> of
  \<open>qdma_access_common.h\<close>.  The macros work at the width of their arguments, so the definitions are
  polymorphic in it.  The lemmas give the bits of every macro and the three rules by which a field
  packed into a register word is read back: a read distributes over the union of fields, sees its
  own field cut to the width of the mask, and sees nothing of a field elsewhere.
\<close>

named_theorems mask_simps \<open>reading fields out of packed words\<close>

definition BIT :: "nat \<Rightarrow> u32" where
  "BIT n = push_bit n 1"

definition GENMASK :: "nat \<Rightarrow> nat \<Rightarrow> 'a::len word" where
  "GENMASK h l = push_bit l (- 1) AND drop_bit (LENGTH('a) - 1 - h) (- 1)"

definition gtz_step :: "nat \<Rightarrow> nat \<times> u64 \<Rightarrow> nat \<times> u64" where
  "gtz_step w pv = (case pv of (pos, value) \<Rightarrow>
     if value AND mask w = 0 then (pos + w, drop_bit w value) else (pos, value))"

definition get_trailing_zeros :: "u64 \<Rightarrow> nat" where
  "get_trailing_zeros value =
     (let pv = gtz_step 32 (0, value);
          pv = gtz_step 16 pv;
          pv = gtz_step 8 pv;
          pv = gtz_step 4 pv;
          (pos, value) = gtz_step 2 pv
      in if value AND 1 = 0 then pos + 1 else pos)"

definition FIELD_SHIFT :: "'a::len word \<Rightarrow> nat" where
  "FIELD_SHIFT m = get_trailing_zeros (ucast m)"

definition FIELD_SET :: "'a::len word \<Rightarrow> 'a word \<Rightarrow> 'a word" where
  "FIELD_SET m v = push_bit (FIELD_SHIFT m) v AND m"

definition FIELD_GET :: "'a::len word \<Rightarrow> 'a word \<Rightarrow> 'a word" where
  "FIELD_GET m r = drop_bit (FIELD_SHIFT m) (r AND m)"

subsection \<open>The lowest set bit\<close>

definition low_bit :: "u64 \<Rightarrow> nat \<Rightarrow> bool" where
  "low_bit v n \<longleftrightarrow> bit v n \<and> (\<forall>k<n. \<not> bit v k)"

lemma and_mask_zero: "(v :: 'a::len word) AND mask w = 0 \<longleftrightarrow> (\<forall>k<w. \<not> bit v k)"
  by (auto simp: bit_eq_iff bit_and_iff bit_mask_iff dest: bit_imp_le_length)

lemma gtz_step_low:
  assumes "low_bit v n" "n < 2 * w"
  shows "\<exists>p' v' n'. gtz_step w (p, v) = (p', v') \<and> low_bit v' n' \<and> n' < w \<and> p' + n' = p + n"
proof (cases "v AND mask w = 0")
  case True
  then have "w \<le> n" using assms by (metis and_mask_zero low_bit_def not_le_imp_less)
  then have "low_bit (drop_bit w v) (n - w)"
    using assms by (auto simp: low_bit_def bit_drop_bit_eq)
  then show ?thesis using True assms \<open>w \<le> n\<close> by (auto simp: gtz_step_def intro!: exI[of _ "n - w"])
next
  case False
  then have "n < w" using assms by (auto simp: and_mask_zero low_bit_def not_less) (metis le_trans linorder_not_less)
  then show ?thesis using False assms by (auto simp: gtz_step_def)
qed

lemma trailing_zeros_low:
  assumes "low_bit x n"
  shows "get_trailing_zeros x = n"
proof -
  have n64: "n < 2 * 32" using assms bit_imp_le_length[of x n] by (simp add: low_bit_def)
  obtain p1 v1 n1 where s1: "gtz_step 32 (0, x) = (p1, v1)" "low_bit v1 n1" "n1 < 32" "p1 + n1 = n"
    using gtz_step_low[OF assms n64, of 0] by auto
  obtain p2 v2 n2 where s2: "gtz_step 16 (p1, v1) = (p2, v2)" "low_bit v2 n2" "n2 < 16" "p2 + n2 = n"
    using gtz_step_low[OF s1(2), of 16 p1] s1(3,4) by auto
  obtain p3 v3 n3 where s3: "gtz_step 8 (p2, v2) = (p3, v3)" "low_bit v3 n3" "n3 < 8" "p3 + n3 = n"
    using gtz_step_low[OF s2(2), of 8 p2] s2(3,4) by auto
  obtain p4 v4 n4 where s4: "gtz_step 4 (p3, v3) = (p4, v4)" "low_bit v4 n4" "n4 < 4" "p4 + n4 = n"
    using gtz_step_low[OF s3(2), of 4 p3] s3(3,4) by auto
  obtain p5 v5 n5 where s5: "gtz_step 2 (p4, v4) = (p5, v5)" "low_bit v5 n5" "n5 < 2" "p5 + n5 = n"
    using gtz_step_low[OF s4(2), of 2 p4] s4(3,4) by auto
  have "v5 AND 1 = 0 \<longleftrightarrow> n5 = 1"
    using s5(2,3) by (auto simp: low_bit_def and_one_eq bit_0 less_2_cases_iff mod2_eq_if split: if_splits)
  then show ?thesis
    using s5(3,4) by (auto simp: get_trailing_zeros_def Let_def s1 s2 s3 s4 s5(1) less_2_cases_iff)
qed

subsection \<open>Bits of the macros\<close>

lemma bit_GENMASK:
  "h < LENGTH('a) \<Longrightarrow> bit (GENMASK h l :: 'a::len word) n \<longleftrightarrow> l \<le> n \<and> n \<le> h"
  by (auto simp: GENMASK_def bit_and_iff bit_push_bit_iff bit_drop_bit_eq bit_not_iff bit_mask_iff)

lemma BIT_mask [mask_simps]: "n < 32 \<Longrightarrow> BIT n = GENMASK n n"
  by (rule bit_eqI) (auto simp: BIT_def bit_GENMASK bit_exp_iff)

lemma shift_GENMASK:
  assumes "l \<le> h" "h < LENGTH('a)" "LENGTH('a::len) \<le> 64"
  shows "FIELD_SHIFT (GENMASK h l :: 'a word) = l"
  unfolding FIELD_SHIFT_def
  using assms by (intro trailing_zeros_low) (auto simp: low_bit_def bit_ucast_iff bit_GENMASK)

lemma bit_FIELD_SET:
  assumes "l \<le> h" "h < LENGTH('a)" "LENGTH('a::len) \<le> 64"
  shows "bit (FIELD_SET (GENMASK h l :: 'a word) v) n \<longleftrightarrow> l \<le> n \<and> n \<le> h \<and> bit v (n - l)"
  using assms by (auto simp: FIELD_SET_def shift_GENMASK bit_and_iff bit_push_bit_iff bit_GENMASK)

lemma bit_FIELD_GET:
  assumes "l \<le> h" "h < LENGTH('a)" "LENGTH('a::len) \<le> 64"
  shows "bit (FIELD_GET (GENMASK h l :: 'a word) r) n \<longleftrightarrow> n \<le> h - l \<and> bit r (n + l)"
  using assms by (auto simp: FIELD_GET_def shift_GENMASK bit_and_iff bit_drop_bit_eq bit_GENMASK add.commute)

subsection \<open>Packing and unpacking\<close>

lemma FIELD_GET_or [mask_simps]: "FIELD_GET m (a OR b) = FIELD_GET m a OR FIELD_GET m b"
  by (rule bit_eqI) (auto simp: FIELD_GET_def bit_drop_bit_eq bit_and_iff bit_or_iff)

lemma FIELD_GET_SET_same:
  assumes "l \<le> h" "h < LENGTH('a)" "LENGTH('a::len) \<le> 64"
  shows "FIELD_GET (GENMASK h l :: 'a word) (FIELD_SET (GENMASK h l) v) = take_bit (h + 1 - l) v"
  using assms by (intro bit_eqI) (auto simp: bit_FIELD_GET bit_FIELD_SET bit_take_bit_iff)

lemma FIELD_GET_SET_other:
  assumes "l \<le> h" "h < LENGTH('a)" "l' \<le> h'" "h' < LENGTH('a)" "LENGTH('a::len) \<le> 64" "h < l' \<or> h' < l"
  shows "FIELD_GET (GENMASK h l :: 'a word) (FIELD_SET (GENMASK h' l') v) = 0"
  using assms by (intro bit_eqI) (auto simp: bit_FIELD_GET bit_FIELD_SET)

lemmas FIELD_GET_SET_32 [mask_simps] =
  FIELD_GET_SET_same[where 'a = 32, simplified] FIELD_GET_SET_other[where 'a = 32, simplified]

text \<open>Splitting a word into adjacent fields and joining them again, as the code does with addresses.\<close>

lemma FIELD_SET_GET:
  assumes "l \<le> h" "h < LENGTH('a)" "LENGTH('a::len) \<le> 64"
  shows "FIELD_SET (GENMASK h l :: 'a word) (FIELD_GET (GENMASK h l) r) = r AND GENMASK h l"
  using assms by (intro bit_eqI) (auto simp: bit_FIELD_GET bit_FIELD_SET bit_and_iff bit_GENMASK)

lemma FIELD_GET_le:
  assumes "l \<le> h" "h < LENGTH('a)" "LENGTH('a::len) \<le> 64" "h - l < k"
  shows "take_bit k (FIELD_GET (GENMASK h l :: 'a word) r) = FIELD_GET (GENMASK h l) r"
  using assms by (intro bit_eqI) (auto simp: bit_FIELD_GET bit_take_bit_iff)

lemma and_GENMASK_or [mask_simps]:
  assumes "l \<le> h" "h + 1 = l'" "l' \<le> h'" "h' < LENGTH('a)"
  shows "((r :: 'a::len word) AND GENMASK h l) OR (r AND GENMASK h' l') = r AND GENMASK h' l"
  using assms by (intro bit_eqI) (auto simp: bit_and_iff bit_or_iff bit_GENMASK)

text \<open>A value of a narrower type that fits its field survives the cut.\<close>

lemma take_bit_ucast_fits [mask_simps]:
  "unat v < 2 ^ k \<Longrightarrow> take_bit k (ucast (v :: 'b::len word) :: 'a::len word) = ucast v"
  by (rule bit_eqI)
    (auto simp: bit_take_bit_iff bit_ucast_iff bit_unsigned_iff dest: bit_imp_le_length,
     metis bit_take_bit_iff take_bit_nat_eq_self unsigned_take_bit_eq word_eq_iff_unsigned)

lemma take_bit_ucast_whole [mask_simps]:
  "LENGTH('b) \<le> k \<Longrightarrow> take_bit k (ucast (v :: 'b::len word) :: 'a::len word) = ucast v"
  by (rule bit_eqI) (auto simp: bit_take_bit_iff bit_ucast_iff dest: bit_imp_le_length)

lemma mod_2_ucast_fits [mask_simps]:
  "unat v < 2 \<Longrightarrow> (ucast (v :: 'b::len word) :: 'a::len word) mod 2 = ucast v"
  using take_bit_ucast_fits[of v 1, where 'a = 'a] by (simp add: take_bit_Suc)

lemma ucast_up_down [mask_simps]:
  "LENGTH('b::len) \<le> LENGTH('a::len) \<Longrightarrow> ucast (ucast (v :: 'b word) :: 'a word) = v"
  by (rule bit_eqI) (auto simp: bit_ucast_iff dest: bit_imp_le_length)

end
