(* ===== verification/Qdma_Indirect.thy ===== *)
theory Qdma_Indirect
  imports Qdma_Mbox_Hw Qdma_Field
begin

text \<open>
  Indirect access to the queue contexts (\<open>qdma_indirect_reg_*\<close> of \<open>qdma_soft_access.c\<close> and
  \<open>hw_monitor_reg\<close> of \<open>qdma_access_common.c\<close>).  The contexts are not mapped into the register
  space: the driver puts up to eight words into data registers, writes a command naming the kind of
  context and the queue, and polls the command register until the busy bit is clear.  The registers
  are an environment, as in the mailbox transfer; the register access lock makes every operation
  atomic.  \<open>ctxt_device\<close> says what the operations rely on: the words of a completed write command are
  what a completed read command of the same context puts into the data registers.
\<close>

abbreviation (input) QDMA_ERR_HWACC_BUSY_TIMEOUT :: int where "QDMA_ERR_HWACC_BUSY_TIMEOUT \<equiv> 3"
abbreviation (input) QDMA_OFFSET_IND_CTXT_DATA :: u32 where "QDMA_OFFSET_IND_CTXT_DATA \<equiv> 0x804"
abbreviation (input) QDMA_OFFSET_IND_CTXT_MASK :: u32 where "QDMA_OFFSET_IND_CTXT_MASK \<equiv> 0x824"
abbreviation (input) QDMA_OFFSET_IND_CTXT_CMD :: u32 where "QDMA_OFFSET_IND_CTXT_CMD \<equiv> 0x844"
abbreviation (input) QDMA_IND_CTXT_CMD_BUSY_MASK :: u32 where "QDMA_IND_CTXT_CMD_BUSY_MASK \<equiv> 1"
abbreviation (input) QDMA_IND_CTXT_DATA_NUM_REGS :: nat where "QDMA_IND_CTXT_DATA_NUM_REGS \<equiv> 8"
abbreviation (input) QDMA_REG_POLL_DFLT_INTERVAL_US :: u32 where "QDMA_REG_POLL_DFLT_INTERVAL_US \<equiv> 10"
abbreviation (input) QDMA_REG_POLL_DFLT_TIMEOUT_US :: u32 where "QDMA_REG_POLL_DFLT_TIMEOUT_US \<equiv> 500 * 1000"

datatype ind_ctxt_cmd_op = QDMA_CTXT_CMD_CLR | QDMA_CTXT_CMD_WR | QDMA_CTXT_CMD_RD | QDMA_CTXT_CMD_INV

datatype ind_ctxt_cmd_sel =
    QDMA_CTXT_SEL_SW_C2H | QDMA_CTXT_SEL_SW_H2C | QDMA_CTXT_SEL_HW_C2H | QDMA_CTXT_SEL_HW_H2C
  | QDMA_CTXT_SEL_CR_C2H | QDMA_CTXT_SEL_CR_H2C | QDMA_CTXT_SEL_CMPT | QDMA_CTXT_SEL_PFTCH
  | QDMA_CTXT_SEL_INT_COAL | QDMA_CTXT_SEL_PASID_RAM_LOW | QDMA_CTXT_SEL_PASID_RAM_HIGH
  | QDMA_CTXT_SEL_TIMER | QDMA_CTXT_SEL_FMAP

primrec op_code :: "ind_ctxt_cmd_op \<Rightarrow> u32" where
  "op_code QDMA_CTXT_CMD_CLR = 0"
| "op_code QDMA_CTXT_CMD_WR = 1"
| "op_code QDMA_CTXT_CMD_RD = 2"
| "op_code QDMA_CTXT_CMD_INV = 3"

primrec sel_code :: "ind_ctxt_cmd_sel \<Rightarrow> u32" where
  "sel_code QDMA_CTXT_SEL_SW_C2H = 0"
| "sel_code QDMA_CTXT_SEL_SW_H2C = 1"
| "sel_code QDMA_CTXT_SEL_HW_C2H = 2"
| "sel_code QDMA_CTXT_SEL_HW_H2C = 3"
| "sel_code QDMA_CTXT_SEL_CR_C2H = 4"
| "sel_code QDMA_CTXT_SEL_CR_H2C = 5"
| "sel_code QDMA_CTXT_SEL_CMPT = 6"
| "sel_code QDMA_CTXT_SEL_PFTCH = 7"
| "sel_code QDMA_CTXT_SEL_INT_COAL = 8"
| "sel_code QDMA_CTXT_SEL_PASID_RAM_LOW = 9"
| "sel_code QDMA_CTXT_SEL_PASID_RAM_HIGH = 10"
| "sel_code QDMA_CTXT_SEL_TIMER = 11"
| "sel_code QDMA_CTXT_SEL_FMAP = 12"

text \<open>The command word: the bit fields \<open>sel\<close>, \<open>op\<close> and \<open>qid\<close> of \<open>union qdma_ind_ctxt_cmd\<close>, which cut the queue to 12 bits.\<close>

definition ind_ctxt_cmd :: "ind_ctxt_cmd_op \<Rightarrow> ind_ctxt_cmd_sel \<Rightarrow> u16 \<Rightarrow> u32" where
  "ind_ctxt_cmd op sel hw_qid =
     FIELD_SET (GENMASK 18 7) (ucast hw_qid) OR FIELD_SET (GENMASK 6 5) (op_code op) OR FIELD_SET (GENMASK 4 1) (sel_code sel)"

definition cmd_op :: "u32 \<Rightarrow> u32" where "cmd_op cmd = FIELD_GET (GENMASK 6 5) cmd"

definition cmd_ctxt :: "u32 \<Rightarrow> u32 \<times> u32" where
  "cmd_ctxt cmd = (FIELD_GET (GENMASK 4 1) cmd, FIELD_GET (GENMASK 18 7) cmd)"

lemma cmd_fields [simp]:
  "cmd_op (ind_ctxt_cmd op sel qid) = op_code op"
  "cmd_ctxt (ind_ctxt_cmd op sel qid) = (sel_code sel, take_bit 12 (ucast qid))"
proof -
  show "cmd_op (ind_ctxt_cmd op sel qid) = op_code op"
    by (cases op) (simp_all add: ind_ctxt_cmd_def cmd_op_def mask_simps)
  show "cmd_ctxt (ind_ctxt_cmd op sel qid) = (sel_code sel, take_bit 12 (ucast qid))"
    by (cases sel) (simp_all add: ind_ctxt_cmd_def cmd_ctxt_def mask_simps)
qed

text \<open>
  The loop \<open>do ... while (--count)\<close> reads at most \<open>count\<close> times and once more after it; the counter is
  a 32-bit word, so that a count of 0 runs through all of them.
\<close>

fun monitor_loop :: "reg_env \<Rightarrow> u32 \<Rightarrow> u32 \<Rightarrow> u32 \<Rightarrow> nat \<Rightarrow> reg_op list \<Rightarrow> int \<times> reg_op list" where
  "monitor_loop env reg msk val n t =
     (let (v, t) = qdma_reg_read env reg t in
      if v AND msk = val then (QDMA_SUCCESS, t)
      else case n of 0 \<Rightarrow> (- QDMA_ERR_HWACC_BUSY_TIMEOUT, t) | Suc n \<Rightarrow> monitor_loop env reg msk val n t)"

declare monitor_loop.simps [simp del]

definition hw_monitor_reg :: "reg_env \<Rightarrow> u32 \<Rightarrow> u32 \<Rightarrow> u32 \<Rightarrow> u32 \<Rightarrow> u32 \<Rightarrow> reg_op list \<Rightarrow> int \<times> reg_op list" where
  "hw_monitor_reg env reg msk val interval_us timeout_us t =
     (let interval_us = (if interval_us = 0 then QDMA_REG_POLL_DFLT_INTERVAL_US else interval_us);
          timeout_us = (if timeout_us = 0 then QDMA_REG_POLL_DFLT_TIMEOUT_US else timeout_us);
          count = timeout_us div interval_us
      in monitor_loop env reg msk val (unat (count - 1) + 1) t)"

definition poll_cmd :: "reg_env \<Rightarrow> reg_op list \<Rightarrow> int \<times> reg_op list" where
  "poll_cmd env t =
     (let (rv, t) = hw_monitor_reg env QDMA_OFFSET_IND_CTXT_CMD QDMA_IND_CTXT_CMD_BUSY_MASK 0
        QDMA_REG_POLL_DFLT_INTERVAL_US QDMA_REG_POLL_DFLT_TIMEOUT_US t
      in if rv \<noteq> 0 then (- QDMA_ERR_HWACC_BUSY_TIMEOUT, t) else (QDMA_SUCCESS, t))"

definition qdma_indirect_reg_invalidate :: "reg_env \<Rightarrow> ind_ctxt_cmd_sel \<Rightarrow> u16 \<Rightarrow> reg_op list \<Rightarrow> int \<times> reg_op list" where
  "qdma_indirect_reg_invalidate env sel hw_qid t =
     poll_cmd env (qdma_reg_write QDMA_OFFSET_IND_CTXT_CMD (ind_ctxt_cmd QDMA_CTXT_CMD_INV sel hw_qid) t)"

definition qdma_indirect_reg_clear :: "reg_env \<Rightarrow> ind_ctxt_cmd_sel \<Rightarrow> u16 \<Rightarrow> reg_op list \<Rightarrow> int \<times> reg_op list" where
  "qdma_indirect_reg_clear env sel hw_qid t =
     poll_cmd env (qdma_reg_write QDMA_OFFSET_IND_CTXT_CMD (ind_ctxt_cmd QDMA_CTXT_CMD_CLR sel hw_qid) t)"

fun read_regs :: "reg_env \<Rightarrow> u32 \<Rightarrow> nat \<Rightarrow> reg_op list \<Rightarrow> u32 list \<times> reg_op list" where
  "read_regs env a 0 t = ([], t)"
| "read_regs env a (Suc n) t =
     (let (w, t) = qdma_reg_read env a t; (ws, t) = read_regs env (a + 4) n t in (w # ws, t))"

text \<open>The words are only looked at by the callers when the read succeeded.\<close>

definition qdma_indirect_reg_read :: "reg_env \<Rightarrow> ind_ctxt_cmd_sel \<Rightarrow> u16 \<Rightarrow> nat \<Rightarrow> reg_op list \<Rightarrow> int \<times> u32 list \<times> reg_op list" where
  "qdma_indirect_reg_read env sel hw_qid cnt t =
     (let (rv, t) = poll_cmd env (qdma_reg_write QDMA_OFFSET_IND_CTXT_CMD (ind_ctxt_cmd QDMA_CTXT_CMD_RD sel hw_qid) t) in
      if rv \<noteq> 0 then (rv, replicate cnt 0, t)
      else let (ws, t) = read_regs env QDMA_OFFSET_IND_CTXT_DATA cnt t in (QDMA_SUCCESS, ws, t))"

fun write_regs :: "u32 \<Rightarrow> u32 list \<Rightarrow> reg_op list \<Rightarrow> reg_op list" where
  "write_regs a [] t = t"
| "write_regs a (w # ws) t = write_regs (a + 4) ws (qdma_reg_write a w t)"

text \<open>The register block: eight words of data, the missing ones 0, eight of mask, all ones, and the command.\<close>

definition ind_ctxt_regs :: "ind_ctxt_cmd_sel \<Rightarrow> u16 \<Rightarrow> u32 list \<Rightarrow> u32 list" where
  "ind_ctxt_regs sel hw_qid data =
     map (\<lambda>i. if i < length data then data ! i else 0) [0..<QDMA_IND_CTXT_DATA_NUM_REGS] @
     replicate QDMA_IND_CTXT_DATA_NUM_REGS 0xFFFFFFFF @ [ind_ctxt_cmd QDMA_CTXT_CMD_WR sel hw_qid]"

definition qdma_indirect_reg_write :: "reg_env \<Rightarrow> ind_ctxt_cmd_sel \<Rightarrow> u16 \<Rightarrow> u32 list \<Rightarrow> reg_op list \<Rightarrow> int \<times> reg_op list" where
  "qdma_indirect_reg_write env sel hw_qid data t =
     poll_cmd env (write_regs QDMA_OFFSET_IND_CTXT_DATA (ind_ctxt_regs sel hw_qid data) t)"

subsection \<open>What the operations do to the registers\<close>

abbreviation polls :: "nat \<Rightarrow> reg_op list" where
  "polls k \<equiv> replicate k (Reg_Read QDMA_OFFSET_IND_CTXT_CMD)"

definition completed :: "reg_env \<Rightarrow> reg_op list \<Rightarrow> nat \<Rightarrow> bool" where
  "completed env t k \<longleftrightarrow> 0 < k \<and> env (t @ polls k) AND QDMA_IND_CTXT_CMD_BUSY_MASK = 0"

lemma monitor_loop_reads:
  "\<exists>k. k \<le> Suc n \<and> 0 < k \<and> snd (monitor_loop env reg msk val n t) = t @ replicate k (Reg_Read reg) \<and>
     (if fst (monitor_loop env reg msk val n t) = 0 then env (t @ replicate k (Reg_Read reg)) AND msk = val
      else fst (monitor_loop env reg msk val n t) = - QDMA_ERR_HWACC_BUSY_TIMEOUT \<and>
        k = Suc n \<and> (\<forall>j \<in> {1..Suc n}. env (t @ replicate j (Reg_Read reg)) AND msk \<noteq> val))"
proof (induction n arbitrary: t)
  case 0
  show ?case
    by (rule exI[of _ 1]) (simp add: monitor_loop.simps[of _ _ _ _ 0] qdma_reg_read_def)
next
  case (Suc n)
  let ?t = "t @ [Reg_Read reg]"
  show ?case
  proof (cases "env ?t AND msk = val")
    case True
    then show ?thesis
      by (intro exI[of _ 1]) (simp add: monitor_loop.simps[of _ _ _ _ "Suc n"] qdma_reg_read_def)
  next
    case False
    then have eq: "monitor_loop env reg msk val (Suc n) t = monitor_loop env reg msk val n ?t"
      by (simp add: monitor_loop.simps[of _ _ _ _ "Suc n"] qdma_reg_read_def)
    have shift: "(\<forall>j \<in> {1..Suc n}. env (?t @ replicate j (Reg_Read reg)) AND msk \<noteq> val) \<Longrightarrow>
      (\<forall>j \<in> {1..Suc (Suc n)}. env (t @ replicate j (Reg_Read reg)) AND msk \<noteq> val)"
    proof
      fix j assume all: "\<forall>j \<in> {1..Suc n}. env (?t @ replicate j (Reg_Read reg)) AND msk \<noteq> val"
        and j: "j \<in> {1..Suc (Suc n)}"
      then obtain i where i: "j = Suc i" by (cases j) auto
      show "env (t @ replicate j (Reg_Read reg)) AND msk \<noteq> val"
        using bspec[OF all, of i] j False by (cases i) (auto simp: i)
    qed
    obtain k where "k \<le> Suc n \<and> 0 < k \<and> snd (monitor_loop env reg msk val n ?t) = ?t @ replicate k (Reg_Read reg) \<and>
     (if fst (monitor_loop env reg msk val n ?t) = 0 then env (?t @ replicate k (Reg_Read reg)) AND msk = val
      else fst (monitor_loop env reg msk val n ?t) = - QDMA_ERR_HWACC_BUSY_TIMEOUT \<and>
        k = Suc n \<and> (\<forall>j \<in> {1..Suc n}. env (?t @ replicate j (Reg_Read reg)) AND msk \<noteq> val))"
      using Suc.IH[of ?t] by blast
    then show ?thesis
      using shift unfolding eq by (intro exI[of _ "Suc k"]) (auto split: if_splits)
  qed
qed

text \<open>Polling the command register takes at most 50001 reads and fails only if every one says busy.\<close>

abbreviation poll_limit :: nat where "poll_limit \<equiv> 50001"

lemma poll_cmd_reads:
  "\<exists>k. 0 < k \<and> k \<le> poll_limit \<and> snd (poll_cmd env t) = t @ polls k \<and>
     (if fst (poll_cmd env t) = 0 then completed env t k
      else fst (poll_cmd env t) = - QDMA_ERR_HWACC_BUSY_TIMEOUT \<and> (\<forall>j \<in> {1..poll_limit}. \<not> completed env t j))"
proof -
  have n: "unat ((500 * 1000 :: u32) div 10 - 1) + 1 = 50000" by simp
  have "poll_cmd env t = monitor_loop env QDMA_OFFSET_IND_CTXT_CMD QDMA_IND_CTXT_CMD_BUSY_MASK 0 50000 t"
    using monitor_loop_reads[of 50000 env QDMA_OFFSET_IND_CTXT_CMD QDMA_IND_CTXT_CMD_BUSY_MASK 0 t]
    by (auto simp: poll_cmd_def hw_monitor_reg_def prod_eq_iff split: prod.splits if_splits)
  then show ?thesis
    using monitor_loop_reads[of 50000 env QDMA_OFFSET_IND_CTXT_CMD QDMA_IND_CTXT_CMD_BUSY_MASK 0 t]
    by (auto simp: completed_def split: if_splits)
qed

lemma poll_cmd_ok:
  assumes "poll_cmd env t = (0, t')"
  obtains k where "completed env t k" "k \<le> poll_limit" "t' = t @ polls k"
  using poll_cmd_reads[of env t] assms by auto

fun reg_writes :: "u32 \<Rightarrow> u32 list \<Rightarrow> reg_op list" where
  "reg_writes a [] = []"
| "reg_writes a (w # ws) = Reg_Write a w # reg_writes (a + 4) ws"

lemma write_regs_writes: "write_regs a ws t = t @ reg_writes a ws"
  by (induction ws arbitrary: a t) (simp_all add: qdma_reg_write_def)

fun reg_reads :: "u32 \<Rightarrow> nat \<Rightarrow> reg_op list" where
  "reg_reads a 0 = []"
| "reg_reads a (Suc n) = Reg_Read a # reg_reads (a + 4) n"

lemma reg_reads_snoc: "reg_reads a (Suc n) = reg_reads a n @ [Reg_Read (a + 4 * of_nat n)]"
proof (induction n arbitrary: a)
  case (Suc n)
  then show ?case using Suc[of "a + 4"] by (simp add: algebra_simps)
qed simp

lemma read_regs_reads:
  "read_regs env a n t = (map (\<lambda>i. env (t @ reg_reads a (Suc i))) [0..<n], t @ reg_reads a n)"
proof (induction n arbitrary: a t)
  case (Suc n)
  have "map (\<lambda>i. env (t @ reg_reads a (Suc i))) [0..<Suc n] =
      env (t @ [Reg_Read a]) # map (\<lambda>i. env (t @ Reg_Read a # reg_reads (a + 4) (Suc i))) [0..<n]"
    unfolding map_upt_Suc by simp
  then show ?case using Suc[of "a + 4" "t @ [Reg_Read a]"] by (simp add: qdma_reg_read_def)
qed simp

subsection \<open>The device the operations rely on\<close>

text \<open>Register accesses that leave a context alone: reads, and commands that read it or name another one.\<close>

fun leaves_ctxt :: "ind_ctxt_cmd_sel \<Rightarrow> u16 \<Rightarrow> reg_op \<Rightarrow> bool" where
  "leaves_ctxt sel qid (Reg_Read a) \<longleftrightarrow> True"
| "leaves_ctxt sel qid (Reg_Write a v) \<longleftrightarrow>
     QDMA_OFFSET_IND_CTXT_DATA \<le> a \<and> a < QDMA_OFFSET_IND_CTXT_CMD \<or>
     a = QDMA_OFFSET_IND_CTXT_CMD \<and>
       (cmd_op v = op_code QDMA_CTXT_CMD_RD \<or> cmd_ctxt v \<noteq> cmd_ctxt (ind_ctxt_cmd QDMA_CTXT_CMD_RD sel qid))"

definition ctxt_device :: "reg_env \<Rightarrow> bool" where
  "ctxt_device env \<longleftrightarrow>
     (\<forall>pre sel qid data k ops j i.
        let t = pre @ reg_writes QDMA_OFFSET_IND_CTXT_DATA (ind_ctxt_regs sel qid data);
            u = t @ polls k @ ops @ [Reg_Write QDMA_OFFSET_IND_CTXT_CMD (ind_ctxt_cmd QDMA_CTXT_CMD_RD sel qid)]
        in completed env t k \<and> (\<forall>p \<in> set ops. leaves_ctxt sel qid p) \<and> completed env u j \<and>
           length data \<le> QDMA_IND_CTXT_DATA_NUM_REGS \<and> i < length data \<longrightarrow>
           env (u @ polls j @ reg_reads QDMA_OFFSET_IND_CTXT_DATA (Suc i)) = data ! i)"

text \<open>What is written is read back.\<close>

lemma indirect_write_read:
  assumes dev: "ctxt_device env"
    and wr: "qdma_indirect_reg_write env sel qid data t = (0, t1)"
    and ops: "\<forall>p \<in> set ops. leaves_ctxt sel qid p"
    and rd: "qdma_indirect_reg_read env sel qid n (t1 @ ops) = (0, ws, t2)"
    and n: "n = length data" "n \<le> QDMA_IND_CTXT_DATA_NUM_REGS"
  shows "ws = data"
proof -
  let ?t = "t @ reg_writes QDMA_OFFSET_IND_CTXT_DATA (ind_ctxt_regs sel qid data)"
  obtain k where k: "completed env ?t k" "t1 = ?t @ polls k"
    using wr by (auto simp: qdma_indirect_reg_write_def write_regs_writes elim!: poll_cmd_ok)
  let ?u = "t1 @ ops @ [Reg_Write QDMA_OFFSET_IND_CTXT_CMD (ind_ctxt_cmd QDMA_CTXT_CMD_RD sel qid)]"
  obtain v where v: "poll_cmd env ?u = (0, v)" "read_regs env QDMA_OFFSET_IND_CTXT_DATA n v = (ws, t2)"
    using rd by (auto simp: qdma_indirect_reg_read_def qdma_reg_write_def split: prod.splits if_splits)
  obtain j where j: "completed env ?u j" "v = ?u @ polls j"
    using poll_cmd_ok[OF v(1)] by metis
  have ws: "ws = map (\<lambda>i. env (v @ reg_reads QDMA_OFFSET_IND_CTXT_DATA (Suc i))) [0..<n]"
    using v(2) by (simp add: read_regs_reads)
  show ?thesis
  proof (rule nth_equalityI)
    show "length ws = length data" by (simp add: ws n)
    fix i assume "i < length ws"
    then have i: "i < length data" by (simp add: ws n)
    have "env (v @ reg_reads QDMA_OFFSET_IND_CTXT_DATA (Suc i)) = data ! i"
      using dev[unfolded ctxt_device_def Let_def, rule_format, of t sel qid data k ops j i] k j ops n i
      by simp
    then show "ws ! i = data ! i" using i n by (simp add: ws)
  qed
qed

subsection \<open>A reference device\<close>

text \<open>
  The least a device has to do: latch register writes, store the data registers under the context a
  write command names, and fetch them on a read command.  It is never busy.
\<close>

record ref_state =
  latched :: "u32 \<Rightarrow> u32"
  stored :: "u32 \<times> u32 \<Rightarrow> u32 list"

definition data_addr :: "nat \<Rightarrow> u32" where "data_addr i = QDMA_OFFSET_IND_CTXT_DATA + 4 * of_nat i"

definition ref_fetch :: "u32 list \<Rightarrow> (u32 \<Rightarrow> u32) \<Rightarrow> (u32 \<Rightarrow> u32)" where
  "ref_fetch ws f = fold (\<lambda>i g. g(data_addr i := ws ! i)) [0..<8] f"

definition ref_step :: "reg_op \<Rightarrow> ref_state \<Rightarrow> ref_state" where
  "ref_step p s = (case p of Reg_Read a \<Rightarrow> s | Reg_Write a v \<Rightarrow>
     if a \<noteq> QDMA_OFFSET_IND_CTXT_CMD then s\<lparr>latched := (latched s)(a := v)\<rparr>
     else if cmd_op v = op_code QDMA_CTXT_CMD_WR then
       s\<lparr>stored := (stored s)(cmd_ctxt v := map (\<lambda>i. latched s (data_addr i)) [0..<8])\<rparr>
     else if cmd_op v = op_code QDMA_CTXT_CMD_RD then s\<lparr>latched := ref_fetch (stored s (cmd_ctxt v)) (latched s)\<rparr>
     else s\<lparr>stored := (stored s)(cmd_ctxt v := replicate 8 0)\<rparr>)"

definition ref_init :: ref_state where
  "ref_init = \<lparr>latched = (\<lambda>_. 0), stored = (\<lambda>_. replicate 8 0)\<rparr>"

definition ref_device :: reg_env where
  "ref_device t = (case last t of
     Reg_Read a \<Rightarrow> if a = QDMA_OFFSET_IND_CTXT_CMD then 0 else latched (fold ref_step t ref_init) a
   | Reg_Write a v \<Rightarrow> 0)"

lemma upt_8: "[0..<8] = [0, 1, 2, 3, 4, 5, 6, 7 :: nat]"
  by (simp add: upt_rec)

lemma less_8: "i < 8 \<Longrightarrow> i \<in> {0, 1, 2, 3, 4, 5, 6, 7 :: nat}"
  by auto

lemma fetched: "i < 8 \<Longrightarrow> ref_fetch ws f (data_addr i) = ws ! i"
  using less_8[of i] by (auto simp: ref_fetch_def upt_8 data_addr_def)

lemma ref_read [simp]: "ref_step (Reg_Read a) = id"
  by (rule ext) (simp add: ref_step_def)

lemma reads_same [simp]: "fold ref_step (reg_reads a n) = id"
  by (induction n arbitrary: a) simp_all

lemma ref_stores:
  "stored (fold ref_step (reg_writes QDMA_OFFSET_IND_CTXT_DATA (ind_ctxt_regs sel qid data)) s) (sel_code sel, take_bit 12 (ucast qid)) =
     map (\<lambda>i. if i < length data then data ! i else 0) [0..<8]"
proof -
  have r8: "replicate 8 (0xFFFFFFFF :: u32) = [0xFFFFFFFF, 0xFFFFFFFF, 0xFFFFFFFF, 0xFFFFFFFF,
      0xFFFFFFFF, 0xFFFFFFFF, 0xFFFFFFFF, 0xFFFFFFFF]" by (simp add: numeral_eq_Suc)
  show ?thesis
    unfolding ind_ctxt_regs_def upt_8 r8 by (simp add: ref_step_def upt_8 data_addr_def)
qed

lemma ref_leaves:
  "\<forall>p \<in> set ops. leaves_ctxt sel qid p \<Longrightarrow>
     stored (fold ref_step ops s) (sel_code sel, take_bit 12 (ucast qid)) = stored s (sel_code sel, take_bit 12 (ucast qid))"
proof (induction ops arbitrary: s)
  case (Cons p ops)
  have "stored (ref_step p s) (sel_code sel, take_bit 12 (ucast qid)) = stored s (sel_code sel, take_bit 12 (ucast qid))"
    using Cons.prems by (cases p) (auto simp: ref_step_def)
  then show ?case using Cons by simp
qed simp

lemma ref_device_ok: "ctxt_device ref_device"
  unfolding ctxt_device_def Let_def
proof (intro allI impI)
  fix pre sel qid data k ops j i
  let ?t = "pre @ reg_writes QDMA_OFFSET_IND_CTXT_DATA (ind_ctxt_regs sel qid data)"
  let ?u = "?t @ polls k @ ops @ [Reg_Write QDMA_OFFSET_IND_CTXT_CMD (ind_ctxt_cmd QDMA_CTXT_CMD_RD sel qid)]"
  assume h: "completed ref_device ?t k \<and> (\<forall>p \<in> set ops. leaves_ctxt sel qid p) \<and> completed ref_device ?u j \<and>
     length data \<le> 8 \<and> i < length data"
  then have i: "i < 8" by simp
  have addr: "data_addr i \<noteq> QDMA_OFFSET_IND_CTXT_CMD" using less_8[OF i] by (auto simp: data_addr_def)
  have "latched (fold ref_step (?u @ polls j @ reg_reads QDMA_OFFSET_IND_CTXT_DATA (Suc i)) ref_init) (data_addr i) = data ! i"
    using h i by (simp add: ref_step_def fetched ref_leaves ref_stores del: reg_reads.simps)
  then show "ref_device (?u @ polls j @ reg_reads QDMA_OFFSET_IND_CTXT_DATA (Suc i)) = data ! i"
    using addr by (simp add: ref_device_def reg_reads_snoc data_addr_def del: reg_reads.simps)
qed

lemma ref_never_busy: "ref_device (t @ [Reg_Read QDMA_OFFSET_IND_CTXT_CMD]) = 0"
  by (simp add: ref_device_def)

lemma poll_idle:
  assumes "env (t @ [Reg_Read QDMA_OFFSET_IND_CTXT_CMD]) = 0"
  shows "poll_cmd env t = (0, t @ polls 1)"
proof -
  have "monitor_loop env QDMA_OFFSET_IND_CTXT_CMD QDMA_IND_CTXT_CMD_BUSY_MASK 0 n t = (0, t @ polls 1)" for n
    by (subst monitor_loop.simps) (simp add: qdma_reg_read_def assms)
  then show ?thesis by (simp add: poll_cmd_def hw_monitor_reg_def)
qed

end
