(* ===== verification/Qdma_Soft.thy ===== *)
theory Qdma_Soft
  imports Qdma_Indirect
begin

text \<open>
  The queue contexts of the QDMA soft IP (\<open>qdma_soft_access.c\<close>, \<open>qdma_soft_reg.h\<close>): how every context
  structure is packed into words and programmed, how it is read back, cleared and invalidated, and
  the functions that select the operation.  The device handle is the register environment, absent
  for a null handle; a context pointer is an option.  What a read leaves in the caller's structure
  is its second result.  Packing (\<open>*_words\<close>) and unpacking (\<open>*_of_words\<close>) are named apart from the
  register accesses around them.
\<close>

abbreviation (input) QDMA_FMAP_CTXT_W1_QID_MAX_MASK :: u32 where "QDMA_FMAP_CTXT_W1_QID_MAX_MASK \<equiv> GENMASK 11 0"
abbreviation (input) QDMA_FMAP_CTXT_W0_QID_MASK :: u32 where "QDMA_FMAP_CTXT_W0_QID_MASK \<equiv> GENMASK 10 0"
abbreviation (input) QDMA_SW_CTXT_W4_INTR_AGGR_MASK :: u32 where "QDMA_SW_CTXT_W4_INTR_AGGR_MASK \<equiv> BIT 11"
abbreviation (input) QDMA_SW_CTXT_W4_VEC_MASK :: u32 where "QDMA_SW_CTXT_W4_VEC_MASK \<equiv> GENMASK 10 0"
abbreviation (input) QDMA_SW_CTXT_W1_IS_MM_MASK :: u32 where "QDMA_SW_CTXT_W1_IS_MM_MASK \<equiv> BIT 31"
abbreviation (input) QDMA_SW_CTXT_W1_MRKR_DIS_MASK :: u32 where "QDMA_SW_CTXT_W1_MRKR_DIS_MASK \<equiv> BIT 30"
abbreviation (input) QDMA_SW_CTXT_W1_IRQ_REQ_MASK :: u32 where "QDMA_SW_CTXT_W1_IRQ_REQ_MASK \<equiv> BIT 29"
abbreviation (input) QDMA_SW_CTXT_W1_ERR_WB_SENT_MASK :: u32 where "QDMA_SW_CTXT_W1_ERR_WB_SENT_MASK \<equiv> BIT 28"
abbreviation (input) QDMA_SW_CTXT_W1_ERR_MASK :: u32 where "QDMA_SW_CTXT_W1_ERR_MASK \<equiv> GENMASK 27 26"
abbreviation (input) QDMA_SW_CTXT_W1_IRQ_NO_LAST_MASK :: u32 where "QDMA_SW_CTXT_W1_IRQ_NO_LAST_MASK \<equiv> BIT 25"
abbreviation (input) QDMA_SW_CTXT_W1_PORT_ID_MASK :: u32 where "QDMA_SW_CTXT_W1_PORT_ID_MASK \<equiv> GENMASK 24 22"
abbreviation (input) QDMA_SW_CTXT_W1_IRQ_EN_MASK :: u32 where "QDMA_SW_CTXT_W1_IRQ_EN_MASK \<equiv> BIT 21"
abbreviation (input) QDMA_SW_CTXT_W1_WBK_EN_MASK :: u32 where "QDMA_SW_CTXT_W1_WBK_EN_MASK \<equiv> BIT 20"
abbreviation (input) QDMA_SW_CTXT_W1_MM_CHN_MASK :: u32 where "QDMA_SW_CTXT_W1_MM_CHN_MASK \<equiv> BIT 19"
abbreviation (input) QDMA_SW_CTXT_W1_BYP_MASK :: u32 where "QDMA_SW_CTXT_W1_BYP_MASK \<equiv> BIT 18"
abbreviation (input) QDMA_SW_CTXT_W1_DSC_SZ_MASK :: u32 where "QDMA_SW_CTXT_W1_DSC_SZ_MASK \<equiv> GENMASK 17 16"
abbreviation (input) QDMA_SW_CTXT_W1_RNG_SZ_MASK :: u32 where "QDMA_SW_CTXT_W1_RNG_SZ_MASK \<equiv> GENMASK 15 12"
abbreviation (input) QDMA_SW_CTXT_W1_FETCH_MAX_MASK :: u32 where "QDMA_SW_CTXT_W1_FETCH_MAX_MASK \<equiv> GENMASK 7 5"
abbreviation (input) QDMA_SW_CTXT_W1_AT_MASK :: u32 where "QDMA_SW_CTXT_W1_AT_MASK \<equiv> BIT 4"
abbreviation (input) QDMA_SW_CTXT_W1_WB_INT_EN_MASK :: u32 where "QDMA_SW_CTXT_W1_WB_INT_EN_MASK \<equiv> BIT 3"
abbreviation (input) QDMA_SW_CTXT_W1_WBI_CHK_MASK :: u32 where "QDMA_SW_CTXT_W1_WBI_CHK_MASK \<equiv> BIT 2"
abbreviation (input) QDMA_SW_CTXT_W1_FCRD_EN_MASK :: u32 where "QDMA_SW_CTXT_W1_FCRD_EN_MASK \<equiv> BIT 1"
abbreviation (input) QDMA_SW_CTXT_W1_QEN_MASK :: u32 where "QDMA_SW_CTXT_W1_QEN_MASK \<equiv> BIT 0"
abbreviation (input) QDMA_SW_CTXT_W0_FUNC_ID_MASK :: u32 where "QDMA_SW_CTXT_W0_FUNC_ID_MASK \<equiv> GENMASK 24 17"
abbreviation (input) QDMA_SW_CTXT_W0_IRQ_ARM_MASK :: u32 where "QDMA_SW_CTXT_W0_IRQ_ARM_MASK \<equiv> BIT 16"
abbreviation (input) QDMA_SW_CTXT_W0_PIDX :: u32 where "QDMA_SW_CTXT_W0_PIDX \<equiv> GENMASK 15 0"
abbreviation (input) QDMA_PFTCH_CTXT_W1_VALID_MASK :: u32 where "QDMA_PFTCH_CTXT_W1_VALID_MASK \<equiv> BIT 13"
abbreviation (input) QDMA_PFTCH_CTXT_W1_SW_CRDT_H_MASK :: u32 where "QDMA_PFTCH_CTXT_W1_SW_CRDT_H_MASK \<equiv> GENMASK 12 0"
abbreviation (input) QDMA_PFTCH_CTXT_W0_SW_CRDT_L_MASK :: u32 where "QDMA_PFTCH_CTXT_W0_SW_CRDT_L_MASK \<equiv> GENMASK 31 29"
abbreviation (input) QDMA_PFTCH_CTXT_W0_Q_IN_PFETCH_MASK :: u32 where "QDMA_PFTCH_CTXT_W0_Q_IN_PFETCH_MASK \<equiv> BIT 28"
abbreviation (input) QDMA_PFTCH_CTXT_W0_PFETCH_EN_MASK :: u32 where "QDMA_PFTCH_CTXT_W0_PFETCH_EN_MASK \<equiv> BIT 27"
abbreviation (input) QDMA_PFTCH_CTXT_W0_ERR_MASK :: u32 where "QDMA_PFTCH_CTXT_W0_ERR_MASK \<equiv> BIT 26"
abbreviation (input) QDMA_PFTCH_CTXT_W0_PORT_ID_MASK :: u32 where "QDMA_PFTCH_CTXT_W0_PORT_ID_MASK \<equiv> GENMASK 7 5"
abbreviation (input) QDMA_PFTCH_CTXT_W0_BUF_SIZE_IDX_MASK :: u32 where "QDMA_PFTCH_CTXT_W0_BUF_SIZE_IDX_MASK \<equiv> GENMASK 4 1"
abbreviation (input) QDMA_PFTCH_CTXT_W0_BYPASS_MASK :: u32 where "QDMA_PFTCH_CTXT_W0_BYPASS_MASK \<equiv> BIT 0"
abbreviation (input) QDMA_COMPL_CTXT_W4_INTR_AGGR_MASK :: u32 where "QDMA_COMPL_CTXT_W4_INTR_AGGR_MASK \<equiv> BIT 15"
abbreviation (input) QDMA_COMPL_CTXT_W4_INTR_VEC_MASK :: u32 where "QDMA_COMPL_CTXT_W4_INTR_VEC_MASK \<equiv> GENMASK 14 4"
abbreviation (input) QDMA_COMPL_CTXT_W4_AT_MASK :: u32 where "QDMA_COMPL_CTXT_W4_AT_MASK \<equiv> BIT 3"
abbreviation (input) QDMA_COMPL_CTXT_W4_OVF_CHK_DIS_MASK :: u32 where "QDMA_COMPL_CTXT_W4_OVF_CHK_DIS_MASK \<equiv> BIT 2"
abbreviation (input) QDMA_COMPL_CTXT_W4_FULL_UPDT_MASK :: u32 where "QDMA_COMPL_CTXT_W4_FULL_UPDT_MASK \<equiv> BIT 1"
abbreviation (input) QDMA_COMPL_CTXT_W4_TMR_RUN_MASK :: u32 where "QDMA_COMPL_CTXT_W4_TMR_RUN_MASK \<equiv> BIT 0"
abbreviation (input) QDMA_COMPL_CTXT_W3_USR_TRG_PND_MASK :: u32 where "QDMA_COMPL_CTXT_W3_USR_TRG_PND_MASK \<equiv> BIT 31"
abbreviation (input) QDMA_COMPL_CTXT_W3_ERR_MASK :: u32 where "QDMA_COMPL_CTXT_W3_ERR_MASK \<equiv> GENMASK 30 29"
abbreviation (input) QDMA_COMPL_CTXT_W3_VALID_MASK :: u32 where "QDMA_COMPL_CTXT_W3_VALID_MASK \<equiv> BIT 28"
abbreviation (input) QDMA_COMPL_CTXT_W3_CIDX_MASK :: u32 where "QDMA_COMPL_CTXT_W3_CIDX_MASK \<equiv> GENMASK 27 12"
abbreviation (input) QDMA_COMPL_CTXT_W3_PIDX_H_MASK :: u32 where "QDMA_COMPL_CTXT_W3_PIDX_H_MASK \<equiv> GENMASK 11 0"
abbreviation (input) QDMA_COMPL_CTXT_W2_PIDX_L_MASK :: u32 where "QDMA_COMPL_CTXT_W2_PIDX_L_MASK \<equiv> GENMASK 31 28"
abbreviation (input) QDMA_COMPL_CTXT_W2_DESC_SIZE_MASK :: u32 where "QDMA_COMPL_CTXT_W2_DESC_SIZE_MASK \<equiv> GENMASK 27 26"
abbreviation (input) QDMA_COMPL_CTXT_W2_BADDR_64_H_MASK :: u32 where "QDMA_COMPL_CTXT_W2_BADDR_64_H_MASK \<equiv> GENMASK 25 0"
abbreviation (input) QDMA_COMPL_CTXT_W1_BADDR_64_L_MASK :: u32 where "QDMA_COMPL_CTXT_W1_BADDR_64_L_MASK \<equiv> GENMASK 31 6"
abbreviation (input) QDMA_COMPL_CTXT_W0_RING_SZ_MASK :: u32 where "QDMA_COMPL_CTXT_W0_RING_SZ_MASK \<equiv> GENMASK 31 28"
abbreviation (input) QDMA_COMPL_CTXT_W0_COLOR_MASK :: u32 where "QDMA_COMPL_CTXT_W0_COLOR_MASK \<equiv> BIT 27"
abbreviation (input) QDMA_COMPL_CTXT_W0_INT_ST_MASK :: u32 where "QDMA_COMPL_CTXT_W0_INT_ST_MASK \<equiv> GENMASK 26 25"
abbreviation (input) QDMA_COMPL_CTXT_W0_TIMER_IDX_MASK :: u32 where "QDMA_COMPL_CTXT_W0_TIMER_IDX_MASK \<equiv> GENMASK 24 21"
abbreviation (input) QDMA_COMPL_CTXT_W0_COUNTER_IDX_MASK :: u32 where "QDMA_COMPL_CTXT_W0_COUNTER_IDX_MASK \<equiv> GENMASK 20 17"
abbreviation (input) QDMA_COMPL_CTXT_W0_FNC_ID_MASK :: u32 where "QDMA_COMPL_CTXT_W0_FNC_ID_MASK \<equiv> GENMASK 12 5"
abbreviation (input) QDMA_COMPL_CTXT_W0_TRIG_MODE_MASK :: u32 where "QDMA_COMPL_CTXT_W0_TRIG_MODE_MASK \<equiv> GENMASK 4 2"
abbreviation (input) QDMA_COMPL_CTXT_W0_EN_INT_MASK :: u32 where "QDMA_COMPL_CTXT_W0_EN_INT_MASK \<equiv> BIT 1"
abbreviation (input) QDMA_COMPL_CTXT_W0_EN_STAT_DESC_MASK :: u32 where "QDMA_COMPL_CTXT_W0_EN_STAT_DESC_MASK \<equiv> BIT 0"
abbreviation (input) QDMA_HW_CTXT_W1_FETCH_PEND_MASK :: u32 where "QDMA_HW_CTXT_W1_FETCH_PEND_MASK \<equiv> GENMASK 14 11"
abbreviation (input) QDMA_HW_CTXT_W1_EVENT_PEND_MASK :: u32 where "QDMA_HW_CTXT_W1_EVENT_PEND_MASK \<equiv> BIT 10"
abbreviation (input) QDMA_HW_CTXT_W1_IDL_STP_B_MASK :: u32 where "QDMA_HW_CTXT_W1_IDL_STP_B_MASK \<equiv> BIT 9"
abbreviation (input) QDMA_HW_CTXT_W1_DSC_PND_MASK :: u32 where "QDMA_HW_CTXT_W1_DSC_PND_MASK \<equiv> BIT 8"
abbreviation (input) QDMA_HW_CTXT_W0_CRD_USE_MASK :: u32 where "QDMA_HW_CTXT_W0_CRD_USE_MASK \<equiv> GENMASK 31 16"
abbreviation (input) QDMA_HW_CTXT_W0_CIDX_MASK :: u32 where "QDMA_HW_CTXT_W0_CIDX_MASK \<equiv> GENMASK 15 0"
abbreviation (input) QDMA_CR_CTXT_W0_CREDT_MASK :: u32 where "QDMA_CR_CTXT_W0_CREDT_MASK \<equiv> GENMASK 15 0"
abbreviation (input) QDMA_INTR_CTXT_W2_AT_MASK :: u32 where "QDMA_INTR_CTXT_W2_AT_MASK \<equiv> BIT 18"
abbreviation (input) QDMA_INTR_CTXT_W2_PIDX_MASK :: u32 where "QDMA_INTR_CTXT_W2_PIDX_MASK \<equiv> GENMASK 17 6"
abbreviation (input) QDMA_INTR_CTXT_W2_PAGE_SIZE_MASK :: u32 where "QDMA_INTR_CTXT_W2_PAGE_SIZE_MASK \<equiv> GENMASK 5 3"
abbreviation (input) QDMA_INTR_CTXT_W2_BADDR_64_MASK :: u32 where "QDMA_INTR_CTXT_W2_BADDR_64_MASK \<equiv> GENMASK 2 0"
abbreviation (input) QDMA_INTR_CTXT_W1_BADDR_64_MASK :: u32 where "QDMA_INTR_CTXT_W1_BADDR_64_MASK \<equiv> GENMASK 31 0"
abbreviation (input) QDMA_INTR_CTXT_W0_BADDR_64_MASK :: u32 where "QDMA_INTR_CTXT_W0_BADDR_64_MASK \<equiv> GENMASK 31 15"
abbreviation (input) QDMA_INTR_CTXT_W0_COLOR_MASK :: u32 where "QDMA_INTR_CTXT_W0_COLOR_MASK \<equiv> BIT 14"
abbreviation (input) QDMA_INTR_CTXT_W0_INT_ST_MASK :: u32 where "QDMA_INTR_CTXT_W0_INT_ST_MASK \<equiv> BIT 13"
abbreviation (input) QDMA_INTR_CTXT_W0_VEC_ID_MASK :: u32 where "QDMA_INTR_CTXT_W0_VEC_ID_MASK \<equiv> GENMASK 11 1"
abbreviation (input) QDMA_INTR_CTXT_W0_VALID_MASK :: u32 where "QDMA_INTR_CTXT_W0_VALID_MASK \<equiv> BIT 0"
abbreviation (input) QDMA_PFTCH_CTXT_SW_CRDT_GET_H_MASK :: u32 where "QDMA_PFTCH_CTXT_SW_CRDT_GET_H_MASK \<equiv> GENMASK 15 3"
abbreviation (input) QDMA_PFTCH_CTXT_SW_CRDT_GET_L_MASK :: u32 where "QDMA_PFTCH_CTXT_SW_CRDT_GET_L_MASK \<equiv> GENMASK 2 0"
abbreviation (input) QDMA_COMPL_CTXT_BADDR_GET_H_MASK :: u64 where "QDMA_COMPL_CTXT_BADDR_GET_H_MASK \<equiv> GENMASK 63 38"
abbreviation (input) QDMA_COMPL_CTXT_BADDR_GET_L_MASK :: u64 where "QDMA_COMPL_CTXT_BADDR_GET_L_MASK \<equiv> GENMASK 37 12"
abbreviation (input) QDMA_COMPL_CTXT_PIDX_GET_H_MASK :: u32 where "QDMA_COMPL_CTXT_PIDX_GET_H_MASK \<equiv> GENMASK 15 4"
abbreviation (input) QDMA_COMPL_CTXT_PIDX_GET_L_MASK :: u32 where "QDMA_COMPL_CTXT_PIDX_GET_L_MASK \<equiv> GENMASK 3 0"
abbreviation (input) QDMA_INTR_CTXT_BADDR_GET_H_MASK :: u64 where "QDMA_INTR_CTXT_BADDR_GET_H_MASK \<equiv> GENMASK 63 61"
abbreviation (input) QDMA_INTR_CTXT_BADDR_GET_M_MASK :: u64 where "QDMA_INTR_CTXT_BADDR_GET_M_MASK \<equiv> GENMASK 60 29"
abbreviation (input) QDMA_INTR_CTXT_BADDR_GET_L_MASK :: u64 where "QDMA_INTR_CTXT_BADDR_GET_L_MASK \<equiv> GENMASK 28 12"

abbreviation (input) QDMA_FMAP_NUM_WORDS :: nat where "QDMA_FMAP_NUM_WORDS \<equiv> 2"
abbreviation (input) QDMA_SW_CONTEXT_NUM_WORDS :: nat where "QDMA_SW_CONTEXT_NUM_WORDS \<equiv> 5"
abbreviation (input) QDMA_PFETCH_CONTEXT_NUM_WORDS :: nat where "QDMA_PFETCH_CONTEXT_NUM_WORDS \<equiv> 2"
abbreviation (input) QDMA_CMPT_CONTEXT_NUM_WORDS :: nat where "QDMA_CMPT_CONTEXT_NUM_WORDS \<equiv> 5"
abbreviation (input) QDMA_HW_CONTEXT_NUM_WORDS :: nat where "QDMA_HW_CONTEXT_NUM_WORDS \<equiv> 2"
abbreviation (input) QDMA_CR_CONTEXT_NUM_WORDS :: nat where "QDMA_CR_CONTEXT_NUM_WORDS \<equiv> 1"
abbreviation (input) QDMA_IND_INTR_CONTEXT_NUM_WORDS :: nat where "QDMA_IND_INTR_CONTEXT_NUM_WORDS \<equiv> 3"
abbreviation (input) QDMA_CMPT_UPDATE_TRIG_MODE_TMR_CNTR :: u8 where "QDMA_CMPT_UPDATE_TRIG_MODE_TMR_CNTR \<equiv> 5"

type_synonym dev_hndl = "reg_env option"

subsection \<open>The shape shared by the operations\<close>

text \<open>
  Every write, read, clear and invalidate tests its pointers before it touches a register.  A read
  leaves the structure alone unless the registers were read.
\<close>

definition ctxt_write :: "dev_hndl \<Rightarrow> ind_ctxt_cmd_sel \<Rightarrow> u16 \<Rightarrow> ('c \<Rightarrow> u32 list) \<Rightarrow> 'c option \<Rightarrow> reg_op list \<Rightarrow> int \<times> reg_op list" where
  "ctxt_write dev sel hw_qid words ctxt t = (case (dev, ctxt) of
     (Some env, Some c) \<Rightarrow> qdma_indirect_reg_write env sel hw_qid (words c) t
   | _ \<Rightarrow> (- QDMA_ERR_INV_PARAM, t))"

definition ctxt_read :: "dev_hndl \<Rightarrow> ind_ctxt_cmd_sel \<Rightarrow> u16 \<Rightarrow> nat \<Rightarrow> (u32 list \<Rightarrow> 'c \<Rightarrow> 'c) \<Rightarrow> 'c option \<Rightarrow> reg_op list \<Rightarrow>
    int \<times> 'c option \<times> reg_op list" where
  "ctxt_read dev sel hw_qid n of_words ctxt t = (case (dev, ctxt) of
     (Some env, Some c) \<Rightarrow>
       (let (rv, ws, t) = qdma_indirect_reg_read env sel hw_qid n t in
        if rv < 0 then (rv, ctxt, t) else (QDMA_SUCCESS, Some (of_words ws c), t))
   | _ \<Rightarrow> (- QDMA_ERR_INV_PARAM, ctxt, t))"

definition ctxt_clear :: "dev_hndl \<Rightarrow> ind_ctxt_cmd_sel \<Rightarrow> u16 \<Rightarrow> reg_op list \<Rightarrow> int \<times> reg_op list" where
  "ctxt_clear dev sel hw_qid t = (case dev of
     None \<Rightarrow> (- QDMA_ERR_INV_PARAM, t) | Some env \<Rightarrow> qdma_indirect_reg_clear env sel hw_qid t)"

definition ctxt_invalidate :: "dev_hndl \<Rightarrow> ind_ctxt_cmd_sel \<Rightarrow> u16 \<Rightarrow> reg_op list \<Rightarrow> int \<times> reg_op list" where
  "ctxt_invalidate dev sel hw_qid t = (case dev of
     None \<Rightarrow> (- QDMA_ERR_INV_PARAM, t) | Some env \<Rightarrow> qdma_indirect_reg_invalidate env sel hw_qid t)"

text \<open>A result without a structure to write to, beside the structure as it was.\<close>

definition keep_ctxt :: "'c option \<Rightarrow> int \<times> reg_op list \<Rightarrow> int \<times> 'c option \<times> reg_op list" where
  "keep_ctxt ctxt r = (fst r, ctxt, snd r)"

subsection \<open>Function map\<close>

definition fmap_words :: "qdma_fmap_cfg \<Rightarrow> u32 list" where
  "fmap_words c =
     [FIELD_SET QDMA_FMAP_CTXT_W0_QID_MASK (ucast (cfg_qbase c)),
      FIELD_SET QDMA_FMAP_CTXT_W1_QID_MAX_MASK (ucast (cfg_qmax c))]"

definition fmap_of_words :: "u32 list \<Rightarrow> qdma_fmap_cfg \<Rightarrow> qdma_fmap_cfg" where
  "fmap_of_words ws c = c\<lparr>cfg_qbase := ucast (FIELD_GET QDMA_FMAP_CTXT_W0_QID_MASK (ws ! 0)),
      cfg_qmax := ucast (FIELD_GET QDMA_FMAP_CTXT_W1_QID_MAX_MASK (ws ! 1))\<rparr>"

definition qdma_fmap_write :: "dev_hndl \<Rightarrow> u16 \<Rightarrow> qdma_fmap_cfg option \<Rightarrow> reg_op list \<Rightarrow> int \<times> reg_op list" where
  "qdma_fmap_write dev func config t = ctxt_write dev QDMA_CTXT_SEL_FMAP func fmap_words config t"

definition qdma_fmap_read :: "dev_hndl \<Rightarrow> u16 \<Rightarrow> qdma_fmap_cfg option \<Rightarrow> reg_op list \<Rightarrow> int \<times> qdma_fmap_cfg option \<times> reg_op list" where
  "qdma_fmap_read dev func config t =
     ctxt_read dev QDMA_CTXT_SEL_FMAP func QDMA_FMAP_NUM_WORDS fmap_of_words config t"

definition qdma_fmap_clear :: "dev_hndl \<Rightarrow> u16 \<Rightarrow> reg_op list \<Rightarrow> int \<times> reg_op list" where
  "qdma_fmap_clear dev func t = ctxt_clear dev QDMA_CTXT_SEL_FMAP func t"

definition qdma_fmap_conf :: "dev_hndl \<Rightarrow> u16 \<Rightarrow> qdma_fmap_cfg option \<Rightarrow> qdma_hw_access_type \<Rightarrow> reg_op list \<Rightarrow>
    int \<times> qdma_fmap_cfg option \<times> reg_op list" where
  "qdma_fmap_conf dev func config access_type t = (case access_type of
     QDMA_HW_ACCESS_READ \<Rightarrow> qdma_fmap_read dev func config t
   | QDMA_HW_ACCESS_WRITE \<Rightarrow> keep_ctxt config (qdma_fmap_write dev func config t)
   | QDMA_HW_ACCESS_CLEAR \<Rightarrow> keep_ctxt config (qdma_fmap_clear dev func t)
   | QDMA_HW_ACCESS_INVALIDATE \<Rightarrow> (- QDMA_ERR_INV_PARAM, config, t))"

subsection \<open>Software context\<close>

definition sw_sel :: "u8 \<Rightarrow> ind_ctxt_cmd_sel" where
  "sw_sel c2h = (if c2h \<noteq> 0 then QDMA_CTXT_SEL_SW_C2H else QDMA_CTXT_SEL_SW_H2C)"

definition sw_words :: "qdma_descq_sw_ctxt \<Rightarrow> u32 list" where
  "sw_words c =
     [FIELD_SET QDMA_SW_CTXT_W0_PIDX (ucast (sw_pidx c)) OR
      FIELD_SET QDMA_SW_CTXT_W0_IRQ_ARM_MASK (ucast (sw_irq_arm c)) OR
      FIELD_SET QDMA_SW_CTXT_W0_FUNC_ID_MASK (ucast (sw_fnc_id c)),
      FIELD_SET QDMA_SW_CTXT_W1_QEN_MASK (ucast (sw_qen c)) OR
      FIELD_SET QDMA_SW_CTXT_W1_FCRD_EN_MASK (ucast (sw_frcd_en c)) OR
      FIELD_SET QDMA_SW_CTXT_W1_WBI_CHK_MASK (ucast (sw_wbi_chk c)) OR
      FIELD_SET QDMA_SW_CTXT_W1_WB_INT_EN_MASK (ucast (sw_wbi_intvl_en c)) OR
      FIELD_SET QDMA_SW_CTXT_W1_AT_MASK (ucast (sw_at c)) OR
      FIELD_SET QDMA_SW_CTXT_W1_FETCH_MAX_MASK (ucast (sw_fetch_max c)) OR
      FIELD_SET QDMA_SW_CTXT_W1_RNG_SZ_MASK (ucast (sw_rngsz_idx c)) OR
      FIELD_SET QDMA_SW_CTXT_W1_DSC_SZ_MASK (ucast (sw_desc_sz c)) OR
      FIELD_SET QDMA_SW_CTXT_W1_BYP_MASK (ucast (sw_bypass c)) OR
      FIELD_SET QDMA_SW_CTXT_W1_MM_CHN_MASK (ucast (sw_mm_chn c)) OR
      FIELD_SET QDMA_SW_CTXT_W1_WBK_EN_MASK (ucast (sw_wbk_en c)) OR
      FIELD_SET QDMA_SW_CTXT_W1_IRQ_EN_MASK (ucast (sw_irq_en c)) OR
      FIELD_SET QDMA_SW_CTXT_W1_PORT_ID_MASK (ucast (sw_port_id c)) OR
      FIELD_SET QDMA_SW_CTXT_W1_IRQ_NO_LAST_MASK (ucast (sw_irq_no_last c)) OR
      FIELD_SET QDMA_SW_CTXT_W1_ERR_MASK (ucast (sw_err c)) OR
      FIELD_SET QDMA_SW_CTXT_W1_ERR_WB_SENT_MASK (ucast (sw_err_wb_sent c)) OR
      FIELD_SET QDMA_SW_CTXT_W1_IRQ_REQ_MASK (ucast (sw_irq_req c)) OR
      FIELD_SET QDMA_SW_CTXT_W1_MRKR_DIS_MASK (ucast (sw_mrkr_dis c)) OR
      FIELD_SET QDMA_SW_CTXT_W1_IS_MM_MASK (ucast (sw_is_mm c)),
      ucast (sw_ring_bs_addr c AND 0xFFFFFFFF),
      ucast (drop_bit 32 (sw_ring_bs_addr c) AND 0xFFFFFFFF),
      FIELD_SET QDMA_SW_CTXT_W4_VEC_MASK (ucast (sw_vec c)) OR
      FIELD_SET QDMA_SW_CTXT_W4_INTR_AGGR_MASK (ucast (sw_intr_aggr c))]"

definition sw_of_words :: "u32 list \<Rightarrow> qdma_descq_sw_ctxt \<Rightarrow> qdma_descq_sw_ctxt" where
  "sw_of_words ws c = c\<lparr>sw_pidx := ucast (FIELD_GET QDMA_SW_CTXT_W0_PIDX (ws ! 0)),
      sw_irq_arm := ucast (FIELD_GET QDMA_SW_CTXT_W0_IRQ_ARM_MASK (ws ! 0)),
      sw_fnc_id := ucast (FIELD_GET QDMA_SW_CTXT_W0_FUNC_ID_MASK (ws ! 0)),
      sw_qen := ucast (FIELD_GET QDMA_SW_CTXT_W1_QEN_MASK (ws ! 1)),
      sw_frcd_en := ucast (FIELD_GET QDMA_SW_CTXT_W1_FCRD_EN_MASK (ws ! 1)),
      sw_wbi_chk := ucast (FIELD_GET QDMA_SW_CTXT_W1_WBI_CHK_MASK (ws ! 1)),
      sw_wbi_intvl_en := ucast (FIELD_GET QDMA_SW_CTXT_W1_WB_INT_EN_MASK (ws ! 1)),
      sw_at := ucast (FIELD_GET QDMA_SW_CTXT_W1_AT_MASK (ws ! 1)),
      sw_fetch_max := ucast (FIELD_GET QDMA_SW_CTXT_W1_FETCH_MAX_MASK (ws ! 1)),
      sw_rngsz_idx := ucast (FIELD_GET QDMA_SW_CTXT_W1_RNG_SZ_MASK (ws ! 1)),
      sw_desc_sz := ucast (FIELD_GET QDMA_SW_CTXT_W1_DSC_SZ_MASK (ws ! 1)),
      sw_bypass := ucast (FIELD_GET QDMA_SW_CTXT_W1_BYP_MASK (ws ! 1)),
      sw_mm_chn := ucast (FIELD_GET QDMA_SW_CTXT_W1_MM_CHN_MASK (ws ! 1)),
      sw_wbk_en := ucast (FIELD_GET QDMA_SW_CTXT_W1_WBK_EN_MASK (ws ! 1)),
      sw_irq_en := ucast (FIELD_GET QDMA_SW_CTXT_W1_IRQ_EN_MASK (ws ! 1)),
      sw_port_id := ucast (FIELD_GET QDMA_SW_CTXT_W1_PORT_ID_MASK (ws ! 1)),
      sw_irq_no_last := ucast (FIELD_GET QDMA_SW_CTXT_W1_IRQ_NO_LAST_MASK (ws ! 1)),
      sw_err := ucast (FIELD_GET QDMA_SW_CTXT_W1_ERR_MASK (ws ! 1)),
      sw_err_wb_sent := ucast (FIELD_GET QDMA_SW_CTXT_W1_ERR_WB_SENT_MASK (ws ! 1)),
      sw_irq_req := ucast (FIELD_GET QDMA_SW_CTXT_W1_IRQ_REQ_MASK (ws ! 1)),
      sw_mrkr_dis := ucast (FIELD_GET QDMA_SW_CTXT_W1_MRKR_DIS_MASK (ws ! 1)),
      sw_is_mm := ucast (FIELD_GET QDMA_SW_CTXT_W1_IS_MM_MASK (ws ! 1)),
      sw_ring_bs_addr := push_bit 32 (ucast (ws ! 3)) OR ucast (ws ! 2),
      sw_vec := ucast (FIELD_GET QDMA_SW_CTXT_W4_VEC_MASK (ws ! 4)),
      sw_intr_aggr := ucast (FIELD_GET QDMA_SW_CTXT_W4_INTR_AGGR_MASK (ws ! 4))\<rparr>"

definition qdma_sw_context_write :: "dev_hndl \<Rightarrow> u8 \<Rightarrow> u16 \<Rightarrow> qdma_descq_sw_ctxt option \<Rightarrow> reg_op list \<Rightarrow> int \<times> reg_op list" where
  "qdma_sw_context_write dev c2h hw_qid ctxt t = ctxt_write dev (sw_sel c2h) hw_qid sw_words ctxt t"

definition qdma_sw_context_read :: "dev_hndl \<Rightarrow> u8 \<Rightarrow> u16 \<Rightarrow> qdma_descq_sw_ctxt option \<Rightarrow> reg_op list \<Rightarrow>
    int \<times> qdma_descq_sw_ctxt option \<times> reg_op list" where
  "qdma_sw_context_read dev c2h hw_qid ctxt t =
     ctxt_read dev (sw_sel c2h) hw_qid QDMA_SW_CONTEXT_NUM_WORDS sw_of_words ctxt t"

definition qdma_sw_context_clear :: "dev_hndl \<Rightarrow> u8 \<Rightarrow> u16 \<Rightarrow> reg_op list \<Rightarrow> int \<times> reg_op list" where
  "qdma_sw_context_clear dev c2h hw_qid t = ctxt_clear dev (sw_sel c2h) hw_qid t"

definition qdma_sw_context_invalidate :: "dev_hndl \<Rightarrow> u8 \<Rightarrow> u16 \<Rightarrow> reg_op list \<Rightarrow> int \<times> reg_op list" where
  "qdma_sw_context_invalidate dev c2h hw_qid t = ctxt_invalidate dev (sw_sel c2h) hw_qid t"

definition qdma_sw_ctx_conf :: "dev_hndl \<Rightarrow> u8 \<Rightarrow> u16 \<Rightarrow> qdma_descq_sw_ctxt option \<Rightarrow> qdma_hw_access_type \<Rightarrow> reg_op list \<Rightarrow>
    int \<times> qdma_descq_sw_ctxt option \<times> reg_op list" where
  "qdma_sw_ctx_conf dev c2h hw_qid ctxt access_type t =
     (if 1 < c2h then (- QDMA_ERR_INV_PARAM, ctxt, t)
      else case access_type of
        QDMA_HW_ACCESS_READ \<Rightarrow> qdma_sw_context_read dev c2h hw_qid ctxt t
      | QDMA_HW_ACCESS_WRITE \<Rightarrow> keep_ctxt ctxt (qdma_sw_context_write dev c2h hw_qid ctxt t)
      | QDMA_HW_ACCESS_CLEAR \<Rightarrow> keep_ctxt ctxt (qdma_sw_context_clear dev c2h hw_qid t)
      | QDMA_HW_ACCESS_INVALIDATE \<Rightarrow> keep_ctxt ctxt (qdma_sw_context_invalidate dev c2h hw_qid t))"

subsection \<open>Prefetch context\<close>

text \<open>The credit is split over the two words.\<close>

definition pf_words :: "qdma_descq_prefetch_ctxt \<Rightarrow> u32 list" where
  "pf_words c =
     (let sw_crdt_l = FIELD_GET QDMA_PFTCH_CTXT_SW_CRDT_GET_L_MASK (ucast (pf_sw_crdt c));
          sw_crdt_h = FIELD_GET QDMA_PFTCH_CTXT_SW_CRDT_GET_H_MASK (ucast (pf_sw_crdt c)) in
     [FIELD_SET QDMA_PFTCH_CTXT_W0_BYPASS_MASK (ucast (pf_bypass c)) OR
      FIELD_SET QDMA_PFTCH_CTXT_W0_BUF_SIZE_IDX_MASK (ucast (pf_bufsz_idx c)) OR
      FIELD_SET QDMA_PFTCH_CTXT_W0_PORT_ID_MASK (ucast (pf_port_id c)) OR
      FIELD_SET QDMA_PFTCH_CTXT_W0_ERR_MASK (ucast (pf_err c)) OR
      FIELD_SET QDMA_PFTCH_CTXT_W0_PFETCH_EN_MASK (ucast (pf_pfch_en c)) OR
      FIELD_SET QDMA_PFTCH_CTXT_W0_Q_IN_PFETCH_MASK (ucast (pf_pfch c)) OR
      FIELD_SET QDMA_PFTCH_CTXT_W0_SW_CRDT_L_MASK sw_crdt_l,
      FIELD_SET QDMA_PFTCH_CTXT_W1_SW_CRDT_H_MASK sw_crdt_h OR
      FIELD_SET QDMA_PFTCH_CTXT_W1_VALID_MASK (ucast (pf_valid c))])"

definition pf_of_words :: "u32 list \<Rightarrow> qdma_descq_prefetch_ctxt \<Rightarrow> qdma_descq_prefetch_ctxt" where
  "pf_of_words ws c =
     (let sw_crdt_l = FIELD_GET QDMA_PFTCH_CTXT_W0_SW_CRDT_L_MASK (ws ! 0);
          sw_crdt_h = FIELD_GET QDMA_PFTCH_CTXT_W1_SW_CRDT_H_MASK (ws ! 1) in
      c\<lparr>pf_bypass := ucast (FIELD_GET QDMA_PFTCH_CTXT_W0_BYPASS_MASK (ws ! 0)),
      pf_bufsz_idx := ucast (FIELD_GET QDMA_PFTCH_CTXT_W0_BUF_SIZE_IDX_MASK (ws ! 0)),
      pf_port_id := ucast (FIELD_GET QDMA_PFTCH_CTXT_W0_PORT_ID_MASK (ws ! 0)),
      pf_err := ucast (FIELD_GET QDMA_PFTCH_CTXT_W0_ERR_MASK (ws ! 0)),
      pf_pfch_en := ucast (FIELD_GET QDMA_PFTCH_CTXT_W0_PFETCH_EN_MASK (ws ! 0)),
      pf_pfch := ucast (FIELD_GET QDMA_PFTCH_CTXT_W0_Q_IN_PFETCH_MASK (ws ! 0)),
      pf_valid := ucast (FIELD_GET QDMA_PFTCH_CTXT_W1_VALID_MASK (ws ! 1)),
      pf_sw_crdt := ucast (FIELD_SET QDMA_PFTCH_CTXT_SW_CRDT_GET_L_MASK sw_crdt_l OR
        FIELD_SET QDMA_PFTCH_CTXT_SW_CRDT_GET_H_MASK sw_crdt_h)\<rparr>)"

definition qdma_pfetch_context_write :: "dev_hndl \<Rightarrow> u16 \<Rightarrow> qdma_descq_prefetch_ctxt option \<Rightarrow> reg_op list \<Rightarrow> int \<times> reg_op list" where
  "qdma_pfetch_context_write dev hw_qid ctxt t = ctxt_write dev QDMA_CTXT_SEL_PFTCH hw_qid pf_words ctxt t"

definition qdma_pfetch_context_read :: "dev_hndl \<Rightarrow> u16 \<Rightarrow> qdma_descq_prefetch_ctxt option \<Rightarrow> reg_op list \<Rightarrow>
    int \<times> qdma_descq_prefetch_ctxt option \<times> reg_op list" where
  "qdma_pfetch_context_read dev hw_qid ctxt t =
     ctxt_read dev QDMA_CTXT_SEL_PFTCH hw_qid QDMA_PFETCH_CONTEXT_NUM_WORDS pf_of_words ctxt t"

definition qdma_pfetch_context_clear :: "dev_hndl \<Rightarrow> u16 \<Rightarrow> reg_op list \<Rightarrow> int \<times> reg_op list" where
  "qdma_pfetch_context_clear dev hw_qid t = ctxt_clear dev QDMA_CTXT_SEL_PFTCH hw_qid t"

definition qdma_pfetch_context_invalidate :: "dev_hndl \<Rightarrow> u16 \<Rightarrow> reg_op list \<Rightarrow> int \<times> reg_op list" where
  "qdma_pfetch_context_invalidate dev hw_qid t = ctxt_invalidate dev QDMA_CTXT_SEL_PFTCH hw_qid t"

definition qdma_pfetch_ctx_conf :: "dev_hndl \<Rightarrow> u16 \<Rightarrow> qdma_descq_prefetch_ctxt option \<Rightarrow> qdma_hw_access_type \<Rightarrow> reg_op list \<Rightarrow>
    int \<times> qdma_descq_prefetch_ctxt option \<times> reg_op list" where
  "qdma_pfetch_ctx_conf dev hw_qid ctxt access_type t = (case access_type of
     QDMA_HW_ACCESS_READ \<Rightarrow> qdma_pfetch_context_read dev hw_qid ctxt t
   | QDMA_HW_ACCESS_WRITE \<Rightarrow> keep_ctxt ctxt (qdma_pfetch_context_write dev hw_qid ctxt t)
   | QDMA_HW_ACCESS_CLEAR \<Rightarrow> keep_ctxt ctxt (qdma_pfetch_context_clear dev hw_qid t)
   | QDMA_HW_ACCESS_INVALIDATE \<Rightarrow> keep_ctxt ctxt (qdma_pfetch_context_invalidate dev hw_qid t))"

subsection \<open>Completion context\<close>

definition cmpt_words :: "qdma_descq_cmpt_ctxt \<Rightarrow> u32 list" where
  "cmpt_words c =
     (let baddr_l = ucast (FIELD_GET QDMA_COMPL_CTXT_BADDR_GET_L_MASK (cm_bs_addr c));
          baddr_h = ucast (FIELD_GET QDMA_COMPL_CTXT_BADDR_GET_H_MASK (cm_bs_addr c));
          pidx_l = FIELD_GET QDMA_COMPL_CTXT_PIDX_GET_L_MASK (ucast (cm_pidx c));
          pidx_h = FIELD_GET QDMA_COMPL_CTXT_PIDX_GET_H_MASK (ucast (cm_pidx c)) in
     [FIELD_SET QDMA_COMPL_CTXT_W0_EN_STAT_DESC_MASK (ucast (cm_en_stat_desc c)) OR
      FIELD_SET QDMA_COMPL_CTXT_W0_EN_INT_MASK (ucast (cm_en_int c)) OR
      FIELD_SET QDMA_COMPL_CTXT_W0_TRIG_MODE_MASK (ucast (cm_trig_mode c)) OR
      FIELD_SET QDMA_COMPL_CTXT_W0_FNC_ID_MASK (ucast (cm_fnc_id c)) OR
      FIELD_SET QDMA_COMPL_CTXT_W0_COUNTER_IDX_MASK (ucast (cm_counter_idx c)) OR
      FIELD_SET QDMA_COMPL_CTXT_W0_TIMER_IDX_MASK (ucast (cm_timer_idx c)) OR
      FIELD_SET QDMA_COMPL_CTXT_W0_INT_ST_MASK (ucast (cm_in_st c)) OR
      FIELD_SET QDMA_COMPL_CTXT_W0_COLOR_MASK (ucast (cm_color c)) OR
      FIELD_SET QDMA_COMPL_CTXT_W0_RING_SZ_MASK (ucast (cm_ringsz_idx c)),
      FIELD_SET QDMA_COMPL_CTXT_W1_BADDR_64_L_MASK baddr_l,
      FIELD_SET QDMA_COMPL_CTXT_W2_BADDR_64_H_MASK baddr_h OR
      FIELD_SET QDMA_COMPL_CTXT_W2_DESC_SIZE_MASK (ucast (cm_desc_sz c)) OR
      FIELD_SET QDMA_COMPL_CTXT_W2_PIDX_L_MASK pidx_l,
      FIELD_SET QDMA_COMPL_CTXT_W3_PIDX_H_MASK pidx_h OR
      FIELD_SET QDMA_COMPL_CTXT_W3_CIDX_MASK (ucast (cm_cidx c)) OR
      FIELD_SET QDMA_COMPL_CTXT_W3_VALID_MASK (ucast (cm_valid c)) OR
      FIELD_SET QDMA_COMPL_CTXT_W3_ERR_MASK (ucast (cm_err c)) OR
      FIELD_SET QDMA_COMPL_CTXT_W3_USR_TRG_PND_MASK (ucast (cm_user_trig_pend c)),
      FIELD_SET QDMA_COMPL_CTXT_W4_TMR_RUN_MASK (ucast (cm_timer_running c)) OR
      FIELD_SET QDMA_COMPL_CTXT_W4_FULL_UPDT_MASK (ucast (cm_full_upd c)) OR
      FIELD_SET QDMA_COMPL_CTXT_W4_OVF_CHK_DIS_MASK (ucast (cm_ovf_chk_dis c)) OR
      FIELD_SET QDMA_COMPL_CTXT_W4_AT_MASK (ucast (cm_at c)) OR
      FIELD_SET QDMA_COMPL_CTXT_W4_INTR_VEC_MASK (ucast (cm_vec c)) OR
      FIELD_SET QDMA_COMPL_CTXT_W4_INTR_AGGR_MASK (ucast (cm_int_aggr c))])"

definition cmpt_of_words :: "u32 list \<Rightarrow> qdma_descq_cmpt_ctxt \<Rightarrow> qdma_descq_cmpt_ctxt" where
  "cmpt_of_words ws c =
     (let baddr_l = FIELD_GET QDMA_COMPL_CTXT_W1_BADDR_64_L_MASK (ws ! 1);
          baddr_h = FIELD_GET QDMA_COMPL_CTXT_W2_BADDR_64_H_MASK (ws ! 2);
          pidx_l = FIELD_GET QDMA_COMPL_CTXT_W2_PIDX_L_MASK (ws ! 2);
          pidx_h = FIELD_GET QDMA_COMPL_CTXT_W3_PIDX_H_MASK (ws ! 3) in
      c\<lparr>cm_en_stat_desc := ucast (FIELD_GET QDMA_COMPL_CTXT_W0_EN_STAT_DESC_MASK (ws ! 0)),
      cm_en_int := ucast (FIELD_GET QDMA_COMPL_CTXT_W0_EN_INT_MASK (ws ! 0)),
      cm_trig_mode := ucast (FIELD_GET QDMA_COMPL_CTXT_W0_TRIG_MODE_MASK (ws ! 0)),
      cm_fnc_id := ucast (FIELD_GET QDMA_COMPL_CTXT_W0_FNC_ID_MASK (ws ! 0)),
      cm_counter_idx := ucast (FIELD_GET QDMA_COMPL_CTXT_W0_COUNTER_IDX_MASK (ws ! 0)),
      cm_timer_idx := ucast (FIELD_GET QDMA_COMPL_CTXT_W0_TIMER_IDX_MASK (ws ! 0)),
      cm_in_st := ucast (FIELD_GET QDMA_COMPL_CTXT_W0_INT_ST_MASK (ws ! 0)),
      cm_color := ucast (FIELD_GET QDMA_COMPL_CTXT_W0_COLOR_MASK (ws ! 0)),
      cm_ringsz_idx := ucast (FIELD_GET QDMA_COMPL_CTXT_W0_RING_SZ_MASK (ws ! 0)),
      cm_desc_sz := ucast (FIELD_GET QDMA_COMPL_CTXT_W2_DESC_SIZE_MASK (ws ! 2)),
      cm_cidx := ucast (FIELD_GET QDMA_COMPL_CTXT_W3_CIDX_MASK (ws ! 3)),
      cm_valid := ucast (FIELD_GET QDMA_COMPL_CTXT_W3_VALID_MASK (ws ! 3)),
      cm_err := ucast (FIELD_GET QDMA_COMPL_CTXT_W3_ERR_MASK (ws ! 3)),
      cm_user_trig_pend := ucast (FIELD_GET QDMA_COMPL_CTXT_W3_USR_TRG_PND_MASK (ws ! 3)),
      cm_timer_running := ucast (FIELD_GET QDMA_COMPL_CTXT_W4_TMR_RUN_MASK (ws ! 4)),
      cm_full_upd := ucast (FIELD_GET QDMA_COMPL_CTXT_W4_FULL_UPDT_MASK (ws ! 4)),
      cm_ovf_chk_dis := ucast (FIELD_GET QDMA_COMPL_CTXT_W4_OVF_CHK_DIS_MASK (ws ! 4)),
      cm_at := ucast (FIELD_GET QDMA_COMPL_CTXT_W4_AT_MASK (ws ! 4)),
      cm_vec := ucast (FIELD_GET QDMA_COMPL_CTXT_W4_INTR_VEC_MASK (ws ! 4)),
      cm_int_aggr := ucast (FIELD_GET QDMA_COMPL_CTXT_W4_INTR_AGGR_MASK (ws ! 4)),
      cm_bs_addr := FIELD_SET QDMA_COMPL_CTXT_BADDR_GET_L_MASK (ucast baddr_l) OR
        FIELD_SET QDMA_COMPL_CTXT_BADDR_GET_H_MASK (ucast baddr_h),
      cm_pidx := ucast (FIELD_SET QDMA_COMPL_CTXT_PIDX_GET_L_MASK pidx_l OR
        FIELD_SET QDMA_COMPL_CTXT_PIDX_GET_H_MASK pidx_h)\<rparr>)"

definition qdma_cmpt_context_write :: "dev_hndl \<Rightarrow> u16 \<Rightarrow> qdma_descq_cmpt_ctxt option \<Rightarrow> reg_op list \<Rightarrow> int \<times> reg_op list" where
  "qdma_cmpt_context_write dev hw_qid ctxt t = (case (dev, ctxt) of
     (Some env, Some c) \<Rightarrow>
       if QDMA_CMPT_UPDATE_TRIG_MODE_TMR_CNTR < cm_trig_mode c then (- QDMA_ERR_INV_PARAM, t)
       else qdma_indirect_reg_write env QDMA_CTXT_SEL_CMPT hw_qid (cmpt_words c) t
   | _ \<Rightarrow> (- QDMA_ERR_INV_PARAM, t))"

definition qdma_cmpt_context_read :: "dev_hndl \<Rightarrow> u16 \<Rightarrow> qdma_descq_cmpt_ctxt option \<Rightarrow> reg_op list \<Rightarrow>
    int \<times> qdma_descq_cmpt_ctxt option \<times> reg_op list" where
  "qdma_cmpt_context_read dev hw_qid ctxt t =
     ctxt_read dev QDMA_CTXT_SEL_CMPT hw_qid QDMA_CMPT_CONTEXT_NUM_WORDS cmpt_of_words ctxt t"

definition qdma_cmpt_context_clear :: "dev_hndl \<Rightarrow> u16 \<Rightarrow> reg_op list \<Rightarrow> int \<times> reg_op list" where
  "qdma_cmpt_context_clear dev hw_qid t = ctxt_clear dev QDMA_CTXT_SEL_CMPT hw_qid t"

definition qdma_cmpt_context_invalidate :: "dev_hndl \<Rightarrow> u16 \<Rightarrow> reg_op list \<Rightarrow> int \<times> reg_op list" where
  "qdma_cmpt_context_invalidate dev hw_qid t = ctxt_invalidate dev QDMA_CTXT_SEL_CMPT hw_qid t"

definition qdma_cmpt_ctx_conf :: "dev_hndl \<Rightarrow> u16 \<Rightarrow> qdma_descq_cmpt_ctxt option \<Rightarrow> qdma_hw_access_type \<Rightarrow> reg_op list \<Rightarrow>
    int \<times> qdma_descq_cmpt_ctxt option \<times> reg_op list" where
  "qdma_cmpt_ctx_conf dev hw_qid ctxt access_type t = (case access_type of
     QDMA_HW_ACCESS_READ \<Rightarrow> qdma_cmpt_context_read dev hw_qid ctxt t
   | QDMA_HW_ACCESS_WRITE \<Rightarrow> keep_ctxt ctxt (qdma_cmpt_context_write dev hw_qid ctxt t)
   | QDMA_HW_ACCESS_CLEAR \<Rightarrow> keep_ctxt ctxt (qdma_cmpt_context_clear dev hw_qid t)
   | QDMA_HW_ACCESS_INVALIDATE \<Rightarrow> keep_ctxt ctxt (qdma_cmpt_context_invalidate dev hw_qid t))"

subsection \<open>Hardware and credit contexts\<close>

definition hw_sel :: "u8 \<Rightarrow> ind_ctxt_cmd_sel" where
  "hw_sel c2h = (if c2h \<noteq> 0 then QDMA_CTXT_SEL_HW_C2H else QDMA_CTXT_SEL_HW_H2C)"

definition hw_of_words :: "u32 list \<Rightarrow> qdma_descq_hw_ctxt \<Rightarrow> qdma_descq_hw_ctxt" where
  "hw_of_words ws c = c\<lparr>hw_cidx := ucast (FIELD_GET QDMA_HW_CTXT_W0_CIDX_MASK (ws ! 0)),
      hw_crd_use := ucast (FIELD_GET QDMA_HW_CTXT_W0_CRD_USE_MASK (ws ! 0)),
      hw_dsc_pend := ucast (FIELD_GET QDMA_HW_CTXT_W1_DSC_PND_MASK (ws ! 1)),
      hw_idl_stp_b := ucast (FIELD_GET QDMA_HW_CTXT_W1_IDL_STP_B_MASK (ws ! 1)),
      hw_evt_pnd := ucast (FIELD_GET QDMA_HW_CTXT_W1_EVENT_PEND_MASK (ws ! 1)),
      hw_fetch_pnd := ucast (FIELD_GET QDMA_HW_CTXT_W1_FETCH_PEND_MASK (ws ! 1))\<rparr>"

definition qdma_hw_context_read :: "dev_hndl \<Rightarrow> u8 \<Rightarrow> u16 \<Rightarrow> qdma_descq_hw_ctxt option \<Rightarrow> reg_op list \<Rightarrow>
    int \<times> qdma_descq_hw_ctxt option \<times> reg_op list" where
  "qdma_hw_context_read dev c2h hw_qid ctxt t =
     ctxt_read dev (hw_sel c2h) hw_qid QDMA_HW_CONTEXT_NUM_WORDS hw_of_words ctxt t"

definition qdma_hw_context_clear :: "dev_hndl \<Rightarrow> u8 \<Rightarrow> u16 \<Rightarrow> reg_op list \<Rightarrow> int \<times> reg_op list" where
  "qdma_hw_context_clear dev c2h hw_qid t = ctxt_clear dev (hw_sel c2h) hw_qid t"

definition qdma_hw_context_invalidate :: "dev_hndl \<Rightarrow> u8 \<Rightarrow> u16 \<Rightarrow> reg_op list \<Rightarrow> int \<times> reg_op list" where
  "qdma_hw_context_invalidate dev c2h hw_qid t = ctxt_invalidate dev (hw_sel c2h) hw_qid t"

definition qdma_hw_ctx_conf :: "dev_hndl \<Rightarrow> u8 \<Rightarrow> u16 \<Rightarrow> qdma_descq_hw_ctxt option \<Rightarrow> qdma_hw_access_type \<Rightarrow> reg_op list \<Rightarrow>
    int \<times> qdma_descq_hw_ctxt option \<times> reg_op list" where
  "qdma_hw_ctx_conf dev c2h hw_qid ctxt access_type t =
     (if 1 < c2h then (- QDMA_ERR_INV_PARAM, ctxt, t)
      else case access_type of
        QDMA_HW_ACCESS_READ \<Rightarrow> qdma_hw_context_read dev c2h hw_qid ctxt t
      | QDMA_HW_ACCESS_CLEAR \<Rightarrow> keep_ctxt ctxt (qdma_hw_context_clear dev c2h hw_qid t)
      | QDMA_HW_ACCESS_INVALIDATE \<Rightarrow> keep_ctxt ctxt (qdma_hw_context_invalidate dev c2h hw_qid t)
      | QDMA_HW_ACCESS_WRITE \<Rightarrow> (- QDMA_ERR_INV_PARAM, ctxt, t))"

definition cr_sel :: "u8 \<Rightarrow> ind_ctxt_cmd_sel" where
  "cr_sel c2h = (if c2h \<noteq> 0 then QDMA_CTXT_SEL_CR_C2H else QDMA_CTXT_SEL_CR_H2C)"

definition cr_of_words :: "u32 list \<Rightarrow> qdma_descq_credit_ctxt \<Rightarrow> qdma_descq_credit_ctxt" where
  "cr_of_words ws c = c\<lparr>cr_credit := FIELD_GET QDMA_CR_CTXT_W0_CREDT_MASK (ws ! 0)\<rparr>"

definition qdma_credit_context_read :: "dev_hndl \<Rightarrow> u8 \<Rightarrow> u16 \<Rightarrow> qdma_descq_credit_ctxt option \<Rightarrow> reg_op list \<Rightarrow>
    int \<times> qdma_descq_credit_ctxt option \<times> reg_op list" where
  "qdma_credit_context_read dev c2h hw_qid ctxt t =
     ctxt_read dev (cr_sel c2h) hw_qid QDMA_CR_CONTEXT_NUM_WORDS cr_of_words ctxt t"

definition qdma_credit_context_clear :: "dev_hndl \<Rightarrow> u8 \<Rightarrow> u16 \<Rightarrow> reg_op list \<Rightarrow> int \<times> reg_op list" where
  "qdma_credit_context_clear dev c2h hw_qid t = ctxt_clear dev (cr_sel c2h) hw_qid t"

definition qdma_credit_context_invalidate :: "dev_hndl \<Rightarrow> u8 \<Rightarrow> u16 \<Rightarrow> reg_op list \<Rightarrow> int \<times> reg_op list" where
  "qdma_credit_context_invalidate dev c2h hw_qid t = ctxt_invalidate dev (cr_sel c2h) hw_qid t"

definition qdma_credit_ctx_conf :: "dev_hndl \<Rightarrow> u8 \<Rightarrow> u16 \<Rightarrow> qdma_descq_credit_ctxt option \<Rightarrow> qdma_hw_access_type \<Rightarrow> reg_op list \<Rightarrow>
    int \<times> qdma_descq_credit_ctxt option \<times> reg_op list" where
  "qdma_credit_ctx_conf dev c2h hw_qid ctxt access_type t =
     (if 1 < c2h then (- QDMA_ERR_INV_PARAM, ctxt, t)
      else case access_type of
        QDMA_HW_ACCESS_READ \<Rightarrow> qdma_credit_context_read dev c2h hw_qid ctxt t
      | QDMA_HW_ACCESS_CLEAR \<Rightarrow> keep_ctxt ctxt (qdma_credit_context_clear dev c2h hw_qid t)
      | QDMA_HW_ACCESS_INVALIDATE \<Rightarrow> keep_ctxt ctxt (qdma_credit_context_invalidate dev c2h hw_qid t)
      | QDMA_HW_ACCESS_WRITE \<Rightarrow> (- QDMA_ERR_INV_PARAM, ctxt, t))"

subsection \<open>Interrupt aggregation context\<close>

definition intr_words :: "qdma_indirect_intr_ctxt \<Rightarrow> u32 list" where
  "intr_words c =
     (let baddr_l = ucast (FIELD_GET QDMA_INTR_CTXT_BADDR_GET_L_MASK (ic_baddr_4k c));
          baddr_m = ucast (FIELD_GET QDMA_INTR_CTXT_BADDR_GET_M_MASK (ic_baddr_4k c));
          baddr_h = ucast (FIELD_GET QDMA_INTR_CTXT_BADDR_GET_H_MASK (ic_baddr_4k c)) in
     [FIELD_SET QDMA_INTR_CTXT_W0_VALID_MASK (ucast (ic_valid c)) OR
      FIELD_SET QDMA_INTR_CTXT_W0_VEC_ID_MASK (ucast (ic_vec c)) OR
      FIELD_SET QDMA_INTR_CTXT_W0_INT_ST_MASK (ucast (ic_int_st c)) OR
      FIELD_SET QDMA_INTR_CTXT_W0_COLOR_MASK (ucast (ic_color c)) OR
      FIELD_SET QDMA_INTR_CTXT_W0_BADDR_64_MASK baddr_l,
      FIELD_SET QDMA_INTR_CTXT_W1_BADDR_64_MASK baddr_m,
      FIELD_SET QDMA_INTR_CTXT_W2_BADDR_64_MASK baddr_h OR
      FIELD_SET QDMA_INTR_CTXT_W2_PAGE_SIZE_MASK (ucast (ic_page_size c)) OR
      FIELD_SET QDMA_INTR_CTXT_W2_PIDX_MASK (ucast (ic_pidx c)) OR
      FIELD_SET QDMA_INTR_CTXT_W2_AT_MASK (ucast (ic_at c))])"

definition intr_of_words :: "u32 list \<Rightarrow> qdma_indirect_intr_ctxt \<Rightarrow> qdma_indirect_intr_ctxt" where
  "intr_of_words ws c =
     (let baddr_l = ucast (FIELD_GET QDMA_INTR_CTXT_W0_BADDR_64_MASK (ws ! 0));
          baddr_m = ucast (FIELD_GET QDMA_INTR_CTXT_W1_BADDR_64_MASK (ws ! 1));
          baddr_h = ucast (FIELD_GET QDMA_INTR_CTXT_W2_BADDR_64_MASK (ws ! 2)) in
      c\<lparr>ic_valid := ucast (FIELD_GET QDMA_INTR_CTXT_W0_VALID_MASK (ws ! 0)),
      ic_vec := ucast (FIELD_GET QDMA_INTR_CTXT_W0_VEC_ID_MASK (ws ! 0)),
      ic_int_st := ucast (FIELD_GET QDMA_INTR_CTXT_W0_INT_ST_MASK (ws ! 0)),
      ic_color := ucast (FIELD_GET QDMA_INTR_CTXT_W0_COLOR_MASK (ws ! 0)),
      ic_page_size := ucast (FIELD_GET QDMA_INTR_CTXT_W2_PAGE_SIZE_MASK (ws ! 2)),
      ic_pidx := ucast (FIELD_GET QDMA_INTR_CTXT_W2_PIDX_MASK (ws ! 2)),
      ic_at := ucast (FIELD_GET QDMA_INTR_CTXT_W2_AT_MASK (ws ! 2)),
      ic_baddr_4k := FIELD_SET QDMA_INTR_CTXT_BADDR_GET_L_MASK baddr_l OR
        FIELD_SET QDMA_INTR_CTXT_BADDR_GET_M_MASK baddr_m OR
        FIELD_SET QDMA_INTR_CTXT_BADDR_GET_H_MASK baddr_h\<rparr>)"

definition qdma_indirect_intr_context_write :: "dev_hndl \<Rightarrow> u16 \<Rightarrow> qdma_indirect_intr_ctxt option \<Rightarrow> reg_op list \<Rightarrow> int \<times> reg_op list" where
  "qdma_indirect_intr_context_write dev ring_index ctxt t =
     ctxt_write dev QDMA_CTXT_SEL_INT_COAL ring_index intr_words ctxt t"

definition qdma_indirect_intr_context_read :: "dev_hndl \<Rightarrow> u16 \<Rightarrow> qdma_indirect_intr_ctxt option \<Rightarrow> reg_op list \<Rightarrow>
    int \<times> qdma_indirect_intr_ctxt option \<times> reg_op list" where
  "qdma_indirect_intr_context_read dev ring_index ctxt t =
     ctxt_read dev QDMA_CTXT_SEL_INT_COAL ring_index QDMA_IND_INTR_CONTEXT_NUM_WORDS intr_of_words ctxt t"

definition qdma_indirect_intr_context_clear :: "dev_hndl \<Rightarrow> u16 \<Rightarrow> reg_op list \<Rightarrow> int \<times> reg_op list" where
  "qdma_indirect_intr_context_clear dev ring_index t = ctxt_clear dev QDMA_CTXT_SEL_INT_COAL ring_index t"

definition qdma_indirect_intr_context_invalidate :: "dev_hndl \<Rightarrow> u16 \<Rightarrow> reg_op list \<Rightarrow> int \<times> reg_op list" where
  "qdma_indirect_intr_context_invalidate dev ring_index t = ctxt_invalidate dev QDMA_CTXT_SEL_INT_COAL ring_index t"

definition qdma_indirect_intr_ctx_conf :: "dev_hndl \<Rightarrow> u16 \<Rightarrow> qdma_indirect_intr_ctxt option \<Rightarrow> qdma_hw_access_type \<Rightarrow> reg_op list \<Rightarrow>
    int \<times> qdma_indirect_intr_ctxt option \<times> reg_op list" where
  "qdma_indirect_intr_ctx_conf dev ring_index ctxt access_type t = (case access_type of
     QDMA_HW_ACCESS_READ \<Rightarrow> qdma_indirect_intr_context_read dev ring_index ctxt t
   | QDMA_HW_ACCESS_WRITE \<Rightarrow> keep_ctxt ctxt (qdma_indirect_intr_context_write dev ring_index ctxt t)
   | QDMA_HW_ACCESS_CLEAR \<Rightarrow> keep_ctxt ctxt (qdma_indirect_intr_context_clear dev ring_index t)
   | QDMA_HW_ACCESS_INVALIDATE \<Rightarrow> keep_ctxt ctxt (qdma_indirect_intr_context_invalidate dev ring_index t))"

end
