(* ===== verification/Qdma_Soft_Props.thy ===== *)
theory Qdma_Soft_Props
  imports Qdma_Soft
begin

text \<open>
  What is programmed into a queue context is what is read back from it.  First the packing alone:
  the values of a structure that fit their fields survive packing and unpacking, and the fields the
  hardware does not hold keep the reader's value.  Then through the registers, for every device that
  stores contexts.
\<close>

subsection \<open>Packing\<close>

definition fmap_fits :: "qdma_fmap_cfg \<Rightarrow> bool" where
  "fmap_fits c \<longleftrightarrow> unat (cfg_qbase c) < 2048 \<and> unat (cfg_qmax c) < 4096"

definition sw_fits :: "qdma_descq_sw_ctxt \<Rightarrow> bool" where
  "sw_fits c \<longleftrightarrow>
     unat (sw_irq_arm c) < 2 \<and>
     unat (sw_qen c) < 2 \<and>
     unat (sw_frcd_en c) < 2 \<and>
     unat (sw_wbi_chk c) < 2 \<and>
     unat (sw_wbi_intvl_en c) < 2 \<and>
     unat (sw_at c) < 2 \<and>
     unat (sw_fetch_max c) < 8 \<and>
     unat (sw_rngsz_idx c) < 16 \<and>
     unat (sw_desc_sz c) < 4 \<and>
     unat (sw_bypass c) < 2 \<and>
     unat (sw_mm_chn c) < 2 \<and>
     unat (sw_wbk_en c) < 2 \<and>
     unat (sw_irq_en c) < 2 \<and>
     unat (sw_port_id c) < 8 \<and>
     unat (sw_irq_no_last c) < 2 \<and>
     unat (sw_err c) < 4 \<and>
     unat (sw_err_wb_sent c) < 2 \<and>
     unat (sw_irq_req c) < 2 \<and>
     unat (sw_mrkr_dis c) < 2 \<and>
     unat (sw_is_mm c) < 2 \<and>
     unat (sw_vec c) < 2048 \<and>
     unat (sw_intr_aggr c) < 2"

definition pf_fits :: "qdma_descq_prefetch_ctxt \<Rightarrow> bool" where
  "pf_fits c \<longleftrightarrow>
     unat (pf_bypass c) < 2 \<and>
     unat (pf_bufsz_idx c) < 16 \<and>
     unat (pf_port_id c) < 8 \<and>
     unat (pf_err c) < 2 \<and>
     unat (pf_pfch_en c) < 2 \<and>
     unat (pf_pfch c) < 2 \<and>
     unat (pf_valid c) < 2"

text \<open>A completion ring is aligned to 4096 bytes, as is an interrupt ring.\<close>

definition cmpt_fits :: "qdma_descq_cmpt_ctxt \<Rightarrow> bool" where
  "cmpt_fits c \<longleftrightarrow> take_bit 12 (cm_bs_addr c) = 0 \<and> unat (cm_desc_sz c) < 4 \<and>
     unat (cm_en_stat_desc c) < 2 \<and>
     unat (cm_en_int c) < 2 \<and>
     unat (cm_trig_mode c) < 8 \<and>
     unat (cm_counter_idx c) < 16 \<and>
     unat (cm_timer_idx c) < 16 \<and>
     unat (cm_in_st c) < 4 \<and>
     unat (cm_color c) < 2 \<and>
     unat (cm_ringsz_idx c) < 16 \<and>
     unat (cm_valid c) < 2 \<and>
     unat (cm_err c) < 4 \<and>
     unat (cm_user_trig_pend c) < 2 \<and>
     unat (cm_timer_running c) < 2 \<and>
     unat (cm_full_upd c) < 2 \<and>
     unat (cm_ovf_chk_dis c) < 2 \<and>
     unat (cm_at c) < 2 \<and>
     unat (cm_vec c) < 2048 \<and>
     unat (cm_int_aggr c) < 2"

definition intr_fits :: "qdma_indirect_intr_ctxt \<Rightarrow> bool" where
  "intr_fits c \<longleftrightarrow> take_bit 12 (ic_baddr_4k c) = 0 \<and>
     unat (ic_valid c) < 2 \<and>
     unat (ic_vec c) < 2048 \<and>
     unat (ic_int_st c) < 2 \<and>
     unat (ic_color c) < 2 \<and>
     unat (ic_page_size c) < 8 \<and>
     unat (ic_pidx c) < 4096 \<and>
     unat (ic_at c) < 2"

lemma fmap_packing: "fmap_fits c \<Longrightarrow> fmap_of_words (fmap_words c) d = c"
  by (simp add: fmap_fits_def fmap_of_words_def fmap_words_def mask_simps)

lemma addr_halves: "push_bit 32 (ucast (ucast (drop_bit 32 a AND 0xFFFFFFFF) :: u32)) OR ucast (ucast (a AND 0xFFFFFFFF) :: u32) = (a :: u64)"
proof -
  have "0xFFFFFFFF = (mask 32 :: u64)" by (simp add: mask_eq_exp_minus_1)
  show ?thesis unfolding \<open>0xFFFFFFFF = (mask 32 :: u64)\<close>
    by (intro bit_eqI) (auto simp: bit_or_iff bit_push_bit_iff bit_ucast_iff bit_and_iff bit_drop_bit_eq bit_mask_iff)
qed

lemma sw_packing:
  "sw_fits c \<Longrightarrow> sw_of_words (sw_words c) d = c\<lparr>sw_pasid_en := sw_pasid_en d,
     sw_dis_intr_on_vf := sw_dis_intr_on_vf d, sw_virtio_en := sw_virtio_en d, sw_pack_byp_out := sw_pack_byp_out d,
     sw_irq_byp := sw_irq_byp d, sw_host_id := sw_host_id d, sw_pasid := sw_pasid d,
     sw_virtio_dsc_base := sw_virtio_dsc_base d\<rparr>"
  by (rule qdma_descq_sw_ctxt.equality)
    (simp_all add: sw_fits_def sw_of_words_def sw_words_def mask_simps addr_halves)

lemma join_16:
  "FIELD_SET (GENMASK k 0) (FIELD_GET (GENMASK k 0) r) OR FIELD_SET (GENMASK 15 (k + 1)) (FIELD_GET (GENMASK 15 (k + 1)) r) =
     (r :: u32) AND GENMASK 15 0" if "k < 15" for k
  using that by (simp add: FIELD_SET_GET and_GENMASK_or)

lemma ucast_and_mask: "ucast ((ucast (v :: u16) :: u32) AND GENMASK 15 0) = v"
  by (rule bit_eqI) (auto simp: bit_ucast_iff bit_and_iff bit_GENMASK dest: bit_imp_le_length)

lemma pf_packing:
  "pf_fits c \<Longrightarrow> pf_of_words (pf_words c) d = c\<lparr>pf_var_desc := pf_var_desc d, pf_num_pftch := pf_num_pftch d\<rparr>"
  using join_16[of 2 "ucast (pf_sw_crdt c)"]
  by (intro qdma_descq_prefetch_ctxt.equality)
    (simp_all add: pf_fits_def pf_of_words_def pf_words_def Let_def mask_simps FIELD_GET_le ucast_and_mask)

lemma addr_field [mask_simps]:
  assumes "l \<le> h" "h < 64"
  shows "h - l < k \<Longrightarrow> k \<le> 32 \<Longrightarrow>
      (ucast (take_bit k (ucast (FIELD_GET (GENMASK h l) (a :: u64)) :: u32)) :: u64) = FIELD_GET (GENMASK h l) a"
    and "h - l < 32 \<Longrightarrow> (ucast (ucast (FIELD_GET (GENMASK h l) (a :: u64)) :: u32) :: u64) = FIELD_GET (GENMASK h l) a"
  using assms by (auto intro!: bit_eqI simp: bit_ucast_iff bit_take_bit_iff bit_FIELD_GET)

lemma aligned_4k: "take_bit 12 (a :: u64) = 0 \<Longrightarrow> a AND GENMASK 63 12 = a"
proof (rule bit_word_eqI)
  fix n assume z: "take_bit 12 a = 0" and n: "n < LENGTH(64)"
  have "bit (take_bit 12 a) n = False" using z by simp
  then show "bit (a AND GENMASK 63 12) n = bit a n"
    using n by (auto simp: bit_and_iff bit_GENMASK bit_take_bit_iff)
qed

lemma cmpt_packing:
  "cmpt_fits c \<Longrightarrow> cmpt_of_words (cmpt_words c) d = c\<lparr>cm_dis_intr_on_vf := cm_dis_intr_on_vf d, cm_vio := cm_vio d,
     cm_dir_c2h := cm_dir_c2h d, cm_host_id := cm_host_id d, cm_pasid := cm_pasid d, cm_pasid_en := cm_pasid_en d,
     cm_vio_eop := cm_vio_eop d, cm_sh_cmpt := cm_sh_cmpt d\<rparr>"
  using join_16[of 3 "ucast (cm_pidx c)"] aligned_4k[of "cm_bs_addr c"]
  by (intro qdma_descq_cmpt_ctxt.equality)
    (simp_all add: cmpt_fits_def cmpt_of_words_def cmpt_words_def Let_def mask_simps FIELD_GET_le FIELD_SET_GET ucast_and_mask)

lemma intr_packing:
  "intr_fits c \<Longrightarrow> intr_of_words (intr_words c) d = c\<lparr>ic_host_id := ic_host_id d, ic_pasid := ic_pasid d,
     ic_pasid_en := ic_pasid_en d, ic_func_id := ic_func_id d\<rparr>"
  using aligned_4k[of "ic_baddr_4k c"]
  by (intro qdma_indirect_intr_ctxt.equality)
    (simp_all add: intr_fits_def intr_of_words_def intr_words_def Let_def mask_simps FIELD_GET_le FIELD_SET_GET or.assoc[symmetric])

subsection \<open>Through the registers\<close>

lemma indirect_read_result: "qdma_indirect_reg_read env sel q n t = (rv, ws, t') \<Longrightarrow> rv = 0 \<or> rv = - QDMA_ERR_HWACC_BUSY_TIMEOUT"
  using poll_cmd_reads[of env "qdma_reg_write QDMA_OFFSET_IND_CTXT_CMD (ind_ctxt_cmd QDMA_CTXT_CMD_RD sel q) t"]
  by (auto simp: qdma_indirect_reg_read_def split: prod.splits if_splits)

lemma ctxt_write_read:
  assumes dev: "ctxt_device env" and n: "length (words c) = n" "n \<le> QDMA_IND_CTXT_DATA_NUM_REGS"
    and wr: "qdma_indirect_reg_write env sel q (words c) t = (0, t1)" and ops: "list_all (leaves_ctxt sel q) ops"
    and rd: "ctxt_read (Some env) sel q n of_words (Some d) (t1 @ ops) = (0, r, t2)"
  shows "r = Some (of_words (words c) d)"
proof -
  obtain rv ws t3 where q: "qdma_indirect_reg_read env sel q n (t1 @ ops) = (rv, ws, t3)" by (rule prod_cases3)
  then have "rv = 0" "r = Some (of_words ws d)"
    using rd indirect_read_result[OF q] by (auto simp: ctxt_read_def split: if_splits)
  moreover from this have "ws = words c"
    using indirect_write_read[OF dev wr _ _ n(1)[symmetric] n(2), of ops ws t3] ops q by (simp add: list_all_iff)
  ultimately show ?thesis by simp
qed

text \<open>
  What a context is to the functions that move it: a packing into words and a reading of the words
  into a structure, which gives the values back if they fit.  The members that have no bits in the
  words are the reader's.
\<close>

locale ctxt_codec =
  fixes words :: "'c \<Rightarrow> u32 list" and of_words :: "u32 list \<Rightarrow> 'c \<Rightarrow> 'c" and n :: nat
    and fits :: "'c \<Rightarrow> bool" and merge :: "'c \<Rightarrow> 'c \<Rightarrow> 'c"
  assumes words_length: "length (words c) = n" and words_max: "n \<le> QDMA_IND_CTXT_DATA_NUM_REGS"
    and packing: "fits c \<Longrightarrow> of_words (words c) d = merge c d"
begin

lemma held:
  assumes "ctxt_device env" and "list_all (leaves_ctxt sel q) ops"
    and "qdma_indirect_reg_write env sel q (words c) t = (0, t1)"
    and "ctxt_read (Some env) sel q n of_words (Some d) (t1 @ ops) = (0, r, t2)"
  shows "r = Some (of_words (words c) d)"
  using ctxt_write_read[where words = words and c = c, OF assms(1) words_length words_max assms(3,2,4)] .

lemma survives:
  assumes "ctxt_device env" and "fits c" and "list_all (leaves_ctxt sel q) ops"
    and "qdma_indirect_reg_write env sel q (words c) t = (0, t1)"
    and "ctxt_read (Some env) sel q n of_words (Some d) (t1 @ ops) = (0, r, t2)"
  shows "r = Some (merge c d)"
  using held[OF assms(1,3-5)] packing[OF assms(2)] by simp

end

interpretation fmap_codec: ctxt_codec fmap_words fmap_of_words 2 fmap_fits "\<lambda>c d. c"
  by unfold_locales (simp_all add: fmap_packing, simp add: fmap_words_def)

interpretation sw_codec: ctxt_codec sw_words sw_of_words 5 sw_fits
  "\<lambda>c d. c\<lparr>sw_pasid_en := sw_pasid_en d, sw_dis_intr_on_vf := sw_dis_intr_on_vf d, sw_virtio_en := sw_virtio_en d,
     sw_pack_byp_out := sw_pack_byp_out d, sw_irq_byp := sw_irq_byp d, sw_host_id := sw_host_id d,
     sw_pasid := sw_pasid d, sw_virtio_dsc_base := sw_virtio_dsc_base d\<rparr>"
  by unfold_locales (simp_all add: sw_packing, simp add: sw_words_def)

interpretation pf_codec: ctxt_codec pf_words pf_of_words 2 pf_fits
  "\<lambda>c d. c\<lparr>pf_var_desc := pf_var_desc d, pf_num_pftch := pf_num_pftch d\<rparr>"
  by unfold_locales (simp_all add: pf_packing, simp add: pf_words_def Let_def)

interpretation cmpt_codec: ctxt_codec cmpt_words cmpt_of_words 5 cmpt_fits
  "\<lambda>c d. c\<lparr>cm_dis_intr_on_vf := cm_dis_intr_on_vf d, cm_vio := cm_vio d, cm_dir_c2h := cm_dir_c2h d,
     cm_host_id := cm_host_id d, cm_pasid := cm_pasid d, cm_pasid_en := cm_pasid_en d,
     cm_vio_eop := cm_vio_eop d, cm_sh_cmpt := cm_sh_cmpt d\<rparr>"
  by unfold_locales (simp_all add: cmpt_packing, simp add: cmpt_words_def Let_def)

interpretation intr_codec: ctxt_codec intr_words intr_of_words 3 intr_fits
  "\<lambda>c d. c\<lparr>ic_host_id := ic_host_id d, ic_pasid := ic_pasid d, ic_pasid_en := ic_pasid_en d, ic_func_id := ic_func_id d\<rparr>"
  by unfold_locales (simp_all add: intr_packing, simp add: intr_words_def Let_def)

lemma indirect_write_result: "qdma_indirect_reg_write env sel q ws t = (rv, t1) \<Longrightarrow> rv = 0 \<or> rv = - QDMA_ERR_HWACC_BUSY_TIMEOUT"
  using poll_cmd_reads[of env "write_regs QDMA_OFFSET_IND_CTXT_DATA (ind_ctxt_regs sel q ws) t"]
  by (auto simp: qdma_indirect_reg_write_def split: if_splits)

text \<open>
  What happens after a command was given: the command register is polled, and the result says how
  that ended.
\<close>

definition polled :: "reg_env \<Rightarrow> reg_op list \<Rightarrow> int \<times> reg_op list \<Rightarrow> bool" where
  "polled env before res \<longleftrightarrow> (\<exists>k. 0 < k \<and> k \<le> poll_limit \<and> snd res = before @ polls k \<and>
     (if fst res = 0 then completed env before k
      else fst res = - QDMA_ERR_HWACC_BUSY_TIMEOUT \<and> (\<forall>j \<in> {1..poll_limit}. \<not> completed env before j)))"

lemma poll_cmd_polled: "polled env u (poll_cmd env u)"
  unfolding polled_def by (rule poll_cmd_reads)

lemma ind_ctxt_regs_padded:
  "ind_ctxt_regs sel q data = take 8 (data @ replicate 8 0) @ replicate 8 0xFFFFFFFF @ [ind_ctxt_cmd QDMA_CTXT_CMD_WR sel q]"
  unfolding ind_ctxt_regs_def by (auto simp: list_eq_iff_nth_eq nth_append)

subsection \<open>Properties\<close>

text \<open>
  C38: the loop that finds the shift of a field by halving returns the position of the lowest set bit
  of every mask but zero, as a search from bit 0 upwards does.
\<close>

theorem get_trailing_zeros_lowest_bit:
  assumes "x \<noteq> 0"
  shows "find (bit x) [0..<64] = Some (get_trailing_zeros x)"
proof -
  obtain k where "bit x k" using assms by (auto simp: bit_eq_iff)
  then have l: "low_bit x (LEAST n. bit x n)" unfolding low_bit_def by (metis LeastI not_less_Least)
  then have t: "get_trailing_zeros x = (LEAST n. bit x n)" by (rule trailing_zeros_low)
  have "get_trailing_zeros x < 64" using l bit_imp_le_length[of x "LEAST n. bit x n"] by (simp add: t low_bit_def)
  then show ?thesis
    using l unfolding t low_bit_def by (subst find_Some_iff) (auto intro!: exI[of _ "LEAST n. bit x n"])
qed

theorem get_trailing_zeros_lowest_bit_witness: "find (bit (0x7FF0 :: u64)) [0..<64] = Some 4"
proof -
  have "get_trailing_zeros 0x7FF0 = 4" by code_simp
  then show ?thesis using get_trailing_zeros_lowest_bit[of "0x7FF0"] by simp
qed

text \<open>
  C24: the protocol of an indirect context access, for every device.  A write puts the data words,
  padded with zeros to eight, eight mask words of ones and then the command into adjacent registers, a clear or an
  invalidation only the command; then the command register is read at least once and at most 50001
  times.  The result is success if the last read finds the device idle, and the timeout error only
  if all 50001 reads find it busy.
\<close>

theorem qdma_indirect_access_bounded:
  "polled env (t @ reg_writes QDMA_OFFSET_IND_CTXT_DATA (take 8 (data @ replicate 8 0) @ replicate 8 0xFFFFFFFF @
     [ind_ctxt_cmd QDMA_CTXT_CMD_WR sel q])) (qdma_indirect_reg_write env sel q data t) \<and>
   polled env (t @ [Reg_Write QDMA_OFFSET_IND_CTXT_CMD (ind_ctxt_cmd QDMA_CTXT_CMD_CLR sel q)]) (qdma_indirect_reg_clear env sel q t) \<and>
   polled env (t @ [Reg_Write QDMA_OFFSET_IND_CTXT_CMD (ind_ctxt_cmd QDMA_CTXT_CMD_INV sel q)]) (qdma_indirect_reg_invalidate env sel q t)"
  unfolding qdma_indirect_reg_write_def qdma_indirect_reg_clear_def qdma_indirect_reg_invalidate_def
    write_regs_writes qdma_reg_write_def ind_ctxt_regs_padded
  by (intro conjI poll_cmd_polled)

lemma ref_polls: "completed ref_device t 1"
  by (simp add: completed_def ref_device_def)

text \<open>
  C25: the software context of a queue survives the hardware.  On a device that stores contexts, when
  the write of a context whose values fit their fields succeeds, and then, after any accesses that
  leave that context alone, the read succeeds, what is read is what was written; the members this IP
  does not have keep the reader's values.
\<close>

theorem qdma_sw_ctx_roundtrip:
  assumes "ctxt_device env" and "sw_fits c" and "list_all (leaves_ctxt (sw_sel c2h) q) ops"
    and "qdma_sw_ctx_conf (Some env) c2h q (Some c) QDMA_HW_ACCESS_WRITE t = (0, w, t1)"
    and "qdma_sw_ctx_conf (Some env) c2h q (Some d) QDMA_HW_ACCESS_READ (t1 @ ops) = (0, r, t2)"
  shows "r = Some (c\<lparr>sw_pasid_en := sw_pasid_en d, sw_dis_intr_on_vf := sw_dis_intr_on_vf d,
     sw_virtio_en := sw_virtio_en d, sw_pack_byp_out := sw_pack_byp_out d, sw_irq_byp := sw_irq_byp d,
     sw_host_id := sw_host_id d, sw_pasid := sw_pasid d, sw_virtio_dsc_base := sw_virtio_dsc_base d\<rparr>)"
proof -
  have "qdma_indirect_reg_write env (sw_sel c2h) q (sw_words c) t = (0, t1)"
    using assms(4) by (auto simp: qdma_sw_ctx_conf_def qdma_sw_context_write_def ctxt_write_def keep_ctxt_def prod_eq_iff split: if_splits)
  moreover have "ctxt_read (Some env) (sw_sel c2h) q 5 sw_of_words (Some d) (t1 @ ops) = (0, r, t2)"
    using assms(5) by (auto simp: qdma_sw_ctx_conf_def qdma_sw_context_read_def split: if_splits)
  ultimately show ?thesis by (rule sw_codec.survives[OF assms(1-3)])
qed

definition demo_sw :: qdma_descq_sw_ctxt where
  "demo_sw = zero_sw_ctxt\<lparr>sw_ring_bs_addr := 0x123456789000, sw_qen := 1, sw_rngsz_idx := 9, sw_is_mm := 1, sw_vec := 77\<rparr>"

text \<open>The reference device is idle at once, so that a poll reads once.\<close>

lemma ref_poll: "poll_cmd ref_device t = (0, t @ polls 1)"
  by (rule poll_idle) (rule ref_never_busy)

lemma ref_write: "qdma_indirect_reg_write ref_device sel q ws t =
    (0, t @ reg_writes QDMA_OFFSET_IND_CTXT_DATA (ind_ctxt_regs sel q ws) @ polls 1)"
  by (simp add: qdma_indirect_reg_write_def ref_poll write_regs_writes)

lemma ref_read_ok: "\<exists>r t2. ctxt_read (Some ref_device) sel q n of_words (Some d) t = (0, r, t2)"
  by (auto simp: ctxt_read_def qdma_indirect_reg_read_def ref_poll split: prod.splits)

theorem qdma_sw_ctx_roundtrip_witness:
  "\<exists>t1 t2. qdma_sw_ctx_conf (Some ref_device) 1 9 (Some demo_sw) QDMA_HW_ACCESS_WRITE [] = (0, Some demo_sw, t1) \<and>
     qdma_sw_ctx_conf (Some ref_device) 1 9 (Some zero_sw_ctxt) QDMA_HW_ACCESS_READ (t1 @ [Reg_Read 0x804]) = (0, Some demo_sw, t2)"
proof -
  have f: "sw_fits demo_sw" by code_simp
  have o: "list_all (leaves_ctxt (sw_sel 1) 9) [Reg_Read 0x804]" by simp
  obtain t1 where w: "qdma_sw_ctx_conf (Some ref_device) 1 9 (Some demo_sw) QDMA_HW_ACCESS_WRITE [] = (0, Some demo_sw, t1)"
    by (simp add: qdma_sw_ctx_conf_def qdma_sw_context_write_def ctxt_write_def keep_ctxt_def ref_write)
  obtain r t2 where r: "qdma_sw_ctx_conf (Some ref_device) 1 9 (Some zero_sw_ctxt) QDMA_HW_ACCESS_READ (t1 @ [Reg_Read 0x804]) = (0, r, t2)"
    using ref_read_ok[of "sw_sel 1" 9 5 sw_of_words zero_sw_ctxt "t1 @ [Reg_Read 0x804]"]
    by (auto simp: qdma_sw_ctx_conf_def qdma_sw_context_read_def)
  have "r = Some demo_sw"
    using qdma_sw_ctx_roundtrip[OF ref_device_ok f o w r] by (simp add: demo_sw_def zero_sw_ctxt_def)
  then show ?thesis using w r by blast
qed

text \<open>
  The completion context survives the hardware in the same sense, with its 64-bit base address
  and its 16-bit index each split over two words; the address has to be a multiple of 4096, and a
  trigger mode above the last one is refused before any register is written.
\<close>

theorem qdma_cmpt_ctx_roundtrip:
  assumes "ctxt_device env" and "cmpt_fits c" and "list_all (leaves_ctxt QDMA_CTXT_SEL_CMPT q) ops"
    and "qdma_cmpt_ctx_conf (Some env) q (Some c) QDMA_HW_ACCESS_WRITE t = (rv, w, t1)"
    and "qdma_cmpt_ctx_conf (Some env) q (Some d) QDMA_HW_ACCESS_READ (t1 @ ops) = (0, r, t2)"
  shows "if QDMA_CMPT_UPDATE_TRIG_MODE_TMR_CNTR < cm_trig_mode c then rv = - QDMA_ERR_INV_PARAM \<and> t1 = t
    else rv = 0 \<and> r = Some (c\<lparr>cm_dis_intr_on_vf := cm_dis_intr_on_vf d, cm_vio := cm_vio d,
       cm_dir_c2h := cm_dir_c2h d, cm_host_id := cm_host_id d, cm_pasid := cm_pasid d, cm_pasid_en := cm_pasid_en d,
       cm_vio_eop := cm_vio_eop d, cm_sh_cmpt := cm_sh_cmpt d\<rparr>) \<or> rv = - QDMA_ERR_HWACC_BUSY_TIMEOUT"
proof (cases "QDMA_CMPT_UPDATE_TRIG_MODE_TMR_CNTR < cm_trig_mode c")
  case True
  then show ?thesis
    using assms(4) by (auto simp: qdma_cmpt_ctx_conf_def qdma_cmpt_context_write_def keep_ctxt_def)
next
  case False
  then have w: "qdma_indirect_reg_write env QDMA_CTXT_SEL_CMPT q (cmpt_words c) t = (rv, t1)"
    using assms(4) by (auto simp: qdma_cmpt_ctx_conf_def qdma_cmpt_context_write_def keep_ctxt_def prod_eq_iff)
  have r: "ctxt_read (Some env) QDMA_CTXT_SEL_CMPT q 5 cmpt_of_words (Some d) (t1 @ ops) = (0, r, t2)"
    using assms(5) by (simp add: qdma_cmpt_ctx_conf_def qdma_cmpt_context_read_def)
  have "r = Some (c\<lparr>cm_dis_intr_on_vf := cm_dis_intr_on_vf d, cm_vio := cm_vio d,
       cm_dir_c2h := cm_dir_c2h d, cm_host_id := cm_host_id d, cm_pasid := cm_pasid d, cm_pasid_en := cm_pasid_en d,
       cm_vio_eop := cm_vio_eop d, cm_sh_cmpt := cm_sh_cmpt d\<rparr>)" if "rv = 0"
    using cmpt_codec.survives[OF assms(1-3) _ r] w that by simp
  then show ?thesis using False indirect_write_result[OF w] by auto
qed

definition demo_cmpt :: qdma_descq_cmpt_ctxt where
  "demo_cmpt = zero_cm_ctxt\<lparr>cm_bs_addr := 0xFEDCBA9876543000, cm_pidx := 0xABCD, cm_trig_mode := 5, cm_valid := 1, cm_desc_sz := 3\<rparr>"

theorem qdma_cmpt_ctx_roundtrip_witness:
  "\<exists>t1 t2. qdma_cmpt_ctx_conf (Some ref_device) 9 (Some demo_cmpt) QDMA_HW_ACCESS_WRITE [] = (0, Some demo_cmpt, t1) \<and>
     qdma_cmpt_ctx_conf (Some ref_device) 9 (Some zero_cm_ctxt) QDMA_HW_ACCESS_READ t1 = (0, Some demo_cmpt, t2)"
proof -
  have f: "cmpt_fits demo_cmpt" by code_simp
  have m: "cm_trig_mode demo_cmpt = 5" by (simp add: demo_cmpt_def)
  obtain t1 where w: "qdma_cmpt_ctx_conf (Some ref_device) 9 (Some demo_cmpt) QDMA_HW_ACCESS_WRITE [] = (0, Some demo_cmpt, t1)"
    by (simp add: qdma_cmpt_ctx_conf_def qdma_cmpt_context_write_def keep_ctxt_def ref_write m)
  obtain r t2 where r: "qdma_cmpt_ctx_conf (Some ref_device) 9 (Some zero_cm_ctxt) QDMA_HW_ACCESS_READ (t1 @ []) = (0, r, t2)"
    using ref_read_ok[of QDMA_CTXT_SEL_CMPT 9 5 cmpt_of_words zero_cm_ctxt "t1 @ []"]
    by (auto simp: qdma_cmpt_ctx_conf_def qdma_cmpt_context_read_def)
  have "r = Some demo_cmpt"
    using qdma_cmpt_ctx_roundtrip[OF ref_device_ok f _ w r] by (simp add: m) (simp add: demo_cmpt_def zero_cm_ctxt_def)
  then show ?thesis using w r by auto
qed

end
