(* ===== verification/Qdma_Csr.thy ===== *)
theory Qdma_Csr
  imports Qdma_Soft
begin

text \<open>
  The global registers of the QDMA soft IP (\<open>qdma_soft_access.c\<close>, \<open>qdma_access_common.c\<close>): device
  attributes, the four groups of sixteen configuration registers with their defaults, the writeback
  interval, the doorbells of the queues, the user BAR, the memory-mapped channels, the legacy
  interrupt and the initialisation of the context memory.  The caller's arrays are lists; reading
  or writing outside of one is a fault, as is a dereferenced null pointer.
\<close>

abbreviation (input) QDMA_ERR_HWACC_NO_PEND_LEGCY_INTR :: int where "QDMA_ERR_HWACC_NO_PEND_LEGCY_INTR \<equiv> 5"
abbreviation (input) QDMA_ERR_HWACC_BAR_NOT_FOUND :: int where "QDMA_ERR_HWACC_BAR_NOT_FOUND \<equiv> 6"
abbreviation (input) QDMA_OFFSET_GLBL_RNG_SZ :: u32 where "QDMA_OFFSET_GLBL_RNG_SZ \<equiv> 0x204"
abbreviation (input) QDMA_OFFSET_GLBL_DSC_CFG :: u32 where "QDMA_OFFSET_GLBL_DSC_CFG \<equiv> 0x250"
abbreviation (input) QDMA_OFFSET_GLBL_INTERRUPT_CFG :: u32 where "QDMA_OFFSET_GLBL_INTERRUPT_CFG \<equiv> 0x2C4"
abbreviation (input) QDMA_OFFSET_C2H_TIMER_CNT :: u32 where "QDMA_OFFSET_C2H_TIMER_CNT \<equiv> 0xA00"
abbreviation (input) QDMA_OFFSET_C2H_CNT_TH :: u32 where "QDMA_OFFSET_C2H_CNT_TH \<equiv> 0xA40"
abbreviation (input) QDMA_OFFSET_C2H_BUF_SZ :: u32 where "QDMA_OFFSET_C2H_BUF_SZ \<equiv> 0xAB0"
abbreviation (input) QDMA_OFFSET_C2H_PFETCH_CFG :: u32 where "QDMA_OFFSET_C2H_PFETCH_CFG \<equiv> 0xB08"
abbreviation (input) QDMA_OFFSET_C2H_INT_TIMER_TICK :: u32 where "QDMA_OFFSET_C2H_INT_TIMER_TICK \<equiv> 0xB0C"
abbreviation (input) QDMA_OFFSET_C2H_WRB_COAL_CFG :: u32 where "QDMA_OFFSET_C2H_WRB_COAL_CFG \<equiv> 0xB50"
abbreviation (input) QDMA_OFFSET_C2H_PFETCH_CACHE_DEPTH :: u32 where "QDMA_OFFSET_C2H_PFETCH_CACHE_DEPTH \<equiv> 0xBE0"
abbreviation (input) QDMA_OFFSET_C2H_CMPT_COAL_BUF_DEPTH :: u32 where "QDMA_OFFSET_C2H_CMPT_COAL_BUF_DEPTH \<equiv> 0xBE4"
abbreviation (input) QDMA_OFFSET_H2C_REQ_THROT :: u32 where "QDMA_OFFSET_H2C_REQ_THROT \<equiv> 0xE24"
abbreviation (input) QDMA_OFFSET_C2H_MM_CONTROL :: u32 where "QDMA_OFFSET_C2H_MM_CONTROL \<equiv> 0x1004"
abbreviation (input) QDMA_OFFSET_H2C_MM_CONTROL :: u32 where "QDMA_OFFSET_H2C_MM_CONTROL \<equiv> 0x1204"
abbreviation (input) QDMA_OFFSET_GLBL2_PF_BARLITE_INT :: u32 where "QDMA_OFFSET_GLBL2_PF_BARLITE_INT \<equiv> 0x104"
abbreviation (input) QDMA_OFFSET_GLBL2_PF_BARLITE_EXT :: u32 where "QDMA_OFFSET_GLBL2_PF_BARLITE_EXT \<equiv> 0x10C"
abbreviation (input) QDMA_OFFSET_GLBL2_CHANNEL_MDMA :: u32 where "QDMA_OFFSET_GLBL2_CHANNEL_MDMA \<equiv> 0x118"
abbreviation (input) QDMA_OFFSET_GLBL2_CHANNEL_QDMA_CAP :: u32 where "QDMA_OFFSET_GLBL2_CHANNEL_QDMA_CAP \<equiv> 0x120"
abbreviation (input) QDMA_OFFSET_GLBL2_MISC_CAP :: u32 where "QDMA_OFFSET_GLBL2_MISC_CAP \<equiv> 0x134"
abbreviation (input) QDMA_OFFSET_VF_USER_BAR_ID :: u32 where "QDMA_OFFSET_VF_USER_BAR_ID \<equiv> 0x1018"
abbreviation (input) QDMA_OFFSET_DMAP_SEL_INT_CIDX :: u32 where "QDMA_OFFSET_DMAP_SEL_INT_CIDX \<equiv> 0x18000"
abbreviation (input) QDMA_OFFSET_DMAP_SEL_H2C_DSC_PIDX :: u32 where "QDMA_OFFSET_DMAP_SEL_H2C_DSC_PIDX \<equiv> 0x18004"
abbreviation (input) QDMA_OFFSET_DMAP_SEL_C2H_DSC_PIDX :: u32 where "QDMA_OFFSET_DMAP_SEL_C2H_DSC_PIDX \<equiv> 0x18008"
abbreviation (input) QDMA_OFFSET_DMAP_SEL_CMPT_CIDX :: u32 where "QDMA_OFFSET_DMAP_SEL_CMPT_CIDX \<equiv> 0x1800C"
abbreviation (input) QDMA_OFFSET_VF_DMAP_SEL_INT_CIDX :: u32 where "QDMA_OFFSET_VF_DMAP_SEL_INT_CIDX \<equiv> 0x3000"
abbreviation (input) QDMA_OFFSET_VF_DMAP_SEL_H2C_DSC_PIDX :: u32 where "QDMA_OFFSET_VF_DMAP_SEL_H2C_DSC_PIDX \<equiv> 0x3004"
abbreviation (input) QDMA_OFFSET_VF_DMAP_SEL_C2H_DSC_PIDX :: u32 where "QDMA_OFFSET_VF_DMAP_SEL_C2H_DSC_PIDX \<equiv> 0x3008"
abbreviation (input) QDMA_OFFSET_VF_DMAP_SEL_CMPT_CIDX :: u32 where "QDMA_OFFSET_VF_DMAP_SEL_CMPT_CIDX \<equiv> 0x300C"
abbreviation (input) QDMA_GLBL_DSC_CFG_WB_ACC_INT_MASK :: u32 where "QDMA_GLBL_DSC_CFG_WB_ACC_INT_MASK \<equiv> GENMASK 2 0"
abbreviation (input) QDMA_GLBL_DSC_CFG_MAX_DSC_FETCH_MASK :: u32 where "QDMA_GLBL_DSC_CFG_MAX_DSC_FETCH_MASK \<equiv> GENMASK 5 3"
abbreviation (input) QDMA_GLBL_INTR_CFG_EN_LGCY_INTR_MASK :: u32 where "QDMA_GLBL_INTR_CFG_EN_LGCY_INTR_MASK \<equiv> BIT 0"
abbreviation (input) QDMA_GLBL_INTR_LGCY_INTR_PEND_MASK :: u32 where "QDMA_GLBL_INTR_LGCY_INTR_PEND_MASK \<equiv> BIT 1"

subsection \<open>Device attributes\<close>

definition read_dev_attributes :: "reg_env \<Rightarrow> reg_op list \<Rightarrow> qdma_dev_attributes \<times> reg_op list" where
  "read_dev_attributes env t =
     (let (bars, t) = qdma_reg_read env QDMA_OFFSET_GLBL2_PF_BARLITE_INT t;
          (qs, t) = qdma_reg_read env QDMA_OFFSET_GLBL2_CHANNEL_QDMA_CAP t;
          (misc, t) = qdma_reg_read env QDMA_OFFSET_GLBL2_MISC_CAP t;
          (mdma, t) = qdma_reg_read env QDMA_OFFSET_GLBL2_CHANNEL_MDMA t;
          count = (\<lambda>m. if FIELD_GET m bars \<noteq> 0 then 1 else 0)
      in (\<lparr>at_num_pfs = count (GENMASK 5 0) + count (GENMASK 11 6) + count (GENMASK 17 12) + count (GENMASK 23 18),
           at_num_qs = ucast (FIELD_GET (GENMASK 11 0) qs),
           at_flr_present = (FIELD_GET (BIT 1) misc \<noteq> 0),
           at_st_en = (FIELD_GET (BIT 17) mdma \<noteq> 0 \<and> FIELD_GET (BIT 16) mdma \<noteq> 0),
           at_mm_en = (FIELD_GET (BIT 8) mdma \<noteq> 0 \<and> FIELD_GET (BIT 0) mdma \<noteq> 0),
           at_mm_cmpt_en = (FIELD_GET (BIT 2) misc \<noteq> 0),
           at_mailbox_en = (FIELD_GET (BIT 0) misc \<noteq> 0),
           at_debug_mode = False, at_desc_eng_mode = 0, at_mm_channel_max = 1, at_qid2vec_ctx = False,
           at_cmpt_ovf_chk_dis = True, at_mailbox_intr = True, at_sw_desc_64b = True, at_cmpt_desc_64b = True,
           at_dynamic_bar = True, at_legacy_intr = True, at_cmpt_trig_count_timer = True\<rparr>, t))"

definition qdma_get_device_attributes :: "dev_hndl \<Rightarrow> qdma_dev_attributes option \<Rightarrow> reg_op list \<Rightarrow>
    int \<times> qdma_dev_attributes option \<times> reg_op list" where
  "qdma_get_device_attributes dev dev_info t = (case (dev, dev_info) of
     (Some env, Some _) \<Rightarrow> (let (a, t) = read_dev_attributes env t in (QDMA_SUCCESS, Some a, t))
   | _ \<Rightarrow> (- QDMA_ERR_INV_PARAM, dev_info, t))"

subsection \<open>Groups of configuration registers\<close>

definition qdma_write_csr_values :: "u32 \<Rightarrow> nat \<Rightarrow> nat \<Rightarrow> u32 list \<Rightarrow> reg_op list \<Rightarrow> reg_op list res" where
  "qdma_write_csr_values reg_offst idx cnt values t =
     foldM (\<lambda>index t. rbind (rd values (index - idx))
       (\<lambda>v. Inr (qdma_reg_write (reg_offst + of_nat index * 4) v t))) [idx..<idx + cnt] t"

definition qdma_read_csr_values :: "reg_env \<Rightarrow> u32 \<Rightarrow> nat \<Rightarrow> nat \<Rightarrow> u32 list \<Rightarrow> reg_op list \<Rightarrow> (u32 list \<times> reg_op list) res" where
  "qdma_read_csr_values env reg_offst idx cnt values t =
     foldM (\<lambda>index (values, t).
       let (v, t) = qdma_reg_read env ((reg_offst + of_nat idx * 4) + of_nat index * 4) t
       in rbind (wr values index v) (\<lambda>values. Inr (values, t))) [0..<cnt] (values, t)"

text \<open>
  The eight functions on the register groups make the same tests: pointers and count, the sixteen
  registers of a group, and for all but the ring sizes whether the device has the feature.
\<close>

definition csr_checked :: "(qdma_dev_attributes \<Rightarrow> bool) option \<Rightarrow> dev_hndl \<Rightarrow> u8 \<Rightarrow> u8 \<Rightarrow> u32 list option \<Rightarrow>
    (reg_env \<Rightarrow> nat \<Rightarrow> nat \<Rightarrow> u32 list \<Rightarrow> reg_op list \<Rightarrow> (u32 list \<times> reg_op list) res) \<Rightarrow> reg_op list \<Rightarrow>
    (int \<times> u32 list option \<times> reg_op list) res" where
  "csr_checked feature dev index count vals act t = (case (dev, vals) of
     (Some env, Some vs) \<Rightarrow>
       if count = 0 then Inr (- QDMA_ERR_INV_PARAM, vals, t)
       else if unat index + unat count > 16 then Inr (- QDMA_ERR_INV_PARAM, vals, t)
       else let go = (\<lambda>t. rbind (act env (unat index) (unat count) vs t) (\<lambda>(vs, t). Inr (QDMA_SUCCESS, Some vs, t)))
            in (case feature of None \<Rightarrow> go t
                | Some f \<Rightarrow> let (dev_cap, t) = read_dev_attributes env t in
                    if f dev_cap then go t else Inr (- QDMA_ERR_HWACC_FEATURE_NOT_SUPPORTED, vals, t))
   | _ \<Rightarrow> Inr (- QDMA_ERR_INV_PARAM, vals, t))"

definition csr_put :: "u32 \<Rightarrow> reg_env \<Rightarrow> nat \<Rightarrow> nat \<Rightarrow> u32 list \<Rightarrow> reg_op list \<Rightarrow> (u32 list \<times> reg_op list) res" where
  "csr_put off env idx cnt vs t = rbind (qdma_write_csr_values off idx cnt vs t) (\<lambda>t. Inr (vs, t))"

definition csr_get :: "u32 \<Rightarrow> reg_env \<Rightarrow> nat \<Rightarrow> nat \<Rightarrow> u32 list \<Rightarrow> reg_op list \<Rightarrow> (u32 list \<times> reg_op list) res" where
  "csr_get off env idx cnt vs t = qdma_read_csr_values env off idx cnt vs t"

definition st_or_cmpt :: "qdma_dev_attributes \<Rightarrow> bool" where
  "st_or_cmpt a \<longleftrightarrow> at_st_en a \<or> at_mm_cmpt_en a"

type_synonym csr_op = "dev_hndl \<Rightarrow> u8 \<Rightarrow> u8 \<Rightarrow> u32 list option \<Rightarrow> reg_op list \<Rightarrow> (int \<times> u32 list option \<times> reg_op list) res"

definition qdma_write_global_ring_sizes :: csr_op where
  "qdma_write_global_ring_sizes dev index count vals t =
     csr_checked None dev index count vals (csr_put QDMA_OFFSET_GLBL_RNG_SZ) t"

definition qdma_read_global_ring_sizes :: csr_op where
  "qdma_read_global_ring_sizes dev index count vals t =
     csr_checked None dev index count vals (csr_get QDMA_OFFSET_GLBL_RNG_SZ) t"

definition qdma_write_global_timer_count :: csr_op where
  "qdma_write_global_timer_count dev index count vals t =
     csr_checked (Some st_or_cmpt) dev index count vals (csr_put QDMA_OFFSET_C2H_TIMER_CNT) t"

definition qdma_read_global_timer_count :: csr_op where
  "qdma_read_global_timer_count dev index count vals t =
     csr_checked (Some st_or_cmpt) dev index count vals (csr_get QDMA_OFFSET_C2H_TIMER_CNT) t"

definition qdma_write_global_counter_threshold :: csr_op where
  "qdma_write_global_counter_threshold dev index count vals t =
     csr_checked (Some st_or_cmpt) dev index count vals (csr_put QDMA_OFFSET_C2H_CNT_TH) t"

definition qdma_read_global_counter_threshold :: csr_op where
  "qdma_read_global_counter_threshold dev index count vals t =
     csr_checked (Some st_or_cmpt) dev index count vals (csr_get QDMA_OFFSET_C2H_CNT_TH) t"

definition qdma_write_global_buffer_sizes :: csr_op where
  "qdma_write_global_buffer_sizes dev index count vals t =
     csr_checked (Some at_st_en) dev index count vals (csr_put QDMA_OFFSET_C2H_BUF_SZ) t"

definition qdma_read_global_buffer_sizes :: csr_op where
  "qdma_read_global_buffer_sizes dev index count vals t =
     csr_checked (Some at_st_en) dev index count vals (csr_get QDMA_OFFSET_C2H_BUF_SZ) t"

definition qdma_global_csr_conf :: "dev_hndl \<Rightarrow> u8 \<Rightarrow> u8 \<Rightarrow> u32 list option \<Rightarrow> qdma_global_csr_type \<Rightarrow>
    qdma_hw_access_type \<Rightarrow> reg_op list \<Rightarrow> (int \<times> u32 list option \<times> reg_op list) res" where
  "qdma_global_csr_conf dev index count csr_val csr_type access_type t = (case csr_type of
     QDMA_CSR_RING_SZ \<Rightarrow> (case access_type of
       QDMA_HW_ACCESS_READ \<Rightarrow> qdma_read_global_ring_sizes dev index count csr_val t
     | QDMA_HW_ACCESS_WRITE \<Rightarrow> qdma_write_global_ring_sizes dev index count csr_val t
     | _ \<Rightarrow> Inr (- QDMA_ERR_INV_PARAM, csr_val, t))
   | QDMA_CSR_TIMER_CNT \<Rightarrow> (case access_type of
       QDMA_HW_ACCESS_READ \<Rightarrow> qdma_read_global_timer_count dev index count csr_val t
     | QDMA_HW_ACCESS_WRITE \<Rightarrow> qdma_write_global_timer_count dev index count csr_val t
     | _ \<Rightarrow> Inr (- QDMA_ERR_INV_PARAM, csr_val, t))
   | QDMA_CSR_CNT_TH \<Rightarrow> (case access_type of
       QDMA_HW_ACCESS_READ \<Rightarrow> qdma_read_global_counter_threshold dev index count csr_val t
     | QDMA_HW_ACCESS_WRITE \<Rightarrow> qdma_write_global_counter_threshold dev index count csr_val t
     | _ \<Rightarrow> Inr (- QDMA_ERR_INV_PARAM, csr_val, t))
   | QDMA_CSR_BUF_SZ \<Rightarrow> (case access_type of
       QDMA_HW_ACCESS_READ \<Rightarrow> qdma_read_global_buffer_sizes dev index count csr_val t
     | QDMA_HW_ACCESS_WRITE \<Rightarrow> qdma_write_global_buffer_sizes dev index count csr_val t
     | _ \<Rightarrow> Inr (- QDMA_ERR_INV_PARAM, csr_val, t)))"

definition default_rng_sz :: "u32 list" where
  "default_rng_sz = [2049, 65, 129, 193, 257, 385, 513, 769, 1025, 1537, 3073, 4097, 6145, 8193, 12289, 16385]"

definition default_tmr_cnt :: "u32 list" where
  "default_tmr_cnt = [1, 2, 4, 5, 8, 10, 15, 20, 25, 30, 50, 75, 100, 125, 150, 200]"

definition default_cnt_th :: "u32 list" where
  "default_cnt_th = [2, 4, 8, 16, 24, 32, 48, 64, 80, 96, 112, 128, 144, 160, 176, 192]"

definition default_buf_sz :: "u32 list" where
  "default_buf_sz = [4096, 256, 512, 1024, 2048, 3968, 4096, 4096, 4096, 4096, 4096, 4096, 4096, 8192, 9018, 16384]"

text \<open>The prefetch, coalescing and throttling registers of a streaming device.\<close>

definition default_st_regs :: "reg_env \<Rightarrow> reg_op list \<Rightarrow> reg_op list" where
  "default_st_regs env t =
     (let (cfg_val, t) = qdma_reg_read env QDMA_OFFSET_C2H_PFETCH_CACHE_DEPTH t;
          t = qdma_reg_write QDMA_OFFSET_C2H_PFETCH_CFG
            (FIELD_SET (GENMASK 8 0) 256 OR FIELD_SET (GENMASK 17 9) 8 OR
             FIELD_SET (GENMASK 24 18) (drop_bit 1 cfg_val) OR FIELD_SET (GENMASK 31 25) (drop_bit 1 cfg_val - 2)) t;
          t = qdma_reg_write QDMA_OFFSET_C2H_INT_TIMER_TICK 25 t;
          (cfg_val, t) = qdma_reg_read env QDMA_OFFSET_C2H_CMPT_COAL_BUF_DEPTH t;
          t = qdma_reg_write QDMA_OFFSET_C2H_WRB_COAL_CFG
            (FIELD_SET (GENMASK 13 2) 5 OR FIELD_SET (GENMASK 25 14) 25 OR FIELD_SET (GENMASK 31 26) cfg_val) t
      in qdma_reg_write QDMA_OFFSET_H2C_REQ_THROT
           (FIELD_SET (GENMASK 15 0) 0x4000 OR FIELD_SET (BIT 16) 1 OR FIELD_SET (GENMASK 25 17) 0x60 OR
            FIELD_SET (BIT 31) 0) t)"

definition qdma_set_default_global_csr :: "dev_hndl \<Rightarrow> reg_op list \<Rightarrow> (int \<times> reg_op list) res" where
  "qdma_set_default_global_csr dev t = (case dev of
     None \<Rightarrow> Inr (- QDMA_ERR_INV_PARAM, t)
   | Some env \<Rightarrow>
       let (dev_cap, t) = read_dev_attributes env t in
       rbind (qdma_write_csr_values QDMA_OFFSET_GLBL_RNG_SZ 0 16 default_rng_sz t) (\<lambda>t.
       rbind (if at_st_en dev_cap \<or> at_mm_cmpt_en dev_cap
              then rbind (qdma_write_csr_values QDMA_OFFSET_C2H_CNT_TH 0 16 default_cnt_th t) (\<lambda>t.
                   rbind (qdma_write_csr_values QDMA_OFFSET_C2H_TIMER_CNT 0 16 default_tmr_cnt t) (\<lambda>t.
                   Inr (qdma_reg_write QDMA_OFFSET_GLBL_DSC_CFG
                     (FIELD_SET QDMA_GLBL_DSC_CFG_MAX_DSC_FETCH_MASK 6 OR FIELD_SET QDMA_GLBL_DSC_CFG_WB_ACC_INT_MASK 5) t)))
              else Inr t) (\<lambda>t.
       if at_st_en dev_cap
       then rbind (qdma_write_csr_values QDMA_OFFSET_C2H_BUF_SZ 0 16 default_buf_sz t)
              (\<lambda>t. Inr (QDMA_SUCCESS, default_st_regs env t))
       else Inr (QDMA_SUCCESS, t))))"

subsection \<open>Writeback interval\<close>

text \<open>An interval is its number; there are eight of them.\<close>

abbreviation (input) QDMA_NUM_WRB_INTERVALS :: u32 where "QDMA_NUM_WRB_INTERVALS \<equiv> 8"

definition qdma_global_writeback_interval_write :: "dev_hndl \<Rightarrow> u32 \<Rightarrow> reg_op list \<Rightarrow> int \<times> reg_op list" where
  "qdma_global_writeback_interval_write dev wb_int t = (case dev of
     None \<Rightarrow> (- QDMA_ERR_INV_PARAM, t)
   | Some env \<Rightarrow>
       if QDMA_NUM_WRB_INTERVALS \<le> wb_int then (- QDMA_ERR_INV_PARAM, t)
       else let (dev_cap, t) = read_dev_attributes env t in
         if at_st_en dev_cap \<or> at_mm_cmpt_en dev_cap
         then let (reg_val, t) = qdma_reg_read env QDMA_OFFSET_GLBL_DSC_CFG t
              in (QDMA_SUCCESS, qdma_reg_write QDMA_OFFSET_GLBL_DSC_CFG
                    (reg_val OR FIELD_SET QDMA_GLBL_DSC_CFG_WB_ACC_INT_MASK wb_int) t)
         else (- QDMA_ERR_HWACC_FEATURE_NOT_SUPPORTED, t))"

definition qdma_global_writeback_interval_read :: "dev_hndl \<Rightarrow> u32 option \<Rightarrow> reg_op list \<Rightarrow> int \<times> u32 option \<times> reg_op list" where
  "qdma_global_writeback_interval_read dev wb_int t = (case (dev, wb_int) of
     (Some env, Some _) \<Rightarrow>
       let (dev_cap, t) = read_dev_attributes env t in
       if at_st_en dev_cap \<or> at_mm_cmpt_en dev_cap
       then let (reg_val, t) = qdma_reg_read env QDMA_OFFSET_GLBL_DSC_CFG t
            in (QDMA_SUCCESS, Some (FIELD_GET QDMA_GLBL_DSC_CFG_WB_ACC_INT_MASK reg_val), t)
       else (- QDMA_ERR_HWACC_FEATURE_NOT_SUPPORTED, wb_int, t)
   | _ \<Rightarrow> (- QDMA_ERR_INV_PARAM, wb_int, t))"

definition qdma_global_writeback_interval_conf :: "dev_hndl \<Rightarrow> u32 option \<Rightarrow> qdma_hw_access_type \<Rightarrow> reg_op list \<Rightarrow>
    (int \<times> u32 option \<times> reg_op list) res" where
  "qdma_global_writeback_interval_conf dev wb_int access_type t = (case access_type of
     QDMA_HW_ACCESS_READ \<Rightarrow> Inr (qdma_global_writeback_interval_read dev wb_int t)
   | QDMA_HW_ACCESS_WRITE \<Rightarrow> (case wb_int of
       None \<Rightarrow> Inl NullDeref
     | Some w \<Rightarrow> Inr (keep_ctxt wb_int (qdma_global_writeback_interval_write dev w t)))
   | _ \<Rightarrow> Inr (- QDMA_ERR_INV_PARAM, wb_int, t))"

end
