(* ===== verification/Qdma_Ctrl.thy ===== *)
theory Qdma_Ctrl
  imports Qdma_Csr
begin

text \<open>
  The remaining operations of \<open>qdma_soft_access.c\<close>: the doorbells by which a queue's producer and
  consumer indices are moved, the user BAR, the memory-mapped channels, the legacy interrupt, and
  the clearing of the context memory when the device is opened.
\<close>

subsection \<open>Doorbells\<close>

record qdma_q_pidx_reg_info =
  pr_pidx :: u16
  pr_irq_en :: u8

record qdma_intr_cidx_reg_info =
  ir_sw_cidx :: u16
  ir_rng_idx :: u8

record qdma_q_cmpt_cidx_reg_info =
  cr_wrb_cidx :: u16
  cr_counter_idx :: u8
  cr_timer_idx :: u8
  cr_trig_mode :: u8
  cr_wrb_en :: u8
  cr_irq_en :: u8

definition pidx_reg :: "bool \<Rightarrow> bool \<Rightarrow> u16 \<Rightarrow> u32" where
  "pidx_reg is_vf is_c2h qid =
     (if \<not> is_vf then (if is_c2h then QDMA_OFFSET_DMAP_SEL_C2H_DSC_PIDX else QDMA_OFFSET_DMAP_SEL_H2C_DSC_PIDX)
      else (if is_c2h then QDMA_OFFSET_VF_DMAP_SEL_C2H_DSC_PIDX else QDMA_OFFSET_VF_DMAP_SEL_H2C_DSC_PIDX)) + ucast qid * 16"

definition qdma_queue_pidx_update :: "dev_hndl \<Rightarrow> bool \<Rightarrow> u16 \<Rightarrow> bool \<Rightarrow> qdma_q_pidx_reg_info option \<Rightarrow> reg_op list \<Rightarrow>
    int \<times> reg_op list" where
  "qdma_queue_pidx_update dev is_vf qid is_c2h reg_info t = (case (dev, reg_info) of
     (Some env, Some i) \<Rightarrow>
       (QDMA_SUCCESS, qdma_reg_write (pidx_reg is_vf is_c2h qid)
          (FIELD_SET (GENMASK 15 0) (ucast (pr_pidx i)) OR FIELD_SET (BIT 16) (ucast (pr_irq_en i))) t)
   | _ \<Rightarrow> (- QDMA_ERR_INV_PARAM, t))"

definition cmpt_cidx_reg :: "bool \<Rightarrow> u16 \<Rightarrow> u32" where
  "cmpt_cidx_reg is_vf qid =
     (if is_vf then QDMA_OFFSET_VF_DMAP_SEL_CMPT_CIDX else QDMA_OFFSET_DMAP_SEL_CMPT_CIDX) + ucast qid * 16"

definition qdma_queue_cmpt_cidx_update :: "dev_hndl \<Rightarrow> bool \<Rightarrow> u16 \<Rightarrow> qdma_q_cmpt_cidx_reg_info option \<Rightarrow> reg_op list \<Rightarrow>
    int \<times> reg_op list" where
  "qdma_queue_cmpt_cidx_update dev is_vf qid reg_info t = (case (dev, reg_info) of
     (Some env, Some i) \<Rightarrow>
       (QDMA_SUCCESS, qdma_reg_write (cmpt_cidx_reg is_vf qid)
          (FIELD_SET (GENMASK 15 0) (ucast (cr_wrb_cidx i)) OR FIELD_SET (GENMASK 19 16) (ucast (cr_counter_idx i)) OR
           FIELD_SET (GENMASK 23 20) (ucast (cr_timer_idx i)) OR FIELD_SET (GENMASK 26 24) (ucast (cr_trig_mode i)) OR
           FIELD_SET (BIT 27) (ucast (cr_wrb_en i)) OR FIELD_SET (BIT 28) (ucast (cr_irq_en i))) t)
   | _ \<Rightarrow> (- QDMA_ERR_INV_PARAM, t))"

definition intr_cidx_reg :: "bool \<Rightarrow> u16 \<Rightarrow> u32" where
  "intr_cidx_reg is_vf qid =
     (if is_vf then QDMA_OFFSET_VF_DMAP_SEL_INT_CIDX else QDMA_OFFSET_DMAP_SEL_INT_CIDX) + ucast qid * 16"

definition qdma_queue_intr_cidx_update :: "dev_hndl \<Rightarrow> bool \<Rightarrow> u16 \<Rightarrow> qdma_intr_cidx_reg_info option \<Rightarrow> reg_op list \<Rightarrow>
    int \<times> reg_op list" where
  "qdma_queue_intr_cidx_update dev is_vf qid reg_info t = (case (dev, reg_info) of
     (Some env, Some i) \<Rightarrow>
       (QDMA_SUCCESS, qdma_reg_write (intr_cidx_reg is_vf qid)
          (FIELD_SET (GENMASK 15 0) (ucast (ir_sw_cidx i)) OR FIELD_SET (GENMASK 23 16) (ucast (ir_rng_idx i))) t)
   | _ \<Rightarrow> (- QDMA_ERR_INV_PARAM, t))"

subsection \<open>User BAR and channels\<close>

abbreviation (input) QDMA_BAR_NUM :: nat where "QDMA_BAR_NUM \<equiv> 6"

text \<open>
  The BAR of a physical function is found by a shift of six bits per function; a shift by 32 or more
  is undefined.
\<close>

definition qdma_get_user_bar :: "dev_hndl \<Rightarrow> bool \<Rightarrow> u16 \<Rightarrow> u8 option \<Rightarrow> reg_op list \<Rightarrow> (int \<times> u8 option \<times> reg_op list) res" where
  "qdma_get_user_bar dev is_vf func user_bar t = (case (dev, user_bar) of
     (Some env, Some _) \<Rightarrow>
       let (user_bar_id, t) = qdma_reg_read env (if is_vf then QDMA_OFFSET_VF_USER_BAR_ID else QDMA_OFFSET_GLBL2_PF_BARLITE_EXT) t in
       if \<not> is_vf \<and> 32 \<le> 6 * unat func then Inl ShiftRange
       else let bar = (if \<not> is_vf then drop_bit (6 * unat func) user_bar_id AND 0x3F else user_bar_id AND 0x3F)
            in (case find (\<lambda>bar_idx. bit bar bar_idx) [0..<QDMA_BAR_NUM] of
                  Some bar_idx \<Rightarrow> Inr (QDMA_SUCCESS, Some (of_nat bar_idx), t)
                | None \<Rightarrow> Inr (- QDMA_ERR_HWACC_BAR_NOT_FOUND, Some 0, t))
   | _ \<Rightarrow> Inr (- QDMA_ERR_INV_PARAM, user_bar, t))"

definition qdma_mm_channel_conf :: "dev_hndl \<Rightarrow> u8 \<Rightarrow> bool \<Rightarrow> u8 \<Rightarrow> reg_op list \<Rightarrow> int \<times> reg_op list" where
  "qdma_mm_channel_conf dev channel is_c2h enable t = (case dev of
     None \<Rightarrow> (- QDMA_ERR_INV_PARAM, t)
   | Some env \<Rightarrow>
       let reg_addr = (if is_c2h then QDMA_OFFSET_C2H_MM_CONTROL else QDMA_OFFSET_H2C_MM_CONTROL);
           (dev_cap, t) = read_dev_attributes env t
       in (QDMA_SUCCESS, if at_mm_en dev_cap then qdma_reg_write (reg_addr + ucast channel * 0x100) (ucast enable) t else t))"

subsection \<open>Legacy interrupt\<close>

definition qdma_is_legacy_intr_pend :: "dev_hndl \<Rightarrow> reg_op list \<Rightarrow> int \<times> reg_op list" where
  "qdma_is_legacy_intr_pend dev t = (case dev of
     None \<Rightarrow> (- QDMA_ERR_INV_PARAM, t)
   | Some env \<Rightarrow> let (reg_val, t) = qdma_reg_read env QDMA_OFFSET_GLBL_INTERRUPT_CFG t
       in (if FIELD_GET QDMA_GLBL_INTR_LGCY_INTR_PEND_MASK reg_val \<noteq> 0 then QDMA_SUCCESS
           else - QDMA_ERR_HWACC_NO_PEND_LEGCY_INTR, t))"

definition qdma_clear_pend_legacy_intr :: "dev_hndl \<Rightarrow> reg_op list \<Rightarrow> int \<times> reg_op list" where
  "qdma_clear_pend_legacy_intr dev t = (case dev of
     None \<Rightarrow> (- QDMA_ERR_INV_PARAM, t)
   | Some env \<Rightarrow> let (reg_val, t) = qdma_reg_read env QDMA_OFFSET_GLBL_INTERRUPT_CFG t
       in (QDMA_SUCCESS, qdma_reg_write QDMA_OFFSET_GLBL_INTERRUPT_CFG
             (reg_val OR FIELD_SET QDMA_GLBL_INTR_LGCY_INTR_PEND_MASK 1) t))"

datatype status_type = DISABLE | ENABLE

primrec status_val :: "status_type \<Rightarrow> u32" where
  "status_val DISABLE = 0"
| "status_val ENABLE = 1"

definition qdma_legacy_intr_conf :: "dev_hndl \<Rightarrow> status_type \<Rightarrow> reg_op list \<Rightarrow> int \<times> reg_op list" where
  "qdma_legacy_intr_conf dev enable t = (case dev of
     None \<Rightarrow> (- QDMA_ERR_INV_PARAM, t)
   | Some env \<Rightarrow> let (reg_val, t) = qdma_reg_read env QDMA_OFFSET_GLBL_INTERRUPT_CFG t
       in (QDMA_SUCCESS, qdma_reg_write QDMA_OFFSET_GLBL_INTERRUPT_CFG
             (reg_val OR FIELD_SET QDMA_GLBL_INTR_CFG_EN_LGCY_INTR_MASK (status_val enable)) t))"

subsection \<open>Context memory\<close>

text \<open>
  The inner loop runs over the kinds of context from the software context of a C2H queue to the
  prefetch context, without the last two for a device that cannot stream; the first command that
  times out ends both loops.
\<close>

definition init_sels :: "qdma_dev_attributes \<Rightarrow> ind_ctxt_cmd_sel list" where
  "init_sels a = filter (\<lambda>sel. \<not> (\<not> at_st_en a \<and> (sel = QDMA_CTXT_SEL_PFTCH \<or> sel = QDMA_CTXT_SEL_CMPT)))
     [QDMA_CTXT_SEL_SW_C2H, QDMA_CTXT_SEL_SW_H2C, QDMA_CTXT_SEL_HW_C2H, QDMA_CTXT_SEL_HW_H2C,
      QDMA_CTXT_SEL_CR_C2H, QDMA_CTXT_SEL_CR_H2C, QDMA_CTXT_SEL_CMPT, QDMA_CTXT_SEL_PFTCH]"

fun clear_ctxts :: "reg_env \<Rightarrow> (ind_ctxt_cmd_sel \<times> u16) list \<Rightarrow> reg_op list \<Rightarrow> int \<times> reg_op list" where
  "clear_ctxts env [] t = (QDMA_SUCCESS, t)"
| "clear_ctxts env ((sel, i) # cs) t =
     (let (rv, t) = qdma_indirect_reg_clear env sel i t in if rv < 0 then (rv, t) else clear_ctxts env cs t)"

definition init_ctxts :: "qdma_dev_attributes \<Rightarrow> (ind_ctxt_cmd_sel \<times> u16) list" where
  "init_ctxts a = concat (map (\<lambda>i. map (\<lambda>sel. (sel, of_nat i)) (init_sels a)) [0..<unat (at_num_qs a)])"

definition qdma_init_ctxt_memory :: "dev_hndl \<Rightarrow> reg_op list \<Rightarrow> int \<times> reg_op list" where
  "qdma_init_ctxt_memory dev t = (case dev of
     None \<Rightarrow> (- QDMA_ERR_INV_PARAM, t)
   | Some env \<Rightarrow>
       let (dev_info, t) = read_dev_attributes env t;
           (rv, t) = clear_ctxts env (init_ctxts dev_info) t in
       if rv < 0 then (rv, t)
       else (QDMA_SUCCESS,
         fold (\<lambda>i t. snd (qdma_indirect_reg_clear env QDMA_CTXT_SEL_FMAP (of_nat i) t)) [0..<unat (at_num_pfs dev_info)] t))"

end
