(* ===== verification/Qdma_Free.thy ===== *)
theory Qdma_Free
  imports Qdma_Resource
begin

text \<open>
  The free list of the queue resource manager: a request is served by cutting one range out of the
  list and moves queues between the list and a function without duplicating any; after a function
  has returned queues, the list is merged, so that a run of free queues is one entry.
\<close>

subsection \<open>Serving a request\<close>

text \<open>A request whose end is computed without wrap-around.\<close>

definition req_ok :: "u32 \<Rightarrow> s32 \<Rightarrow> bool" where
  "req_ok qmax base \<longleftrightarrow> (0 \<le> sint base \<longrightarrow> sint base + uint qmax < 4294967296)"

lemma find_requested_holds:
  assumes "find_requested qmax base free = Some i" "0 \<le> sint base" "req_ok qmax base"
    and free: "\<forall>n \<in> set free. in_range B E n"
  shows "i < length free" "lo (free ! i) \<le> sint base" "sint base + uint qmax \<le> hi (free ! i)"
proof -
  have f: "i < length free" "sint (qbase (free ! i)) \<le> sint base"
    "base + qmax \<le> qbase (free ! i) + total_q (free ! i)"
    using find_pos_Some[OF assms(1)[unfolded find_requested_def]] by auto
  show "i < length free" "lo (free ! i) \<le> sint base" using f by (simp_all add: lo_def)
  have "uint (base + qmax) = sint base + uint qmax"
    using assms(2,3) by (subst uint_add_no_wrap) (simp_all add: req_ok_def uint_nonneg_s32)
  moreover have "uint (base + qmax) \<le> uint (qbase (free ! i) + total_q (free ! i))"
    using f(3) by (simp add: word_le_def)
  moreover have "in_range B E (free ! i)" using f(1) free by simp
  ultimately show "sint base + uint qmax \<le> hi (free ! i)" using in_range_word(2) by metis
qed

lemma best_fit_holds:
  assumes "best_fit qmax 0 None free = Some (i, n)"
  shows "i < length free" "free ! i = n" "lo n \<le> sint (qbase n)" "sint (qbase n) + uint qmax \<le> hi n"
  using best_fit_from[OF assms] by (auto simp: lo_def hi_def word_le_def)

lemma get_resource_node_ok:
  assumes "req_ok qmax base" and free: "\<forall>n \<in> set free. in_range B E n"
  obtains (refused) "qdma_get_resource_node qmax base free mem = (None, free, mem)"
      "0 \<le> sint base \<longrightarrow> find_requested qmax base free = None" "\<forall>n \<in> set free. \<not> qmax \<le> total_q n"
  | (cut) b where "cut_ok B E qmax b free mem (qdma_get_resource_node qmax base free mem)"
      "0 \<le> sint base \<Longrightarrow> find_requested qmax base free \<noteq> None \<Longrightarrow> b = base"
proof (cases "if 0 \<le> sint base then find_requested qmax base free else None")
  case (Some i)
  then have b: "0 \<le> sint base" "find_requested qmax base free = Some i" by (simp_all split: if_splits)
  note h = find_requested_holds[OF b(2,1) assms]
  have "qdma_get_resource_node qmax base free mem = fragment_free_list qmax base i free mem"
    using b by (simp add: qdma_get_resource_node_def)
  then show ?thesis using cut[of base] fragment_ok[OF h(1) free h(2,3)] by simp
next
  case None
  show ?thesis
  proof (cases "best_fit qmax 0 None free")
    case None': None
    then show ?thesis using refused None None'[unfolded best_fit_None]
      by (simp add: qdma_get_resource_node_def split: if_splits)
  next
    case (Some p)
    obtain i n where p: "best_fit qmax 0 None free = Some (i, n)" using Some by (cases p) simp
    note h = best_fit_holds[OF p]
    have "qdma_get_resource_node qmax base free mem = fragment_free_list qmax (qbase n) i free mem"
      using None p by (simp add: qdma_get_resource_node_def)
    then show ?thesis
      using cut[of "qbase n"] fragment_ok[OF h(1) free, of "qbase n" qmax] h(2-4) None
      by (simp split: if_splits)
  qed
qed

lemma cover_take_drop:
  "i < length es \<Longrightarrow> cover (take i es @ drop (Suc i) es) q + holds (es ! i) q = cover es q"
  by (subst (4) id_take_nth_drop[of i es]) simp_all

lemma in_range_take_drop:
  "\<forall>n \<in> set es. in_range B E n \<Longrightarrow> \<forall>n \<in> set (take i es @ drop (Suc i) es). in_range B E n"
  by (auto dest: in_set_takeD in_set_dropD)

text \<open>Taking the node that was cut moves its queues from the free list to the function.\<close>

lemma take_node_ok:
  assumes "cut_ok B E qmax b free mem (Some k, free', mem')"
  shows "cover (take k free' @ drop (Suc k) free') q + holds (free' ! k) q = cover free q"
    "\<forall>n \<in> set (take k free' @ drop (Suc k) free'). in_range B E n" "in_range B E (free' ! k)"
    "free' ! k = \<lparr>qbase = b, total_q = qmax\<rparr>" "mem = [] \<Longrightarrow> mem' = []"
proof -
  have c: "\<forall>q. cover free' q = cover free q" "\<forall>n \<in> set free'. in_range B E n" "k < length free'"
    "free' ! k = \<lparr>qbase = b, total_q = qmax\<rparr>" "mem = [] \<longrightarrow> mem' = []"
    using assms by (simp_all add: cut_ok_def)
  show "cover (take k free' @ drop (Suc k) free') q + holds (free' ! k) q = cover free q"
    using cover_take_drop[OF c(3), of q] c(1) by simp
  show "\<forall>n \<in> set (take k free' @ drop (Suc k) free'). in_range B E n" by (rule in_range_take_drop[OF c(2)])
  show "in_range B E (free' ! k)" using c(2,3) by simp
  show "free' ! k = \<lparr>qbase = b, total_q = qmax\<rparr>" "mem = [] \<Longrightarrow> mem' = []" using c(4,5) by simp_all
qed

text \<open>What a request makes of a function's range and the free list.\<close>

definition moved :: "int \<Rightarrow> int \<Rightarrow> qdma_resource_entry \<Rightarrow> qdma_resource_entry list \<Rightarrow> bool list \<Rightarrow>
    qdma_resource_entry \<Rightarrow> qdma_resource_entry list \<Rightarrow> bool list \<Rightarrow> bool" where
  "moved B E e free mem e' free' mem' \<longleftrightarrow>
     (\<forall>q. cover free' q + holds e' q \<le> cover free q + holds e q) \<and>
     (\<forall>n \<in> set free'. in_range B E n) \<and> (total_q e' \<noteq> 0 \<longrightarrow> in_range B E e') \<and>
     (mem = [] \<longrightarrow> mem' = [] \<and> (\<forall>q. cover free' q + holds e' q = cover free q + holds e q))"

lemma req_ok_own: "total_q e \<noteq> 0 \<longrightarrow> in_range B E e \<Longrightarrow> req_ok (total_q e) (qbase e)"
  using in_range_word(4)[of B E e] sint_lt[of "qbase e"]
  by (cases "total_q e = 0") (auto simp: req_ok_def hi_def lo_def)

lemma no_queues_simps [simp]: "total_q no_queues = 0" "qbase no_queues = - 1" "holds no_queues q = 0"
  by (simp_all add: no_queues_def)

text \<open>One search of the free list, and the removal of the node it returns.\<close>

lemma node_moved:
  assumes "req_ok qmax base" and free: "\<forall>n \<in> set free. in_range B E n"
  shows "case qdma_get_resource_node qmax base free mem of
      (Some i, free', mem') \<Rightarrow> moved B E no_queues free mem (free' ! i) (take i free' @ drop (Suc i) free') mem' \<and>
        total_q (free' ! i) = qmax
    | (None, free', mem') \<Rightarrow> (\<forall>q. cover free' q = cover free q) \<and> (\<forall>n \<in> set free'. in_range B E n) \<and>
        (mem = [] \<longrightarrow> mem' = [] \<and> free' = free)"
  using assms(1) free
proof (cases rule: get_resource_node_ok[where mem = mem])
  case refused
  then show ?thesis using free by simp
next
  case (cut b)
  obtain r free' mem' where g: "qdma_get_resource_node qmax base free mem = (r, free', mem')"
    by (cases "qdma_get_resource_node qmax base free mem")
  show ?thesis
  proof (cases r)
    case None
    then show ?thesis using cut(1) g by (auto simp: cut_ok_def)
  next
    case (Some k)
    have c: "cut_ok B E qmax b free mem (Some k, free', mem')" using cut(1) g Some by simp
    show ?thesis using g Some take_node_ok[OF c] by (auto simp: moved_def simp del: cover_simps(3))
  qed
qed

lemma submit_moved:
  assumes "qdma_submit_to_free_list e free mem = (e', free', mem')"
    and "\<forall>n \<in> set free. in_range B E n" "total_q e \<noteq> 0 \<longrightarrow> in_range B E e"
  shows "moved B E e free mem e' free' mem'" "mem = [] \<longrightarrow> total_q e' = 0"
proof -
  note s = submit_ok[OF assms]
  have "in_range B E e'" if "total_q e' \<noteq> 0" using s(3)[OF that] that assms(3) by simp
  then show "moved B E e free mem e' free' mem'" using s(1,2,4) by (simp add: moved_def del: holds_empty)
  show "mem = [] \<longrightarrow> total_q e' = 0" using s(4) by simp
qed

text \<open>Two moves in a row, the second one discarding what the function held in between.\<close>

lemma moved_trans:
  assumes "moved B E e free mem e1 free1 mem1" "mem = [] \<longrightarrow> total_q e1 = 0"
    and "moved B E no_queues free1 mem1 e2 free2 mem2"
  shows "moved B E e free mem e2 free2 mem2"
proof -
  have a: "cover free1 q + holds e1 q \<le> cover free q + holds e q" "cover free2 q + holds e2 q \<le> cover free1 q" for q
    using assms(1,3) by (auto simp: moved_def)
  have b: "cover free1 q = cover free q + holds e q" "cover free2 q + holds e2 q = cover free1 q" "mem2 = []"
    if "mem = []" for q
    using assms that by (auto simp: moved_def)
  have "cover free2 q + holds e2 q \<le> cover free q + holds e q" for q
    using a(1)[of q] a(2)[of q] by linarith
  then show ?thesis using assms(3) b by (simp add: moved_def)
qed

lemma moved_same_cover:
  assumes "moved B E e free1 mem1 e' free' mem'" "\<forall>q. cover free1 q = cover free q" "mem = [] \<longrightarrow> mem1 = []"
  shows "moved B E e free mem e' free' mem'"
  using assms by (simp add: moved_def)

lemma request_moved:
  assumes r: "qdma_request_q_resource e qmax base free mem = (rv, e', free', mem')"
    and free: "\<forall>n \<in> set free. in_range B E n" "total_q e \<noteq> 0 \<longrightarrow> in_range B E e" and q: "req_ok qmax base"
  shows "moved B E e free mem e' free' mem'"
proof -
  obtain e1 free1 mem1 where s: "qdma_submit_to_free_list e free mem = (e1, free1, mem1)"
    by (cases "qdma_submit_to_free_list e free mem")
  note m1 = submit_moved[OF s free]
  have f1: "\<forall>n \<in> set free1. in_range B E n" using m1(1) by (simp add: moved_def)
  obtain r2 free2 mem2 where g: "qdma_get_resource_node qmax base free1 mem1 = (r2, free2, mem2)"
    by (cases "qdma_get_resource_node qmax base free1 mem1")
  note n2 = node_moved[OF q f1, of mem1, unfolded g prod.case]
  show ?thesis
  proof (cases "qmax = 0")
    case True
    then show ?thesis using r s m1 by (simp add: qdma_request_q_resource_def)
  next
    case False
    show ?thesis
    proof (cases r2)
      case (Some i)
      then show ?thesis using r s g False n2 moved_trans[OF m1] by (simp add: qdma_request_q_resource_def)
    next
      case None
      have f2: "\<forall>n \<in> set free2. in_range B E n" "\<forall>q. cover free2 q = cover free1 q" "mem1 = [] \<longrightarrow> mem2 = []"
        using n2 None by simp_all
      obtain r3 free3 mem3 where h: "qdma_get_resource_node (total_q e) (qbase e) free2 mem2 = (r3, free3, mem3)"
        by (cases "qdma_get_resource_node (total_q e) (qbase e) free2 mem2")
      note n3 = node_moved[OF req_ok_own[OF free(2)] f2(1), of mem2, unfolded h prod.case]
      have "moved B E no_queues free2 mem2 e' free' mem'"
        using n3 r s g h None False
        by (cases r3) (auto simp: qdma_request_q_resource_def moved_def)
      then show ?thesis by (intro moved_trans[OF m1] moved_same_cover[OF _ f2(2,3)])
    qed
  qed
qed

subsection \<open>Merged free lists\<close>

text \<open>A free list in which no entry is empty and no two are adjacent.\<close>

definition gap :: "qdma_resource_entry \<Rightarrow> qdma_resource_entry \<Rightarrow> bool" where
  "gap a b \<longleftrightarrow> hi a < lo b"

definition sep :: "qdma_resource_entry list \<Rightarrow> bool" where
  "sep free \<longleftrightarrow> sorted_wrt gap free \<and> (\<forall>n \<in> set free. total_q n \<noteq> 0)"

lemma total_pos: "total_q n \<noteq> 0 \<longleftrightarrow> lo n < hi n"
  using uint_ge_0[of "total_q n"] by (auto simp: hi_def le_less simp flip: uint_0_iff)

text \<open>A run of free queues lies in one entry of a merged list.\<close>

lemma run_in_one_entry:
  assumes "sep free" and run: "\<And>q. a \<le> q \<Longrightarrow> q < b \<Longrightarrow> 0 < cover free q" and ab: "a < b"
  shows "\<exists>n \<in> set free. lo n \<le> a \<and> b \<le> hi n"
proof -
  have ex: "\<exists>n \<in> set free. lo n \<le> q \<and> q < hi n" if "a \<le> q" "q < b" for q
  proof -
    have "cover free q \<noteq> 0" using run[OF that] by simp
    then show ?thesis unfolding cover_def by (induction free) (auto simp: holds_def split: if_splits)
  qed
  obtain n where n: "n \<in> set free" "lo n \<le> a" "a < hi n" using ex[of a] ab by auto
  have "b \<le> hi n"
  proof (rule ccontr)
    assume "\<not> b \<le> hi n"
    then obtain m where m: "m \<in> set free" "lo m \<le> hi n" "hi n < hi m" using ex[of "hi n"] n by auto
    obtain i j where ij: "i < length free" "free ! i = n" "j < length free" "free ! j = m"
      using n(1) m(1) by (auto simp: in_set_conv_nth)
    have "gap (free ! i) (free ! j)" if "i < j" using assms(1) that ij unfolding sep_def sorted_wrt_iff_nth_less by blast
    moreover have "gap (free ! j) (free ! i)" if "j < i" using assms(1) that ij unfolding sep_def sorted_wrt_iff_nth_less by blast
    ultimately show False using ij m(2,3) n(2,3) by (cases i j rule: linorder_cases) (auto simp: gap_def)
  qed
  then show ?thesis using n by blast
qed

text \<open>Inserting a disjoint range keeps the order, and merging restores the gaps.\<close>

definition follows :: "qdma_resource_entry \<Rightarrow> qdma_resource_entry \<Rightarrow> bool" where
  "follows a b \<longleftrightarrow> hi a \<le> lo b"

definition tidy :: "qdma_resource_entry list \<Rightarrow> bool" where
  "tidy free \<longleftrightarrow> sorted_wrt follows free \<and> (\<forall>n \<in> set free. total_q n \<noteq> 0)"

lemma sep_tidy: "sep free \<Longrightarrow> tidy free"
  by (auto simp: sep_def tidy_def gap_def follows_def intro: sorted_wrt_mono_rel[rotated])

lemma disjoint_order:
  assumes "\<forall>q. holds e q + holds n q \<le> 1" "total_q e \<noteq> 0" "total_q n \<noteq> 0"
  shows "sint (qbase e) < sint (qbase n) \<Longrightarrow> follows e n" "\<not> sint (qbase e) < sint (qbase n) \<Longrightarrow> follows n e"
proof -
  have p: "lo e < hi e" "lo n < hi n" using assms(2,3) by (simp_all add: total_pos)
  show "follows e n" if "sint (qbase e) < sint (qbase n)"
    using assms(1)[rule_format, of "lo n"] that p by (auto simp: follows_def holds_def lo_def split: if_splits)
  show "follows n e" if "\<not> sint (qbase e) < sint (qbase n)"
    using assms(1)[rule_format, of "lo e"] that p by (auto simp: follows_def holds_def lo_def split: if_splits)
qed

lemma follows_trans: "follows a b \<Longrightarrow> total_q b \<noteq> 0 \<Longrightarrow> follows b c \<Longrightarrow> follows a c"
  by (simp add: follows_def total_pos)

lemma insert_free_sorted:
  assumes "total_q e \<noteq> 0" "\<forall>n \<in> set free. total_q n \<noteq> 0 \<and> (\<forall>q. holds e q + holds n q \<le> 1)" "sorted_wrt follows free"
  shows "sorted_wrt follows (insert_free e free)"
  using assms
proof (induction e free rule: insert_free.induct)
  case (2 e n)
  then show ?case using disjoint_order[of e n] by simp
next
  case (3 e n m ns)
  then show ?case using disjoint_order[of e n] follows_trans[of e n]
    by (auto simp: set_insert_free)
qed simp

lemma defragment_bases: "k \<in> set (defragment xs) \<Longrightarrow> \<exists>e \<in> set xs. lo k = lo e"
  by (induction xs rule: defragment.induct) (auto simp: lo_def split: if_splits)

lemma defragment_sep:
  assumes "\<forall>e \<in> set xs. in_range B E e \<and> total_q e \<noteq> 0" "sorted_wrt follows xs"
  shows "sep (defragment xs) \<and> (\<forall>e \<in> set xs. \<exists>n \<in> set (defragment xs). lo n \<le> lo e \<and> hi e \<le> hi n)"
  using assms
proof (induction xs rule: defragment.induct)
  case (1 s n ns)
  have r: "in_range B E s" "in_range B E n" "total_q s \<noteq> 0" "total_q n \<noteq> 0" using 1(3) by auto
  show ?case
  proof (cases "qbase s + total_q s = qbase n")
    case True
    let ?s = "s\<lparr>total_q := total_q s + total_q n\<rparr>"
    note m = merge_range[OF r(1,2) True]
    have t: "total_q ?s \<noteq> 0" using r(3,4) m(1-3) unfolding total_pos by linarith
    have f: "sorted_wrt follows (?s # ns)" using 1(4) m by (simp add: follows_def[of s] follows_def[of n] follows_def[of ?s])
    have ih: "sep (defragment (?s # ns)) \<and> (\<forall>e \<in> set (?s # ns). \<exists>n \<in> set (defragment (?s # ns)). lo n \<le> lo e \<and> hi e \<le> hi n)"
      by (rule 1(1)[OF True _ f]) (use 1(3) m(4) t in auto)
    obtain k where k: "k \<in> set (defragment (?s # ns))" "lo k \<le> lo ?s" "hi ?s \<le> hi k" using ih by auto
    have "lo s < hi s" "lo n < hi n" using r(3,4) by (simp_all add: total_pos)
    then have "lo k \<le> lo s \<and> hi s \<le> hi k" "lo k \<le> lo n \<and> hi n \<le> hi k" using k m by simp_all
    then show ?thesis using True ih k(1) by auto
  next
    case False
    have ih: "sep (defragment (n # ns)) \<and> (\<forall>e \<in> set (n # ns). \<exists>k \<in> set (defragment (n # ns)). lo k \<le> lo e \<and> hi e \<le> hi k)"
      by (rule 1(2)[OF False]) (use 1(3,4) in auto)
    have "hi s \<noteq> lo n" using False in_range_word(1,2)[OF r(1)] in_range_word(1)[OF r(2)] by (metis word_uint_eq_iff)
    then have g: "hi s < lo n" using 1(4) by (simp add: follows_def)
    have "gap s k" if k: "k \<in> set (defragment (n # ns))" for k
    proof -
      obtain e where "e \<in> set (n # ns)" "lo k = lo e" using defragment_bases[OF k] by auto
      moreover have "lo n \<le> lo e" if "e \<in> set ns"
        using that 1(4) r(4) by (auto simp: follows_def total_pos)
      ultimately show ?thesis using g by (auto simp: gap_def)
    qed
    then show ?thesis using False ih r(3) by (auto simp: sep_def)
  qed
qed (simp_all add: sep_def)

lemma holds_le_cover: "n \<in> set es \<Longrightarrow> holds n q \<le> cover es q"
  by (induction es) auto

lemma submit_sep:
  assumes "qdma_submit_to_free_list e free [] = (e', free', mem')" "tidy free"
    and free: "\<forall>n \<in> set free. in_range B E n" "total_q e \<noteq> 0 \<longrightarrow> in_range B E e" "\<forall>q. cover free q + holds e q \<le> 1"
  shows "tidy free'" "total_q e \<noteq> 0 \<Longrightarrow> sep free'" "total_q e \<noteq> 0 \<Longrightarrow> \<exists>n \<in> set free'. lo n \<le> lo e \<and> hi e \<le> hi n"
proof -
  let ?e = "\<lparr>qbase = qbase e, total_q = total_q e\<rparr>"
  have e: "?e = e" by simp
  have s: "sorted_wrt follows (insert_free e free)" if "total_q e \<noteq> 0"
  proof (rule insert_free_sorted[OF that])
    show "sorted_wrt follows free"
      using assms(2) by (simp add: tidy_def)
    have "holds e q + holds n q \<le> 1" if "n \<in> set free" for n q
      using free(3)[rule_format, of q] holds_le_cover[OF that, of q] by linarith
    then show "\<forall>n \<in> set free. total_q n \<noteq> 0 \<and> (\<forall>q. holds e q + holds n q \<le> 1)"
      using assms(2) by (simp add: tidy_def)
  qed
  have d: "sep (defragment (insert_free e free)) \<and>
      (\<forall>x \<in> set (insert_free e free). \<exists>n \<in> set (defragment (insert_free e free)). lo n \<le> lo x \<and> hi x \<le> hi n)"
    if "total_q e \<noteq> 0"
    using assms(2) free that by (intro defragment_sep[OF _ s[OF that], of B E]) (auto simp: set_insert_free tidy_def)
  have r: "free' = (if total_q e = 0 then free else defragment (insert_free e free))"
    using assms(1) unfolding qdma_submit_to_free_list_def e by (auto split: if_splits)
  show "tidy free'" "total_q e \<noteq> 0 \<Longrightarrow> sep free'" using d assms(2) r by (auto intro: sep_tidy)
  show "\<exists>n \<in> set free'. lo n \<le> lo e \<and> hi e \<le> hi n" if "total_q e \<noteq> 0"
    using d[OF that] that r by (simp add: set_insert_free)
qed

lemma tidy_replace:
  assumes "tidy free" "i < length free" "tidy ps" "\<forall>p \<in> set ps. lo (free ! i) \<le> lo p \<and> hi p \<le> hi (free ! i)"
  shows "tidy (take i free @ ps @ drop (Suc i) free)"
proof -
  have "tidy (take i free @ [free ! i] @ drop (Suc i) free)"
    using assms(1) id_take_nth_drop[OF assms(2)] by simp
  then show ?thesis using assms(3,4) unfolding tidy_def sorted_wrt_append
    by (fastforce simp: follows_def)
qed

lemma fragment_tidy:
  assumes i: "i < length free" and free: "\<forall>n \<in> set free. in_range B E n" and s: "tidy free"
    and b: "lo (free ! i) \<le> sint base" "sint base + uint qmax \<le> hi (free ! i)"
    and f: "fragment_free_list qmax base i free [] = (Some k, free', mem')"
  shows "tidy (take k free' @ drop (Suc k) free')"
proof -
  let ?n = "free ! i"
  let ?low = "\<lparr>qbase = qbase ?n, total_q = base - qbase ?n\<rparr>"
  let ?up = "\<lparr>qbase = base + qmax, total_q = total_q ?n - (base - qbase ?n) - qmax\<rparr>"
  have n: "in_range B E ?n" using i free by simp
  note p = split_parts[OF n b]
  note rep = tidy_replace[OF s i]
  have q0: "0 \<le> uint qmax" by simp
  have ub: "lo ?n \<le> sint base + uint qmax" "sint base \<le> hi ?n" using b q0 by linarith+
  have low: "base \<noteq> qbase ?n \<Longrightarrow> total_q ?low \<noteq> 0" by simp
  consider (whole) "base = qbase ?n" "qmax = total_q ?n" | (front) "base = qbase ?n" "qmax \<noteq> total_q ?n"
    | (rear) "base \<noteq> qbase ?n" "sint (qbase ?n) < sint base \<and> base + qmax = qbase ?n + total_q ?n"
    | (middle) "base \<noteq> qbase ?n" "\<not> (sint (qbase ?n) < sint base \<and> base + qmax = qbase ?n + total_q ?n)"
    by blast
  then show ?thesis
  proof cases
    case whole
    then show ?thesis using f rep[of "[]"] by (simp add: fragment_free_list_def tidy_def)
  next
    case front
    have "tidy [?up]" using front by (simp add: tidy_def)
    then have "tidy (take i free @ [?up] @ drop (Suc i) free)" using p(5,6) b ub by (intro rep) simp_all
    then show ?thesis using f front(2) i unfolding front(1) by (auto simp: fragment_free_list_def Let_def)
  next
    case rear
    have "tidy [?low]" using rear by (simp add: tidy_def)
    then have "tidy (take i free @ [?low] @ drop (Suc i) free)" using p(1,2) b ub by (intro rep) simp_all
    then show ?thesis using f rear i by (auto simp: fragment_free_list_def Let_def)
  next
    case middle
    have "sint (qbase ?n) < sint base"
      using b(1) middle(1) by (auto simp: lo_def le_less dest: signed_word_eqI)
    then have "base + qmax \<noteq> qbase ?n + total_q ?n" using middle(2) by simp
    then have "total_q ?up \<noteq> 0" by (simp add: algebra_simps)
    moreover have "follows ?low ?up" unfolding follows_def p using q0 by linarith
    ultimately have "tidy [?low, ?up]" using low[OF middle(1)] by (simp add: tidy_def)
    then have "tidy (take i free @ [?low, ?up] @ drop (Suc i) free)" using p(1,2,5,6) b ub by (intro rep) simp_all
    then show ?thesis using f middle(1) i
      unfolding fragment_free_list_def Let_def if_not_P[OF middle(2)] by auto
  qed
qed

subsection \<open>Exact behaviour without allocation failures\<close>

lemma node_tidy:
  assumes "qdma_get_resource_node qmax base free [] = (Some k, free', mem')" "tidy free" "req_ok qmax base"
    and free: "\<forall>n \<in> set free. in_range B E n"
  shows "tidy (take k free' @ drop (Suc k) free')"
proof (cases "if 0 \<le> sint base then find_requested qmax base free else None")
  case (Some i)
  then have b: "0 \<le> sint base" "find_requested qmax base free = Some i" by (simp_all split: if_splits)
  note h = find_requested_holds[OF b(2,1) assms(3,4)]
  show ?thesis using fragment_tidy[OF h(1) free assms(2) h(2,3)] assms(1) b
    by (simp add: qdma_get_resource_node_def)
next
  case None
  then obtain i n where p: "best_fit qmax 0 None free = Some (i, n)"
    using assms(1) by (auto simp: qdma_get_resource_node_def split: option.splits)
  note h = best_fit_holds[OF p]
  show ?thesis using fragment_tidy[OF h(1) free assms(2), of "qbase n" qmax] h(2-4) assms(1) None p
    by (simp add: qdma_get_resource_node_def)
qed

lemma find_requested_complete:
  assumes "n \<in> set free" "in_range B E n" "lo n \<le> sint base" "sint base + uint qmax \<le> hi n"
  shows "find_requested qmax base free \<noteq> None"
proof -
  note w = in_range_word[OF assms(2)]
  have "0 \<le> sint base" using w(5) assms(3) by linarith
  then have "uint base = sint base" by (rule uint_nonneg_s32)
  then have "uint (base + qmax) = sint base + uint qmax"
    using w(4) assms(4) by (subst uint_add_no_wrap) simp_all
  then have "base + qmax \<le> qbase n + total_q n" using w(2) assms(4) by (simp add: word_le_def)
  then show ?thesis using assms(1,3) unfolding find_requested_def find_pos_None by (auto simp: lo_def)
qed

text \<open>
  A request of a function that has queues: it is refused only if no run of as many queues is free
  once the function has returned its own, and then the function keeps exactly what it had; the base
  that was asked for is honoured whenever it can be.
\<close>

definition run_free :: "qdma_resource_entry \<Rightarrow> qdma_resource_entry list \<Rightarrow> int \<Rightarrow> u32 \<Rightarrow> bool" where
  "run_free e free a qmax \<longleftrightarrow> (\<forall>q. a \<le> q \<and> q < a + uint qmax \<longrightarrow> 0 < cover (e # free) q)"

lemma holds_run:
  assumes "\<And>q. cover free1 q = cover (e # free) q" "\<And>q. holds n q \<le> cover free1 q" "qmax = total_q n"
  shows "run_free e free (lo n) qmax"
  unfolding run_free_def
proof (intro allI impI)
  fix q assume "lo n \<le> q \<and> q < lo n + uint qmax"
  then have "holds n q = 1" using assms(3) by (simp add: holds_def hi_def)
  then show "0 < cover (e # free) q" using assms(1)[of q] assms(2)[of q] by linarith
qed

lemma fit_in_one_entry:
  assumes "sep free1" "\<And>q. cover free1 q = cover (e # free) q" "run_free e free a qmax" "qmax \<noteq> 0"
  shows "\<exists>n \<in> set free1. lo n \<le> a \<and> a + uint qmax \<le> hi n"
proof (rule run_in_one_entry[OF assms(1)])
  show "a < a + uint qmax" using assms(4) uint_ge_0[of qmax] by (auto simp: le_less simp flip: uint_0_iff)
qed (use assms(2,3) in \<open>simp add: run_free_def\<close>)

text \<open>The function's own range can always be cut out again after it has been returned.\<close>

lemma node_restores:
  assumes "n \<in> set free" "lo n \<le> lo e" "hi e \<le> hi n" "in_range B E e" and free: "\<forall>n \<in> set free. in_range B E n"
  shows "\<exists>k free'. qdma_get_resource_node (total_q e) (qbase e) free [] = (Some k, free', []) \<and> free' ! k = e"
proof -
  have f: "find_requested (total_q e) (qbase e) free \<noteq> None"
    using assms by (intro find_requested_complete[of n _ B E]) (simp_all add: lo_def hi_def)
  have b: "0 \<le> sint (qbase e)" using in_range_word(5)[OF assms(4)] by (simp add: lo_def)
  have q: "req_ok (total_q e) (qbase e)" using req_ok_own[of e B E] assms(4) by simp
  obtain r free' mem' where g: "qdma_get_resource_node (total_q e) (qbase e) free [] = (r, free', mem')"
    by (cases "qdma_get_resource_node (total_q e) (qbase e) free []")
  show ?thesis
    using q free
  proof (cases rule: get_resource_node_ok[where mem = "[]"])
    case refused
    then show ?thesis using f b by simp
  next
    case (cut c)
    then have "c = qbase e" using f b by simp
    then show ?thesis using cut(1) g by (auto simp: cut_ok_def)
  qed
qed

lemma node_complete:
  assumes q: "req_ok qmax base" and free: "\<forall>n \<in> set free1. in_range B E n"
    and s: "sep free1" "\<And>q. cover free1 q = cover (e # free) q" "qmax \<noteq> 0"
  obtains (refused) "qdma_get_resource_node qmax base free1 [] = (None, free1, [])" "\<nexists>a. run_free e free a qmax"
  | (found) b k free2 where "qdma_get_resource_node qmax base free1 [] = (Some k, free2, [])"
      "cut_ok B E qmax b free1 [] (Some k, free2, [])" "\<exists>a. run_free e free a qmax"
      "0 \<le> sint base \<Longrightarrow> run_free e free (sint base) qmax \<Longrightarrow> b = base"
  using q free
proof (cases rule: get_resource_node_ok[where mem = "[]"])
  case refused
  have False if run: "run_free e free a qmax" for a
  proof -
    obtain n where n: "n \<in> set free1" "lo n \<le> a" "a + uint qmax \<le> hi n"
      using fit_in_one_entry[OF s(1,2) run s(3)] by blast
    then have "qmax \<le> total_q n" by (simp add: word_le_def hi_def)
    then show False using refused n(1) by blast
  qed
  then show ?thesis using that(1) refused(1) by blast
next
  case (cut b)
  obtain k free2 where g: "qdma_get_resource_node qmax base free1 [] = (Some k, free2, [])"
    using cut(1) by (cases "qdma_get_resource_node qmax base free1 []") (auto simp: cut_ok_def)
  note c = cut(1)[unfolded g]
  have "holds (free2 ! k) q \<le> cover free1 q" "total_q (free2 ! k) = qmax" for q
    using holds_le_cover[OF nth_mem, of k free2 q] c by (simp_all add: cut_ok_def)
  then have "run_free e free (lo (free2 ! k)) qmax" by (intro holds_run[OF s(2)]) simp_all
  moreover have "b = base" if "0 \<le> sint base" "run_free e free (sint base) qmax"
    using fit_in_one_entry[OF s(1,2) that(2) s(3)] free find_requested_complete cut(2)[OF that(1)] by blast
  ultimately show ?thesis using that(2)[OF g c] by blast
qed

lemma request_exact:
  assumes r: "qdma_request_q_resource e qmax base free [] = (rv, e', free', mem')"
    and free: "\<forall>n \<in> set free. in_range B E n" "in_range B E e" "\<forall>q. cover free q + holds e q \<le> 1"
    and t: "tidy free" "total_q e \<noteq> 0" "qmax \<noteq> 0" and q: "req_ok qmax base"
  shows "tidy free'"
    "rv = 0 \<longleftrightarrow> (\<exists>a. run_free e free a qmax)"
    "rv = 0 \<Longrightarrow> total_q e' = qmax"
    "0 \<le> sint base \<Longrightarrow> run_free e free (sint base) qmax \<Longrightarrow> e' = \<lparr>qbase = base, total_q = qmax\<rparr>"
    "rv \<noteq> 0 \<Longrightarrow> rv = - QDMA_ERR_RM_NO_QUEUES_LEFT \<and> e' = e"
proof -
  obtain e1 free1 mem1 where s: "qdma_submit_to_free_list e free [] = (e1, free1, mem1)"
    by (cases "qdma_submit_to_free_list e free []")
  have ie: "total_q e \<noteq> 0 \<longrightarrow> in_range B E e" using free(2) by simp
  note m = submit_moved[OF s free(1) ie] and ss = submit_sep[OF s t(1) free(1) ie free(3)]
  have f1: "\<forall>n \<in> set free1. in_range B E n" "mem1 = []" using m(1) by (simp_all add: moved_def)
  have cov: "cover free1 q = cover (e # free) q" for q using m by (simp add: moved_def)
  note req = r[unfolded qdma_request_q_resource_def s f1(2) Let_def prod.case if_not_P[OF t(3)]]
  have "tidy free' \<and> (rv = 0 \<longleftrightarrow> (\<exists>a. run_free e free a qmax)) \<and> (rv = 0 \<longrightarrow> total_q e' = qmax) \<and>
    (0 \<le> sint base \<and> run_free e free (sint base) qmax \<longrightarrow> e' = \<lparr>qbase = base, total_q = qmax\<rparr>) \<and>
    (rv \<noteq> 0 \<longrightarrow> rv = - QDMA_ERR_RM_NO_QUEUES_LEFT \<and> e' = e)"
    using q f1(1) ss(2)[OF t(2)] cov t(3)
  proof (cases rule: node_complete)
    case refused
    obtain n where n: "n \<in> set free1" "lo n \<le> lo e" "hi e \<le> hi n" using ss(3)[OF t(2)] by blast
    obtain k free2 where g: "qdma_get_resource_node (total_q e) (qbase e) free1 [] = (Some k, free2, [])" "free2 ! k = e"
      using node_restores[OF n free(2) f1(1)] by blast
    have "tidy (take k free2 @ drop (Suc k) free2)"
      using node_tidy[OF g(1) ss(1) req_ok_own[OF ie] f1(1)] .
    then show ?thesis using refused g req by auto
  next
    case (found b k free2)
    have "tidy (take k free2 @ drop (Suc k) free2)" using node_tidy[OF found(1) ss(1) q f1(1)] .
    then show ?thesis using found req by (auto simp: cut_ok_def)
  qed
  then show "tidy free'"
    "rv = 0 \<longleftrightarrow> (\<exists>a. run_free e free a qmax)"
    "rv = 0 \<Longrightarrow> total_q e' = qmax"
    "0 \<le> sint base \<Longrightarrow> run_free e free (sint base) qmax \<Longrightarrow> e' = \<lparr>qbase = base, total_q = qmax\<rparr>"
    "rv \<noteq> 0 \<Longrightarrow> rv = - QDMA_ERR_RM_NO_QUEUES_LEFT \<and> e' = e"
    by blast+
qed

text \<open>Every request keeps the list sorted, also one that is refused.\<close>

lemma request_tidy:
  assumes r: "qdma_request_q_resource e qmax base free [] = (rv, e', free', mem')"
    and free: "\<forall>n \<in> set free. in_range B E n" "total_q e \<noteq> 0 \<longrightarrow> in_range B E e" "\<forall>q. cover free q + holds e q \<le> 1"
    and t: "tidy free" and q: "req_ok qmax base"
  shows "tidy free'"
proof -
  obtain e1 free1 mem1 where s: "qdma_submit_to_free_list e free [] = (e1, free1, mem1)"
    by (cases "qdma_submit_to_free_list e free []")
  note ss = submit_sep(1)[OF s t free] and m = submit_moved[OF s free(1,2)]
  have f1: "\<forall>n \<in> set free1. in_range B E n" "mem1 = []" using m(1) by (simp_all add: moved_def)
  obtain r2 free2 mem2 where g: "qdma_get_resource_node qmax base free1 [] = (r2, free2, mem2)"
    by (cases "qdma_get_resource_node qmax base free1 []")
  obtain r3 free3 mem3 where h: "qdma_get_resource_node (total_q e) (qbase e) free1 [] = (r3, free3, mem3)"
    by (cases "qdma_get_resource_node (total_q e) (qbase e) free1 []")
  note n2 = node_moved[OF q f1(1), of "[]", unfolded g prod.case]
    and n3 = node_moved[OF req_ok_own[OF free(2)] f1(1), of "[]", unfolded h prod.case]
  have t2: "tidy (take k free2 @ drop (Suc k) free2)" if "r2 = Some k" for k
    using node_tidy[OF g[unfolded that] ss q f1(1)] .
  have t3: "tidy (take k free3 @ drop (Suc k) free3)" if "r3 = Some k" for k
    using node_tidy[OF h[unfolded that] ss req_ok_own[OF free(2)] f1(1)] .
  show ?thesis using r s f1(2) g h n2 n3 t2 t3 ss
    by (cases r2; cases r3) (auto simp: qdma_request_q_resource_def split: if_splits)
qed

end
