(* ===== verification/Qdma_Rm.thy ===== *)
theory Qdma_Rm
  imports Qdma_Free
begin

text \<open>
  The queue resource manager as a machine: whatever sequence of operations the functions of the
  devices perform, no queue is ever owned twice; while no allocation fails, none is lost either; and
  a function never has more active queues than it owns.
\<close>

subsection \<open>Invariant of a device\<close>

abbreviation base_of :: "qdma_resource_master \<Rightarrow> int" where "base_of m \<equiv> sint (res_qbase m)"
abbreviation end_of :: "qdma_resource_master \<Rightarrow> int" where "end_of m \<equiv> sint (res_qbase m) + uint (res_total_q m)"

definition owners :: "qdma_resource_master \<Rightarrow> qdma_resource_entry list" where
  "owners m = free_list m @ map dev_q (dev_list m)"

definition dev_ok :: "int \<Rightarrow> int \<Rightarrow> qdma_dev_entry \<Rightarrow> bool" where
  "dev_ok B E d \<longleftrightarrow> (total_q (dev_q d) \<noteq> 0 \<longrightarrow> in_range B E (dev_q d)) \<and>
     active_h2c_qcnt d \<le> total_q (dev_q d) \<and> active_c2h_qcnt d \<le> total_q (dev_q d) \<and>
     active_cmpt_qcnt d \<le> total_q (dev_q d)"

definition master_ok :: "qdma_resource_master \<Rightarrow> bool" where
  "master_ok m \<longleftrightarrow> 0 \<le> base_of m \<and> end_of m < 2147483648 \<and>
     (\<forall>n \<in> set (free_list m). in_range (base_of m) (end_of m) n) \<and>
     (\<forall>d \<in> set (dev_list m). dev_ok (base_of m) (end_of m) d) \<and> (\<forall>q. cover (owners m) q \<le> 1)"

definition master_full :: "qdma_resource_master \<Rightarrow> bool" where
  "master_full m \<longleftrightarrow> tidy (free_list m) \<and> (\<forall>q. base_of m \<le> q \<and> q < end_of m \<longrightarrow> cover (owners m) q = 1)"

definition rm_ok :: "qdma_rm \<Rightarrow> bool" where
  "rm_ok rm \<longleftrightarrow> (\<forall>m \<in> set (master_resource_list rm). master_ok m)"

definition rm_full :: "qdma_rm \<Rightarrow> bool" where
  "rm_full rm \<longleftrightarrow> rm_ok rm \<and> callocs rm = [] \<and> (\<forall>m \<in> set (master_resource_list rm). master_full m)"

lemma cover_dev_update:
  "j < length ds \<Longrightarrow> cover (map dev_q (ds[j := d])) q + holds (dev_q (ds ! j)) q = cover (map dev_q ds) q + holds (dev_q d) q"
  by (induction ds arbitrary: j) (auto split: nat.splits)

lemma cover_dev_delete:
  "j < length ds \<Longrightarrow> cover (map dev_q (take j ds @ drop (Suc j) ds)) q + holds (dev_q (ds ! j)) q = cover (map dev_q ds) q"
  using cover_take_drop[of j "map dev_q ds" q] by (simp add: take_map drop_map)

lemma dev_free_disjoint:
  assumes "master_ok m" "j < length (dev_list m)"
  shows "cover (free_list m) q + holds (dev_q (dev_list m ! j)) q \<le> 1"
proof -
  have "holds (dev_q (dev_list m ! j)) q \<le> cover (map dev_q (dev_list m)) q"
    using assms(2) by (intro holds_le_cover) simp
  moreover have "cover (free_list m) q + cover (map dev_q (dev_list m)) q \<le> 1"
    using assms(1) by (simp add: master_ok_def owners_def)
  ultimately show ?thesis by linarith
qed

text \<open>A function's range is exchanged while the function has no active queue.\<close>

lemma master_moved:
  assumes m: "master_ok m" and j: "j < length (dev_list m)"
    and mv: "moved (base_of m) (end_of m) (dev_q (dev_list m ! j)) (free_list m) mem e' free' mem'"
    and idle: "active_h2c_qcnt (dev_list m ! j) = 0" "active_c2h_qcnt (dev_list m ! j) = 0" "active_cmpt_qcnt (dev_list m ! j) = 0"
  defines "m' \<equiv> upd_dev j (\<lambda>d. d\<lparr>dev_q := e'\<rparr>) (m\<lparr>free_list := free'\<rparr>)"
  shows "master_ok m'" "mem = [] \<Longrightarrow> cover (owners m') q = cover (owners m) q"
proof -
  let ?d = "(dev_list m ! j)\<lparr>dev_q := e'\<rparr>"
  have o: "cover (owners m') q + holds (dev_q (dev_list m ! j)) q + cover (free_list m) q =
      cover (owners m) q + holds e' q + cover free' q" for q
    using cover_dev_update[OF j, of ?d q] by (simp add: m'_def upd_dev_def owners_def)
  have le: "cover free' q + holds e' q \<le> cover (free_list m) q + holds (dev_q (dev_list m ! j)) q" for q
    using mv by (simp add: moved_def)
  have "cover (owners m') q \<le> cover (owners m) q" for q using o[of q] le[of q] by linarith
  then have c: "\<forall>q. cover (owners m') q \<le> 1" using m order_trans unfolding master_ok_def by blast
  have d: "dev_ok (base_of m) (end_of m) ?d" using mv idle by (simp add: dev_ok_def moved_def)
  have "\<forall>d \<in> set (dev_list m'). dev_ok (base_of m) (end_of m) d"
    using m d set_update_subset_insert[of "dev_list m" j ?d] by (auto simp: m'_def upd_dev_def master_ok_def)
  then show "master_ok m'" using m mv c by (simp add: master_ok_def m'_def upd_dev_def moved_def)
  show "cover (owners m') q = cover (owners m) q" if "mem = []"
  proof -
    have "cover free' q + holds e' q = cover (free_list m) q + holds (dev_q (dev_list m ! j)) q"
      using mv that by (simp add: moved_def)
    then show ?thesis using o[of q] by linarith
  qed
qed

lemma master_deleted:
  assumes m: "master_ok m" and j: "j < length (dev_list m)"
    and mv: "moved (base_of m) (end_of m) (dev_q (dev_list m ! j)) (free_list m) mem e' free' mem'"
  defines "m' \<equiv> m\<lparr>free_list := free', dev_list := take j (dev_list m) @ drop (Suc j) (dev_list m)\<rparr>"
  shows "master_ok m'" "mem = [] \<Longrightarrow> total_q e' = 0 \<Longrightarrow> cover (owners m') q = cover (owners m) q"
proof -
  have o: "cover (owners m') q + holds (dev_q (dev_list m ! j)) q + cover (free_list m) q =
      cover (owners m) q + cover free' q" for q
    using cover_dev_delete[OF j, of q] by (simp add: m'_def owners_def)
  have le: "cover free' q + holds e' q \<le> cover (free_list m) q + holds (dev_q (dev_list m ! j)) q" for q
    using mv by (simp add: moved_def)
  have "cover (owners m') q \<le> cover (owners m) q" for q using o[of q] le[of q] by linarith
  then have c: "\<forall>q. cover (owners m') q \<le> 1" using m order_trans unfolding master_ok_def by blast
  have "\<forall>d \<in> set (dev_list m'). dev_ok (base_of m) (end_of m) d"
    using m by (auto simp: m'_def master_ok_def dest: in_set_takeD in_set_dropD)
  then show "master_ok m'" using m mv c by (simp add: master_ok_def m'_def moved_def)
  show "cover (owners m') q = cover (owners m) q" if "mem = []" "total_q e' = 0"
  proof -
    have "cover free' q = cover (free_list m) q + holds (dev_q (dev_list m ! j)) q"
      using mv that by (simp add: moved_def)
    then show ?thesis using o[of q] by linarith
  qed
qed

subsection \<open>Operations\<close>

lemma master_entry_pos:
  "qdma_get_master_resource_entry idx rm = Some i \<Longrightarrow>
   i < length (master_resource_list rm) \<and> dma_device_index (master_resource_list rm ! i) = idx"
  using find_pos_Some by (fastforce simp: qdma_get_master_resource_entry_def)

lemma dev_entry_pos:
  assumes "qdma_get_dev_entry idx func rm = Some (i, j)"
  shows "i < length (master_resource_list rm)" "j < length (dev_list (master_resource_list rm ! i))"
    "func_id (dev_list (master_resource_list rm ! i) ! j) = func" "qdma_get_master_resource_entry idx rm = Some i"
  using assms find_pos_Some[of _ "dev_list (master_resource_list rm ! i)"] master_entry_pos[of idx rm]
  by (auto simp: qdma_get_dev_entry_def split: option.splits)

text \<open>Both invariants hold of a state when they hold of the devices that an operation left or changed.\<close>

definition keeps :: "qdma_rm \<Rightarrow> qdma_rm \<Rightarrow> bool" where
  "keeps rm rm' \<longleftrightarrow> (rm_ok rm \<longrightarrow> rm_ok rm') \<and> (rm_full rm \<longrightarrow> rm_full rm')"

lemma keeps_refl [simp]: "keeps rm rm"
  by (simp add: keeps_def)

lemma keeps_upd:
  assumes i: "i < length (master_resource_list rm)"
    and ok: "master_ok (master_resource_list rm ! i) \<Longrightarrow> master_ok (f (master_resource_list rm ! i))"
    and full: "master_ok (master_resource_list rm ! i) \<Longrightarrow> master_full (master_resource_list rm ! i) \<Longrightarrow> callocs rm = [] \<Longrightarrow>
      mem = [] \<and> master_full (f (master_resource_list rm ! i))"
  shows "keeps rm (upd_master i f (rm\<lparr>callocs := mem\<rparr>))"
proof -
  let ?ms = "master_resource_list rm"
  have s: "set (master_resource_list (upd_master i f (rm\<lparr>callocs := mem\<rparr>))) \<subseteq> insert (f (?ms ! i)) (set ?ms)"
    by (simp add: upd_master_def set_update_subset_insert)
  have "rm_ok (upd_master i f (rm\<lparr>callocs := mem\<rparr>))" if "rm_ok rm"
    using that ok i s unfolding rm_ok_def by auto
  moreover have "\<forall>m \<in> set (master_resource_list (upd_master i f (rm\<lparr>callocs := mem\<rparr>))). master_full m" "mem = []"
    if "rm_full rm"
    using that full i s unfolding rm_full_def rm_ok_def by auto
  moreover have "callocs (upd_master i f (rm\<lparr>callocs := mem\<rparr>)) = mem" by (simp add: upd_master_def)
  ultimately show ?thesis unfolding keeps_def rm_full_def by metis
qed

lemma rm_callocs_same: "rm = rm\<lparr>callocs := callocs rm\<rparr>"
  by simp

lemma keeps_dev_update:
  assumes "req_ok qmax base"
  shows "keeps rm (snd (snd (qdma_dev_update idx func qmax base rm)))"
proof (cases "qdma_get_dev_entry idx func rm")
  case None
  then show ?thesis by (simp add: qdma_dev_update_def split: option.splits)
next
  case (Some p)
  obtain i j where ij: "qdma_get_dev_entry idx func rm = Some (i, j)" using Some by (cases p) simp
  note pos = dev_entry_pos[OF ij]
  let ?m = "master_resource_list rm ! i"
  let ?d = "dev_list ?m ! j"
  show ?thesis
  proof (cases "active_h2c_qcnt ?d \<noteq> 0 \<or> active_c2h_qcnt ?d \<noteq> 0 \<or> active_cmpt_qcnt ?d \<noteq> 0")
    case True
    then show ?thesis using ij pos(4) by (simp add: qdma_dev_update_def)
  next
    case False
    obtain rv e free mem where r: "qdma_request_q_resource (dev_q ?d) qmax base (free_list ?m) (callocs rm) = (rv, e, free, mem)"
      by (cases "qdma_request_q_resource (dev_q ?d) qmax base (free_list ?m) (callocs rm)")
    let ?f = "\<lambda>m. upd_dev j (\<lambda>d. d\<lparr>dev_q := e\<rparr>) (m\<lparr>free_list := free\<rparr>)"
    have up: "snd (snd (qdma_dev_update idx func qmax base rm)) = upd_master i ?f (rm\<lparr>callocs := mem\<rparr>)"
      unfolding qdma_dev_update_def pos(4) ij option.case prod.case Let_def if_not_P[OF False] r by simp
    show ?thesis unfolding up
    proof (rule keeps_upd[OF pos(1)])
      assume m: "master_ok ?m"
      have idle: "active_h2c_qcnt ?d = 0" "active_c2h_qcnt ?d = 0" "active_cmpt_qcnt ?d = 0" using False by simp_all
      have in_r: "\<forall>n \<in> set (free_list ?m). in_range (base_of ?m) (end_of ?m) n"
        "total_q (dev_q ?d) \<noteq> 0 \<longrightarrow> in_range (base_of ?m) (end_of ?m) (dev_q ?d)"
        using m pos(2) by (auto simp: master_ok_def dev_ok_def)
      note mv = request_moved[OF r in_r assms]
      show "master_ok (?f ?m)" by (rule master_moved(1)[OF m pos(2) mv idle])
      assume full: "master_full ?m" and mem: "callocs rm = []"
      have "mem = []" using mv mem by (simp add: moved_def)
      moreover have "tidy free"
        using request_tidy[OF r[unfolded mem] in_r _ _ assms] dev_free_disjoint[OF m pos(2)] full
        by (simp add: master_full_def)
      ultimately show "mem = [] \<and> master_full (?f ?m)"
        using full master_moved(2)[OF m pos(2) mv idle mem] by (simp add: master_full_def upd_dev_def)
    qed
  qed
qed

lemma keeps_entry_destroy: "keeps rm (qdma_dev_entry_destroy idx func rm)"
proof (cases "qdma_get_dev_entry idx func rm")
  case None
  then show ?thesis by (simp add: qdma_dev_entry_destroy_def)
next
  case (Some p)
  obtain i j where ij: "qdma_get_dev_entry idx func rm = Some (i, j)" using Some by (cases p) simp
  note pos = dev_entry_pos[OF ij]
  let ?m = "master_resource_list rm ! i"
  let ?d = "dev_list ?m ! j"
  obtain e free mem where s: "qdma_submit_to_free_list (dev_q ?d) (free_list ?m) (callocs rm) = (e, free, mem)"
    by (cases "qdma_submit_to_free_list (dev_q ?d) (free_list ?m) (callocs rm)")
  let ?f = "\<lambda>m. m\<lparr>free_list := free, dev_list := take j (dev_list m) @ drop (Suc j) (dev_list m)\<rparr>"
  have up: "qdma_dev_entry_destroy idx func rm = upd_master i ?f (rm\<lparr>callocs := mem\<rparr>)"
    by (simp add: qdma_dev_entry_destroy_def ij s)
  show ?thesis unfolding up
  proof (rule keeps_upd[OF pos(1)])
    assume m: "master_ok ?m"
    have in_r: "\<forall>n \<in> set (free_list ?m). in_range (base_of ?m) (end_of ?m) n"
      "total_q (dev_q ?d) \<noteq> 0 \<longrightarrow> in_range (base_of ?m) (end_of ?m) (dev_q ?d)"
      using m pos(2) by (auto simp: master_ok_def dev_ok_def)
    note mv = submit_moved[OF s in_r]
    show "master_ok (?f ?m)" by (rule master_deleted(1)[OF m pos(2) mv(1)])
    assume full: "master_full ?m" and mem: "callocs rm = []"
    have "mem = []" "total_q e = 0" using mv mem by (simp_all add: moved_def)
    moreover have "tidy free"
      using submit_sep(1)[OF s[unfolded mem] _ in_r] dev_free_disjoint[OF m pos(2)] full
      by (simp add: master_full_def)
    ultimately show "mem = [] \<and> master_full (?f ?m)"
      using full master_deleted(2)[OF m pos(2) mv(1) mem] by (simp add: master_full_def)
  qed
qed

lemma keeps_entry_create: "keeps rm (snd (qdma_dev_entry_create idx func rm))"
proof (cases "qdma_get_master_resource_entry idx rm")
  case None
  then show ?thesis by (simp add: qdma_dev_entry_create_def)
next
  case (Some i)
  have i: "i < length (master_resource_list rm)" using master_entry_pos[OF Some] by simp
  let ?f = "\<lambda>m. m\<lparr>dev_list := dev_list m @ [\<lparr>func_id = func, active_h2c_qcnt = 0, active_c2h_qcnt = 0,
    active_cmpt_qcnt = 0, dev_q = no_queues\<rparr>]\<rparr>"
  obtain ok mem where c: "qdma_calloc (callocs rm) = (ok, mem)" by (cases "qdma_calloc (callocs rm)")
  have mem: "callocs rm = [] \<Longrightarrow> ok \<and> mem = []" using c by auto
  have k: "keeps rm (upd_master i ?f (rm\<lparr>callocs := mem\<rparr>))"
  proof (rule keeps_upd[OF i])
    let ?m = "master_resource_list rm ! i"
    have o: "cover (owners (?f ?m)) q = cover (owners ?m) q" for q by (simp add: owners_def)
    show "master_ok (?f ?m)" if "master_ok ?m" using that o by (auto simp: master_ok_def dev_ok_def)
    show "mem = [] \<and> master_full (?f ?m)" if "master_full ?m" "callocs rm = []"
      using that o mem by (simp add: master_full_def)
  qed
  have "keeps rm (rm\<lparr>callocs := mem\<rparr>)" using mem by (simp add: keeps_def rm_ok_def rm_full_def)
  with k show ?thesis using Some c by (auto simp: qdma_dev_entry_create_def Let_def split: option.splits)
qed

text \<open>The counters of active queues; changing them moves no queue.\<close>

lemma active_simps [simp]:
  "dev_q (set_active t c d) = dev_q d" "func_id (set_active t c d) = func_id d"
  by (cases t; simp)+

lemma set_active_ok:
  assumes "dev_ok B E d" "c \<le> total_q (dev_q d)"
  shows "dev_ok B E (set_active t c d)"
  using assms by (cases t) (simp_all add: dev_ok_def)

lemma active_le_total: "dev_ok B E d \<Longrightarrow> active_of t d = Some c \<Longrightarrow> c \<le> total_q (dev_q d)"
  by (cases t) (auto simp: dev_ok_def)

lemma keeps_dev_counters:
  assumes i: "i < length (master_resource_list rm)" and j: "j < length (dev_list (master_resource_list rm ! i))"
    and g: "\<And>B E. dev_ok B E (dev_list (master_resource_list rm ! i) ! j) \<Longrightarrow>
      dev_ok B E (g (dev_list (master_resource_list rm ! i) ! j))"
    "dev_q (g (dev_list (master_resource_list rm ! i) ! j)) = dev_q (dev_list (master_resource_list rm ! i) ! j)"
  shows "keeps rm (upd_master i (\<lambda>m. upd_dev j g (m\<lparr>active_qcnt := n m\<rparr>)) rm)"
proof -
  let ?m = "master_resource_list rm ! i" and ?f = "\<lambda>m. upd_dev j g (m\<lparr>active_qcnt := n m\<rparr>)"
  have o: "cover (owners (?f ?m)) q = cover (owners ?m) q" for q
    using cover_dev_update[OF j, of "g (dev_list ?m ! j)" q] g(2) by (simp add: upd_dev_def owners_def)
  have "keeps rm (upd_master i ?f (rm\<lparr>callocs := callocs rm\<rparr>))"
  proof (rule keeps_upd[OF i])
    assume m: "master_ok ?m"
    have "dev_ok (base_of ?m) (end_of ?m) (g (dev_list ?m ! j))" using m j by (intro g(1)) (simp add: master_ok_def)
    then have "\<forall>d \<in> set (dev_list (?f ?m)). dev_ok (base_of ?m) (end_of ?m) d"
      using m set_update_subset_insert[of "dev_list ?m" j "g (dev_list ?m ! j)"]
      by (auto simp: upd_dev_def master_ok_def)
    then show "master_ok (?f ?m)" using m o by (simp add: master_ok_def upd_dev_def)
  qed (use o in \<open>simp add: master_full_def upd_dev_def\<close>)
  then show ?thesis by simp
qed

lemma inc_le: "\<not> (t :: u32) < c + 1 \<Longrightarrow> c + 1 \<le> t"
  by simp

lemma dec_le: "(c :: u32) \<le> t \<Longrightarrow> c \<noteq> 0 \<Longrightarrow> c - 1 \<le> t"
proof -
  assume "c \<le> t" "c \<noteq> 0"
  then have "0 < uint c" using uint_ge_0[of c] by (simp add: le_less flip: uint_0_iff)
  then have "uint (c - 1) = uint c - 1" using uint_sub_no_wrap[of 1 c] by simp
  then show ?thesis using \<open>c \<le> t\<close> by (simp add: word_le_def)
qed

lemma keeps_increment: "keeps rm (snd (qdma_dev_increment_active_queue idx func t rm))"
proof (cases "qdma_get_dev_entry idx func rm")
  case None
  then show ?thesis by (simp add: qdma_dev_increment_active_queue_def split: option.splits)
next
  case (Some p)
  obtain i j where ij: "qdma_get_dev_entry idx func rm = Some (i, j)" using Some by (cases p) simp
  note pos = dev_entry_pos[OF ij]
  let ?d = "dev_list (master_resource_list rm ! i) ! j"
  have k: "keeps rm (upd_master i (\<lambda>m. upd_dev j (set_active t (c + 1)) (m\<lparr>active_qcnt := active_qcnt m + 1\<rparr>)) rm)"
    if "\<not> total_q (dev_q ?d) < c + 1" for c
    using that by (intro keeps_dev_counters[OF pos(1,2)] set_active_ok inc_le) simp_all
  show ?thesis using k ij pos(4)
    by (simp add: qdma_dev_increment_active_queue_def Let_def split: option.splits)
qed

lemma keeps_decrement: "keeps rm (snd (qdma_dev_decrement_active_queue idx func t rm))"
proof (cases "qdma_get_dev_entry idx func rm")
  case None
  then show ?thesis by (simp add: qdma_dev_decrement_active_queue_def split: option.splits)
next
  case (Some p)
  obtain i j where ij: "qdma_get_dev_entry idx func rm = Some (i, j)" using Some by (cases p) simp
  note pos = dev_entry_pos[OF ij]
  let ?g = "\<lambda>d. case active_of t d of None \<Rightarrow> d | Some c \<Rightarrow> if c \<noteq> 0 then set_active t (c - 1) d else d"
  have "dev_ok B E (?g d)" if "dev_ok B E d" for B E d
    using that active_le_total[OF that] by (auto intro: set_active_ok dec_le split: option.splits)
  moreover have "dev_q (?g d) = dev_q d" for d by (simp split: option.splits)
  ultimately have "keeps rm (upd_master i (\<lambda>m. upd_dev j ?g (m\<lparr>active_qcnt := active_qcnt m - 1\<rparr>)) rm)"
    by (intro keeps_dev_counters[OF pos(1,2)])
  then show ?thesis using ij pos(4) by (simp add: qdma_dev_decrement_active_queue_def Let_def)
qed

lemma keeps_master_destroy: "keeps rm (qdma_master_resource_destroy idx rm)"
  by (auto simp: qdma_master_resource_destroy_def keeps_def rm_ok_def rm_full_def
      dest: in_set_takeD in_set_dropD split: option.splits)

lemma keeps_master_create:
  assumes "0 \<le> sint q_base" "sint q_base + uint q_total < 2147483648" "q_total \<noteq> 0"
  shows "keeps rm (snd (snd (qdma_master_resource_create bus_start bus_end q_base q_total rm)))"
proof -
  let ?m = "\<lparr>dma_device_index = rm_index rm, pci_bus_start = bus_start, pci_bus_end = bus_end,
    res_total_q = q_total, res_qbase = q_base, dev_list = [],
    free_list = [\<lparr>qbase = q_base, total_q = q_total\<rparr>], active_qcnt = 0\<rparr>"
  have "master_ok ?m" "master_full ?m"
    using assms by (simp_all add: master_ok_def master_full_def in_range_def owners_def tidy_def holds_def lo_def hi_def)
  then show ?thesis
    by (cases "callocs rm" rule: qdma_calloc.cases; cases "snd (qdma_calloc (callocs rm))" rule: qdma_calloc.cases)
      (auto simp: qdma_master_resource_create_def keeps_def rm_ok_def rm_full_def Let_def if_distrib[of snd]
        split: option.splits if_splits)
qed

subsection \<open>Sequences of operations\<close>

datatype rm_cmd =
    Master_Create u32 u32 s32 u32
  | Master_Destroy u32
  | Dev_Create u32 u16
  | Dev_Destroy u32 u16
  | Dev_Update u32 u16 u32 s32
  | Active_Inc u32 u16 qdma_dev_q_type
  | Active_Dec u32 u16 qdma_dev_q_type

fun rm_step :: "rm_cmd \<Rightarrow> qdma_rm \<Rightarrow> qdma_rm" where
  "rm_step (Master_Create s e b t) rm = snd (snd (qdma_master_resource_create s e b t rm))"
| "rm_step (Master_Destroy i) rm = qdma_master_resource_destroy i rm"
| "rm_step (Dev_Create i f) rm = snd (qdma_dev_entry_create i f rm)"
| "rm_step (Dev_Destroy i f) rm = qdma_dev_entry_destroy i f rm"
| "rm_step (Dev_Update i f n b) rm = snd (snd (qdma_dev_update i f n b rm))"
| "rm_step (Active_Inc i f t) rm = snd (qdma_dev_increment_active_queue i f t rm)"
| "rm_step (Active_Dec i f t) rm = snd (qdma_dev_decrement_active_queue i f t rm)"

text \<open>
  The caller's side: a device is registered with a non-empty range of queue numbers below
  \<open>2\<^sup>3\<^sup>1\<close>, and the end of a requested range is a 32-bit number.
\<close>

fun rm_valid :: "rm_cmd \<Rightarrow> bool" where
  "rm_valid (Master_Create s e b t) \<longleftrightarrow> 0 \<le> sint b \<and> sint b + uint t < 2147483648 \<and> t \<noteq> 0"
| "rm_valid (Dev_Update i f n b) \<longleftrightarrow> req_ok n b"
| "rm_valid _ \<longleftrightarrow> True"

lemma rm_step_keeps: "rm_valid c \<Longrightarrow> keeps rm (rm_step c rm)"
  by (cases c) (simp_all add: keeps_master_create keeps_master_destroy keeps_entry_create
      keeps_entry_destroy keeps_dev_update keeps_increment keeps_decrement)

definition rm_exec :: "rm_cmd \<Rightarrow> qdma_rm \<Rightarrow> qdma_rm res" where
  "rm_exec c rm = Inr (rm_step c rm)"

interpretation rm_any: safe_machine rm_exec rm_valid rm_ok
  by unfold_locales (use rm_step_keeps in \<open>auto simp: rm_exec_def keeps_def\<close>)

interpretation rm_no_failure: safe_machine rm_exec rm_valid rm_full
  by unfold_locales (use rm_step_keeps in \<open>auto simp: rm_exec_def keeps_def\<close>)

lemma foldM_exec: "foldM rm_exec cs rm = Inr (fold rm_step cs rm)"
  by (induction cs arbitrary: rm) (simp_all add: rm_exec_def)

definition rm_init :: "bool list \<Rightarrow> qdma_rm" where
  "rm_init mem = \<lparr>master_resource_list = [], rm_index = 0, callocs = mem\<rparr>"

lemma run_rm_ok: "\<forall>c \<in> set cs. rm_valid c \<Longrightarrow> rm_ok (fold rm_step cs (rm_init mem))"
  using rm_any.run_ok[of "rm_init mem" cs] by (simp add: foldM_exec rm_ok_def rm_init_def)

lemma run_rm_full: "\<forall>c \<in> set cs. rm_valid c \<Longrightarrow> rm_full (fold rm_step cs (rm_init []))"
  using rm_no_failure.run_ok[of "rm_init []" cs] by (simp add: foldM_exec rm_full_def rm_ok_def rm_init_def)

text \<open>Two entries that both hold a queue are one entry.\<close>

lemma cover_two: "i < length es \<Longrightarrow> j < length es \<Longrightarrow> i \<noteq> j \<Longrightarrow> holds (es ! i) q + holds (es ! j) q \<le> cover es q"
proof (induction es arbitrary: i j)
  case (Cons e es)
  have h: "holds (es ! k) q \<le> cover es q" if "k < length es" for k using that by (intro holds_le_cover) simp
  show ?case
    using Cons.prems Cons.IH[of "i - 1" "j - 1"] h[of "i - 1"] h[of "j - 1"] by (cases i; cases j) simp_all
qed simp

lemma owner_unique:
  assumes "\<forall>q. cover es q \<le> 1" "i < length es" "j < length es" "holds (es ! i) q = 1" "holds (es ! j) q = 1"
  shows "i = j"
proof (rule ccontr)
  assume "i \<noteq> j"
  then have "holds (es ! i) q + holds (es ! j) q \<le> cover es q" using assms(2,3) by (rule cover_two[rotated 2])
  also have "\<dots> \<le> 1" using assms(1) by simp
  finally show False using assms(4,5) by simp
qed

lemma never_shared:
  assumes "rm_ok rm" "m \<in> set (master_resource_list rm)" "j < length (dev_list m)" "holds (dev_q (dev_list m ! j)) q = 1"
  shows "base_of m \<le> q \<and> q < end_of m" "cover (free_list m) q = 0"
    "k < length (dev_list m) \<Longrightarrow> holds (dev_q (dev_list m ! k)) q = 1 \<Longrightarrow> k = j"
proof -
  have m: "master_ok m" using assms(1,2) by (simp add: rm_ok_def)
  have d: "dev_ok (base_of m) (end_of m) (dev_list m ! j)" using m assms(3) by (simp add: master_ok_def)
  have "total_q (dev_q (dev_list m ! j)) \<noteq> 0" using assms(4) by auto
  then have "in_range (base_of m) (end_of m) (dev_q (dev_list m ! j))" using d by (simp add: dev_ok_def)
  then show "base_of m \<le> q \<and> q < end_of m" using assms(4) by (auto simp: holds_def in_range_def split: if_splits)
  show "cover (free_list m) q = 0" using dev_free_disjoint[OF m assms(3), of q] assms(4) by simp
  have "cover (map dev_q (dev_list m)) p \<le> 1" for p
    using m by (auto simp: master_ok_def owners_def intro: order_trans[OF le_add2])
  then show "k = j" if "k < length (dev_list m)" "holds (dev_q (dev_list m ! k)) q = 1"
    using owner_unique[of "map dev_q (dev_list m)" k j q] that assms(3,4) by simp
qed

text \<open>The whole range of a device is free again once nobody holds a queue.\<close>

lemma sep_whole:
  assumes s: "sep free" and r: "\<forall>n \<in> set free. in_range (sint b) (sint b + uint t) n" and t: "t \<noteq> 0"
    and c: "\<And>q. sint b \<le> q \<Longrightarrow> q < sint b + uint t \<Longrightarrow> cover free q = 1"
  shows "free = [\<lparr>qbase = b, total_q = t\<rparr>]"
proof -
  have "0 < uint t" using t uint_ge_0[of t] by (simp add: le_less flip: uint_0_iff)
  then obtain n where n: "n \<in> set free" "lo n \<le> sint b" "sint b + uint t \<le> hi n"
    using run_in_one_entry[OF s, of "sint b" "sint b + uint t"] c by auto
  have whole: "lo n = sint b" "hi n = sint b + uint t" using n r by (auto simp: in_range_def)
  have qb: "qbase n = b" using whole(1) unfolding lo_def by (rule signed_word_eqI)
  have "uint (total_q n) = uint t" using whole by (simp add: hi_def lo_def)
  then have "total_q n = t" by (simp add: word_uint_eq_iff)
  then have n_eq: "n = \<lparr>qbase = b, total_q = t\<rparr>" using qb by (cases n) simp
  have "m = n" if mf: "m \<in> set free" for m
  proof -
    obtain i k where ik: "i < length free" "free ! i = n" "k < length free" "free ! k = m"
      using n(1) mf by (auto simp: in_set_conv_nth)
    have m: "sint b \<le> lo m" "hi m \<le> sint b + uint t" "lo m < hi m"
      using r s mf by (auto simp: in_range_def sep_def total_pos)
    have "\<not> i < k" "\<not> k < i"
      using s ik m whole unfolding sep_def sorted_wrt_iff_nth_less gap_def by force+
    then show ?thesis using ik by simp
  qed
  then have set: "set free \<subseteq> {n}" by blast
  have "distinct free"
    using s unfolding sep_def distinct_conv_nth sorted_wrt_iff_nth_less gap_def
    by (metis linorder_neqE_nat order_less_asym total_pos nth_mem)
  then show ?thesis using set n(1) n_eq by (cases free rule: remdups_adj.cases) auto
qed

lemma release_merges:
  assumes rm: "rm_full rm" and e: "qdma_get_dev_entry idx func rm = Some (i, j)"
    and mine: "total_q (dev_q (dev_list (master_resource_list rm ! i) ! j)) \<noteq> 0"
    and others: "\<forall>k < length (dev_list (master_resource_list rm ! i)). k \<noteq> j \<longrightarrow>
      total_q (dev_q (dev_list (master_resource_list rm ! i) ! k)) = 0"
  shows "free_list (master_resource_list (qdma_dev_entry_destroy idx func rm) ! i) =
    [\<lparr>qbase = res_qbase (master_resource_list rm ! i), total_q = res_total_q (master_resource_list rm ! i)\<rparr>]"
proof -
  note pos = dev_entry_pos[OF e]
  let ?m = "master_resource_list rm ! i"
  let ?d = "dev_list ?m ! j"
  have m: "master_ok ?m" "master_full ?m" and mem: "callocs rm = []"
    using rm pos(1) by (simp_all add: rm_full_def rm_ok_def)
  obtain e' free mem' where s: "qdma_submit_to_free_list (dev_q ?d) (free_list ?m) [] = (e', free, mem')"
    by (cases "qdma_submit_to_free_list (dev_q ?d) (free_list ?m) []")
  have in_r: "\<forall>n \<in> set (free_list ?m). in_range (base_of ?m) (end_of ?m) n"
    "total_q (dev_q ?d) \<noteq> 0 \<longrightarrow> in_range (base_of ?m) (end_of ?m) (dev_q ?d)"
    using m(1) pos(2) by (auto simp: master_ok_def dev_ok_def)
  note mv = submit_moved[OF s in_r]
  have t: "tidy (free_list ?m)" using m(2) by (simp add: master_full_def)
  have sep: "sep free" using submit_sep(2)[OF s t in_r] dev_free_disjoint[OF m(1) pos(2)] mine by simp
  have rest: "cover (map dev_q (take j (dev_list ?m) @ drop (Suc j) (dev_list ?m))) q = 0" for q
    unfolding cover_def using others
    by (auto simp: sum_list_eq_0_iff in_set_conv_nth intro!: holds_empty) 
  have c: "cover free q = 1" if "base_of ?m \<le> q" "q < end_of ?m" for q
  proof -
    have "cover free q = cover (owners ?m) q"
      using master_deleted(2)[OF m(1) pos(2) mv(1), of q] mv(2) rest[of q] by (simp add: owners_def)
    then show ?thesis using m(2) that by (simp add: master_full_def)
  qed
  have "res_total_q ?m \<noteq> 0"
  proof
    assume "res_total_q ?m = 0"
    then show False using in_r(2) mine by (simp add: in_range_def total_pos)
  qed
  then have "free = [\<lparr>qbase = res_qbase ?m, total_q = res_total_q ?m\<rparr>]"
    using mv(1) c by (intro sep_whole[OF sep]) (simp_all add: moved_def)
  then show ?thesis using e s mem pos(1) by (simp add: qdma_dev_entry_destroy_def upd_master_def Let_def)
qed

text \<open>A request of a function that holds queues and uses none of them.\<close>

definition idle_holder :: "qdma_dev_entry \<Rightarrow> bool" where
  "idle_holder d \<longleftrightarrow> active_h2c_qcnt d = 0 \<and> active_c2h_qcnt d = 0 \<and> active_cmpt_qcnt d = 0 \<and> total_q (dev_q d) \<noteq> 0"

definition update_granted :: "qdma_dev_entry \<Rightarrow> qdma_resource_entry list \<Rightarrow> u32 \<Rightarrow> s32 \<Rightarrow> int \<times> s32 \<Rightarrow> qdma_dev_entry \<Rightarrow> bool" where
  "update_granted d free qmax base = (\<lambda>(rv, base') d'.
     (rv = QDMA_SUCCESS \<longleftrightarrow> (\<exists>a. run_free (dev_q d) free a qmax)) \<and>
     (rv = QDMA_SUCCESS \<longrightarrow> total_q (dev_q d') = qmax \<and> qbase (dev_q d') = base' \<and>
        (0 \<le> sint base \<and> run_free (dev_q d) free (sint base) qmax \<longrightarrow> base' = base)) \<and>
     (rv \<noteq> QDMA_SUCCESS \<longrightarrow> rv = - QDMA_ERR_RM_NO_QUEUES_LEFT \<and> d' = d))"

lemma update_exact:
  assumes rm: "rm_full rm" and e: "qdma_get_dev_entry idx func rm = Some (i, j)"
    and d: "idle_holder (dev_list (master_resource_list rm ! i) ! j)" and q: "req_ok qmax base" "qmax \<noteq> 0"
    and u: "qdma_dev_update idx func qmax base rm = (rv, base', rm')"
  shows "update_granted (dev_list (master_resource_list rm ! i) ! j) (free_list (master_resource_list rm ! i)) qmax base
    (rv, base') (dev_list (master_resource_list rm' ! i) ! j)"
proof -
  note pos = dev_entry_pos[OF e]
  let ?m = "master_resource_list rm ! i"
  let ?d = "dev_list ?m ! j"
  have m: "master_ok ?m" "master_full ?m" and mem: "callocs rm = []"
    using rm pos(1) by (simp_all add: rm_full_def rm_ok_def)
  obtain rv1 e1 free1 mem1 where r: "qdma_request_q_resource (dev_q ?d) qmax base (free_list ?m) [] = (rv1, e1, free1, mem1)"
    by (cases "qdma_request_q_resource (dev_q ?d) qmax base (free_list ?m) []")
  have idle: "\<not> (active_h2c_qcnt ?d \<noteq> 0 \<or> active_c2h_qcnt ?d \<noteq> 0 \<or> active_cmpt_qcnt ?d \<noteq> 0)" "total_q (dev_q ?d) \<noteq> 0"
    using d by (simp_all add: idle_holder_def)
  have in_r: "\<forall>n \<in> set (free_list ?m). in_range (base_of ?m) (end_of ?m) n"
    "in_range (base_of ?m) (end_of ?m) (dev_q ?d)"
    using m(1) pos(2) idle(2) by (auto simp: master_ok_def dev_ok_def)
  have t: "tidy (free_list ?m)" using m(2) by (simp add: master_full_def)
  note x = request_exact[OF r in_r _ t idle(2) q(2,1)] and dis = dev_free_disjoint[OF m(1) pos(2)]
  have rv: "rv = rv1" "base' = qbase e1" "dev_list (master_resource_list rm' ! i) ! j = ?d\<lparr>dev_q := e1\<rparr>"
    using u pos(1,2) unfolding qdma_dev_update_def pos(4) e option.case prod.case Let_def if_not_P[OF idle(1)] mem r
    by (auto simp: upd_master_def upd_dev_def)
  show ?thesis using x dis unfolding rv by (auto simp: update_granted_def)
qed

lemma queue_in_range_iff:
  assumes "rm_ok rm" and e: "qdma_get_dev_entry idx func rm = Some (i, j)"
  shows "qdma_dev_is_queue_in_range idx func qid rm = QDMA_DEV_Q_IN_RANGE \<longleftrightarrow>
    holds (dev_q (dev_list (master_resource_list rm ! i) ! j)) (uint qid) = 1"
proof -
  note pos = dev_entry_pos[OF e]
  let ?e = "dev_q (dev_list (master_resource_list rm ! i) ! j)"
  let ?m = "master_resource_list rm ! i"
  have "master_ok ?m" using assms(1) pos(1) by (simp add: rm_ok_def)
  then have r: "total_q ?e \<noteq> 0 \<Longrightarrow> in_range (base_of ?m) (end_of ?m) ?e"
    using pos(2) by (auto simp: master_ok_def dev_ok_def)
  show ?thesis
  proof (cases "total_q ?e = 0")
    case True
    then show ?thesis using e by (simp add: qdma_dev_is_queue_in_range_def Let_def)
  next
    case False
    note w = in_range_word[OF r[OF False]]
    have lt: "qid < qbase ?e + total_q ?e \<longleftrightarrow> uint qid < hi ?e" using w(2) by (simp add: word_less_def)
    have "sint qid = uint qid" if "uint qid < hi ?e" using that w(4) by (intro sint_small) simp
    then show ?thesis using e lt False
      by (auto simp: qdma_dev_is_queue_in_range_def Let_def holds_def lo_def)
  qed
qed

subsection \<open>Properties\<close>

definition demo_rm_cmds :: "rm_cmd list" where
  "demo_rm_cmds = [Master_Create 0 1 0 64, Dev_Create 0 1, Dev_Create 0 2, Dev_Update 0 1 8 0,
     Dev_Update 0 2 16 (- 1), Active_Inc 0 2 QDMA_DEV_Q_TYPE_H2C]"

definition demo_rm :: qdma_rm where
  "demo_rm = fold rm_step demo_rm_cmds (rm_init [])"

lemma demo_rm_valid: "\<forall>c \<in> set demo_rm_cmds. rm_valid c"
  by code_simp

lemma demo_rm_full: "rm_full demo_rm"
  unfolding demo_rm_def by (rule run_rm_full[OF demo_rm_valid])

lemma demo_masters: "master_resource_list demo_rm =
  [\<lparr>dma_device_index = 0, pci_bus_start = 0, pci_bus_end = 1, res_total_q = 64, res_qbase = 0,
    dev_list = [\<lparr>func_id = 1, active_h2c_qcnt = 0, active_c2h_qcnt = 0, active_cmpt_qcnt = 0, dev_q = \<lparr>qbase = 0, total_q = 8\<rparr>\<rparr>,
      \<lparr>func_id = 2, active_h2c_qcnt = 1, active_c2h_qcnt = 0, active_cmpt_qcnt = 0, dev_q = \<lparr>qbase = 8, total_q = 16\<rparr>\<rparr>],
    free_list = [\<lparr>qbase = 24, total_q = 40\<rparr>], active_qcnt = 1\<rparr>]"
  by code_simp

text \<open>
  C6: whatever sequence of valid operations the functions of all devices perform, and whichever
  allocations fail, a queue that a function owns lies in its device's range, is not free, and is owned by
  no other function of the device.  Valid (\<open>rm_valid\<close>) are devices with at least one queue and a range
  below \<open>2\<^sup>3\<^sup>1\<close>, and requests whose end does not wrap around in 32 bits; without the latter the
  property is lost (\<open>qdma_wrapping_request_shares_queues\<close>).
\<close>

theorem qdma_queues_never_shared:
  assumes "\<forall>c \<in> set cs. rm_valid c" and "m \<in> set (master_resource_list (fold rm_step cs (rm_init mem)))"
    and "j < length (dev_list m)" and "holds (dev_q (dev_list m ! j)) q = 1"
  shows "base_of m \<le> q \<and> q < end_of m \<and> cover (free_list m) q = 0 \<and>
    (\<forall>k < length (dev_list m). holds (dev_q (dev_list m ! k)) q = 1 \<longrightarrow> k = j)"
  using never_shared[OF run_rm_ok[OF assms(1)] assms(2-4)] by blast

theorem qdma_queues_never_shared_witness:
  "cover (free_list (master_resource_list demo_rm ! 0)) 3 = 0 \<and>
   holds (dev_q (dev_list (master_resource_list demo_rm ! 0) ! 0)) 3 = 1"
proof -
  have h: "holds (dev_q (dev_list (master_resource_list demo_rm ! 0) ! 0)) 3 = 1" unfolding demo_masters by code_simp
  have "cover (free_list (master_resource_list demo_rm ! 0)) 3 = 0"
    using qdma_queues_never_shared[OF demo_rm_valid, of "master_resource_list demo_rm ! 0" "[]" 0 3] h
    by (simp add: demo_rm_def[symmetric] demo_masters)
  with h show ?thesis by blast
qed

text \<open>
  C14: while no allocation fails and every operation is valid (\<open>rm_valid\<close>: no request wraps around in 32
  bits), every queue of a device is at any time either in exactly one entry of the free list or owned by
  exactly one function, and a function never has more active queues of a kind than it owns.
\<close>

theorem qdma_queues_conserved:
  assumes "\<forall>c \<in> set cs. rm_valid c" and "m \<in> set (master_resource_list (fold rm_step cs (rm_init [])))"
  shows "(\<forall>q. base_of m \<le> q \<and> q < end_of m \<longrightarrow> cover (owners m) q = 1) \<and>
    (\<forall>d \<in> set (dev_list m). \<forall>t c. active_of t d = Some c \<longrightarrow> c \<le> total_q (dev_q d))"
proof -
  have "rm_full (fold rm_step cs (rm_init []))" by (rule run_rm_full[OF assms(1)])
  then have m: "master_full m" "master_ok m" using assms(2) by (simp_all add: rm_full_def rm_ok_def)
  then show ?thesis using active_le_total unfolding master_full_def master_ok_def by blast
qed

theorem qdma_queues_conserved_witness: "cover (owners (master_resource_list demo_rm ! 0)) 24 = 1"
  using qdma_queues_conserved[OF demo_rm_valid, of "master_resource_list demo_rm ! 0"]
  by (simp add: demo_rm_def[symmetric] demo_masters)

text \<open>
  C15: in every state that is reached by valid operations without allocation failures, a request for at
  least one queue, whose end does not wrap around in 32 bits, of a function that already holds queues and
  uses none of them, is granted if and only if, with its own queues returned, a run of that many queues
  is free; it then gets exactly that many queues, at the base it asked for whenever these are free; a
  request that is refused leaves it exactly what it had.  For a function without queues the last part
  does not hold, and the first need not (\<open>qdma_refused_request_fragments\<close>).
\<close>

theorem qdma_dev_update_complete:
  assumes "\<forall>c \<in> set cs. rm_valid c" and "rm = fold rm_step cs (rm_init [])"
    and "qdma_get_dev_entry idx func rm = Some (i, j)"
    and "idle_holder (dev_list (master_resource_list rm ! i) ! j)" and "req_ok qmax base" and "qmax \<noteq> 0"
    and "qdma_dev_update idx func qmax base rm = (rv, base', rm')"
  shows "update_granted (dev_list (master_resource_list rm ! i) ! j) (free_list (master_resource_list rm ! i)) qmax base
    (rv, base') (dev_list (master_resource_list rm' ! i) ! j)"
  using update_exact[OF _ assms(3-7)] run_rm_full[OF assms(1)] assms(2) by simp

theorem qdma_dev_update_complete_witness:
  "fst (qdma_dev_update 0 1 40 24 demo_rm) = 0 \<and>
   (\<exists>a. run_free (dev_q (dev_list (master_resource_list demo_rm ! 0) ! 0)) (free_list (master_resource_list demo_rm ! 0)) a 40)"
proof -
  obtain rv base' rm' where u: "qdma_dev_update 0 1 40 24 demo_rm = (rv, base', rm')"
    by (cases "qdma_dev_update 0 1 40 24 demo_rm")
  have f: "fst (qdma_dev_update 0 1 40 24 demo_rm) = 0" by code_simp
  have p: "qdma_get_dev_entry 0 1 demo_rm = Some (0, 0)" by code_simp
  have i: "idle_holder (dev_list (master_resource_list demo_rm ! 0) ! 0)" unfolding demo_masters by code_simp
  have r: "req_ok 40 24" by code_simp
  have q: "(40 :: u32) \<noteq> 0" by simp
  show ?thesis
    using qdma_dev_update_complete[OF demo_rm_valid demo_rm_def p i r q u] f u by (auto simp: update_granted_def)
qed

text \<open>
  When the last function that holds queues is removed, the free list is again the single range the
  device was registered with, however it was divided before.
\<close>

theorem qdma_release_restores_range:
  assumes "\<forall>c \<in> set cs. rm_valid c" and "rm = fold rm_step cs (rm_init [])"
    and "qdma_get_dev_entry idx func rm = Some (i, j)"
    and "total_q (dev_q (dev_list (master_resource_list rm ! i) ! j)) \<noteq> 0"
    and "\<forall>k < length (dev_list (master_resource_list rm ! i)). k \<noteq> j \<longrightarrow>
      total_q (dev_q (dev_list (master_resource_list rm ! i) ! k)) = 0"
  shows "free_list (master_resource_list (qdma_dev_entry_destroy idx func rm) ! i) =
    [\<lparr>qbase = res_qbase (master_resource_list rm ! i), total_q = res_total_q (master_resource_list rm ! i)\<rparr>]"
  using release_merges[OF _ assms(3-5)] run_rm_full[OF assms(1)] assms(2) by simp

theorem qdma_release_restores_range_witness:
  "free_list (master_resource_list (qdma_dev_entry_destroy 0 1 (fold rm_step (demo_rm_cmds @ [Dev_Destroy 0 2]) (rm_init []))) ! 0) =
     [\<lparr>qbase = 0, total_q = 64\<rparr>]"
proof -
  let ?rm = "fold rm_step (demo_rm_cmds @ [Dev_Destroy 0 2]) (rm_init [])"
  have v: "\<forall>c \<in> set (demo_rm_cmds @ [Dev_Destroy 0 2]). rm_valid c" using demo_rm_valid by simp
  have p: "qdma_get_dev_entry 0 1 ?rm = Some (0, 0)" by code_simp
  have t: "total_q (dev_q (dev_list (master_resource_list ?rm ! 0) ! 0)) \<noteq> 0" by code_simp
  have l: "length (dev_list (master_resource_list ?rm ! 0)) = 1" by code_simp
  have w: "res_qbase (master_resource_list ?rm ! 0) = 0" "res_total_q (master_resource_list ?rm ! 0) = 64"
    by code_simp+
  show ?thesis using qdma_release_restores_range[OF v refl p t] l w by simp
qed

text \<open>
  The range test that guards every queue operation of a function answers yes for exactly the queue
  numbers the function owns.
\<close>

theorem qdma_queue_in_range_exact:
  assumes "\<forall>c \<in> set cs. rm_valid c" and "rm = fold rm_step cs (rm_init mem)"
    and "qdma_get_dev_entry idx func rm = Some (i, j)"
  shows "qdma_dev_is_queue_in_range idx func qid rm = QDMA_DEV_Q_IN_RANGE \<longleftrightarrow>
    holds (dev_q (dev_list (master_resource_list rm ! i) ! j)) (uint qid) = 1"
  using queue_in_range_iff[OF _ assms(3)] run_rm_ok[OF assms(1), of mem] assms(2) by simp

theorem qdma_queue_in_range_exact_witness:
  "qdma_dev_is_queue_in_range 0 2 23 demo_rm = QDMA_DEV_Q_IN_RANGE"
proof -
  have p: "qdma_get_dev_entry 0 2 demo_rm = Some (0, 1)" by code_simp
  have "holds (dev_q (dev_list (master_resource_list demo_rm ! 0) ! 1)) (uint (23 :: u32)) = 1"
    unfolding demo_masters by code_simp
  then show ?thesis using qdma_queue_in_range_exact[OF demo_rm_valid demo_rm_def p] by simp
qed

subsection \<open>Where the code falls short\<close>

text \<open>
  A request that is refused gives a function without queues the base of a free range; refused again
  later, it cuts the free list at that base and leaves the two parts unmerged.
\<close>

definition fragmenting_cmds :: "rm_cmd list" where
  "fragmenting_cmds = [Master_Create 0 1 0 64, Dev_Create 0 1, Dev_Create 0 2, Dev_Create 0 3, Dev_Update 0 1 8 0,
     Dev_Update 0 2 100 (- 1), Dev_Update 0 1 0 0, Dev_Update 0 2 100 (- 1)]"

text \<open>
  Two refused requests of a function without queues fragment the free list: afterwards every queue
  of the device is free, no function holds any, every request was well formed, and yet a request for
  the whole range is refused.
\<close>

theorem qdma_refused_request_fragments:
  "list_all rm_valid fragmenting_cmds \<and>
   map free_list (master_resource_list (fold rm_step fragmenting_cmds (rm_init []))) =
     [[\<lparr>qbase = 0, total_q = 8\<rparr>, \<lparr>qbase = 8, total_q = 56\<rparr>]] \<and>
   map (map (total_q \<circ> dev_q) \<circ> dev_list) (master_resource_list (fold rm_step fragmenting_cmds (rm_init []))) = [[0, 0, 0]] \<and>
   fst (qdma_dev_update 0 3 64 0 (fold rm_step fragmenting_cmds (rm_init []))) = - QDMA_ERR_RM_NO_QUEUES_LEFT"
proof (intro conjI)
  show "list_all rm_valid fragmenting_cmds" by code_simp
  show "map free_list (master_resource_list (fold rm_step fragmenting_cmds (rm_init []))) =
     [[\<lparr>qbase = 0, total_q = 8\<rparr>, \<lparr>qbase = 8, total_q = 56\<rparr>]]" by code_simp
  show "map (map (total_q \<circ> dev_q) \<circ> dev_list) (master_resource_list (fold rm_step fragmenting_cmds (rm_init []))) = [[0, 0, 0]]"
    by code_simp
  show "fst (qdma_dev_update 0 3 64 0 (fold rm_step fragmenting_cmds (rm_init []))) = - QDMA_ERR_RM_NO_QUEUES_LEFT"
    by code_simp
qed

text \<open>The end of a requested range is computed in 32 bits, so that a huge request fits any free range.\<close>

definition wrapping_cmds :: "rm_cmd list" where
  "wrapping_cmds = [Master_Create 0 1 0 64, Dev_Create 0 1, Dev_Create 0 2, Dev_Create 0 3, Dev_Update 0 1 8 0,
     Dev_Update 0 2 4294967292 8, Dev_Update 0 3 4 4]"

text \<open>
  Without the bound on the end of a requested range the ownership invariant is lost: one request
  whose end wraps around puts queues of another function on the free list, and a third function is then
  granted queues 4 to 7 while the first one owns them.
\<close>

theorem qdma_wrapping_request_shares_queues:
  "map (\<lambda>q. map (map (\<lambda>d. holds (dev_q d) q) \<circ> dev_list)
     (master_resource_list (fold rm_step wrapping_cmds (rm_init [])))) [4, 5, 6, 7] =
     [[[1, 0, 1]], [[1, 0, 1]], [[1, 0, 1]], [[1, 0, 1]]] \<and>
   fst (qdma_dev_update 0 2 4294967292 8 (fold rm_step (take 5 wrapping_cmds) (rm_init []))) = QDMA_SUCCESS"
proof -
  have "map (map dev_q \<circ> dev_list) (master_resource_list (fold rm_step wrapping_cmds (rm_init []))) =
    [[\<lparr>qbase = 0, total_q = 8\<rparr>, \<lparr>qbase = 8, total_q = 4294967292\<rparr>, \<lparr>qbase = 4, total_q = 4\<rparr>]]" by code_simp
  then have "map (map (\<lambda>d. holds (dev_q d) q) \<circ> dev_list) (master_resource_list (fold rm_step wrapping_cmds (rm_init []))) =
    [[holds \<lparr>qbase = 0, total_q = 8\<rparr> q, holds \<lparr>qbase = 8, total_q = 4294967292\<rparr> q, holds \<lparr>qbase = 4, total_q = 4\<rparr> q]]" for q
    by (auto simp: comp_def map_eq_Cons_conv)
  moreover have "fst (qdma_dev_update 0 2 4294967292 8 (fold rm_step (take 5 wrapping_cmds) (rm_init []))) = QDMA_SUCCESS"
    by code_simp
  ultimately show ?thesis by (simp add: holds_def lo_def hi_def)
qed

text \<open>The device's count of active queues is decremented even when the function had none.\<close>

lemma qdma_active_count_underflows:
  "fst (qdma_dev_decrement_active_queue 0 1 QDMA_DEV_Q_TYPE_H2C (fold rm_step (take 4 demo_rm_cmds) (rm_init []))) = QDMA_SUCCESS"
  "qdma_get_active_queue_count 0 (snd (qdma_dev_decrement_active_queue 0 1 QDMA_DEV_Q_TYPE_H2C
     (fold rm_step (take 4 demo_rm_cmds) (rm_init [])))) = 4294967295"
  by code_simp+

end
