(* ===== verification/Qdma_Mbox_Safe.thy ===== *)
theory Qdma_Mbox_Safe
  imports Qdma_Mbox_Hw Qdma_Rm
begin

text \<open>
  What a virtual function can reach through the mailbox: the hardware calls a message causes concern
  queues of the sending function only, with the one exception the code makes, and no sequence of
  messages makes two functions share a queue.
\<close>

subsection \<open>Calls and their effect\<close>

text \<open>The queue whose contexts a call changes.\<close>

fun changes :: "hw_call \<Rightarrow> u16 option" where
  "changes (Sw_Ctx _ q _ acc) = (if acc = QDMA_HW_ACCESS_READ then None else Some q)"
| "changes (Hw_Ctx _ q acc) = (if acc = QDMA_HW_ACCESS_READ then None else Some q)"
| "changes (Credit_Ctx _ q acc) = (if acc = QDMA_HW_ACCESS_READ then None else Some q)"
| "changes (Pfetch_Ctx q _ acc) = (if acc = QDMA_HW_ACCESS_READ then None else Some q)"
| "changes (Cmpt_Ctx q _ acc) = (if acc = QDMA_HW_ACCESS_READ then None else Some q)"
| "changes _ = None"

text \<open>A step that leaves the resource manager alone and makes calls of a kind only.\<close>

definition extends :: "(hw_call \<Rightarrow> bool) \<Rightarrow> mbox_pf \<Rightarrow> mbox_pf \<Rightarrow> bool" where
  "extends P s s' \<longleftrightarrow> pf_rm s' = pf_rm s \<and> (\<exists>cs. pf_calls s' = pf_calls s @ cs \<and> list_all P cs)"

named_theorems ext_intros \<open>rules for steps that make calls of a kind\<close>

lemma extends_refl [ext_intros]: "extends P s s"
  by (simp add: extends_def)

lemma extends_trans: "extends P s s1 \<Longrightarrow> extends P s1 s2 \<Longrightarrow> extends P s s2"
  by (auto simp: extends_def)

lemma extends_hw [ext_intros]: "P c \<Longrightarrow> extends P s (snd (hw env c s))"
  by (simp add: extends_def hw_def Let_def)

lemma extends_hw_eq: "hw env c s = (r, s') \<Longrightarrow> P c \<Longrightarrow> extends P s s'"
  using extends_hw[of P c s env] by simp

lemma extends_hw_do [ext_intros]: "P c \<Longrightarrow> extends P s (snd (hw_do env c s))"
  by (simp add: extends_def hw_def hw_do_def Let_def)

lemma extends_chain:
  "(\<And>a s. a \<in> set as \<Longrightarrow> extends P (f s) (f (snd (a s)))) \<Longrightarrow> extends P (f s) (f (snd (chain as s)))"
proof (induction as arbitrary: s)
  case Nil
  show ?case by (simp add: extends_refl)
next
  case (Cons a as)
  obtain rv s1 where a: "a s = (rv, s1)" by (cases "a s")
  have e: "extends P (f s) (f s1)" using Cons.prems[of a s] a by simp
  show ?case
  proof (cases "rv < 0")
    case True
    then show ?thesis using e a by simp
  next
    case False
    have "extends P (f s1) (f (snd (chain as s1)))" using Cons.prems by (intro Cons.IH) simp
    then show ?thesis using extends_trans[OF e] a False by simp
  qed
qed

lemmas extends_chain_id = extends_chain[where f = "\<lambda>s. s"]

lemma extends_idx [ext_intros]:
  assumes "\<And>t. P (Global_Csr t)"
  shows "extends P s (snd (get_ring_idx env x s))" "extends P s (snd (get_buf_idx env x s))"
    "extends P s (snd (get_cntr_idx env y s))" "extends P s (snd (get_tmr_idx env y s))"
  using assms
  by (auto simp: get_ring_idx_def get_buf_idx_def get_cntr_idx_def get_tmr_idx_def
      split: prod.splits option.splits intro: extends_hw_eq)

lemma extends_compose [ext_intros]:
  assumes "\<And>t. P (Global_Csr t)"
  shows "extends P s (snd (mbox_compose_sw_context env q sw s))"
    "extends P s (snd (mbox_compose_prefetch_context env q pf s))"
    "extends P s (snd (mbox_compose_cmpt_context env q cm s))"
proof -
  show "extends P s (snd (mbox_compose_sw_context env q sw s))"
    using extends_idx(1)[of P, OF assms, of s env "dq_ringsz (qc_descq_conf q)"]
    by (auto simp: mbox_compose_sw_context_def split: prod.splits)
  show "extends P s (snd (mbox_compose_prefetch_context env q pf s))"
    using extends_idx(2)[of P, OF assms, of s env "dq_bufsz (qc_descq_conf q)"]
    by (auto simp: mbox_compose_prefetch_context_def split: prod.splits)
  obtain rv1 i1 s1 where 1: "get_cntr_idx env (dq_cnt_thres (qc_descq_conf q)) s = ((rv1, i1), s1)"
    by (metis surj_pair)
  obtain rv2 i2 s2 where 2: "get_tmr_idx env (dq_timer_thres (qc_descq_conf q)) s1 = ((rv2, i2), s2)"
    by (metis surj_pair)
  obtain rv3 i3 s3 where 3: "get_ring_idx env (dq_cmpt_ringsz (qc_descq_conf q)) s2 = ((rv3, i3), s3)"
    by (metis surj_pair)
  have "extends P s s1" "extends P s1 s2" "extends P s2 s3"
    using extends_idx[of P, OF assms] 1 2 3 by (metis snd_conv)+
  then show "extends P s (snd (mbox_compose_cmpt_context env q cm s))"
    using 1 2 3 by (auto simp: mbox_compose_cmpt_context_def Let_def intro: extends_trans)
qed

text \<open>The calls on a queue's contexts, once the queue has passed the range check.\<close>

lemma extends_queue_do:
  assumes "range_check idx func qid s = None \<or> t = QDMA_MBOX_CMPT_CTXT_ONLY \<Longrightarrow>
    (\<And>c. changes c = Some qid \<Longrightarrow> P c)" and acc: "acc \<noteq> QDMA_HW_ACCESS_READ"
  shows "extends P s (snd (queue_contexts_do acc env idx func qid st c2h t s))"
proof (cases "t = QDMA_MBOX_CMPT_CTXT_ONLY")
  case True
  then show ?thesis using assms by (auto simp: queue_contexts_do_def intro!: extends_chain_id extends_hw_do
      simp del: chain.simps)
next
  case False
  show ?thesis
  proof (cases "range_check idx func qid s")
    case (Some rv)
    then show ?thesis using False by (simp add: queue_contexts_do_def extends_refl)
  next
    case None
    have p: "P c" if "changes c = Some qid" for c using assms(1) None that by blast
    show ?thesis using False None acc
      unfolding queue_contexts_do_def
      by (auto intro!: extends_chain_id extends_hw_do p simp del: chain.simps split: if_splits)
  qed
qed

lemma extends_write:
  assumes P: "range_check idx (dq_func_id (qc_descq_conf q)) (qc_qid_hw q) s = None \<Longrightarrow>
      (\<And>c. changes c = Some (qc_qid_hw q) \<Longrightarrow> P c)" and csr: "\<And>t. P (Global_Csr t)"
  shows "extends P s (snd (mbox_write_queue_contexts env idx q s))"
proof (cases "range_check idx (dq_func_id (qc_descq_conf q)) (qc_qid_hw q) s")
  case (Some rv)
  then show ?thesis by (simp add: mbox_write_queue_contexts_def Let_def extends_refl)
next
  case None
  have p: "P c" if "changes c = Some (qc_qid_hw q)" for c using P None that by blast
  show ?thesis
  proof (cases "qc_cmpt_ctxt_type q = QDMA_MBOX_CMPT_CTXT_ONLY")
    case True
    obtain rv cm s1 where c: "mbox_compose_cmpt_context env q zero_cm_ctxt s = ((rv, cm), s1)" by (metis surj_pair)
    have e: "extends P s s1" using extends_compose(3)[of P, OF csr, of s env q zero_cm_ctxt] c by simp
    have "extends P s1 (snd (chain [hw_do env (Cmpt_Ctx (qc_qid_hw q) None QDMA_HW_ACCESS_CLEAR),
        hw_do env (Cmpt_Ctx (qc_qid_hw q) (Some cm) QDMA_HW_ACCESS_WRITE)] s1))"
      by (rule extends_chain_id) (auto intro!: extends_hw_do p)
    then show ?thesis using None True c e
      by (simp add: mbox_write_queue_contexts_def Let_def extends_trans[OF e] del: chain.simps)
  next
    case False
    obtain rv1 sw s1 where 1: "mbox_compose_sw_context env q zero_sw_ctxt s = ((rv1, sw), s1)" by (metis surj_pair)
    obtain rv2 pf s2 where 2: "(if qc_st q \<and> qc_c2h q then mbox_compose_prefetch_context env q zero_pf_ctxt s1
        else ((0, zero_pf_ctxt), s1)) = ((rv2, pf), s2)" by (metis surj_pair)
    obtain rv3 cm s3 where 3: "(if with_cmpt (qc_cmpt_ctxt_type q) then mbox_compose_cmpt_context env q zero_cm_ctxt s2
        else ((0, zero_cm_ctxt), s2)) = ((rv3, cm), s3)" by (metis surj_pair)
    have e1: "extends P s s1" using extends_compose(1)[of P, OF csr, of s env q zero_sw_ctxt] 1 by simp
    have e2: "extends P s1 s2" using extends_compose(2)[of P, OF csr, of s1 env q zero_pf_ctxt] 2
      by (auto simp: extends_refl split: if_splits)
    have e3: "extends P s2 s3" using extends_compose(3)[of P, OF csr, of s2 env q zero_cm_ctxt] 3
      by (auto simp: extends_refl split: if_splits)
    let ?as = "[mbox_clear_queue_contexts env idx (dq_func_id (qc_descq_conf q)) (qc_qid_hw q) (qc_st q) (qc_c2h q) (qc_cmpt_ctxt_type q),
      hw_do env (Sw_Ctx (qc_c2h q) (qc_qid_hw q) (Some sw) QDMA_HW_ACCESS_WRITE)] @
      (if qc_st q \<and> qc_c2h q then [hw_do env (Pfetch_Ctx (qc_qid_hw q) (Some pf) QDMA_HW_ACCESS_WRITE)] else []) @
      (if with_cmpt (qc_cmpt_ctxt_type q) then [hw_do env (Cmpt_Ctx (qc_qid_hw q) (Some cm) QDMA_HW_ACCESS_WRITE)] else [])"
    have e4: "extends P s3 (snd (chain ?as s3))"
    proof (rule extends_chain_id)
      fix a t assume "a \<in> set ?as"
      moreover have "extends P t (snd (mbox_clear_queue_contexts env idx (dq_func_id (qc_descq_conf q)) (qc_qid_hw q)
          (qc_st q) (qc_c2h q) (qc_cmpt_ctxt_type q) t))"
        unfolding mbox_clear_queue_contexts_def by (rule extends_queue_do) (simp_all add: p)
      ultimately show "extends P t (snd (a t))" by (auto intro!: extends_hw_do p split: if_splits)
    qed
    note e13 = extends_trans[OF e1 e2] and e14 = extends_trans[OF extends_trans[OF e1 e2] e3]
    have "snd (mbox_write_queue_contexts env idx q s) \<in> {s1, s2, s3, snd (chain ?as s3)}"
      unfolding mbox_write_queue_contexts_def Let_def None option.case if_not_P[OF False] 1 prod.case 2 3
      by (simp del: chain.simps)
    then show ?thesis using e1 e13 e14 extends_trans[OF e14 e4] by (elim insertE emptyE) (simp_all only:)
  qed
qed

lemma extends_read:
  assumes "\<And>c. changes c = None \<Longrightarrow> P c"
  shows "extends P s (snd (snd (mbox_read_queue_contexts env func qid st c2h t (ctxt, s))))"
proof -
  have "extends P (snd z) (snd (snd (hw_get env c put z)))" if "changes c = None" for c put z
    using assms[OF that] extends_hw[of P c "snd z" env]
    by (auto simp: hw_get_def split: prod.splits)
  then have "extends P (snd (ctxt, s)) (snd (snd (mbox_read_queue_contexts env func qid st c2h t (ctxt, s))))"
    unfolding mbox_read_queue_contexts_def
    by (intro extends_chain[where f = snd]) (auto split: if_splits)
  then show ?thesis by simp
qed

subsection \<open>Interrupt rings\<close>

definition rings_ok :: "qdma_mbox_txrx \<Rightarrow> qdma_mbox_txrx \<Rightarrow> bool" where
  "rings_ok rcv resp \<longleftrightarrow> (let n = unat (num_rings (intr_ctxt rcv)) in n \<le> length (ring_index_list (intr_ctxt rcv)) \<and>
     n \<le> length (ictxt (intr_ctxt rcv)) \<and> n \<le> length (ictxt (intr_ctxt resp)))"

definition ring_inv :: "(hw_call \<Rightarrow> bool) \<Rightarrow> qdma_mbox_txrx \<Rightarrow> mbox_pf \<Rightarrow> mbox_out \<Rightarrow> bool" where
  "ring_inv P resp s = (\<lambda>(rv, resp', s'). extends P s s' \<and> length (ictxt (intr_ctxt resp')) = length (ictxt (intr_ctxt resp)))"

lemma set_status_intr [simp]: "intr_ctxt (set_status rv resp) = intr_ctxt resp"
  by (simp add: set_status_def)

lemma ring_bodies:
  assumes P: "\<And>c. changes c = None \<Longrightarrow> P c" and i: "i < length (ring_index_list ic)" and inv: "ring_inv P resp s out"
  shows "\<exists>out'. intr_do acc env ic i out = Inr out' \<and> ring_inv P resp s out'"
    "i < length (ictxt ic) \<Longrightarrow> \<exists>out'. intr_write env ic i out = Inr out' \<and> ring_inv P resp s out'"
    "i < length (ictxt (intr_ctxt resp)) \<Longrightarrow> \<exists>out'. intr_read env ic i out = Inr out' \<and> ring_inv P resp s out'"
proof -
  obtain rv resp1 s1 where out: "out = (rv, resp1, s1)" by (cases out)
  have e: "extends P s s1" and l: "length (ictxt (intr_ctxt resp1)) = length (ictxt (intr_ctxt resp))"
    using inv by (simp_all add: ring_inv_def out)
  have h: "extends P s s2" if "hw_do env (Intr_Ctx r x acc) s1 = (rv', s2)" "extends P s s1" for r x acc rv' s1 s2
    using extends_trans[OF that(2) extends_hw_do[of P "Intr_Ctx r x acc" s1 env]] that(1) P by simp
  show "\<exists>out'. intr_do acc env ic i out = Inr out' \<and> ring_inv P resp s out'"
    using i e l by (auto simp: intr_do_def out ring_inv_def Let_def split: prod.splits dest: h)
  show "\<exists>out'. intr_write env ic i out = Inr out' \<and> ring_inv P resp s out'" if "i < length (ictxt ic)"
    using i e l that by (auto simp: intr_write_def out ring_inv_def Let_def split: prod.splits dest!: h)
  show "\<exists>out'. intr_read env ic i out = Inr out' \<and> ring_inv P resp s out'" if "i < length (ictxt (intr_ctxt resp))"
  proof -
    obtain r s2 where r: "hw env (Intr_Ctx (ucast (ring_index_list ic ! i)) None QDMA_HW_ACCESS_READ) s1 = (r, s2)"
      by (metis surj_pair)
    have "extends P s s2" using extends_trans[OF e extends_hw_eq[OF r]] P by simp
    then show ?thesis using i that l r by (simp add: intr_read_def out ring_inv_def Let_def)
  qed
qed

lemma op_intr_ok:
  assumes "\<And>i out. i < unat (num_rings (intr_ctxt rcv)) \<Longrightarrow> ring_inv P resp s out \<Longrightarrow>
    \<exists>out'. body (intr_ctxt rcv) i out = Inr out' \<and> ring_inv P resp s out'"
  shows "\<exists>rv resp' s'. op_intr body rcv resp s = Inr (rv, resp', s') \<and> extends P s s'"
proof -
  have "\<exists>out. foldM (body (intr_ctxt rcv)) [0..<unat (num_rings (intr_ctxt rcv))] (0, resp, s) = Inr out \<and> ring_inv P resp s out"
    using foldM_upt_inv[where I = "\<lambda>_. ring_inv P resp s" and s = "(0, resp, s)"] assms
    by (simp add: ring_inv_def extends_refl)
  then show ?thesis by (auto simp: op_intr_def ring_inv_def)
qed

subsection \<open>Messages\<close>

text \<open>What the sender of a message may change, and the two requests that escape the check.\<close>

definition own_queue :: "u8 \<Rightarrow> u16 \<Rightarrow> qdma_rm \<Rightarrow> hw_call \<Rightarrow> bool" where
  "own_queue idx src rm c \<longleftrightarrow> (\<forall>q. changes c = Some q \<longrightarrow>
     qdma_dev_is_queue_in_range (ucast idx) src (ucast q) rm = QDMA_DEV_Q_IN_RANGE)"

definition unchecked_cmpt :: "qdma_mbox_txrx \<Rightarrow> bool" where
  "unchecked_cmpt rcv \<longleftrightarrow> (hdr_op (hdr rcv) = MBOX_OP_QCTXT_CLR \<or> hdr_op (hdr rcv) = MBOX_OP_QCTXT_INV) \<and>
     qc_cmpt_ctxt_type (qctxt rcv) = QDMA_MBOX_CMPT_CTXT_ONLY"

definition makes_calls :: "(hw_call \<Rightarrow> bool) \<Rightarrow> mbox_pf \<Rightarrow> mbox_pf \<Rightarrow> bool" where
  "makes_calls P s s' \<longleftrightarrow> (\<exists>cs. pf_calls s' = pf_calls s @ cs \<and> list_all P cs)"

definition out_ok :: "(hw_call \<Rightarrow> bool) \<Rightarrow> mbox_pf \<Rightarrow> mbox_pf \<Rightarrow> bool" where
  "out_ok P s s' \<longleftrightarrow> keeps (pf_rm s) (pf_rm s') \<and> makes_calls P s s'"

lemma out_ok_extends: "extends P s s' \<Longrightarrow> out_ok P s s'"
  by (auto simp: out_ok_def extends_def makes_calls_def)

lemma range_check_None:
  "range_check idx func qid s = None \<Longrightarrow>
   qdma_dev_is_queue_in_range (ucast idx) func (ucast qid) (pf_rm s) = QDMA_DEV_Q_IN_RANGE"
  by (auto simp: range_check_def Let_def split: prod.splits if_splits)

lemma own_queue_free [simp]: "changes c = None \<Longrightarrow> own_queue idx src rm c"
  by (simp add: own_queue_def)

lemma keeps_op_rm:
  "keeps (pf_rm s) (pf_rm (snd (snd (op_bye env idx rcv resp s))))"
  "keeps (pf_rm s) (pf_rm (snd (snd (op_hello env idx rcv resp s))))"
  "req_ok (fm_qmax (fmap rcv)) (fm_qbase (fmap rcv)) \<Longrightarrow> keeps (pf_rm s) (pf_rm (snd (snd (op_qreq env idx rcv resp s))))"
  "keeps (pf_rm s) (pf_rm (snd (snd (op_qnotify qdma_dev_increment_active_queue idx rcv resp s))))"
  "keeps (pf_rm s) (pf_rm (snd (snd (op_qnotify qdma_dev_decrement_active_queue idx rcv resp s))))"
  "keeps (pf_rm s) (pf_rm (snd (snd (op_active_cnt idx rcv resp s))))"
proof -
  show "keeps (pf_rm s) (pf_rm (snd (snd (op_bye env idx rcv resp s))))"
    by (simp add: op_bye_def hw_do_def hw_def Let_def keeps_entry_destroy)
  show "keeps (pf_rm s) (pf_rm (snd (snd (op_hello env idx rcv resp s))))"
    using keeps_entry_create[of "pf_rm s" "ucast idx" "hdr_src (hdr rcv)"]
    by (auto simp: op_hello_def hw_do_def hw_def Let_def split: prod.splits if_splits)
  show "keeps (pf_rm s) (pf_rm (snd (snd (op_qreq env idx rcv resp s))))"
    if "req_ok (fm_qmax (fmap rcv)) (fm_qbase (fmap rcv))"
    using keeps_dev_update[OF that, of "pf_rm s" "ucast idx" "hdr_src (hdr rcv)"]
    by (auto simp: op_qreq_def hw_do_def hw_def Let_def split: prod.splits if_splits)
  show "keeps (pf_rm s) (pf_rm (snd (snd (op_qnotify qdma_dev_increment_active_queue idx rcv resp s))))"
    using keeps_increment[of "pf_rm s" "ucast idx" "hdr_src (hdr rcv)" "qn_q_type (q_notify rcv)"]
    by (auto simp: op_qnotify_def Let_def split: prod.splits)
  show "keeps (pf_rm s) (pf_rm (snd (snd (op_qnotify qdma_dev_decrement_active_queue idx rcv resp s))))"
    using keeps_decrement[of "pf_rm s" "ucast idx" "hdr_src (hdr rcv)" "qn_q_type (q_notify rcv)"]
    by (auto simp: op_qnotify_def Let_def split: prod.splits)
  show "keeps (pf_rm s) (pf_rm (snd (snd (op_active_cnt idx rcv resp s))))" by (simp add: op_active_cnt_def Let_def)
qed

lemma calls_op_rm:
  assumes P: "\<And>c. changes c = None \<Longrightarrow> P c"
  shows "makes_calls P s (snd (snd (op_bye env idx rcv resp s)))"
    "makes_calls P s (snd (snd (op_hello env idx rcv resp s)))"
    "makes_calls P s (snd (snd (op_qreq env idx rcv resp s)))"
    "makes_calls P s (snd (snd (op_qnotify count idx rcv resp s)))"
    "makes_calls P s (snd (snd (op_active_cnt idx rcv resp s)))"
  using P by (auto simp: makes_calls_def op_bye_def op_hello_def op_qreq_def op_qnotify_def op_active_cnt_def
      hw_do_def hw_def Let_def split: prod.splits if_splits)

lemma extends_csr:
  assumes P: "\<And>c. changes c = None \<Longrightarrow> P c"
  shows "extends P s (snd (snd (op_csr env resp s)))"
proof -
  obtain r1 s1 where 1: "hw env (Global_Csr QDMA_CSR_RING_SZ) s = (r1, s1)" by (metis surj_pair)
  obtain r2 s2 where 2: "hw env Get_Attributes s1 = (r2, s2)" by (metis surj_pair)
  obtain rv3 b s3 where 3: "(if at_st_en (rd_attr r2)
     then let (r, s) = hw env (Global_Csr QDMA_CSR_BUF_SZ) s2 in (hw_rv r, csr_array r, s)
     else (hw_rv r1, replicate 16 0, s2)) = (rv3, b, s3)" by (rule prod_cases3)
  obtain rv4 t s4 where 4: "(if at_st_en (rd_attr r2) \<or> at_mm_cmpt_en (rd_attr r2)
     then let (r, s) = hw env (Global_Csr QDMA_CSR_TIMER_CNT) s3 in (hw_rv r, csr_array r, s)
     else (rv3, replicate 16 0, s3)) = (rv4, t, s4)" by (rule prod_cases3)
  obtain rv5 c s5 where 5: "(if at_st_en (rd_attr r2) \<or> at_mm_cmpt_en (rd_attr r2)
     then let (r, s) = hw env (Global_Csr QDMA_CSR_CNT_TH) s4 in (hw_rv r, csr_array r, s)
     else (rv4, replicate 16 0, s4)) = (rv5, c, s5)" by (rule prod_cases3)
  have e: "extends P s s1" "extends P s1 s2" using extends_hw_eq[OF 1] extends_hw_eq[OF 2] P by simp_all
  have "extends P s2 s3" "extends P s3 s4" "extends P s4 s5"
    using 3 4 5 P by (auto simp: extends_refl Let_def split: if_splits prod.splits intro: extends_hw_eq)
  note ee = e(1) extends_trans[OF e] extends_trans[OF extends_trans[OF e] this(1)]
    extends_trans[OF extends_trans[OF extends_trans[OF e] this(1)] this(2)]
    extends_trans[OF extends_trans[OF extends_trans[OF extends_trans[OF e] this(1)] this(2)] this(3)]
  have "snd (snd (op_csr env resp s)) \<in> {s1, s3, s4, s5}"
    unfolding op_csr_def 1 prod.case Let_def 2 3[unfolded Let_def] 4[unfolded Let_def] 5[unfolded Let_def]
    by (simp only: if_distrib[of snd] snd_conv) (simp only: insert_iff split: if_split, blast)
  then show ?thesis using ee by auto
qed

lemma extends_reg_list: "(\<And>c. changes c = None \<Longrightarrow> P c) \<Longrightarrow> extends P s (snd (snd (op_reg_list env rcv resp s)))"
  using extends_hw[of P "Read_Reg_List (group_num (reg_read_list rcv))" s env]
  by (auto simp: op_reg_list_def Let_def split: prod.splits)

definition msg_ok :: "qdma_mbox_txrx \<Rightarrow> qdma_mbox_txrx \<Rightarrow> bool" where
  "msg_ok rcv resp \<longleftrightarrow> (hdr_op (hdr rcv) = MBOX_OP_QREQ \<longrightarrow> req_ok (fm_qmax (fmap rcv)) (fm_qbase (fmap rcv))) \<and>
     rings_ok rcv resp"

definition handled :: "(hw_call \<Rightarrow> bool) \<Rightarrow> mbox_pf \<Rightarrow> (int \<times> qdma_mbox_txrx \<times> mbox_pf) res \<Rightarrow> bool" where
  "handled P s r \<longleftrightarrow> (\<exists>ret resp' s'. r = Inr (ret, resp', s') \<and> out_ok P s s')"

lemma handled_reply: "out_ok P s (snd (snd out)) \<Longrightarrow> handled P s (Inr (reply func rcv ret out))"
  by (cases out) (simp add: handled_def reply_def)

lemma handled_intr:
  assumes "\<exists>rv resp' s'. m = Inr (rv, resp', s') \<and> extends P s s'"
  shows "handled P s (rbind m (\<lambda>out. Inr (reply func rcv ret out)))"
  using assms by (auto simp: handled_def reply_def out_ok_extends)

lemma handled_same: "handled P s (Inr (ret, resp, s))"
  by (simp add: handled_def out_ok_extends extends_refl)

lemma handler_ok:
  fixes rcv s idx
  defines "P \<equiv> \<lambda>c. unchecked_cmpt rcv \<or> own_queue idx (hdr_src (hdr rcv)) (pf_rm s) c"
  assumes "msg_ok rcv resp"
  shows "handled P s (qdma_mbox_pf_rcv_msg_handler env idx func rcv resp s)"
proof -
  let ?op = "hdr_op (hdr rcv)"
  have free: "\<And>c. changes c = None \<Longrightarrow> P c" by (simp add: P_def)
  have rings: "i < length (ring_index_list (intr_ctxt rcv))" "i < length (ictxt (intr_ctxt rcv))"
    "i < length (ictxt (intr_ctxt resp))" if "i < unat (num_rings (intr_ctxt rcv))" for i
    using assms(2) that by (auto simp: msg_ok_def rings_ok_def Let_def)
  have rm: "out_ok P s (snd (snd (op_bye env idx rcv resp s)))" "out_ok P s (snd (snd (op_hello env idx rcv resp s)))"
    "?op = 4 \<Longrightarrow> out_ok P s (snd (snd (op_qreq env idx rcv resp s)))"
    "out_ok P s (snd (snd (op_qnotify qdma_dev_increment_active_queue idx rcv resp s)))"
    "out_ok P s (snd (snd (op_qnotify qdma_dev_decrement_active_queue idx rcv resp s)))"
    "out_ok P s (snd (snd (op_active_cnt idx rcv resp s)))"
    using keeps_op_rm calls_op_rm[of P, OF free] assms(2) by (simp_all add: out_ok_def msg_ok_def)
  have i: "\<exists>rv resp' s'. op_intr (intr_do acc env) rcv resp s = Inr (rv, resp', s') \<and> extends P s s'" for acc
    using ring_bodies(1)[of P, OF free] rings by (intro op_intr_ok) blast
  have iw: "\<exists>rv resp' s'. op_intr (intr_write env) rcv resp s = Inr (rv, resp', s') \<and> extends P s s'"
    using ring_bodies(2)[of P, OF free] rings by (intro op_intr_ok) blast
  have ir: "\<exists>rv resp' s'. op_intr (intr_read env) rcv resp s = Inr (rv, resp', s') \<and> extends P s s'"
    using ring_bodies(3)[of P, OF free] rings by (intro op_intr_ok) blast
  have own: "P c" if "range_check idx (hdr_src (hdr rcv)) qid s = None" "changes c = Some qid" for c qid
    using range_check_None[OF that(1)] that(2) by (simp add: P_def own_queue_def)
  have q: "extends P s (snd (snd (op_qctxt (queue_contexts_do acc) env idx rcv resp s)))"
    if "acc \<noteq> QDMA_HW_ACCESS_READ" "?op = 10 \<or> ?op = 11" for acc
  proof -
    have "extends P s (snd (queue_contexts_do acc env idx (hdr_src (hdr rcv)) (qc_qid_hw (qctxt rcv)) (qc_st (qctxt rcv))
        (qc_c2h (qctxt rcv)) (qc_cmpt_ctxt_type (qctxt rcv)) s))"
      using own that by (intro extends_queue_do) (auto simp: P_def unchecked_cmpt_def)
    then show ?thesis by (auto simp: op_qctxt_def Let_def split: prod.splits)
  qed
  have w: "extends P s (snd (snd (op_qctxt_write env idx rcv resp s)))"
    using extends_write[of idx "(qctxt rcv)\<lparr>qc_descq_conf := (qc_descq_conf (qctxt rcv))\<lparr>dq_func_id := hdr_src (hdr rcv)\<rparr>\<rparr>" s P env]
      own free by (auto simp: op_qctxt_write_def Let_def split: prod.splits)
  have r: "extends P s (snd (snd (op_qctxt_read env rcv resp s)))"
    using extends_read[of P, OF free] by (auto simp: op_qctxt_read_def Let_def split: prod.splits) (metis snd_conv)
  have f: "handled P s (case op_fmap env rcv s of (rv, s') \<Rightarrow>
      if rv < 0 then Inr (rv, resp, s') else Inr (reply func rcv 0 (rv, resp, s')))"
  proof -
    have "extends P s (snd (op_fmap env rcv s))" unfolding op_fmap_def by (rule extends_hw_do) (simp add: free)
    then show ?thesis by (cases "op_fmap env rcv s") (simp add: handled_def reply_def out_ok_extends)
  qed
  note h = rm(1,2,4-6)[THEN handled_reply] handled_reply[OF rm(3)] i[THEN handled_intr] iw[THEN handled_intr]
    ir[THEN handled_intr] q[THEN out_ok_extends, THEN handled_reply] w[THEN out_ok_extends, THEN handled_reply]
    r[THEN out_ok_extends, THEN handled_reply] f handled_same
    extends_csr[of P, OF free, THEN out_ok_extends, THEN handled_reply]
    extends_reg_list[of P, OF free, THEN out_ok_extends, THEN handled_reply]
  show ?thesis
    unfolding qdma_mbox_pf_rcv_msg_handler_def Let_def mbox_clear_queue_contexts_def mbox_invalidate_queue_contexts_def
    by (simp add: h split del: prod.split)
qed

end
