(* ===== verification/Qdma_Mbox_Props.thy ===== *)
theory Qdma_Mbox_Props
  imports Qdma_Mbox_Safe
begin

text \<open>
  The properties of the mailbox protocol: isolation of the virtual functions, the request of queues
  from the message to the answer, the programming of a queue, and the transfer of messages.
\<close>

subsection \<open>Sequences of messages\<close>

type_synonym mbox_cmd = "hw_env \<times> u8 \<times> u16 \<times> qdma_mbox_txrx \<times> qdma_mbox_txrx"

definition mbox_exec :: "mbox_cmd \<Rightarrow> mbox_pf \<Rightarrow> mbox_pf res" where
  "mbox_exec = (\<lambda>(env, idx, func, rcv, resp) s.
     rbind (qdma_mbox_pf_rcv_msg_handler env idx func rcv resp s) (\<lambda>(_, _, s'). Inr s'))"

definition mbox_valid :: "mbox_cmd \<Rightarrow> bool" where
  "mbox_valid = (\<lambda>(env, idx, func, rcv, resp). msg_ok rcv resp)"

interpretation mailbox: safe_machine mbox_exec mbox_valid "\<lambda>s :: mbox_pf. rm_ok (pf_rm s)"
proof
  fix s :: mbox_pf and c :: mbox_cmd assume inv: "rm_ok (pf_rm s)" and v: "mbox_valid c"
  obtain env idx func rcv resp where c: "c = (env, idx, func, rcv, resp)" by (cases c)
  have "\<exists>ret resp' s'. qdma_mbox_pf_rcv_msg_handler env idx func rcv resp s = Inr (ret, resp', s') \<and> keeps (pf_rm s) (pf_rm s')"
    using handler_ok[of rcv resp idx s env func] v by (auto simp: handled_def out_ok_def mbox_valid_def c)
  then show "\<exists>s'. mbox_exec c s = Inr s' \<and> rm_ok (pf_rm s')"
    using inv by (auto simp: mbox_exec_def c keeps_def)
qed

subsection \<open>Lookups after an update\<close>

lemma find_pos_update: "P y = P (xs ! i) \<Longrightarrow> find_pos P (xs[i := y]) = find_pos P xs"
  by (induction xs arbitrary: i) (auto split: nat.splits)

lemma dev_entry_update:
  assumes e: "qdma_get_dev_entry idx func rm = Some (i, j)"
    and f: "dma_device_index (f (master_resource_list rm ! i)) = dma_device_index (master_resource_list rm ! i)"
    "dev_list (f (master_resource_list rm ! i)) = (dev_list (master_resource_list rm ! i))[j := d]" "func_id d = func"
  shows "qdma_get_dev_entry idx func (upd_master i f (rm\<lparr>callocs := mem\<rparr>)) = Some (i, j)"
proof -
  note pos = dev_entry_pos[OF e]
  have m: "qdma_get_master_resource_entry idx (upd_master i f (rm\<lparr>callocs := mem\<rparr>)) = Some i"
    using pos(4) f(1) by (simp add: qdma_get_master_resource_entry_def upd_master_def find_pos_update)
  have "find_pos (\<lambda>d. func_id d = func) (dev_list (master_resource_list rm ! i)) = Some j"
    using e pos(4) by (simp add: qdma_get_dev_entry_def)
  then have "find_pos (\<lambda>d. func_id d = func) ((dev_list (master_resource_list rm ! i))[j := d]) = Some j"
    using f(3) pos(3) by (simp add: find_pos_update)
  then show ?thesis using m pos(1) f(2) by (simp add: qdma_get_dev_entry_def upd_master_def)
qed

text \<open>A granted request gives the function the number of queues it asked for.\<close>

lemma request_total:
  assumes r: "qdma_request_q_resource e qmax base free mem = (0, e', free', mem')"
    and free: "\<forall>n \<in> set free. in_range B E n" "total_q e \<noteq> 0 \<longrightarrow> in_range B E e" and q: "req_ok qmax base" "qmax \<noteq> 0"
  shows "total_q e' = qmax"
proof -
  obtain e1 free1 mem1 where s: "qdma_submit_to_free_list e free mem = (e1, free1, mem1)"
    by (cases "qdma_submit_to_free_list e free mem")
  have f1: "\<forall>n \<in> set free1. in_range B E n" using submit_moved(1)[OF s free] by (simp add: moved_def)
  obtain r2 free2 mem2 where g: "qdma_get_resource_node qmax base free1 mem1 = (r2, free2, mem2)"
    by (cases "qdma_get_resource_node qmax base free1 mem1")
  show ?thesis using node_moved[OF q(1) f1, of mem1] r s g q(2)
    by (cases r2) (auto simp: qdma_request_q_resource_def split: option.splits prod.splits)
qed

lemma update_total:
  assumes rm: "rm_ok rm" and q: "req_ok qmax base" "qmax \<noteq> 0" and u: "qdma_dev_update idx func qmax base rm = (0, b, rm')"
  shows "\<exists>i j. qdma_get_dev_entry idx func rm' = Some (i, j) \<and>
    dev_q (dev_list (master_resource_list rm' ! i) ! j) = \<lparr>qbase = b, total_q = qmax\<rparr>"
proof -
  obtain i j where e: "qdma_get_dev_entry idx func rm = Some (i, j)"
    using u by (auto simp: qdma_dev_update_def split: option.splits)
  note pos = dev_entry_pos[OF e]
  let ?m = "master_resource_list rm ! i"
  let ?d = "dev_list ?m ! j"
  have idle: "\<not> (active_h2c_qcnt ?d \<noteq> 0 \<or> active_c2h_qcnt ?d \<noteq> 0 \<or> active_cmpt_qcnt ?d \<noteq> 0)"
  proof
    assume "active_h2c_qcnt ?d \<noteq> 0 \<or> active_c2h_qcnt ?d \<noteq> 0 \<or> active_cmpt_qcnt ?d \<noteq> 0"
    from u[unfolded qdma_dev_update_def pos(4) e option.case prod.case Let_def if_P[OF this]] show False by simp
  qed
  obtain rv1 e1 free1 mem1 where r: "qdma_request_q_resource (dev_q ?d) qmax base (free_list ?m) (callocs rm) = (rv1, e1, free1, mem1)"
    by (cases "qdma_request_q_resource (dev_q ?d) qmax base (free_list ?m) (callocs rm)")
  have m: "master_ok ?m" using rm pos(1) by (simp add: rm_ok_def)
  have in_r: "\<forall>n \<in> set (free_list ?m). in_range (base_of ?m) (end_of ?m) n"
    "total_q (dev_q ?d) \<noteq> 0 \<longrightarrow> in_range (base_of ?m) (end_of ?m) (dev_q ?d)"
    using m pos(2) by (auto simp: master_ok_def dev_ok_def)
  let ?f = "\<lambda>m. upd_dev j (\<lambda>d. d\<lparr>dev_q := e1\<rparr>) (m\<lparr>free_list := free1\<rparr>)"
  have res: "rv1 = 0" "b = qbase e1" "rm' = upd_master i ?f (rm\<lparr>callocs := mem1\<rparr>)"
    using u unfolding qdma_dev_update_def pos(4) e option.case prod.case Let_def if_not_P[OF idle] r by simp_all
  have "total_q e1 = qmax" using request_total[OF r[unfolded res(1)] in_r q] .
  then have "e1 = \<lparr>qbase = b, total_q = qmax\<rparr>" using res(2) by (cases e1) simp
  moreover have "qdma_get_dev_entry idx func rm' = Some (i, j)"
    unfolding res(3) using pos(3) by (intro dev_entry_update[OF e, where d = "?d\<lparr>dev_q := e1\<rparr>"]) (simp_all add: upd_dev_def)
  ultimately show ?thesis using pos(1,2) by (simp add: res(3) upd_master_def upd_dev_def)
qed

subsection \<open>Programming a queue\<close>

lemma chain_hw_success:
  "chain (map (hw_do env) cs) s = (rv, s') \<Longrightarrow> 0 \<le> rv \<Longrightarrow> s' = s\<lparr>pf_calls := pf_calls s @ cs\<rparr>"
proof (induction cs arbitrary: s)
  case (Cons c cs)
  let ?s = "s\<lparr>pf_calls := pf_calls s @ [c]\<rparr>"
  have "hw_do env c s = (hw_rv (env (pf_calls s @ [c])), ?s)" by (simp add: hw_do_def hw_def Let_def)
  then have "chain (map (hw_do env) cs) ?s = (rv, s')" using Cons.prems by (auto split: if_splits)
  from Cons.IH[OF this Cons.prems(2)] show ?case by simp
qed simp

lemma chain_Cons_success:
  "chain (a # as) s = (rv, s') \<Longrightarrow> 0 \<le> rv \<Longrightarrow> \<exists>rv1 s1. a s = (rv1, s1) \<and> 0 \<le> rv1 \<and> chain as s1 = (rv, s')"
  by (auto split: prod.splits if_splits)

text \<open>The calls on the contexts of a queue.\<close>

definition context_calls :: "qdma_hw_access_type \<Rightarrow> u16 \<Rightarrow> bool \<Rightarrow> bool \<Rightarrow> mbox_cmpt_ctxt_type \<Rightarrow> hw_call list" where
  "context_calls acc qid st c2h t =
     [Sw_Ctx c2h qid None acc, Hw_Ctx c2h qid acc, Credit_Ctx c2h qid acc] @
     (if st \<and> c2h then [Pfetch_Ctx qid None acc] else []) @ (if with_cmpt t then [Cmpt_Ctx qid None acc] else [])"

lemma queue_do_success:
  assumes "queue_contexts_do acc env idx func qid st c2h t s = (rv, s')" "0 \<le> rv" "t \<noteq> QDMA_MBOX_CMPT_CTXT_ONLY"
    "range_check idx func qid s = None"
  shows "s' = s\<lparr>pf_calls := pf_calls s @ context_calls acc qid st c2h t\<rparr>"
proof -
  have "chain (map (hw_do env) (context_calls acc qid st c2h t)) s = (rv, s')"
    using assms(1) unfolding queue_contexts_do_def if_not_P[OF assms(3)] assms(4) option.case context_calls_def
    by (simp only: map_append list.map if_distrib[of "map (hw_do env)"])
  then show ?thesis using assms(2) by (rule chain_hw_success)
qed

definition config_calls :: "mbox_msg_qctxt \<Rightarrow> u16 \<Rightarrow> u16 \<Rightarrow> u8 \<Rightarrow> u8 \<Rightarrow> u16 \<Rightarrow> hw_call list" where
  "config_calls q rng buf cntr tmr crng =
     [Sw_Ctx (qc_c2h q) (qc_qid_hw q) (Some (fill_sw_context q rng zero_sw_ctxt)) QDMA_HW_ACCESS_WRITE] @
     (if qc_st q \<and> qc_c2h q
      then [Pfetch_Ctx (qc_qid_hw q) (Some (fill_prefetch_context q buf zero_pf_ctxt)) QDMA_HW_ACCESS_WRITE] else []) @
     (if with_cmpt (qc_cmpt_ctxt_type q)
      then [Cmpt_Ctx (qc_qid_hw q) (Some (fill_cmpt_context q cntr tmr crng zero_cm_ctxt)) QDMA_HW_ACCESS_WRITE] else [])"

text \<open>The indices of a successful composition, and the reads it made.\<close>

abbreviation csr_only :: "mbox_pf \<Rightarrow> mbox_pf \<Rightarrow> bool" where
  "csr_only \<equiv> extends (\<lambda>c. \<exists>t. c = Global_Csr t)"

text \<open>The ring size index found, when the read of the ring sizes succeeds.\<close>

definition ring_found :: "hw_env \<Rightarrow> mbox_pf \<Rightarrow> u16 \<Rightarrow> u16 \<Rightarrow> bool" where
  "ring_found env s sz idx \<longleftrightarrow>
     (let r = env (pf_calls s @ [Global_Csr QDMA_CSR_RING_SZ]) in
      hw_rv r = 0 \<longrightarrow> (\<exists>k < QDMA_GLOBAL_CSR_ARRAY_SZ. idx = of_nat k \<and> csr_array r ! k = ucast sz + 1))"

lemma ring_idx_found:
  assumes "get_ring_idx env sz s = ((rv, i), s')" "0 \<le> rv"
  shows "ring_found env s sz i"
proof -
  have "csr_array r ! k = ucast sz + 1 \<and> k < QDMA_GLOBAL_CSR_ARRAY_SZ"
    if "find_pos (\<lambda>v. ucast sz = v - 1) (csr_array r) = Some k" for r k
    using find_pos_Some[OF that] by (auto simp: csr_array_def min_def split: if_splits)
  then show ?thesis
    using assms by (auto simp: get_ring_idx_def ring_found_def hw_def Let_def split: option.splits if_splits)
qed

lemma compose_success:
  "mbox_compose_sw_context env q sw s = ((rv, c), s') \<Longrightarrow> 0 \<le> rv \<Longrightarrow>
     \<exists>i. c = fill_sw_context q i sw \<and> ring_found env s (dq_ringsz (qc_descq_conf q)) i"
  "mbox_compose_prefetch_context env q pf s = ((rv, c1), s') \<Longrightarrow> 0 \<le> rv \<Longrightarrow> \<exists>i. c1 = fill_prefetch_context q i pf"
  "mbox_compose_cmpt_context env q cm s = ((rv, c2), s') \<Longrightarrow> 0 \<le> rv \<Longrightarrow> \<exists>i j k. c2 = fill_cmpt_context q i j k cm"
  by (auto simp: mbox_compose_sw_context_def mbox_compose_prefetch_context_def mbox_compose_cmpt_context_def Let_def
      split: prod.splits if_splits dest: ring_idx_found)

lemma write_success:
  assumes w: "mbox_write_queue_contexts env idx q s = (rv, s')" "0 \<le> rv"
    and t: "qc_cmpt_ctxt_type q \<noteq> QDMA_MBOX_CMPT_CTXT_ONLY"
    and rc: "range_check idx (dq_func_id (qc_descq_conf q)) (qc_qid_hw q) s = None"
  shows "\<exists>reads rng buf cntr tmr crng. list_all (\<lambda>c. \<exists>t. c = Global_Csr t) reads \<and>
    pf_calls s' = pf_calls s @ reads @
      context_calls QDMA_HW_ACCESS_CLEAR (qc_qid_hw q) (qc_st q) (qc_c2h q) (qc_cmpt_ctxt_type q) @
      config_calls q rng buf cntr tmr crng \<and>
    ring_found env s (dq_ringsz (qc_descq_conf q)) rng \<and>
    0 \<le> hw_rv (env (pf_calls s @ reads @
      context_calls QDMA_HW_ACCESS_CLEAR (qc_qid_hw q) (qc_st q) (qc_c2h q) (qc_cmpt_ctxt_type q) @
      [Sw_Ctx (qc_c2h q) (qc_qid_hw q) (Some (fill_sw_context q rng zero_sw_ctxt)) QDMA_HW_ACCESS_WRITE]))"
proof -
  let ?P = "\<lambda>c. \<exists>t. c = Global_Csr t"
  obtain rv1 sw s1 where 1: "mbox_compose_sw_context env q zero_sw_ctxt s = ((rv1, sw), s1)" by (metis surj_pair)
  obtain rv2 pf s2 where 2: "(if qc_st q \<and> qc_c2h q then mbox_compose_prefetch_context env q zero_pf_ctxt s1
      else ((0, zero_pf_ctxt), s1)) = ((rv2, pf), s2)" by (metis surj_pair)
  obtain rv3 cm s3 where 3: "(if with_cmpt (qc_cmpt_ctxt_type q) then mbox_compose_cmpt_context env q zero_cm_ctxt s2
      else ((0, zero_cm_ctxt), s2)) = ((rv3, cm), s3)" by (metis surj_pair)
  let ?ws = "[Sw_Ctx (qc_c2h q) (qc_qid_hw q) (Some sw) QDMA_HW_ACCESS_WRITE] @
      (if qc_st q \<and> qc_c2h q then [Pfetch_Ctx (qc_qid_hw q) (Some pf) QDMA_HW_ACCESS_WRITE] else []) @
      (if with_cmpt (qc_cmpt_ctxt_type q) then [Cmpt_Ctx (qc_qid_hw q) (Some cm) QDMA_HW_ACCESS_WRITE] else [])"
  let ?clr = "mbox_clear_queue_contexts env idx (dq_func_id (qc_descq_conf q)) (qc_qid_hw q) (qc_st q) (qc_c2h q) (qc_cmpt_ctxt_type q)"
  have w': "0 \<le> rv1" "0 \<le> rv2" "0 \<le> rv3" "chain (?clr # map (hw_do env) ?ws) s3 = (rv, s')"
    using w unfolding mbox_write_queue_contexts_def Let_def rc option.case if_not_P[OF t] 1 prod.case 2 3
    by (auto simp del: chain.simps split: if_splits)
  have e: "extends ?P s s1" "extends ?P s1 s2" "extends ?P s2 s3"
    using extends_compose[of ?P s env q] extends_compose[of ?P s1 env q] extends_compose[of ?P s2 env q] 1 2 3
    by (auto simp: extends_refl split: if_splits) (metis snd_conv)+
  then have "extends ?P s s3" using extends_trans by blast
  then obtain reads where r: "pf_rm s3 = pf_rm s" "pf_calls s3 = pf_calls s @ reads" "list_all ?P reads"
    by (auto simp: extends_def)
  obtain rv4 s4 where c: "?clr s3 = (rv4, s4)" "0 \<le> rv4" "chain (map (hw_do env) ?ws) s4 = (rv, s')"
    using chain_Cons_success[OF w'(4) w(2)] by blast
  have "range_check idx (dq_func_id (qc_descq_conf q)) (qc_qid_hw q) s3 = None" using rc unfolding range_check_def r(1) .
  then have s4: "s4 = s3\<lparr>pf_calls := pf_calls s3 @ context_calls QDMA_HW_ACCESS_CLEAR (qc_qid_hw q) (qc_st q) (qc_c2h q) (qc_cmpt_ctxt_type q)\<rparr>"
    using queue_do_success[OF c(1)[unfolded mbox_clear_queue_contexts_def] c(2) t] by blast
  have s': "s' = s4\<lparr>pf_calls := pf_calls s4 @ ?ws\<rparr>" by (rule chain_hw_success[OF c(3) w(2)])
  have sw_ok: "0 \<le> hw_rv (env (pf_calls s4 @ [Sw_Ctx (qc_c2h q) (qc_qid_hw q) (Some sw) QDMA_HW_ACCESS_WRITE]))"
    using c(3) w(2) by (auto simp: hw_do_def hw_def Let_def split: if_splits)
  obtain rng buf cntr tmr crng where sw: "sw = fill_sw_context q rng zero_sw_ctxt" "ring_found env s (dq_ringsz (qc_descq_conf q)) rng"
    and "qc_st q \<and> qc_c2h q \<longrightarrow> pf = fill_prefetch_context q buf zero_pf_ctxt"
    "with_cmpt (qc_cmpt_ctxt_type q) \<longrightarrow> cm = fill_cmpt_context q cntr tmr crng zero_cm_ctxt"
    using compose_success(1)[OF 1 w'(1)] compose_success(2)[of env q zero_pf_ctxt s1 rv2 pf s2]
      compose_success(3)[of env q zero_cm_ctxt s2 rv3 cm s3] 2 3 w'(2,3) by (auto split: if_splits)
  then have "?ws = config_calls q rng buf cntr tmr crng" by (simp add: config_calls_def)
  then show ?thesis using s' s4 r(2,3) sw sw_ok
    by (intro exI[of _ reads] exI[of _ rng] exI[of _ buf] exI[of _ cntr] exI[of _ tmr] exI[of _ crng]) simp
qed

subsection \<open>Asking for queues\<close>

lemma qinfo_entry:
  "qdma_get_dev_entry idx func rm = Some (i, j) \<Longrightarrow>
   qdma_dev_qinfo_get idx func rm = (0, Some (qbase (dev_q (dev_list (master_resource_list rm ! i) ! j)),
     total_q (dev_q (dev_list (master_resource_list rm ! i) ! j))))"
  using dev_entry_pos(4)[of idx func rm i j] by (simp add: qdma_dev_qinfo_get_def Let_def)

lemma qinfo_rv: "fst (qdma_dev_qinfo_get idx func rm) \<le> 0"
  by (auto simp: qdma_dev_qinfo_get_def Let_def split: option.splits)

lemma update_rv: "qdma_dev_update idx func qmax base rm = (rv, b, rm') \<Longrightarrow> rv \<le> 0"
  by (auto simp: qdma_dev_update_def qdma_request_q_resource_def Let_def split: option.splits if_splits prod.splits)

lemma status_small: "- 128 \<le> x \<Longrightarrow> x < 128 \<Longrightarrow> sint (word_of_int x :: u8) = x"
  by (simp add: sint_sbintrunc' signed_take_bit_int_eq_self)

lemma qreq_ok:
  assumes rm: "rm_ok (pf_rm s)" and n: "qmax \<noteq> 0" and m: "hdr_op (hdr m) = 4" "fmap m = \<lparr>fm_qbase = base, fm_qmax = ucast (qmax :: u16)\<rparr>"
    and h: "qdma_mbox_pf_rcv_msg_handler env idx pf m resp s = Inr (ret, resp', s')"
  shows "hdr_op (hdr resp') = 132 \<and> hdr_dst (hdr resp') = hdr_src (hdr m) \<and>
    (if qdma_mbox_vf_response_status resp' = 0
     then \<exists>i j b. qdma_get_dev_entry (ucast idx) (hdr_src (hdr m)) (pf_rm s') = Some (i, j) \<and>
       dev_q (dev_list (master_resource_list (pf_rm s') ! i) ! j) = \<lparr>qbase = b, total_q = ucast qmax\<rparr> \<and>
       qdma_mbox_vf_qinfo_get resp' = (0, b, qmax)
     else qdma_mbox_vf_response_status resp' = - QDMA_ERR_MBOX_NUM_QUEUES)"
proof -
  obtain rv resp1 s1 where o: "op_qreq env idx m resp s = (rv, resp1, s1)" by (rule prod_cases3)
  have h': "resp' = exit_func pf m rv resp1" "s' = s1"
    using h m(1) o by (simp_all add: qdma_mbox_pf_rcv_msg_handler_def reply_def Let_def)
  obtain urv b rm' where u: "qdma_dev_update (ucast idx) (hdr_src (hdr m)) (ucast qmax) base (pf_rm s) = (urv, b, rm')"
    by (rule prod_cases3)
  have ux: "uint (ucast qmax :: u32) = uint qmax" by (simp add: uint_up_ucast is_up)
  have cc: "ucast (ucast qmax :: u32) = qmax" by (rule ucast_up_ucast_id) (simp add: is_up)
  have q: "req_ok (ucast qmax) base" using sint_lt[of base] uint_lt2p[of qmax] by (simp add: req_ok_def ux)
  have q0: "(ucast qmax :: u32) \<noteq> 0" using n ux by (auto simp: word_uint_eq_iff)
  show ?thesis
  proof (cases "urv = 0")
    case False
    then have "urv < 0" using update_rv[OF u] by simp
    then have "rv = - QDMA_ERR_MBOX_NUM_QUEUES" using o u m(2) by (simp add: op_qreq_def)
    then show ?thesis by (simp add: h' exit_func_def qdma_mbox_vf_response_status_def status_small m(1))
  next
    case True
    obtain i j where e: "qdma_get_dev_entry (ucast idx) (hdr_src (hdr m)) rm' = Some (i, j)"
      "dev_q (dev_list (master_resource_list rm' ! i) ! j) = \<lparr>qbase = b, total_q = ucast qmax\<rparr>"
      using update_total[OF rm q q0 u[unfolded True]] by blast
    have "rv = 0" "resp1 = resp\<lparr>fmap := \<lparr>fm_qbase = b, fm_qmax = ucast qmax\<rparr>\<rparr>" "pf_rm s1 = rm'"
      using o u m(2) True qinfo_entry[OF e(1)] e(2) by (auto simp: op_qreq_def hw_do_def hw_def Let_def)
    then show ?thesis using e
      by (simp add: h' exit_func_def qdma_mbox_vf_response_status_def qdma_mbox_vf_qinfo_get_def m(1) cc)
  qed
qed

subsection \<open>Transfer of a message\<close>

lemma set_raw_src_src: "raw \<noteq> [] \<Longrightarrow> raw_src (set_raw_src f raw) = f"
  unfolding raw_src_def set_raw_src_def by (auto intro!: bit_word_eqI simp: bit_simps simp del: drop_bit_or)

lemma set_raw_src_rest:
  "raw \<noteq> [] \<Longrightarrow> raw_op (set_raw_src f raw) = raw_op raw" "raw_dst (set_raw_src f raw) = raw_dst raw"
  "length (set_raw_src f raw) = length raw" "tl (set_raw_src f raw) = tl raw"
proof -
  show "raw_op (set_raw_src f raw) = raw_op raw" if "raw \<noteq> []"
    unfolding raw_op_def set_raw_src_def using that by (auto intro!: bit_word_eqI simp: bit_simps)
  show "raw_dst (set_raw_src f raw) = raw_dst raw" by (simp add: raw_dst_def set_raw_src_def)
  show "length (set_raw_src f raw) = length raw" by (simp add: set_raw_src_def)
  show "tl (set_raw_src f raw) = tl raw" by (cases raw) (simp_all add: set_raw_src_def)
qed

text \<open>The words read are the answers to the reads, in the order of the registers.\<close>

lemma read_words_fold:
  "fold (\<lambda>i (ws, t). let (w, t) = qdma_reg_read env (a i) t in (ws @ [w], t)) is (ws, t) =
   (ws @ map (\<lambda>n. env (t @ map (\<lambda>i. Reg_Read (a i)) (take (Suc n) is))) [0..<length is], t @ map (\<lambda>i. Reg_Read (a i)) is)"
proof (induction "is" arbitrary: ws t)
  case (Cons i "is")
  have "[0..<length (i # is)] = 0 # map Suc [0..<length is]" by (simp add: map_Suc_upt upt_conv_Cons del: upt_Suc)
  then show ?case
    using Cons.IH[unfolded qdma_reg_read_def Let_def prod.case] by (simp add: qdma_reg_read_def comp_def del: upt_Suc)
qed simp

definition in_reads :: "u32 \<Rightarrow> nat \<Rightarrow> reg_op list" where
  "in_reads base n = map (\<lambda>i. Reg_Read (base + (MBOX_IN_MSG_BASE + of_nat i * 4))) [0..<n]"

lemma read_words_eq:
  "read_words env base t = (map (\<lambda>n. env (t @ in_reads base (Suc n))) [0..<MBOX_MSG_REG_MAX], t @ in_reads base MBOX_MSG_REG_MAX)"
proof -
  have "take (Suc n) [0..<32] = [0..<Suc n]" if "n < 32" for n using that by (simp add: take_upt del: upt_Suc)
  then show ?thesis unfolding read_words_def in_reads_def read_words_fold by (simp del: upt_Suc cong: map_cong)
qed

lemma read_words_length: "length (fst (read_words env base t)) = MBOX_MSG_REG_MAX"
  by (simp add: read_words_eq)

text \<open>What a sequence of register accesses leaves in a register.\<close>

fun last_written :: "reg_op list \<Rightarrow> u32 \<Rightarrow> u32 \<Rightarrow> u32" where
  "last_written [] a v = v"
| "last_written (Reg_Read _ # t) a v = last_written t a v"
| "last_written (Reg_Write b w # t) a v = last_written t a (if a = b then w else v)"

lemma last_written_append: "last_written (t @ u) a v = last_written u a (last_written t a v)"
  by (induction t a v rule: last_written.induct) auto

lemma slot_eq: "n < 32 \<Longrightarrow> m < 32 \<Longrightarrow> (of_nat n * 4 = (of_nat m * 4 :: u32)) = (n = m)"
proof -
  assume nm: "n < 32" "m < 32"
  have "unat (of_nat k * 4 :: u32) = k * 4" if "k < 32" for k
    using that by (simp add: unat_word_ariths unat_of_nat take_bit_nat_def)
  then show ?thesis using nm by (metis mult_cancel2 zero_neq_numeral)
qed

lemma write_words_fold: "fold (\<lambda>i. qdma_reg_write (a i) (w i)) is t = t @ map (\<lambda>i. Reg_Write (a i) (w i)) is"
  by (induction "is" arbitrary: t) (simp_all add: qdma_reg_write_def)

lemma last_written_slots:
  "n < 32 \<Longrightarrow> k \<le> 32 \<Longrightarrow> last_written (map (\<lambda>i. Reg_Write (x + of_nat i * 4) (w i)) [0..<k]) (x + of_nat n * 4) v = (if n < k then w n else v)"
proof (induction k)
  case (Suc k)
  then show ?case by (auto simp: last_written_append slot_eq less_Suc_eq)
qed simp

lemma send_words:
  assumes "qdma_mbox_send env h True raw t = (0, t')" "n < 32"
  shows "last_written t' (mbox_base_vf h + (MBOX_OUT_MSG_BASE + of_nat n * 4)) v = raw ! n"
proof -
  let ?b = "mbox_base_vf h"
  have t': "t' = t @ Reg_Read ?b # map (\<lambda>i. Reg_Write ((?b + 3072) + of_nat i * 4) (raw ! i)) [0..<32] @ [Reg_Write (?b + 4) 1]"
    using assms(1) by (simp add: qdma_mbox_send_def get_mbox_offset_def qdma_reg_read_def write_words_fold Let_def
        qdma_reg_write_def add.assoc split: if_splits del: upt_Suc)
  have "unat (3072 + of_nat n * 4 :: u32) = 3072 + n * 4"
    using assms(2) by (simp add: unat_word_ariths unat_of_nat take_bit_nat_def)
  then have "unat (3072 + of_nat n * 4 :: u32) \<noteq> unat (4 :: u32)" by simp
  then have "(3072 + of_nat n * 4 :: u32) \<noteq> 4" by metis
  then have ne: "?b + 3072 + of_nat n * 4 \<noteq> ?b + 4" by (simp add: add.assoc)
  show ?thesis using last_written_slots[OF assms(2), of 32 "?b + 3072" "\<lambda>i. raw ! i"] ne assms(2)
    by (simp add: t' last_written_append add.assoc del: upt_Suc)
qed

lemma from_id_ucast: "ucast (ucast (drop_bit 4 v AND 0xFFF :: u32) :: u16) = (drop_bit 4 v AND 0xFFF :: u32)"
proof -
  have m: "(0xFFF :: u32) = mask 12" by (simp add: mask_eq_exp_minus_1)
  show ?thesis unfolding m by (rule bit_word_eqI) (auto simp: bit_simps)
qed

text \<open>
  A message with another source: the upper half of its first word is the number of the function, and its
  opcode and status, in the lower half, and all its other words are as they were.
\<close>

definition with_source :: "u32 list \<Rightarrow> u32 \<Rightarrow> u32 list" where
  "with_source raw f = ((raw ! 0 AND 0xFFFF) OR push_bit 16 f) # tl raw"

lemma low_half: "(w AND 0xFFFF) = take_bit 16 (w :: u32)"
  by (simp add: take_bit_eq_mask mask_eq_exp_minus_1)

lemma set_raw_src_with:
  assumes "raw \<noteq> []"
  shows "set_raw_src f raw = with_source raw (ucast f)"
  using assms by (cases raw) (simp_all add: set_raw_src_def with_source_def low_half)

lemma with_source_same:
  assumes "raw \<noteq> []"
  shows "with_source raw (ucast (raw_src raw)) = raw"
proof -
  have "take_bit 16 w OR push_bit 16 (ucast (ucast (drop_bit 16 w) :: u16)) = (w :: u32)" for w
    by (rule bit_word_eqI) (auto simp: bit_simps)
  then show ?thesis using assms by (cases raw) (simp_all add: with_source_def raw_src_def low_half)
qed

lemma with_source_rest: "tl (with_source raw f) = tl raw" "raw_op (with_source raw f) = raw_op raw"
proof -
  show "tl (with_source raw f) = tl raw" by (simp add: with_source_def)
  show "raw_op (with_source raw f) = raw_op raw"
    unfolding raw_op_def with_source_def low_half by (auto intro!: bit_word_eqI simp: bit_simps)
qed

lemma rcv_result:
  assumes "qdma_mbox_rcv env h False buf t = (0, raw', t')"
  shows "\<exists>raw u. read_words env (mbox_base_pf h) u = (raw, u @ in_reads (mbox_base_pf h) 32) \<and>
    raw' = with_source raw (drop_bit 4 (env (t @ [Reg_Read (mbox_base_pf h)])) AND 0xFFF) \<and>
    ucast (raw_src raw') = (drop_bit 4 (env (t @ [Reg_Read (mbox_base_pf h)])) AND 0xFFF :: u32)"
proof -
  let ?v = "env (t @ [Reg_Read (mbox_base_pf h)])"
  let ?from = "drop_bit 4 ?v AND 0xFFF :: u32"
  let ?u = "t @ [Reg_Read (mbox_base_pf h), Reg_Write (mbox_base_pf h + 12) ?from]"
  obtain raw where r: "read_words env (mbox_base_pf h) ?u = (raw, ?u @ in_reads (mbox_base_pf h) 32)"
    by (simp add: read_words_eq)
  have l: "length raw = 32" using read_words_length[of env "mbox_base_pf h" ?u] r by simp
  then have ne: "raw \<noteq> []" by auto
  have raw': "raw' = (if ?from \<noteq> ucast (raw_src raw) then set_raw_src (ucast ?from) raw else raw)"
    using assms r by (auto simp: qdma_mbox_rcv_def get_mbox_offset_def qdma_reg_read_def qdma_reg_write_def Let_def split: if_splits)
  have "raw' = with_source raw ?from"
    using set_raw_src_with[OF ne, of "ucast ?from"] with_source_same[OF ne] by (auto simp: raw' from_id_ucast)
  moreover have "ucast (raw_src raw') = ?from"
    using set_raw_src_src[OF ne, of "ucast ?from"] by (auto simp: raw' from_id_ucast)
  ultimately show ?thesis using r by blast
qed

lemma transfer_ok:
  assumes l: "length raw = 32" and s: "qdma_mbox_send envv h True raw tv = (0, tv')"
    and law: "\<And>n t. n < 32 \<Longrightarrow> envp (t @ [Reg_Read (mbox_base_pf h + (MBOX_IN_MSG_BASE + of_nat n * 4))]) =
      last_written tv' (mbox_base_vf h + (MBOX_OUT_MSG_BASE + of_nat n * 4)) 0"
    and r: "qdma_mbox_rcv envp h False buf tp = (0, raw', tp')"
  shows "raw' = with_source raw (drop_bit 4 (envp (tp @ [Reg_Read (mbox_base_pf h)])) AND 0xFFF) \<and>
    ucast (raw_src raw') = (drop_bit 4 (envp (tp @ [Reg_Read (mbox_base_pf h)])) AND 0xFFF :: u32)"
proof -
  obtain raw1 u where r1: "read_words envp (mbox_base_pf h) u = (raw1, u @ in_reads (mbox_base_pf h) 32)"
    "raw' = with_source raw1 (drop_bit 4 (envp (tp @ [Reg_Read (mbox_base_pf h)])) AND 0xFFF)"
    "ucast (raw_src raw') = (drop_bit 4 (envp (tp @ [Reg_Read (mbox_base_pf h)])) AND 0xFFF :: u32)"
    using rcv_result[OF r] by blast
  have "raw1 = map (\<lambda>n. envp (u @ in_reads (mbox_base_pf h) (Suc n))) [0..<32]" using r1(1) unfolding read_words_eq by simp
  also have "\<dots> = map (\<lambda>n. raw ! n) [0..<32]"
  proof (intro map_cong refl)
    fix n assume "n \<in> set [0..<32]"
    then have n: "n < 32" by simp
    show "envp (u @ in_reads (mbox_base_pf h) (Suc n)) = raw ! n"
      using law[OF n, of "u @ in_reads (mbox_base_pf h) n"] send_words[OF s n] by (simp add: in_reads_def)
  qed
  also have "\<dots> = raw" using l by (metis map_nth)
  finally show ?thesis using r1 by simp
qed

text \<open>The calls of the handler change the contexts of the sender's queues.\<close>

lemma calls_owned:
  assumes "msg_ok rcv resp" and "\<not> unchecked_cmpt rcv"
    and "qdma_mbox_pf_rcv_msg_handler env idx func rcv resp s = Inr (ret, resp', s')"
  shows "\<exists>calls. pf_calls s' = pf_calls s @ calls \<and> list_all (own_queue idx (hdr_src (hdr rcv)) (pf_rm s)) calls"
  using handler_ok[OF assms(1), of idx s env func] assms(2,3) by (auto simp: handled_def out_ok_def makes_calls_def)

lemma own_queue_holds:
  assumes ok: "rm_ok rm" and own: "own_queue idx src rm c" "changes c = Some q"
  shows "\<exists>i j. qdma_get_dev_entry (ucast idx) src rm = Some (i, j) \<and>
     holds (dev_q (dev_list (master_resource_list rm ! i) ! j)) (uint q) = 1"
proof -
  have r: "qdma_dev_is_queue_in_range (ucast idx) src (ucast q) rm = QDMA_DEV_Q_IN_RANGE"
    using own by (auto simp: own_queue_def)
  then obtain i j where e: "qdma_get_dev_entry (ucast idx) src rm = Some (i, j)"
    by (auto simp: qdma_dev_is_queue_in_range_def split: option.splits)
  have "uint (ucast q :: u32) = uint q" by (simp add: uint_up_ucast is_up)
  then show ?thesis using queue_in_range_iff[OF ok e, of "ucast q"] r e by auto
qed

subsection \<open>Properties\<close>

text \<open>
  C16: whatever a virtual function sends and whatever the hardware answers, the physical function's
  handler changes the contexts of queues that the sending function owns only; the exception is a
  request to clear or invalidate just a completion context.
\<close>

theorem mbox_isolates_functions:
  assumes "\<forall>c \<in> set cs. rm_valid c" and "pf_rm s = fold rm_step cs (rm_init mem)"
    and "msg_ok rcv resp" and "\<not> unchecked_cmpt rcv"
    and "qdma_mbox_pf_rcv_msg_handler env idx func rcv resp s = Inr (ret, resp', s')"
  shows "\<exists>calls. pf_calls s' = pf_calls s @ calls \<and> (\<forall>c \<in> set calls. \<forall>q. changes c = Some q \<longrightarrow>
    (\<exists>i j. qdma_get_dev_entry (ucast idx) (hdr_src (hdr rcv)) (pf_rm s) = Some (i, j) \<and>
       holds (dev_q (dev_list (master_resource_list (pf_rm s) ! i) ! j)) (uint q) = 1))"
proof -
  have ok: "rm_ok (pf_rm s)" unfolding assms(2) by (rule run_rm_ok[OF assms(1)])
  then show ?thesis using calls_owned[OF assms(3-5)] unfolding list_all_iff by (blast dest: own_queue_holds[OF ok])
qed

definition demo_hw :: hw_env where
  "demo_hw t = \<lparr>hw_rv = 0, rd_ctxt = zero_context, rd_intr = zero_ic_ctxt, rd_csr = map (\<lambda>i. 2 ^ i + 1) [4..<20],
     rd_attr = zero_attr, rd_regs = []\<rparr>"

definition demo_pf :: mbox_pf where
  "demo_pf = \<lparr>pf_rm = demo_rm, pf_calls = []\<rparr>"

definition demo_clear :: qdma_mbox_txrx where
  "demo_clear = the (snd (qdma_mbox_compose_vf_qctxt_clear 2 9 True True QDMA_MBOX_CMPT_WITH_ST (Some zero_msg)))"

theorem mbox_isolates_functions_witness:
  "\<exists>ret resp' s' calls. qdma_mbox_pf_rcv_msg_handler demo_hw 0 0 demo_clear zero_msg demo_pf = Inr (ret, resp', s') \<and>
     pf_calls s' = pf_calls demo_pf @ calls \<and> (\<forall>c \<in> set calls. \<forall>q. changes c = Some q \<longrightarrow>
      (\<exists>i j. qdma_get_dev_entry 0 2 demo_rm = Some (i, j) \<and>
       holds (dev_q (dev_list (master_resource_list demo_rm ! i) ! j)) (uint q) = 1))"
proof -
  have v: "msg_ok demo_clear zero_msg" "\<not> unchecked_cmpt demo_clear" "hdr_src (hdr demo_clear) = 2" by code_simp+
  have p: "pf_rm demo_pf = fold rm_step demo_rm_cmds (rm_init [])" by (simp add: demo_pf_def demo_rm_def)
  obtain ret resp' s' where h: "qdma_mbox_pf_rcv_msg_handler demo_hw 0 0 demo_clear zero_msg demo_pf = Inr (ret, resp', s')"
    using handler_ok[OF v(1), of 0 demo_pf demo_hw 0] by (auto simp: handled_def)
  have "pf_rm demo_pf = demo_rm" by (simp add: demo_pf_def)
  then show ?thesis using mbox_isolates_functions[OF demo_rm_valid p v(1,2) h] h v(3) by auto
qed

text \<open>
  C17: from any state the resource manager can be in, every sequence of messages whose requests for
  queues end within 32 bits and whose ring counts fit the message is handled without a fault, whatever
  the hardware answers, and leaves no queue with two owners.
\<close>

theorem mailbox_never_shares_queues:
  assumes "\<forall>c \<in> set cs. rm_valid c" and "pf_rm s = fold rm_step cs (rm_init mem)" and "\<forall>m \<in> set msgs. mbox_valid m"
  shows "\<exists>s'. foldM mbox_exec msgs s = Inr s' \<and> (\<forall>m \<in> set (master_resource_list (pf_rm s')). \<forall>q. cover (owners m) q \<le> 1)"
proof -
  have "rm_ok (pf_rm s)" unfolding assms(2) by (rule run_rm_ok[OF assms(1)])
  then obtain s' where "foldM mbox_exec msgs s = Inr s'" "rm_ok (pf_rm s')" using mailbox.run_ok assms(3) by blast
  then show ?thesis by (auto simp: rm_ok_def master_ok_def)
qed

definition demo_qreq :: qdma_mbox_txrx where
  "demo_qreq = the (snd (qdma_mbox_compose_vf_qreq 1 20 24 (Some zero_msg)))"

theorem mailbox_never_shares_queues_witness:
  "\<exists>s'. foldM mbox_exec [(demo_hw, 0, 0, demo_qreq, zero_msg), (demo_hw, 0, 0, demo_clear, zero_msg)] demo_pf = Inr s' \<and>
     (\<forall>m \<in> set (master_resource_list (pf_rm s')). \<forall>q. cover (owners m) q \<le> 1)"
proof -
  have v: "msg_ok demo_clear zero_msg" "msg_ok demo_qreq zero_msg" by code_simp+
  have p: "pf_rm demo_pf = fold rm_step demo_rm_cmds (rm_init [])" by (simp add: demo_pf_def demo_rm_def)
  show ?thesis
    using mailbox_never_shares_queues[OF demo_rm_valid p,
        of "[(demo_hw, 0, 0, demo_qreq, zero_msg), (demo_hw, 0, 0, demo_clear, zero_msg)]"] v
    by (simp add: mbox_valid_def)
qed

text \<open>
  C29: the request for queues from end to end.  The response to the message a virtual function composes
  matches it; if its status is success, the range the virtual function reads from it is the range it
  now owns, of exactly the size it asked for; otherwise the status is the one error for this request.
\<close>

theorem mbox_qreq_roundtrip:
  assumes "\<forall>c \<in> set cs. rm_valid c" and "pf_rm s = fold rm_step cs (rm_init mem)" and "qmax \<noteq> 0"
    and "qdma_mbox_compose_vf_qreq func qmax base (Some buf) = (rc, Some msg)"
    and "qdma_mbox_pf_rcv_msg_handler env idx pf msg resp s = Inr (ret, resp', s')"
  shows "qdma_mbox_is_msg_response msg resp' \<and> hdr_dst (hdr resp') = func \<and>
    (if qdma_mbox_vf_response_status resp' = 0
     then \<exists>i j b. qdma_get_dev_entry (ucast idx) func (pf_rm s') = Some (i, j) \<and>
       dev_q (dev_list (master_resource_list (pf_rm s') ! i) ! j) = \<lparr>qbase = b, total_q = ucast qmax\<rparr> \<and>
       qdma_mbox_vf_qinfo_get resp' = (0, b, qmax)
     else qdma_mbox_vf_response_status resp' = - QDMA_ERR_MBOX_NUM_QUEUES)"
proof -
  have ok: "rm_ok (pf_rm s)" unfolding assms(2) by (rule run_rm_ok[OF assms(1)])
  have m: "hdr_op (hdr msg) = 4" "fmap msg = \<lparr>fm_qbase = base, fm_qmax = ucast qmax\<rparr>" "hdr_src (hdr msg) = func"
    using assms(4) by (auto simp: qdma_mbox_compose_vf_qreq_def compose_def)
  note r = qreq_ok[OF ok assms(3) m(1,2) assms(5), unfolded m(3)]
  then have "qdma_mbox_is_msg_response msg resp'" using m(1) by (simp add: qdma_mbox_is_msg_response_def)
  with r show ?thesis by blast
qed

theorem mbox_qreq_roundtrip_witness:
  "\<exists>ret resp' s'. qdma_mbox_pf_rcv_msg_handler demo_hw 0 0 demo_qreq zero_msg demo_pf = Inr (ret, resp', s') \<and>
     qdma_mbox_is_msg_response demo_qreq resp' \<and> hdr_dst (hdr resp') = 1"
proof -
  have v: "msg_ok demo_qreq zero_msg" by code_simp
  have p: "pf_rm demo_pf = fold rm_step demo_rm_cmds (rm_init [])" by (simp add: demo_pf_def demo_rm_def)
  have q: "(20 :: u16) \<noteq> 0" by simp
  have c: "qdma_mbox_compose_vf_qreq 1 20 24 (Some zero_msg) = (0, Some demo_qreq)"
    by (simp add: demo_qreq_def qdma_mbox_compose_vf_qreq_def compose_def)
  obtain ret resp' s' where h: "qdma_mbox_pf_rcv_msg_handler demo_hw 0 0 demo_qreq zero_msg demo_pf = Inr (ret, resp', s')"
    using handler_ok[OF v, of 0 demo_pf demo_hw 0] by (auto simp: handled_def)
  then show ?thesis using mbox_qreq_roundtrip[OF demo_rm_valid p q c h] by blast
qed

text \<open>
  The order in which a queue is programmed.  When the write of a queue's contexts succeeds for a
  queue of the function, the calls made are reads of the global registers, then the clearing of every
  context of the queue, and only then the software, prefetch and completion contexts, filled from the
  message and valid.
\<close>

theorem mbox_write_programs_queue:
  assumes "mbox_write_queue_contexts env idx q s = (rv, s')" and "0 \<le> rv"
    and "qc_cmpt_ctxt_type q \<noteq> QDMA_MBOX_CMPT_CTXT_ONLY"
    and "range_check idx (dq_func_id (qc_descq_conf q)) (qc_qid_hw q) s = None"
  shows "\<exists>reads rng buf cntr tmr crng. list_all (\<lambda>c. \<exists>t. c = Global_Csr t) reads \<and>
    pf_calls s' = pf_calls s @ reads @
      context_calls QDMA_HW_ACCESS_CLEAR (qc_qid_hw q) (qc_st q) (qc_c2h q) (qc_cmpt_ctxt_type q) @
      config_calls q rng buf cntr tmr crng"
  using write_success[OF assms] by blast

definition demo_write :: mbox_msg_qctxt where
  "demo_write = (qctxt zero_msg)\<lparr>qc_qid_hw := 9, qc_st := True, qc_c2h := True, qc_cmpt_ctxt_type := QDMA_MBOX_CMPT_WITH_ST,
     qc_descq_conf := zero_descq_conf\<lparr>dq_func_id := 2, dq_ringsz := 16, dq_cmpt_ringsz := 32, dq_bufsz := 33,
       dq_cnt_thres := 17, dq_timer_thres := 17\<rparr>\<rparr>"

theorem mbox_write_programs_queue_witness:
  "\<exists>reads rng buf cntr tmr crng. pf_calls (snd (mbox_write_queue_contexts demo_hw 0 demo_write demo_pf)) =
     reads @ context_calls QDMA_HW_ACCESS_CLEAR 9 True True QDMA_MBOX_CMPT_WITH_ST @ config_calls demo_write rng buf cntr tmr crng"
proof -
  obtain rv s' where w: "mbox_write_queue_contexts demo_hw 0 demo_write demo_pf = (rv, s')"
    by (cases "mbox_write_queue_contexts demo_hw 0 demo_write demo_pf")
  have "fst (mbox_write_queue_contexts demo_hw 0 demo_write demo_pf) = 0" by code_simp
  then have rv: "0 \<le> rv" using w by simp
  have t: "qc_cmpt_ctxt_type demo_write \<noteq> QDMA_MBOX_CMPT_CTXT_ONLY" by code_simp
  have r: "range_check 0 (dq_func_id (qc_descq_conf demo_write)) (qc_qid_hw demo_write) demo_pf = None" by code_simp
  have d: "qc_qid_hw demo_write = 9" "qc_st demo_write" "qc_c2h demo_write" "qc_cmpt_ctxt_type demo_write = QDMA_MBOX_CMPT_WITH_ST"
    "pf_calls demo_pf = []" by code_simp+
  obtain reads rng buf cntr tmr crng where c: "pf_calls s' = pf_calls demo_pf @ reads @
      context_calls QDMA_HW_ACCESS_CLEAR (qc_qid_hw demo_write) (qc_st demo_write) (qc_c2h demo_write) (qc_cmpt_ctxt_type demo_write) @
      config_calls demo_write rng buf cntr tmr crng"
    using mbox_write_programs_queue[OF w rv t r] by blast
  have "pf_calls (snd (mbox_write_queue_contexts demo_hw 0 demo_write demo_pf)) =
     reads @ context_calls QDMA_HW_ACCESS_CLEAR 9 True True QDMA_MBOX_CMPT_WITH_ST @ config_calls demo_write rng buf cntr tmr crng"
    using c w d by simp
  then show ?thesis by blast
qed

text \<open>
  C30: the transfer of a message through the mailbox.  If the hardware presents to the physical function
  the words the virtual function wrote, a message that was sent and received is unchanged,
  opcode, status and contents, but for its source, which is the function the hardware reports, whatever
  the sender claimed.
\<close>

theorem mbox_transfer_authentic:
  assumes "length raw = 32" and "qdma_mbox_send envv h True raw tv = (0, tv')"
    and "\<And>n t. n < 32 \<Longrightarrow> envp (t @ [Reg_Read (mbox_base_pf h + (2048 + of_nat n * 4))]) =
      last_written tv' (mbox_base_vf h + (3072 + of_nat n * 4)) 0"
    and "qdma_mbox_rcv envp h False buf tp = (0, raw', tp')"
  shows "tl raw' = tl raw \<and> raw_op raw' = raw_op raw \<and>
    raw' = with_source raw (drop_bit 4 (envp (tp @ [Reg_Read (mbox_base_pf h)])) AND 0xFFF) \<and>
    ucast (raw_src raw') = (drop_bit 4 (envp (tp @ [Reg_Read (mbox_base_pf h)])) AND 0xFFF :: u32)"
  using transfer_ok[OF assms] with_source_rest by metis

definition demo_raw :: "u32 list" where
  "demo_raw = 0x0007A304 # 0 # 24 # 20 # replicate 28 0"

definition demo_sent_regs :: "reg_op list" where
  "demo_sent_regs = snd (qdma_mbox_send (\<lambda>_. 0) \<lparr>mbox_base_pf = 0x22400, mbox_base_vf = 0x1000\<rparr> True demo_raw [])"

text \<open>The hardware at the physical function: status and source function 5, and the words that were sent.\<close>

definition demo_regs :: reg_env where
  "demo_regs t = (case last t of Reg_Read a \<Rightarrow> if a = 0x22400 then 0x51 else last_written demo_sent_regs (a - 0x22400 + 0x1400) 0
     | Reg_Write _ _ \<Rightarrow> 0)"

theorem mbox_transfer_authentic_witness:
  "\<exists>raw' tp'. qdma_mbox_rcv demo_regs \<lparr>mbox_base_pf = 0x22400, mbox_base_vf = 0x1000\<rparr> False [] [] = (0, raw', tp') \<and>
     raw' = 0x0005A304 # tl demo_raw \<and> raw_op raw' = 4 \<and> ucast (raw_src raw') = (5 :: u32)"
proof -
  let ?h = "\<lparr>mbox_base_pf = 0x22400, mbox_base_vf = 0x1000\<rparr>"
  have l: "length demo_raw = 32" by (simp add: demo_raw_def)
  have "fst (qdma_mbox_send (\<lambda>_. 0) ?h True demo_raw []) = 0" by code_simp
  then have s: "qdma_mbox_send (\<lambda>_. 0) ?h True demo_raw [] = (0, demo_sent_regs)" by (simp add: demo_sent_regs_def prod_eq_iff)
  have law: "demo_regs (t @ [Reg_Read (mbox_base_pf ?h + (2048 + of_nat n * 4))]) =
      last_written demo_sent_regs (mbox_base_vf ?h + (3072 + of_nat n * 4)) 0" if "n < 32" for n t
  proof -
    have "unat (2048 + of_nat n * 4 :: u32) = 2048 + n * 4"
      using that by (simp add: unat_word_ariths unat_of_nat take_bit_nat_def)
    then have "(2048 + of_nat n * 4 :: u32) \<noteq> 0" by (metis add_is_0 unat_0 zero_neq_numeral)
    then show ?thesis by (simp add: demo_regs_def)
  qed
  have "fst (qdma_mbox_rcv demo_regs ?h False [] []) = 0" by code_simp
  then obtain raw' tp' where r: "qdma_mbox_rcv demo_regs ?h False [] [] = (0, raw', tp')"
    by (cases "qdma_mbox_rcv demo_regs ?h False [] []") auto
  have v: "drop_bit 4 (demo_regs ([] @ [Reg_Read (mbox_base_pf ?h)])) AND 0xFFF = (5 :: u32)" "raw_op demo_raw = 4"
    "with_source demo_raw 5 = 0x0005A304 # tl demo_raw" by code_simp+
  show ?thesis using mbox_transfer_authentic[OF l s law r] r v by auto
qed

subsection \<open>Where the code falls short\<close>

text \<open>
  A request to write the contexts of a queue outside the function's range is answered with success
  although nothing was done: the response's status is 0 and no hardware call is made.
\<close>

theorem mbox_out_of_range_write_reports_success:
  assumes "hdr_op (hdr rcv) = MBOX_OP_QCTXT_WRT" and "qdma_get_dev_entry (ucast idx) (hdr_src (hdr rcv)) (pf_rm s) = Some (i, j)"
    and "qdma_dev_is_queue_in_range (ucast idx) (hdr_src (hdr rcv)) (ucast (qc_qid_hw (qctxt rcv))) (pf_rm s) = QDMA_DEV_Q_OUT_OF_RANGE"
  shows "\<exists>resp'. qdma_mbox_pf_rcv_msg_handler env idx func rcv resp s = Inr (0, resp', s) \<and> qdma_mbox_vf_response_status resp' = 0"
proof -
  let ?q = "(qctxt rcv)\<lparr>qc_descq_conf := (qc_descq_conf (qctxt rcv))\<lparr>dq_func_id := hdr_src (hdr rcv)\<rparr>\<rparr>"
  have "range_check idx (dq_func_id (qc_descq_conf ?q)) (qc_qid_hw ?q) s = Some 0"
    using assms(3) qinfo_entry[OF assms(2)] by (simp add: range_check_def)
  then have "mbox_write_queue_contexts env idx ?q s = (0, s)" by (simp add: mbox_write_queue_contexts_def)
  then have "op_qctxt_write env idx rcv resp s = (0, resp, s)" by (simp add: op_qctxt_write_def Let_def)
  then show ?thesis using assms(1)
    by (simp add: qdma_mbox_pf_rcv_msg_handler_def Let_def reply_def exit_func_def qdma_mbox_vf_response_status_def)
qed

definition demo_stray :: qdma_mbox_txrx where
  "demo_stray = the (snd (qdma_mbox_compose_vf_qctxt_write 2 50 True True QDMA_MBOX_CMPT_WITH_ST zero_descq_conf (Some zero_msg)))"

theorem mbox_out_of_range_write_reports_success_witness:
  "\<exists>resp'. qdma_mbox_pf_rcv_msg_handler demo_hw 0 0 demo_stray zero_msg demo_pf = Inr (0, resp', demo_pf) \<and>
     qdma_mbox_vf_response_status resp' = 0"
proof (rule mbox_out_of_range_write_reports_success)
  show "hdr_op (hdr demo_stray) = MBOX_OP_QCTXT_WRT" by code_simp
  show "qdma_get_dev_entry (ucast (0 :: u8)) (hdr_src (hdr demo_stray)) (pf_rm demo_pf) = Some (0, 1)" by code_simp
  show "qdma_dev_is_queue_in_range (ucast (0 :: u8)) (hdr_src (hdr demo_stray)) (ucast (qc_qid_hw (qctxt demo_stray))) (pf_rm demo_pf) =
    QDMA_DEV_Q_OUT_OF_RANGE" by code_simp
qed

text \<open>
  The exception to isolation.  A request to clear only a completion context is passed to the
  hardware for any queue number, whoever owns the queue.
\<close>

theorem mbox_cmpt_clear_unchecked:
  assumes "hdr_op (hdr rcv) = MBOX_OP_QCTXT_CLR" and "qc_cmpt_ctxt_type (qctxt rcv) = QDMA_MBOX_CMPT_CTXT_ONLY"
  shows "\<exists>resp'. qdma_mbox_pf_rcv_msg_handler env idx func rcv resp s =
    Inr (0, resp', s\<lparr>pf_calls := pf_calls s @ [Cmpt_Ctx (qc_qid_hw (qctxt rcv)) None QDMA_HW_ACCESS_CLEAR]\<rparr>)"
proof -
  have "snd (queue_contexts_do QDMA_HW_ACCESS_CLEAR env idx (hdr_src (hdr rcv)) (qc_qid_hw (qctxt rcv)) (qc_st (qctxt rcv)) (qc_c2h (qctxt rcv))
      QDMA_MBOX_CMPT_CTXT_ONLY s) = s\<lparr>pf_calls := pf_calls s @ [Cmpt_Ctx (qc_qid_hw (qctxt rcv)) None QDMA_HW_ACCESS_CLEAR]\<rparr>"
    by (simp add: queue_contexts_do_def hw_do_def hw_def Let_def)
  then show ?thesis using assms
    by (auto simp: qdma_mbox_pf_rcv_msg_handler_def reply_def op_qctxt_def mbox_clear_queue_contexts_def Let_def split: prod.splits)
qed

definition demo_foreign :: qdma_mbox_txrx where
  "demo_foreign = the (snd (qdma_mbox_compose_vf_qctxt_clear 2 3 True True QDMA_MBOX_CMPT_CTXT_ONLY (Some zero_msg)))"

theorem mbox_cmpt_clear_unchecked_witness:
  "holds (dev_q (dev_list (master_resource_list (pf_rm demo_pf) ! 0) ! 0)) 3 = 1 \<and>
   (\<exists>resp'. qdma_mbox_pf_rcv_msg_handler demo_hw 0 0 demo_foreign zero_msg demo_pf =
     Inr (0, resp', demo_pf\<lparr>pf_calls := [Cmpt_Ctx 3 None QDMA_HW_ACCESS_CLEAR]\<rparr>))"
proof -
  have d: "hdr_op (hdr demo_foreign) = MBOX_OP_QCTXT_CLR" "qc_cmpt_ctxt_type (qctxt demo_foreign) = QDMA_MBOX_CMPT_CTXT_ONLY"
    "qc_qid_hw (qctxt demo_foreign) = 3" "pf_calls demo_pf = []" by code_simp+
  have "holds (dev_q (dev_list (master_resource_list (pf_rm demo_pf) ! 0) ! 0)) 3 = 1"
    by (simp add: demo_pf_def demo_masters holds_def lo_def hi_def)
  then show ?thesis using mbox_cmpt_clear_unchecked[OF d(1,2), of demo_hw 0 0 zero_msg demo_pf] d(3,4) by simp
qed

text \<open>
  The number of interrupt rings comes from the message and is not checked: with more than one ring
  the handler reads past the message's one-element arrays.
\<close>

theorem mbox_ring_count_out_of_bounds:
  assumes "hdr_op (hdr rcv) = MBOX_OP_INTR_CTXT_CLR \<or> hdr_op (hdr rcv) = MBOX_OP_INTR_CTXT_INV \<or> hdr_op (hdr rcv) = MBOX_OP_INTR_CTXT_WRT"
    and "ring_index_list (intr_ctxt rcv) = [r]" and "ictxt (intr_ctxt rcv) = [c]" and "1 < num_rings (intr_ctxt rcv)"
  shows "qdma_mbox_pf_rcv_msg_handler env idx func rcv resp s = Inl OutOfBounds"
proof -
  have "1 < unat (num_rings (intr_ctxt rcv))" using assms(4) by (simp add: word_less_nat_alt)
  then obtain k where k: "unat (num_rings (intr_ctxt rcv)) = Suc (Suc k)" by (metis less_natE One_nat_def add_Suc)
  have u: "[0..<Suc (Suc k)] = 0 # 1 # [2..<Suc (Suc k)]" by (simp add: upt_conv_Cons eval_nat_numeral del: upt_Suc)
  have "op_intr (intr_do acc env) rcv resp s = Inl OutOfBounds" for acc
    unfolding op_intr_def k u using assms(2) by (simp add: intr_do_def rd_def split: prod.splits)
  moreover have "op_intr (intr_write env) rcv resp s = Inl OutOfBounds"
    unfolding op_intr_def k u using assms(2,3) by (simp add: intr_write_def rd_def Let_def split: prod.splits)
  ultimately show ?thesis using assms(1) by (auto simp: qdma_mbox_pf_rcv_msg_handler_def Let_def)
qed

definition demo_rings :: qdma_mbox_txrx where
  "demo_rings = the (snd (qdma_mbox_compose_vf_intr_ctxt_clear 2 ((intr_ctxt zero_msg)\<lparr>num_rings := 2\<rparr>) (Some zero_msg)))"

theorem mbox_ring_count_out_of_bounds_witness:
  "qdma_mbox_pf_rcv_msg_handler demo_hw 0 0 demo_rings zero_msg demo_pf = Inl OutOfBounds"
proof (rule mbox_ring_count_out_of_bounds)
  show "hdr_op (hdr demo_rings) = MBOX_OP_INTR_CTXT_CLR \<or> hdr_op (hdr demo_rings) = MBOX_OP_INTR_CTXT_INV \<or>
    hdr_op (hdr demo_rings) = MBOX_OP_INTR_CTXT_WRT" by code_simp
  show "ring_index_list (intr_ctxt demo_rings) = [0]" "ictxt (intr_ctxt demo_rings) = [zero_ic_ctxt]"
    "1 < num_rings (intr_ctxt demo_rings)" by code_simp+
qed

end
