(* ===== verification/Qdma_Csr_Props.thy ===== *)
theory Qdma_Csr_Props
  imports Qdma_Ctrl Qdma_Mbox_Props
begin

text \<open>
  The global registers: a group of configuration registers is accessed within its sixteen registers
  or not at all; the doorbells of different queues are different registers; the initialisation of the
  context memory clears every context of every queue; and the two settings that are changed by
  reading, adding bits and writing back can only be increased.
\<close>

subsection \<open>Configuration registers\<close>

definition csr_reads :: "u32 \<Rightarrow> nat \<Rightarrow> nat \<Rightarrow> reg_op list" where
  "csr_reads off idx n = map (\<lambda>k. Reg_Read (off + of_nat (idx + k) * 4)) [0..<n]"

definition csr_writes :: "u32 \<Rightarrow> nat \<Rightarrow> nat \<Rightarrow> u32 list \<Rightarrow> reg_op list" where
  "csr_writes off idx n vs = map (\<lambda>k. Reg_Write (off + of_nat (idx + k) * 4) (vs ! k)) [0..<n]"

lemma csr_writes_Suc: "csr_writes off idx (Suc n) vs = csr_writes off idx n vs @ [Reg_Write (off + of_nat (idx + n) * 4) (vs ! n)]"
  by (simp add: csr_writes_def)

lemma csr_reads_Suc: "csr_reads off idx (Suc n) = csr_reads off idx n @ [Reg_Read (off + of_nat (idx + n) * 4)]"
  by (simp add: csr_reads_def)

lemma foldM_Nil: "foldM f [] = Inr"
  by (rule ext) simp

lemma rbind_return: "rbind m Inr = m"
  by (cases m) simp_all

lemma write_csr_values: "n \<le> length vs \<Longrightarrow> qdma_write_csr_values off idx n vs t = Inr (t @ csr_writes off idx n vs)"
proof (induction n)
  case 0
  show ?case by (simp add: qdma_write_csr_values_def csr_writes_def)
next
  case (Suc n)
  then have n: "n < length vs" "n \<le> length vs" by simp_all
  have "qdma_write_csr_values off idx (Suc n) vs t =
      rbind (qdma_write_csr_values off idx n vs t) (\<lambda>t. rbind (rd vs n) (\<lambda>v. Inr (qdma_reg_write (off + of_nat (idx + n) * 4) v t)))"
    by (auto simp: qdma_write_csr_values_def foldM_append foldM_Nil rbind_return intro!: arg_cong2[where f = rbind])
  then show ?case using n by (simp add: Suc.IH csr_writes_Suc qdma_reg_write_def)
qed

lemma read_csr_values:
  "n \<le> length vs \<Longrightarrow> qdma_read_csr_values env off idx n vs t =
     Inr (map (\<lambda>k. env (t @ csr_reads off idx (Suc k))) [0..<n] @ drop n vs, t @ csr_reads off idx n)"
proof (induction n)
  case 0
  show ?case by (simp add: qdma_read_csr_values_def csr_reads_def)
next
  case (Suc n)
  then have n: "n < length vs" "n \<le> length vs" by simp_all
  let ?vs = "map (\<lambda>k. env (t @ csr_reads off idx (Suc k))) [0..<n] @ drop n vs"
  let ?a = "off + of_nat (idx + n) * 4"
  have "qdma_read_csr_values env off idx (Suc n) vs t =
      rbind (qdma_read_csr_values env off idx n vs t) (\<lambda>(vs, t).
        rbind (wr vs n (env (t @ [Reg_Read ?a]))) (\<lambda>vs. Inr (vs, t @ [Reg_Read ?a])))"
    by (auto simp: qdma_read_csr_values_def foldM_append foldM_Nil rbind_return qdma_reg_read_def Let_def algebra_simps
      intro!: arg_cong2[where f = rbind])
  moreover have "?vs[n := v] = map (\<lambda>k. env (t @ csr_reads off idx (Suc k))) [0..<n] @ v # drop (Suc n) vs" for v
    using n(1) by (simp add: list_update_append Cons_nth_drop_Suc[symmetric])
  ultimately show ?case
    using n by (simp add: Suc.IH csr_reads_Suc)
qed

text \<open>What a group needs of the device, and where it is.\<close>

primrec csr_base :: "qdma_global_csr_type \<Rightarrow> u32" where
  "csr_base QDMA_CSR_RING_SZ = QDMA_OFFSET_GLBL_RNG_SZ"
| "csr_base QDMA_CSR_TIMER_CNT = QDMA_OFFSET_C2H_TIMER_CNT"
| "csr_base QDMA_CSR_CNT_TH = QDMA_OFFSET_C2H_CNT_TH"
| "csr_base QDMA_CSR_BUF_SZ = QDMA_OFFSET_C2H_BUF_SZ"

primrec csr_feature :: "qdma_global_csr_type \<Rightarrow> qdma_dev_attributes \<Rightarrow> bool" where
  "csr_feature QDMA_CSR_RING_SZ a = True"
| "csr_feature QDMA_CSR_TIMER_CNT a = st_or_cmpt a"
| "csr_feature QDMA_CSR_CNT_TH a = st_or_cmpt a"
| "csr_feature QDMA_CSR_BUF_SZ a = at_st_en a"

text \<open>Where the access starts: the ring sizes are accessed without a look at the attributes.\<close>

definition csr_looked :: "reg_env \<Rightarrow> qdma_global_csr_type \<Rightarrow> reg_op list \<Rightarrow> qdma_dev_attributes \<times> reg_op list" where
  "csr_looked env ty t = (let (a, u) = read_dev_attributes env t in (a, if ty = QDMA_CSR_RING_SZ then t else u))"

definition csr_range_ok :: "u8 \<Rightarrow> u8 \<Rightarrow> bool" where
  "csr_range_ok index count \<longleftrightarrow> count \<noteq> 0 \<and> unat index + unat count \<le> 16"

lemma csr_conf_write:
  assumes "unat count \<le> length vs" "csr_looked env ty t = (a, u)"
  shows "qdma_global_csr_conf (Some env) index count (Some vs) ty QDMA_HW_ACCESS_WRITE t = Inr
    (if \<not> csr_range_ok index count then (- QDMA_ERR_INV_PARAM, Some vs, t)
     else if \<not> csr_feature ty a then (- QDMA_ERR_HWACC_FEATURE_NOT_SUPPORTED, Some vs, u)
     else (QDMA_SUCCESS, Some vs, u @ csr_writes (csr_base ty) (unat index) (unat count) vs))"
  using assms
  by (cases ty)
    (auto simp: qdma_global_csr_conf_def qdma_write_global_ring_sizes_def qdma_write_global_timer_count_def
      qdma_write_global_counter_threshold_def qdma_write_global_buffer_sizes_def csr_checked_def csr_range_ok_def
      csr_put_def write_csr_values csr_looked_def split: prod.splits)

lemma csr_conf_read:
  assumes "unat count \<le> length vs" "csr_looked env ty t = (a, u)"
  shows "qdma_global_csr_conf (Some env) index count (Some vs) ty QDMA_HW_ACCESS_READ t = Inr
    (if \<not> csr_range_ok index count then (- QDMA_ERR_INV_PARAM, Some vs, t)
     else if \<not> csr_feature ty a then (- QDMA_ERR_HWACC_FEATURE_NOT_SUPPORTED, Some vs, u)
     else (QDMA_SUCCESS, Some (map (\<lambda>k. env (u @ csr_reads (csr_base ty) (unat index) (Suc k))) [0..<unat count] @ drop (unat count) vs),
           u @ csr_reads (csr_base ty) (unat index) (unat count)))"
  using assms
  by (cases ty)
    (auto simp: qdma_global_csr_conf_def qdma_read_global_ring_sizes_def qdma_read_global_timer_count_def
      qdma_read_global_counter_threshold_def qdma_read_global_buffer_sizes_def csr_checked_def csr_range_ok_def
      csr_get_def read_csr_values csr_looked_def split: prod.splits)

subsection \<open>Context memory\<close>

text \<open>The commands given to the context memory in a run of register accesses.\<close>

fun ctxt_cmds :: "reg_op list \<Rightarrow> u32 list" where
  "ctxt_cmds [] = []"
| "ctxt_cmds (Reg_Read a # ps) = ctxt_cmds ps"
| "ctxt_cmds (Reg_Write a v # ps) = (if a = QDMA_OFFSET_IND_CTXT_CMD then v # ctxt_cmds ps else ctxt_cmds ps)"

lemma ctxt_cmds_append [simp]: "ctxt_cmds (ps @ qs) = ctxt_cmds ps @ ctxt_cmds qs"
  by (induction ps rule: ctxt_cmds.induct) simp_all

lemma ctxt_cmds_polls [simp]: "ctxt_cmds (polls k) = []"
  by (induction k) simp_all

definition clear_cmd :: "ind_ctxt_cmd_sel \<times> u16 \<Rightarrow> u32" where
  "clear_cmd c = ind_ctxt_cmd QDMA_CTXT_CMD_CLR (fst c) (snd c)"

lemma reg_clear_cmds:
  "\<exists>k. snd (qdma_indirect_reg_clear env sel q t) = t @ Reg_Write QDMA_OFFSET_IND_CTXT_CMD (clear_cmd (sel, q)) # polls k"
  using poll_cmd_reads[of env "t @ [Reg_Write QDMA_OFFSET_IND_CTXT_CMD (clear_cmd (sel, q))]"]
  by (auto simp: qdma_indirect_reg_clear_def qdma_reg_write_def clear_cmd_def)

lemma reg_clear_result: "fst (qdma_indirect_reg_clear env sel q t) \<le> 0"
  using poll_cmd_reads[of env "t @ [Reg_Write QDMA_OFFSET_IND_CTXT_CMD (clear_cmd (sel, q))]"]
  by (auto simp: qdma_indirect_reg_clear_def qdma_reg_write_def clear_cmd_def split: if_splits)

lemma clear_ctxts_cmds:
  assumes "clear_ctxts env cs t = (rv, t')"
  shows "\<exists>ops n. t' = t @ ops \<and> ctxt_cmds ops = map clear_cmd (take n cs) \<and> rv \<le> 0 \<and> (if rv = 0 then n = length cs else 0 < n \<and> n \<le> length cs)"
  using assms
proof (induction cs arbitrary: t)
  case (Cons c cs)
  obtain sel q where c: "c = (sel, q)" by (cases c)
  obtain r u where u: "qdma_indirect_reg_clear env sel q t = (r, u)" by (cases "qdma_indirect_reg_clear env sel q t")
  obtain k where k: "u = t @ Reg_Write QDMA_OFFSET_IND_CTXT_CMD (clear_cmd c) # polls k"
    using reg_clear_cmds[of env sel q t] by (auto simp: u c)
  have r: "r \<le> 0" using reg_clear_result[of env sel q t] by (simp add: u)
  show ?case
  proof (cases "r < 0")
    case True
    then show ?thesis
      using Cons.prems u k
      by (intro exI[of _ "Reg_Write QDMA_OFFSET_IND_CTXT_CMD (clear_cmd c) # polls k"] exI[of _ 1]) (auto simp: c)
  next
    case False
    then obtain ops n where "t' = u @ ops" "ctxt_cmds ops = map clear_cmd (take n cs)" "rv \<le> 0"
      "if rv = 0 then n = length cs else 0 < n \<and> n \<le> length cs"
      using Cons.IH[of u] Cons.prems u by (auto simp: c)
    then show ?thesis
      by (intro exI[of _ "Reg_Write QDMA_OFFSET_IND_CTXT_CMD (clear_cmd c) # polls k @ ops"] exI[of _ "Suc n"])
        (auto simp: k split: if_splits)
  qed
qed (auto intro: exI[of _ "[]"])

lemma clear_fmaps_cmds:
  "\<exists>ops. fold (\<lambda>i t. snd (qdma_indirect_reg_clear env QDMA_CTXT_SEL_FMAP (of_nat i) t)) is t = t @ ops \<and>
     ctxt_cmds ops = map (\<lambda>i. clear_cmd (QDMA_CTXT_SEL_FMAP, of_nat i)) is"
proof (induction "is" arbitrary: t)
  case (Cons i "is")
  obtain k where k: "snd (qdma_indirect_reg_clear env QDMA_CTXT_SEL_FMAP (of_nat i) t) =
      t @ Reg_Write QDMA_OFFSET_IND_CTXT_CMD (clear_cmd (QDMA_CTXT_SEL_FMAP, of_nat i)) # polls k"
    using reg_clear_cmds by blast
  from Cons obtain ops where "fold (\<lambda>i t. snd (qdma_indirect_reg_clear env QDMA_CTXT_SEL_FMAP (of_nat i) t)) is
      (t @ Reg_Write QDMA_OFFSET_IND_CTXT_CMD (clear_cmd (QDMA_CTXT_SEL_FMAP, of_nat i)) # polls k) =
      (t @ Reg_Write QDMA_OFFSET_IND_CTXT_CMD (clear_cmd (QDMA_CTXT_SEL_FMAP, of_nat i)) # polls k) @ ops"
      "ctxt_cmds ops = map (\<lambda>i. clear_cmd (QDMA_CTXT_SEL_FMAP, of_nat i)) is" by blast
  then show ?case
    by (intro exI[of _ "Reg_Write QDMA_OFFSET_IND_CTXT_CMD (clear_cmd (QDMA_CTXT_SEL_FMAP, of_nat i)) # polls k @ ops"]) (simp add: k)
qed simp

subsection \<open>Registers that hold what is written\<close>

definition latching :: "reg_env \<Rightarrow> u32 \<Rightarrow> bool" where
  "latching env off \<longleftrightarrow> (\<forall>t k. k < 16 \<longrightarrow> env (t @ [Reg_Read (off + of_nat k * 4)]) = last_written t (off + of_nat k * 4) 0)"

lemma last_written_reads [simp]:
  "last_written (map Reg_Read as) a v = v" "last_written (map (Reg_Read \<circ> f) is) a v = v"
proof -
  show "last_written (map Reg_Read as) a v = v" by (induction as) simp_all
  show "last_written (map (Reg_Read \<circ> f) is) a v = v" by (induction "is") simp_all
qed

lemma csr_reads_map: "csr_reads off idx n = map Reg_Read (map (\<lambda>k. off + of_nat (idx + k) * 4) [0..<n])"
  by (simp add: csr_reads_def)

lemma csr_looked_reads: "csr_looked env ty t = (a, u) \<Longrightarrow> \<exists>as. u = t @ map Reg_Read as"
  by (auto simp: csr_looked_def read_dev_attributes_def qdma_reg_read_def Let_def
    intro: exI[of _ "[]"] exI[of _ "[0x104, 0x120, 0x134, 0x118]"] split: if_splits)

lemma csr_written:
  assumes "k < n" "n \<le> 16" "idx + n \<le> 16"
  shows "last_written (t @ csr_writes off idx n vs) (off + of_nat (idx + k) * 4) v = vs ! k"
proof -
  have w: "csr_writes off idx n vs = map (\<lambda>i. Reg_Write ((off + of_nat idx * 4) + of_nat i * 4) (vs ! i)) [0..<n]"
    by (simp add: csr_writes_def algebra_simps)
  show ?thesis
    using last_written_slots[of k n "off + of_nat idx * 4" "\<lambda>i. vs ! i" "last_written t (off + of_nat (idx + k) * 4) v"] assms
    by (simp add: last_written_append w algebra_simps del: upt_Suc)
qed

lemma csr_read_back:
  assumes "latching env off" "idx + n \<le> 16" "n \<le> length vs"
  shows "map (\<lambda>k. env (((t @ csr_writes off idx n vs) @ map Reg_Read as) @ csr_reads off idx (Suc k))) [0..<n] = take n vs"
proof (rule nth_equalityI)
  fix k assume "k < length (map (\<lambda>k. env (((t @ csr_writes off idx n vs) @ map Reg_Read as) @ csr_reads off idx (Suc k))) [0..<n])"
  then have k: "k < n" by simp
  have "env ((((t @ csr_writes off idx n vs) @ map Reg_Read as) @ csr_reads off idx k) @ [Reg_Read (off + of_nat (idx + k) * 4)]) =
      last_written (((t @ csr_writes off idx n vs) @ map Reg_Read as) @ csr_reads off idx k) (off + of_nat (idx + k) * 4) 0"
    using assms(1,2) k by (auto simp: latching_def simp del: append_assoc of_nat_add)
  also have "\<dots> = vs ! k"
    using csr_written[OF k _ assms(2), of t off vs 0] assms(2) by (simp add: last_written_append csr_reads_map del: of_nat_add)
  finally show "map (\<lambda>k. env (((t @ csr_writes off idx n vs) @ map Reg_Read as) @ csr_reads off idx (Suc k))) [0..<n] ! k = take n vs ! k"
    using k by (simp add: csr_reads_Suc)
qed (use assms in simp)

subsection \<open>Properties\<close>

text \<open>
  The groups of configuration registers.  An access of no register, or of one beyond the sixteen
  of the group, is refused before any register is touched; a group the device lacks is refused with
  its own error.  Otherwise the access stays inside the group and the caller's array, and on a device
  whose registers hold what is written a read returns what the write before it stored.
\<close>

theorem qdma_global_csr_roundtrip:
  assumes "latching env (csr_base ty)" and "unat count \<le> length vs" and "unat count \<le> length rs"
    and "csr_looked env ty t = (a, u)"
  shows "\<exists>rv t1 rv' r t2.
    qdma_global_csr_conf (Some env) index count (Some vs) ty QDMA_HW_ACCESS_WRITE t = Inr (rv, Some vs, t1) \<and>
    qdma_global_csr_conf (Some env) index count (Some rs) ty QDMA_HW_ACCESS_READ t1 = Inr (rv', Some r, t2) \<and>
    (if \<not> csr_range_ok index count then rv = - QDMA_ERR_INV_PARAM \<and> rv' = rv \<and> t2 = t \<and> r = rs
     else if \<not> csr_feature ty a then rv = - QDMA_ERR_HWACC_FEATURE_NOT_SUPPORTED \<and> t1 = u
     else rv = 0 \<and> t1 = u @ csr_writes (csr_base ty) (unat index) (unat count) vs \<and>
       (if csr_feature ty (fst (csr_looked env ty t1)) then rv' = 0 \<and> r = take (unat count) vs @ drop (unat count) rs
        else rv' = - QDMA_ERR_HWACC_FEATURE_NOT_SUPPORTED \<and> r = rs))"
proof -
  define t1 where "t1 = (if \<not> csr_range_ok index count then t else if \<not> csr_feature ty a then u
    else u @ csr_writes (csr_base ty) (unat index) (unat count) vs)"
  obtain a' u' where l: "csr_looked env ty t1 = (a', u')" by (cases "csr_looked env ty t1")
  obtain as where u': "u' = t1 @ map Reg_Read as" using csr_looked_reads[OF l] by blast
  note w = csr_conf_write[OF assms(2,4), of index]
  note r = csr_conf_read[OF assms(3) l, of index]
  have rb: "map (\<lambda>k. env (u' @ csr_reads (csr_base ty) (unat index) (Suc k))) [0..<unat count] = take (unat count) vs"
    if "csr_range_ok index count" "csr_feature ty a"
    using csr_read_back[OF assms(1), of "unat index" "unat count" vs u as] that assms(2)
    by (simp add: u' t1_def csr_range_ok_def)
  show ?thesis
  proof (cases "csr_range_ok index count \<and> csr_feature ty a")
    case True
    then show ?thesis using w r rb l by (simp add: t1_def)
  next
    case False
    then show ?thesis using w r l by (auto simp: t1_def split: if_splits)
  qed
qed

definition latched_regs :: "u32 \<Rightarrow> reg_env" where
  "latched_regs caps t = (case last t of Reg_Read a \<Rightarrow> if a = QDMA_OFFSET_GLBL2_CHANNEL_MDMA then caps else last_written t a 0 | _ \<Rightarrow> 0)"

lemma latched_regs_latching: "ty = QDMA_CSR_BUF_SZ \<Longrightarrow> latching (latched_regs caps) (csr_base ty)"
proof -
  have "k < 16 \<Longrightarrow> k \<in> {0, 1, 2, 3, 4, 5, 6, 7, 8, 9, 10, 11, 12, 13, 14, 15 :: nat}" for k by simp presburger
  then have "k < 16 \<Longrightarrow> 0xAB0 + of_nat k * 4 \<noteq> (0x118 :: u32)" for k by fastforce
  then show "ty = QDMA_CSR_BUF_SZ \<Longrightarrow> latching (latched_regs caps) (csr_base ty)"
    by (simp add: latching_def latched_regs_def last_written_append)
qed

theorem qdma_global_csr_roundtrip_witness:
  "\<exists>t1 t2. qdma_global_csr_conf (Some (latched_regs 0x30101)) 2 3 (Some [512, 1024, 2048]) QDMA_CSR_BUF_SZ QDMA_HW_ACCESS_WRITE [] =
      Inr (0, Some [512, 1024, 2048], t1) \<and>
    qdma_global_csr_conf (Some (latched_regs 0x30101)) 2 3 (Some [0, 0, 0]) QDMA_CSR_BUF_SZ QDMA_HW_ACCESS_READ t1 =
      Inr (0, Some [512, 1024, 2048], t2)"
proof -
  have n: "unat (3 :: u8) \<le> length [512 :: u32, 1024, 2048]" "unat (3 :: u8) \<le> length [0 :: u32, 0, 0]" by simp_all
  obtain a u where l: "csr_looked (latched_regs 0x30101) QDMA_CSR_BUF_SZ [] = (a, u)"
    by (cases "csr_looked (latched_regs 0x30101) QDMA_CSR_BUF_SZ []")
  have f: "csr_feature QDMA_CSR_BUF_SZ (fst (csr_looked (latched_regs 0x30101) QDMA_CSR_BUF_SZ t))" for t
    by (simp add: csr_looked_def read_dev_attributes_def qdma_reg_read_def latched_regs_def)
       code_simp
  show ?thesis
    using qdma_global_csr_roundtrip[OF latched_regs_latching[OF refl, of "0x30101"] n l, of 2] f[of "[]"] f
    by (auto simp: l csr_range_ok_def)
qed

text \<open>
  The doorbells.  For a physical as for a virtual function, the producer index registers of the
  two directions, the completion and the interrupt index registers of all queue numbers are pairwise
  different, so that no update reaches another queue or another index of the same queue.
\<close>

theorem qdma_doorbells_distinct:
  "distinct (concat (map (\<lambda>n. let q = of_nat n in [intr_cidx_reg is_vf q, pidx_reg is_vf False q, pidx_reg is_vf True q, cmpt_cidx_reg is_vf q])
     [0..<2 ^ 16]))"
proof -
  let ?b = "if is_vf then 0x3000 else 0x18000 :: u32"
  have q: "ucast (of_nat n :: u16) = (of_nat n :: u32)" if "n < 2 ^ 16" for n
    using that by (simp add: unsigned_of_nat take_bit_nat_eq_self)
  have "concat (map (\<lambda>n. let q = of_nat n in [intr_cidx_reg is_vf q, pidx_reg is_vf False q, pidx_reg is_vf True q, cmpt_cidx_reg is_vf q]) [0..<m]) =
      map (\<lambda>i. ?b + of_nat (i * 4)) [0..<4 * m]" if "m \<le> 2 ^ 16" for m
    using that
  proof (induction m)
    case (Suc m)
    have e: "[0..<4 * Suc m] = [0..<4 * m] @ [4 * m, 4 * m + 1, 4 * m + 2, 4 * m + 3]"
      by (simp add: eval_nat_numeral)
    show ?case unfolding e using Suc
      by (simp add: q Let_def intr_cidx_reg_def pidx_reg_def cmpt_cidx_reg_def algebra_simps)
  qed simp
  moreover have "inj_on (\<lambda>i. ?b + of_nat (i * 4)) {0..<4 * 2 ^ 16}"
  proof (rule inj_onI)
    fix i j assume ij: "i \<in> {0..<4 * 2 ^ 16}" "j \<in> {0..<4 * 2 ^ 16}" "?b + of_nat (i * 4) = ?b + of_nat (j * 4)"
    have u: "unat (of_nat (k * 4) :: u32) = k * 4" if "k \<in> {0..<4 * 2 ^ 16}" for k
      using that by (simp only: unat_of_nat) (simp add: take_bit_nat_eq_self)
    have "(of_nat (i * 4) :: u32) = of_nat (j * 4)" using ij(3) by (metis add_left_imp_eq)
    then show "i = j" using u[OF ij(1)] u[OF ij(2)] by simp
  qed
  ultimately show ?thesis by (simp add: distinct_map del: upt_Suc)
qed

text \<open>The contexts of every queue, as the hardware documents them: six kinds, and two more for streaming.\<close>

definition all_ctxts :: "qdma_dev_attributes \<Rightarrow> (ind_ctxt_cmd_sel \<times> u16) list" where
  "all_ctxts a = concat (map (\<lambda>q. map (\<lambda>sel. (sel, of_nat q))
     ([QDMA_CTXT_SEL_SW_C2H, QDMA_CTXT_SEL_SW_H2C, QDMA_CTXT_SEL_HW_C2H, QDMA_CTXT_SEL_HW_H2C, QDMA_CTXT_SEL_CR_C2H, QDMA_CTXT_SEL_CR_H2C] @
      (if at_st_en a then [QDMA_CTXT_SEL_CMPT, QDMA_CTXT_SEL_PFTCH] else []))) [0..<unat (at_num_qs a)])"

lemma init_ctxts_all: "init_ctxts a = all_ctxts a"
  by (simp add: init_ctxts_def init_sels_def all_ctxts_def)

text \<open>
  C33: the context memory.  When the initialisation succeeds, the commands given are exactly one clear
  command for every kind of context of every queue of the device, queue by queue, without the
  prefetch and completion contexts if it cannot stream, and then one for the function map of every
  physical function.  When it fails, a non-empty initial part of the queue commands was given, and
  the error is a timeout.
\<close>

theorem qdma_init_ctxt_memory_clears:
  assumes "read_dev_attributes env t = (a, u)" and "qdma_init_ctxt_memory (Some env) t = (rv, t')"
  shows "\<exists>ops. t' = u @ ops \<and>
    (if rv = 0 then ctxt_cmds ops = map clear_cmd (all_ctxts a) @ map (\<lambda>i. clear_cmd (QDMA_CTXT_SEL_FMAP, of_nat i)) [0..<unat (at_num_pfs a)]
     else rv < 0 \<and> (\<exists>n. 0 < n \<and> n \<le> length (all_ctxts a) \<and> ctxt_cmds ops = map clear_cmd (take n (all_ctxts a))))"
proof -
  obtain r u1 where c: "clear_ctxts env (all_ctxts a) u = (r, u1)" by (cases "clear_ctxts env (all_ctxts a) u")
  obtain ops n where o: "u1 = u @ ops" "ctxt_cmds ops = map clear_cmd (take n (all_ctxts a))" "r \<le> 0"
    "if r = 0 then n = length (all_ctxts a) else 0 < n \<and> n \<le> length (all_ctxts a)"
    using clear_ctxts_cmds[OF c] by blast
  obtain ops' where o': "fold (\<lambda>i t. snd (qdma_indirect_reg_clear env QDMA_CTXT_SEL_FMAP (of_nat i) t)) [0..<unat (at_num_pfs a)] u1 = u1 @ ops'"
    "ctxt_cmds ops' = map (\<lambda>i. clear_cmd (QDMA_CTXT_SEL_FMAP, of_nat i)) [0..<unat (at_num_pfs a)]"
    using clear_fmaps_cmds by blast
  show ?thesis
  proof (cases "r < 0")
    case True
    then show ?thesis using assms c o by (auto simp: qdma_init_ctxt_memory_def init_ctxts_all)
  next
    case False
    then show ?thesis
      using assms c o o' by (intro exI[of _ "ops @ ops'"]) (auto simp: qdma_init_ctxt_memory_def init_ctxts_all)
  qed
qed

text \<open>
  A device with one queue and one physical function that cannot stream, whose command register is
  never busy: six contexts of queue 0 and one function map are cleared.
\<close>

definition small_device :: reg_env where
  "small_device t = (case last t of
     Reg_Read a \<Rightarrow> if a = QDMA_OFFSET_GLBL2_PF_BARLITE_INT \<or> a = QDMA_OFFSET_GLBL2_CHANNEL_QDMA_CAP then 1 else 0
   | Reg_Write a v \<Rightarrow> 0)"

lemma clear_ctxts_idle:
  "(\<And>t. env (t @ [Reg_Read QDMA_OFFSET_IND_CTXT_CMD]) = 0) \<Longrightarrow> fst (clear_ctxts env cs t) = 0"
  by (induction cs arbitrary: t) (auto simp: qdma_indirect_reg_clear_def poll_idle)

lemma small_device_idle: "small_device (t @ [Reg_Read QDMA_OFFSET_IND_CTXT_CMD]) = 0"
  by (simp add: small_device_def)

theorem qdma_init_ctxt_memory_clears_witness:
  "\<exists>t. qdma_init_ctxt_memory (Some small_device) [] = (0, t) \<and>
     ctxt_cmds t = map clear_cmd [(QDMA_CTXT_SEL_SW_C2H, 0), (QDMA_CTXT_SEL_SW_H2C, 0), (QDMA_CTXT_SEL_HW_C2H, 0),
       (QDMA_CTXT_SEL_HW_H2C, 0), (QDMA_CTXT_SEL_CR_C2H, 0), (QDMA_CTXT_SEL_CR_H2C, 0), (QDMA_CTXT_SEL_FMAP, 0)]"
proof -
  obtain a u where d: "read_dev_attributes small_device [] = (a, u)" by fastforce
  obtain rv t where i: "qdma_init_ctxt_memory (Some small_device) [] = (rv, t)" by fastforce
  have rv: "rv = 0"
    using i clear_ctxts_idle[of small_device "init_ctxts a" u, OF small_device_idle] d
    by (auto simp: qdma_init_ctxt_memory_def split: prod.splits if_splits)
  have au: "a = fst (read_dev_attributes small_device [])" "u = snd (read_dev_attributes small_device [])" using d by simp_all
  have "init_ctxts (fst (read_dev_attributes small_device [])) = [(QDMA_CTXT_SEL_SW_C2H, 0), (QDMA_CTXT_SEL_SW_H2C, 0),
      (QDMA_CTXT_SEL_HW_C2H, 0), (QDMA_CTXT_SEL_HW_H2C, 0), (QDMA_CTXT_SEL_CR_C2H, 0), (QDMA_CTXT_SEL_CR_H2C, 0)]"
    "unat (at_num_pfs (fst (read_dev_attributes small_device []))) = 1"
    "ctxt_cmds (snd (read_dev_attributes small_device [])) = []" by code_simp+
  then show ?thesis using qdma_init_ctxt_memory_clears[OF d i] i by (auto simp: rv au init_ctxts_all[symmetric])
qed

text \<open>
  Two settings that cannot be reset.  The writeback interval and the enable bit of the legacy
  interrupt are changed by reading the register, adding bits and writing it back; none is ever
  removed.  What is in the field afterwards is the union of the old and the new value: an interval is
  set as asked only if it contains the bits of the one before it, and disabling the legacy interrupt
  leaves it enabled.
\<close>

theorem qdma_settings_accumulate:
  assumes "qdma_global_writeback_interval_write (Some env) w t = (0, t1)"
    and "qdma_legacy_intr_conf (Some env) e t = (rv, t2)"
  shows "(\<exists>u v. t1 = u @ [Reg_Read QDMA_OFFSET_GLBL_DSC_CFG, Reg_Write QDMA_OFFSET_GLBL_DSC_CFG v] \<and>
      FIELD_GET QDMA_GLBL_DSC_CFG_WB_ACC_INT_MASK v =
        FIELD_GET QDMA_GLBL_DSC_CFG_WB_ACC_INT_MASK (env (u @ [Reg_Read QDMA_OFFSET_GLBL_DSC_CFG])) OR w) \<and>
    (\<exists>v. rv = 0 \<and> t2 = t @ [Reg_Read QDMA_OFFSET_GLBL_INTERRUPT_CFG, Reg_Write QDMA_OFFSET_GLBL_INTERRUPT_CFG v] \<and>
      (bit v 0 \<longleftrightarrow> bit (env (t @ [Reg_Read QDMA_OFFSET_GLBL_INTERRUPT_CFG])) 0 \<or> e = ENABLE))"
proof
  have w: "unat w < 2 ^ 3" using assms(1) by (auto simp: qdma_global_writeback_interval_write_def word_le_nat_alt split: if_splits)
  have "FIELD_GET QDMA_GLBL_DSC_CFG_WB_ACC_INT_MASK (r OR FIELD_SET QDMA_GLBL_DSC_CFG_WB_ACC_INT_MASK w) =
      FIELD_GET QDMA_GLBL_DSC_CFG_WB_ACC_INT_MASK r OR w" for r
    using take_bit_ucast_fits[OF w, where 'a = 32] by (simp add: mask_simps)
  then show "\<exists>u v. t1 = u @ [Reg_Read QDMA_OFFSET_GLBL_DSC_CFG, Reg_Write QDMA_OFFSET_GLBL_DSC_CFG v] \<and>
      FIELD_GET QDMA_GLBL_DSC_CFG_WB_ACC_INT_MASK v =
        FIELD_GET QDMA_GLBL_DSC_CFG_WB_ACC_INT_MASK (env (u @ [Reg_Read QDMA_OFFSET_GLBL_DSC_CFG])) OR w"
    using assms(1) by (auto simp: qdma_global_writeback_interval_write_def qdma_reg_read_def qdma_reg_write_def
      split: if_splits prod.splits)
  have "bit (FIELD_SET QDMA_GLBL_INTR_CFG_EN_LGCY_INTR_MASK (status_val e)) 0 \<longleftrightarrow> e = ENABLE"
    by (cases e) (simp_all add: BIT_mask bit_FIELD_SET)
  then show "\<exists>v. rv = 0 \<and> t2 = t @ [Reg_Read QDMA_OFFSET_GLBL_INTERRUPT_CFG, Reg_Write QDMA_OFFSET_GLBL_INTERRUPT_CFG v] \<and>
      (bit v 0 \<longleftrightarrow> bit (env (t @ [Reg_Read QDMA_OFFSET_GLBL_INTERRUPT_CFG])) 0 \<or> e = ENABLE)"
    using assms(2) by (auto simp: qdma_legacy_intr_conf_def qdma_reg_read_def qdma_reg_write_def bit_or_iff)
qed

text \<open>Setting the smallest interval after the default one, and disabling an enabled interrupt.\<close>

theorem qdma_settings_accumulate_witness:
  "\<exists>t1 u v v'. qdma_global_writeback_interval_write (Some (\<lambda>_. 0x30335)) 0 [] = (0, t1) \<and>
     t1 = u @ [Reg_Read QDMA_OFFSET_GLBL_DSC_CFG, Reg_Write QDMA_OFFSET_GLBL_DSC_CFG v] \<and>
     FIELD_GET QDMA_GLBL_DSC_CFG_WB_ACC_INT_MASK v = 5 \<and>
     qdma_legacy_intr_conf (Some (\<lambda>_. 0x30335)) DISABLE [] =
       (0, [Reg_Read QDMA_OFFSET_GLBL_INTERRUPT_CFG, Reg_Write QDMA_OFFSET_GLBL_INTERRUPT_CFG v']) \<and> bit v' 0"
proof -
  have "fst (qdma_global_writeback_interval_write (Some (\<lambda>_. 0x30335)) 0 []) = 0" by code_simp
  then obtain t1 where w: "qdma_global_writeback_interval_write (Some (\<lambda>_. 0x30335)) 0 [] = (0, t1)" by (metis prod.collapse)
  obtain rv t2 where e: "qdma_legacy_intr_conf (Some (\<lambda>_. 0x30335)) DISABLE [] = (rv, t2)" by fastforce
  have f: "FIELD_GET QDMA_GLBL_DSC_CFG_WB_ACC_INT_MASK 0x30335 = 5" "bit (0x30335 :: u32) 0" by code_simp+
  show ?thesis using qdma_settings_accumulate[OF w e] f w e by auto
qed

end
