(* ===== verification/Qdma_Regs.thy ===== *)
theory Qdma_Regs
  imports Qdma_Csr
begin

text \<open>
  The register lists a virtual function may ask for (\<open>qdma_read_reg_list\<close> of \<open>qdma_soft_access.c\<close>)
  and the table of registers they are taken from.  Of a table entry the name, the address, the
  number of registers, the features it belongs to and who may read it are kept; the other members
  are zero in every entry.  The last entry ends the table.
\<close>

abbreviation (input) QDMA_MM_MODE :: u32 where "QDMA_MM_MODE \<equiv> 1"
abbreviation (input) QDMA_COMPLETION_MODE :: u32 where "QDMA_COMPLETION_MODE \<equiv> 2"
abbreviation (input) QDMA_ST_MODE :: u32 where "QDMA_ST_MODE \<equiv> 4"
abbreviation (input) QDMA_MAILBOX :: u32 where "QDMA_MAILBOX \<equiv> 8"
abbreviation (input) QDMA_MM_ST_MODE :: u32 where "QDMA_MM_ST_MODE \<equiv> 7"

datatype qdma_reg_read_type = QDMA_REG_READ_PF_ONLY | QDMA_REG_READ_VF_ONLY | QDMA_REG_READ_PF_VF

datatype xreg_info = xreg (xname: string) (xaddr: u32) (xrepeat: nat) (xmode: u32) (xread_type: qdma_reg_read_type)

definition config_regs_1 :: "xreg_info list" where
  "config_regs_1 = [
    xreg ''CFG_BLOCK_ID'' 0x0 1 QDMA_MM_ST_MODE QDMA_REG_READ_PF_ONLY,
    xreg ''CFG_BUSDEV'' 0x4 1 QDMA_MM_ST_MODE QDMA_REG_READ_PF_ONLY,
    xreg ''CFG_PCIE_MAX_PL_SZ'' 0x8 1 QDMA_MM_ST_MODE QDMA_REG_READ_PF_ONLY,
    xreg ''CFG_PCIE_MAX_RDRQ_SZ'' 0xC 1 QDMA_MM_ST_MODE QDMA_REG_READ_PF_ONLY,
    xreg ''CFG_SYS_ID'' 0x10 1 QDMA_MM_ST_MODE QDMA_REG_READ_PF_ONLY,
    xreg ''CFG_MSI_EN'' 0x14 1 QDMA_MM_ST_MODE QDMA_REG_READ_PF_ONLY,
    xreg ''CFG_PCIE_DATA_WIDTH'' 0x18 1 QDMA_MM_ST_MODE QDMA_REG_READ_PF_ONLY,
    xreg ''CFG_PCIE_CTRL'' 0x1C 1 QDMA_MM_ST_MODE QDMA_REG_READ_PF_ONLY,
    xreg ''CFG_AXI_USR_MAX_PL_SZ'' 0x40 1 QDMA_MM_ST_MODE QDMA_REG_READ_PF_ONLY,
    xreg ''CFG_AXI_USR_MAX_RDRQ_SZ'' 0x44 1 QDMA_MM_ST_MODE QDMA_REG_READ_PF_ONLY,
    xreg ''CFG_MISC_CTRL'' 0x4C 1 QDMA_MM_ST_MODE QDMA_REG_READ_PF_ONLY,
    xreg ''CFG_SCRATCH_REG'' 0x80 8 QDMA_MM_ST_MODE QDMA_REG_READ_PF_ONLY,
    xreg ''QDMA_RAM_SBE_MSK_A'' 0xF0 1 QDMA_MM_ST_MODE QDMA_REG_READ_PF_ONLY,
    xreg ''QDMA_RAM_SBE_STS_A'' 0xF4 1 QDMA_MM_ST_MODE QDMA_REG_READ_PF_ONLY,
    xreg ''QDMA_RAM_DBE_MSK_A'' 0xF8 1 QDMA_MM_ST_MODE QDMA_REG_READ_PF_ONLY,
    xreg ''QDMA_RAM_DBE_STS_A'' 0xFC 1 QDMA_MM_ST_MODE QDMA_REG_READ_PF_ONLY,
    xreg ''GLBL2_ID'' 0x100 1 QDMA_MM_ST_MODE QDMA_REG_READ_PF_ONLY,
    xreg ''GLBL2_PF_BL_INT'' 0x104 1 QDMA_MM_ST_MODE QDMA_REG_READ_PF_ONLY,
    xreg ''GLBL2_PF_VF_BL_INT'' 0x108 1 QDMA_MM_ST_MODE QDMA_REG_READ_PF_ONLY,
    xreg ''GLBL2_PF_BL_EXT'' 0x10C 1 QDMA_MM_ST_MODE QDMA_REG_READ_PF_ONLY,
    xreg ''GLBL2_PF_VF_BL_EXT'' 0x110 1 QDMA_MM_ST_MODE QDMA_REG_READ_PF_ONLY,
    xreg ''GLBL2_CHNL_INST'' 0x114 1 QDMA_MM_ST_MODE QDMA_REG_READ_PF_ONLY,
    xreg ''GLBL2_CHNL_QDMA'' 0x118 1 QDMA_MM_ST_MODE QDMA_REG_READ_PF_ONLY,
    xreg ''GLBL2_CHNL_STRM'' 0x11C 1 QDMA_MM_ST_MODE QDMA_REG_READ_PF_ONLY,
    xreg ''GLBL2_QDMA_CAP'' 0x120 1 QDMA_MM_ST_MODE QDMA_REG_READ_PF_ONLY,
    xreg ''GLBL2_PASID_CAP'' 0x128 1 QDMA_MM_ST_MODE QDMA_REG_READ_PF_ONLY,
    xreg ''GLBL2_FUNC_RET'' 0x12C 1 QDMA_MM_ST_MODE QDMA_REG_READ_PF_ONLY,
    xreg ''GLBL2_SYS_ID'' 0x130 1 QDMA_MM_ST_MODE QDMA_REG_READ_PF_ONLY,
    xreg ''GLBL2_MISC_CAP'' 0x134 1 QDMA_MM_ST_MODE QDMA_REG_READ_PF_ONLY,
    xreg ''GLBL2_DBG_PCIE_RQ'' 0x1B8 2 QDMA_MM_ST_MODE QDMA_REG_READ_PF_ONLY,
    xreg ''GLBL2_DBG_AXIMM_WR'' 0x1C0 2 QDMA_MM_ST_MODE QDMA_REG_READ_PF_ONLY,
    xreg ''GLBL2_DBG_AXIMM_RD'' 0x1C8 2 QDMA_MM_ST_MODE QDMA_REG_READ_PF_ONLY,
    xreg ''GLBL_RNGSZ'' 0x204 16 QDMA_MM_ST_MODE QDMA_REG_READ_PF_ONLY,
    xreg ''GLBL_ERR_STAT'' 0x248 1 QDMA_MM_ST_MODE QDMA_REG_READ_PF_VF,
    xreg ''GLBL_ERR_MASK'' 0x24C 1 QDMA_MM_ST_MODE QDMA_REG_READ_PF_VF,
    xreg ''GLBL_DSC_CFG'' 0x250 1 QDMA_MM_ST_MODE QDMA_REG_READ_PF_VF,
    xreg ''GLBL_DSC_ERR_STS'' 0x254 1 QDMA_MM_ST_MODE QDMA_REG_READ_PF_VF,
    xreg ''GLBL_DSC_ERR_MSK'' 0x258 1 QDMA_MM_ST_MODE QDMA_REG_READ_PF_VF,
    xreg ''GLBL_DSC_ERR_LOG'' 0x25C 2 QDMA_MM_ST_MODE QDMA_REG_READ_PF_VF]"

definition config_regs_2 :: "xreg_info list" where
  "config_regs_2 = [
    xreg ''GLBL_TRQ_ERR_STS'' 0x264 1 QDMA_MM_ST_MODE QDMA_REG_READ_PF_VF,
    xreg ''GLBL_TRQ_ERR_MSK'' 0x268 1 QDMA_MM_ST_MODE QDMA_REG_READ_PF_VF,
    xreg ''GLBL_TRQ_ERR_LOG'' 0x26C 1 QDMA_MM_ST_MODE QDMA_REG_READ_PF_VF,
    xreg ''GLBL_DSC_DBG_DAT'' 0x270 2 QDMA_MM_ST_MODE QDMA_REG_READ_PF_VF,
    xreg ''GLBL_DSC_ERR_LOG2'' 0x27C 1 QDMA_MM_ST_MODE QDMA_REG_READ_PF_VF,
    xreg ''GLBL_INTERRUPT_CFG'' 0x288 1 QDMA_MM_ST_MODE QDMA_REG_READ_PF_VF,
    xreg ''TRQ_SEL_FMAP'' 0x400 4 QDMA_MM_ST_MODE QDMA_REG_READ_PF_ONLY,
    xreg ''IND_CTXT_DATA'' 0x804 8 QDMA_MM_ST_MODE QDMA_REG_READ_PF_ONLY,
    xreg ''IND_CTXT_MASK'' 0x824 8 QDMA_MM_ST_MODE QDMA_REG_READ_PF_ONLY,
    xreg ''IND_CTXT_CMD'' 0x844 1 QDMA_MM_ST_MODE QDMA_REG_READ_PF_ONLY,
    xreg ''C2H_TIMER_CNT'' 0xA00 16 QDMA_COMPLETION_MODE QDMA_REG_READ_PF_ONLY,
    xreg ''C2H_CNT_THRESH'' 0xA40 16 QDMA_COMPLETION_MODE QDMA_REG_READ_PF_ONLY,
    xreg ''C2H_STAT_S_AXIS_C2H_ACCEPTED'' 0xA88 1 QDMA_ST_MODE QDMA_REG_READ_PF_VF,
    xreg ''C2H_STAT_S_AXIS_CMPT_ACCEPTED'' 0xA8C 1 QDMA_ST_MODE QDMA_REG_READ_PF_VF,
    xreg ''C2H_STAT_DESC_RSP_PKT_ACCEPTED'' 0xA90 1 QDMA_ST_MODE QDMA_REG_READ_PF_VF,
    xreg ''C2H_STAT_AXIS_PKG_CMP'' 0xA94 1 QDMA_ST_MODE QDMA_REG_READ_PF_VF,
    xreg ''C2H_STAT_DESC_RSP_ACCEPTED'' 0xA98 1 QDMA_ST_MODE QDMA_REG_READ_PF_VF,
    xreg ''C2H_STAT_DESC_RSP_CMP'' 0xA9C 1 QDMA_ST_MODE QDMA_REG_READ_PF_ONLY,
    xreg ''C2H_STAT_WRQ_OUT'' 0xAA0 1 QDMA_ST_MODE QDMA_REG_READ_PF_ONLY,
    xreg ''C2H_STAT_WPL_REN_ACCEPTED'' 0xAA4 1 QDMA_ST_MODE QDMA_REG_READ_PF_ONLY,
    xreg ''C2H_STAT_TOTAL_WRQ_LEN'' 0xAA8 1 QDMA_ST_MODE QDMA_REG_READ_PF_ONLY,
    xreg ''C2H_STAT_TOTAL_WPL_LEN'' 0xAAC 1 QDMA_ST_MODE QDMA_REG_READ_PF_ONLY,
    xreg ''C2H_BUF_SZ'' 0xAB0 16 QDMA_ST_MODE QDMA_REG_READ_PF_ONLY,
    xreg ''C2H_ERR_STAT'' 0xAF0 1 QDMA_ST_MODE QDMA_REG_READ_PF_VF,
    xreg ''C2H_ERR_MASK'' 0xAF4 1 QDMA_ST_MODE QDMA_REG_READ_PF_VF,
    xreg ''C2H_FATAL_ERR_STAT'' 0xAF8 1 QDMA_ST_MODE QDMA_REG_READ_PF_VF,
    xreg ''C2H_FATAL_ERR_MASK'' 0xAFC 1 QDMA_ST_MODE QDMA_REG_READ_PF_VF,
    xreg ''C2H_FATAL_ERR_ENABLE'' 0xB00 1 QDMA_ST_MODE QDMA_REG_READ_PF_VF,
    xreg ''GLBL_ERR_INT'' 0xB04 1 QDMA_ST_MODE QDMA_REG_READ_PF_VF,
    xreg ''C2H_PFCH_CFG'' 0xB08 1 QDMA_ST_MODE QDMA_REG_READ_PF_ONLY,
    xreg ''C2H_INT_TIMER_TICK'' 0xB0C 1 QDMA_ST_MODE QDMA_REG_READ_PF_ONLY,
    xreg ''C2H_STAT_DESC_RSP_DROP_ACCEPTED'' 0xB10 1 QDMA_ST_MODE QDMA_REG_READ_PF_VF,
    xreg ''C2H_STAT_DESC_RSP_ERR_ACCEPTED'' 0xB14 1 QDMA_ST_MODE QDMA_REG_READ_PF_VF,
    xreg ''C2H_STAT_DESC_REQ'' 0xB18 1 QDMA_ST_MODE QDMA_REG_READ_PF_ONLY,
    xreg ''C2H_STAT_DEBUG_DMA_ENG'' 0xB1C 4 QDMA_ST_MODE QDMA_REG_READ_PF_ONLY,
    xreg ''C2H_DBG_PFCH_ERR_CTXT'' 0xB2C 1 QDMA_ST_MODE QDMA_REG_READ_PF_ONLY,
    xreg ''C2H_FIRST_ERR_QID'' 0xB30 1 QDMA_ST_MODE QDMA_REG_READ_PF_VF,
    xreg ''STAT_NUM_CMPT_IN'' 0xB34 1 QDMA_ST_MODE QDMA_REG_READ_PF_ONLY,
    xreg ''STAT_NUM_CMPT_OUT'' 0xB38 1 QDMA_ST_MODE QDMA_REG_READ_PF_ONLY]"

definition config_regs_3 :: "xreg_info list" where
  "config_regs_3 = [
    xreg ''STAT_NUM_CMPT_DRP'' 0xB3C 1 QDMA_ST_MODE QDMA_REG_READ_PF_ONLY,
    xreg ''STAT_NUM_STAT_DESC_OUT'' 0xB40 1 QDMA_ST_MODE QDMA_REG_READ_PF_ONLY,
    xreg ''STAT_NUM_DSC_CRDT_SENT'' 0xB44 1 QDMA_ST_MODE QDMA_REG_READ_PF_ONLY,
    xreg ''STAT_NUM_FCH_DSC_RCVD'' 0xB48 1 QDMA_ST_MODE QDMA_REG_READ_PF_ONLY,
    xreg ''STAT_NUM_BYP_DSC_RCVD'' 0xB4C 1 QDMA_ST_MODE QDMA_REG_READ_PF_ONLY,
    xreg ''C2H_CMPT_COAL_CFG'' 0xB50 1 QDMA_ST_MODE QDMA_REG_READ_PF_ONLY,
    xreg ''C2H_INTR_H2C_REQ'' 0xB54 1 QDMA_ST_MODE QDMA_REG_READ_PF_VF,
    xreg ''C2H_INTR_C2H_MM_REQ'' 0xB58 1 QDMA_ST_MODE QDMA_REG_READ_PF_VF,
    xreg ''C2H_INTR_ERR_INT_REQ'' 0xB5C 1 QDMA_ST_MODE QDMA_REG_READ_PF_VF,
    xreg ''C2H_INTR_C2H_ST_REQ'' 0xB60 1 QDMA_ST_MODE QDMA_REG_READ_PF_VF,
    xreg ''C2H_INTR_H2C_ERR_MM_MSIX_ACK'' 0xB64 1 QDMA_ST_MODE QDMA_REG_READ_PF_ONLY,
    xreg ''C2H_INTR_H2C_ERR_MM_MSIX_FAIL'' 0xB68 1 QDMA_ST_MODE QDMA_REG_READ_PF_ONLY,
    xreg ''C2H_INTR_H2C_ERR_MM_NO_MSIX'' 0xB6C 1 QDMA_ST_MODE QDMA_REG_READ_PF_ONLY,
    xreg ''C2H_INTR_H2C_ERR_MM_CTXT_INVAL'' 0xB70 1 QDMA_ST_MODE QDMA_REG_READ_PF_ONLY,
    xreg ''C2H_INTR_C2H_ST_MSIX_ACK'' 0xB74 1 QDMA_ST_MODE QDMA_REG_READ_PF_VF,
    xreg ''C2H_INTR_C2H_ST_MSIX_FAIL'' 0xB78 1 QDMA_ST_MODE QDMA_REG_READ_PF_VF,
    xreg ''C2H_INTR_C2H_ST_NO_MSIX'' 0xB7C 1 QDMA_ST_MODE QDMA_REG_READ_PF_ONLY,
    xreg ''C2H_INTR_C2H_ST_CTXT_INVAL'' 0xB80 1 QDMA_ST_MODE QDMA_REG_READ_PF_ONLY,
    xreg ''C2H_STAT_WR_CMP'' 0xB84 1 QDMA_ST_MODE QDMA_REG_READ_PF_ONLY,
    xreg ''C2H_STAT_DEBUG_DMA_ENG_4'' 0xB88 1 QDMA_ST_MODE QDMA_REG_READ_PF_ONLY,
    xreg ''C2H_STAT_DEBUG_DMA_ENG_5'' 0xB8C 1 QDMA_ST_MODE QDMA_REG_READ_PF_ONLY,
    xreg ''C2H_DBG_PFCH_QID'' 0xB90 1 QDMA_ST_MODE QDMA_REG_READ_PF_ONLY,
    xreg ''C2H_DBG_PFCH'' 0xB94 1 QDMA_ST_MODE QDMA_REG_READ_PF_ONLY,
    xreg ''C2H_INT_DEBUG'' 0xB98 1 QDMA_ST_MODE QDMA_REG_READ_PF_ONLY,
    xreg ''C2H_STAT_IMM_ACCEPTED'' 0xB9C 1 QDMA_ST_MODE QDMA_REG_READ_PF_ONLY,
    xreg ''C2H_STAT_MARKER_ACCEPTED'' 0xBA0 1 QDMA_ST_MODE QDMA_REG_READ_PF_ONLY,
    xreg ''C2H_STAT_DISABLE_CMP_ACCEPTED'' 0xBA4 1 QDMA_ST_MODE QDMA_REG_READ_PF_ONLY,
    xreg ''C2H_C2H_PAYLOAD_FIFO_CRDT_CNT'' 0xBA8 1 QDMA_ST_MODE QDMA_REG_READ_PF_ONLY,
    xreg ''C2H_INTR_DYN_REQ'' 0xBAC 1 QDMA_ST_MODE QDMA_REG_READ_PF_ONLY,
    xreg ''C2H_INTR_DYN_MSIX'' 0xBB0 1 QDMA_ST_MODE QDMA_REG_READ_PF_ONLY,
    xreg ''C2H_DROP_LEN_MISMATCH'' 0xBB4 1 QDMA_ST_MODE QDMA_REG_READ_PF_ONLY,
    xreg ''C2H_DROP_DESC_RSP_LEN'' 0xBB8 1 QDMA_ST_MODE QDMA_REG_READ_PF_ONLY,
    xreg ''C2H_DROP_QID_FIFO_LEN'' 0xBBC 1 QDMA_ST_MODE QDMA_REG_READ_PF_ONLY,
    xreg ''C2H_DROP_PAYLOAD_CNT'' 0xBC0 1 QDMA_ST_MODE QDMA_REG_READ_PF_ONLY,
    xreg ''QDMA_C2H_CMPT_FORMAT'' 0xBC4 7 QDMA_ST_MODE QDMA_REG_READ_PF_ONLY,
    xreg ''C2H_PFCH_CACHE_DEPTH'' 0xBE0 1 QDMA_ST_MODE QDMA_REG_READ_PF_ONLY,
    xreg ''C2H_CMPT_COAL_BUF_DEPTH'' 0xBE4 1 QDMA_ST_MODE QDMA_REG_READ_PF_ONLY,
    xreg ''C2H_PFCH_CRDT'' 0xBE8 1 QDMA_ST_MODE QDMA_REG_READ_PF_ONLY,
    xreg ''H2C_ERR_STAT'' 0xE00 1 QDMA_ST_MODE QDMA_REG_READ_PF_VF]"

definition config_regs_4 :: "xreg_info list" where
  "config_regs_4 = [
    xreg ''H2C_ERR_MASK'' 0xE04 1 QDMA_ST_MODE QDMA_REG_READ_PF_VF,
    xreg ''H2C_FIRST_ERR_QID'' 0xE08 1 QDMA_ST_MODE QDMA_REG_READ_PF_VF,
    xreg ''H2C_DBG_REG'' 0xE0C 5 QDMA_ST_MODE QDMA_REG_READ_PF_ONLY,
    xreg ''H2C_FATAL_ERR_EN'' 0xE20 1 QDMA_ST_MODE QDMA_REG_READ_PF_ONLY,
    xreg ''H2C_REQ_THROT'' 0xE24 1 QDMA_ST_MODE QDMA_REG_READ_PF_ONLY,
    xreg ''H2C_ALN_DBG_REG0'' 0xE28 1 QDMA_ST_MODE QDMA_REG_READ_PF_ONLY,
    xreg ''C2H_MM_CONTROL'' 0x1004 3 QDMA_MM_MODE QDMA_REG_READ_PF_ONLY,
    xreg ''C2H_MM_STATUS'' 0x1040 2 QDMA_MM_MODE QDMA_REG_READ_PF_ONLY,
    xreg ''C2H_MM_CMPL_DSC_CNT'' 0x1048 1 QDMA_MM_MODE QDMA_REG_READ_PF_ONLY,
    xreg ''C2H_MM_ERR_CODE_EN_MASK'' 0x1054 1 QDMA_MM_MODE QDMA_REG_READ_PF_ONLY,
    xreg ''C2H_MM_ERR_CODE'' 0x1058 1 QDMA_MM_MODE QDMA_REG_READ_PF_ONLY,
    xreg ''C2H_MM_ERR_INFO'' 0x105C 1 QDMA_MM_MODE QDMA_REG_READ_PF_ONLY,
    xreg ''C2H_MM_PERF_MON_CTRL'' 0x10C0 1 QDMA_MM_MODE QDMA_REG_READ_PF_ONLY,
    xreg ''C2H_MM_PERF_MON_CY_CNT'' 0x10C4 2 QDMA_MM_MODE QDMA_REG_READ_PF_ONLY,
    xreg ''C2H_MM_PERF_MON_DATA_CNT'' 0x10CC 2 QDMA_MM_MODE QDMA_REG_READ_PF_ONLY,
    xreg ''C2H_MM_DBG_INFO'' 0x10E8 2 QDMA_MM_MODE QDMA_REG_READ_PF_ONLY,
    xreg ''H2C_MM_CONTROL'' 0x1204 3 QDMA_MM_MODE QDMA_REG_READ_PF_ONLY,
    xreg ''H2C_MM_STATUS'' 0x1240 1 QDMA_MM_MODE QDMA_REG_READ_PF_ONLY,
    xreg ''H2C_MM_CMPL_DSC_CNT'' 0x1248 1 QDMA_MM_MODE QDMA_REG_READ_PF_ONLY,
    xreg ''H2C_MM_ERR_CODE_EN_MASK'' 0x1254 1 QDMA_MM_MODE QDMA_REG_READ_PF_ONLY,
    xreg ''H2C_MM_ERR_CODE'' 0x1258 1 QDMA_MM_MODE QDMA_REG_READ_PF_ONLY,
    xreg ''H2C_MM_ERR_INFO'' 0x125C 1 QDMA_MM_MODE QDMA_REG_READ_PF_ONLY,
    xreg ''H2C_MM_PERF_MON_CTRL'' 0x12C0 1 QDMA_MM_MODE QDMA_REG_READ_PF_ONLY,
    xreg ''H2C_MM_PERF_MON_CY_CNT'' 0x12C4 2 QDMA_MM_MODE QDMA_REG_READ_PF_ONLY,
    xreg ''H2C_MM_PERF_MON_DATA_CNT'' 0x12CC 2 QDMA_MM_MODE QDMA_REG_READ_PF_ONLY,
    xreg ''H2C_MM_DBG_INFO'' 0x12E8 1 QDMA_MM_MODE QDMA_REG_READ_PF_ONLY,
    xreg ''H2C_MM_REQ_THROT'' 0x12EC 1 QDMA_MM_MODE QDMA_REG_READ_PF_ONLY,
    xreg ''FUNC_STATUS'' 0x2400 1 QDMA_MAILBOX QDMA_REG_READ_PF_ONLY,
    xreg ''FUNC_CMD'' 0x2404 1 QDMA_MAILBOX QDMA_REG_READ_PF_ONLY,
    xreg ''FUNC_INTR_VEC'' 0x2408 1 QDMA_MAILBOX QDMA_REG_READ_PF_ONLY,
    xreg ''TARGET_FUNC'' 0x240C 1 QDMA_MAILBOX QDMA_REG_READ_PF_ONLY,
    xreg ''INTR_CTRL'' 0x2410 1 QDMA_MAILBOX QDMA_REG_READ_PF_ONLY,
    xreg ''PF_ACK'' 0x2420 8 QDMA_MAILBOX QDMA_REG_READ_PF_ONLY,
    xreg ''FLR_CTRL_STATUS'' 0x2500 1 QDMA_MAILBOX QDMA_REG_READ_PF_ONLY,
    xreg ''MSG_IN'' 0x2800 32 QDMA_MAILBOX QDMA_REG_READ_PF_ONLY,
    xreg ''MSG_OUT'' 0x2C00 32 QDMA_MAILBOX QDMA_REG_READ_PF_ONLY,
    xreg '''' 0x0 0 0 QDMA_REG_READ_PF_ONLY]"

definition qdma_config_regs :: "xreg_info list" where
  "qdma_config_regs = config_regs_1 @ config_regs_2 @ config_regs_3 @ config_regs_4"

text \<open>The entry of an address, among all but the last.\<close>

definition get_reg_entry :: "u32 \<Rightarrow> int \<times> int" where
  "get_reg_entry reg_addr = (case find (\<lambda>i. xaddr (qdma_config_regs ! i) = reg_addr) [0..<length qdma_config_regs - 1] of
     Some i \<Rightarrow> (0, int i) | None \<Rightarrow> (- QDMA_ERR_INV_PARAM, -1))"

definition GET_CAPABILITY_MASK :: "qdma_dev_attributes \<Rightarrow> u32" where
  "GET_CAPABILITY_MASK a =
     of_bool (at_mm_en a) OR push_bit 1 (of_bool (at_mm_cmpt_en a) OR of_bool (at_st_en a)) OR
     push_bit 2 (of_bool (at_st_en a)) OR push_bit 3 (of_bool (at_mailbox_en a))"

text \<open>
  The loops: an entry is skipped if it belongs to no feature of the device or is for physical
  functions only; at most fourteen registers are read.  A register is stored behind the ones read
  before it, so the caller's array is filled from its start.
\<close>

definition vf_readable :: "u32 \<Rightarrow> xreg_info \<Rightarrow> bool" where
  "vf_readable caps x \<longleftrightarrow> \<not> (caps AND xmode x = 0 \<or> xread_type x = QDMA_REG_READ_PF_ONLY)"

fun read_repeats :: "reg_env \<Rightarrow> u32 \<Rightarrow> nat \<Rightarrow> nat \<Rightarrow> nat \<times> (u32 \<times> u32) list \<times> reg_op list \<Rightarrow>
    (nat \<times> (u32 \<times> u32) list \<times> reg_op list) res" where
  "read_repeats env addr j 0 s = Inr s"
| "read_repeats env addr j (Suc n) (cnt, rs, t) =
     (if cnt < QDMA_MAX_REGISTER_DUMP
      then let (v, t) = qdma_reg_read env (addr + of_nat j * 4) t
           in rbind (wr rs cnt (addr + of_nat j * 4, v)) (\<lambda>rs. read_repeats env addr (Suc j) n (Suc cnt, rs, t))
      else Inr (cnt, rs, t))"

fun read_entries :: "reg_env \<Rightarrow> u32 \<Rightarrow> xreg_info list \<Rightarrow> nat \<times> (u32 \<times> u32) list \<times> reg_op list \<Rightarrow>
    (nat \<times> (u32 \<times> u32) list \<times> reg_op list) res" where
  "read_entries env caps [] s = Inr s"
| "read_entries env caps (x # xs) s =
     (if QDMA_MAX_REGISTER_DUMP \<le> fst s then Inr s
      else if \<not> vf_readable caps x then read_entries env caps xs s
      else rbind (read_repeats env (xaddr x) 0 (xrepeat x) s) (read_entries env caps xs))"

definition group_start :: "u16 \<Rightarrow> u32 option" where
  "group_start g = (if g = 0 then Some 0x000 else if g = 1 then Some 0x400 else if g = 2 then Some 0xB00
     else if g = 3 then Some 0x1014 else None)"

text \<open>The groups are numbered from 0.  The number of registers and the list are the caller's.\<close>

definition qdma_read_reg_list :: "dev_hndl \<Rightarrow> bool \<Rightarrow> u16 \<Rightarrow> u16 \<Rightarrow> (u32 \<times> u32) list option \<Rightarrow> reg_op list \<Rightarrow>
    (int \<times> u16 \<times> (u32 \<times> u32) list option \<times> reg_op list) res" where
  "qdma_read_reg_list dev is_vf grp ntotal regs t =
     (if \<not> is_vf then Inr (- QDMA_ERR_HWACC_FEATURE_NOT_SUPPORTED, ntotal, regs, t)
      else case (dev, regs) of
        (Some env, Some rs) \<Rightarrow>
          let (dev_cap, t) = read_dev_attributes env t in
          (case group_start grp of
             None \<Rightarrow> Inr (- QDMA_ERR_INV_PARAM, ntotal, regs, t)
           | Some start \<Rightarrow>
               let (rv, reg_index) = get_reg_entry start in
               if rv < 0 then Inr (rv, ntotal, regs, t)
               else rbind (read_entries env (GET_CAPABILITY_MASK dev_cap)
                       (butlast (drop (nat reg_index) qdma_config_regs)) (0, rs, t))
                     (\<lambda>(cnt, rs, t). Inr (rv, of_nat cnt, Some rs, t)))
      | _ \<Rightarrow> Inr (- QDMA_ERR_INV_PARAM, ntotal, regs, t))"

subsection \<open>What is read\<close>

definition entry_addrs :: "xreg_info \<Rightarrow> u32 list" where
  "entry_addrs x = map (\<lambda>j. xaddr x + of_nat j * 4) [0..<xrepeat x]"

definition vf_addrs :: "u32 \<Rightarrow> xreg_info list \<Rightarrow> u32 list" where
  "vf_addrs caps xs = concat (map entry_addrs (filter (vf_readable caps) xs))"

text \<open>The registers at the given addresses with what is read there, in order.\<close>

fun reg_data :: "reg_env \<Rightarrow> reg_op list \<Rightarrow> u32 list \<Rightarrow> (u32 \<times> u32) list" where
  "reg_data env t [] = []"
| "reg_data env t (a # as) = (a, env (t @ [Reg_Read a])) # reg_data env (t @ [Reg_Read a]) as"

lemma reg_data_append: "reg_data env t (as @ bs) = reg_data env t as @ reg_data env (t @ map Reg_Read as) bs"
  by (induction as arbitrary: t) simp_all

lemma length_reg_data [simp]: "length (reg_data env t as) = length as"
  by (induction as arbitrary: t) simp_all

lemma fst_reg_data [simp]: "map fst (reg_data env t as) = as"
  by (induction as arbitrary: t) simp_all

text \<open>The array after registers have been read into it behind the first \<open>cnt\<close> entries.\<close>

definition filled :: "reg_env \<Rightarrow> u32 list \<Rightarrow> nat \<times> (u32 \<times> u32) list \<times> reg_op list \<Rightarrow> nat \<times> (u32 \<times> u32) list \<times> reg_op list" where
  "filled env as s = (case s of (cnt, rs, t) \<Rightarrow>
     let as = take (QDMA_MAX_REGISTER_DUMP - cnt) as
     in (cnt + length as, take cnt rs @ reg_data env t as @ drop (cnt + length as) rs, t @ map Reg_Read as))"

lemma filled_Nil: "cnt \<le> 14 \<Longrightarrow> filled env [] (cnt, rs, t) = (cnt, rs, t)"
  by (simp add: filled_def)

lemma filled_full: "14 \<le> cnt \<Longrightarrow> filled env as (cnt, rs, t) = (cnt, rs, t)"
  by (simp add: filled_def)

lemma filled_Cons:
  assumes "cnt < 14" "length rs = 14"
  shows "filled env (a # as) (cnt, rs, t) =
    filled env as (Suc cnt, rs[cnt := (a, env (t @ [Reg_Read a]))], t @ [Reg_Read a])"
proof -
  have "14 - cnt = Suc (14 - Suc cnt)" using assms by simp
  then have tk: "take (14 - cnt) (a # as) = a # take (14 - Suc cnt) as" by simp
  have u: "take (Suc cnt) (rs[cnt := x]) = take cnt rs @ [x]" for x
    using assms by (simp add: take_Suc_conv_app_nth)
  show ?thesis
    using assms unfolding filled_def prod.case Let_def tk u by simp
qed

lemma filled_append:
  assumes "cnt \<le> 14" "length rs = 14"
  shows "filled env (as @ bs) (cnt, rs, t) = filled env bs (filled env as (cnt, rs, t))"
  using assms
proof (induction as arbitrary: cnt rs t)
  case Nil
  then show ?case by (simp add: filled_Nil)
next
  case (Cons a as)
  show ?case
  proof (cases "cnt < 14")
    case True
    then show ?thesis using Cons by (simp add: filled_Cons)
  next
    case False
    then show ?thesis using Cons.prems by (simp add: filled_full)
  qed
qed

lemma filled_shape:
  assumes "cnt \<le> 14" "length rs = 14" "filled env as (cnt, rs, t) = (cnt', rs', t')"
  shows "cnt' \<le> 14 \<and> length rs' = 14"
  using assms by (auto simp: filled_def Let_def)

lemma read_repeats_filled:
  assumes "cnt \<le> 14" "length rs = 14"
  shows "read_repeats env addr j n (cnt, rs, t) = Inr (filled env (map (\<lambda>j. addr + of_nat j * 4) [j..<j + n]) (cnt, rs, t))"
  using assms
proof (induction n arbitrary: j cnt rs t)
  case 0
  then show ?case by (simp add: filled_Nil)
next
  case (Suc n)
  have up: "[j..<Suc (j + n)] = j # [Suc j..<Suc (j + n)]" by (simp add: upt_conv_Cons del: upt_Suc)
  show ?case
  proof (cases "cnt < 14")
    case True
    then show ?thesis
      using Suc by (simp add: up filled_Cons qdma_reg_read_def del: upt_Suc)
  next
    case False
    then show ?thesis using Suc.prems by (simp add: filled_full)
  qed
qed

lemma read_entries_filled:
  assumes "cnt \<le> 14" "length rs = 14"
  shows "read_entries env caps xs (cnt, rs, t) = Inr (filled env (vf_addrs caps xs) (cnt, rs, t))"
  using assms
proof (induction xs arbitrary: cnt rs t)
  case Nil
  then show ?case by (simp add: vf_addrs_def filled_Nil)
next
  case (Cons x xs)
  obtain c1 r1 t1 where f: "filled env (entry_addrs x) (cnt, rs, t) = (c1, r1, t1)" by (rule prod_cases3)
  have s: "c1 \<le> 14" "length r1 = 14" using filled_shape[OF Cons.prems f] by auto
  have va: "vf_addrs caps (x # xs) = (if vf_readable caps x then entry_addrs x else []) @ vf_addrs caps xs"
    by (simp add: vf_addrs_def)
  have rr: "read_repeats env (xaddr x) 0 (xrepeat x) (cnt, rs, t) = Inr (c1, r1, t1)"
    using read_repeats_filled[OF Cons.prems, of env "xaddr x" 0 "xrepeat x" t] f by (simp add: entry_addrs_def)
  show ?case
    using Cons s by (auto simp: va rr f filled_append filled_full filled_Nil not_less)
qed

subsection \<open>The groups\<close>

definition vf_group_0 :: "u32 list" where
  "vf_group_0 = [0x248, 0x24C, 0x250, 0x254, 0x258, 0x25C, 0x260, 0x264, 0x268, 0x26C, 0x270, 0x274, 0x27C, 0x288]"

definition vf_group_1 :: "u32 list" where
  "vf_group_1 = [0xA88, 0xA8C, 0xA90, 0xA94, 0xA98, 0xAF0, 0xAF4, 0xAF8, 0xAFC, 0xB00, 0xB04, 0xB10, 0xB14, 0xB30]"

definition vf_group_2 :: "u32 list" where
  "vf_group_2 = [0xB00, 0xB04, 0xB10, 0xB14, 0xB30, 0xB54, 0xB58, 0xB5C, 0xB60, 0xB74, 0xB78, 0xE00, 0xE04, 0xE08]"

definition vf_group :: "qdma_dev_attributes \<Rightarrow> u16 \<Rightarrow> u32 list option" where
  "vf_group a g = (if g = 0 then Some (if at_mm_en a \<or> st_or_cmpt a then vf_group_0 else [])
     else if g = 1 then Some (if at_st_en a then vf_group_1 else [])
     else if g = 2 then Some (if at_st_en a then vf_group_2 else []) else None)"

lemmas table_defs = qdma_config_regs_def config_regs_1_def config_regs_2_def config_regs_3_def config_regs_4_def

lemma entries_found:
  "get_reg_entry 0 = (0, 0)" "get_reg_entry 0x400 = (0, 45)" "get_reg_entry 0xB00 = (0, 66)"
  "get_reg_entry 0x1014 = (- QDMA_ERR_INV_PARAM, -1)"
  by code_simp+

lemma vf_modes: "list_all (\<lambda>x. xread_type x = QDMA_REG_READ_PF_ONLY \<or> xmode x = 7 \<or> xmode x = 4) (butlast qdma_config_regs)"
  by code_simp

lemma vf_tables:
  "take 14 (vf_addrs 15 (butlast (drop 0 qdma_config_regs))) = vf_group_0"
  "take 14 (vf_addrs 15 (butlast (drop 45 qdma_config_regs))) = vf_group_1"
  "take 14 (vf_addrs 15 (butlast (drop 66 qdma_config_regs))) = vf_group_2"
  "take 14 (vf_addrs 3 (butlast (drop 0 qdma_config_regs))) = vf_group_0"
  "take 14 (vf_addrs 3 (butlast (drop 45 qdma_config_regs))) = []"
  "take 14 (vf_addrs 3 (butlast (drop 66 qdma_config_regs))) = []"
  by code_simp+

lemma caps_bits:
  "GET_CAPABILITY_MASK a AND 4 = 0 \<longleftrightarrow> \<not> at_st_en a"
  "GET_CAPABILITY_MASK a AND 7 = 0 \<longleftrightarrow> \<not> (at_mm_en a \<or> st_or_cmpt a)"
  by (cases "at_mm_en a"; cases "at_st_en a"; cases "at_mm_cmpt_en a"; cases "at_mailbox_en a";
      simp add: GET_CAPABILITY_MASK_def st_or_cmpt_def)+

lemma vf_addrs_class:
  "vf_addrs (GET_CAPABILITY_MASK a) (butlast (drop i qdma_config_regs)) =
     (if at_st_en a then vf_addrs 15 (butlast (drop i qdma_config_regs))
      else if at_mm_en a \<or> st_or_cmpt a then vf_addrs 3 (butlast (drop i qdma_config_regs)) else [])"
proof -
  have "set (butlast (drop i qdma_config_regs)) \<subseteq> set (butlast qdma_config_regs)"
    by (metis drop_butlast set_drop_subset)
  then have m: "xread_type x = QDMA_REG_READ_PF_ONLY \<or> xmode x = 7 \<or> xmode x = 4"
    if "x \<in> set (butlast (drop i qdma_config_regs))" for x
    using vf_modes that by (auto simp: list_all_iff)
  have "vf_readable (GET_CAPABILITY_MASK a) x \<longleftrightarrow>
      (if at_st_en a then vf_readable 15 x else if at_mm_en a \<or> st_or_cmpt a then vf_readable 3 x else False)"
    if "x \<in> set (butlast (drop i qdma_config_regs))" for x
    using m[OF that] caps_bits[of a] by (auto simp: vf_readable_def st_or_cmpt_def)
  then have "filter (vf_readable (GET_CAPABILITY_MASK a)) (butlast (drop i qdma_config_regs)) =
      (if at_st_en a then filter (vf_readable 15) (butlast (drop i qdma_config_regs))
       else if at_mm_en a \<or> st_or_cmpt a then filter (vf_readable 3) (butlast (drop i qdma_config_regs)) else [])"
    by (auto intro: filter_cong simp: filter_empty_conv)
  then show ?thesis by (simp add: vf_addrs_def)
qed

lemma read_list_filled:
  assumes "length rs = 14" "get_reg_entry start = (0, i)" "group_start g = Some start" "read_dev_attributes env t = (a, t1)"
    and "take 14 (vf_addrs (GET_CAPABILITY_MASK a) (butlast (drop (nat i) qdma_config_regs))) = as"
  shows "qdma_read_reg_list (Some env) True g n (Some rs) t =
     Inr (QDMA_SUCCESS, of_nat (length as), Some (reg_data env t1 as @ drop (length as) rs), t1 @ map Reg_Read as)"
proof -
  have "length as = min (length (vf_addrs (GET_CAPABILITY_MASK a) (butlast (drop (nat i) qdma_config_regs)))) 14"
    by (simp flip: assms(5))
  then show ?thesis using assms by (simp add: qdma_read_reg_list_def read_entries_filled filled_def)
qed

subsection \<open>Property\<close>

text \<open>
  C34: the register lists of a virtual function.  For groups 0, 1 and 2 the list is exactly the
  registers of the table, from the group's start on, that belong to a feature of the device and that
  a virtual function may read, up to fourteen, each with the value read, and the caller's array is
  never overrun; together the three groups hold every register of the table a virtual function may
  read.  Group 3 is always refused, although it is one of the four: its start is not in the table.
\<close>

theorem qdma_read_reg_list_exact:
  assumes "length rs = QDMA_MAX_REGISTER_DUMP" and "read_dev_attributes env t = (a, t1)"
  shows "qdma_read_reg_list (Some env) True grp n (Some rs) t =
      (case vf_group a grp of
         Some as \<Rightarrow> Inr (QDMA_SUCCESS, of_nat (length as), Some (reg_data env t1 as @ drop (length as) rs), t1 @ map Reg_Read as)
       | None \<Rightarrow> Inr (- QDMA_ERR_INV_PARAM, n, Some rs, t1)) \<and>
    (\<forall>x \<in> set (butlast qdma_config_regs). vf_readable (GET_CAPABILITY_MASK a) x \<longrightarrow>
       set (entry_addrs x) \<subseteq> \<Union> (set ` (\<lambda>g. the (vf_group a g)) ` {0, 1, 2}))"
proof -
  have all: "list_all (\<lambda>x. xread_type x = QDMA_REG_READ_PF_ONLY \<or>
      (xmode x = 7 \<and> list_all (\<lambda>y. y \<in> set vf_group_0) (entry_addrs x)) \<or>
      (xmode x = 4 \<and> list_all (\<lambda>y. y \<in> set vf_group_1 \<or> y \<in> set vf_group_2) (entry_addrs x))) (butlast qdma_config_regs)"
    by code_simp
  have "set (entry_addrs x) \<subseteq> \<Union> (set ` (\<lambda>g. the (vf_group a g)) ` {0, 1, 2})"
    if "x \<in> set (butlast qdma_config_regs)" "vf_readable (GET_CAPABILITY_MASK a) x" for x
    using all that caps_bits[of a] by (auto simp: list_all_iff vf_readable_def vf_group_def st_or_cmpt_def split: if_splits)
  moreover have "qdma_read_reg_list (Some env) True grp n (Some rs) t =
      (case vf_group a grp of
         Some as \<Rightarrow> Inr (QDMA_SUCCESS, of_nat (length as), Some (reg_data env t1 as @ drop (length as) rs), t1 @ map Reg_Read as)
       | None \<Rightarrow> Inr (- QDMA_ERR_INV_PARAM, n, Some rs, t1))"
  proof (cases "grp = 0 \<or> grp = 1 \<or> grp = 2")
    case True
    then obtain i start where e: "get_reg_entry start = (0, int i)" "group_start grp = Some start"
      "take 14 (vf_addrs (GET_CAPABILITY_MASK a) (butlast (drop i qdma_config_regs))) = the (vf_group a grp)"
      "vf_group a grp \<noteq> None"
      using entries_found vf_tables by (auto simp: group_start_def vf_group_def vf_addrs_class st_or_cmpt_def
        intro: that[of 0 0] that[of "0x400" 45] that[of "0xB00" 66])
    then show ?thesis using read_list_filled[OF _ e(1,2) assms(2)] assms(1) by auto
  next
    case False
    then show ?thesis
      using assms(2) entries_found(4) by (auto simp: qdma_read_reg_list_def vf_group_def group_start_def)
  qed
  ultimately show ?thesis by blast
qed

text \<open>A device that reports no feature: the group is empty, and group 3 is refused.\<close>

theorem qdma_read_reg_list_exact_witness:
  "\<exists>t. qdma_read_reg_list (Some (\<lambda>_. 0)) True 0 7 (Some (replicate 14 (0, 0))) [] =
      Inr (0, 0, Some (replicate 14 (0, 0)), t) \<and>
    qdma_read_reg_list (Some (\<lambda>_. 0)) True 3 7 (Some (replicate 14 (0, 0))) [] =
      Inr (- QDMA_ERR_INV_PARAM, 7, Some (replicate 14 (0, 0)), t)"
proof -
  obtain a t1 where d: "read_dev_attributes (\<lambda>_. 0) [] = (a, t1)" by fastforce
  have "\<not> at_mm_en (fst (read_dev_attributes (\<lambda>_. 0) [])) \<and> \<not> st_or_cmpt (fst (read_dev_attributes (\<lambda>_. 0) []))" by code_simp
  then have "vf_group a 0 = Some []" "vf_group a 3 = None" using d by (simp_all add: vf_group_def)
  then show ?thesis
    using qdma_read_reg_list_exact[of "replicate 14 (0, 0)" "\<lambda>_. 0" "[]", OF _ d, of 0 7]
      qdma_read_reg_list_exact[of "replicate 14 (0, 0)" "\<lambda>_. 0" "[]", OF _ d, of 3 7] by auto
qed

end
