(* ===== verification/Qdma_System.thy ===== *)
theory Qdma_System
  imports Qdma_Soft_Props Qdma_Csr_Props Qdma_Regs
begin

text \<open>
  The mailbox protocol on the register access library.  The physical function's handler calls the
  hardware access functions through a table of pointers (\<open>struct qdma_hw_access\<close>) that
  \<open>qdma_hw_access_init\<close> fills with the functions of \<open>qdma_soft_access.c\<close>: \<open>soft_call\<close> is that table,
  and \<open>soft_env\<close> the environment of the handler it gives on a register file.  What is proved of the
  handler for every environment then says which registers a message of a virtual function changes.
  Contexts are read into the response, whose buffer is allocated cleared.
\<close>

unbundle bit_operations_syntax

subsection \<open>The access functions behind the handler\<close>

definition rv_reply :: "int \<Rightarrow> hw_reply" where
  "rv_reply rv = \<lparr>hw_rv = rv, rd_ctxt = zero_context, rd_intr = zero_ic_ctxt, rd_csr = replicate 16 0,
     rd_attr = zero_attr, rd_regs = []\<rparr>"

abbreviation c2h_arg :: "bool \<Rightarrow> u8" where "c2h_arg b \<equiv> of_bool b"

text \<open>The structure passed: for a read the cleared one of the response, otherwise the caller's.\<close>

definition arg_of :: "'c \<Rightarrow> 'c option \<Rightarrow> qdma_hw_access_type \<Rightarrow> 'c option" where
  "arg_of z c acc = (if acc = QDMA_HW_ACCESS_READ then Some z else c)"

definition ctxt_reply :: "('c \<Rightarrow> hw_reply \<Rightarrow> hw_reply) \<Rightarrow> int \<times> 'c option \<times> reg_op list \<Rightarrow> hw_reply \<times> reg_op list" where
  "ctxt_reply put r = (case r of (rv, c, t) \<Rightarrow>
     ((case c of None \<Rightarrow> rv_reply rv | Some c \<Rightarrow> put c (rv_reply rv)), t))"

definition soft_call :: "reg_env \<Rightarrow> hw_call \<Rightarrow> reg_op list \<Rightarrow> hw_reply \<times> reg_op list" where
  "soft_call renv c t = (case c of
     Sw_Ctx c2h q x acc \<Rightarrow> ctxt_reply (\<lambda>c r. r\<lparr>rd_ctxt := (rd_ctxt r)\<lparr>dc_sw := c\<rparr>\<rparr>)
       (qdma_sw_ctx_conf (Some renv) (c2h_arg c2h) q (arg_of zero_sw_ctxt x acc) acc t)
   | Hw_Ctx c2h q acc \<Rightarrow> ctxt_reply (\<lambda>c r. r\<lparr>rd_ctxt := (rd_ctxt r)\<lparr>dc_hw := c\<rparr>\<rparr>)
       (qdma_hw_ctx_conf (Some renv) (c2h_arg c2h) q (arg_of (dc_hw zero_context) None acc) acc t)
   | Credit_Ctx c2h q acc \<Rightarrow> ctxt_reply (\<lambda>c r. r\<lparr>rd_ctxt := (rd_ctxt r)\<lparr>dc_cr := c\<rparr>\<rparr>)
       (qdma_credit_ctx_conf (Some renv) (c2h_arg c2h) q (arg_of (dc_cr zero_context) None acc) acc t)
   | Pfetch_Ctx q x acc \<Rightarrow> ctxt_reply (\<lambda>c r. r\<lparr>rd_ctxt := (rd_ctxt r)\<lparr>dc_pf := c\<rparr>\<rparr>)
       (qdma_pfetch_ctx_conf (Some renv) q (arg_of zero_pf_ctxt x acc) acc t)
   | Cmpt_Ctx q x acc \<Rightarrow> ctxt_reply (\<lambda>c r. r\<lparr>rd_ctxt := (rd_ctxt r)\<lparr>dc_cm := c\<rparr>\<rparr>)
       (qdma_cmpt_ctx_conf (Some renv) q (arg_of zero_cm_ctxt x acc) acc t)
   | Fmap_Conf f x acc \<Rightarrow> ctxt_reply (\<lambda>c r. r\<lparr>rd_ctxt := (rd_ctxt r)\<lparr>dc_fmap := c\<rparr>\<rparr>)
       (qdma_fmap_conf (Some renv) f (arg_of zero_fmap x acc) acc t)
   | Intr_Ctx i x acc \<Rightarrow> ctxt_reply (\<lambda>c r. r\<lparr>rd_intr := c\<rparr>)
       (qdma_indirect_intr_ctx_conf (Some renv) i (arg_of zero_ic_ctxt x acc) acc t)
   | Global_Csr ty \<Rightarrow>
       (case qdma_global_csr_conf (Some renv) 0 16 (Some (replicate 16 0)) ty QDMA_HW_ACCESS_READ t of
          Inl _ \<Rightarrow> (rv_reply 0, t)
        | Inr r \<Rightarrow> ctxt_reply (\<lambda>vs r. r\<lparr>rd_csr := vs\<rparr>) r)
   | Get_Attributes \<Rightarrow> ctxt_reply (\<lambda>a r. r\<lparr>rd_attr := a\<rparr>) (qdma_get_device_attributes (Some renv) (Some zero_attr) t)
   | Read_Reg_List g \<Rightarrow>
       (case qdma_read_reg_list (Some renv) True g 0 (Some (replicate QDMA_MAX_REGISTER_DUMP (0, 0))) t of
          Inl _ \<Rightarrow> (rv_reply 0, t)
        | Inr (rv, n, rs, t) \<Rightarrow> ctxt_reply (\<lambda>rs r. r\<lparr>rd_regs := take (unat n) rs\<rparr>) (rv, rs, t)))"

definition soft_trace :: "reg_env \<Rightarrow> hw_call list \<Rightarrow> reg_op list \<Rightarrow> reg_op list" where
  "soft_trace renv cs t = fold (\<lambda>c t. snd (soft_call renv c t)) cs t"

text \<open>The reply to the last of a history of calls, on a register file where \<open>t0\<close> was done before.\<close>

definition soft_env :: "reg_env \<Rightarrow> reg_op list \<Rightarrow> hw_env" where
  "soft_env renv t0 cs = fst (soft_call renv (last cs) (soft_trace renv (butlast cs) t0))"

lemma soft_trace_simps [simp]:
  "soft_trace renv [] t = t" "soft_trace renv (c # cs) t = soft_trace renv cs (snd (soft_call renv c t))"
  "soft_trace renv (cs @ ds) t = soft_trace renv ds (soft_trace renv cs t)"
  by (simp_all add: soft_trace_def)

lemma soft_env_snoc: "soft_env renv t0 (cs @ [c]) = fst (soft_call renv c (soft_trace renv cs t0))"
  by (simp add: soft_env_def)

subsection \<open>What the calls write\<close>

definition writes_only :: "(u32 \<Rightarrow> u32 \<Rightarrow> bool) \<Rightarrow> reg_op list \<Rightarrow> reg_op list \<Rightarrow> bool" where
  "writes_only w t t' \<longleftrightarrow> (\<exists>ops. t' = t @ ops \<and> (\<forall>a v. Reg_Write a v \<in> set ops \<longrightarrow> w a v))"

named_theorems wo_intros \<open>rules for steps that write to some registers only\<close>

lemma writes_only_refl [wo_intros]: "writes_only w t t"
  by (simp add: writes_only_def)

lemma writes_only_trans: "writes_only w t u \<Longrightarrow> writes_only w u v \<Longrightarrow> writes_only w t v"
  by (fastforce simp: writes_only_def)

lemma writes_only_append: "writes_only w (t @ ops) t' \<Longrightarrow> (\<And>a v. Reg_Write a v \<in> set ops \<Longrightarrow> w a v) \<Longrightarrow> writes_only w t t'"
  using writes_only_trans[of w t "t @ ops" t'] by (auto simp: writes_only_def)

lemma reg_writes_addr:
  "Reg_Write a v \<in> set (reg_writes b ws) \<Longrightarrow> \<exists>i < length ws. a = b + 4 * of_nat i \<and> v = ws ! i"
proof (induction ws arbitrary: b)
  case (Cons x ws)
  then show ?case
  proof (cases "a = b \<and> v = x")
    case False
    then obtain i where "i < length ws" "a = (b + 4) + 4 * of_nat i" "v = ws ! i" using Cons by auto
    then show ?thesis by (intro exI[of _ "Suc i"]) (simp add: algebra_simps)
  qed auto
qed simp

lemma reg_reads_no_write [simp]: "Reg_Write a v \<notin> set (reg_reads b n)"
  by (induction n arbitrary: b) simp_all

text \<open>The registers of the indirect context block, and the command written to the last of them.\<close>

definition block_writes :: "(u32 \<Rightarrow> bool) \<Rightarrow> u32 \<Rightarrow> u32 \<Rightarrow> bool" where
  "block_writes ok a v \<longleftrightarrow> QDMA_OFFSET_IND_CTXT_DATA \<le> a \<and> a < QDMA_OFFSET_IND_CTXT_CMD \<or> a = QDMA_OFFSET_IND_CTXT_CMD \<and> ok v"

lemma ind_ctxt_regs_writes:
  assumes "Reg_Write a v \<in> set (reg_writes QDMA_OFFSET_IND_CTXT_DATA (ind_ctxt_regs sel q ws))"
  shows "block_writes (\<lambda>v. v = ind_ctxt_cmd QDMA_CTXT_CMD_WR sel q) a v"
proof -
  obtain i where i: "i < length (ind_ctxt_regs sel q ws)" "a = QDMA_OFFSET_IND_CTXT_DATA + 4 * of_nat i" "v = ind_ctxt_regs sel q ws ! i"
    using reg_writes_addr[OF assms] by blast
  have n: "i < 17" using i(1) by (simp add: ind_ctxt_regs_def)
  have u: "uint (QDMA_OFFSET_IND_CTXT_DATA + 4 * of_nat i) = 0x804 + 4 * int i"
    using n by (simp add: uint_word_ariths uint_word_of_int unsigned_of_nat take_bit_eq_mod)
  show ?thesis
  proof (cases "i = 16")
    case True
    then show ?thesis using i by (simp add: block_writes_def ind_ctxt_regs_def nth_append)
  next
    case False
    then have "i < 16" using n by simp
    then show ?thesis using u by (simp add: block_writes_def i(2) word_le_def word_less_def)
  qed
qed

lemma writes_only_poll: "snd (poll_cmd env t) = t' \<Longrightarrow> writes_only w t t'"
  using poll_cmd_reads[of env t] by (auto simp: writes_only_def)

lemma writes_only_indirect [wo_intros]:
  "ok (ind_ctxt_cmd QDMA_CTXT_CMD_CLR sel q) \<Longrightarrow> writes_only (block_writes ok) t (snd (qdma_indirect_reg_clear env sel q t))"
  "ok (ind_ctxt_cmd QDMA_CTXT_CMD_INV sel q) \<Longrightarrow> writes_only (block_writes ok) t (snd (qdma_indirect_reg_invalidate env sel q t))"
  "ok (ind_ctxt_cmd QDMA_CTXT_CMD_WR sel q) \<Longrightarrow> writes_only (block_writes ok) t (snd (qdma_indirect_reg_write env sel q ws t))"
  "ok (ind_ctxt_cmd QDMA_CTXT_CMD_RD sel q) \<Longrightarrow> writes_only (block_writes ok) t (snd (snd (qdma_indirect_reg_read env sel q n t)))"
proof -
  assume "ok (ind_ctxt_cmd QDMA_CTXT_CMD_CLR sel q)"
  then show "writes_only (block_writes ok) t (snd (qdma_indirect_reg_clear env sel q t))"
    unfolding qdma_indirect_reg_clear_def qdma_reg_write_def
    by (intro writes_only_append[OF writes_only_poll[OF refl]]) (auto simp: block_writes_def)
next
  assume "ok (ind_ctxt_cmd QDMA_CTXT_CMD_INV sel q)"
  then show "writes_only (block_writes ok) t (snd (qdma_indirect_reg_invalidate env sel q t))"
    unfolding qdma_indirect_reg_invalidate_def qdma_reg_write_def
    by (intro writes_only_append[OF writes_only_poll[OF refl]]) (auto simp: block_writes_def)
next
  assume "ok (ind_ctxt_cmd QDMA_CTXT_CMD_WR sel q)"
  then show "writes_only (block_writes ok) t (snd (qdma_indirect_reg_write env sel q ws t))"
    unfolding qdma_indirect_reg_write_def write_regs_writes
    by (intro writes_only_append[OF writes_only_poll[OF refl]]) (auto simp: block_writes_def dest!: ind_ctxt_regs_writes)
next
  assume ok: "ok (ind_ctxt_cmd QDMA_CTXT_CMD_RD sel q)"
  let ?t = "t @ [Reg_Write QDMA_OFFSET_IND_CTXT_CMD (ind_ctxt_cmd QDMA_CTXT_CMD_RD sel q)]"
  obtain rv u where p: "poll_cmd env ?t = (rv, u)" by fastforce
  have v: "writes_only (block_writes ok) ?t u" using writes_only_poll[of env ?t u] p by simp
  have u: "writes_only (block_writes ok) t u" by (rule writes_only_append[OF v]) (use ok in \<open>auto simp: block_writes_def\<close>)
  have "writes_only (block_writes ok) u (u @ reg_reads QDMA_OFFSET_IND_CTXT_DATA n)" by (simp add: writes_only_def)
  with u have "writes_only (block_writes ok) t (u @ reg_reads QDMA_OFFSET_IND_CTXT_DATA n)" by (rule writes_only_trans)
  then show "writes_only (block_writes ok) t (snd (snd (qdma_indirect_reg_read env sel q n t)))"
    using u p by (simp add: qdma_indirect_reg_read_def qdma_reg_write_def read_regs_reads)
qed

text \<open>The functions on contexts give commands of one kind of context and one index only.\<close>

lemma writes_only_ctxt:
  "ok (ind_ctxt_cmd QDMA_CTXT_CMD_WR sel q) \<Longrightarrow> writes_only (block_writes ok) t (snd (ctxt_write dev sel q words c t))"
  "ok (ind_ctxt_cmd QDMA_CTXT_CMD_RD sel q) \<Longrightarrow> writes_only (block_writes ok) t (snd (snd (ctxt_read dev sel q n of_words c t)))"
  "ok (ind_ctxt_cmd QDMA_CTXT_CMD_CLR sel q) \<Longrightarrow> writes_only (block_writes ok) t (snd (ctxt_clear dev sel q t))"
  "ok (ind_ctxt_cmd QDMA_CTXT_CMD_INV sel q) \<Longrightarrow> writes_only (block_writes ok) t (snd (ctxt_invalidate dev sel q t))"
  using writes_only_indirect[of ok sel q t] writes_only_refl
  by (auto simp: ctxt_write_def ctxt_read_def ctxt_clear_def ctxt_invalidate_def split: option.splits prod.splits)
    (metis snd_conv)

lemma writes_only_keep: "writes_only w t (snd r) \<Longrightarrow> writes_only w t (snd (snd (keep_ctxt c r)))"
  by (simp add: keep_ctxt_def)

lemma writes_only_conf:
  "(\<And>op. acc = QDMA_HW_ACCESS_READ \<longrightarrow> op = QDMA_CTXT_CMD_RD \<Longrightarrow> ok (ind_ctxt_cmd op (sw_sel b) q)) \<Longrightarrow> writes_only (block_writes ok) t (snd (snd (qdma_sw_ctx_conf dev b q c1 acc t)))"
  "(\<And>op. acc = QDMA_HW_ACCESS_READ \<longrightarrow> op = QDMA_CTXT_CMD_RD \<Longrightarrow> ok (ind_ctxt_cmd op (hw_sel b) q)) \<Longrightarrow> writes_only (block_writes ok) t (snd (snd (qdma_hw_ctx_conf dev b q c2 acc t)))"
  "(\<And>op. acc = QDMA_HW_ACCESS_READ \<longrightarrow> op = QDMA_CTXT_CMD_RD \<Longrightarrow> ok (ind_ctxt_cmd op (cr_sel b) q)) \<Longrightarrow> writes_only (block_writes ok) t (snd (snd (qdma_credit_ctx_conf dev b q c3 acc t)))"
  "(\<And>op. acc = QDMA_HW_ACCESS_READ \<longrightarrow> op = QDMA_CTXT_CMD_RD \<Longrightarrow> ok (ind_ctxt_cmd op QDMA_CTXT_SEL_PFTCH q)) \<Longrightarrow> writes_only (block_writes ok) t (snd (snd (qdma_pfetch_ctx_conf dev q c4 acc t)))"
  "(\<And>op. acc = QDMA_HW_ACCESS_READ \<longrightarrow> op = QDMA_CTXT_CMD_RD \<Longrightarrow> ok (ind_ctxt_cmd op QDMA_CTXT_SEL_CMPT q)) \<Longrightarrow> writes_only (block_writes ok) t (snd (snd (qdma_cmpt_ctx_conf dev q c5 acc t)))"
  "(\<And>op. acc = QDMA_HW_ACCESS_READ \<longrightarrow> op = QDMA_CTXT_CMD_RD \<Longrightarrow> ok (ind_ctxt_cmd op QDMA_CTXT_SEL_FMAP q)) \<Longrightarrow> writes_only (block_writes ok) t (snd (snd (qdma_fmap_conf dev q c6 acc t)))"
  "(\<And>op. acc = QDMA_HW_ACCESS_READ \<longrightarrow> op = QDMA_CTXT_CMD_RD \<Longrightarrow> ok (ind_ctxt_cmd op QDMA_CTXT_SEL_INT_COAL q)) \<Longrightarrow> writes_only (block_writes ok) t (snd (snd (qdma_indirect_intr_ctx_conf dev q c7 acc t)))"
  by (auto simp: qdma_sw_ctx_conf_def qdma_hw_ctx_conf_def qdma_credit_ctx_conf_def qdma_pfetch_ctx_conf_def
      qdma_cmpt_ctx_conf_def qdma_fmap_conf_def qdma_indirect_intr_ctx_conf_def
      qdma_sw_context_write_def qdma_sw_context_read_def qdma_sw_context_clear_def qdma_sw_context_invalidate_def
      qdma_hw_context_read_def qdma_hw_context_clear_def qdma_hw_context_invalidate_def
      qdma_credit_context_read_def qdma_credit_context_clear_def qdma_credit_context_invalidate_def
      qdma_pfetch_context_write_def qdma_pfetch_context_read_def qdma_pfetch_context_clear_def qdma_pfetch_context_invalidate_def
      qdma_cmpt_context_write_def qdma_cmpt_context_read_def qdma_cmpt_context_clear_def qdma_cmpt_context_invalidate_def
      qdma_fmap_write_def qdma_fmap_read_def qdma_fmap_clear_def
      qdma_indirect_intr_context_write_def qdma_indirect_intr_context_read_def qdma_indirect_intr_context_clear_def
      qdma_indirect_intr_context_invalidate_def
      intro!: writes_only_refl writes_only_keep writes_only_ctxt writes_only_indirect(3) split: qdma_hw_access_type.split option.split)

text \<open>A command that reads, names something else than a queue's context, or names the queue the call changes.\<close>

definition names_only :: "hw_call \<Rightarrow> u32 \<Rightarrow> bool" where
  "names_only c v \<longleftrightarrow> cmd_op v = op_code QDMA_CTXT_CMD_RD \<or> sel_code QDMA_CTXT_SEL_INT_COAL \<le> fst (cmd_ctxt v) \<or>
     (\<exists>q. changes c = Some q \<and> snd (cmd_ctxt v) = take_bit 12 (ucast q))"

lemma snd_ctxt_reply [simp]: "snd (ctxt_reply put r) = snd (snd r)"
  by (cases r) (simp add: ctxt_reply_def)

lemma attr_writes: "writes_only w t (snd (read_dev_attributes env t))"
  by (auto simp: read_dev_attributes_def qdma_reg_read_def writes_only_def Let_def)

lemma writes_only_map_reads: "writes_only w t (t @ map Reg_Read as)"
  by (auto simp: writes_only_def)

text \<open>The calls that only read, and never overrun the arrays they are given.\<close>

lemma reg_list_call:
  assumes "length rs = QDMA_MAX_REGISTER_DUMP"
  shows "\<exists>rv m rs' t'. qdma_read_reg_list (Some renv) True g n (Some rs) t = Inr (rv, m, rs', t') \<and> writes_only w t t'"
proof -
  obtain a u where a: "read_dev_attributes renv t = (a, u)" by fastforce
  have u: "writes_only w t u" using attr_writes[of w t renv] by (simp add: a)
  show ?thesis
  proof (cases "group_start g")
    case None
    then show ?thesis using u by (simp add: qdma_read_reg_list_def a)
  next
    case (Some start)
    obtain rv i where e: "get_reg_entry start = (rv, i)" by fastforce
    show ?thesis
    proof (cases "rv < 0")
      case True
      then show ?thesis using u by (simp add: qdma_read_reg_list_def a Some e)
    next
      case False
      then have "get_reg_entry start = (0, i)" using e by (auto simp: get_reg_entry_def split: option.splits)
      from read_list_filled[OF assms this Some a refl] show ?thesis
        using writes_only_trans[OF u writes_only_map_reads] by auto
    qed
  qed
qed

lemma csr_call:
  assumes "length vs = 16"
  shows "\<exists>rv vs' t'. qdma_global_csr_conf (Some renv) 0 16 (Some vs) ty QDMA_HW_ACCESS_READ t = Inr (rv, vs', t') \<and> writes_only w t t'"
proof -
  obtain a u where a: "csr_looked renv ty t = (a, u)" by fastforce
  obtain as where u: "u = t @ map Reg_Read as" using csr_looked_reads[OF a] by blast
  have "writes_only w t (u @ csr_reads (csr_base ty) 0 16)" "writes_only w t u"
    by (auto simp: writes_only_def u csr_reads_map simp del: upt_Suc)
  then show ?thesis using csr_conf_read[OF _ a, of 16 vs 0] assms by (auto simp: writes_only_refl)
qed

lemma soft_call_writes: "writes_only (block_writes (names_only c)) t (snd (soft_call renv c t))"
proof -
  have sel: "sel_code (sw_sel b) < 8" "sel_code (hw_sel b) < 8" "sel_code (cr_sel b) < 8" for b
    by (simp_all add: sw_sel_def hw_sel_def cr_sel_def)
  show ?thesis
  proof (cases c)
    case (Global_Csr ty)
    obtain rv vs t' where "qdma_global_csr_conf (Some renv) 0 16 (Some (replicate 16 0)) ty QDMA_HW_ACCESS_READ t = Inr (rv, vs, t')"
      "writes_only (block_writes (names_only c)) t t'" using csr_call[of "replicate 16 0" renv ty t "block_writes (names_only c)"] by auto
    then show ?thesis by (simp add: soft_call_def Global_Csr)
  next
    case (Read_Reg_List g)
    obtain rv n rs t' where "qdma_read_reg_list (Some renv) True g 0 (Some (replicate QDMA_MAX_REGISTER_DUMP (0, 0))) t = Inr (rv, n, rs, t')"
      "writes_only (block_writes (names_only c)) t t'" using reg_list_call[of "replicate QDMA_MAX_REGISTER_DUMP (0, 0)" renv g 0 t "block_writes (names_only c)"] by auto
    then show ?thesis by (simp add: soft_call_def Read_Reg_List)
  next
    case Get_Attributes
    then show ?thesis using attr_writes[of "block_writes (names_only c)" t renv]
      by (auto simp: soft_call_def qdma_get_device_attributes_def split: prod.splits)
  qed (auto simp: soft_call_def names_only_def intro!: writes_only_conf)
qed

lemma soft_trace_writes:
  assumes "\<And>c v. c \<in> set cs \<Longrightarrow> names_only c v \<Longrightarrow> ok v"
  shows "writes_only (block_writes ok) t (soft_trace renv cs t)"
  using assms
proof (induction cs arbitrary: t)
  case (Cons c cs)
  have "writes_only (block_writes ok) t (snd (soft_call renv c t))"
    using soft_call_writes[of c t renv] Cons.prems[of c] by (fastforce simp: writes_only_def block_writes_def)
  moreover have "writes_only (block_writes ok) (snd (soft_call renv c t)) (soft_trace renv (c # cs) t)"
    unfolding soft_trace_simps by (rule Cons.IH) (use Cons.prems in \<open>blast intro: list.set_intros(2)\<close>)
  ultimately show ?case by (rule writes_only_trans)
qed (simp add: writes_only_refl)

text \<open>A write of a context that does not fail succeeds.\<close>

lemma indirect_write_ok: "qdma_indirect_reg_write env sel q ws t = (rv, t') \<Longrightarrow> 0 \<le> rv \<Longrightarrow> rv = 0"
  using poll_cmd_reads[of env "write_regs QDMA_OFFSET_IND_CTXT_DATA (ind_ctxt_regs sel q ws) t"]
  by (auto simp: qdma_indirect_reg_write_def split: if_splits)










subsection \<open>Properties\<close>

text \<open>
  C7: isolation down to the registers.  Whatever a virtual function sends (a request to clear or
  invalidate just a completion context excepted) and whatever the registers read, the physical
  function's handler writes to no register outside the block for indirect context access, and every
  command it writes there either reads a context, or names a function map or an interrupt ring, or
  names, in its 12 bits, a queue that the sender owns.
\<close>

theorem mbox_isolates_registers:
  assumes "\<forall>c \<in> set cs. rm_valid c" and "pf_rm s = fold rm_step cs (rm_init mem)"
    and "msg_ok rcv resp" and "\<not> unchecked_cmpt rcv"
    and "qdma_mbox_pf_rcv_msg_handler (soft_env renv t0) idx func rcv resp s = Inr (ret, resp', s')"
  shows "\<exists>ops. soft_trace renv (pf_calls s') t0 = soft_trace renv (pf_calls s) t0 @ ops \<and>
    (\<forall>a v. Reg_Write a v \<in> set ops \<longrightarrow>
       QDMA_OFFSET_IND_CTXT_DATA \<le> a \<and> a < QDMA_OFFSET_IND_CTXT_CMD \<or>
       a = QDMA_OFFSET_IND_CTXT_CMD \<and>
         (cmd_op v = op_code QDMA_CTXT_CMD_RD \<or> sel_code QDMA_CTXT_SEL_INT_COAL \<le> fst (cmd_ctxt v) \<or>
          (\<exists>i j q. qdma_get_dev_entry (ucast idx) (hdr_src (hdr rcv)) (pf_rm s) = Some (i, j) \<and>
             holds (dev_q (dev_list (master_resource_list (pf_rm s) ! i) ! j)) (uint (q :: u16)) = 1 \<and>
             snd (cmd_ctxt v) = take_bit 12 (ucast q))))"
proof -
  let ?ok = "\<lambda>v. cmd_op v = op_code QDMA_CTXT_CMD_RD \<or> sel_code QDMA_CTXT_SEL_INT_COAL \<le> fst (cmd_ctxt v) \<or>
      (\<exists>i j q. qdma_get_dev_entry (ucast idx) (hdr_src (hdr rcv)) (pf_rm s) = Some (i, j) \<and>
         holds (dev_q (dev_list (master_resource_list (pf_rm s) ! i) ! j)) (uint (q :: u16)) = 1 \<and>
         snd (cmd_ctxt v) = take_bit 12 (ucast q))"
  have ok: "rm_ok (pf_rm s)" unfolding assms(2) by (rule run_rm_ok[OF assms(1)])
  obtain calls where c: "pf_calls s' = pf_calls s @ calls"
    and l: "list_all (own_queue idx (hdr_src (hdr rcv)) (pf_rm s)) calls" using calls_owned[OF assms(3-5)] by blast
  have own: "\<exists>i j. qdma_get_dev_entry (ucast idx) (hdr_src (hdr rcv)) (pf_rm s) = Some (i, j) \<and>
      holds (dev_q (dev_list (master_resource_list (pf_rm s) ! i) ! j)) (uint q) = 1"
    if "c \<in> set calls" "changes c = Some q" for c q
    using own_queue_holds[OF ok _ that(2)] l that(1) by (auto simp: list_all_iff)
  have "writes_only (block_writes ?ok) (soft_trace renv (pf_calls s) t0) (soft_trace renv calls (soft_trace renv (pf_calls s) t0))"
    by (rule soft_trace_writes) (use own in \<open>unfold names_only_def, blast\<close>)
  then show ?thesis by (simp only: c soft_trace_simps writes_only_def block_writes_def)
qed

theorem mbox_isolates_registers_witness:
  "\<exists>ret resp' s' ops. qdma_mbox_pf_rcv_msg_handler (soft_env ref_device []) 0 0 demo_clear zero_msg demo_pf = Inr (ret, resp', s') \<and>
     soft_trace ref_device (pf_calls s') [] = ops \<and>
     (\<forall>a v. Reg_Write a v \<in> set ops \<longrightarrow> QDMA_OFFSET_IND_CTXT_DATA \<le> a \<and> a \<le> QDMA_OFFSET_IND_CTXT_CMD)"
proof -
  have v: "msg_ok demo_clear zero_msg" "\<not> unchecked_cmpt demo_clear" by code_simp+
  have p: "pf_rm demo_pf = fold rm_step demo_rm_cmds (rm_init [])" "pf_calls demo_pf = []" by (simp_all add: demo_pf_def demo_rm_def)
  obtain ret resp' s' where h: "qdma_mbox_pf_rcv_msg_handler (soft_env ref_device []) 0 0 demo_clear zero_msg demo_pf = Inr (ret, resp', s')"
    using handler_ok[OF v(1), of 0 demo_pf "soft_env ref_device []" 0] by (auto simp: handled_def)
  show ?thesis using mbox_isolates_registers[OF demo_rm_valid p(1) v(1,2) h] h p(2) by fastforce
qed

text \<open>
  The function map is not checked.  A request to program the function map sets the first queue
  and the number of queues of the sender in the hardware to what the message says, whatever queues the
  resource manager has given it: on a device that stores contexts, a read of the function map after a
  handled request returns the message's values, and the resource manager was not consulted.
\<close>

theorem mbox_fmap_unchecked:
  assumes "ctxt_device renv" and "hdr_op (hdr rcv) = MBOX_OP_FMAP"
    and "fmap_fits \<lparr>cfg_qbase = ucast (fm_qbase (fmap rcv)), cfg_qmax = ucast (fm_qmax (fmap rcv))\<rparr>"
    and "qdma_mbox_pf_rcv_msg_handler (soft_env renv t0) idx func rcv resp s = Inr (0, resp', s')"
    and "list_all (leaves_ctxt QDMA_CTXT_SEL_FMAP (hdr_src (hdr rcv))) ops"
    and "qdma_fmap_conf (Some renv) (hdr_src (hdr rcv)) (Some d) QDMA_HW_ACCESS_READ (soft_trace renv (pf_calls s') t0 @ ops) = (0, r, t2)"
  shows "r = Some \<lparr>cfg_qbase = ucast (fm_qbase (fmap rcv)), cfg_qmax = ucast (fm_qmax (fmap rcv))\<rparr> \<and> pf_rm s' = pf_rm s"
proof -
  let ?c = "\<lparr>cfg_qbase = ucast (fm_qbase (fmap rcv)), cfg_qmax = ucast (fm_qmax (fmap rcv))\<rparr> :: qdma_fmap_cfg"
  let ?f = "hdr_src (hdr rcv)" and ?t = "soft_trace renv (pf_calls s) t0"
  have s': "s' = s\<lparr>pf_calls := pf_calls s @ [Fmap_Conf ?f (Some ?c) QDMA_HW_ACCESS_WRITE]\<rparr>"
    and rv: "0 \<le> hw_rv (soft_env renv t0 (pf_calls s @ [Fmap_Conf ?f (Some ?c) QDMA_HW_ACCESS_WRITE]))"
    using assms(2,4) by (auto simp: qdma_mbox_pf_rcv_msg_handler_def op_fmap_def hw_do_def hw_def reply_def Let_def split: if_splits)
  obtain w t1 where wr: "qdma_indirect_reg_write renv QDMA_CTXT_SEL_FMAP ?f (fmap_words ?c) ?t = (w, t1)" by fastforce
  have call: "soft_call renv (Fmap_Conf ?f (Some ?c) QDMA_HW_ACCESS_WRITE) ?t =
      ((rv_reply w)\<lparr>rd_ctxt := zero_context\<lparr>dc_fmap := ?c\<rparr>\<rparr>, t1)"
    by (simp add: soft_call_def arg_of_def qdma_fmap_conf_def qdma_fmap_write_def ctxt_write_def keep_ctxt_def ctxt_reply_def rv_reply_def wr)
  have "0 \<le> w" using rv by (simp add: soft_env_snoc call rv_reply_def)
  then have w: "w = 0" by (rule indirect_write_ok[OF wr])
  have "soft_trace renv (pf_calls s') t0 = t1" by (simp add: s' call)
  then have "ctxt_read (Some renv) QDMA_CTXT_SEL_FMAP ?f 2 fmap_of_words (Some d) (t1 @ ops) = (0, r, t2)"
    using assms(6) by (simp add: qdma_fmap_conf_def qdma_fmap_read_def)
  then have "r = Some ?c" by (rule fmap_codec.survives[OF assms(1,3,5) wr[unfolded w]])
  then show ?thesis by (simp add: s')
qed

text \<open>Function 2 owns the sixteen queues from 8 on; it maps itself all twenty-four from 0 on.\<close>

definition demo_fmap :: qdma_mbox_txrx where
  "demo_fmap = the (snd (qdma_mbox_compose_vf_fmap_prog 2 24 0 (Some zero_msg)))"

theorem mbox_fmap_unchecked_witness:
  "\<exists>resp' s' t2. qdma_mbox_pf_rcv_msg_handler (soft_env ref_device []) 0 0 demo_fmap zero_msg demo_pf = Inr (0, resp', s') \<and>
     qdma_fmap_conf (Some ref_device) 2 (Some zero_fmap) QDMA_HW_ACCESS_READ (soft_trace ref_device (pf_calls s') []) =
       (0, Some \<lparr>cfg_qbase = 0, cfg_qmax = 24\<rparr>, t2) \<and>
     qdma_dev_qinfo_get 0 2 (pf_rm s') = (0, Some (8, 16))"
proof -
  have m: "hdr_op (hdr demo_fmap) = MBOX_OP_FMAP" "hdr_src (hdr demo_fmap) = 2" "fm_qbase (fmap demo_fmap) = 0"
    "fm_qmax (fmap demo_fmap) = 24" by code_simp+
  have f: "fmap_fits \<lparr>cfg_qbase = ucast (fm_qbase (fmap demo_fmap)), cfg_qmax = ucast (fm_qmax (fmap demo_fmap))\<rparr>"
    by (simp add: fmap_fits_def m)
  let ?x = "Fmap_Conf 2 (Some \<lparr>cfg_qbase = 0, cfg_qmax = 24\<rparr>) QDMA_HW_ACCESS_WRITE"
  have "hw_rv (soft_env ref_device [] [?x]) = 0"
    by (simp add: soft_env_def soft_call_def arg_of_def qdma_fmap_conf_def qdma_fmap_write_def ctxt_write_def keep_ctxt_def
      ctxt_reply_def rv_reply_def ref_write)
  then obtain resp' s' where h: "qdma_mbox_pf_rcv_msg_handler (soft_env ref_device []) 0 0 demo_fmap zero_msg demo_pf = Inr (0, resp', s')"
    using m by (simp add: qdma_mbox_pf_rcv_msg_handler_def op_fmap_def hw_do_def hw_def reply_def demo_pf_def)
  obtain r t2 where r: "qdma_fmap_conf (Some ref_device) (hdr_src (hdr demo_fmap)) (Some zero_fmap) QDMA_HW_ACCESS_READ
      (soft_trace ref_device (pf_calls s') [] @ []) = (0, r, t2)"
    using ref_read_ok[of QDMA_CTXT_SEL_FMAP "hdr_src (hdr demo_fmap)" 2 fmap_of_words zero_fmap "soft_trace ref_device (pf_calls s') [] @ []"]
    by (auto simp: qdma_fmap_conf_def qdma_fmap_read_def)
  have "qdma_dev_qinfo_get 0 2 (pf_rm demo_pf) = (0, Some (8, 16))" by code_simp
  then show ?thesis using mbox_fmap_unchecked[OF ref_device_ok m(1) f h _ r] h r m by auto
qed





lemma ref_reads_map [simp]: "fold ref_step (map Reg_Read as) = id"
  by (induction as) simp_all




end
