(* ===== verification/Qdma_Err.thy ===== *)
theory Qdma_Err
  imports Qdma_Regs Qdma_Csr_Props
begin

text \<open>
  Hardware errors (\<open>qdma_hw_error_process\<close> and \<open>qdma_hw_error_enable\<close> of \<open>qdma_soft_access.c\<close> with
  the table \<open>qdma_err_info\<close>, and the error interrupt of \<open>qdma_access_common.c\<close>).  The errors of a
  block are the bits of a status register with a mask register beside it; the blocks are the bits of
  a global status and a global mask register.  What the functions log is the list of error indices
  they return beside the result; the texts are kept in the table.
\<close>

unbundle bit_operations_syntax

subsection \<open>Table\<close>

datatype err_process = Desc_Err | Trq_Err | St_H2c_Err | St_C2h_Err | Ram_Sbe_Err | Ram_Dbe_Err

record qdma_hw_err_info =
  ei_idx :: nat
  ei_name :: string
  ei_mask_reg :: u32
  ei_stat_reg :: u32
  ei_leaf_mask :: u32
  ei_global_mask :: u32
  ei_process :: err_process

abbreviation (input) err :: "nat \<Rightarrow> string \<Rightarrow> u32 \<Rightarrow> u32 \<Rightarrow> u32 \<Rightarrow> u32 \<Rightarrow> err_process \<Rightarrow> qdma_hw_err_info" where
  "err i n mr sr l g p \<equiv> \<lparr>ei_idx = i, ei_name = n, ei_mask_reg = mr, ei_stat_reg = sr, ei_leaf_mask = l, ei_global_mask = g, ei_process = p\<rparr>"

definition desc_errs :: "qdma_hw_err_info list" where
  "desc_errs = [
     err 0 ''Poison error'' 0x258 0x254 0x1 0x4 Desc_Err,
     err 1 ''Unsupported request or completer aborted error'' 0x258 0x254 0x2 0x4 Desc_Err,
     err 2 ''Parameter mismatch error'' 0x258 0x254 0x4 0x4 Desc_Err,
     err 3 ''Address mismatch error'' 0x258 0x254 0x8 0x4 Desc_Err,
     err 4 ''Unexpected tag error'' 0x258 0x254 0x10 0x4 Desc_Err,
     err 5 ''FLR error'' 0x258 0x254 0x20 0x4 Desc_Err,
     err 6 ''Timed out error'' 0x258 0x254 0x200 0x4 Desc_Err,
     err 7 ''Poison data error'' 0x258 0x254 0x10000 0x4 Desc_Err,
     err 8 ''Descriptor fetch cancelled due to FLR error'' 0x258 0x254 0x80000 0x4 Desc_Err,
     err 9 ''DMA engine error'' 0x258 0x254 0x100000 0x4 Desc_Err,
     err 10 ''Invalid PIDX update error'' 0x258 0x254 0x200000 0x4 Desc_Err,
     err 11 ''Descriptor fetch cancelled due to disable register status error'' 0x258 0x254 0x400000 0x4 Desc_Err,
     err 12 ''UNC_ERR_RAM_DBE error'' 0x258 0x254 0x800000 0x4 Desc_Err,
     err 13 ''UNC_ERR_RAM_SBE error'' 0x258 0x254 0x1000000 0x4 Desc_Err,
     err 14 ''All Descriptor errors'' 0x258 0x254 0x1F9023F 0x4 Desc_Err]"

definition trq_errs :: "qdma_hw_err_info list" where
  "trq_errs = [
     err 15 ''Access targeted unmapped register space error'' 0x268 0x264 0x1 0x8 Trq_Err,
     err 16 ''Qid range error'' 0x268 0x264 0x2 0x8 Trq_Err,
     err 17 ''Invalid VF access error'' 0x268 0x264 0x4 0x8 Trq_Err,
     err 18 ''Timeout on request error'' 0x268 0x264 0x8 0x8 Trq_Err,
     err 19 ''All TRQ errors'' 0x268 0x264 0xF 0x8 Trq_Err]"

definition c2h_errs :: "qdma_hw_err_info list" where
  "c2h_errs = [
     err 20 ''MTY mismatch error'' 0xAF4 0xAF0 0x1 0x100 St_C2h_Err,
     err 21 ''Packet length mismatch error'' 0xAF4 0xAF0 0x2 0x100 St_C2h_Err,
     err 22 ''Qid mismatch error'' 0xAF4 0xAF0 0x8 0x100 St_C2h_Err,
     err 23 ''Descriptor error bit set'' 0xAF4 0xAF0 0x10 0x100 St_C2h_Err,
     err 24 ''Data parity error'' 0xAF4 0xAF0 0x40 0x100 St_C2h_Err,
     err 25 ''MSI got a fail response error'' 0xAF4 0xAF0 0x80 0x100 St_C2h_Err,
     err 26 ''Descriptor count error'' 0xAF4 0xAF0 0x200 0x100 St_C2h_Err,
     err 27 ''Port id in packet and pfetch ctxt mismatch error'' 0xAF4 0xAF0 0x400 0x100 St_C2h_Err,
     err 28 ''Port id in packet and bypass interface mismatch error'' 0xAF4 0xAF0 0x800 0x100 St_C2h_Err,
     err 29 ''Writeback on invalid queue error'' 0xAF4 0xAF0 0x1000 0x100 St_C2h_Err,
     err 30 ''Completion queue gets full error'' 0xAF4 0xAF0 0x2000 0x100 St_C2h_Err,
     err 31 ''Bad CIDX update by the software error'' 0xAF4 0xAF0 0x4000 0x100 St_C2h_Err,
     err 32 ''C2H completion Parity error'' 0xAF4 0xAF0 0x8000 0x100 St_C2h_Err,
     err 33 ''All C2h errors'' 0xAF4 0xAF0 0xFEDB 0x100 St_C2h_Err]"

definition fatal_errs :: "qdma_hw_err_info list" where
  "fatal_errs = [
     err 34 ''Fatal MTY mismatch error'' 0xAFC 0xAF8 0x1 0x100 St_C2h_Err,
     err 35 ''Fatal Len mismatch error'' 0xAFC 0xAF8 0x2 0x100 St_C2h_Err,
     err 36 ''Fatal Qid mismatch error'' 0xAFC 0xAF8 0x8 0x100 St_C2h_Err,
     err 37 ''RAM double bit fatal error'' 0xAFC 0xAF8 0x10 0x100 St_C2h_Err,
     err 38 ''RAM double bit fatal error'' 0xAFC 0xAF8 0x100 0x100 St_C2h_Err,
     err 39 ''RAM double bit fatal error'' 0xAFC 0xAF8 0x200 0x100 St_C2h_Err,
     err 40 ''RAM double bit fatal error'' 0xAFC 0xAF8 0x400 0x100 St_C2h_Err,
     err 41 ''RAM double bit fatal error'' 0xAFC 0xAF8 0x800 0x100 St_C2h_Err,
     err 42 ''RAM double bit fatal error'' 0xAFC 0xAF8 0x1000 0x100 St_C2h_Err,
     err 43 ''RAM double bit fatal error'' 0xAFC 0xAF8 0x4000 0x100 St_C2h_Err,
     err 44 ''RAM double bit fatal error'' 0xAFC 0xAF8 0x8000 0x100 St_C2h_Err,
     err 45 ''RAM double bit fatal error'' 0xAFC 0xAF8 0x10000 0x100 St_C2h_Err,
     err 46 ''RAM double bit fatal error'' 0xAFC 0xAF8 0x20000 0x100 St_C2h_Err,
     err 47 ''RAM double bit fatal error'' 0xAFC 0xAF8 0x40000 0x100 St_C2h_Err,
     err 48 ''All fatal errors'' 0xAFC 0xAF8 0x7DF1B 0x100 St_C2h_Err]"

definition h2c_errs :: "qdma_hw_err_info list" where
  "h2c_errs = [
     err 49 ''Zero length descriptor error'' 0xE04 0xE00 0x1 0x800 St_H2c_Err,
     err 50 ''Non EOP descriptor received error'' 0xE04 0xE00 0x2 0x800 St_H2c_Err,
     err 51 ''No DMA descriptor received error'' 0xE04 0xE00 0x4 0x800 St_H2c_Err,
     err 52 ''Single bit error detected on H2C-ST data error'' 0xE04 0xE00 0x8 0x800 St_H2c_Err,
     err 53 ''Double bit error detected on H2C-ST data error'' 0xE04 0xE00 0x10 0x800 St_H2c_Err,
     err 54 ''All H2C errors'' 0xE04 0xE00 0x1F 0x800 St_H2c_Err]"

definition sbe_errs_1 :: "qdma_hw_err_info list" where
  "sbe_errs_1 = [
     err 55 ''H2C MM data buffer single bit ECC error'' 0xF0 0xF4 0x1 0x1 Ram_Sbe_Err,
     err 56 ''C2H MM data buffer single bit ECC error'' 0xF0 0xF4 0x10 0x1 Ram_Sbe_Err,
     err 57 ''Bridge master read single bit ECC error'' 0xF0 0xF4 0x200 0x1 Ram_Sbe_Err,
     err 58 ''Bridge master write single bit ECC error'' 0xF0 0xF4 0x400 0x1 Ram_Sbe_Err,
     err 59 ''Bridge slave read data buffer single bit ECC error'' 0xF0 0xF4 0x800 0x1 Ram_Sbe_Err,
     err 60 ''Bridge slave write data buffer single bit ECC error'' 0xF0 0xF4 0x1000 0x1 Ram_Sbe_Err,
     err 61 ''Function map RAM single bit ECC error'' 0xF0 0xF4 0x2000 0x1 Ram_Sbe_Err,
     err 62 ''Descriptor engine hardware context RAM single bit ECC error'' 0xF0 0xF4 0x4000 0x1 Ram_Sbe_Err,
     err 63 ''Descriptor engine receive credit context RAM single bit ECC error'' 0xF0 0xF4 0x8000 0x1 Ram_Sbe_Err,
     err 64 ''Descriptor engine software context RAM single bit ECC error'' 0xF0 0xF4 0x10000 0x1 Ram_Sbe_Err,
     err 65 ''Descriptor engine fetch completion information RAM single bit ECC error'' 0xF0 0xF4 0x20000 0x1 Ram_Sbe_Err,
     err 66 ''Descriptor engine fetch completion data RAM single bit ECC error'' 0xF0 0xF4 0x40000 0x1 Ram_Sbe_Err,
     err 67 ''PASID configuration RAM single bit ECC error'' 0xF0 0xF4 0x80000 0x1 Ram_Sbe_Err]"

definition sbe_errs_2 :: "qdma_hw_err_info list" where
  "sbe_errs_2 = [
     err 68 ''Timer fifo RAM single bit ECC error'' 0xF0 0xF4 0x100000 0x1 Ram_Sbe_Err,
     err 69 ''C2H ST payload RAM single bit ECC error'' 0xF0 0xF4 0x200000 0x1 Ram_Sbe_Err,
     err 70 ''C2H ST QID FIFO RAM single bit ECC error'' 0xF0 0xF4 0x400000 0x1 Ram_Sbe_Err,
     err 71 ''C2H ST TUSER RAM single bit ECC error'' 0xF0 0xF4 0x800000 0x1 Ram_Sbe_Err,
     err 72 ''Completion Coalescing RAM single bit ECC error'' 0xF0 0xF4 0x1000000 0x1 Ram_Sbe_Err,
     err 73 ''Interrupt QID2VEC RAM single bit ECC error'' 0xF0 0xF4 0x2000000 0x1 Ram_Sbe_Err,
     err 74 ''Interrupt context RAM single bit ECC error'' 0xF0 0xF4 0x4000000 0x1 Ram_Sbe_Err,
     err 75 ''C2H ST descriptor request RAM single bit ECC error'' 0xF0 0xF4 0x8000000 0x1 Ram_Sbe_Err,
     err 76 ''C2H ST prefetch RAM single bit ECC error'' 0xF0 0xF4 0x10000000 0x1 Ram_Sbe_Err,
     err 77 ''C2H ST completion context RAM single bit ECC error'' 0xF0 0xF4 0x20000000 0x1 Ram_Sbe_Err,
     err 78 ''C2H ST prefetch list RAM single bit ECC error'' 0xF0 0xF4 0x40000000 0x1 Ram_Sbe_Err,
     err 79 ''H2C ST pending fifo RAM single bit ECC error'' 0xF0 0xF4 0x80000000 0x1 Ram_Sbe_Err,
     err 80 ''All SBE errors'' 0xF0 0xF4 0xFFFFFF11 0x1 Ram_Sbe_Err]"

definition dbe_errs_1 :: "qdma_hw_err_info list" where
  "dbe_errs_1 = [
     err 81 ''H2C MM data buffer double bit ECC error'' 0xF8 0xFC 0x1 0x2 Ram_Dbe_Err,
     err 82 ''C2H MM data buffer double bit ECC error'' 0xF8 0xFC 0x10 0x2 Ram_Dbe_Err,
     err 83 ''Bridge master read double bit ECC error'' 0xF8 0xFC 0x200 0x2 Ram_Dbe_Err,
     err 84 ''Bridge master write double bit ECC error'' 0xF8 0xFC 0x400 0x2 Ram_Dbe_Err,
     err 85 ''Bridge slave read data buffer double bit ECC error'' 0xF8 0xFC 0x800 0x2 Ram_Dbe_Err,
     err 86 ''Bridge slave write data buffer double bit ECC error'' 0xF8 0xFC 0x1000 0x2 Ram_Dbe_Err,
     err 87 ''Function map RAM double bit ECC error'' 0xF8 0xFC 0x2000 0x2 Ram_Dbe_Err,
     err 88 ''Descriptor engine hardware context RAM double bit ECC error'' 0xF8 0xFC 0x4000 0x2 Ram_Dbe_Err,
     err 89 ''Descriptor engine receive credit context RAM double bit ECC error'' 0xF8 0xFC 0x8000 0x2 Ram_Dbe_Err,
     err 90 ''Descriptor engine software context RAM double bit ECC error'' 0xF8 0xFC 0x10000 0x2 Ram_Dbe_Err,
     err 91 ''Descriptor engine fetch completion information RAM double bit ECC error'' 0xF8 0xFC 0x20000 0x2 Ram_Dbe_Err,
     err 92 ''Descriptor engine fetch completion data RAM double bit ECC error'' 0xF8 0xFC 0x40000 0x2 Ram_Dbe_Err,
     err 93 ''PASID configuration RAM double bit ECC error'' 0xF8 0xFC 0x80000 0x2 Ram_Dbe_Err]"

definition dbe_errs_2 :: "qdma_hw_err_info list" where
  "dbe_errs_2 = [
     err 94 ''Timer fifo RAM double bit ECC error'' 0xF8 0xFC 0x100000 0x2 Ram_Dbe_Err,
     err 95 ''C2H ST payload RAM double bit ECC error'' 0xF8 0xFC 0x200000 0x2 Ram_Dbe_Err,
     err 96 ''C2H ST QID FIFO RAM double bit ECC error'' 0xF8 0xFC 0x400000 0x2 Ram_Dbe_Err,
     err 97 ''C2H ST TUSER RAM double bit ECC error'' 0xF8 0xFC 0x800000 0x2 Ram_Dbe_Err,
     err 98 ''Completion Coalescing RAM double bit ECC error'' 0xF8 0xFC 0x1000000 0x2 Ram_Dbe_Err,
     err 99 ''Interrupt QID2VEC RAM double bit ECC error'' 0xF8 0xFC 0x2000000 0x2 Ram_Dbe_Err,
     err 100 ''Interrupt context RAM double bit ECC error'' 0xF8 0xFC 0x4000000 0x2 Ram_Dbe_Err,
     err 101 ''C2H ST descriptor request RAM double bit ECC error'' 0xF8 0xFC 0x8000000 0x2 Ram_Dbe_Err,
     err 102 ''C2H ST prefetch RAM double bit ECC error'' 0xF8 0xFC 0x10000000 0x2 Ram_Dbe_Err,
     err 103 ''C2H ST completion context RAM double bit ECC error'' 0xF8 0xFC 0x20000000 0x2 Ram_Dbe_Err,
     err 104 ''C2H ST prefetch list RAM double bit ECC error'' 0xF8 0xFC 0x40000000 0x2 Ram_Dbe_Err,
     err 105 ''H2C pending fifo RAM double bit ECC error'' 0xF8 0xFC 0x80000000 0x2 Ram_Dbe_Err,
     err 106 ''All DBE errors'' 0xF8 0xFC 0xFFFFFF11 0x2 Ram_Dbe_Err]"

definition qdma_err_info :: "qdma_hw_err_info list" where
  "qdma_err_info = desc_errs @ trq_errs @ c2h_errs @ fatal_errs @ h2c_errs @ sbe_errs_1 @ sbe_errs_2 @ dbe_errs_1 @ dbe_errs_2"

text \<open>The indices of the enumeration that the code names.\<close>

abbreviation (input) QDMA_DSC_ERR_POISON :: nat where "QDMA_DSC_ERR_POISON \<equiv> 0"
abbreviation (input) QDMA_DSC_ERR_ALL :: nat where "QDMA_DSC_ERR_ALL \<equiv> 14"
abbreviation (input) QDMA_TRQ_ERR_UNMAPPED :: nat where "QDMA_TRQ_ERR_UNMAPPED \<equiv> 15"
abbreviation (input) QDMA_TRQ_ERR_ALL :: nat where "QDMA_TRQ_ERR_ALL \<equiv> 19"
abbreviation (input) QDMA_ST_C2H_ERR_MTY_MISMATCH :: nat where "QDMA_ST_C2H_ERR_MTY_MISMATCH \<equiv> 20"
abbreviation (input) QDMA_ST_C2H_ERR_ALL :: nat where "QDMA_ST_C2H_ERR_ALL \<equiv> 33"
abbreviation (input) QDMA_ST_FATAL_ERR_MTY_MISMATCH :: nat where "QDMA_ST_FATAL_ERR_MTY_MISMATCH \<equiv> 34"
abbreviation (input) QDMA_ST_FATAL_ERR_ALL :: nat where "QDMA_ST_FATAL_ERR_ALL \<equiv> 48"
abbreviation (input) QDMA_ST_H2C_ERR_ZERO_LEN_DESC :: nat where "QDMA_ST_H2C_ERR_ZERO_LEN_DESC \<equiv> 49"
abbreviation (input) QDMA_ST_H2C_ERR_ALL :: nat where "QDMA_ST_H2C_ERR_ALL \<equiv> 54"
abbreviation (input) QDMA_SBE_ERR_MI_H2C0_DAT :: nat where "QDMA_SBE_ERR_MI_H2C0_DAT \<equiv> 55"
abbreviation (input) QDMA_SBE_ERR_ALL :: nat where "QDMA_SBE_ERR_ALL \<equiv> 80"
abbreviation (input) QDMA_DBE_ERR_MI_H2C0_DAT :: nat where "QDMA_DBE_ERR_MI_H2C0_DAT \<equiv> 81"
abbreviation (input) QDMA_DBE_ERR_ALL :: nat where "QDMA_DBE_ERR_ALL \<equiv> 106"
abbreviation (input) QDMA_ERRS_ALL :: nat where "QDMA_ERRS_ALL \<equiv> 107"
abbreviation (input) QDMA_HW_ERR_NOT_DETECTED :: int where "QDMA_HW_ERR_NOT_DETECTED \<equiv> 1"
abbreviation (input) QDMA_OFFSET_GLBL_ERR_INT :: u32 where "QDMA_OFFSET_GLBL_ERR_INT \<equiv> 0xB04"
abbreviation (input) QDMA_OFFSET_GLBL_ERR_STAT :: u32 where "QDMA_OFFSET_GLBL_ERR_STAT \<equiv> 0x248"
abbreviation (input) QDMA_OFFSET_GLBL_ERR_MASK :: u32 where "QDMA_OFFSET_GLBL_ERR_MASK \<equiv> 0x24C"

definition hw_err_position :: "nat list" where
  "hw_err_position = [QDMA_DSC_ERR_POISON, QDMA_TRQ_ERR_UNMAPPED, QDMA_ST_C2H_ERR_MTY_MISMATCH,
     QDMA_ST_FATAL_ERR_MTY_MISMATCH, QDMA_ST_H2C_ERR_ZERO_LEN_DESC, QDMA_SBE_ERR_MI_H2C0_DAT, QDMA_DBE_ERR_MI_H2C0_DAT]"

definition all_hw_errs :: "nat list" where
  "all_hw_errs = [QDMA_DSC_ERR_ALL, QDMA_TRQ_ERR_ALL, QDMA_ST_C2H_ERR_ALL, QDMA_ST_FATAL_ERR_ALL, QDMA_ST_H2C_ERR_ALL,
     QDMA_SBE_ERR_ALL, QDMA_DBE_ERR_ALL]"

subsection \<open>Debug registers\<close>

text \<open>
  Registers whose values are logged, without a buffer: those of the table from the entry of an
  address on.  An address that is not the start of an entry is an error, which the callers ignore.
\<close>

definition qdma_dump_reg_info :: "reg_env \<Rightarrow> u32 \<Rightarrow> u32 \<Rightarrow> reg_op list \<Rightarrow> int \<times> reg_op list" where
  "qdma_dump_reg_info env reg_addr n t =
     (let total_num_regs = length qdma_config_regs in
      case find (\<lambda>i. xaddr (qdma_config_regs ! i) = reg_addr) [0..<total_num_regs] of
        None \<Rightarrow> (- QDMA_ERR_INV_PARAM, t)
      | Some j \<Rightarrow>
          let num_regs_idx = (if of_nat j + n < of_nat total_num_regs then unat (of_nat j + n) else total_num_regs)
          in (0, fold (\<lambda>k t. snd (qdma_reg_read env (xaddr (qdma_config_regs ! k)) t)) [j..<num_regs_idx] t))"

primrec err_regs :: "err_process \<Rightarrow> u32 list" where
  "err_regs Desc_Err = [0x254, 0x25C, 0x260, 0x270, 0x274, 0x27C]"
| "err_regs Trq_Err = [0x264, 0x26C]"
| "err_regs St_H2c_Err = [0xE00, 0xE08, 0xE0C, 0xE10, 0xE14, 0xE18, 0xE1C]"
| "err_regs St_C2h_Err = [0xAF0, 0xAF8, 0xB30, 0xA88, 0xA8C, 0xA90, 0xA94, 0xB1C, 0xB20, 0xB24, 0xB28, 0xB10, 0xB14]"
| "err_regs Ram_Sbe_Err = [0xF4]"
| "err_regs Ram_Dbe_Err = [0xFC]"

definition err_dump :: "reg_env \<Rightarrow> err_process \<Rightarrow> reg_op list \<Rightarrow> reg_op list" where
  "err_dump env p t = fold (\<lambda>a t. snd (qdma_dump_reg_info env a 1 t)) (err_regs p) t"

subsection \<open>Processing\<close>

text \<open>The body of the loop over the blocks: the logged errors and the accesses so far.\<close>

definition err_block :: "reg_env \<Rightarrow> bool \<Rightarrow> nat \<Rightarrow> nat list \<times> reg_op list \<Rightarrow> nat list \<times> reg_op list" where
  "err_block env st_en i = (\<lambda>(log, t).
     let pos = hw_err_position ! i; info = qdma_err_info ! pos in
     if \<not> st_en \<and> (pos = QDMA_ST_C2H_ERR_MTY_MISMATCH \<or> pos = QDMA_ST_FATAL_ERR_MTY_MISMATCH \<or> pos = QDMA_ST_H2C_ERR_ZERO_LEN_DESC)
     then (log, t)
     else
       let (err_stat, t) = qdma_reg_read env (ei_stat_reg info) t in
       if err_stat = 0 then (log, t)
       else
         let t = err_dump env (ei_process info) t;
             found = filter (\<lambda>idx. err_stat AND ei_leaf_mask (qdma_err_info ! idx) \<noteq> 0) [pos..<all_hw_errs ! i]
         in (log @ found, qdma_reg_write (ei_stat_reg info) err_stat t))"

definition qdma_hw_error_process :: "dev_hndl \<Rightarrow> reg_op list \<Rightarrow> int \<times> nat list \<times> reg_op list" where
  "qdma_hw_error_process dev t = (case dev of
     None \<Rightarrow> (- QDMA_ERR_INV_PARAM, [], t)
   | Some env \<Rightarrow>
       let (dev_cap, t) = read_dev_attributes env t;
           (glbl_err_stat, t) = qdma_reg_read env QDMA_OFFSET_GLBL_ERR_STAT t in
       if glbl_err_stat = 0 then (QDMA_HW_ERR_NOT_DETECTED, [], t)
       else let (log, t) = fold (err_block env (at_st_en dev_cap)) [0..<7] ([], t)
            in (QDMA_SUCCESS, log, qdma_reg_write QDMA_OFFSET_GLBL_ERR_STAT glbl_err_stat t))"

subsection \<open>Enabling\<close>

definition enable_block :: "reg_env \<Rightarrow> bool \<Rightarrow> nat \<Rightarrow> reg_op list \<Rightarrow> reg_op list" where
  "enable_block env st_en idx t =
     (if \<not> st_en \<and> (idx = QDMA_ST_C2H_ERR_ALL \<or> idx = QDMA_ST_FATAL_ERR_ALL \<or> idx = QDMA_ST_H2C_ERR_ALL) then t
      else
        let info = qdma_err_info ! idx;
            t = qdma_reg_write (ei_mask_reg info) (ei_leaf_mask info) t;
            (reg_val, t) = qdma_reg_read env QDMA_OFFSET_GLBL_ERR_MASK t
        in qdma_reg_write QDMA_OFFSET_GLBL_ERR_MASK (reg_val OR FIELD_SET (ei_global_mask info) 1) t)"

definition qdma_hw_error_enable :: "dev_hndl \<Rightarrow> u32 \<Rightarrow> reg_op list \<Rightarrow> int \<times> reg_op list" where
  "qdma_hw_error_enable dev err_idx t = (case dev of
     None \<Rightarrow> (- QDMA_ERR_INV_PARAM, t)
   | Some env \<Rightarrow>
       if QDMA_ERRS_ALL < unat err_idx then (- QDMA_ERR_INV_PARAM, t)
       else let (dev_cap, t) = read_dev_attributes env t in
       if unat err_idx = QDMA_ERRS_ALL then (QDMA_SUCCESS, fold (enable_block env (at_st_en dev_cap)) all_hw_errs t)
       else if \<not> at_st_en dev_cap \<and> QDMA_ST_C2H_ERR_MTY_MISMATCH \<le> unat err_idx \<and> unat err_idx \<le> QDMA_ST_H2C_ERR_ALL
       then (QDMA_SUCCESS, t)
       else
         let info = qdma_err_info ! unat err_idx;
             (reg_val, t) = qdma_reg_read env (ei_mask_reg info) t;
             t = qdma_reg_write (ei_mask_reg info) (reg_val OR FIELD_SET (ei_leaf_mask info) 1) t;
             (reg_val, t) = qdma_reg_read env QDMA_OFFSET_GLBL_ERR_MASK t
         in (QDMA_SUCCESS, qdma_reg_write QDMA_OFFSET_GLBL_ERR_MASK (reg_val OR FIELD_SET (ei_global_mask info) 1) t))"

definition qdma_hw_get_error_name :: "u32 \<Rightarrow> string option" where
  "qdma_hw_get_error_name err_idx = (if QDMA_ERRS_ALL \<le> unat err_idx then None else Some (ei_name (qdma_err_info ! unat err_idx)))"

definition qdma_hw_error_intr_setup :: "dev_hndl \<Rightarrow> u16 \<Rightarrow> u8 \<Rightarrow> reg_op list \<Rightarrow> int \<times> reg_op list" where
  "qdma_hw_error_intr_setup dev func err_intr_index t = (case dev of
     None \<Rightarrow> (- QDMA_ERR_INV_PARAM, t)
   | Some env \<Rightarrow> (QDMA_SUCCESS, qdma_reg_write QDMA_OFFSET_GLBL_ERR_INT
       (FIELD_SET (GENMASK 7 0) (ucast func) OR FIELD_SET (GENMASK 22 12) (ucast err_intr_index)) t))"

definition qdma_hw_error_intr_rearm :: "dev_hndl \<Rightarrow> reg_op list \<Rightarrow> int \<times> reg_op list" where
  "qdma_hw_error_intr_rearm dev t = (case dev of
     None \<Rightarrow> (- QDMA_ERR_INV_PARAM, t)
   | Some env \<Rightarrow> let (reg_val, t) = qdma_reg_read env QDMA_OFFSET_GLBL_ERR_INT t
       in (QDMA_SUCCESS, qdma_reg_write QDMA_OFFSET_GLBL_ERR_INT (reg_val OR FIELD_SET (BIT 24) 1) t))"

subsection \<open>What is read, logged and cleared\<close>

fun writes_of :: "reg_op list \<Rightarrow> (u32 \<times> u32) list" where
  "writes_of [] = []"
| "writes_of (Reg_Read a # ps) = writes_of ps"
| "writes_of (Reg_Write a v # ps) = (a, v) # writes_of ps"

lemma writes_of_append [simp]: "writes_of (ps @ qs) = writes_of ps @ writes_of qs"
  by (induction ps rule: writes_of.induct) simp_all

lemma writes_of_reads [simp]: "writes_of (map Reg_Read as) = []"
  by (induction as) simp_all

text \<open>The blocks that are looked at, their status register, and the errors a status stands for.\<close>

definition err_blocks :: "bool \<Rightarrow> nat list" where
  "err_blocks st_en = filter (\<lambda>i. st_en \<or> i \<notin> {2, 3, 4}) [0..<7]"

definition block_stat :: "nat \<Rightarrow> u32" where
  "block_stat i = ei_stat_reg (qdma_err_info ! (hw_err_position ! i))"

definition block_errors :: "nat \<times> u32 \<Rightarrow> nat list" where
  "block_errors b = filter (\<lambda>idx. snd b AND ei_leaf_mask (qdma_err_info ! idx) \<noteq> 0) [hw_err_position ! fst b..<all_hw_errs ! fst b]"

lemma dump_reads: "\<exists>as. snd (qdma_dump_reg_info env a n t) = t @ map Reg_Read as"
proof -
  have f: "\<exists>as. fold (\<lambda>k t. snd (qdma_reg_read env (f k) t)) ks t = t @ map Reg_Read as" for f :: "nat \<Rightarrow> u32" and ks
  proof (induction ks arbitrary: t)
    case (Cons k ks)
    then obtain as where "fold (\<lambda>k t. snd (qdma_reg_read env (f k) t)) ks (t @ [Reg_Read (f k)]) = (t @ [Reg_Read (f k)]) @ map Reg_Read as" by blast
    then show ?case by (intro exI[of _ "f k # as"]) (simp add: qdma_reg_read_def)
  qed (auto intro: exI[of _ "[]"])
  show ?thesis using f by (auto simp: qdma_dump_reg_info_def Let_def intro: exI[of _ "[]"] split: option.splits)
qed

lemma err_dump_reads: "\<exists>as. err_dump env p t = t @ map Reg_Read as"
proof -
  have "\<exists>as. fold (\<lambda>a t. snd (qdma_dump_reg_info env a 1 t)) rs t = t @ map Reg_Read as" for rs
  proof (induction rs arbitrary: t)
    case (Cons r rs)
    obtain as where a: "snd (qdma_dump_reg_info env r 1 t) = t @ map Reg_Read as" using dump_reads by blast
    obtain bs where "fold (\<lambda>a t. snd (qdma_dump_reg_info env a 1 t)) rs (t @ map Reg_Read as) = (t @ map Reg_Read as) @ map Reg_Read bs"
      using Cons by blast
    then show ?case by (intro exI[of _ "as @ bs"]) (simp add: a)
  qed (auto intro: exI[of _ "[]"])
  then show ?thesis by (simp add: err_dump_def)
qed

lemma err_block_skips: "i < 7 \<Longrightarrow> \<not> (st_en \<or> i \<notin> {2, 3, 4}) \<Longrightarrow> err_block env st_en i s = s"
  by (cases s) (auto simp: err_block_def hw_err_position_def numeral_eq_Suc)

lemma err_block_reads:
  assumes "i < 7" "st_en \<or> i \<notin> {2, 3, 4}"
  shows "\<exists>v as. v = env (t @ [Reg_Read (block_stat i)]) \<and> err_block env st_en i (log, t) =
    (log @ block_errors (i, v), t @ Reg_Read (block_stat i) # map Reg_Read as @ (if v = 0 then [] else [Reg_Write (block_stat i) v]))"
proof -
  let ?v = "env (t @ [Reg_Read (block_stat i)])"
  have "i \<in> {0, 1, 2, 3, 4, 5, 6}" using assms(1) by auto
  then have "\<not> (\<not> st_en \<and> (hw_err_position ! i = 20 \<or> hw_err_position ! i = 34 \<or> hw_err_position ! i = 49))"
    using assms(2) by (auto simp: hw_err_position_def)
  then have e: "err_block env st_en i (log, t) = (if ?v = 0 then (log, t @ [Reg_Read (block_stat i)])
      else (log @ block_errors (i, ?v), qdma_reg_write (block_stat i) ?v
        (err_dump env (ei_process (qdma_err_info ! (hw_err_position ! i))) (t @ [Reg_Read (block_stat i)]))))"
    by (cases st_en) (simp_all add: err_block_def block_stat_def block_errors_def qdma_reg_read_def Let_def)
  obtain as where "err_dump env (ei_process (qdma_err_info ! (hw_err_position ! i))) (t @ [Reg_Read (block_stat i)]) =
      (t @ [Reg_Read (block_stat i)]) @ map Reg_Read as" using err_dump_reads by blast
  then show ?thesis
    by (intro exI[of _ ?v] exI[of _ "if ?v = 0 then [] else as"])
      (simp add: e qdma_reg_write_def block_errors_def)
qed

lemma err_blocks_fold:
  assumes "\<forall>i \<in> set is. i < 7"
  shows "\<exists>bs ops. fold (err_block env st_en) is (log, t) = (log @ concat (map block_errors bs), t @ ops) \<and>
    map fst bs = filter (\<lambda>i. st_en \<or> i \<notin> {2, 3, 4}) is \<and>
    writes_of ops = map (\<lambda>(i, v). (block_stat i, v)) (filter (\<lambda>(i, v). v \<noteq> 0) bs) \<and>
    (\<forall>(i, v) \<in> set bs. \<exists>pre post. ops = pre @ Reg_Read (block_stat i) # post \<and> v = env (t @ pre @ [Reg_Read (block_stat i)]))"
  using assms
proof (induction "is" arbitrary: log t)
  case (Cons i "is")
  show ?case
  proof (cases "st_en \<or> i \<notin> {2, 3, 4}")
    case False
    then show ?thesis using Cons err_block_skips[of i st_en env "(log, t)"] by auto
  next
    case True
    obtain v as where v: "v = env (t @ [Reg_Read (block_stat i)])" and e: "err_block env st_en i (log, t) =
      (log @ block_errors (i, v), t @ Reg_Read (block_stat i) # map Reg_Read as @ (if v = 0 then [] else [Reg_Write (block_stat i) v]))"
      using err_block_reads[OF _ True, of env t log] Cons.prems by auto
    let ?ops = "Reg_Read (block_stat i) # map Reg_Read as @ (if v = 0 then [] else [Reg_Write (block_stat i) v])"
    obtain bs ops where b: "fold (err_block env st_en) is (log @ block_errors (i, v), t @ ?ops) =
        ((log @ block_errors (i, v)) @ concat (map block_errors bs), (t @ ?ops) @ ops)"
      "map fst bs = filter (\<lambda>i. st_en \<or> i \<notin> {2, 3, 4}) is"
      "writes_of ops = map (\<lambda>(i, v). (block_stat i, v)) (filter (\<lambda>(i, v). v \<noteq> 0) bs)"
      "\<forall>(i, v) \<in> set bs. \<exists>pre post. ops = pre @ Reg_Read (block_stat i) # post \<and> v = env ((t @ ?ops) @ pre @ [Reg_Read (block_stat i)])"
      using Cons.IH[of "log @ block_errors (i, v)" "t @ ?ops"] Cons.prems by auto
    have "\<exists>pre post. ?ops @ ops = pre @ Reg_Read (block_stat j) # post \<and> w = env (t @ pre @ [Reg_Read (block_stat j)])"
      if "(j, w) \<in> set ((i, v) # bs)" for j w
    proof (cases "(j, w) = (i, v)")
      case True
      then show ?thesis
        using v by (intro exI[of _ "[]"] exI[of _ "map Reg_Read as @ (if v = 0 then [] else [Reg_Write (block_stat i) v]) @ ops"]) simp
    next
      case False
      then have "(j, w) \<in> set bs" using that by auto
      from bspec[OF b(4) this, unfolded prod.case]
      obtain pre post where "ops = pre @ Reg_Read (block_stat j) # post" "w = env ((t @ ?ops) @ pre @ [Reg_Read (block_stat j)])" by blast
      then show ?thesis by (intro exI[of _ "?ops @ pre"] exI[of _ post]) simp
    qed
    then have 4: "\<forall>(j, w) \<in> set ((i, v) # bs). \<exists>pre post. ?ops @ ops = pre @ Reg_Read (block_stat j) # post \<and>
        w = env (t @ pre @ [Reg_Read (block_stat j)])" by blast
    have 1: "fold (err_block env st_en) (i # is) (log, t) = (log @ concat (map block_errors ((i, v) # bs)), t @ ?ops @ ops)"
      using b(1) unfolding fold_simps comp_apply e by simp
    have 2: "map fst ((i, v) # bs) = filter (\<lambda>i. st_en \<or> i \<notin> {2, 3, 4}) (i # is)" using b(2) True by simp
    have 3: "writes_of (?ops @ ops) = map (\<lambda>(i, v). (block_stat i, v)) (filter (\<lambda>(i, v). v \<noteq> 0) ((i, v) # bs))"
      by (simp add: b(3))
    show ?thesis
      by (rule exI[of _ "(i, v) # bs"], rule exI[of _ "?ops @ ops"], intro conjI, rule 1, rule 2, rule 3, rule 4)
  qed
qed (auto intro: exI[of _ "[]"])

text \<open>The table: the entries stand at their index, and the bits that \<open>FIELD_SET\<close> makes of the masks.\<close>

definition enable_mask :: "qdma_hw_err_info \<Rightarrow> bool" where
  "enable_mask x \<longleftrightarrow> FIELD_SET (ei_leaf_mask x) 1 = (if ei_idx x \<in> set all_hw_errs then 1 else ei_leaf_mask x) \<and>
     FIELD_SET (ei_global_mask x) 1 = ei_global_mask x"

lemma err_masks: "list_all enable_mask qdma_err_info"
proof -
  have "list_all enable_mask desc_errs" "list_all enable_mask trq_errs" "list_all enable_mask c2h_errs"
    "list_all enable_mask fatal_errs" "list_all enable_mask h2c_errs" "list_all enable_mask sbe_errs_1"
    "list_all enable_mask sbe_errs_2" "list_all enable_mask dbe_errs_1" "list_all enable_mask dbe_errs_2" by code_simp+
  then show ?thesis by (simp add: qdma_err_info_def)
qed

lemma err_table: "map ei_idx qdma_err_info = [0..<107]"
  by code_simp

lemma err_count: "length qdma_err_info = 107"
  using arg_cong[OF err_table, of length] by (simp del: upt_Suc)

lemma err_indices: "i < 107 \<Longrightarrow> ei_idx (qdma_err_info ! i) = i"
  using arg_cong[OF err_table, of "\<lambda>xs. xs ! i"] by (simp add: err_count del: upt_Suc)

subsection \<open>Properties\<close>

text \<open>
  C26: error processing.  If the global status is 0 nothing is written.  Otherwise the status register
  of every block of the device is read once, without the streaming blocks of a device that cannot
  stream; the errors logged are exactly those of the table whose bit is set in a status that was
  read; and what is written is each status that is not 0, back to its register, and at last the global
  status: nothing is cleared that was not read.
\<close>

theorem qdma_hw_error_process_exact:
  assumes "read_dev_attributes env t = (a, u)" and "qdma_hw_error_process (Some env) t = (rv, log, t')"
  shows "if env (u @ [Reg_Read QDMA_OFFSET_GLBL_ERR_STAT]) = 0
    then rv = QDMA_HW_ERR_NOT_DETECTED \<and> log = [] \<and> t' = u @ [Reg_Read QDMA_OFFSET_GLBL_ERR_STAT]
    else \<exists>bs ops. rv = 0 \<and> t' = u @ Reg_Read QDMA_OFFSET_GLBL_ERR_STAT # ops \<and>
      map fst bs = err_blocks (at_st_en a) \<and> log = concat (map block_errors bs) \<and>
      writes_of ops = map (\<lambda>(i, v). (block_stat i, v)) (filter (\<lambda>(i, v). v \<noteq> 0) bs) @
        [(QDMA_OFFSET_GLBL_ERR_STAT, env (u @ [Reg_Read QDMA_OFFSET_GLBL_ERR_STAT]))] \<and>
      (\<forall>(i, v) \<in> set bs. \<exists>pre post. ops = pre @ Reg_Read (block_stat i) # post \<and>
         v = env (u @ Reg_Read QDMA_OFFSET_GLBL_ERR_STAT # pre @ [Reg_Read (block_stat i)]))"
proof (cases "env (u @ [Reg_Read QDMA_OFFSET_GLBL_ERR_STAT]) = 0")
  case True
  then show ?thesis using assms by (simp add: qdma_hw_error_process_def qdma_reg_read_def)
next
  case False
  let ?u = "u @ [Reg_Read QDMA_OFFSET_GLBL_ERR_STAT]" and ?w = "Reg_Write QDMA_OFFSET_GLBL_ERR_STAT (env (u @ [Reg_Read QDMA_OFFSET_GLBL_ERR_STAT]))"
  obtain bs ops where b: "fold (err_block env (at_st_en a)) [0..<7] ([], ?u) = (concat (map block_errors bs), ?u @ ops)"
    "map fst bs = err_blocks (at_st_en a)" "writes_of ops = map (\<lambda>(i, v). (block_stat i, v)) (filter (\<lambda>(i, v). v \<noteq> 0) bs)"
    "\<forall>(i, v) \<in> set bs. \<exists>pre post. ops = pre @ Reg_Read (block_stat i) # post \<and> v = env (?u @ pre @ [Reg_Read (block_stat i)])"
    using err_blocks_fold[of "[0..<7]" env "at_st_en a" "[]" ?u] unfolding err_blocks_def by auto
  have "rv = 0" "log = concat (map block_errors bs)" "t' = ?u @ ops @ [?w]"
    using assms b(1) False by (auto simp: qdma_hw_error_process_def qdma_reg_read_def qdma_reg_write_def simp del: upt_Suc)
  moreover have "\<forall>(i, v) \<in> set bs. \<exists>pre post. ops @ [?w] = pre @ Reg_Read (block_stat i) # post \<and>
      v = env (u @ Reg_Read QDMA_OFFSET_GLBL_ERR_STAT # pre @ [Reg_Read (block_stat i)])"
    using b(4) by fastforce
  ultimately show ?thesis using False b(2,3) by (intro if_not_P[THEN iffD2, rotated] exI[of _ bs] exI[of _ "ops @ [?w]"]) auto
qed

text \<open>A device that cannot stream and whose registers all read 9: two descriptor and two access errors are logged.\<close>

theorem qdma_hw_error_process_exact_witness:
  "\<exists>rv t'. qdma_hw_error_process (Some (\<lambda>_. 9)) [] = (rv, [0, 3, 15, 18, 55, 81], t') \<and> rv = 0 \<and>
     writes_of t' = [(0x254, 9), (0x264, 9), (0xF4, 9), (0xFC, 9), (QDMA_OFFSET_GLBL_ERR_STAT, 9)]"
proof -
  obtain a u where d: "read_dev_attributes (\<lambda>_. 9) [] = (a, u)" by fastforce
  have a: "\<not> at_st_en (fst (read_dev_attributes (\<lambda>_. 9) []))" "writes_of (snd (read_dev_attributes (\<lambda>_. 9) [])) = []" by code_simp+
  obtain rv log t' where p: "qdma_hw_error_process (Some (\<lambda>_. 9)) [] = (rv, log, t')" by (rule prod_cases3)
  from qdma_hw_error_process_exact[OF d p] obtain bs ops where b: "rv = 0" "t' = u @ Reg_Read QDMA_OFFSET_GLBL_ERR_STAT # ops"
    "map fst bs = err_blocks False" "log = concat (map block_errors bs)"
    "writes_of ops = map (\<lambda>(i, v). (block_stat i, v)) (filter (\<lambda>(i, v). v \<noteq> 0) bs) @ [(QDMA_OFFSET_GLBL_ERR_STAT, 9)]"
    "\<forall>(i, v) \<in> set bs. v = 9" using a d by fastforce
  have "err_blocks False = [0, 1, 5, 6]" by code_simp
  then have "bs = [(0, 9), (1, 9), (5, 9), (6, 9)]" using b(3,6) by (auto simp: Cons_eq_map_conv)
  moreover have "concat (map block_errors [(0, 9), (1, 9), (5, 9), (6, 9)]) = [0, 3, 15, 18, 55, 81]"
    "map block_stat [0, 1, 5, 6] = [0x254, 0x264, 0xF4, 0xFC]" by code_simp+
  ultimately show ?thesis using p b a d by auto
qed

text \<open>
  Enabling one error.  The bit enabled in the block's mask register is the error's own; but for the
  index that stands for all errors of a block it is only the lowest bit of their mask, which is bit 0
  in every block: the other errors stay as they were.  No bit is ever disabled, and the block is
  enabled in the global mask.
\<close>

theorem qdma_hw_error_enable_exact:
  assumes "read_dev_attributes env t = (a, u)" and "unat e < QDMA_ERRS_ALL"
    and "at_st_en a \<or> unat e < QDMA_ST_C2H_ERR_MTY_MISMATCH \<or> QDMA_ST_H2C_ERR_ALL < unat e"
  shows "let info = qdma_err_info ! unat e; v = env (u @ [Reg_Read (ei_mask_reg info)]);
      enabled = v OR (if unat e \<in> set all_hw_errs then 1 else ei_leaf_mask info);
      u' = u @ [Reg_Read (ei_mask_reg info), Reg_Write (ei_mask_reg info) enabled, Reg_Read QDMA_OFFSET_GLBL_ERR_MASK]
    in qdma_hw_error_enable (Some env) e t =
      (0, u' @ [Reg_Write QDMA_OFFSET_GLBL_ERR_MASK (env u' OR ei_global_mask info)])"
proof -
  have "qdma_err_info ! unat e \<in> set qdma_err_info" "ei_idx (qdma_err_info ! unat e) = unat e"
    using assms(2) err_indices by (simp_all add: err_count)
  then have "FIELD_SET (ei_leaf_mask (qdma_err_info ! unat e)) 1 = (if unat e \<in> set all_hw_errs then 1 else ei_leaf_mask (qdma_err_info ! unat e))"
    "FIELD_SET (ei_global_mask (qdma_err_info ! unat e)) 1 = ei_global_mask (qdma_err_info ! unat e)"
    using err_masks by (auto simp: list_all_iff enable_mask_def)
  then show ?thesis
    using assms by (auto simp: qdma_hw_error_enable_def qdma_reg_read_def qdma_reg_write_def Let_def)
qed

text \<open>The index for all descriptor errors enables the poison error alone, and not the fifteen bits of its mask.\<close>

theorem qdma_hw_error_enable_exact_witness:
  "\<exists>u. qdma_hw_error_enable (Some (\<lambda>_. 0)) 14 [] =
     (0, u @ [Reg_Read 0x258, Reg_Write 0x258 1, Reg_Read QDMA_OFFSET_GLBL_ERR_MASK, Reg_Write QDMA_OFFSET_GLBL_ERR_MASK 4]) \<and>
     ei_leaf_mask (qdma_err_info ! 14) = 0x1F9023F"
proof -
  obtain a u where d: "read_dev_attributes (\<lambda>_. 0) [] = (a, u)" by fastforce
  have i: "ei_mask_reg (qdma_err_info ! 14) = 0x258" "ei_global_mask (qdma_err_info ! 14) = 4" "ei_leaf_mask (qdma_err_info ! 14) = 0x1F9023F"
    "14 \<in> set all_hw_errs" by code_simp+
  show ?thesis using qdma_hw_error_enable_exact[OF d, of 14] i by (simp add: Let_def)
qed

end
