(* ===== verification/Qdma_Device.thy ===== *)
theory Qdma_Device
  imports Qdma_Ctrl Qdma_Csr_Props
begin

text \<open>
  The operations every QDMA IP shares (\<open>qdma_access_common.c\<close>): the recognition of the IP by its
  configuration block, the function number, the function level reset, and the read of a completion
  queue's doorbell.  The macro for more than 256 queues on CPM5 is not defined.
\<close>

unbundle bit_operations_syntax

abbreviation (input) QDMA_OFFSET_CONFIG_BLOCK_ID :: u32 where "QDMA_OFFSET_CONFIG_BLOCK_ID \<equiv> 0"
abbreviation (input) QDMA_OFFSET_VF_VERSION :: u32 where "QDMA_OFFSET_VF_VERSION \<equiv> 0x1014"
abbreviation (input) EQDMA_OFFSET_VF_VERSION :: u32 where "EQDMA_OFFSET_VF_VERSION \<equiv> 0x5014"
abbreviation (input) QDMA_OFFSET_VF_REG_FLR_STATUS :: u32 where "QDMA_OFFSET_VF_REG_FLR_STATUS \<equiv> 0x1100"
abbreviation (input) QDMA_OFFSET_PF_REG_FLR_STATUS :: u32 where "QDMA_OFFSET_PF_REG_FLR_STATUS \<equiv> 0x2500"
abbreviation (input) QDMA_OFFSET_GLBL2_CHANNEL_FUNC_RET :: u32 where "QDMA_OFFSET_GLBL2_CHANNEL_FUNC_RET \<equiv> 0x12C"
abbreviation (input) QDMA_MAGIC_NUMBER :: u32 where "QDMA_MAGIC_NUMBER \<equiv> 0x1FD3"
abbreviation (input) QDMA_ERR_HWACC_INV_CONFIG_BAR :: int where "QDMA_ERR_HWACC_INV_CONFIG_BAR \<equiv> 4"

datatype qdma_ip = QDMA_OR_VERSAL_IP | EQDMA_IP | EQDMA_CPM5_IP

text \<open>The kind of IP is the caller's, unless it is a virtual function.\<close>

definition qdma_is_config_bar :: "dev_hndl \<Rightarrow> bool \<Rightarrow> qdma_ip \<Rightarrow> reg_op list \<Rightarrow> int \<times> qdma_ip \<times> reg_op list" where
  "qdma_is_config_bar dev is_vf ip t = (case dev of
     None \<Rightarrow> (- QDMA_ERR_INV_PARAM, ip, t)
   | Some env \<Rightarrow>
       let (reg_val, t) = qdma_reg_read env (if is_vf then QDMA_OFFSET_VF_VERSION else QDMA_OFFSET_CONFIG_BLOCK_ID) t in
       if is_vf \<and> FIELD_GET (GENMASK 31 16) reg_val = QDMA_MAGIC_NUMBER then (QDMA_SUCCESS, QDMA_OR_VERSAL_IP, t)
       else
         let (ip, reg_val, t) = (if is_vf then let (v, t) = qdma_reg_read env EQDMA_OFFSET_VF_VERSION t in (EQDMA_IP, v, t)
                                 else (ip, reg_val, t))
         in (if FIELD_GET (GENMASK 31 16) reg_val \<noteq> QDMA_MAGIC_NUMBER then - QDMA_ERR_HWACC_INV_CONFIG_BAR else QDMA_SUCCESS, ip, t))"

definition qdma_get_function_number :: "dev_hndl \<Rightarrow> u16 option \<Rightarrow> reg_op list \<Rightarrow> int \<times> u16 option \<times> reg_op list" where
  "qdma_get_function_number dev func t = (case (dev, func) of
     (Some env, Some _) \<Rightarrow> (let (v, t) = qdma_reg_read env QDMA_OFFSET_GLBL2_CHANNEL_FUNC_RET t
       in (QDMA_SUCCESS, Some (ucast (ucast v :: u8)), t))
   | _ \<Rightarrow> (- QDMA_ERR_INV_PARAM, func, t))"

definition flr_reg :: "bool \<Rightarrow> u32" where
  "flr_reg is_vf = (if is_vf then QDMA_OFFSET_VF_REG_FLR_STATUS else QDMA_OFFSET_PF_REG_FLR_STATUS)"

definition qdma_initiate_flr :: "dev_hndl \<Rightarrow> bool \<Rightarrow> reg_op list \<Rightarrow> int \<times> reg_op list" where
  "qdma_initiate_flr dev is_vf t = (case dev of
     None \<Rightarrow> (- QDMA_ERR_INV_PARAM, t) | Some env \<Rightarrow> (QDMA_SUCCESS, qdma_reg_write (flr_reg is_vf) 1 t))"

definition qdma_is_flr_done :: "dev_hndl \<Rightarrow> bool \<Rightarrow> bool option \<Rightarrow> reg_op list \<Rightarrow> int \<times> bool option \<times> reg_op list" where
  "qdma_is_flr_done dev is_vf done_flag t = (case (dev, done_flag) of
     (Some env, Some _) \<Rightarrow>
       (let (rv, t) = hw_monitor_reg env (flr_reg is_vf) 1 0 (5 * QDMA_REG_POLL_DFLT_INTERVAL_US) QDMA_REG_POLL_DFLT_TIMEOUT_US t
        in (QDMA_SUCCESS, Some (\<not> rv < 0), t))
   | _ \<Rightarrow> (- QDMA_ERR_INV_PARAM, done_flag, t))"

definition qdma_queue_cmpt_cidx_read :: "dev_hndl \<Rightarrow> bool \<Rightarrow> u16 \<Rightarrow> qdma_q_cmpt_cidx_reg_info option \<Rightarrow> reg_op list \<Rightarrow>
    int \<times> qdma_q_cmpt_cidx_reg_info option \<times> reg_op list" where
  "qdma_queue_cmpt_cidx_read dev is_vf qid reg_info t = (case (dev, reg_info) of
     (Some env, Some i) \<Rightarrow>
       let (v, t) = qdma_reg_read env (cmpt_cidx_reg is_vf qid) t
       in (QDMA_SUCCESS, Some (i\<lparr>cr_wrb_cidx := ucast (FIELD_GET (GENMASK 15 0) v), cr_counter_idx := ucast (FIELD_GET (GENMASK 19 16) v),
             cr_wrb_en := ucast (FIELD_GET (BIT 27) v), cr_irq_en := ucast (FIELD_GET (BIT 28) v),
             cr_timer_idx := ucast (FIELD_GET (GENMASK 23 20) v), cr_trig_mode := ucast (FIELD_GET (GENMASK 26 24) v)\<rparr>), t)
   | _ \<Rightarrow> (- QDMA_ERR_INV_PARAM, reg_info, t))"

subsection \<open>Completion doorbell\<close>

text \<open>What is written to a completion queue's doorbell is what is read from it, if the fields fit.\<close>

definition cidx_fits :: "qdma_q_cmpt_cidx_reg_info \<Rightarrow> bool" where
  "cidx_fits i \<longleftrightarrow> unat (cr_counter_idx i) < 16 \<and> unat (cr_timer_idx i) < 16 \<and> unat (cr_trig_mode i) < 8 \<and>
     unat (cr_wrb_en i) < 2 \<and> unat (cr_irq_en i) < 2"

lemma cmpt_cidx_roundtrip:
  assumes "cidx_fits i" and "qdma_queue_cmpt_cidx_update (Some env) is_vf qid (Some i) t = (0, t1)"
    and "env (t1 @ ops @ [Reg_Read (cmpt_cidx_reg is_vf qid)]) = last_written t1 (cmpt_cidx_reg is_vf qid) 0"
  shows "qdma_queue_cmpt_cidx_read (Some env) is_vf qid (Some d) (t1 @ ops) =
     (0, Some i, t1 @ ops @ [Reg_Read (cmpt_cidx_reg is_vf qid)])"
proof -
  have "t1 = t @ [Reg_Write (cmpt_cidx_reg is_vf qid)
      (FIELD_SET (GENMASK 15 0) (ucast (cr_wrb_cidx i)) OR FIELD_SET (GENMASK 19 16) (ucast (cr_counter_idx i)) OR
       FIELD_SET (GENMASK 23 20) (ucast (cr_timer_idx i)) OR FIELD_SET (GENMASK 26 24) (ucast (cr_trig_mode i)) OR
       FIELD_SET (BIT 27) (ucast (cr_wrb_en i)) OR FIELD_SET (BIT 28) (ucast (cr_irq_en i)))]" (is "_ = t @ [Reg_Write _ ?v]")
    using assms(2) by (simp add: qdma_queue_cmpt_cidx_update_def qdma_reg_write_def)
  then have "last_written t1 (cmpt_cidx_reg is_vf qid) 0 = ?v" by (simp add: last_written_append)
  then have r: "env (t1 @ ops @ [Reg_Read (cmpt_cidx_reg is_vf qid)]) = ?v" using assms(3) by simp
  have "d\<lparr>cr_wrb_cidx := ucast (FIELD_GET (GENMASK 15 0) ?v), cr_counter_idx := ucast (FIELD_GET (GENMASK 19 16) ?v),
      cr_wrb_en := ucast (FIELD_GET (BIT 27) ?v), cr_irq_en := ucast (FIELD_GET (BIT 28) ?v),
      cr_timer_idx := ucast (FIELD_GET (GENMASK 23 20) ?v), cr_trig_mode := ucast (FIELD_GET (GENMASK 26 24) ?v)\<rparr> = i"
    using assms(1) by (intro qdma_q_cmpt_cidx_reg_info.equality) (simp_all add: cidx_fits_def mask_simps)
  then show ?thesis by (simp add: qdma_queue_cmpt_cidx_read_def qdma_reg_read_def r)
qed

subsection \<open>Property\<close>

text \<open>
  C37: a function level reset.  It is started by one write to the status register of the kind of
  function; waiting for it reads that register only, at most 10001 times, always returns, and says
  that the reset is done exactly if the device clears the bit by one of these reads.
\<close>

theorem qdma_flr_completes:
  "qdma_initiate_flr (Some env) is_vf t = (0, t @ [Reg_Write (flr_reg is_vf) 1]) \<and>
   (\<exists>k. 0 < k \<and> k \<le> 10001 \<and>
     qdma_is_flr_done (Some env) is_vf (Some b) t =
       (0, Some (\<exists>j. 0 < j \<and> j \<le> 10001 \<and> env (t @ replicate j (Reg_Read (flr_reg is_vf))) AND 1 = 0),
        t @ replicate k (Reg_Read (flr_reg is_vf))))"
proof
  show "qdma_initiate_flr (Some env) is_vf t = (0, t @ [Reg_Write (flr_reg is_vf) 1])"
    by (simp add: qdma_initiate_flr_def qdma_reg_write_def)
  obtain k where k: "k \<le> Suc 10000" "0 < k"
    "snd (monitor_loop env (flr_reg is_vf) 1 0 10000 t) = t @ replicate k (Reg_Read (flr_reg is_vf))"
    "if fst (monitor_loop env (flr_reg is_vf) 1 0 10000 t) = 0 then env (t @ replicate k (Reg_Read (flr_reg is_vf))) AND 1 = 0
     else fst (monitor_loop env (flr_reg is_vf) 1 0 10000 t) = - QDMA_ERR_HWACC_BUSY_TIMEOUT \<and>
       k = Suc 10000 \<and> (\<forall>j \<in> {1..Suc 10000}. env (t @ replicate j (Reg_Read (flr_reg is_vf))) AND 1 \<noteq> 0)"
    using monitor_loop_reads[of 10000 env "flr_reg is_vf" 1 0 t] by blast
  obtain rv u where m: "monitor_loop env (flr_reg is_vf) 1 0 10000 t = (rv, u)" by fastforce
  have "(\<not> rv < 0) = (\<exists>j. 0 < j \<and> j \<le> 10001 \<and> env (t @ replicate j (Reg_Read (flr_reg is_vf))) AND 1 = 0)"
    using k(1,2,4) unfolding m by (auto split: if_splits)
  moreover have "unat ((500 * 1000 :: u32) div (5 * 10) - 1) + 1 = 10000" by simp
  ultimately show "\<exists>k. 0 < k \<and> k \<le> 10001 \<and>
     qdma_is_flr_done (Some env) is_vf (Some b) t =
       (0, Some (\<exists>j. 0 < j \<and> j \<le> 10001 \<and> env (t @ replicate j (Reg_Read (flr_reg is_vf))) AND 1 = 0),
        t @ replicate k (Reg_Read (flr_reg is_vf)))"
    using k(1-3) m by (intro exI[of _ k]) (simp add: qdma_is_flr_done_def hw_monitor_reg_def)
qed

end
