(* ===== verification/Spec2Isabelle.thy ===== *)
theory Spec2Isabelle
  imports Xdma_Tx Sgdma_Probe Sgdma_Async_Props Sgdma_Aperture_Props Qdma_System Qdma_Err Qdma_Device
begin

text \<open>
  \<^bold>\<open>A verification library for libtsn\<close>

  libtsn implements time-sensitive networking on an FPGA network card.  Three parts of the
  repository carry logic of their own and are modelled here: the network device driver under
  \<open>src/driver/XDMA/linux-kernel/xdma\<close>, which decides when each frame may be sent; the scatter-gather
  engine of the same driver (\<open>libxdma.c\<close>), which cuts a request into descriptors and runs them on the
  hardware; and the QDMA access library under
  \<open>src/driver/QDMA/linux-kernel/driver/libqdma/qdma_access\<close>, which divides the hardware queues of a DMA
  device between its functions and programs them.

  \<^bold>\<open>The network driver.\<close>  The kernel hands a frame to \<open>xdma_netdev_start_xmit\<close>, which asks the
  scheduler (\<open>tsn_fill_metadata\<close>) whether the frame is accepted and in which window of the gate
  schedule the hardware may send it, puts a metadata header with clock ticks before the frame and
  starts the DMA transfer; the interrupt handler releases the frame and wakes the queue, and a worker
  per timestamp slot delivers the hardware's transmit timestamp.  The kernel's traffic control
  configures the scheduler (\<open>tsn_set_mqprio\<close>, \<open>tsn_set_qav\<close>, \<open>tsn_set_qbv\<close>); the clock between ticks
  and nanoseconds is adjusted by the PTP operations.  Theories, with the files they model:

  \<^item> \<open>CDouble\<close>: finite doubles as rationals, every operation rounded to 53 bits, for the arithmetic
    of the clock and of the shaper.
  \<^item> \<open>Xdma_State\<close>, \<open>Alinx_Arch\<close>, \<open>Alinx_Ptp\<close> (\<open>alinx_arch.c\<close>, \<open>alinx_ptp.c\<close>): the device's state, its
    registers and counters, and the PTP clock.  A register read is an answer of an environment to the
    accesses made so far.  Lemmas: what each clock operation sets the clock to, and the round trip
    between ticks and nanoseconds.
  \<^item> \<open>Tsn_Bake\<close>, \<open>Tsn_Sched\<close> (\<open>tsn.c\<close>: \<open>bake_qos_config\<close>, \<open>get_timestamps\<close>): the gate control list is
    baked into one alternating timeline per priority, and a frame's window is searched in it.  Lemmas:
    the timeline is the list at every instant; a window lies in open gate
    time, holds the whole transmission and is the earliest that does.
  \<^item> \<open>Tsn_Qav\<close>, \<open>Tsn_Frame\<close>, \<open>Tsn_Config\<close> (\<open>tsn.c\<close>: the credit-based shaper, \<open>tsn_fill_metadata\<close>, the
    offloads).  Lemmas: the credit law, admission and window of a frame, the invariant of the
    scheduler's state, and what an offload installs.
  \<^item> \<open>Xdma_Netdev\<close>, \<open>Xdma_Tx\<close> (\<open>xdma_netdev.c\<close>, the interrupt handler of \<open>libxdma.c\<close>): every network
    device operation, and the ownership of buffers as a step relation over transmissions, interrupts
    and workers in any order.

  \<^bold>\<open>The scatter-gather engine.\<close>  A request is a scatter list.  \<open>xdma_xfer_submit\<close> cuts its entries into
  pieces a descriptor can carry, takes as many as the ring has room for, writes and links their
  descriptors, queues the transfer on the engine and sleeps until the service routine, which runs in an
  interrupt or in polling, has woken it.  Theories, all for \<open>libxdma.c\<close> and \<open>libxdma.h\<close>:

  \<^item> \<open>Sgdma_Desc\<close>, \<open>Sgdma_Engine\<close>, \<open>Sgdma_Submit\<close>: the requests and descriptors, the engine
    (\<open>xdma_engine\<close>, whose fields are those of \<open>struct xdma_engine\<close> that the code decides by, with its
    ring \<open>en_desc\<close>, its queue \<open>en_transfer_list\<close> of names of transfers and their contents \<open>en_xfers\<close>, the
    register accesses \<open>en_ops\<close> and the wake-ups \<open>en_wakes\<close>), and the submission that waits.
  \<^item> \<open>Sgdma_Request\<close>, \<open>Sgdma_Chain\<close>, \<open>Sgdma_Walk\<close>, \<open>Sgdma_Props\<close>: the pieces of a request are those of
    its list and fit the array; the chain built, in closed form, and as the hardware walks it.
  \<^item> \<open>Sgdma_Copy\<close>, \<open>Sgdma_Queue\<close>, \<open>Sgdma_System\<close>: one transfer on a device that walks the chain, the
    queue under service whatever the hardware reports, and a whole request down to the bytes copied.
  \<^item> \<open>Sgdma_Setup\<close>, \<open>Sgdma_Probe\<close>: setting up, probing and taking down engines, off and on line, channel
    interrupt and polling.  Lemmas: an opened device has exactly the channels found, ready for requests.
  \<^item> \<open>Sgdma_Async\<close>, \<open>Sgdma_Async_Props\<close>: requests nobody waits for and their completion, which work for
    one ring of descriptors and go wrong beyond it.
  \<^item> \<open>Sgdma_Aperture\<close>, \<open>Sgdma_Aperture_Props\<close>: requests against a window of addresses.

  \<^bold>\<open>The QDMA access library.\<close>  A virtual function sends a message through the mailbox; the physical
  function's handler consults the resource manager, programs the queue contexts through the access
  functions of the IP, and answers.  Theories:

  \<^item> \<open>Qdma_List\<close> (\<open>qdma_list.c\<close>): rings of nodes on a heap, with the refinement to lists.
  \<^item> \<open>Qdma_Resource\<close>, \<open>Qdma_Free\<close>, \<open>Qdma_Rm\<close> (\<open>qdma_resource_mgmt.c\<close>): the queues of a device, its
    free list, and the sequences of operations on them.  Lemmas: a request moves queues and never
    duplicates one; requests are granted exactly when a run of queues is free.
  \<^item> \<open>Qdma_Ctxt\<close>, \<open>Qdma_Mbox\<close>, \<open>Qdma_Mbox_Hw\<close> (\<open>qdma_mbox_protocol.c\<close>): messages, contexts, both
    handlers and the transfer through the mailbox registers.  \<open>Qdma_Mbox_Safe\<close> and \<open>Qdma_Mbox_Props\<close>
    show which hardware calls a message can cause and what they add up to.
  \<^item> \<open>Qdma_Field\<close>, \<open>Qdma_Indirect\<close>, \<open>Qdma_Soft\<close>, \<open>Qdma_Soft_Props\<close> (\<open>qdma_access_common.h\<close>,
    \<open>qdma_soft_access.c\<close>): bit fields and masks, indirect access to the contexts with its polling, and
    the six kinds of context, packed and unpacked.  Lemmas: fields round-trip; a device that stores
    contexts returns what was written.
  \<^item> \<open>Qdma_Csr\<close>, \<open>Qdma_Ctrl\<close>, \<open>Qdma_Csr_Props\<close>, \<open>Qdma_Device\<close> (\<open>qdma_soft_access.c\<close>,
    \<open>qdma_access_common.c\<close>): device attributes, groups of configuration registers and their defaults,
    doorbells, the legacy interrupt, the initialisation of the context memory, the recognition of the
    IP and the function level reset.
  \<^item> \<open>Qdma_Regs\<close>, \<open>Qdma_Err\<close> (\<open>qdma_soft_access.c\<close>): the register table with the lists a virtual
    function may read, and the table of hardware errors with their processing and enabling.
  \<^item> \<open>Qdma_System\<close>: the mailbox handler on top of the access functions.  Every hardware call of the
    handler is run on the model of the access function (\<open>soft_call\<close>, the table that
    \<open>qdma_hw_access_init\<close> fills), so that a message is followed down to the register writes.

  \<^bold>\<open>How the code is represented.\<close>
  \<^item> Machine integers are words of the declared width; arithmetic wraps where the code's does.  A
    signed 32-bit integer is read with \<open>sint\<close>; return values that only carry error codes are \<open>int\<close>.
  \<^item> What C leaves undefined or the kernel traps on is a fault on the left of a sum (\<open>Prelude\<close>):
    division by zero, an index outside an array, a conversion out of range, a null pointer, a shift
    too far.  An error the code reports is a return value.
  \<^item> Hardware is a function from the history of register accesses to the value the next read returns,
    and a function of the driver returns the history extended by its own accesses.  So every theorem
    holds for every device, unless it names a hypothesis: \<open>ctxt_device\<close> (a context read returns the
    words of the last completed write, clear or invalidation of that context) and \<open>latching\<close> (a
    register holds what was written), each shown to hold of a concrete device in the witnesses.
  \<^item> The members of the message union are kept side by side, and a handler reads the member its
    operation code selects.  Allocations consume a list of outcomes.  Locks make an operation atomic.
  \<^item> Loops: over an index range, a fold; over a ring, fuel, and any fuel beyond the length of the ring
    is enough (\<open>for_each_safe_empties_list\<close>); polling, a counter, at most 50001 reads for a context
    command and 10001 for a reset, which are the code's own bounds; over the transfers of a request,
    fuel, of which more than \<open>request_room\<close>, the number of descriptors counted for the request, is
    enough (\<open>xdma_xfer_submit_copies\<close>); polling of the writeback, the values found there.
  \<^item> Sleeping is a function on the engine and the outside world (\<open>waiting\<close>).  The theorems on bytes
    use \<open>copying_device\<close>, which reads the chain from the registers that started it and then runs the
    modelled service routine; the theorem on the queue allows any values and any order of events.
  \<^item> The scatter list that the kernel maps, the memory it hands out for rings, and whether an
    allocation succeeds are arguments.
  \<^item> Every read of a context or a register list goes into a structure given by the caller, so that
    parts the code leaves unwritten keep the caller's values.

  \<^bold>\<open>Interfaces.\<close>  \<open>safe_machine\<close> (\<open>Prelude\<close>) is a machine whose operations keep an invariant and do not
  fault; it is interpreted on the offloads, on the resource manager with and without failing
  allocations, and on the mailbox.  \<open>dlist\<close> states what a list implementation promises and is
  interpreted on the ring.  \<open>gate_schedule\<close> is what the search for a window needs of a baked timeline.
  \<open>ctxt_codec\<close> is what a kind of context needs in order to survive the hardware: that unpacking
  inverts packing for values that fit their fields; it is interpreted on five kinds of context.
  \<open>completing_wait\<close> is what submitting a request needs of the wait: that the chain started is copied
  and the transfer completed; it is interpreted on the copying device and the service routine.

  \<^bold>\<open>Hypotheses on the environment.\<close>  \<open>rm_valid\<close> excludes requests whose end wraps around in 32 bits
  (\<open>qdma_wrapping_request_shares_queues\<close> shows what they do), \<open>msg_ok\<close> messages with more than one
  interrupt ring, and \<open>unchecked_cmpt\<close> names the request that the handler does not check
  (\<open>mbox_cmpt_clear_unchecked\<close>).  \<open>list_ready\<close> is a scatter list whose pieces can be counted and
  allocated in 32 bits (\<open>init_request_room_wraps\<close> shows what happens otherwise), \<open>engine_ready\<close> an idle
  memory-mapped engine with a ring, which probing establishes (\<open>open_engines_ready\<close>) given memory
  (\<open>mem_ok\<close>), \<open>fits\<close> asks for completion records for the descriptors of a transfer on a stream that
  reports the end of packets, and \<open>window_ok\<close> keeps a window away from the end of the address space.

  \<^bold>\<open>Not modelled.\<close>  Of \<open>libxdma.c\<close>: the submission of several buffers at once and the performance test,
  which repeat the modelled submission with other bookkeeping, the stop of a cyclic transfer, and the
  set-up of interrupt vectors, BARs and PCI.  The character devices, threads and probing of the XDMA
  driver, whose work is page pinning, user copies and kernel calls.  The text dumps of registers and
  contexts and the names of versions.  The access libraries of the later IPs (eqdma, eqdma_cpm5,
  qdma_cpm4), which repeat that of the soft IP with other tables: most of their lines are register
  tables and dumps.  The QDMA drivers around the access library and their DPDK and Windows versions,
  which contain copies of it; the XVSEC driver; the Rust and Python front ends.
\<close>

end
